(* ===== verification/Bricklib_Prelude.thy ===== *)
theory Bricklib_Prelude
  imports Main "HOL-Library.Word" "HOL-Library.Monad_Syntax"
begin

text \<open>
  Shared vocabulary of the development: the machine integers of the C code, array accesses
  whose out-of-range case is an explicit \<open>None\<close> (undefined behaviour in C), little-endian
  byte packing, and the generic lemmas on words and lists the components use.
\<close>

unbundle bit_operations_syntax

section \<open>Machine integers\<close>

type_synonym u8 = "8 word"
type_synonym u16 = "16 word"
type_synonym u32 = "32 word"
type_synonym u64 = "64 word"

text \<open>
  C division and remainder truncate towards zero (C99 6.5.5), Isabelle's round down.
\<close>

definition c_div :: "int \<Rightarrow> int \<Rightarrow> int" where
  "c_div a b = sgn a * sgn b * (\<bar>a\<bar> div \<bar>b\<bar>)"

section \<open>Collections\<close>

named_theorems arr_simps \<open>reads and writes of arrays that are in range\<close>
named_theorems word_nat \<open>comparison and arithmetic of words through unat\<close>

section \<open>Array accesses\<close>

definition arr_get :: "'a list \<Rightarrow> nat \<Rightarrow> 'a option" where
  "arr_get xs i = (if i < length xs then Some (xs ! i) else None)"

definition arr_set :: "'a list \<Rightarrow> nat \<Rightarrow> 'a \<Rightarrow> 'a list option" where
  "arr_set xs i v = (if i < length xs then Some (xs[i := v]) else None)"

lemma arr_get_in [arr_simps]: "i < length xs \<Longrightarrow> arr_get xs i = Some (xs ! i)"
  by (simp add: arr_get_def)

lemma arr_set_in [arr_simps]: "i < length xs \<Longrightarrow> arr_set xs i v = Some (xs[i := v])"
  by (simp add: arr_set_def)

lemma arr_get_Some_iff: "arr_get xs i = Some v \<longleftrightarrow> i < length xs \<and> v = xs ! i"
  by (auto simp: arr_get_def)

lemma arr_set_Some_iff: "arr_set xs i v = Some ys \<longleftrightarrow> i < length xs \<and> ys = xs[i := v]"
  by (auto simp: arr_set_def)

text \<open>A sequence of steps that does not fail.\<close>

lemma bind_SomeE:
  assumes "Option.bind m f = Some r"
  obtains a where "m = Some a" "f a = Some r"
  using assms by (cases m) auto

section \<open>Words as naturals\<close>

lemma unat_Suc_no_wrap [word_nat]:
  fixes w b :: "'a::len word"
  assumes "unat w < unat b"
  shows "unat (w + 1) = Suc (unat w)"
proof -
  have "unat b < 2 ^ LENGTH('a)"
    by (rule unsigned_less)
  with assms have "unat w + 1 < 2 ^ LENGTH('a)"
    by linarith
  then show ?thesis
    by (simp add: unat_word_ariths)
qed

lemma unat_minus_1 [word_nat]:
  fixes w :: "'a::len word"
  assumes "0 < unat w"
  shows "unat (w - 1) = unat w - 1"
proof -
  have "w \<noteq> 0" using assms by auto
  then show ?thesis by (rule unat_minus_one)
qed

lemma unat_sub_no_wrap [word_nat]:
  fixes a b :: "'a::len word"
  shows "unat b \<le> unat a \<Longrightarrow> unat (a - b) = unat a - unat b"
  by (simp add: unat_sub word_le_nat_alt)

lemma unat_u8 [simp]: "unat (w :: u8) < 256"
proof -
  have "unat w < 2 ^ LENGTH(8)" by (rule unsigned_less)
  then show ?thesis by simp
qed

lemma unat_u16 [simp]: "unat (w :: u16) < 65536"
proof -
  have "unat w < 2 ^ LENGTH(16)" by (rule unsigned_less)
  then show ?thesis by simp
qed

lemma unat_u32 [simp]: "unat (w :: u32) < 4294967296"
proof -
  have "unat w < 2 ^ LENGTH(32)" by (rule unsigned_less)
  then show ?thesis by simp
qed

lemmas [word_nat] = word_less_nat_alt word_le_nat_alt word_unat_eq_iff

lemma mod_add_wrap:
  fixes a b n :: nat
  assumes "a < n" "b \<le> n"
  shows "(a + b) mod n = (if a + b < n then a + b else a + b - n)"
  using assms by (simp add: mod_if)

lemma drop_map_upt: "drop k (map f [0..<n]) = map (\<lambda>i. f (k + i)) [0..<n - k]"
  by (rule nth_equalityI) simp_all

lemma unat_min: "unat (min a b :: 'a::len word) = min (unat a) (unat b)"
  by (simp add: min_def word_le_nat_alt)

lemma bit_word_out: "LENGTH('a) \<le> i \<Longrightarrow> \<not> bit (w :: 'a::len word) i"
  using bit_imp_le_length not_le by blast

lemma bit_lt:
  "bit (a :: u8) i \<Longrightarrow> i < 8" "bit (b :: u16) i \<Longrightarrow> i < 16" "bit (c :: u32) i \<Longrightarrow> i < 32"
  by (auto dest!: bit_imp_le_length)

lemma u8_bit_out: "8 \<le> i \<Longrightarrow> \<not> bit (a :: u8) i"
  using bit_lt(1) not_less by blast

lemma byte_mask: "(0xFF :: 'a::len word) = mask 8"
  by (simp add: mask_numeral)

lemma unat_drop_bit: "unat (drop_bit n w) = unat w div 2 ^ n"
proof -
  have "unat (drop_bit n w) = drop_bit n (unat w)"
    by (simp only: unsigned_drop_bit_eq take_bit_nat_eq_self[OF unsigned_less])
  then show ?thesis
    by (simp only: drop_bit_eq_div[of n "unat w"])
qed

lemma of_nat_unat: "of_nat (unat w) = ucast w"
  by transfer simp

lemma unat_ucast_u8:
  "unat (ucast (b :: u8) :: u16) = unat b" "unat (ucast (b :: u8) :: u32) = unat b"
proof -
  have "unat b < 2 ^ 16" "unat b < 2 ^ 32"
    by (rule less_trans[OF unat_u8], simp)+
  then show "unat (ucast b :: u16) = unat b" "unat (ucast b :: u32) = unat b"
    by (simp_all add: unsigned_ucast_eq take_bit_nat_eq_self)
qed

section \<open>Little-endian packing\<close>

definition le16 :: "u16 \<Rightarrow> u8 list" where
  "le16 w = [ucast w, ucast (drop_bit 8 w)]"

definition le32 :: "u32 \<Rightarrow> u8 list" where
  "le32 w = [ucast w, ucast (drop_bit 8 w), ucast (drop_bit 16 w), ucast (drop_bit 24 w)]"

definition un_le16 :: "u8 \<Rightarrow> u8 \<Rightarrow> u16" where
  "un_le16 b0 b1 = ucast b0 OR push_bit 8 (ucast b1)"

definition un_le32 :: "u8 \<Rightarrow> u8 \<Rightarrow> u8 \<Rightarrow> u8 \<Rightarrow> u32" where
  "un_le32 b0 b1 b2 b3 =
     ucast b0 OR push_bit 8 (ucast b1) OR push_bit 16 (ucast b2) OR push_bit 24 (ucast b3)"

lemma length_le16 [simp]: "length (le16 w) = 2"
  by (simp add: le16_def)

lemma length_le32 [simp]: "length (le32 w) = 4"
  by (simp add: le32_def)

lemma un_le16_le16: "un_le16 (le16 w ! 0) (le16 w ! 1) = w"
  by (auto simp: un_le16_def le16_def bit_eq_iff bit_simps not_less)

lemma un_le32_le32: "un_le32 (le32 w ! 0) (le32 w ! 1) (le32 w ! 2) (le32 w ! 3) = w"
proof -
  have "ucast (ucast w :: u8) OR push_bit 8 (ucast (ucast (drop_bit 8 w) :: u8)) OR
     push_bit 16 (ucast (ucast (drop_bit 16 w) :: u8)) OR
     push_bit 24 (ucast (ucast (drop_bit 24 w) :: u8)) = w"
    by (rule bit_word_eqI)
      (auto simp add: bit_or_iff bit_push_bit_iff bit_unsigned_iff bit_drop_bit_eq not_less
        intro: ccontr)
  then show ?thesis
    by (simp add: un_le32_def le32_def)
qed

end
