(* ===== verification/Bounded_Queue.thy ===== *)
theory Bounded_Queue
  imports Bricklib_Prelude
begin

text \<open>
  The interface a client of a bounded FIFO relies on: an abstraction to a list, a capacity, an
  enqueue that reports whether the element was taken and a dequeue that reports whether there
  was one. Both may fail with \<open>None\<close> (an access outside the memory); the laws exclude that for
  states that satisfy the invariant. Runs of operations are compared with runs on a list.
\<close>

datatype 'a qop = Enq 'a | Deq

datatype 'a qres = Taken bool | Got "'a option"

fun q_run ::
  "('q \<Rightarrow> 'a \<Rightarrow> ('q \<times> bool) option) \<Rightarrow> ('q \<Rightarrow> ('q \<times> 'a option) option) \<Rightarrow>
   'q \<Rightarrow> 'a qop list \<Rightarrow> ('q \<times> 'a qres list) option" where
  "q_run enq deq q [] = Some (q, [])"
| "q_run enq deq q (Enq x # ops) = do {
     (q', ok) \<leftarrow> enq q x;
     (q'', rs) \<leftarrow> q_run enq deq q' ops;
     Some (q'', Taken ok # rs)
   }"
| "q_run enq deq q (Deq # ops) = do {
     (q', r) \<leftarrow> deq q;
     (q'', rs) \<leftarrow> q_run enq deq q' ops;
     Some (q'', Got r # rs)
   }"

text \<open>The specification: a list that refuses elements beyond its capacity.\<close>

fun list_run :: "nat \<Rightarrow> 'a list \<Rightarrow> 'a qop list \<Rightarrow> 'a list \<times> 'a qres list" where
  "list_run cap xs [] = (xs, [])"
| "list_run cap xs (Enq x # ops) =
     (if length xs < cap
      then let (ys, rs) = list_run cap (xs @ [x]) ops in (ys, Taken True # rs)
      else let (ys, rs) = list_run cap xs ops in (ys, Taken False # rs))"
| "list_run cap xs (Deq # ops) =
     (case xs of
        [] \<Rightarrow> let (ys, rs) = list_run cap [] ops in (ys, Got None # rs)
      | x # xs' \<Rightarrow> let (ys, rs) = list_run cap xs' ops in (ys, Got (Some x) # rs))"

text \<open>What was accepted and what was delivered in a run.\<close>

fun accepted :: "'a qop list \<Rightarrow> 'a qres list \<Rightarrow> 'a list" where
  "accepted (Enq x # ops) (Taken True # rs) = x # accepted ops rs"
| "accepted (_ # ops) (_ # rs) = accepted ops rs"
| "accepted _ _ = []"

fun delivered :: "'a qres list \<Rightarrow> 'a list" where
  "delivered [] = []"
| "delivered (Got (Some x) # rs) = x # delivered rs"
| "delivered (_ # rs) = delivered rs"

lemma list_run_fifo:
  "list_run cap xs ops = (ys, rs) \<Longrightarrow> xs @ accepted ops rs = delivered rs @ ys"
proof (induction cap xs ops arbitrary: rs rule: list_run.induct)
  case (3 cap xs ops)
  then show ?case by (auto split: list.splits prod.splits)
next
  case (2 cap xs x ops)
  then show ?case by (auto split: prod.splits if_splits)
qed simp

lemma list_run_bound:
  "list_run cap xs ops = (ys, rs) \<Longrightarrow> length xs \<le> cap \<Longrightarrow> length ys \<le> cap"
  by (induction cap xs ops arbitrary: rs rule: list_run.induct)
    (auto split: list.splits prod.splits if_splits)

locale bounded_queue =
  fixes abs :: "'q \<Rightarrow> 'a list"
    and cap :: "'q \<Rightarrow> nat"
    and inv :: "'q \<Rightarrow> bool"
    and enq :: "'q \<Rightarrow> 'a \<Rightarrow> ('q \<times> bool) option"
    and deq :: "'q \<Rightarrow> ('q \<times> 'a option) option"
  assumes enq_room: "inv q \<Longrightarrow> length (abs q) < cap q \<Longrightarrow>
      \<exists>q'. enq q x = Some (q', True) \<and> inv q' \<and> abs q' = abs q @ [x] \<and> cap q' = cap q"
    and enq_full: "inv q \<Longrightarrow> cap q \<le> length (abs q) \<Longrightarrow>
      \<exists>q'. enq q x = Some (q', False) \<and> inv q' \<and> abs q' = abs q \<and> cap q' = cap q"
    and deq_empty: "inv q \<Longrightarrow> abs q = [] \<Longrightarrow>
      \<exists>q'. deq q = Some (q', None) \<and> inv q' \<and> abs q' = [] \<and> cap q' = cap q"
    and deq_Cons: "inv q \<Longrightarrow> abs q = x # xs \<Longrightarrow>
      \<exists>q'. deq q = Some (q', Some x) \<and> inv q' \<and> abs q' = xs \<and> cap q' = cap q"
begin

lemma run_refines:
  assumes "inv q"
  shows "\<exists>q' rs. q_run enq deq q ops = Some (q', rs) \<and> inv q' \<and> cap q' = cap q \<and>
    list_run (cap q) (abs q) ops = (abs q', rs)"
  using assms
proof (induction ops arbitrary: q)
  case (Cons op ops)
  show ?case
  proof (cases op)
    case (Enq x)
    show ?thesis
    proof (cases "length (abs q) < cap q")
      case True
      with Cons.prems obtain q' where "enq q x = Some (q', True)" "inv q'"
        "abs q' = abs q @ [x]" "cap q' = cap q" using enq_room by blast
      with Cons.IH [of q'] True Enq show ?thesis by auto
    next
      case False
      with Cons.prems obtain q' where "enq q x = Some (q', False)" "inv q'"
        "abs q' = abs q" "cap q' = cap q" using enq_full by (meson not_less)
      with Cons.IH [of q'] False Enq show ?thesis by auto
    qed
  next
    case Deq
    show ?thesis
    proof (cases "abs q")
      case Nil
      with Cons.prems obtain q' where "deq q = Some (q', None)" "inv q'"
        "abs q' = []" "cap q' = cap q" using deq_empty by blast
      with Cons.IH [of q'] Nil Deq show ?thesis by auto
    next
      case (Cons x xs)
      with \<open>inv q\<close> obtain q' where "deq q = Some (q', Some x)" "inv q'"
        "abs q' = xs" "cap q' = cap q" using deq_Cons by blast
      with Cons.IH [of q'] Cons Deq show ?thesis by auto
    qed
  qed
qed simp

text \<open>First in, first out: what was accepted is what was delivered and what is still queued.\<close>

lemma run_fifo:
  assumes "inv q" "q_run enq deq q ops = Some (q', rs)"
  shows "abs q @ accepted ops rs = delivered rs @ abs q'"
proof -
  from run_refines [OF assms(1), of ops] assms(2)
  have "list_run (cap q) (abs q) ops = (abs q', rs)" by auto
  then show ?thesis by (rule list_run_fifo)
qed

lemma run_no_fault: "inv q \<Longrightarrow> q_run enq deq q ops \<noteq> None"
  using run_refines [of q ops] by auto

end

end
