(* ===== verification/Ringbuffer.thy ===== *)
theory Ringbuffer
  imports Bounded_Queue
begin

text \<open>
  The byte ring buffer of \<^verbatim>\<open>utility/ringbuffer.c\<close>. The struct's pointer
  \<^verbatim>\<open>buffer\<close> is an offset into a byte memory that every operation takes and
  returns, because RS485 lets two rings share one array. An access outside the memory is
  \<open>None\<close>. The locale \<open>bounded_queue\<close> states what a client may rely on; it is interpreted on
  the ring operations, and a run of any sequence of operations refines a bounded list.
\<close>

section \<open>State and operations\<close>

record ringbuffer =
  rb_overflows :: u32
  rb_start :: u16
  rb_end :: u16
  rb_size :: u16
  rb_low_watermark :: u16
  rb_buffer :: nat

definition ringbuffer_get_used :: "ringbuffer \<Rightarrow> u16" where
  "ringbuffer_get_used rb =
     (if rb_end rb < rb_start rb then rb_size rb + rb_end rb - rb_start rb
      else rb_end rb - rb_start rb)"

definition ringbuffer_get_free :: "ringbuffer \<Rightarrow> ringbuffer \<times> u16" where
  "ringbuffer_get_free rb =
     (let free = rb_size rb - ringbuffer_get_used rb in
      (if free < rb_low_watermark rb then rb\<lparr>rb_low_watermark := free\<rparr> else rb, free))"

definition ringbuffer_is_empty :: "ringbuffer \<Rightarrow> bool" where
  "ringbuffer_is_empty rb \<longleftrightarrow> rb_start rb = rb_end rb"

definition ringbuffer_is_full :: "ringbuffer \<Rightarrow> ringbuffer \<times> bool" where
  "ringbuffer_is_full rb = (let (rb', free) = ringbuffer_get_free rb in (rb', free < 2))"

definition ringbuffer_add ::
  "u8 list \<Rightarrow> ringbuffer \<Rightarrow> u8 \<Rightarrow> (u8 list \<times> ringbuffer \<times> bool) option" where
  "ringbuffer_add mem rb data = do {
     mem' \<leftarrow> arr_set mem (rb_buffer rb + unat (rb_end rb)) data;
     let end1 = rb_end rb + 1;
     let end2 = (if rb_size rb \<le> end1 then 0 else end1);
     if end2 = rb_start rb
     then Some (mem', rb\<lparr>rb_overflows := rb_overflows rb + 1,
                        rb_end := (if end2 = 0 then rb_size rb - 1 else end2 - 1)\<rparr>, False)
     else Some (mem', rb\<lparr>rb_end := end2\<rparr>, True)
   }"

definition ringbuffer_remove :: "ringbuffer \<Rightarrow> u16 \<Rightarrow> ringbuffer" where
  "ringbuffer_remove rb num =
     (let incr = min (ringbuffer_get_used rb) num;
          start1 = rb_start rb + incr;
          start2 = (if rb_size rb \<le> start1 then start1 - rb_size rb else start1)
      in rb\<lparr>rb_start := start2\<rparr>)"

definition ringbuffer_get ::
  "u8 list \<Rightarrow> ringbuffer \<Rightarrow> (ringbuffer \<times> u8 option) option" where
  "ringbuffer_get mem rb =
     (if ringbuffer_is_empty rb then Some (rb, None)
      else do {
        data \<leftarrow> arr_get mem (rb_buffer rb + unat (rb_start rb));
        let start1 = rb_start rb + 1;
        Some (rb\<lparr>rb_start := (if rb_size rb \<le> start1 then 0 else start1)\<rparr>, Some data)
      })"

definition ringbuffer_init :: "u16 \<Rightarrow> nat \<Rightarrow> ringbuffer" where
  "ringbuffer_init sz buffer =
     \<lparr>rb_overflows = 0, rb_start = 0, rb_end = 0, rb_size = sz,
      rb_low_watermark = sz, rb_buffer = buffer\<rparr>"

section \<open>Well-formed rings and their content\<close>

definition rb_wf :: "u8 list \<Rightarrow> ringbuffer \<Rightarrow> bool" where
  "rb_wf mem rb \<longleftrightarrow>
     rb_start rb < rb_size rb \<and> rb_end rb < rb_size rb \<and>
     rb_buffer rb + unat (rb_size rb) \<le> length mem"

definition rb_used :: "ringbuffer \<Rightarrow> nat" where
  "rb_used rb =
     (if unat (rb_start rb) \<le> unat (rb_end rb) then unat (rb_end rb) - unat (rb_start rb)
      else unat (rb_size rb) + unat (rb_end rb) - unat (rb_start rb))"

definition rb_slot :: "ringbuffer \<Rightarrow> nat \<Rightarrow> nat" where
  "rb_slot rb i = rb_buffer rb + (unat (rb_start rb) + i) mod unat (rb_size rb)"

definition rb_contents :: "u8 list \<Rightarrow> ringbuffer \<Rightarrow> u8 list" where
  "rb_contents mem rb = map (\<lambda>i. mem ! rb_slot rb i) [0..<rb_used rb]"

text \<open>A ring of size \<open>n\<close> holds at most \<open>n - 1\<close> bytes: the full and the empty ring differ.\<close>

definition rb_capacity :: "ringbuffer \<Rightarrow> nat" where
  "rb_capacity rb = unat (rb_size rb) - 1"

lemma length_rb_contents [simp]: "length (rb_contents mem rb) = rb_used rb"
  by (simp add: rb_contents_def)

lemma rb_wf_unat:
  assumes "rb_wf mem rb"
  shows "unat (rb_start rb) < unat (rb_size rb)" "unat (rb_end rb) < unat (rb_size rb)"
    "rb_buffer rb + unat (rb_size rb) \<le> length mem"
  using assms by (auto simp: rb_wf_def word_less_nat_alt)

lemma rb_used_bound: "rb_wf mem rb \<Longrightarrow> rb_used rb \<le> rb_capacity rb"
  by (drule rb_wf_unat) (auto simp: rb_used_def rb_capacity_def rb_wf_def word_less_nat_alt)

lemma unat_get_used:
  assumes "rb_wf mem rb"
  shows "unat (ringbuffer_get_used rb) = rb_used rb"
proof (cases "rb_end rb < rb_start rb")
  case True
  note b = rb_wf_unat [OF assms]
  from True have lt: "unat (rb_end rb) < unat (rb_start rb)" by (simp add: word_less_nat_alt)
  have eq: "rb_size rb + rb_end rb - rb_start rb = rb_size rb - (rb_start rb - rb_end rb)"
    by (simp add: algebra_simps)
  have d: "unat (rb_start rb - rb_end rb) = unat (rb_start rb) - unat (rb_end rb)"
    using lt by (simp add: unat_sub_no_wrap)
  have "unat (rb_size rb - (rb_start rb - rb_end rb)) =
      unat (rb_size rb) - (unat (rb_start rb) - unat (rb_end rb))"
    using b d by (subst unat_sub_no_wrap) simp_all
  then show ?thesis
    using True lt b by (simp add: ringbuffer_get_used_def rb_used_def eq)
next
  case False
  then have "unat (rb_start rb) \<le> unat (rb_end rb)" by (simp add: word_less_nat_alt)
  with False show ?thesis
    by (simp add: ringbuffer_get_used_def rb_used_def unat_sub_no_wrap)
qed

lemma ringbuffer_is_empty_iff:
  "rb_wf mem rb \<Longrightarrow> ringbuffer_is_empty rb \<longleftrightarrow> rb_used rb = 0"
  by (drule rb_wf_unat) (auto simp: ringbuffer_is_empty_def rb_used_def word_unat_eq_iff)

section \<open>The next index\<close>

definition rb_next :: "ringbuffer \<Rightarrow> u16 \<Rightarrow> u16" where
  "rb_next rb i = (if rb_size rb \<le> i + 1 then 0 else i + 1)"

lemma unat_rb_next:
  assumes "i < rb_size rb"
  shows "unat (rb_next rb i) = (if Suc (unat i) = unat (rb_size rb) then 0 else Suc (unat i))"
proof -
  from assms have lt: "unat i < unat (rb_size rb)" by (simp add: word_less_nat_alt)
  then have "unat (i + 1) = Suc (unat i)" by (rule unat_Suc_no_wrap)
  then show ?thesis using lt by (auto simp: rb_next_def word_le_nat_alt)
qed

lemma rb_next_less: "i < rb_size rb \<Longrightarrow> rb_next rb i < rb_size rb"
  using unat_rb_next [of i rb] by (auto simp: word_less_nat_alt split: if_splits)

lemma rb_full_iff:
  assumes "rb_wf mem rb"
  shows "rb_next rb (rb_end rb) = rb_start rb \<longleftrightarrow> rb_used rb = rb_capacity rb"
proof -
  note b = rb_wf_unat [OF assms]
  have "rb_end rb < rb_size rb" using assms by (simp add: rb_wf_def)
  from unat_rb_next [OF this] b show ?thesis
    by (auto simp: word_unat_eq_iff rb_used_def rb_capacity_def split: if_splits)
qed

section \<open>Behaviour of the operations\<close>

lemma rb_slot_used:
  assumes "rb_wf mem rb"
  shows "rb_slot rb (rb_used rb) = rb_buffer rb + unat (rb_end rb)"
  using rb_wf_unat [OF assms]
  by (auto simp: rb_slot_def rb_used_def mod_if)

lemma rb_slot_less:
  assumes "rb_wf mem rb"
  shows "rb_slot rb i < length mem"
proof -
  note b = rb_wf_unat [OF assms]
  have "(unat (rb_start rb) + i) mod unat (rb_size rb) < unat (rb_size rb)"
    using b by (intro mod_less_divisor) simp
  with b show ?thesis unfolding rb_slot_def by linarith
qed

lemma rb_slot_inj:
  assumes "rb_wf mem rb" "i < unat (rb_size rb)" "j < unat (rb_size rb)"
    "rb_slot rb i = rb_slot rb j"
  shows "i = j"
  using rb_wf_unat [OF assms(1)] assms(2-) by (auto simp: rb_slot_def mod_if split: if_splits)

lemma ringbuffer_add_eq:
  assumes "rb_wf mem rb"
  shows "ringbuffer_add mem rb x =
    (let mem' = mem[rb_buffer rb + unat (rb_end rb) := x] in
     if rb_next rb (rb_end rb) = rb_start rb
     then Some (mem', rb\<lparr>rb_overflows := rb_overflows rb + 1\<rparr>, False)
     else Some (mem', rb\<lparr>rb_end := rb_next rb (rb_end rb)\<rparr>, True))"
proof -
  note b = rb_wf_unat [OF assms]
  have lt: "rb_end rb < rb_size rb" using assms by (simp add: rb_wf_def)
  from b have idx: "rb_buffer rb + unat (rb_end rb) < length mem" by linarith
  have bk: "(if rb_next rb (rb_end rb) = 0 then rb_size rb - 1
     else rb_next rb (rb_end rb) - 1) = rb_end rb"
  proof (cases "Suc (unat (rb_end rb)) = unat (rb_size rb)")
    case True
    with b have "unat (rb_size rb - 1) = unat (rb_end rb)"
      by (simp add: unat_minus_1)
    with True show ?thesis
      using unat_rb_next [OF lt] by (simp add: word_unat_eq_iff)
  next
    case False
    with unat_rb_next [OF lt] show ?thesis
      by (auto simp: rb_next_def word_unat_eq_iff split: if_splits)
  qed
  have same: "rb\<lparr>rb_overflows := c, rb_end := rb_end rb\<rparr> = rb\<lparr>rb_overflows := c\<rparr>" for c
    by simp
  show ?thesis
    using idx bk same
    by (auto simp: ringbuffer_add_def arr_set_def rb_next_def Let_def)
qed

lemma rb_wf_add:
  assumes "rb_wf mem rb" "ringbuffer_add mem rb x = Some (mem', rb', ok)"
  shows "rb_wf mem' rb'" "rb_size rb' = rb_size rb" "rb_buffer rb' = rb_buffer rb"
    "rb_capacity rb' = rb_capacity rb" "length mem' = length mem"
  using assms by (auto simp: ringbuffer_add_eq rb_wf_def rb_capacity_def Let_def rb_next_less
      split: if_splits)

lemma rb_contents_upd:
  assumes "rb_wf mem rb"
  shows "rb_contents (mem[rb_buffer rb + unat (rb_end rb) := x]) rb = rb_contents mem rb"
proof -
  have "rb_slot rb i \<noteq> rb_buffer rb + unat (rb_end rb)" if "i < rb_used rb" for i
  proof
    assume eq: "rb_slot rb i = rb_buffer rb + unat (rb_end rb)"
    have cap: "rb_used rb < unat (rb_size rb)"
      using rb_used_bound [OF assms] rb_wf_unat [OF assms] by (simp add: rb_capacity_def)
    with that have "i = rb_used rb"
      using rb_slot_inj [OF assms, of i "rb_used rb"] eq rb_slot_used [OF assms] by simp
    with that show False by simp
  qed
  then have "\<forall>i < rb_used rb. mem[rb_buffer rb + unat (rb_end rb) := x] ! rb_slot rb i =
      mem ! rb_slot rb i"
    by (metis nth_list_update_neq)
  then show ?thesis by (simp add: rb_contents_def)
qed

text \<open>A byte is appended unless the ring is full; a full ring counts the overflow.\<close>

lemma ringbuffer_add_room:
  assumes wf: "rb_wf mem rb" and room: "rb_used rb < rb_capacity rb"
  shows "\<exists>mem' rb'. ringbuffer_add mem rb x = Some (mem', rb', True) \<and> rb_wf mem' rb' \<and>
    rb_contents mem' rb' = rb_contents mem rb @ [x] \<and> rb_capacity rb' = rb_capacity rb \<and>
    rb_overflows rb' = rb_overflows rb"
proof -
  let ?mem' = "mem[rb_buffer rb + unat (rb_end rb) := x]"
  let ?rb' = "rb\<lparr>rb_end := rb_next rb (rb_end rb)\<rparr>"
  note b = rb_wf_unat [OF wf]
  have lt: "rb_end rb < rb_size rb" using wf by (simp add: rb_wf_def)
  have add: "ringbuffer_add mem rb x = Some (?mem', ?rb', True)"
    using rb_full_iff [OF wf] room by (simp add: ringbuffer_add_eq [OF wf])
  have used: "rb_used ?rb' = Suc (rb_used rb)"
    using unat_rb_next [OF lt] b room by (auto simp: rb_used_def rb_capacity_def)
  have slot: "rb_slot ?rb' i = rb_slot rb i" for i
    by (simp add: rb_slot_def)
  have "rb_contents ?mem' ?rb' = rb_contents ?mem' rb @ [?mem' ! rb_slot rb (rb_used rb)]"
    by (simp add: rb_contents_def used slot)
  also have "\<dots> = rb_contents mem rb @ [x]"
    using b by (simp add: rb_contents_upd [OF wf] rb_slot_used [OF wf])
  finally have c: "rb_contents ?mem' ?rb' = rb_contents mem rb @ [x]" .
  show ?thesis
    using add c rb_wf_add [OF wf add]
    by (intro exI [where x = ?mem'] exI [where x = ?rb'] conjI) simp_all
qed

lemma ringbuffer_add_full:
  assumes wf: "rb_wf mem rb" and full: "rb_capacity rb \<le> rb_used rb"
  shows "\<exists>mem' rb'. ringbuffer_add mem rb x = Some (mem', rb', False) \<and> rb_wf mem' rb' \<and>
    rb_contents mem' rb' = rb_contents mem rb \<and> rb_capacity rb' = rb_capacity rb \<and>
    rb_overflows rb' = rb_overflows rb + 1"
proof -
  let ?mem' = "mem[rb_buffer rb + unat (rb_end rb) := x]"
  let ?rb' = "rb\<lparr>rb_overflows := rb_overflows rb + 1\<rparr>"
  have "rb_used rb = rb_capacity rb"
    using rb_used_bound [OF wf] full by simp
  then have add: "ringbuffer_add mem rb x = Some (?mem', ?rb', False)"
    using rb_full_iff [OF wf] by (simp add: ringbuffer_add_eq [OF wf])
  have "rb_contents ?mem' ?rb' = rb_contents ?mem' rb"
    by (simp add: rb_contents_def rb_used_def rb_slot_def)
  then have c: "rb_contents ?mem' ?rb' = rb_contents mem rb"
    by (simp add: rb_contents_upd [OF wf])
  show ?thesis
    using add c rb_wf_add [OF wf add]
    by (intro exI [where x = ?mem'] exI [where x = ?rb'] conjI) simp_all
qed

text \<open>Reading takes the oldest byte and never leaves the memory.\<close>

lemma ringbuffer_get_eq:
  assumes "rb_wf mem rb"
  shows "ringbuffer_get mem rb =
    (if rb_used rb = 0 then Some (rb, None)
     else Some (rb\<lparr>rb_start := rb_next rb (rb_start rb)\<rparr>,
                Some (mem ! (rb_buffer rb + unat (rb_start rb)))))"
proof -
  from rb_wf_unat [OF assms] have "rb_buffer rb + unat (rb_start rb) < length mem" by linarith
  then show ?thesis
    using ringbuffer_is_empty_iff [OF assms]
    by (simp add: ringbuffer_get_def arr_get_def rb_next_def Let_def)
qed

lemma rb_contents_Cons:
  assumes wf: "rb_wf mem rb" and ne: "0 < rb_used rb"
  shows "rb_contents mem rb = mem ! (rb_buffer rb + unat (rb_start rb)) #
    rb_contents mem (rb\<lparr>rb_start := rb_next rb (rb_start rb)\<rparr>)"
    (is "_ = _ # rb_contents mem ?rb'")
proof -
  note b = rb_wf_unat [OF wf]
  have nx: "unat (rb_next rb (rb_start rb)) =
      (if Suc (unat (rb_start rb)) = unat (rb_size rb) then 0 else Suc (unat (rb_start rb)))"
    using wf by (intro unat_rb_next) (simp add: rb_wf_def)
  have used: "rb_used rb = Suc (rb_used ?rb')"
    using nx b ne by (auto simp: rb_used_def split: if_splits)
  have slot: "rb_slot ?rb' i = rb_slot rb (Suc i)" for i
  proof (cases "Suc (unat (rb_start rb)) = unat (rb_size rb)")
    case True
    then have "unat (rb_start rb) + Suc i = unat (rb_size rb) + i" by simp
    then have "(unat (rb_start rb) + Suc i) mod unat (rb_size rb) = i mod unat (rb_size rb)"
      by (simp only: mod_add_self1)
    with True show ?thesis using nx by (simp add: rb_slot_def)
  qed (use nx in \<open>simp add: rb_slot_def\<close>)
  have z: "rb_slot rb 0 = rb_buffer rb + unat (rb_start rb)"
    using b by (simp add: rb_slot_def)
  show ?thesis
    unfolding rb_contents_def used map_upt_Suc z slot by (rule refl)
qed

lemma rb_wf_start: "rb_wf mem rb \<Longrightarrow> i < rb_size rb \<Longrightarrow> rb_wf mem (rb\<lparr>rb_start := i\<rparr>)"
  by (simp add: rb_wf_def)

lemma ringbuffer_get_empty:
  assumes "rb_wf mem rb" "rb_contents mem rb = []"
  shows "ringbuffer_get mem rb = Some (rb, None)"
  using assms length_rb_contents [of mem rb] by (simp add: ringbuffer_get_eq)

lemma ringbuffer_get_Cons:
  assumes wf: "rb_wf mem rb" and c: "rb_contents mem rb = x # xs"
  shows "\<exists>rb'. ringbuffer_get mem rb = Some (rb', Some x) \<and> rb_wf mem rb' \<and>
    rb_contents mem rb' = xs \<and> rb_capacity rb' = rb_capacity rb \<and>
    rb_overflows rb' = rb_overflows rb"
proof -
  have ne: "0 < rb_used rb" using length_rb_contents [of mem rb] c by simp
  have "rb_wf mem (rb\<lparr>rb_start := rb_next rb (rb_start rb)\<rparr>)"
    using wf by (intro rb_wf_start rb_next_less) (simp_all add: rb_wf_def)
  with rb_contents_Cons [OF wf ne] ne c wf show ?thesis
    by (simp add: ringbuffer_get_eq rb_capacity_def)
qed

text \<open>Bulk removal drops a prefix, as long as two ring sizes fit into 16 bits.\<close>

lemma ringbuffer_remove_start:
  assumes wf: "rb_wf mem rb" and small: "unat (rb_size rb) \<le> 32768"
  shows "unat (rb_start (ringbuffer_remove rb num)) =
    (unat (rb_start rb) + min (rb_used rb) (unat num)) mod unat (rb_size rb)"
proof -
  note b = rb_wf_unat [OF wf]
  let ?k = "min (rb_used rb) (unat num)"
  have k: "unat (min (ringbuffer_get_used rb) num) = ?k"
    by (simp add: unat_min unat_get_used [OF wf])
  have kb: "?k < unat (rb_size rb)"
    using rb_used_bound [OF wf] b by (auto simp: rb_capacity_def)
  have sum: "unat (rb_start rb + min (ringbuffer_get_used rb) num) = unat (rb_start rb) + ?k"
    using b kb small k by (simp add: unat_word_ariths)
  show ?thesis
    using b kb sum
    by (simp add: ringbuffer_remove_def Let_def word_le_nat_alt unat_sub_no_wrap mod_add_wrap)
qed

lemma ringbuffer_remove_keeps [simp]:
  "rb_size (ringbuffer_remove rb num) = rb_size rb"
  "rb_end (ringbuffer_remove rb num) = rb_end rb"
  "rb_buffer (ringbuffer_remove rb num) = rb_buffer rb"
  "rb_overflows (ringbuffer_remove rb num) = rb_overflows rb"
  by (simp_all add: ringbuffer_remove_def Let_def)

lemma ringbuffer_remove_spec:
  assumes wf: "rb_wf mem rb" and small: "unat (rb_size rb) \<le> 32768"
  shows "rb_wf mem (ringbuffer_remove rb num) \<and>
    rb_contents mem (ringbuffer_remove rb num) = drop (unat num) (rb_contents mem rb)"
proof -
  note b = rb_wf_unat [OF wf]
  let ?rb' = "ringbuffer_remove rb num"
  let ?k = "min (rb_used rb) (unat num)"
  note st = ringbuffer_remove_start [OF wf small, of num]
  have lt: "unat (rb_start ?rb') < unat (rb_size rb)"
    unfolding st using b by (intro mod_less_divisor) simp
  have wf': "rb_wf mem ?rb'"
    using wf lt by (simp add: rb_wf_def word_less_nat_alt)
  have kb: "?k < unat (rb_size rb)"
    using rb_used_bound [OF wf] b by (auto simp: rb_capacity_def)
  have used: "rb_used ?rb' = rb_used rb - ?k"
  proof -
    define k where "k = ?k"
    have "k \<le> rb_used rb" "k < unat (rb_size rb)" using kb by (simp_all add: k_def)
    moreover have "unat (rb_start ?rb') =
        (if unat (rb_start rb) + k < unat (rb_size rb) then unat (rb_start rb) + k
         else unat (rb_start rb) + k - unat (rb_size rb))"
      using st kb mod_add_wrap [OF b(1), of ?k] by (simp add: k_def)
    ultimately have "rb_used ?rb' = rb_used rb - k"
      using b(1,2) by (auto simp: rb_used_def split: if_splits)
    then show ?thesis by (simp add: k_def)
  qed
  have slot: "rb_slot ?rb' i = rb_slot rb (?k + i)" for i
    by (simp only: rb_slot_def st mod_add_left_eq add.assoc ringbuffer_remove_keeps)
  have "rb_contents mem ?rb' = drop ?k (rb_contents mem rb)"
    unfolding rb_contents_def used slot drop_map_upt by (rule refl)
  also have "\<dots> = drop (unat num) (rb_contents mem rb)"
    by (simp add: min_def)
  finally show ?thesis using wf' by simp
qed

lemma ringbuffer_init_spec:
  assumes "0 < sz" "buffer + unat sz \<le> length mem"
  shows "rb_wf mem (ringbuffer_init sz buffer)" "rb_contents mem (ringbuffer_init sz buffer) = []"
    "rb_capacity (ringbuffer_init sz buffer) = unat sz - 1"
  using assms by (simp_all add: rb_wf_def rb_contents_def rb_used_def ringbuffer_init_def
      rb_capacity_def)

section \<open>The ring is a bounded queue\<close>

type_synonym ring_state = "u8 list \<times> ringbuffer"

definition ring_enq :: "ring_state \<Rightarrow> u8 \<Rightarrow> (ring_state \<times> bool) option" where
  "ring_enq q x = map_option (\<lambda>(mem, rb, ok). ((mem, rb), ok)) (ringbuffer_add (fst q) (snd q) x)"

definition ring_deq :: "ring_state \<Rightarrow> (ring_state \<times> u8 option) option" where
  "ring_deq q = map_option (\<lambda>(rb, r). ((fst q, rb), r)) (ringbuffer_get (fst q) (snd q))"

definition ring_abs :: "ring_state \<Rightarrow> u8 list" where
  "ring_abs q = rb_contents (fst q) (snd q)"

definition ring_cap :: "ring_state \<Rightarrow> nat" where
  "ring_cap q = rb_capacity (snd q)"

definition ring_inv :: "ring_state \<Rightarrow> bool" where
  "ring_inv q \<longleftrightarrow> rb_wf (fst q) (snd q)"

lemmas ring_defs = ring_enq_def ring_deq_def ring_abs_def ring_cap_def ring_inv_def

interpretation rq: bounded_queue ring_abs ring_cap ring_inv ring_enq ring_deq
proof unfold_locales
  fix q :: ring_state and x
  assume inv: "ring_inv q"
  show "\<exists>q'. ring_enq q x = Some (q', True) \<and> ring_inv q' \<and> ring_abs q' = ring_abs q @ [x] \<and>
      ring_cap q' = ring_cap q" if "length (ring_abs q) < ring_cap q"
    using ringbuffer_add_room [of "fst q" "snd q" x] inv that by (auto simp: ring_defs)
  show "\<exists>q'. ring_enq q x = Some (q', False) \<and> ring_inv q' \<and> ring_abs q' = ring_abs q \<and>
      ring_cap q' = ring_cap q" if "ring_cap q \<le> length (ring_abs q)"
    using ringbuffer_add_full [of "fst q" "snd q" x] inv that by (auto simp: ring_defs)
next
  fix q :: ring_state
  assume "ring_inv q" "ring_abs q = []"
  then show "\<exists>q'. ring_deq q = Some (q', None) \<and> ring_inv q' \<and> ring_abs q' = [] \<and>
      ring_cap q' = ring_cap q"
    using ringbuffer_get_empty [of "fst q" "snd q"] by (auto simp: ring_defs)
next
  fix q :: ring_state and x xs
  assume "ring_inv q" "ring_abs q = x # xs"
  then show "\<exists>q'. ring_deq q = Some (q', Some x) \<and> ring_inv q' \<and> ring_abs q' = xs \<and>
      ring_cap q' = ring_cap q"
    using ringbuffer_get_Cons [of "fst q" "snd q" x xs] by (auto simp: ring_defs)
qed

section \<open>Properties\<close>

text \<open>C21. Any sequence of ring buffer writes and reads behaves as a bounded list: no access
  leaves the buffer, a write is refused exactly when size-1 bytes are stored, a read returns the
  oldest byte, and the bytes accepted are the bytes delivered followed by the bytes stored.\<close>

theorem ringbuffer_run_refines:
  assumes "rb_wf mem rb"
  shows "\<exists>mem' rb' rs. q_run ring_enq ring_deq (mem, rb) ops = Some ((mem', rb'), rs) \<and>
    rb_wf mem' rb' \<and>
    list_run (unat (rb_size rb) - 1) (rb_contents mem rb) ops = (rb_contents mem' rb', rs) \<and>
    rb_contents mem rb @ accepted ops rs = delivered rs @ rb_contents mem' rb'"
proof -
  have inv: "ring_inv (mem, rb)" using assms by (simp add: ring_defs)
  from rq.run_refines [OF inv, of ops] obtain q' rs where
    run: "q_run ring_enq ring_deq (mem, rb) ops = Some (q', rs)" and "ring_inv q'"
    and "list_run (ring_cap (mem, rb)) (ring_abs (mem, rb)) ops = (ring_abs q', rs)" by blast
  moreover from rq.run_fifo [OF inv run]
  have "ring_abs (mem, rb) @ accepted ops rs = delivered rs @ ring_abs q'" .
  ultimately show ?thesis
    by (cases q') (auto simp: ring_defs rb_capacity_def)
qed

theorem ringbuffer_run_refines_witness:
  "\<exists>mem' rb' rs. q_run ring_enq ring_deq ([0, 0, 0, 0], ringbuffer_init 3 1)
       [Enq 7, Enq 8, Enq 9, Deq] = Some ((mem', rb'), rs) \<and>
    rb_wf mem' rb' \<and>
    list_run (unat (rb_size (ringbuffer_init 3 1)) - 1)
      (rb_contents [0, 0, 0, 0] (ringbuffer_init 3 1)) [Enq 7, Enq 8, Enq 9, Deq] =
      (rb_contents mem' rb', rs) \<and>
    rb_contents [0, 0, 0, 0] (ringbuffer_init 3 1) @ accepted [Enq 7, Enq 8, Enq 9, Deq] rs =
      delivered rs @ rb_contents mem' rb'"
  by (rule ringbuffer_run_refines) (simp add: rb_wf_def ringbuffer_init_def)

text \<open>ringbuffer_remove discards the oldest bytes, at most as many as are stored, provided
  the ring's size is at most 32768 (so that the 16 bit start index cannot wrap).\<close>

theorem ringbuffer_remove_drops:
  assumes "rb_wf mem rb" and "unat (rb_size rb) \<le> 32768"
  shows "rb_wf mem (ringbuffer_remove rb num) \<and>
    rb_contents mem (ringbuffer_remove rb num) = drop (unat num) (rb_contents mem rb)"
  using assms by (rule ringbuffer_remove_spec)

theorem ringbuffer_remove_drops_witness:
  "rb_wf [1, 2, 3, 4] (ringbuffer_remove
      \<lparr>rb_overflows = 0, rb_start = 3, rb_end = 2, rb_size = 4, rb_low_watermark = 4,
       rb_buffer = 0\<rparr> 2) \<and>
   rb_contents [1, 2, 3, 4] (ringbuffer_remove
      \<lparr>rb_overflows = 0, rb_start = 3, rb_end = 2, rb_size = 4, rb_low_watermark = 4,
       rb_buffer = 0\<rparr> 2) = drop (unat (2 :: u16)) (rb_contents [1, 2, 3, 4]
      \<lparr>rb_overflows = 0, rb_start = 3, rb_end = 2, rb_size = 4, rb_low_watermark = 4,
       rb_buffer = 0\<rparr>)"
  by (rule ringbuffer_remove_drops) (simp_all add: rb_wf_def)

text \<open>Beyond that size the start index wraps at 65536 instead of at the ring's size.\<close>

lemma ringbuffer_remove_wraps_large:
  "rb_start (ringbuffer_remove
      \<lparr>rb_overflows = 0, rb_start = 39999, rb_end = 39000, rb_size = 40000,
       rb_low_watermark = 0, rb_buffer = 0\<rparr> 30000) = 4463"
  by (simp add: ringbuffer_remove_def ringbuffer_get_used_def Let_def)

end
