(* ===== verification/Checksums.thy ===== *)
theory Checksums
  imports Crc_Tables
begin

text \<open>
  The checksum routines of \<^verbatim>\<open>utility/crc8.c\<close>, \<^verbatim>\<open>utility/crc16.c\<close>,
  \<^verbatim>\<open>utility/crc32.c\<close> and the Pearson hash of \<^verbatim>\<open>utility/pearson_hash.h\<close>.
  The reference is the bitwise shift register of the polynomial; every table driven or word
  driven routine is shown to compute it, and the Modbus checksum to detect corrupted bytes.
\<close>

section \<open>The routines\<close>

text \<open>A table lookup in C cannot leave a 256 entry table: the index is a byte.\<close>

fun crc8_loop :: "u8 list \<Rightarrow> u8 \<Rightarrow> u8 list \<Rightarrow> u8" where
  "crc8_loop table crc [] = crc"
| "crc8_loop table crc (b # bs) = crc8_loop table (table ! unat (crc XOR b)) bs"

definition crc8 :: "u8 list \<Rightarrow> u8 \<Rightarrow> u8 list \<Rightarrow> u8" where
  "crc8 table start_value buffer = crc8_loop table start_value buffer"

fun crc16_modbus_loop :: "u16 \<Rightarrow> u8 list \<Rightarrow> u16" where
  "crc16_modbus_loop crc [] = crc"
| "crc16_modbus_loop crc (b # bs) =
     (let tmp = b XOR ucast crc in
      crc16_modbus_loop (drop_bit 8 crc XOR crc16_modbus_table ! unat tmp) bs)"

definition crc16_modbus :: "u8 list \<Rightarrow> u16" where
  "crc16_modbus buffer = crc16_modbus_loop 0xFFFF buffer"

definition crc16_ccitt_step :: "u16 \<Rightarrow> u16 \<Rightarrow> u16" where
  "crc16_ccitt_step crc value =
     push_bit 8 crc XOR crc16_ccitt_table ! unat ((drop_bit 8 crc XOR value) AND 0xFF)"

fun crc16_ccitt_8in_loop :: "u16 \<Rightarrow> u8 list \<Rightarrow> u16" where
  "crc16_ccitt_8in_loop crc [] = crc"
| "crc16_ccitt_8in_loop crc (v # vs) = crc16_ccitt_8in_loop (crc16_ccitt_step crc (ucast v)) vs"

definition crc16_ccitt_8in :: "u8 list \<Rightarrow> u16" where
  "crc16_ccitt_8in buffer = crc16_ccitt_8in_loop 0 buffer"

fun crc16_ccitt_16in_loop :: "u16 \<Rightarrow> u16 list \<Rightarrow> u16" where
  "crc16_ccitt_16in_loop crc [] = crc"
| "crc16_ccitt_16in_loop crc (v # vs) =
     (let crc1 = crc16_ccitt_step crc (drop_bit 8 v);
          crc2 = crc16_ccitt_step crc1 (v AND 0xFF)
      in crc16_ccitt_16in_loop crc2 vs)"

definition crc16_ccitt_16in :: "u16 list \<Rightarrow> u16" where
  "crc16_ccitt_16in buffer = crc16_ccitt_16in_loop 0 buffer"

definition pearson :: "u8 \<Rightarrow> u8 \<Rightarrow> u8" where
  "pearson cur nxt = pearson_permutation ! unat (cur XOR nxt)"

subsection \<open>CRC32 by words\<close>

text \<open>
  The routine reads whole aligned words, so it also reads bytes around the buffer: the memory
  is a function from addresses to bytes and a word is read little-endian.
\<close>

definition crc32_polynomial :: u32 where
  "crc32_polynomial = 0xEDB88320"

definition complement_crc :: "u32 \<Rightarrow> u32" where
  "complement_crc c = c XOR 0xFFFFFFFF"

definition read_word :: "(nat \<Rightarrow> u8) \<Rightarrow> nat \<Rightarrow> u32" where
  "read_word mem p = un_le32 (mem p) (mem (p + 1)) (mem (p + 2)) (mem (p + 3))"

fun crc32_bits :: "nat \<Rightarrow> u32 \<Rightarrow> u32" where
  "crc32_bits 0 crc = crc"
| "crc32_bits (Suc n) crc =
     crc32_bits n (if bit crc 0 then drop_bit 1 crc XOR crc32_polynomial else drop_bit 1 crc)"

definition crc32_recalculate_bytes_helper :: "u32 \<Rightarrow> u32 \<Rightarrow> nat \<Rightarrow> u32" where
  "crc32_recalculate_bytes_helper data crc bytes = crc32_bits (8 * bytes) (crc XOR data)"

fun crc32_words :: "(nat \<Rightarrow> u8) \<Rightarrow> nat \<Rightarrow> nat \<Rightarrow> u32 \<Rightarrow> u32" where
  "crc32_words mem p 0 crc = crc"
| "crc32_words mem p (Suc n) crc =
     crc32_words mem (p + 4) n (crc32_recalculate_bytes_helper (read_word mem p) crc 4)"

definition crc32_ieee_802_3_recalculate :: "(nat \<Rightarrow> u8) \<Rightarrow> nat \<Rightarrow> nat \<Rightarrow> u32 \<Rightarrow> u32" where
  "crc32_ieee_802_3_recalculate mem data len crc =
     (let word_ptr0 = data - data mod 4;
          crc0 = complement_crc crc;
          head = (if len < 4 then len else (4 - data mod 4) mod 4);
          (len1, word_ptr1, crc1) =
            (if head \<noteq> 0
             then (len - head, word_ptr0 + 4,
                   crc32_recalculate_bytes_helper
                     (drop_bit (8 * (4 - head)) (read_word mem word_ptr0)) crc0 head)
             else (len, word_ptr0, crc0));
          words = len1 div 4;
          len2 = len1 mod 4;
          crc2 = crc32_words mem word_ptr1 words crc1;
          word_ptr2 = word_ptr1 + 4 * words;
          crc3 = (if len2 \<noteq> 0
                  then crc32_recalculate_bytes_helper
                    (read_word mem word_ptr2 AND drop_bit (8 * (4 - len2)) 0xFFFFFFFF) crc2 len2
                  else crc2)
      in complement_crc crc3)"

definition crc32_ieee_802_3 :: "(nat \<Rightarrow> u8) \<Rightarrow> nat \<Rightarrow> nat \<Rightarrow> u32" where
  "crc32_ieee_802_3 mem data len = crc32_ieee_802_3_recalculate mem data len 0"

section \<open>Shift registers are linear\<close>

lemma drop_bit_xor_word: "drop_bit n (x XOR y) = drop_bit n x XOR drop_bit n (y :: 'a::len word)"
  by (rule bit_word_eqI) (simp add: bit_simps)

lemma push_bit_xor_word: "push_bit n (x XOR y) = push_bit n x XOR push_bit n (y :: 'a::len word)"
  by (rule bit_word_eqI) (auto simp: bit_simps)

lemma crc_step_r_xor: "crc_step_r p (x XOR y) = crc_step_r p x XOR crc_step_r p y"
  by (auto simp: crc_step_r_def drop_bit_xor_word bit_xor_iff ac_simps)

lemma crc_step_l_xor: "crc_step_l p (x XOR y) = crc_step_l p x XOR crc_step_l p y"
  by (auto simp: crc_step_l_def push_bit_xor_word bit_xor_iff ac_simps)

lemma crc_steps_r_xor: "(crc_step_r p ^^ n) (x XOR y) = (crc_step_r p ^^ n) x XOR (crc_step_r p ^^ n) y"
  by (induction n) (simp_all add: crc_step_r_xor)

lemma crc_steps_l_xor: "(crc_step_l p ^^ n) (x XOR y) = (crc_step_l p ^^ n) x XOR (crc_step_l p ^^ n) y"
  by (induction n) (simp_all add: crc_step_l_xor)

lemma crc_steps_r_zero:
  assumes "\<And>i. i < n \<Longrightarrow> \<not> bit x i"
  shows "(crc_step_r p ^^ n) x = drop_bit n x"
  using assms
proof (induction n arbitrary: x)
  case (Suc n)
  have "crc_step_r p x = drop_bit 1 x"
    using Suc.prems[of 0] by (simp add: crc_step_r_def)
  moreover have "(crc_step_r p ^^ n) (drop_bit 1 x) = drop_bit n (drop_bit 1 x)"
    by (rule Suc.IH) (use Suc.prems[of "Suc _"] in \<open>simp add: bit_simps\<close>)
  ultimately show ?case
    by (simp add: funpow_Suc_right drop_bit_drop_bit del: funpow.simps)
qed simp

lemma crc_steps_l_zero:
  fixes x :: "'a::len word"
  assumes "\<And>i. LENGTH('a) - n \<le> i \<Longrightarrow> \<not> bit x i"
  shows "(crc_step_l p ^^ n) x = push_bit n x"
  using assms
proof (induction n arbitrary: x)
  case (Suc n)
  have "crc_step_l p x = push_bit 1 x"
    using Suc.prems[of "LENGTH('a) - 1"] by (simp add: crc_step_l_def)
  moreover have "(crc_step_l p ^^ n) (push_bit 1 x) = push_bit n (push_bit 1 x)"
  proof (rule Suc.IH)
    fix i assume "LENGTH('a) - n \<le> i"
    then have "LENGTH('a) - Suc n \<le> i - 1" by linarith
    then have "\<not> bit x (i - 1)" by (rule Suc.prems)
    then show "\<not> bit (push_bit 1 x) i"
      unfolding bit_push_bit_iff by simp
  qed
  ultimately show ?case
    by (simp add: funpow_Suc_right push_bit_push_bit del: funpow.simps)
qed simp

lemma xor_cancel_word: "(x XOR p = y XOR p) = (x = (y :: 'a::len word))"
  by (metis xor.assoc xor.right_neutral xor_self_eq)

text \<open>With the top coefficient of the polynomial present a step loses nothing.\<close>

lemma crc_step_r_inj:
  fixes p :: "'a::len word"
  assumes "bit p (LENGTH('a) - 1)"
  shows "inj (crc_step_r p)"
proof (rule injI)
  fix x y :: "'a word"
  assume eq: "crc_step_r p x = crc_step_r p y"
  have top: "bit (crc_step_r p z) (LENGTH('a) - 1) = bit z 0" for z
    using assms by (simp add: crc_step_r_def bit_simps bit_word_out)
  have low: "bit x 0 = bit y 0"
    using top[of x] top[of y] eq by simp
  then have high: "drop_bit 1 x = drop_bit 1 y"
    using eq by (cases "bit y 0") (simp_all only: crc_step_r_def if_True if_False xor_cancel_word)
  show "x = y"
  proof (rule bit_word_eqI)
    fix i
    show "bit x i = bit y i"
      using low arg_cong[OF high, of "\<lambda>w. bit w (i - 1)"]
      by (cases i) (simp_all add: bit_simps)
  qed
qed

lemma crc_step_l_inj:
  fixes p :: "'a::len word"
  assumes p0: "bit p 0"
  shows "inj (crc_step_l p)"
proof (rule injI)
  fix x y :: "'a word"
  assume eq: "crc_step_l p x = crc_step_l p y"
  let ?m = "LENGTH('a) - 1"
  have "\<not> bit (push_bit 1 z) 0" for z :: "'a word"
    unfolding bit_push_bit_iff by simp
  then have "bit (crc_step_l p z) 0 = bit z ?m" for z
    using p0 unfolding crc_step_l_def by (simp only: bit_xor_iff split: if_split) simp
  then have top: "bit x ?m = bit y ?m"
    using eq by metis
  then have low: "push_bit 1 x = push_bit 1 y"
    using eq by (cases "bit y ?m") (simp_all only: crc_step_l_def if_True if_False xor_cancel_word)
  show "x = y"
  proof (rule bit_word_eqI)
    fix i assume "i < LENGTH('a)"
    then show "bit x i = bit y i"
      using top arg_cong[OF low, of "\<lambda>w. bit w (Suc i)"]
      unfolding bit_push_bit_iff by (cases "i = ?m") auto
  qed
qed

subsection \<open>Table lookups are eight steps\<close>

lemma table_nth:
  assumes "t = map g [0..<256]"
  shows "t ! unat (b :: u8) = g (unat b)"
  by (simp add: assms)

lemma crc16_modbus_lookup: "crc16_modbus_table ! unat (b :: u8) = (crc_step_r 0xA001 ^^ 8) (ucast b)"
  by (simp only: table_nth[OF crc16_modbus_table_map] of_nat_unat)

lemma crc16_ccitt_lookup:
  "crc16_ccitt_table ! unat (b :: u8) = (crc_step_l 0x1021 ^^ 8) (push_bit 8 (ucast b))"
  by (simp only: table_nth[OF crc16_ccitt_table_map] of_nat_unat)

lemma crc8_31_lookup: "crc8_table_31 ! unat b = crc_byte_l 0x31 0 b"
  by (simp add: table_nth[OF crc8_table_31_map] crc_byte_l_def del: funpow.simps)

lemma crc8_07_lookup: "crc8_table_07 ! unat b = crc_byte_l 0x07 0 b"
  by (simp add: table_nth[OF crc8_table_07_map] crc_byte_l_def del: funpow.simps)

lemma crc_byte_l_u8: "crc_byte_l p 0 (c XOR b) = crc_byte_l p c b" for c :: u8
  by (simp add: crc_byte_l_def del: funpow.simps)

lemma modbus_split:
  fixes crc :: u16 and b :: u8
  shows "crc XOR ucast b = push_bit 8 (drop_bit 8 crc) XOR ucast (b XOR ucast crc)"
  by (rule bit_word_eqI) (auto simp: bit_simps bit_word_out)

lemma crc16_modbus_byte:
  "drop_bit 8 crc XOR crc16_modbus_table ! unat (b XOR ucast crc) = crc_byte_r 0xA001 crc b"
proof -
  have "(crc_step_r 0xA001 ^^ 8) (push_bit 8 (drop_bit 8 crc)) = drop_bit 8 crc"
    by (subst crc_steps_r_zero, simp add: bit_simps, rule bit_word_eqI)
      (auto simp: bit_simps, drule bit_lt, simp)
  then show ?thesis
    by (simp only: crc_byte_r_def crc16_modbus_lookup modbus_split[of crc b] crc_steps_r_xor)
qed

lemma ccitt_split:
  fixes crc :: u16 and b :: u8
  shows "crc XOR push_bit 8 (ucast b) = (crc AND 0xFF) XOR push_bit 8 (ucast (b XOR ucast (drop_bit 8 crc)))"
  by (rule bit_word_eqI) (auto simp: byte_mask bit_simps bit_word_out)

lemma crc16_ccitt_byte: "crc16_ccitt_step crc (ucast b) = crc_byte_l 0x1021 crc b"
proof -
  have idx: "(drop_bit 8 crc XOR ucast b) AND 0xFF = ucast (b XOR ucast (drop_bit 8 crc))"
    by (rule bit_word_eqI) (auto simp: byte_mask bit_simps dest: bit_lt)
  have "(crc_step_l 0x1021 ^^ 8) (crc AND 0xFF) = push_bit 8 (crc AND 0xFF)"
    by (subst crc_steps_l_zero) (auto simp: byte_mask bit_simps)
  also have "\<dots> = push_bit 8 crc"
    by (rule bit_word_eqI) (auto simp: byte_mask bit_simps)
  finally have low: "(crc_step_l 0x1021 ^^ 8) (crc AND 0xFF) = push_bit 8 crc" .
  have "crc_byte_l 0x1021 crc b = push_bit 8 crc
      XOR (crc_step_l 0x1021 ^^ 8) (push_bit 8 (ucast (b XOR ucast (drop_bit 8 crc))))"
    using ccitt_split[of crc b] by (simp add: crc_byte_l_def crc_steps_l_xor low del: funpow.simps)
  then show ?thesis
    by (simp only: crc16_ccitt_step_def idx unat_ucast_u8 crc16_ccitt_lookup)
qed

lemma crc8_loop_fold:
  assumes "\<And>b. t ! unat b = crc_byte_l p 0 b"
  shows "crc8_loop t crc bs = foldl (crc_byte_l p) crc bs"
  by (induction bs arbitrary: crc) (simp_all add: assms crc_byte_l_u8)

lemma crc16_modbus_loop_fold: "crc16_modbus_loop crc bs = foldl (crc_byte_r 0xA001) crc bs"
  by (induction bs arbitrary: crc) (simp_all add: crc16_modbus_byte)

lemma crc16_ccitt_8in_loop_fold: "crc16_ccitt_8in_loop crc bs = foldl (crc_byte_l 0x1021) crc bs"
  by (induction bs arbitrary: crc) (simp_all add: crc16_ccitt_byte)

definition be_bytes :: "u16 \<Rightarrow> u8 list" where
  "be_bytes v = [ucast (drop_bit 8 v), ucast v]"

lemma crc16_ccitt_16in_loop_8in:
  "crc16_ccitt_16in_loop crc vs = crc16_ccitt_8in_loop crc (concat (map be_bytes vs))"
proof (induction vs arbitrary: crc)
  case (Cons v vs)
  have "ucast (ucast (drop_bit 8 v) :: u8) = drop_bit 8 v" "ucast (ucast v :: u8) = v AND 0xFF"
    by (rule bit_word_eqI, auto simp: byte_mask bit_simps dest: bit_lt)+
  with Cons show ?case by (simp add: be_bytes_def)
qed simp

section \<open>The code computes the polynomials' shift registers\<close>

text \<open>crc8: both table driven CRC8 variants (polynomials 0x31 and 0x07) are the bitwise
  shift register of their polynomial, for every buffer and every start value.\<close>

theorem crc8_is_shift_register:
  "crc8 crc8_table_31 start bs = foldl (crc_byte_l 0x31) start bs \<and>
   crc8 crc8_table_07 start bs = foldl (crc_byte_l 0x07) start bs"
  unfolding crc8_def using crc8_loop_fold[OF crc8_31_lookup] crc8_loop_fold[OF crc8_07_lookup]
  by simp

text \<open>C35. The table driven Modbus checksum and both CCITT variants compute the bitwise shift
  register of their polynomial, and the 16 bit CCITT variant is the 8 bit variant on the
  big-endian bytes of its input.\<close>

theorem crc16_is_shift_register:
  "crc16_modbus bs = foldl (crc_byte_r 0xA001) 0xFFFF bs \<and>
   crc16_ccitt_8in bs = foldl (crc_byte_l 0x1021) 0 bs \<and>
   crc16_ccitt_16in vs = foldl (crc_byte_l 0x1021) 0 (concat (map be_bytes vs))"
  by (simp add: crc16_modbus_def crc16_ccitt_8in_def crc16_ccitt_16in_def
      crc16_modbus_loop_fold crc16_ccitt_8in_loop_fold crc16_ccitt_16in_loop_8in)

subsection \<open>Error detection\<close>

lemma crc16_modbus_loop_append:
  "crc16_modbus_loop c (xs @ ys) = crc16_modbus_loop (crc16_modbus_loop c xs) ys"
  by (simp add: crc16_modbus_loop_fold)

lemma modbus_steps_inj: "inj (crc_step_r (0xA001 :: u16) ^^ n)"
  by (rule inj_fn[OF crc_step_r_inj]) simp

lemma crc16_modbus_loop_inj: "crc16_modbus_loop c bs = crc16_modbus_loop d bs \<Longrightarrow> c = d"
proof (induction bs rule: rev_induct)
  case (snoc b bs)
  then show ?case
    by (simp add: crc16_modbus_loop_append crc16_modbus_loop_fold crc_byte_r_def xor_cancel_word
        inj_eq[OF modbus_steps_inj] del: funpow.simps)
qed simp

lemma crc16_modbus_two:
  "crc16_modbus_loop c [a, b] = (crc_step_r 0xA001 ^^ 16) (c XOR un_le16 a b)"
proof -
  let ?s = "crc_step_r (0xA001 :: u16)"
  have split: "un_le16 a b = ucast a XOR push_bit 8 (ucast b)"
    unfolding un_le16_def by (rule bit_word_eqI) (auto simp: bit_simps bit_word_out)
  have shift: "(?s ^^ 8) (push_bit 8 (ucast b)) = ucast b"
    by (subst crc_steps_r_zero) (auto simp: bit_simps intro!: bit_word_eqI dest: bit_lt)
  have "crc16_modbus_loop c [a, b] = (?s ^^ 8) ((?s ^^ 8) (c XOR ucast a) XOR ucast b)"
    by (simp add: crc16_modbus_loop_fold crc_byte_r_def del: funpow.simps)
  also have "\<dots> = (?s ^^ 8) ((?s ^^ 8) (c XOR un_le16 a b))"
    by (simp only: split xor.assoc[symmetric] crc_steps_r_xor[of _ _ _ "push_bit 8 (ucast b)"] shift)
  also have "\<dots> = (?s ^^ 16) (c XOR un_le16 a b)"
    by (simp add: funpow_add[of 8 8, simplified] del: funpow.simps)
  finally show ?thesis .
qed

lemma crc_steps_r_0 [simp]: "(crc_step_r p ^^ n) 0 = 0"
  by (induction n) (simp_all add: crc_step_r_def)

lemma xor_eq_0_word: "(x XOR y = 0) = (x = (y :: 'a::len word))"
  by (metis xor_cancel_word xor_self_eq)

lemma un_le16_inj: "un_le16 a b = un_le16 c d \<longleftrightarrow> a = c \<and> b = d"
proof
  assume eq: "un_le16 a b = un_le16 c d"
  have "bit a i = bit c i" if "i < 8" for i
    using arg_cong[OF eq, of "\<lambda>w. bit w i"] that by (simp add: un_le16_def bit_simps)
  moreover have "bit b i = bit d i" if "i < 8" for i
    using arg_cong[OF eq, of "\<lambda>w. bit w (8 + i)"] that
    by (auto simp add: un_le16_def bit_simps dest: bit_lt)
  ultimately show "a = c \<and> b = d"
    by (auto intro: bit_word_eqI)
qed simp

lemma crc16_modbus_frame_check_rule:
  "crc16_modbus (bs @ [lo, hi]) = 0 \<longleftrightarrow> un_le16 lo hi = crc16_modbus bs"
proof -
  have "crc16_modbus (bs @ [lo, hi]) = (crc_step_r 0xA001 ^^ 16) (crc16_modbus bs XOR un_le16 lo hi)"
    by (simp only: crc16_modbus_def crc16_modbus_loop_append crc16_modbus_two)
  also have "\<dots> = 0 \<longleftrightarrow> crc16_modbus bs XOR un_le16 lo hi = 0"
    using inj_eq[OF modbus_steps_inj[of 16], of _ 0] by (simp del: funpow.simps)
  finally show ?thesis
    by (auto simp: xor_eq_0_word)
qed

text \<open>A Modbus frame ending in its own checksum, low byte first, leaves remainder zero,
  and no other two bytes do.\<close>

theorem crc16_modbus_frame_check:
  "crc16_modbus (bs @ [lo, hi]) = 0 \<longleftrightarrow> un_le16 lo hi = crc16_modbus bs"
  by (rule crc16_modbus_frame_check_rule)

text \<open>Two Modbus messages that differ in one or two adjacent bytes only have different
  checksums: no single corrupted byte, and no burst within two bytes, is missed.\<close>

theorem crc16_modbus_detects_bursts:
  assumes "crc16_modbus (xs @ [a, b] @ ys) = crc16_modbus (xs @ [c, d] @ ys)"
  shows "a = c \<and> b = d"
proof -
  have "crc16_modbus_loop (crc16_modbus xs) [a, b] = crc16_modbus_loop (crc16_modbus xs) [c, d]"
    using assms unfolding crc16_modbus_def crc16_modbus_loop_append by (rule crc16_modbus_loop_inj)
  then show ?thesis
    by (simp only: crc16_modbus_two inj_eq[OF modbus_steps_inj] xor.commute[of "crc16_modbus xs"]
        xor_cancel_word un_le16_inj)
qed

lemma crc16_modbus_detects_bursts_witness:
  "crc16_modbus ([1, 3] @ [16, 0] @ [7]) \<noteq> crc16_modbus ([1, 3] @ [16, 1] @ [7])"
  using crc16_modbus_detects_bursts[of "[1, 3]" 16 0 "[7]" 16 1] by force

section \<open>The Pearson hash\<close>

text \<open>One step of the Pearson hash is a bijection of the bytes, whatever byte is mixed in:
  the source's table is a permutation, so no state of the hash is lost.\<close>

theorem pearson_bij: "bij (\<lambda>cur. pearson cur nxt)"
proof -
  have "distinct (map unat pearson_permutation)"
    unfolding pearson_permutation_def by simp
  then have "distinct pearson_permutation"
    by (simp only: distinct_map)
  then have "inj (\<lambda>cur. pearson cur nxt)"
    by (auto simp: inj_def pearson_def nth_eq_iff_index_eq xor_cancel_word word_unat_eq_iff[symmetric])
  then show ?thesis
    by (simp add: bij_def finite_UNIV_inj_surj)
qed

section \<open>CRC32\<close>

fun le_bytes :: "u8 list \<Rightarrow> u32" where
  "le_bytes [] = 0"
| "le_bytes (b # bs) = ucast b XOR push_bit 8 (le_bytes bs)"

definition mem_bytes :: "(nat \<Rightarrow> u8) \<Rightarrow> nat \<Rightarrow> nat \<Rightarrow> u8 list" where
  "mem_bytes mem p n = map mem [p..<p + n]"

lemma length_mem_bytes [simp]: "length (mem_bytes mem p n) = n"
  by (simp add: mem_bytes_def)

lemma mem_bytes_add: "mem_bytes mem p (m + n) = mem_bytes mem p m @ mem_bytes mem (p + m) n"
  using upt_add_eq_append[of p "p + m" n] by (simp add: mem_bytes_def add.assoc)

lemma bit_le_bytes: "bit (le_bytes bs) i \<Longrightarrow> i < 8 * length bs"
proof (induction bs arbitrary: i)
  case (Cons b bs)
  show ?case
  proof (cases "i < 8")
    case False
    then have "\<not> bit (ucast b :: u32) i"
      using bit_lt(1)[of b i] by (auto simp: bit_simps)
    with Cons.prems have "bit (le_bytes bs) (i - 8)"
      by (simp add: bit_simps)
    then show ?thesis
      using Cons.IH[of "i - 8"] False by simp
  qed simp
qed simp

lemma le_bytes_append: "le_bytes (xs @ ys) = le_bytes xs XOR push_bit (8 * length xs) (le_bytes ys)"
  by (induction xs) (simp_all add: push_bit_xor_word xor.assoc add.commute)

lemma le_bytes_drop:
  assumes "length xs + length ys \<le> 4"
  shows "drop_bit (8 * length xs) (le_bytes (xs @ ys)) = le_bytes ys"
proof (rule bit_word_eqI)
  fix i :: nat assume "i < LENGTH(32)"
  then show "bit (drop_bit (8 * length xs) (le_bytes (xs @ ys))) i = bit (le_bytes ys) i"
    using bit_le_bytes[of xs "8 * length xs + i"] bit_le_bytes[of ys i] assms
    by (auto simp: le_bytes_append bit_simps)
qed

lemma le_bytes_mask: "le_bytes (xs @ ys) AND mask (8 * length xs) = le_bytes xs"
proof (rule bit_word_eqI)
  fix i :: nat assume "i < LENGTH(32)"
  then show "bit (le_bytes (xs @ ys) AND mask (8 * length xs)) i = bit (le_bytes xs) i"
    using bit_le_bytes[of xs i] by (auto simp: le_bytes_append bit_simps)
qed

lemma crc_bytes_r_word:
  "length bs \<le> 4 \<Longrightarrow> foldl (crc_byte_r p) c bs = (crc_step_r p ^^ (8 * length bs)) (c XOR le_bytes bs)"
proof (induction bs arbitrary: c)
  case (Cons b bs)
  have low: "\<not> bit (push_bit 8 (le_bytes bs)) i" if "i < 8" for i
    using that by (simp add: bit_push_bit_iff)
  have high: "drop_bit 8 (push_bit 8 (le_bytes bs)) = le_bytes bs"
    using le_bytes_drop[of "[0]" bs] Cons.prems by simp
  have "foldl (crc_byte_r p) c (b # bs)
      = (crc_step_r p ^^ (8 * length bs)) (crc_byte_r p c b XOR le_bytes bs)"
    using Cons by simp
  also have "crc_byte_r p c b XOR le_bytes bs = (crc_step_r p ^^ 8) (c XOR le_bytes (b # bs))"
    by (simp only: crc_byte_r_def le_bytes.simps xor.assoc[symmetric] crc_steps_r_xor[of _ _ _ "push_bit 8 _"]
        crc_steps_r_zero[OF low] high)
  finally show ?case
    by (simp add: funpow_add add.commute[of 8] del: funpow.simps le_bytes.simps)
qed simp

lemma crc32_bits_funpow: "crc32_bits n = (crc_step_r crc32_polynomial ^^ n)"
proof
  show "crc32_bits n c = (crc_step_r crc32_polynomial ^^ n) c" for c
    by (induction n arbitrary: c) (simp_all add: funpow_swap1 crc_step_r_def)
qed

lemma crc32_helper_bytes:
  assumes "length bs \<le> 4" "bytes = length bs"
  shows "crc32_recalculate_bytes_helper (le_bytes bs) crc bytes = foldl (crc_byte_r crc32_polynomial) crc bs"
  using assms by (simp add: crc32_recalculate_bytes_helper_def crc32_bits_funpow crc_bytes_r_word del: funpow.simps)

lemma un_le32_le_bytes: "un_le32 a b c d = le_bytes [a, b, c, d]"
proof (rule bit_word_eqI)
  fix i :: nat assume "i < LENGTH(32)"
  then consider "i < 8" | "8 \<le> i" "i < 16" | "16 \<le> i" "i < 24" | "24 \<le> i" "i < 32"
    by fastforce
  then show "bit (un_le32 a b c d) i = bit (le_bytes [a, b, c, d]) i"
    by cases (simp_all add: un_le32_def bit_simps u8_bit_out)
qed

lemma read_word_le_bytes: "read_word mem p = le_bytes (mem_bytes mem p 4)"
  by (simp add: read_word_def un_le32_le_bytes mem_bytes_def numeral_eq_Suc)

lemma crc32_words_bytes:
  "crc32_words mem p n crc = foldl (crc_byte_r crc32_polynomial) crc (mem_bytes mem p (4 * n))"
proof (induction n arbitrary: p crc)
  case (Suc n)
  have "mem_bytes mem p (4 * Suc n) = mem_bytes mem p 4 @ mem_bytes mem (p + 4) (4 * n)"
    using mem_bytes_add[of mem p 4 "4 * n"] by simp
  then show ?case
    using Suc by (simp add: read_word_le_bytes crc32_helper_bytes)
qed (simp add: mem_bytes_def)

lemma read_word_head:
  assumes "h \<le> 4"
  shows "drop_bit (8 * (4 - h)) (read_word mem p) = le_bytes (mem_bytes mem (p + (4 - h)) h)"
  using le_bytes_drop[of "mem_bytes mem p (4 - h)" "mem_bytes mem (p + (4 - h)) h"] assms
    mem_bytes_add[of mem p "4 - h" h]
  by (simp add: read_word_le_bytes)

lemma read_word_tail:
  assumes "0 < l" "l < 4"
  shows "read_word mem p AND drop_bit (8 * (4 - l)) 0xFFFFFFFF = le_bytes (mem_bytes mem p l)"
proof -
  have "drop_bit (8 * (4 - l)) (0xFFFFFFFF :: u32) = mask (8 * l)"
  proof -
    consider "l = 1" | "l = 2" | "l = 3"
      using assms by linarith
    then show ?thesis
      by cases (simp_all add: mask_eq_exp_minus_1)
  qed
  then show ?thesis
    using le_bytes_mask[of "mem_bytes mem p l" "mem_bytes mem (p + l) (4 - l)"] assms
      mem_bytes_add[of mem p l "4 - l"]
    by (simp add: read_word_le_bytes)
qed

lemma pos_mod_bound_nat4: "(n :: nat) mod 4 \<le> 3"
  using mod_less_divisor[of 4 n] by linarith

definition crc32_reference :: "u8 list \<Rightarrow> u32 \<Rightarrow> u32" where
  "crc32_reference bs crc =
     complement_crc (foldl (crc_byte_r crc32_polynomial) (complement_crc crc) bs)"

lemma mem_bytes_0 [simp]: "mem_bytes mem p 0 = []"
  by (simp add: mem_bytes_def)

lemma crc32_words_rule:
  assumes "4 \<le> len \<or> data mod 4 + len = 4 \<or> len = 0"
  shows "crc32_ieee_802_3_recalculate mem data len crc = crc32_reference (mem_bytes mem data len) crc"
proof -
  let ?f = "foldl (crc_byte_r crc32_polynomial)"
  define h where "h = (if len < 4 then len else (4 - data mod 4) mod 4)"
  define p where "p = data - data mod 4 + (if h = 0 then 0 else 4)"
  define w where "w = (len - h) div 4"
  define l where "l = (len - h) mod 4"
  define c1 where "c1 = ?f (complement_crc crc) (mem_bytes mem data h)"
  have align: "data mod 4 < 4" "data mod 4 \<le> data"
    by simp_all
  have h: "h \<le> 3" "h \<le> len"
    using pos_mod_bound_nat4 by (auto simp: h_def intro: order_trans)
  have w0: "w = 0 \<and> l = 0 \<or> p = data + h"
  proof (cases "4 \<le> len \<and> data mod 4 \<noteq> 0")
    case True
    with align have "h = 4 - data mod 4" "h \<noteq> 0" by (simp_all add: h_def)
    with align True show ?thesis by (simp add: p_def)
  next
    case False
    with assms align show ?thesis
      by (auto simp: h_def p_def w_def l_def split: if_splits)
  qed
  have len: "len = h + (4 * w + l)"
    using h by (simp add: w_def l_def)
  have head: "(if h \<noteq> 0 then crc32_recalculate_bytes_helper
      (drop_bit (8 * (4 - h)) (read_word mem (data - data mod 4))) (complement_crc crc) h
    else complement_crc crc) = c1"
  proof (cases "h = 0")
    case False
    then have "data - data mod 4 + (4 - h) = data"
      using assms align by (cases "data mod 4 = 0") (auto simp: h_def split: if_splits)
    then show ?thesis
      using h False by (simp add: c1_def read_word_head crc32_helper_bytes)
  qed (simp add: c1_def)
  then have start: "(if h \<noteq> 0 then (len - h, data - data mod 4 + 4, crc32_recalculate_bytes_helper
        (drop_bit (8 * (4 - h)) (read_word mem (data - data mod 4))) (complement_crc crc) h)
    else (len, data - data mod 4, complement_crc crc)) = (len - h, p, c1)"
    by (cases "h = 0") (simp_all add: p_def)
  have tail: "(if l \<noteq> 0 then crc32_recalculate_bytes_helper
      (read_word mem q AND drop_bit (8 * (4 - l)) 0xFFFFFFFF) c l else c) = ?f c (mem_bytes mem q l)"
    for q c
    by (simp add: l_def read_word_tail crc32_helper_bytes)
  have "mem_bytes mem data len
      = mem_bytes mem data h @ mem_bytes mem p (4 * w) @ mem_bytes mem (p + 4 * w) l"
    using w0 by (auto simp: len mem_bytes_add)
  moreover have "crc32_ieee_802_3_recalculate mem data len crc
      = complement_crc (?f (?f c1 (mem_bytes mem p (4 * w))) (mem_bytes mem (p + 4 * w) l))"
    unfolding crc32_ieee_802_3_recalculate_def Let_def h_def[symmetric] start prod.case
    by (simp only: w_def[symmetric] l_def[symmetric] tail crc32_words_bytes)
  ultimately show ?thesis
    by (simp add: crc32_reference_def c1_def)
qed

text \<open>The word driven CRC32 is the bytewise CRC32 of the buffer, at every alignment, for
  buffers of four bytes and more, for a shorter one that ends at a word boundary, and for the
  empty one; the bytes read around the buffer do not matter.\<close>

theorem crc32_words_are_bytes:
  assumes "4 \<le> len \<or> data mod 4 + len = 4 \<or> len = 0"
  shows "crc32_ieee_802_3_recalculate mem data len crc = crc32_reference (mem_bytes mem data len) crc"
  using assms by (rule crc32_words_rule)

lemma crc32_words_are_bytes_witness:
  "crc32_ieee_802_3_recalculate of_nat 5 6 0 = crc32_reference [5, 6, 7, 8, 9, 10] 0"
  using crc32_words_are_bytes[of 6 5 of_nat 0] by (simp add: mem_bytes_def)

text \<open>A buffer of one to three bytes gets the checksum of the last bytes of the aligned word
  it starts in, wherever in the word it starts: unless it ends at the word boundary, the result
  does not depend on (all of) its own bytes.\<close>

theorem crc32_short_buffer:
  assumes "0 < len" "len < 4"
  shows "crc32_ieee_802_3 mem data len =
    crc32_reference (mem_bytes mem (data - data mod 4 + (4 - len)) len) 0"
  using assms
  by (simp add: crc32_ieee_802_3_def crc32_ieee_802_3_recalculate_def crc32_reference_def
      read_word_head crc32_helper_bytes)

lemma crc32_short_buffer_witness:
  "crc32_ieee_802_3 (\<lambda>a. if a = 8 then 65 else 0) 8 1 =
   crc32_ieee_802_3 (\<lambda>a. if a = 8 then 66 else 0) 8 1"
  by (simp add: crc32_short_buffer mem_bytes_def)

end
