(* ===== verification/Numeric.thy ===== *)
theory Numeric
  imports Complex_Main Bricklib_Prelude
begin

text \<open>
  The integer square root of \<^verbatim>\<open>utility/sqrt.c\<close> and the helper macros of
  \<^verbatim>\<open>utility/util_definitions.h\<close> (byte order, sign extension, clamping).
\<close>

section \<open>The integer square root\<close>

lemma drop_bit_2_less: "drop_bit 2 (q :: u32) \<noteq> 0 \<Longrightarrow> unat (drop_bit 2 q) < unat q"
proof -
  assume "drop_bit 2 q \<noteq> 0"
  then have "unat (drop_bit 2 q) \<noteq> 0" by (simp only: unsigned_eq_0_iff not_False_eq_True)
  then show ?thesis
    unfolding unat_drop_bit by (simp add: div_less_dividend)
qed

text \<open>
  The do-while loop shifts the scan bit by two until it is gone; the pair is (x, xr) after it.
\<close>

function sqrt_loop :: "u32 \<Rightarrow> u32 \<Rightarrow> u32 \<Rightarrow> u32 \<times> u32" where
  "sqrt_loop x xr q2 =
     (let (x1, f) = (if xr + q2 \<le> x then (x - (xr + q2), True) else (x, False));
          xr1 = drop_bit 1 xr;
          xr2 = (if f then xr1 + q2 else xr1);
          q21 = drop_bit 2 q2
      in if q21 \<noteq> 0 then sqrt_loop x1 xr2 q21 else (x1, xr2))"
  by pat_completeness auto

termination
  by (relation "measure (\<lambda>(x, xr, q2). unat q2)") (use drop_bit_2_less in auto)

declare sqrt_loop.simps [simp del]

definition sqrt_integer_precise :: "u32 \<Rightarrow> u32" where
  "sqrt_integer_precise x =
     (let (x1, xr) = sqrt_loop x 0 0x40000000 in if xr < x1 then xr + 1 else xr)"

text \<open>
  The invariant at scan bit \<open>4 ^ k\<close>: the root found so far is \<open>R\<close>, \<open>x\<close> holds the rest
  \<open>X - R\<^sup>2\<close> and \<open>xr\<close> the cross term \<open>2 ^ (k + 1) * R\<close>.
\<close>

definition sqrt_inv :: "nat \<Rightarrow> nat \<Rightarrow> nat \<Rightarrow> u32 \<Rightarrow> u32 \<Rightarrow> bool" where
  "sqrt_inv X k R x xr \<longleftrightarrow>
     R * R \<le> X \<and> X < (R + 2 ^ k) * (R + 2 ^ k) \<and> 2 ^ k dvd R \<and> R + 2 ^ k \<le> 2 ^ 16 \<and>
     unat x = X - R * R \<and> unat xr = 2 ^ k * R"

lemma sqrt_step:
  assumes inv: "sqrt_inv X (Suc k) R x xr" and q2: "unat q2 = 4 ^ k"
  shows "\<exists>R'. sqrt_inv X k R' (if xr + q2 \<le> x then x - (xr + q2) else x)
    (if xr + q2 \<le> x then drop_bit 1 xr + q2 else drop_bit 1 xr)"
proof -
  let ?b = "2 ^ k :: nat"
  have four: "4 ^ k = ?b * ?b" by (simp flip: power_mult_distrib)
  obtain m where m: "R = 2 * ?b * m" using inv by (auto simp: sqrt_inv_def)
  have lt: "R + ?b < 2 ^ 16"
  proof -
    have "R + ?b < R + 2 ^ Suc k" by simp
    also have "\<dots> \<le> 2 ^ 16" using inv by (simp only: sqrt_inv_def)
    finally show ?thesis .
  qed
  have sq: "(R + ?b) * (R + ?b) = R * R + (2 * ?b * R + ?b * ?b)"
    by (simp add: algebra_simps)
  have "(R + ?b) * (R + ?b) < 2 ^ 16 * 2 ^ 16"
    using mult_strict_mono[OF lt lt] by simp
  then have sum_lt: "2 * ?b * R + ?b * ?b < 2 ^ 32"
    unfolding sq by simp
  have sum: "unat (xr + q2) = 2 * ?b * R + ?b * ?b"
    using inv q2 four sum_lt by (simp add: sqrt_inv_def unat_word_ariths mult.assoc)
  have half: "unat (drop_bit 1 xr) = ?b * R"
    using inv by (simp add: sqrt_inv_def unat_drop_bit del: drop_bit_eq_div)
  show ?thesis
  proof (cases "xr + q2 \<le> x")
    case True
    have le: "(R + ?b) * (R + ?b) \<le> X"
    proof -
      have "2 * ?b * R + ?b * ?b \<le> unat x"
        using True sum by (simp add: word_le_nat_alt)
      then show ?thesis
        using inv unfolding sq sqrt_inv_def by linarith
    qed
    have "unat (x - (xr + q2)) = X - (R + ?b) * (R + ?b)"
      using True inv sum by (simp only: sq unat_sub sqrt_inv_def diff_diff_left)
    moreover have "unat (drop_bit 1 xr + q2) = ?b * (R + ?b)"
    proof -
      have "?b * R + ?b * ?b < 2 ^ LENGTH(32)" using sum_lt by simp
      then show ?thesis
        by (simp only: unat_word_ariths half q2 four mod_less distrib_left)
    qed
    moreover have "X < (R + ?b + ?b) * (R + ?b + ?b)"
    proof -
      have "R + ?b + ?b = R + 2 ^ Suc k" by simp
      then show ?thesis using inv by (simp only: sqrt_inv_def)
    qed
    moreover have "?b dvd R + ?b" using m by simp
    moreover have "R + ?b + ?b \<le> 2 ^ 16"
      using inv by (simp add: sqrt_inv_def)
    ultimately have "sqrt_inv X k (R + ?b) (x - (xr + q2)) (drop_bit 1 xr + q2)"
      using le by (simp only: sqrt_inv_def)
    with True show ?thesis by auto
  next
    case False
    have gt: "X < (R + ?b) * (R + ?b)"
      using False inv sum unfolding sq by (simp add: word_le_nat_alt sqrt_inv_def)
    then have "sqrt_inv X k R x (drop_bit 1 xr)"
      using False inv half m lt by (auto simp: sqrt_inv_def)
    with False show ?thesis by auto
  qed
qed

lemma sqrt_loop_inv:
  assumes "sqrt_inv X (Suc k) R x xr" "unat q2 = 4 ^ k"
  shows "\<exists>R'. case sqrt_loop x xr q2 of (x', xr') \<Rightarrow> sqrt_inv X 0 R' x' xr'"
  using assms
proof (induction k arbitrary: R x xr q2)
  case 0
  then have q2: "q2 = 1" by (simp add: word_unat_eq_iff)
  from sqrt_step[OF 0] show ?case
    by (subst sqrt_loop.simps) (auto simp: Let_def q2)
next
  case (Suc k)
  have d: "unat (drop_bit 2 q2) = 4 ^ k"
    using Suc.prems by (simp add: unat_drop_bit)
  then have "drop_bit 2 q2 \<noteq> 0" by auto
  with sqrt_step[OF Suc.prems] Suc.IH[OF _ d] show ?case
    by (subst sqrt_loop.simps) (auto simp: Let_def)
qed

lemma sqrt_integer_precise_bounds:
  obtains R where "R * R \<le> unat x" "unat x \<le> R * R + 2 * R"
    "unat (sqrt_integer_precise x) = (if R < unat x - R * R then R + 1 else R)"
proof -
  obtain x' xr where loop: "sqrt_loop x 0 0x40000000 = (x', xr)" by fastforce
  have "sqrt_inv (unat x) (Suc 15) 0 x 0"
    using unat_u32[of x] by (simp add: sqrt_inv_def)
  from sqrt_loop_inv[OF this, of "0x40000000"] loop
  obtain R where R: "sqrt_inv (unat x) 0 R x' xr" by auto
  show thesis
  proof (rule that)
    show "R * R \<le> unat x" "unat x \<le> R * R + 2 * R"
      using R by (auto simp: sqrt_inv_def)
    show "unat (sqrt_integer_precise x) = (if R < unat x - R * R then R + 1 else R)"
      using R loop
      by (auto simp: sqrt_integer_precise_def sqrt_inv_def word_less_nat_alt unat_word_ariths)
  qed
qed

text \<open>sqrt_integer_precise returns the integer nearest to the square root of its argument,
  for every 32 bit argument: no step of its loop overflows.\<close>

theorem sqrt_integer_precise_nearest:
  "\<bar>sqrt (real (unat x)) - real (unat (sqrt_integer_precise x))\<bar> < 1 / 2"
proof -
  obtain R where R: "R * R \<le> unat x" "unat x \<le> R * R + 2 * R"
    "unat (sqrt_integer_precise x) = (if R < unat x - R * R then R + 1 else R)"
    by (rule sqrt_integer_precise_bounds)
  define n where "n = unat x"
  note R = R[folded n_def]
  let ?X = "real n"
  have X: "real R * real R \<le> ?X" "?X \<le> real R * real R + 2 * real R"
    using R(1,2) by (simp_all flip: of_nat_mult of_nat_add add: of_nat_le_iff)
  have "\<bar>sqrt ?X - real (unat (sqrt_integer_precise x))\<bar> < 1 / 2"
  proof (cases "R < n - R * R")
    case True
    have "real R * real R + real R + 1 \<le> ?X"
      using True by (simp flip: of_nat_mult of_nat_add of_nat_Suc add: of_nat_le_iff)
    then have "real R + 1 / 2 < sqrt ?X"
      by (intro real_less_rsqrt) (simp add: power2_eq_square algebra_simps)
    moreover have "sqrt ?X < real R + 3 / 2"
      using X by (intro real_less_lsqrt) (auto simp: power2_eq_square algebra_simps)
    moreover have "real (unat (sqrt_integer_precise x)) = real R + 1"
      unfolding R(3) using True by simp
    ultimately show ?thesis
      unfolding abs_less_iff by linarith
  next
    case False
    have "?X \<le> real R * real R + real R"
      using False R(1) by (simp flip: of_nat_mult of_nat_add add: of_nat_le_iff)
    then have "sqrt ?X < real R + 1 / 2"
      by (intro real_less_lsqrt) (auto simp: power2_eq_square algebra_simps)
    moreover have "real R \<le> sqrt ?X"
      using X by (intro real_le_rsqrt) (simp add: power2_eq_square)
    moreover have "real (unat (sqrt_integer_precise x)) = real R"
      unfolding R(3) using False by simp
    ultimately show ?thesis
      unfolding abs_less_iff by linarith
  qed
  then show ?thesis
    by (simp only: n_def)
qed

section \<open>Helper macros\<close>

definition HTONS :: "u16 \<Rightarrow> u16" where
  "HTONS x = push_bit 8 (x AND 0xFF) OR (drop_bit 8 x AND 0xFF)"

definition HTONL :: "u32 \<Rightarrow> u32" where
  "HTONL x = (push_bit 24 x AND 0xFF000000) OR (push_bit 8 x AND 0x00FF0000) OR
     (drop_bit 8 x AND 0x0000FF00) OR (drop_bit 24 x AND 0x000000FF)"

definition INTN_TO_INT32 :: "u32 \<Rightarrow> nat \<Rightarrow> u32" where
  "INTN_TO_INT32 value bits =
     (if value AND push_bit (bits - 1) 1 \<noteq> 0 then value OR NOT (push_bit bits 1 - 1) else value)"

definition c_MIN :: "'a::linorder \<Rightarrow> 'a \<Rightarrow> 'a" where
  "c_MIN a b = (if a < b then a else b)"

definition c_MAX :: "'a::linorder \<Rightarrow> 'a \<Rightarrow> 'a" where
  "c_MAX a b = (if a > b then a else b)"

definition BETWEEN :: "'a::linorder \<Rightarrow> 'a \<Rightarrow> 'a \<Rightarrow> 'a" where
  "BETWEEN lo v hi = c_MIN hi (c_MAX v lo)"

lemma BETWEEN_bounds: "lo \<le> hi \<Longrightarrow> lo \<le> BETWEEN lo v hi \<and> BETWEEN lo v hi \<le> hi"
  by (auto simp: BETWEEN_def c_MIN_def c_MAX_def)

lemma BETWEEN_id: "lo \<le> v \<Longrightarrow> v \<le> hi \<Longrightarrow> BETWEEN lo v hi = v"
  by (auto simp: BETWEEN_def c_MIN_def c_MAX_def)

lemma HTONS_bytes: "le16 (HTONS x) = rev (le16 x)"
  by (auto simp: le16_def HTONS_def byte_mask bit_simps intro!: bit_word_eqI)

lemma HTONS_HTONS: "HTONS (HTONS x) = x"
  by (rule bit_word_eqI) (auto simp: HTONS_def byte_mask bit_simps u8_bit_out dest: bit_lt)

end
