(* ===== verification/Moving_Average.thy ===== *)
theory Moving_Average
  imports Numeric
begin

text \<open>
  The moving average of \<^verbatim>\<open>utility/moving_average.c\<close> in its default configuration
  (int16 values, int32 sum, at most 100 values). The window is the array read from the oldest
  value on; the sum is kept up to date incrementally.
\<close>

definition MOVING_AVERAGE_MAX_LENGTH :: u32 where
  "MOVING_AVERAGE_MAX_LENGTH = 100"

record moving_average =
  ma_length :: u32
  ma_index :: u32
  ma_sum :: u32
  ma_values :: "u16 list"

definition moving_average_get :: "moving_average \<Rightarrow> u16" where
  "moving_average_get ma =
     (let half = word_of_int (c_div (sint (ma_length ma)) 2) in
      if sint (ma_sum ma) < 0
      then word_of_int (c_div (sint (ma_sum ma - half)) (sint (ma_length ma)))
      else word_of_int (c_div (sint (ma_sum ma + half)) (sint (ma_length ma))))"

definition moving_average_init :: "moving_average \<Rightarrow> u16 \<Rightarrow> u32 \<Rightarrow> moving_average" where
  "moving_average_init ma start_value len =
     (let new_length = BETWEEN 1 len MOVING_AVERAGE_MAX_LENGTH in
      \<lparr> ma_length = new_length, ma_index = 0, ma_sum = scast start_value * new_length,
        ma_values = replicate (unat new_length) start_value @ drop (unat new_length) (ma_values ma) \<rparr>)"

definition moving_average_new_length :: "moving_average \<Rightarrow> u32 \<Rightarrow> moving_average" where
  "moving_average_new_length ma len =
     (let new_length = BETWEEN 1 len MOVING_AVERAGE_MAX_LENGTH in
      if new_length = ma_length ma then ma
      else moving_average_init ma (moving_average_get ma) new_length)"

definition moving_average_handle_value ::
  "moving_average \<Rightarrow> u16 \<Rightarrow> (u16 \<times> moving_average) option" where
  "moving_average_handle_value ma new_value = do {
     old \<leftarrow> arr_get (ma_values ma) (unat (ma_index ma));
     values \<leftarrow> arr_set (ma_values ma) (unat (ma_index ma)) new_value;
     let sum = ma_sum ma - scast old + scast new_value;
     let index = (if ma_index ma + 1 \<ge> ma_length ma then 0 else ma_index ma + 1);
     let ma' = ma \<lparr> ma_index := index, ma_sum := sum, ma_values := values \<rparr>;
     Some (moving_average_get ma', ma')
   }"

section \<open>The window and the invariant\<close>

definition ma_window :: "moving_average \<Rightarrow> int list" where
  "ma_window ma = (let vs = map sint (take (unat (ma_length ma)) (ma_values ma))
     in drop (unat (ma_index ma)) vs @ take (unat (ma_index ma)) vs)"

definition ma_wf :: "moving_average \<Rightarrow> bool" where
  "ma_wf ma \<longleftrightarrow> length (ma_values ma) = 100 \<and> 1 \<le> unat (ma_length ma) \<and>
     unat (ma_length ma) \<le> 100 \<and> unat (ma_index ma) < unat (ma_length ma) \<and>
     ma_sum ma = word_of_int (sum_list (ma_window ma))"

text \<open>Rounding to the nearest integer, halves away from zero.\<close>

definition round_half_away :: "int \<Rightarrow> int \<Rightarrow> int" where
  "round_half_away s n = sgn s * ((2 * \<bar>s\<bar> + n) div (2 * n))"

definition rounded_mean :: "int list \<Rightarrow> u16" where
  "rounded_mean vs = word_of_int (round_half_away (sum_list vs) (int (length vs)))"

lemma sint_u16_bound: "- 32768 \<le> sint (v :: u16)" "sint (v :: u16) \<le> 32767"
  using sint_ge[of v] sint_lt[of v] by simp_all

lemma sum_list_bound:
  assumes "\<forall>v\<in>set vs. - 32768 \<le> v \<and> v \<le> (32767 :: int)"
  shows "\<bar>sum_list vs\<bar> \<le> 32768 * int (length vs)"
  using assms by (induction vs) auto

lemma sum_list_rotate: "sum_list (drop k vs @ take k vs) = sum_list (vs :: int list)"
  by (metis add.commute append_take_drop_id sum_list_append)

lemma ma_window_sum: "sum_list (ma_window ma) = sum_list (map sint (take (unat (ma_length ma)) (ma_values ma)))"
  unfolding ma_window_def Let_def by (rule sum_list_rotate)

lemma ma_window_length: "ma_wf ma \<Longrightarrow> length (ma_window ma) = unat (ma_length ma)"
  by (simp add: ma_wf_def ma_window_def Let_def)

lemma ma_window_bound: "ma_wf ma \<Longrightarrow> \<bar>sum_list (ma_window ma)\<bar> \<le> 3276800"
proof -
  assume wf: "ma_wf ma"
  have "\<bar>sum_list (ma_window ma)\<bar> \<le> 32768 * int (length (ma_window ma))"
    by (rule sum_list_bound)
      (auto simp: ma_window_def Let_def sint_u16_bound dest!: in_set_takeD in_set_dropD)
  moreover have "int (length (ma_window ma)) \<le> 100"
  proof -
    have "unat (ma_length ma) \<le> 100" using wf by (simp only: ma_wf_def)
    then show ?thesis unfolding ma_window_length[OF wf] by linarith
  qed
  ultimately show ?thesis by linarith
qed

lemma sint_word_of_int_small: "- 2147483648 \<le> s \<Longrightarrow> s \<le> 2147483647 \<Longrightarrow> sint (word_of_int s :: u32) = s"
  by (simp add: sint_sbintrunc' signed_take_bit_int_eq_self)

lemma c_div_round:
  assumes "0 < n"
  shows "c_div (if s < 0 then s - n div 2 else s + n div 2) n = round_half_away s n"
proof -
  have half: "(\<bar>s\<bar> + n div 2) div n = (2 * \<bar>s\<bar> + n) div (2 * n)"
  proof -
    have "(2 * \<bar>s\<bar> + n) div (2 * n) = (2 * \<bar>s\<bar> + n) div 2 div n"
      using assms by (simp add: zdiv_zmult2_eq)
    then show ?thesis by simp
  qed
  consider "s < 0" | "s = 0" | "0 < s" by linarith
  then show ?thesis
  proof cases
    case 1
    then have "\<bar>s - n div 2\<bar> = \<bar>s\<bar> + n div 2" "sgn (s - n div 2) = -1"
      using assms by (auto simp: sgn_if)
    with 1 assms half show ?thesis by (simp add: c_div_def round_half_away_def)
  next
    case 2
    then show ?thesis using assms by (simp add: c_div_def round_half_away_def)
  next
    case 3
    then have "\<bar>s + n div 2\<bar> = \<bar>s\<bar> + n div 2" "sgn (s + n div 2) = 1"
      using assms by (auto simp: sgn_if)
    with 3 assms half show ?thesis by (simp add: c_div_def round_half_away_def)
  qed
qed

lemma int_div_less: "0 < d \<Longrightarrow> a < K * d \<Longrightarrow> a div d < (K :: int)"
proof -
  assume d: "0 < d" "a < K * d"
  then have "d * (a div d) \<le> a"
    using mult_div_mod_eq[of d a] pos_mod_sign[OF d(1), of a] by linarith
  with d have "a div d * d < K * d" by (simp only: mult.commute[of d])
  with d(1) show ?thesis by simp
qed

lemma round_half_away_bounds:
  assumes n: "0 < n" and s: "- 32768 * n \<le> s" "s \<le> 32767 * n"
  shows "- 32768 \<le> round_half_away s n \<and> round_half_away s n \<le> 32767"
proof (cases "s < 0")
  case True
  have "2 * \<bar>s\<bar> + n < 32769 * (2 * n)" using s n True by simp
  then have "(2 * \<bar>s\<bar> + n) div (2 * n) < 32769"
    using n by (intro int_div_less) simp_all
  moreover have "0 \<le> (2 * \<bar>s\<bar> + n) div (2 * n)"
    using n by (simp add: pos_imp_zdiv_nonneg_iff)
  ultimately show ?thesis using True by (simp add: round_half_away_def)
next
  case False
  have "2 * \<bar>s\<bar> + n < 32768 * (2 * n)" using s n False by simp
  then have "(2 * \<bar>s\<bar> + n) div (2 * n) < 32768"
    using n by (intro int_div_less) simp_all
  moreover have "0 \<le> (2 * \<bar>s\<bar> + n) div (2 * n)"
    using n by (simp add: pos_imp_zdiv_nonneg_iff)
  ultimately show ?thesis using False by (simp add: round_half_away_def sgn_if)
qed

lemma sum_list_bounds_16:
  "- 32768 * int (length vs) \<le> sum_list (map sint vs)" "sum_list (map sint (vs :: u16 list)) \<le> 32767 * int (length vs)"
proof (induction vs)
  case (Cons v vs)
  { case 1 with Cons sint_u16_bound[of v] show ?case by simp }
  { case 2 with Cons sint_u16_bound[of v] show ?case by simp }
qed simp_all

lemma sint_u32_small:
  assumes "unat w \<le> 100"
  shows "sint (w :: u32) = int (unat w)"
proof -
  have "sint (word_of_int (int (unat w)) :: u32) = int (unat w)"
    by (rule sint_word_of_int_small) (use assms in linarith)+
  then show ?thesis by simp
qed

lemma ma_get_round:
  assumes wf: "ma_wf ma"
  shows "sint (moving_average_get ma)
    = round_half_away (sum_list (ma_window ma)) (int (length (ma_window ma)))"
proof -
  let ?S = "sum_list (ma_window ma)" and ?n = "int (unat (ma_length ma))"
  have n: "0 < ?n" "?n \<le> 100"
    using wf by (simp_all only: ma_wf_def of_nat_0_less_iff) linarith+
  have len: "sint (ma_length ma) = ?n"
    using wf by (intro sint_u32_small) (simp only: ma_wf_def)
  have half: "c_div ?n 2 = ?n div 2" "0 \<le> ?n div 2" "?n div 2 \<le> 50"
    using n by (auto simp: c_div_def)
  have sum: "ma_sum ma = word_of_int ?S" and b: "\<bar>?S\<bar> \<le> 3276800"
    using wf ma_window_bound[OF wf] by (simp_all only: ma_wf_def)
  have S: "sint (ma_sum ma) = ?S"
    unfolding sum by (rule sint_word_of_int_small) (use b in linarith)+
  have "sint (ma_sum ma - word_of_int (?n div 2)) = ?S - ?n div 2"
    unfolding sum of_int_diff[symmetric]
    by (rule sint_word_of_int_small) (use b half in linarith)+
  moreover have "sint (ma_sum ma + word_of_int (?n div 2)) = ?S + ?n div 2"
    unfolding sum of_int_add[symmetric]
    by (rule sint_word_of_int_small) (use b half in linarith)+
  ultimately have get: "moving_average_get ma = word_of_int (round_half_away ?S ?n)"
    using c_div_round[OF n(1), of ?S]
    by (cases "?S < 0") (simp_all only: moving_average_get_def Let_def len half S if_True if_False)
  have "length (take (unat (ma_length ma)) (ma_values ma)) = unat (ma_length ma)"
    using wf by (simp add: ma_wf_def)
  then have "- 32768 * ?n \<le> ?S" "?S \<le> 32767 * ?n"
    unfolding ma_window_sum using sum_list_bounds_16[of "take (unat (ma_length ma)) (ma_values ma)"]
    by (simp_all only:)
  then have "- 32768 \<le> round_half_away ?S ?n \<and> round_half_away ?S ?n \<le> 32767"
    by (rule round_half_away_bounds[OF n(1)])
  then show ?thesis
    unfolding get ma_window_length[OF wf] by (simp add: sint_sbintrunc' signed_take_bit_int_eq_self)
qed

lemma window_update:
  assumes "i < length vs"
  shows "(let j = (if i + 1 \<ge> length vs then 0 else i + 1) in drop j (vs[i := v]) @ take j (vs[i := v]))
    = tl (drop i vs @ take i vs) @ [v]"
proof (cases "i + 1 \<ge> length vs")
  case True
  obtain us x where vs: "vs = us @ [x]"
    using assms by (cases vs rule: rev_cases) auto
  with True assms have "i = length us" by simp
  then show ?thesis by (simp add: vs)
next
  case False
  then show ?thesis using assms
    by (simp add: take_Suc_conv_app_nth Cons_nth_drop_Suc[symmetric])
qed

lemma unat_new_length:
  "1 \<le> unat (BETWEEN 1 len MOVING_AVERAGE_MAX_LENGTH) \<and>
   unat (BETWEEN 1 len MOVING_AVERAGE_MAX_LENGTH) \<le> 100"
  using BETWEEN_bounds[of 1 MOVING_AVERAGE_MAX_LENGTH len]
  by (simp add: MOVING_AVERAGE_MAX_LENGTH_def word_le_nat_alt)

lemma moving_average_init_wf:
  assumes "length (ma_values ma) = 100"
  shows "ma_wf (moving_average_init ma v len)"
    and "ma_window (moving_average_init ma v len)
      = replicate (unat (BETWEEN 1 len MOVING_AVERAGE_MAX_LENGTH)) (sint v)"
proof -
  let ?n = "BETWEEN 1 len MOVING_AVERAGE_MAX_LENGTH"
  show win: "ma_window (moving_average_init ma v len) = replicate (unat ?n) (sint v)"
    by (simp add: ma_window_def moving_average_init_def Let_def)
  have "ma_sum (moving_average_init ma v len) = word_of_int (sum_list (replicate (unat ?n) (sint v)))"
    by (simp add: moving_average_init_def Let_def sum_list_replicate mult.commute)
  then show "ma_wf (moving_average_init ma v len)"
    using assms unat_new_length[of len] unfolding ma_wf_def win
    by (simp add: moving_average_init_def Let_def)
qed

lemma moving_average_new_length_wf:
  assumes "ma_wf ma"
  shows "ma_wf (moving_average_new_length ma len)"
  using assms moving_average_init_wf(1)[of ma]
  by (simp add: moving_average_new_length_def Let_def ma_wf_def)

text \<open>Handling a value shifts the window of the moving average: the oldest value leaves, the
  new one enters, the running sum stays the sum of the window, and the returned average is the
  mean of the new window rounded to the nearest integer, halves away from zero.\<close>

theorem moving_average_handle_value_window:
  assumes "ma_wf ma"
  shows "\<exists>r ma'. moving_average_handle_value ma v = Some (r, ma') \<and> ma_wf ma' \<and>
    ma_window ma' = tl (ma_window ma) @ [sint v] \<and>
    sint r = round_half_away (sum_list (ma_window ma')) (int (length (ma_window ma')))"
proof -
  let ?L = "unat (ma_length ma)" and ?i = "unat (ma_index ma)" 
  have wf: "length (ma_values ma) = 100" "1 \<le> ?L" "?L \<le> 100" "?i < ?L"
    "ma_sum ma = word_of_int (sum_list (ma_window ma))"
    using assms by (simp_all only: ma_wf_def)
  define j where "j = (if ma_index ma + 1 \<ge> ma_length ma then 0 else ma_index ma + 1)"
  define ma' where "ma' = ma \<lparr> ma_index := j, ma_sum := ma_sum ma - scast (ma_values ma ! ?i) + scast v,
    ma_values := (ma_values ma)[?i := v] \<rparr>"
  have run: "moving_average_handle_value ma v = Some (moving_average_get ma', ma')"
    using wf by (simp add: moving_average_handle_value_def arr_simps ma'_def j_def Let_def)
  have j: "unat j = (if ?i + 1 \<ge> ?L then 0 else ?i + 1)"
    using wf unat_Suc_no_wrap[of "ma_index ma" "ma_length ma"] by (simp add: j_def word_le_nat_alt)
  let ?vs = "map sint (take ?L (ma_values ma))"
  have vs: "?i < length ?vs" "length ?vs = ?L" "?vs ! ?i = sint (ma_values ma ! ?i)"
    using wf by simp_all
  have win: "ma_window ma' = tl (ma_window ma) @ [sint v]"
  proof -
    have "ma_window ma' = drop (unat j) (?vs[?i := sint v]) @ take (unat j) (?vs[?i := sint v])"
      by (simp add: ma_window_def Let_def ma'_def take_update_swap map_update)
    then show ?thesis
      using window_update[OF vs(1), of "sint v"] by (simp only: ma_window_def Let_def j vs(2))
  qed
  have hd: "ma_window ma = sint (ma_values ma ! ?i) # tl (ma_window ma)"
    using vs by (simp add: ma_window_def Let_def Cons_nth_drop_Suc[symmetric])
  have "ma_sum ma' = word_of_int (sum_list (ma_window ma) - sint (ma_values ma ! ?i) + sint v)"
    by (simp add: ma'_def wf(5))
  also have "sum_list (ma_window ma) - sint (ma_values ma ! ?i) + sint v = sum_list (ma_window ma')"
  proof -
    have "sum_list (ma_window ma) = sint (ma_values ma ! ?i) + sum_list (tl (ma_window ma))"
      using arg_cong[OF hd, of sum_list] by (simp only: sum_list.Cons)
    then show ?thesis by (simp add: win)
  qed
  finally have "ma_wf ma'"
    using wf j by (simp add: ma_wf_def) (simp add: ma'_def)
  with run win ma_get_round[of ma'] show ?thesis by simp
qed

definition ma_zeros :: moving_average where
  "ma_zeros = \<lparr> ma_length = 0, ma_index = 0, ma_sum = 0, ma_values = replicate 100 0 \<rparr>"

lemma moving_average_handle_value_window_witness:
  "ma_window (snd (the (moving_average_handle_value (moving_average_init ma_zeros 5 3) 9))) = [5, 5, 9]"
proof -
  have n: "BETWEEN 1 3 MOVING_AVERAGE_MAX_LENGTH = 3"
    by (simp add: BETWEEN_def c_MIN_def c_MAX_def MOVING_AVERAGE_MAX_LENGTH_def)
  have len: "length (ma_values ma_zeros) = 100"
    by (simp add: ma_zeros_def)
  have "ma_window (moving_average_init ma_zeros 5 3) = replicate 3 5"
    using moving_average_init_wf(2)[OF len, of 5 3] unfolding n by simp
  with moving_average_handle_value_window[OF moving_average_init_wf(1)[OF len], of 5 3 9]
  show ?thesis by (auto simp: numeral_2_eq_2)
qed

end
