(* ===== verification/Tfp.thy ===== *)
theory Tfp
  imports Bricklib_Prelude
begin

text \<open>
  The message header and the base58 UIDs of \<^verbatim>\<open>protocols/tfp/tfp.c\<close>. A header is
  the packed eight byte struct of the source: the bit fields of a byte are allocated from the
  least significant bit on (the ABI of the Cortex-M compilers the library is built with).
\<close>

section \<open>The header\<close>

record tfp_message_header =
  h_uid :: u32
  h_length :: u8
  h_fid :: u8
  h_other_options :: "2 word"
  h_authentication :: "1 word"
  h_return_expected :: "1 word"
  h_sequence_num :: "4 word"
  h_future_use :: "6 word"
  h_error :: "2 word"

text \<open>The header as it lies in memory, and the struct read back from a message.\<close>

definition header_bytes :: "tfp_message_header \<Rightarrow> u8 list" where
  "header_bytes h = le32 (h_uid h) @
     [h_length h, h_fid h,
      ucast (h_other_options h) OR push_bit 2 (ucast (h_authentication h)) OR
        push_bit 3 (ucast (h_return_expected h)) OR push_bit 4 (ucast (h_sequence_num h)),
      ucast (h_future_use h) OR push_bit 6 (ucast (h_error h))]"

definition read_header :: "u8 list \<Rightarrow> tfp_message_header option" where
  "read_header m = (if length m < 8 then None else Some
     \<lparr> h_uid = un_le32 (m ! 0) (m ! 1) (m ! 2) (m ! 3),
       h_length = m ! 4, h_fid = m ! 5,
       h_other_options = ucast (m ! 6), h_authentication = ucast (drop_bit 2 (m ! 6)),
       h_return_expected = ucast (drop_bit 3 (m ! 6)), h_sequence_num = ucast (drop_bit 4 (m ! 6)),
       h_future_use = ucast (m ! 7), h_error = ucast (drop_bit 6 (m ! 7)) \<rparr>)"

definition tfp_is_return_expected :: "u8 list \<Rightarrow> bool option" where
  "tfp_is_return_expected message = map_option (\<lambda>h. h_return_expected h \<noteq> 0) (read_header message)"

definition tfp_get_length_from_message :: "u8 list \<Rightarrow> u8 option" where
  "tfp_get_length_from_message message = map_option h_length (read_header message)"

definition tfp_get_fid_from_message :: "u8 list \<Rightarrow> u8 option" where
  "tfp_get_fid_from_message message = map_option h_fid (read_header message)"

definition tfp_get_uid_from_message :: "u8 list \<Rightarrow> u32 option" where
  "tfp_get_uid_from_message message = map_option h_uid (read_header message)"

definition tfp_make_default_header :: "u32 \<Rightarrow> u8 \<Rightarrow> u8 \<Rightarrow> tfp_message_header" where
  "tfp_make_default_header uid len fid =
     \<lparr> h_uid = uid, h_length = len, h_fid = fid, h_other_options = 0, h_authentication = 0,
       h_return_expected = 1, h_sequence_num = 0, h_future_use = 0, h_error = 0 \<rparr>"

lemma bit_small_words:
  "bit (a :: 1 word) i \<Longrightarrow> i < 1" "bit (b :: 2 word) i \<Longrightarrow> i < 2"
  "bit (c :: 4 word) i \<Longrightarrow> i < 4" "bit (d :: 6 word) i \<Longrightarrow> i < 6"
  by (auto dest!: bit_imp_le_length)

lemma out_small_words:
  "1 \<le> i \<Longrightarrow> \<not> bit (a :: 1 word) i" "2 \<le> i \<Longrightarrow> \<not> bit (b :: 2 word) i"
  "4 \<le> i \<Longrightarrow> \<not> bit (c :: 4 word) i" "6 \<le> i \<Longrightarrow> \<not> bit (d :: 6 word) i"
  using bit_small_words by (meson not_less)+

lemma read_header_bytes: "read_header (header_bytes h @ data) = Some h"
proof -
  let ?flags = "ucast (h_other_options h) OR push_bit 2 (ucast (h_authentication h)) OR
     push_bit 3 (ucast (h_return_expected h)) OR push_bit 4 (ucast (h_sequence_num h)) :: u8"
  have "ucast ?flags = h_other_options h" "ucast (drop_bit 2 ?flags) = h_authentication h"
    "ucast (drop_bit 3 ?flags) = h_return_expected h" "ucast (drop_bit 4 ?flags) = h_sequence_num h"
    by (rule bit_word_eqI, simp add: bit_simps out_small_words)+
  moreover have "ucast (ucast (h_future_use h) OR push_bit 6 (ucast (h_error h)) :: u8) = h_future_use h"
    "ucast (drop_bit 6 (ucast (h_future_use h) OR push_bit 6 (ucast (h_error h)) :: u8)) = h_error h"
    by (rule bit_word_eqI, simp add: bit_simps out_small_words)+
  ultimately show ?thesis
    using un_le32_le32[of "h_uid h"]
    by (simp add: read_header_def header_bytes_def nth_append)
qed

section \<open>Base58 UIDs\<close>

definition TFP_BASE58_STR :: string where
  "TFP_BASE58_STR = ''123456789abcdefghijkmnopqrstuvwxyzABCDEFGHJKLMNPQRSTUVWXYZ''"

text \<open>
  The digits are produced from the least significant one into \<open>reverse_str\<close> and copied in
  reverse into the eight byte result, which is padded with NUL characters. The eight byte buffer
  bounds the number of digits: a write beyond it is \<open>None\<close>.
\<close>

definition TFP_BASE58_STR_SIZE :: nat where
  "TFP_BASE58_STR_SIZE = 8"

function base58_digits_loop :: "u32 \<Rightarrow> nat \<Rightarrow> string \<Rightarrow> (nat \<times> u32 \<times> string) option" where
  "base58_digits_loop value i reverse_str =
     (if value \<ge> 58
      then do {
        d \<leftarrow> arr_get TFP_BASE58_STR (unat (value mod 58));
        reverse_str' \<leftarrow> arr_set reverse_str i d;
        base58_digits_loop (value div 58) (i + 1) reverse_str'
      }
      else Some (i, value, reverse_str))"
  by pat_completeness auto

termination
proof (relation "measure (\<lambda>(v, i, r). unat v)", goal_cases)
  case (2 v i r d r')
  then have "58 \<le> unat v" by (simp add: word_le_nat_alt)
  then show ?case by (simp add: unat_div)
qed simp

declare base58_digits_loop.simps [simp del]

definition tfp_uid_uint32_to_base58 :: "u32 \<Rightarrow> string option" where
  "tfp_uid_uint32_to_base58 value = do {
     (i, value', reverse_str) \<leftarrow> base58_digits_loop value 0 (replicate TFP_BASE58_STR_SIZE (CHR 0x00));
     d \<leftarrow> arr_get TFP_BASE58_STR (unat value');
     reverse_str' \<leftarrow> arr_set reverse_str i d;
     Some (rev (take (i + 1) reverse_str') @ replicate (TFP_BASE58_STR_SIZE - (i + 1)) (CHR 0x00))
   }"

subsection \<open>Round trip\<close>

function digits58 :: "nat \<Rightarrow> nat list" where
  "digits58 n = (if n < 58 then [n] else n mod 58 # digits58 (n div 58))"
  by pat_completeness auto

termination by (relation "measure id") simp_all

declare digits58.simps [simp del]

text \<open>The number a base58 string stands for, up to its first NUL.\<close>

fun index_of :: "char \<Rightarrow> string \<Rightarrow> nat" where
  "index_of c [] = 0"
| "index_of c (x # xs) = (if c = x then 0 else Suc (index_of c xs))"

definition base58_decode :: "string \<Rightarrow> nat" where
  "base58_decode s =
     foldl (\<lambda>n c. 58 * n + index_of c TFP_BASE58_STR) 0 (takeWhile (\<lambda>c. c \<noteq> CHR 0x00) s)"

lemma length_TFP_BASE58_STR [simp]: "length TFP_BASE58_STR = 58"
  by (simp add: TFP_BASE58_STR_def)

lemma distinct_TFP_BASE58_STR: "distinct TFP_BASE58_STR"
  by (simp add: TFP_BASE58_STR_def)

lemma TFP_BASE58_STR_nonzero: "CHR 0x00 \<notin> set TFP_BASE58_STR"
  by (simp add: TFP_BASE58_STR_def)

lemma index_of_nth: "distinct xs \<Longrightarrow> i < length xs \<Longrightarrow> index_of (xs ! i) xs = i"
  by (induction xs arbitrary: i) (auto simp: nth_Cons split: nat.split)

lemma digits58_less: "d \<in> set (digits58 n) \<Longrightarrow> d < 58"
  by (induction n rule: digits58.induct) (subst (asm) (2) digits58.simps, auto split: if_splits)

lemma digits58_value: "foldr (\<lambda>d n. 58 * n + d) (digits58 n) 0 = n"
  by (induction n rule: digits58.induct) (subst digits58.simps, auto)

lemma digits58_length: "n < 58 ^ Suc k \<Longrightarrow> length (digits58 n) \<le> Suc k"
proof (induction k arbitrary: n)
  case (Suc k)
  then have "n div 58 < 58 ^ Suc k"
    by (simp add: less_mult_imp_div_less mult.commute)
  with Suc.IH show ?case
    by (subst digits58.simps) auto
qed (simp add: digits58.simps)

lemma digits58_length_pos: "0 < length (digits58 n)"
  by (subst digits58.simps) auto

lemma base58_loop_digits:
  assumes "i + length (digits58 (unat v)) \<le> length rs"
  shows "\<exists>v' rs'. base58_digits_loop v i rs = Some (i + length (digits58 (unat v)) - 1, v', rs') \<and>
    unat v' < 58 \<and> length rs' = length rs \<and> take i rs' = take i rs \<and> 
    take (length (digits58 (unat v)))
      (drop i (rs'[i + length (digits58 (unat v)) - 1 := TFP_BASE58_STR ! unat v']))
    = map (\<lambda>d. TFP_BASE58_STR ! d) (digits58 (unat v))"
  using assms
proof (induction v i rs rule: base58_digits_loop.induct)
  case (1 v i rs)
  show ?case
  proof (cases "v \<ge> 58")
    case False
    then have d: "digits58 (unat v) = [unat v]"
      by (subst digits58.simps) (simp add: word_le_nat_alt)
    then show ?thesis
      using False 1 by (subst base58_digits_loop.simps)
        (simp add: word_le_nat_alt Cons_nth_drop_Suc[symmetric] drop_update_swap)
  next
    case True
    then have ge: "\<not> unat v < 58" by (simp add: word_le_nat_alt)
    let ?ds = "digits58 (unat v div 58)" and ?c = "TFP_BASE58_STR ! (unat v mod 58)"
    have d: "digits58 (unat v) = unat v mod 58 # ?ds"
      using ge by (subst digits58.simps) simp
    have div: "unat (v div 58) = unat v div 58" "unat (v mod 58) = unat v mod 58"
      by (simp_all add: unat_div unat_mod)
    have i: "i < length rs" using 1 d by simp
    have get: "arr_get TFP_BASE58_STR (unat (v mod 58)) = Some ?c"
      by (simp add: div arr_simps)
    have set: "arr_set rs i ?c = Some (rs[i := ?c])" using i by (simp add: arr_simps)
    obtain v' rs' where IH: "base58_digits_loop (v div 58) (i + 1) (rs[i := ?c])
        = Some (i + length ?ds, v', rs')" "unat v' < 58" "length rs' = length rs"
      "take (i + 1) rs' = take (i + 1) (rs[i := ?c])"
      "take (length ?ds) (drop (i + 1) (rs'[i + length ?ds := TFP_BASE58_STR ! unat v']))
       = map (\<lambda>d. TFP_BASE58_STR ! d) ?ds"
      using 1(1)[OF True get set] 1(2) d digits58_length_pos[of "unat v div 58"] by (auto simp: div)
    have "rs' ! i = ?c" "take i rs' = take i rs"
      using i arg_cong[OF IH(4), of "\<lambda>l. l ! i"] arg_cong[OF IH(4), of "take i"] IH(3) by simp_all
    moreover have "drop i (rs'[i + length ?ds := x]) = ?c # drop (i + 1) (rs'[i + length ?ds := x])" for x
      using i IH(3) \<open>rs' ! i = ?c\<close> digits58_length_pos[of "unat v div 58"]
      by (simp add: Cons_nth_drop_Suc[symmetric])
    moreover have "base58_digits_loop v i rs = Some (i + length ?ds, v', rs')"
      using True get set IH(1) by (subst base58_digits_loop.simps) simp
    ultimately show ?thesis
      using IH(2,3,5) by (auto simp: d)
  qed
qed

lemma tfp_uid_digits:
  "tfp_uid_uint32_to_base58 v = Some (map (\<lambda>d. TFP_BASE58_STR ! d) (rev (digits58 (unat v)))
     @ replicate (8 - length (digits58 (unat v))) (CHR 0x00))"
proof -
  have "length (digits58 (unat v)) \<le> Suc 5"
    by (rule digits58_length) (rule less_trans[OF unat_u32], simp)
  then have len: "0 < length (digits58 (unat v))" "length (digits58 (unat v)) \<le> 6"
    using digits58_length_pos by auto
  obtain v' rs' where loop:
    "base58_digits_loop v 0 (replicate 8 (CHR 0x00)) = Some (length (digits58 (unat v)) - 1, v', rs')"
    "unat v' < 58" "length rs' = 8"
    "take (length (digits58 (unat v))) (rs'[length (digits58 (unat v)) - 1 := TFP_BASE58_STR ! unat v'])
     = map (\<lambda>d. TFP_BASE58_STR ! d) (digits58 (unat v))"
    using base58_loop_digits[of 0 v "replicate 8 (CHR 0x00)"] len by auto
  moreover have "7 - (length (digits58 (unat v)) - Suc 0) = 8 - length (digits58 (unat v))"
    using len by linarith
  ultimately show ?thesis
    using len by (simp add: tfp_uid_uint32_to_base58_def TFP_BASE58_STR_SIZE_def arr_simps rev_map
        del: length_greater_0_conv)
qed

lemma base58_decode_digits:
  assumes "\<forall>d\<in>set ds. d < 58"
  shows "base58_decode (map (\<lambda>d. TFP_BASE58_STR ! d) (rev ds) @ replicate k (CHR 0x00))
    = foldr (\<lambda>d n. 58 * n + d) ds 0"
proof -
  have "\<forall>c\<in>set (map (\<lambda>d. TFP_BASE58_STR ! d) (rev ds)). c \<noteq> CHR 0x00"
    using assms TFP_BASE58_STR_nonzero by (auto simp: in_set_conv_nth)
  then have "takeWhile (\<lambda>c. c \<noteq> CHR 0x00) (map (\<lambda>d. TFP_BASE58_STR ! d) (rev ds) @ replicate k (CHR 0x00))
      = map (\<lambda>d. TFP_BASE58_STR ! d) (rev ds)"
    by (cases k) (auto simp: takeWhile_append takeWhile_eq_all_conv)
  moreover have "foldr (\<lambda>d n. 58 * n + index_of (TFP_BASE58_STR ! d) TFP_BASE58_STR) ds 0
      = foldr (\<lambda>d n. 58 * n + d) ds 0"
    using assms by (induction ds) (simp_all add: index_of_nth distinct_TFP_BASE58_STR)
  ultimately show ?thesis
    by (simp add: base58_decode_def foldl_map foldl_conv_foldr rev_map foldr_map comp_def)
qed

text \<open>Every 32 bit UID has a base58 text that fits the eight byte buffer with a terminating
  NUL, and the text read back in base 58 is the UID; so distinct UIDs have distinct texts.\<close>

theorem tfp_uid_base58_roundtrip:
  "\<exists>s. tfp_uid_uint32_to_base58 uid = Some s \<and> length s = 8 \<and> last s = CHR 0x00 \<and>
     base58_decode s = unat uid"
proof -
  have "length (digits58 (unat uid)) \<le> Suc 5"
    by (rule digits58_length) (rule less_trans[OF unat_u32], simp)
  then show ?thesis
    using base58_decode_digits[of "digits58 (unat uid)"] digits58_less
    by (auto simp: tfp_uid_digits digits58_value)
qed

text \<open>A default header occupies the first eight bytes of a message, and the accessors read
  back the UID, length and function id it was made with; a callback header expects a response
  flag of one, whatever data follows it.\<close>

theorem tfp_default_header_roundtrip:
  "tfp_get_uid_from_message (header_bytes (tfp_make_default_header uid len fid) @ data) = Some uid \<and>
   tfp_get_length_from_message (header_bytes (tfp_make_default_header uid len fid) @ data) = Some len \<and>
   tfp_get_fid_from_message (header_bytes (tfp_make_default_header uid len fid) @ data) = Some fid \<and>
   tfp_is_return_expected (header_bytes (tfp_make_default_header uid len fid) @ data) = Some True"
  by (simp add: tfp_get_uid_from_message_def tfp_get_length_from_message_def
      tfp_get_fid_from_message_def tfp_is_return_expected_def read_header_bytes
      tfp_make_default_header_def)

end
