(* ===== verification/System_Timer.thy ===== *)
theory System_Timer
  imports Numeric
begin

text \<open>
  The system timer of \<^verbatim>\<open>hal/system_timer/system_timer.c\<close>. The tick counter is
  advanced by an interrupt while the code runs, so every read of it is a value of its own: the
  functions take the values read (a stream indexed by the number of the read).
\<close>

section \<open>Elapsed time\<close>

definition SysTick_Handler :: "u32 \<Rightarrow> u32" where
  "SysTick_Handler system_timer_tick = system_timer_tick + 1"

definition system_timer_get_ms :: "u32 \<Rightarrow> u32" where
  "system_timer_get_ms system_timer_tick = system_timer_tick"

definition system_timer_is_time_elapsed_ms :: "u32 \<Rightarrow> u32 \<Rightarrow> u32 \<Rightarrow> bool" where
  "system_timer_is_time_elapsed_ms tick start_measurement time_to_be_elapsed \<longleftrightarrow>
     system_timer_get_ms tick - start_measurement \<ge> time_to_be_elapsed"

definition system_timer_is_time_elapsed_us :: "u64 \<Rightarrow> u64 \<Rightarrow> u64 \<Rightarrow> bool" where
  "system_timer_is_time_elapsed_us us start_measurement time_to_be_elapsed \<longleftrightarrow>
     us - start_measurement \<ge> time_to_be_elapsed"

text \<open>
  The waiting loops may run forever on a stopped clock; the result is the number of the read that
  ended them.
\<close>

partial_function (option) sleep_ms_loop :: "(nat \<Rightarrow> u32) \<Rightarrow> u32 \<Rightarrow> u32 \<Rightarrow> nat \<Rightarrow> nat option" where
  "sleep_ms_loop clock time sleep n =
     (if system_timer_is_time_elapsed_ms (clock n) time sleep then Some n
      else sleep_ms_loop clock time sleep (n + 1))"

definition system_timer_sleep_ms :: "(nat \<Rightarrow> u32) \<Rightarrow> u32 \<Rightarrow> nat option" where
  "system_timer_sleep_ms clock sleep =
     (let time = system_timer_get_ms (clock 0) in sleep_ms_loop clock time sleep 1)"

partial_function (option) sleep_us_loop :: "(nat \<Rightarrow> u64) \<Rightarrow> u64 \<Rightarrow> u64 \<Rightarrow> nat \<Rightarrow> nat option" where
  "sleep_us_loop clock time sleep n =
     (if system_timer_is_time_elapsed_us (clock n) time sleep then Some n
      else sleep_us_loop clock time sleep (n + 1))"

definition system_timer_sleep_us :: "(nat \<Rightarrow> u64) \<Rightarrow> u64 \<Rightarrow> nat option" where
  "system_timer_sleep_us clock sleep = (let time = clock 0 in sleep_us_loop clock time sleep 1)"

section \<open>Microseconds\<close>

text \<open>
  The hardware counter VAL counts down from 47999 at 48 MHz. The division by 48 is replaced by a
  multiplication and a shift; the counters are read again when the millisecond changed between.
\<close>

definition us_of_val_48 :: "u32 \<Rightarrow> u32" where
  "us_of_val_48 val = 999 - drop_bit 20 (val * 21845)"

definition us_of_val :: "u32 \<Rightarrow> u32 \<Rightarrow> u32" where
  "us_of_val mhz val = 999 - val div mhz"

partial_function (option) system_timer_get_us ::
  "(u32 \<Rightarrow> u32) \<Rightarrow> (nat \<Rightarrow> u64) \<Rightarrow> (nat \<Rightarrow> u32) \<Rightarrow> nat \<Rightarrow> (u64 \<times> nat) option" where
  "system_timer_get_us us_of tick val n =
     (let ms1 = tick (2 * n); us = us_of (val n); ms2 = tick (2 * n + 1)
      in if ms1 \<noteq> ms2 then system_timer_get_us us_of tick val (n + 1)
         else Some (ms1 * 1000 + ucast us, n))"

section \<open>Properties\<close>

text \<open>The elapsed time test is right across the wrap-around of the millisecond counter: when
  d milliseconds have really passed since the start, for any d below 2^32, it answers whether d
  has reached the given time.\<close>

theorem is_time_elapsed_ms_wraps:
  assumes "d < 2 ^ 32"
  shows "system_timer_is_time_elapsed_ms ((SysTick_Handler ^^ d) start) start t \<longleftrightarrow> unat t \<le> d"
proof -
  have "(SysTick_Handler ^^ n) start = start + of_nat n" for n
    by (induction n) (simp_all add: SysTick_Handler_def)
  then show ?thesis
    using assms
    by (simp add: system_timer_is_time_elapsed_ms_def system_timer_get_ms_def word_le_nat_alt
        unat_of_nat take_bit_nat_eq_self)
qed

lemma is_time_elapsed_ms_wraps_witness:
  "system_timer_is_time_elapsed_ms ((SysTick_Handler ^^ 3) 0xFFFFFFFE) 0xFFFFFFFE 3"
  using is_time_elapsed_ms_wraps[of 3 "0xFFFFFFFE" 3] by simp

lemma sleep_ms_loop_ends:
  assumes "\<And>i. i < k \<Longrightarrow> \<not> system_timer_is_time_elapsed_ms (clock (n + i)) time sleep"
    "system_timer_is_time_elapsed_ms (clock (n + k)) time sleep"
  shows "sleep_ms_loop clock time sleep n = Some (n + k)"
  using assms
proof (induction k arbitrary: n)
  case 0
  then show ?case by (subst sleep_ms_loop.simps) simp
next
  case (Suc k)
  have "sleep_ms_loop clock time sleep (n + 1) = Some (n + 1 + k)"
  proof (rule Suc.IH)
    fix i assume "i < k"
    then show "\<not> system_timer_is_time_elapsed_ms (clock (n + 1 + i)) time sleep"
      using Suc.prems(1)[of "Suc i"] by simp
  qed (use Suc.prems(2) in simp)
  moreover have "\<not> system_timer_is_time_elapsed_ms (clock n) time sleep"
    using Suc.prems(1)[of 0] by simp
  ultimately show ?case by (subst sleep_ms_loop.simps) simp
qed

text \<open>Sleeping terminates on a running clock and never returns early: if the counter
  advances by at most one between two reads and does not stop, the loop ends at the first read at
  which exactly the requested number of milliseconds has passed, wrap-around included.\<close>

theorem system_timer_sleep_ms_ends:
  assumes start: "g 0 = 0" and slow: "\<And>n. g (Suc n) = g n \<or> g (Suc n) = Suc (g n)"
    and runs: "\<And>m. \<exists>n. m \<le> g n" and clock: "\<And>n. clock n = c0 + of_nat (g n)"
    and sleep: "0 < sleep"
  shows "\<exists>n. system_timer_sleep_ms clock sleep = Some n \<and> g n = unat sleep \<and>
    (\<forall>i < n. g i < unat sleep)"
proof -
  define n where "n = (LEAST n. unat sleep \<le> g n)"
  have ge: "unat sleep \<le> g n"
    unfolding n_def using runs by (rule LeastI_ex)
  have lt: "g i < unat sleep" if "i < n" for i
    using not_less_Least[of i "\<lambda>n. unat sleep \<le> g n"] that unfolding n_def by simp
  have pos: "0 < unat sleep" using sleep by (simp add: word_less_nat_alt)
  then have "n \<noteq> 0" using ge start by (cases n) auto
  then obtain m where m: "n = Suc m" by (cases n) auto
  have eq: "g n = unat sleep"
    using slow[of m] lt[of m] ge unfolding m by auto
  have elapsed: "system_timer_is_time_elapsed_ms (clock i) (clock 0) sleep \<longleftrightarrow> unat sleep \<le> g i"
    if "i \<le> n" for i
  proof -
    have "g i < 2 ^ 32"
      using that lt[of i] eq unat_u32[of sleep] by (cases "i = n") (auto intro: less_trans)
    then show ?thesis
      by (simp add: system_timer_is_time_elapsed_ms_def system_timer_get_ms_def clock start
          word_le_nat_alt unat_of_nat take_bit_nat_eq_self)
  qed
  have "sleep_ms_loop clock (clock 0) sleep 1 = Some (1 + m)"
  proof (rule sleep_ms_loop_ends)
    fix i assume "i < m"
    then show "\<not> system_timer_is_time_elapsed_ms (clock (1 + i)) (clock 0) sleep"
      using elapsed[of "1 + i"] lt[of "1 + i"] m by simp
  qed (use elapsed[of n] ge m in simp)
  then show ?thesis
    using eq lt m by (intro exI[of _ n]) (simp add: system_timer_sleep_ms_def system_timer_get_ms_def)
qed

lemma system_timer_sleep_ms_ends_witness:
  "\<exists>n. system_timer_sleep_ms (\<lambda>n. 0xFFFFFFFF + of_nat n) 2 = Some n \<and> n = 2"
  using system_timer_sleep_ms_ends[of id "\<lambda>n. 0xFFFFFFFF + of_nat n" "0xFFFFFFFF" 2] by auto

text \<open>The shift that stands for the division by 48 yields (VAL - 1) / 48 for every value the
  counter can have, so the microsecond is one more than 999 - VAL / 48 at the multiples of 48.\<close>

theorem us_of_val_48_exact:
  assumes "val < 48000"
  shows "us_of_val_48 val = 999 - (if val = 0 then 0 else (val - 1) div 48)"
proof -
  have v: "unat val < 48000" using assms by (simp add: word_less_nat_alt)
  have "unat (val * 21845) = unat val * 21845"
    using v by (simp add: unat_word_ariths)
  then have "unat (drop_bit 20 (val * 21845)) = unat val * 21845 div 2 ^ 20"
    by (simp only: unat_drop_bit)
  also have "\<dots> = (unat val - 1) div 48"
  proof -
    show ?thesis
    proof (cases "unat val = 0")
      case False
      define q r where "q = (unat val - 1) div 48" and "r = (unat val - 1) mod 48"
      have val: "unat val = 48 * q + r + 1"
        using False mult_div_mod_eq[of 48 "unat val - 1"] unfolding q_def r_def by linarith
      have "r < 48" "q \<le> 999" using v by (simp_all add: q_def r_def)
      then have "1048576 * q \<le> unat val * 21845" "unat val * 21845 < 1048576 * Suc q"
        unfolding val by (simp_all add: algebra_simps)
      then show ?thesis
        unfolding q_def[symmetric] by (intro div_nat_eqI) simp_all
    qed simp
  qed
  finally have "drop_bit 20 (val * 21845) = (if val = 0 then 0 else (val - 1) div 48)"
    by (auto simp: word_unat_eq_iff unat_div unat_minus_one)
  then show ?thesis
    by (simp only: us_of_val_48_def)
qed

lemma us_of_val_48_exact_witness: "us_of_val_48 48 = 999 \<and> us_of_val 48 48 = 998"
  using us_of_val_48_exact[of 48] by (simp add: us_of_val_def)

end
