(* ===== verification/Callback_Value.thy ===== *)
theory Callback_Value
  imports System_Timer Tfp
begin

text \<open>
  The configurable value callbacks of \<^verbatim>\<open>utility/callback_value.h\<close>, in the variant with
  channels. The file is a template over the integer type of the value: the type's bounds and size
  are a record of their own and values are integers. The transport (SPITFP) is outside: whether it
  can send is an argument of the handler and the message handed to it is part of the result, as
  are the readings of the system timer.
\<close>

section \<open>Data\<close>

record value_type =
  CALLBACK_VALUE_MIN :: int
  CALLBACK_VALUE_MAX :: int
  CALLBACK_VALUE_SIZE :: u8

record callback_value =
  get_callback_value :: "u8 \<Rightarrow> int"
  value_last :: int
  period :: u32
  last_time :: u32
  value_has_to_change :: bool
  threshold_min :: int
  threshold_max :: int
  threshold_option :: char
  threshold_min_user :: int
  threshold_max_user :: int
  threshold_option_user :: char

record callback_configuration =
  cfg_channel :: u8
  cfg_period :: u32
  cfg_value_has_to_change :: bool
  cfg_option :: char
  cfg_min :: int
  cfg_max :: int

record callback_message =
  cb_header :: tfp_message_header
  cb_channel :: u8
  cb_value :: int

datatype handle_message_response =
  HANDLE_MESSAGE_RESPONSE_NEW_MESSAGE
| HANDLE_MESSAGE_RESPONSE_EMPTY
| HANDLE_MESSAGE_RESPONSE_NOT_SUPPORTED
| HANDLE_MESSAGE_RESPONSE_INVALID_PARAMETER
| HANDLE_MESSAGE_RESPONSE_NONE

section \<open>Operations\<close>

definition callback_value_init1 :: "value_type \<Rightarrow> (u8 \<Rightarrow> int) \<Rightarrow> callback_value" where
  "callback_value_init1 T getter =
     \<lparr> get_callback_value = getter, value_last = CALLBACK_VALUE_MAX T, period = 0, last_time = 0,
       value_has_to_change = False, threshold_min = 0, threshold_max = 0,
       threshold_option = CHR ''x'', threshold_min_user = 0, threshold_max_user = 0,
       threshold_option_user = CHR ''x'' \<rparr>"

definition callback_value_init :: "value_type \<Rightarrow> nat \<Rightarrow> (u8 \<Rightarrow> int) \<Rightarrow> callback_value list" where
  "callback_value_init T CALLBACK_VALUE_CHANNEL_NUM getter =
     map (\<lambda>channel. callback_value_init1 T getter) [0..<CALLBACK_VALUE_CHANNEL_NUM]"

definition get_callback_value_msg ::
  "value_type \<Rightarrow> callback_value list \<Rightarrow> u8 \<Rightarrow> handle_message_response \<times> (u8 \<times> int) option" where
  "get_callback_value_msg T cvs channel =
     (if unat channel \<ge> length cvs then (HANDLE_MESSAGE_RESPONSE_INVALID_PARAMETER, None)
      else (HANDLE_MESSAGE_RESPONSE_NEW_MESSAGE,
            Some (8 + CALLBACK_VALUE_SIZE T, get_callback_value (cvs ! unat channel) channel)))"

definition set_callback_value_callback_configuration ::
  "value_type \<Rightarrow> u32 \<Rightarrow> callback_configuration \<Rightarrow> callback_value list \<Rightarrow>
   handle_message_response \<times> callback_value list" where
  "set_callback_value_callback_configuration T tick data cvs =
     (if unat (cfg_channel data) \<ge> length cvs then (HANDLE_MESSAGE_RESPONSE_INVALID_PARAMETER, cvs)
      else
        let cv = cvs ! unat (cfg_channel data);
            finish = (\<lambda>cv1.
              (HANDLE_MESSAGE_RESPONSE_EMPTY,
               cvs[unat (cfg_channel data) := cv1 \<lparr> threshold_option_user := cfg_option data,
                 threshold_min_user := cfg_min data, threshold_max_user := cfg_max data,
                 period := cfg_period data, value_has_to_change := cfg_value_has_to_change data,
                 last_time := system_timer_get_ms tick - cfg_period data \<rparr>]))
        in if cfg_option data = CHR ''o'' \<or> cfg_option data = CHR ''i'' \<or> cfg_option data = CHR ''x''
           then finish (cv \<lparr> threshold_option := cfg_option data,
                 threshold_min := cfg_min data, threshold_max := cfg_max data \<rparr>)
           else if cfg_option data = CHR ''<''
           then finish (cv \<lparr> threshold_option := CHR ''o'',
                 threshold_min := cfg_min data, threshold_max := CALLBACK_VALUE_MAX T \<rparr>)
           else if cfg_option data = CHR ''>''
           then finish (cv \<lparr> threshold_option := CHR ''o'',
                 threshold_min := CALLBACK_VALUE_MIN T, threshold_max := cfg_min data \<rparr>)
           else (HANDLE_MESSAGE_RESPONSE_INVALID_PARAMETER, cvs))"

definition get_callback_value_callback_configuration ::
  "value_type \<Rightarrow> u8 \<Rightarrow> callback_value list \<Rightarrow>
   handle_message_response \<times> (u8 \<times> callback_configuration) option" where
  "get_callback_value_callback_configuration T channel cvs =
     (if unat channel \<ge> length cvs then (HANDLE_MESSAGE_RESPONSE_INVALID_PARAMETER, None)
      else let cv = cvs ! unat channel in
        (HANDLE_MESSAGE_RESPONSE_NEW_MESSAGE,
         Some (14 + 2 * CALLBACK_VALUE_SIZE T,
           \<lparr> cfg_channel = channel, cfg_period = period cv,
             cfg_value_has_to_change = value_has_to_change cv,
             cfg_option = threshold_option_user cv, cfg_min = threshold_min_user cv,
             cfg_max = threshold_max_user cv \<rparr>)))"

text \<open>
  The handler's static variables (the pending message of every channel) and the readings of its
  environment. The tick is read once for the test and once when the callback fires.
\<close>

record handler_state =
  hs_values :: "callback_value list"
  hs_is_buffered :: "bool list"
  hs_cb :: "callback_message list"

record handler_env =
  env_tick1 :: u32
  env_tick2 :: u32
  env_uid :: u32
  env_send_possible :: bool

text \<open>The four tests that keep a callback from firing.\<close>

definition callback_not_due :: "callback_value \<Rightarrow> u32 \<Rightarrow> int \<Rightarrow> bool" where
  "callback_not_due cv tick value_current \<longleftrightarrow>
     period cv = 0 \<or> \<not> system_timer_is_time_elapsed_ms tick (last_time cv) (period cv) \<or>
     value_has_to_change cv \<and> value_current = value_last cv \<or>
     threshold_option cv = CHR ''o'' \<and>
       (value_current \<ge> threshold_min cv \<and> value_current \<le> threshold_max cv) \<or>
     threshold_option cv = CHR ''i'' \<and>
       (value_current < threshold_min cv \<or> value_current > threshold_max cv)"

definition handle_callback_value_callback ::
  "value_type \<Rightarrow> handler_env \<Rightarrow> u8 \<Rightarrow> u8 \<Rightarrow> handler_state \<Rightarrow>
   (bool \<times> callback_message option \<times> handler_state) option" where
  "handle_callback_value_callback T env channel fid st = do {
     let ch = unat channel;
     is_buffered \<leftarrow> arr_get (hs_is_buffered st) ch;
     cb \<leftarrow> arr_get (hs_cb st) ch;
     let send = (\<lambda>cb st1. if env_send_possible env
       then Some (True, Some cb, st1 \<lparr> hs_is_buffered := (hs_is_buffered st1)[ch := False] \<rparr>)
       else Some (False, None, st1 \<lparr> hs_is_buffered := (hs_is_buffered st1)[ch := True] \<rparr>));
     if \<not> is_buffered then do {
       cv \<leftarrow> arr_get (hs_values st) ch;
       cv0 \<leftarrow> arr_get (hs_values st) 0;
       let value_current = get_callback_value cv0 channel;
       let cb1 = cb \<lparr> cb_header := tfp_make_default_header (env_uid env) (9 + CALLBACK_VALUE_SIZE T) fid \<rparr>;
       if callback_not_due cv (env_tick1 env) value_current
       then Some (False, None, st \<lparr> hs_cb := (hs_cb st)[ch := cb1] \<rparr>)
       else do {
         let cb2 = cb1 \<lparr> cb_channel := channel, cb_value := value_current \<rparr>;
         send cb2 (st \<lparr> hs_values := (hs_values st)[ch := cv \<lparr> last_time := system_timer_get_ms (env_tick2 env),
                                                        value_last := value_current \<rparr>],
                       hs_cb := (hs_cb st)[ch := cb2] \<rparr>)
       }
     }
     else send cb st
   }"

section \<open>What a configuration means to the user\<close>

definition user_condition :: "callback_configuration \<Rightarrow> int \<Rightarrow> bool" where
  "user_condition cfg v \<longleftrightarrow>
     (if cfg_option cfg = CHR ''o'' then v < cfg_min cfg \<or> cfg_max cfg < v
      else if cfg_option cfg = CHR ''i'' then cfg_min cfg \<le> v \<and> v \<le> cfg_max cfg
      else if cfg_option cfg = CHR ''<'' then v < cfg_min cfg
      else if cfg_option cfg = CHR ''>'' then cfg_min cfg < v
      else True)"

definition thr_option :: "callback_configuration \<Rightarrow> char" where
  "thr_option cfg = (if cfg_option cfg = CHR ''<'' \<or> cfg_option cfg = CHR ''>''
     then CHR ''o'' else cfg_option cfg)"

definition thr_min :: "value_type \<Rightarrow> callback_configuration \<Rightarrow> int" where
  "thr_min T cfg = (if cfg_option cfg = CHR ''>'' then CALLBACK_VALUE_MIN T else cfg_min cfg)"

definition thr_max :: "value_type \<Rightarrow> callback_configuration \<Rightarrow> int" where
  "thr_max T cfg = (if cfg_option cfg = CHR ''<'' then CALLBACK_VALUE_MAX T
     else if cfg_option cfg = CHR ''>'' then cfg_min cfg else cfg_max cfg)"

lemma set_configuration_accepted:
  assumes "set_callback_value_callback_configuration T tick cfg cvs = (HANDLE_MESSAGE_RESPONSE_EMPTY, cvs')"
  shows "unat (cfg_channel cfg) < length cvs"
    "cvs' = cvs[unat (cfg_channel cfg) := (cvs ! unat (cfg_channel cfg))
       \<lparr> threshold_option := thr_option cfg, threshold_min := thr_min T cfg,
         threshold_max := thr_max T cfg,
         threshold_option_user := cfg_option cfg, threshold_min_user := cfg_min cfg,
         threshold_max_user := cfg_max cfg, period := cfg_period cfg,
         value_has_to_change := cfg_value_has_to_change cfg, last_time := tick - cfg_period cfg \<rparr>]"
  using assms
  unfolding set_callback_value_callback_configuration_def Let_def system_timer_get_ms_def
  by (auto simp: thr_option_def thr_min_def thr_max_def split: if_splits)

lemma thresholds_user_condition:
  assumes "CALLBACK_VALUE_MIN T \<le> v" "v \<le> CALLBACK_VALUE_MAX T"
  shows "(thr_option cfg = CHR ''o'' \<and> thr_min T cfg \<le> v \<and> v \<le> thr_max T cfg \<or>
     thr_option cfg = CHR ''i'' \<and> (v < thr_min T cfg \<or> thr_max T cfg < v)) \<longleftrightarrow> \<not> user_condition cfg v"
  using assms by (auto simp: thr_option_def thr_min_def thr_max_def user_condition_def)

text \<open>A configuration that is accepted is reported back unchanged, and from then on (with
  d milliseconds passed, as long as d plus the period stays below 2^32) the callback of the channel
  is held back exactly when the period is zero, the value is the last one sent although it has
  to change, or the user's threshold condition does not hold for the value: in particular the
  first callback is due at once.\<close>

theorem configuration_takes_effect:
  assumes set: "set_callback_value_callback_configuration T tick cfg cvs = (HANDLE_MESSAGE_RESPONSE_EMPTY, cvs')"
    and v: "CALLBACK_VALUE_MIN T \<le> v" "v \<le> CALLBACK_VALUE_MAX T"
    and d: "d + unat (cfg_period cfg) < 2 ^ 32"
  shows "get_callback_value_callback_configuration T (cfg_channel cfg) cvs'
      = (HANDLE_MESSAGE_RESPONSE_NEW_MESSAGE, Some (14 + 2 * CALLBACK_VALUE_SIZE T, cfg)) \<and>
    (callback_not_due (cvs' ! unat (cfg_channel cfg)) (tick + of_nat d) v \<longleftrightarrow>
      cfg_period cfg = 0 \<or>
      cfg_value_has_to_change cfg \<and> v = value_last (cvs ! unat (cfg_channel cfg)) \<or>
      \<not> user_condition cfg v)"
proof -
  note accepted = set_configuration_accepted[OF set]
  have "unat (of_nat d + cfg_period cfg) = d + unat (cfg_period cfg)"
    using d by (simp add: unat_word_ariths unat_of_nat take_bit_nat_eq_self)
  then have "system_timer_is_time_elapsed_ms (tick + of_nat d) (tick - cfg_period cfg) (cfg_period cfg)"
    by (simp add: system_timer_is_time_elapsed_ms_def system_timer_get_ms_def word_le_nat_alt)
  with accepted thresholds_user_condition[OF v, of cfg] show ?thesis
    by (simp add: get_callback_value_callback_configuration_def callback_not_due_def)
qed

lemma configuration_takes_effect_witness:
  "let T = \<lparr> CALLBACK_VALUE_MIN = -128, CALLBACK_VALUE_MAX = 127, CALLBACK_VALUE_SIZE = 1 \<rparr>;
       cfg = \<lparr> cfg_channel = 1, cfg_period = 100, cfg_value_has_to_change = False,
              cfg_option = CHR ''<'', cfg_min = 5, cfg_max = 0 \<rparr>;
       cvs' = snd (set_callback_value_callback_configuration T 7 cfg (callback_value_init T 2 (\<lambda>_. 3)))
   in \<not> callback_not_due (cvs' ! 1) 7 3 \<and> callback_not_due (cvs' ! 1) 7 9"
proof -
  define T :: value_type where "T = \<lparr> CALLBACK_VALUE_MIN = -128, CALLBACK_VALUE_MAX = 127, CALLBACK_VALUE_SIZE = 1 \<rparr>"
  define cfg where "cfg = \<lparr> cfg_channel = 1, cfg_period = 100, cfg_value_has_to_change = False,
              cfg_option = CHR ''<'', cfg_min = 5, cfg_max = 0 \<rparr>"
  define r where "r = set_callback_value_callback_configuration T 7 cfg (callback_value_init T 2 (\<lambda>_. 3))"
  have "r = (HANDLE_MESSAGE_RESPONSE_EMPTY, snd r)"
    by (simp add: r_def cfg_def set_callback_value_callback_configuration_def callback_value_init_def Let_def)
  then have "\<not> callback_not_due (snd r ! 1) 7 3 \<and> callback_not_due (snd r ! 1) 7 9"
    using configuration_takes_effect[of T 7 cfg "callback_value_init T 2 (\<lambda>_. 3)" "snd r" 3 0]
      configuration_takes_effect[of T 7 cfg "callback_value_init T 2 (\<lambda>_. 3)" "snd r" 9 0]
    by (simp add: r_def T_def cfg_def user_condition_def)
  then show ?thesis
    by (simp add: r_def T_def cfg_def Let_def)
qed

section \<open>No callback is lost\<close>

text \<open>
  A run of the handler of one channel: the inputs are what its environment answers on every call.
  Beside the messages handed to the transport the run collects the callbacks that fired.
\<close>

definition callback_fires :: "handler_env \<Rightarrow> u8 \<Rightarrow> handler_state \<Rightarrow> bool" where
  "callback_fires env channel st \<longleftrightarrow> \<not> hs_is_buffered st ! unat channel \<and>
     \<not> callback_not_due (hs_values st ! unat channel) (env_tick1 env)
         (get_callback_value (hs_values st ! 0) channel)"

definition fired_message :: "value_type \<Rightarrow> handler_env \<Rightarrow> u8 \<Rightarrow> u8 \<Rightarrow> handler_state \<Rightarrow> callback_message" where
  "fired_message T env channel fid st =
     \<lparr> cb_header = tfp_make_default_header (env_uid env) (9 + CALLBACK_VALUE_SIZE T) fid,
       cb_channel = channel, cb_value = get_callback_value (hs_values st ! 0) channel \<rparr>"

fun handler_run ::
  "value_type \<Rightarrow> u8 \<Rightarrow> u8 \<Rightarrow> handler_env list \<Rightarrow> handler_state \<Rightarrow>
   (callback_message list \<times> callback_message list \<times> handler_state) option" where
  "handler_run T channel fid [] st = Some ([], [], st)"
| "handler_run T channel fid (env # envs) st = do {
     (_, sent, st1) \<leftarrow> handle_callback_value_callback T env channel fid st;
     (fired, all_sent, st2) \<leftarrow> handler_run T channel fid envs st1;
     Some ((if callback_fires env channel st then [fired_message T env channel fid st] else []) @ fired,
       (case sent of None \<Rightarrow> [] | Some m \<Rightarrow> [m]) @ all_sent, st2)
   }"

definition handler_wf :: "nat \<Rightarrow> handler_state \<Rightarrow> bool" where
  "handler_wf n st \<longleftrightarrow> length (hs_values st) = n \<and> length (hs_is_buffered st) = n \<and> length (hs_cb st) = n"

definition pending :: "u8 \<Rightarrow> handler_state \<Rightarrow> callback_message list" where
  "pending channel st = (if hs_is_buffered st ! unat channel then [hs_cb st ! unat channel] else [])"

lemma handle_callback_step:
  assumes "handler_wf n st" "unat channel < n"
  shows "\<exists>r sent st'. handle_callback_value_callback T env channel fid st = Some (r, sent, st') \<and>
    handler_wf n st' \<and> r = (sent \<noteq> None) \<and>
    pending channel st @ (if callback_fires env channel st then [fired_message T env channel fid st] else [])
    = (case sent of None \<Rightarrow> [] | Some m \<Rightarrow> [m]) @ pending channel st'"
proof -
  have 0: "0 < n" using assms(2) by linarith
  show ?thesis
    using assms 0
    by (auto simp: handle_callback_value_callback_def handler_wf_def arr_simps Let_def
        callback_fires_def fired_message_def pending_def)
qed

text \<open>However the transport and the clock behave, the messages a channel's handler sends are
  the callbacks that fired, each exactly once, unchanged and in order; only the last one may still
  be waiting in the channel's buffer.\<close>

theorem callbacks_sent_once:
  assumes "handler_wf n st" "unat channel < n" "\<not> hs_is_buffered st ! unat channel"
  shows "\<exists>fired sent st'. handler_run T channel fid envs st = Some (fired, sent, st') \<and>
    fired = sent @ pending channel st'"
proof -
  have "\<exists>fired sent st'. handler_run T channel fid envs st = Some (fired, sent, st') \<and>
      pending channel st @ fired = sent @ pending channel st'"
    using assms(1)
  proof (induction envs arbitrary: st)
    case (Cons env envs)
    obtain r s st1 where step: "handle_callback_value_callback T env channel fid st = Some (r, s, st1)"
      "handler_wf n st1"
      "pending channel st @ (if callback_fires env channel st then [fired_message T env channel fid st] else [])
       = (case s of None \<Rightarrow> [] | Some m \<Rightarrow> [m]) @ pending channel st1"
      using handle_callback_step[OF Cons.prems assms(2)] by blast
    obtain fired sent st2 where rest: "handler_run T channel fid envs st1 = Some (fired, sent, st2)"
      "pending channel st1 @ fired = sent @ pending channel st2"
      using Cons.IH[OF step(2)] by blast
    have "pending channel st @ (if callback_fires env channel st then [fired_message T env channel fid st] else []) @ fired
        = (case s of None \<Rightarrow> [] | Some m \<Rightarrow> [m]) @ sent @ pending channel st2"
      using step(3) rest(2) by (metis append.assoc)
    with step(1) rest(1) show ?case by simp
  qed simp
  with assms(3) show ?thesis by (simp add: pending_def)
qed

definition witness_state :: handler_state where
  "witness_state = \<lparr> hs_values = [callback_value_init1 \<lparr> CALLBACK_VALUE_MIN = 0, CALLBACK_VALUE_MAX = 255,
     CALLBACK_VALUE_SIZE = 1 \<rparr> (\<lambda>_. 3)], hs_is_buffered = [False],
     hs_cb = [\<lparr> cb_header = tfp_make_default_header 0 0 0, cb_channel = 0, cb_value = 0 \<rparr>] \<rparr>"

lemma callbacks_sent_once_witness:
  "\<forall>T fid envs. \<exists>fired sent st'. handler_run T 0 fid envs witness_state = Some (fired, sent, st') \<and>
     fired = sent @ pending 0 st'"
  by (intro allI, rule callbacks_sent_once[of 1]) (simp_all add: witness_state_def handler_wf_def)

end
