(* ===== verification/Ticks.thy ===== *)
theory Ticks
  imports System_Timer
begin

text \<open>
  Two small tick functions: the round-robin dispatcher of
  \<^verbatim>\<open>utility/communication_callback.c\<close> and the LED state machine of
  \<^verbatim>\<open>utility/led_flicker.c\<close>.
\<close>

section \<open>The communication callback dispatcher\<close>

text \<open>
  The handlers are values of a parameter type; calling one is the parameter \<open>call\<close>, which may
  change the state of the program and says whether a message was sent.
\<close>

text \<open>The inner loop moves the entries behind \<open>i\<close> down by one.\<close>

fun shift_down :: "'h list \<Rightarrow> nat \<Rightarrow> nat \<Rightarrow> 'h list" where
  "shift_down cbs i 0 = cbs"
| "shift_down cbs i (Suc n) = shift_down (cbs[i := cbs ! (i + 1)]) (i + 1) n"

fun communication_callback_loop ::
  "('h \<Rightarrow> 's \<Rightarrow> bool \<times> 's) \<Rightarrow> nat \<Rightarrow> 'h list \<Rightarrow> nat \<Rightarrow> 's \<Rightarrow> 'h list \<times> 's" where
  "communication_callback_loop call 0 cbs cb_index s = (cbs, s)"
| "communication_callback_loop call (Suc n) cbs cb_index s =
     (let (sent, s1) = call (cbs ! cb_index) s in
      if sent then
        let current = cbs ! cb_index;
            cbs1 = shift_down cbs cb_index (length cbs - 1 - cb_index)
        in communication_callback_loop call n (cbs1[length cbs - 1 := current]) cb_index s1
      else communication_callback_loop call n cbs (cb_index + 1) s1)"

definition communication_callback_tick ::
  "u32 \<Rightarrow> ('h \<Rightarrow> 's \<Rightarrow> bool \<times> 's) \<Rightarrow> u32 \<Rightarrow> u32 \<Rightarrow> 'h list \<Rightarrow> u32 \<Rightarrow> 's \<Rightarrow> ('h list \<times> u32 \<times> 's)" where
  "communication_callback_tick COMMUNICATION_CALLBACK_TICK_WAIT_MS call tick1 tick2 cbs last_tick s =
     (if \<not> system_timer_is_time_elapsed_ms tick1 last_tick COMMUNICATION_CALLBACK_TICK_WAIT_MS
      then (cbs, last_tick, s)
      else let (cbs1, s1) = communication_callback_loop call (length cbs) cbs 0 s
           in (cbs1, system_timer_get_ms tick2, s1))"

lemma length_shift_down [simp]: "length (shift_down cbs i n) = length cbs"
  by (induction n arbitrary: cbs i) auto

lemma shift_down_eq:
  "i + n < length cbs \<Longrightarrow>
   shift_down cbs i n = take i cbs @ take n (drop (i + 1) cbs) @ drop (i + n) cbs"
proof (induction n arbitrary: cbs i)
  case (Suc n)
  have "shift_down cbs i (Suc n) =
      take (i + 1) (cbs[i := cbs ! (i + 1)]) @ take n (drop (i + 2) cbs) @ drop (i + 1 + n) cbs"
    using Suc.IH[of "i + 1" "cbs[i := cbs ! (i + 1)]"] Suc.prems by simp
  also have "take (i + 1) (cbs[i := cbs ! (i + 1)]) = take i cbs @ [cbs ! (i + 1)]"
    using Suc.prems by (simp add: take_Suc_conv_app_nth)
  finally have "shift_down cbs i (Suc n) =
      take i cbs @ ([cbs ! (i + 1)] @ take n (drop (i + 2) cbs)) @ drop (i + 1 + n) cbs"
    by simp
  also have "[cbs ! (i + 1)] @ take n (drop (i + 2) cbs) = take (Suc n) (drop (i + 1) cbs)"
    using Suc.prems by (simp add: Cons_nth_drop_Suc[symmetric, of "Suc i"])
  finally show ?case by (simp add: add.commute)
qed simp

lemma shift_down_rotates:
  assumes "i < length cbs"
  shows "(shift_down cbs i (length cbs - 1 - i))[length cbs - 1 := cbs ! i]
    = take i cbs @ drop (i + 1) cbs @ [cbs ! i]"
proof -
  obtain us v vs where cbs: "cbs = us @ v # vs" "length us = i"
    using id_take_nth_drop[OF assms] assms by (metis length_take min.absorb4)
  have "shift_down cbs i (length cbs - 1 - i) = us @ vs @ drop (length vs) (v # vs)"
    using shift_down_eq[of i "length cbs - 1 - i" cbs] assms cbs by simp
  moreover have "length (drop (length vs) (v # vs)) = 1" by simp
  then obtain w where "drop (length vs) (v # vs) = [w]"
    by (metis One_nat_def length_0_conv length_Suc_conv)
  ultimately show ?thesis using cbs by (simp add: list_update_append)
qed

text \<open>What every handler answers when they are called one after the other.\<close>

fun call_all :: "('h \<Rightarrow> 's \<Rightarrow> bool \<times> 's) \<Rightarrow> 'h list \<Rightarrow> 's \<Rightarrow> ('h \<times> bool) list \<times> 's" where
  "call_all call [] s = ([], s)"
| "call_all call (h # hs) s =
     (let (sent, s1) = call h s; (r, s2) = call_all call hs s1 in ((h, sent) # r, s2))"

lemma communication_callback_loop_calls:
  "communication_callback_loop call (length pend) (kept @ pend @ moved) (length kept) s =
     (let (r, s') = call_all call pend s
      in (kept @ map fst (filter (\<lambda>x. \<not> snd x) r) @ moved @ map fst (filter snd r), s'))"
proof (induction pend arbitrary: kept moved s)
  case (Cons h pend)
  obtain sent s1 where call: "call h s = (sent, s1)" by fastforce
  show ?case
  proof (cases sent)
    case True
    have "(shift_down (kept @ h # pend @ moved) (length kept) (length pend + length moved))
        [length kept + (length pend + length moved) := h] = kept @ pend @ moved @ [h]"
      using shift_down_rotates[of "length kept" "kept @ h # pend @ moved"] by simp
    then show ?thesis
      using Cons.IH[of kept "moved @ [h]" s1] call True
      by (simp add: Let_def split: prod.split)
  next
    case False
    then show ?thesis
      using Cons.IH[of "kept @ [h]" moved s1] call by (simp add: Let_def split: prod.split)
  qed
qed simp

text \<open>A tick of the dispatcher that is due calls every handler exactly once, in the order of
  the table, and leaves the table a permutation of itself in which the handlers that sent nothing
  come first, both groups in their old order: a busy handler cannot starve the others.\<close>

theorem communication_callback_tick_fair:
  assumes "system_timer_is_time_elapsed_ms tick1 last_tick wait"
  shows "communication_callback_tick wait call tick1 tick2 cbs last_tick s =
    (let (r, s') = call_all call cbs s
     in (map fst (filter (\<lambda>x. \<not> snd x) r) @ map fst (filter snd r), tick2, s'))"
  using assms communication_callback_loop_calls[of call cbs "[]" "[]" s]
  by (simp add: communication_callback_tick_def system_timer_get_ms_def Let_def split: prod.splits)

lemma communication_callback_tick_fair_witness:
  "communication_callback_tick 1 (\<lambda>h s. (h = (1 :: nat), s @ [h])) 5 5 [1, 2, 3] 4 [] = ([2, 3, 1], 5, [1, 2, 3])"
  by (subst communication_callback_tick_fair)
    (simp_all add: system_timer_is_time_elapsed_ms_def system_timer_get_ms_def)

section \<open>The LED\<close>

record led_flicker_state =
  lf_start :: u32
  lf_counter :: u8
  lf_config :: u8

text \<open>
  The pin is the output latch that XMC\_GPIO\_GetInput reads back: high is \<open>True\<close>.
\<close>

definition led_flicker_tick :: "u32 \<Rightarrow> led_flicker_state \<Rightarrow> bool \<Rightarrow> led_flicker_state \<times> bool" where
  "led_flicker_tick current_time st pin =
     (if lf_config st = 3 then
        if pin then
          if current_time - lf_start st \<ge> 35
          then (st \<lparr> lf_start := current_time, lf_counter := 0 \<rparr>, False)
          else (st, pin)
        else if lf_counter st > 40 \<and> current_time - lf_start st \<ge> 35
        then (st \<lparr> lf_start := current_time, lf_counter := 0 \<rparr>, True)
        else (st, pin)
      else if lf_config st = 2 then
        if lf_counter st > 2 then
          if current_time - lf_start st \<ge> 1000
          then (st \<lparr> lf_start := current_time, lf_counter := 0 \<rparr>, False)
          else (st, pin)
        else if lf_counter st = 0 \<or> lf_counter st = 2 then
          if current_time - lf_start st \<ge> 100
          then (st \<lparr> lf_start := current_time,
                     lf_counter := if lf_counter st = 0 then 1 else 3 \<rparr>, True)
          else (st, pin)
        else if current_time - lf_start st \<ge> 60
        then (st \<lparr> lf_start := current_time, lf_counter := 2 \<rparr>, False)
        else (st, pin)
      else (st, pin))"

definition led_flicker_increase_counter :: "led_flicker_state \<Rightarrow> led_flicker_state" where
  "led_flicker_increase_counter st =
     (if lf_config st = 3 then st \<lparr> lf_counter := lf_counter st + 1 \<rparr> else st)"

text \<open>The heartbeat: the phase the counter names and the level the pin has in it.\<close>

definition heartbeat_ok :: "led_flicker_state \<Rightarrow> bool \<Rightarrow> bool" where
  "heartbeat_ok st pin \<longleftrightarrow> lf_config st = 2 \<and> lf_counter st \<le> 3 \<and>
     pin = (lf_counter st = 1 \<or> lf_counter st = 3)"

definition heartbeat_hold :: "u8 \<Rightarrow> u32" where
  "heartbeat_hold c = (if c = 0 \<or> c = 2 then 100 else if c = 1 then 60 else 1000)"

text \<open>In heartbeat mode the LED shows the double beat: the counter walks through the phases
  0, 1, 2, 3 cyclically, the pin is high exactly in the phases 1 and 3, and a phase is left only
  when its hold time has passed since it was entered.\<close>

theorem led_heartbeat_cycle:
  assumes "heartbeat_ok st pin" "led_flicker_tick now st pin = (st', pin')"
  shows "heartbeat_ok st' pin' \<and>
    (if now - lf_start st \<ge> heartbeat_hold (lf_counter st)
     then lf_start st' = now \<and> lf_counter st' = (lf_counter st + 1) mod 4
     else st' = st \<and> pin' = pin)"
proof -
  have "unat (lf_counter st) \<le> 3"
    using assms(1) by (simp add: heartbeat_ok_def word_le_nat_alt)
  then have "unat (lf_counter st) \<in> {0, 1, 2, 3}" by auto
  then have "lf_counter st = 0 \<or> lf_counter st = 1 \<or> lf_counter st = 2 \<or> lf_counter st = 3"
    by (auto simp: word_unat_eq_iff)
  with assms show ?thesis
    by (auto simp: heartbeat_ok_def led_flicker_tick_def heartbeat_hold_def split: if_splits)
qed

lemma led_heartbeat_cycle_witness:
  "heartbeat_ok (fst (led_flicker_tick 200 \<lparr> lf_start = 50, lf_counter = 0, lf_config = 2 \<rparr> False)) True"
  using led_heartbeat_cycle[of "\<lparr> lf_start = 50, lf_counter = 0, lf_config = 2 \<rparr>" False 200]
  by (simp add: heartbeat_ok_def led_flicker_tick_def)

end
