(* ===== verification/Rs485.thy ===== *)
theory Rs485
  imports Ringbuffer Checksums System_Timer
begin

text \<open>
  The RS485 driver of \<^verbatim>\<open>warp/rs485.c\<close> and the data of
  \<^verbatim>\<open>warp/rs485.h\<close>. One byte array holds both rings: the receive ring from its start,
  the transmit ring from \<open>buffer_size_rx\<close> on; frame pointers are offsets into it, and an access
  outside is \<open>None\<close>. The UART is outside: the bytes a loop pulls from the receive FIFO are an
  argument, the bytes written to the transmit FIFO are collected in \<open>line_out\<close>, and how often
  the transmit FIFO is found with room is an argument.
\<close>

section \<open>Data\<close>

datatype rs485_mode = MODE_RS485 | MODE_MODBUS_MASTER_RTU | MODE_MODBUS_SLAVE_RTU
datatype rs485_parity = PARITY_NONE | PARITY_ODD | PARITY_EVEN
datatype rs485_stopbits = STOPBITS_1 | STOPBITS_2
datatype rs485_wordlength = WORDLENGTH_5 | WORDLENGTH_6 | WORDLENGTH_7 | WORDLENGTH_8
datatype rs485_duplex = DUPLEX_HALF | DUPLEX_FULL
datatype rs485_wire_state =
  MODBUS_RTU_WIRE_STATE_IDLE | MODBUS_RTU_WIRE_STATE_RX | MODBUS_RTU_WIRE_STATE_TX
datatype rs485_request_state =
  MODBUS_REQUEST_PROCESS_STATE_READY
| MODBUS_REQUEST_PROCESS_STATE_MASTER_WAITING_RESPONSE
| MODBUS_REQUEST_PROCESS_STATE_SLAVE_PROCESSING_REQUEST

record stream_chunking =
  in_progress :: bool
  chunk_total :: u32
  stream_total :: u32
  chunk_current :: u32
  stream_total_bool_array :: u32

definition zero_stream_chunking :: stream_chunking where
  "zero_stream_chunking = \<lparr> in_progress = False, chunk_total = 0, stream_total = 0,
     chunk_current = 0, stream_total_bool_array = 0 \<rparr>"

text \<open>
  The pointer stream\_chunking of the request always points to the one global
  \<^verbatim>\<open>modbus_stream_chunking\<close>; the record holds what it points to.
\<close>

record modbus_request =
  req_id :: u8
  cb_invoke :: bool
  req_length :: u16
  rx_frame :: nat
  tx_frame :: nat
  req_state :: rs485_request_state
  master_request_timed_out :: bool
  time_ref_master_request_timeout :: u32
  stream_chunking :: stream_chunking

record error_counters =
  ec_timeout :: u32
  ec_checksum :: u32
  ec_frame_too_big :: u32
  ec_illegal_function :: u32
  ec_illegal_data_value :: u32
  ec_illegal_data_address :: u32
  ec_slave_device_failure :: u32

definition zero_error_counters :: error_counters where
  "zero_error_counters = \<lparr> ec_timeout = 0, ec_checksum = 0, ec_frame_too_big = 0,
     ec_illegal_function = 0, ec_illegal_data_value = 0, ec_illegal_data_address = 0,
     ec_slave_device_failure = 0 \<rparr>"

record modbus_rtu_data =
  tx_done :: bool
  time_4_chars_ms :: u32
  rx_rb_last_length :: u16
  request :: modbus_request
  state_wire :: rs485_wire_state

record rs485 =
  mode :: rs485_mode
  baudrate :: u32
  parity :: rs485_parity
  duplex :: rs485_duplex
  stopbits :: rs485_stopbits
  buffer_size_rx :: u16
  ringbuffer_tx :: ringbuffer
  ringbuffer_rx :: ringbuffer
  read_callback_enabled :: bool
  frame_readable_cb_frame_size :: u16
  frame_readable_cb_already_sent :: bool
  wordlength :: rs485_wordlength
  error_count_parity :: u32
  error_count_overrun :: u32
  duplex_shift_setting :: u32
  error_count_callback_enabled :: bool
  rs_buffer :: "u8 list"
  modbus_rtu :: modbus_rtu_data
  modbus_slave_address :: u8
  modbus_master_request_timeout :: u32
  modbus_common_error_counters :: error_counters

text \<open>
  What the code writes to the UART: the transmit FIFO event, whether the transmit interrupt was
  requested, the bytes sent, the two direction pins and the baud rate of the channel.
\<close>

record uart =
  tx_event_enabled :: bool
  tx_irq_requested :: bool
  line_out :: "u8 list"
  pin_txe :: bool
  pin_nrxe :: bool
  line_baudrate :: u32

type_synonym rs = "rs485 \<times> uart"

definition upd_rtu :: "(modbus_rtu_data \<Rightarrow> modbus_rtu_data) \<Rightarrow> rs485 \<Rightarrow> rs485" where
  "upd_rtu f rs = rs \<lparr> modbus_rtu := f (modbus_rtu rs) \<rparr>"

definition upd_request :: "(modbus_request \<Rightarrow> modbus_request) \<Rightarrow> rs485 \<Rightarrow> rs485" where
  "upd_request f = upd_rtu (\<lambda>m. m \<lparr> request := f (request m) \<rparr>)"

definition upd_counters :: "(error_counters \<Rightarrow> error_counters) \<Rightarrow> rs485 \<Rightarrow> rs485" where
  "upd_counters f rs = rs \<lparr> modbus_common_error_counters := f (modbus_common_error_counters rs) \<rparr>"

abbreviation req :: "rs485 \<Rightarrow> modbus_request" where
  "req rs \<equiv> request (modbus_rtu rs)"

definition RS485_BUFFER_SIZE :: "rs485 \<Rightarrow> u16" where
  "RS485_BUFFER_SIZE rs = of_nat (length (rs_buffer rs))"

text \<open>memset and array slices of the byte array.\<close>

definition mem_fill :: "'a list \<Rightarrow> nat \<Rightarrow> nat \<Rightarrow> 'a \<Rightarrow> 'a list option" where
  "mem_fill mem off n v =
     (if off + n \<le> length mem then Some (take off mem @ replicate n v @ drop (off + n) mem) else None)"

definition mem_slice :: "'a list \<Rightarrow> nat \<Rightarrow> nat \<Rightarrow> 'a list option" where
  "mem_slice mem off n = (if off + n \<le> length mem then Some (take n (drop off mem)) else None)"

section \<open>Interrupt handlers\<close>

definition RS485_HALF_DUPLEX_RX_ENABLE :: "uart \<Rightarrow> uart" where
  "RS485_HALF_DUPLEX_RX_ENABLE u = u \<lparr> pin_txe := False, pin_nrxe := False \<rparr>"

text \<open>The shift setting 0x1 sets the pin, 0x10000 clears it, other values leave it alone.\<close>

definition RS485_HALF_DUPLEX_TX_ENABLE :: "rs485 \<Rightarrow> uart \<Rightarrow> uart" where
  "RS485_HALF_DUPLEX_TX_ENABLE rs u = u \<lparr> pin_txe := True,
     pin_nrxe := (if duplex_shift_setting rs = 0x1 then True
                  else if duplex_shift_setting rs = 0x10000 then False else pin_nrxe u) \<rparr>"

definition rs485_tff_irq_handler :: "bool \<Rightarrow> bool \<Rightarrow> uart \<Rightarrow> uart" where
  "rs485_tff_irq_handler frame_finished busy u =
     (if frame_finished \<and> \<not> busy then RS485_HALF_DUPLEX_RX_ENABLE u else u)"

text \<open>One byte pulled from the receive FIFO, added to the ring by hand.\<close>

definition rs485_rx_byte :: "rs485 \<Rightarrow> u8 \<Rightarrow> rs485 option" where
  "rs485_rx_byte rs b =
     (let new_end0 = rb_end (ringbuffer_rx rs) + 1;
          new_end = (if new_end0 \<ge> rb_size (ringbuffer_rx rs) then 0 else new_end0)
      in if new_end = rb_start (ringbuffer_rx rs)
         then Some (rs \<lparr> error_count_overrun := error_count_overrun rs + 1 \<rparr>)
         else do {
           buf \<leftarrow> arr_set (rs_buffer rs) (unat (rb_end (ringbuffer_rx rs))) b;
           Some (rs \<lparr> rs_buffer := buf, ringbuffer_rx := (ringbuffer_rx rs) \<lparr> rb_end := new_end \<rparr> \<rparr>)
         })"

fun rs485_rx_bytes :: "rs485 \<Rightarrow> u8 list \<Rightarrow> rs485 option" where
  "rs485_rx_bytes rs [] = Some rs"
| "rs485_rx_bytes rs (b # bs) = do { rs1 \<leftarrow> rs485_rx_byte rs b; rs485_rx_bytes rs1 bs }"

definition rs485_rx_irq_handler :: "u32 \<Rightarrow> u8 list \<Rightarrow> rs485 \<Rightarrow> rs485 option" where
  "rs485_rx_irq_handler tick fifo rs = do {
     rs1 \<leftarrow> rs485_rx_bytes rs fifo;
     Some (upd_rtu (\<lambda>m. m \<lparr> time_4_chars_ms := system_timer_get_ms tick \<rparr>) rs1)
   }"

definition rs485_rxa_irq_handler :: "u32 \<Rightarrow> u8 list \<Rightarrow> rs485 \<Rightarrow> rs485 option" where
  "rs485_rxa_irq_handler tick fifo rs =
     rs485_rx_irq_handler tick fifo (rs \<lparr> error_count_parity := error_count_parity rs + 1 \<rparr>)"

text \<open>\<open>room\<close> is the number of times the transmit FIFO is found not full.\<close>

fun rs485_tx_loop :: "nat \<Rightarrow> rs \<Rightarrow> rs option" where
  "rs485_tx_loop 0 (rs, u) = Some (rs, u)"
| "rs485_tx_loop (Suc room) (rs, u) = do {
     (rb, data) \<leftarrow> ringbuffer_get (rs_buffer rs) (ringbuffer_tx rs);
     case data of
       None \<Rightarrow> Some (upd_rtu (\<lambda>m. m \<lparr> tx_done := True \<rparr>) (rs \<lparr> ringbuffer_tx := rb \<rparr>),
                     u \<lparr> tx_event_enabled := False \<rparr>)
     | Some d \<Rightarrow> rs485_tx_loop room (rs \<lparr> ringbuffer_tx := rb \<rparr>, u \<lparr> line_out := line_out u @ [d] \<rparr>)
   }"

definition rs485_tx_irq_handler :: "nat \<Rightarrow> rs \<Rightarrow> rs option" where
  "rs485_tx_irq_handler room s = (case s of (rs, u) \<Rightarrow>
     rs485_tx_loop room (rs, RS485_HALF_DUPLEX_TX_ENABLE rs u))"

section \<open>Initialisation\<close>

definition rs485_init_buffer :: "rs485 \<Rightarrow> rs485 option" where
  "rs485_init_buffer rs = do {
     buf \<leftarrow> mem_fill (rs_buffer rs) 0 (length (rs_buffer rs)) 0;
     Some (rs \<lparr> rs_buffer := buf,
       ringbuffer_rx := ringbuffer_init (buffer_size_rx rs) 0,
       ringbuffer_tx := ringbuffer_init (RS485_BUFFER_SIZE rs - buffer_size_rx rs)
                          (unat (buffer_size_rx rs)) \<rparr>)
   }"

end
