(* ===== verification/Modbus.thy ===== *)
theory Modbus
  imports Rs485
begin

text \<open>
  Modbus RTU on top of the RS485 driver (\<^verbatim>\<open>warp/modbus.c\<close>), and the parts of
  \<^verbatim>\<open>warp/rs485.c\<close> that call it. The build uses the millisecond timer
  (\<^verbatim>\<open>MODBUS_USE_MS_RESOLUTION_FOR_TIMER\<close>).
\<close>

section \<open>Initialisation and requests\<close>

definition MODBUS_WAIT_AFTER_READ_MS :: u32 where
  "MODBUS_WAIT_AFTER_READ_MS = 5"

definition RS485_MODBUS_RTU_FRAME_SIZE_MAX :: u16 where
  "RS485_MODBUS_RTU_FRAME_SIZE_MAX = 256"

definition modbus_init :: "u32 \<Rightarrow> rs485 \<Rightarrow> rs485 option" where
  "modbus_init tick rs = do {
     let tx = unat (buffer_size_rx rs);
     buf1 \<leftarrow> mem_fill (rs_buffer rs) 0 tx 0;
     buf2 \<leftarrow> mem_fill buf1 tx (length (rs_buffer rs) - tx) 0;
     Some (rs \<lparr> rs_buffer := buf2, modbus_common_error_counters := zero_error_counters,
       modbus_rtu := \<lparr> tx_done = False, time_4_chars_ms = system_timer_get_ms tick,
         rx_rb_last_length = 0,
         request = \<lparr> req_id = 1, cb_invoke = False, req_length = 0, rx_frame = 0, tx_frame = tx,
           req_state = MODBUS_REQUEST_PROCESS_STATE_READY, master_request_timed_out = False,
           time_ref_master_request_timeout = time_ref_master_request_timeout (req rs),
           stream_chunking = zero_stream_chunking \<rparr>,
         state_wire = MODBUS_RTU_WIRE_STATE_IDLE \<rparr> \<rparr>)
   }"

definition modbus_clear_request :: "rs485 \<Rightarrow> rs485" where
  "modbus_clear_request rs =
     upd_rtu (\<lambda>m. m \<lparr> rx_rb_last_length := 0, state_wire := MODBUS_RTU_WIRE_STATE_IDLE,
         request := (request m) \<lparr> req_id := req_id (request m) + 1, req_length := 0,
           cb_invoke := False, master_request_timed_out := False,
           req_state := MODBUS_REQUEST_PROCESS_STATE_READY,
           stream_chunking := zero_stream_chunking \<rparr> \<rparr>)
       (rs \<lparr> ringbuffer_rx := ringbuffer_init (buffer_size_rx rs) 0,
             ringbuffer_tx := ringbuffer_init (RS485_BUFFER_SIZE rs - buffer_size_rx rs)
                                (unat (buffer_size_rx rs)) \<rparr>)"

definition modbus_init_new_request :: "rs485_request_state \<Rightarrow> u16 \<Rightarrow> rs485 \<Rightarrow> rs485" where
  "modbus_init_new_request state len rs =
     upd_request (\<lambda>r. r \<lparr> req_id := (if req_id r = 255 then 1 else req_id r + 1),
         req_state := state, req_length := len,
         cb_invoke := (if mode rs = MODE_MODBUS_MASTER_RTU then False else cb_invoke r) \<rparr>) rs"

definition modbus_start_tx_from_buffer :: "rs \<Rightarrow> rs" where
  "modbus_start_tx_from_buffer s = (case s of (rs, u) \<Rightarrow>
     (upd_rtu (\<lambda>m. m \<lparr> state_wire := MODBUS_RTU_WIRE_STATE_TX \<rparr>) rs,
      u \<lparr> tx_event_enabled := True, tx_irq_requested := True \<rparr>))"

section \<open>Checks of a received frame\<close>

definition modbus_slave_check_address :: "rs485 \<Rightarrow> bool option" where
  "modbus_slave_check_address rs = do {
     a \<leftarrow> arr_get (rs_buffer rs) (rx_frame (req rs));
     Some (a = modbus_slave_address rs \<or> a = 0)
   }"

definition modbus_check_frame_checksum :: "rs485 \<Rightarrow> bool option" where
  "modbus_check_frame_checksum rs =
     (let len = unat (rx_rb_last_length (modbus_rtu rs)) in
      if len < 2 then Some False
      else do {
        data \<leftarrow> mem_slice (rs_buffer rs) (rx_frame (req rs)) (len - 2);
        let checksum = crc16_modbus data;
        lo \<leftarrow> arr_get (rs_buffer rs) (rx_frame (req rs) + (len - 2));
        hi \<leftarrow> arr_get (rs_buffer rs) (rx_frame (req rs) + (len - 2) + 1);
        Some (ucast lo = checksum AND 0xFF \<and> ucast hi = drop_bit 8 checksum)
      })"

text \<open>The sum with 0x80 is an int in C: it does not wrap at 256.\<close>

definition modbus_master_check_slave_response :: "rs485 \<Rightarrow> bool option" where
  "modbus_master_check_slave_response rs = do {
     rx0 \<leftarrow> arr_get (rs_buffer rs) (rx_frame (req rs));
     tx0 \<leftarrow> arr_get (rs_buffer rs) (tx_frame (req rs));
     if rx0 \<noteq> tx0 then Some False
     else do {
       rx1 \<leftarrow> arr_get (rs_buffer rs) (rx_frame (req rs) + 1);
       tx1 \<leftarrow> arr_get (rs_buffer rs) (tx_frame (req rs) + 1);
       Some (rx1 = tx1 \<or> unat rx1 = unat tx1 + 0x80)
     }
   }"

definition modbus_slave_check_function_code_imlemented :: "rs485 \<Rightarrow> bool option" where
  "modbus_slave_check_function_code_imlemented rs = do {
     fc \<leftarrow> arr_get (rs_buffer rs) (rx_frame (req rs) + 1);
     Some (fc = 1 \<or> fc = 3 \<or> fc = 5 \<or> fc = 6 \<or> fc = 15 \<or> fc = 16 \<or> fc = 2 \<or> fc = 4)
   }"

section \<open>The wire state machine\<close>

text \<open>How every failed response is reported: as a timeout of the request.\<close>

definition request_failed :: "rs485 \<Rightarrow> rs485" where
  "request_failed rs =
     upd_request (\<lambda>r. r \<lparr> cb_invoke := True, master_request_timed_out := True \<rparr>)
       (upd_counters (\<lambda>c. c \<lparr> ec_timeout := ec_timeout c + 1 \<rparr>) rs)"

definition modbus_check_response :: "rs485 \<Rightarrow> rs485 option" where
  "modbus_check_response rs =
     (if in_progress (stream_chunking (req rs)) then Some rs
      else if ringbuffer_get_used (ringbuffer_rx rs) > RS485_MODBUS_RTU_FRAME_SIZE_MAX \<and>
              \<not> master_request_timed_out (req rs)
      then Some (request_failed
             (upd_counters (\<lambda>c. c \<lparr> ec_frame_too_big := ec_frame_too_big c + 1 \<rparr>) rs))
      else do {
        checksum_ok \<leftarrow> modbus_check_frame_checksum rs;
        if \<not> checksum_ok \<and> \<not> master_request_timed_out (req rs)
        then Some (request_failed (upd_counters (\<lambda>c. c \<lparr> ec_checksum := ec_checksum c + 1 \<rparr>) rs))
        else do {
          slave_ok \<leftarrow> modbus_master_check_slave_response rs;
          if \<not> slave_ok \<and> \<not> master_request_timed_out (req rs)
          then Some (request_failed rs)
          else Some (upd_request (\<lambda>r. r \<lparr> cb_invoke := True \<rparr>) rs)
        }
      })"

definition modbus_wire_idle :: "u32 \<Rightarrow> rs485 \<Rightarrow> rs485 option" where
  "modbus_wire_idle tick rs =
     (let waiting = (req_state (req rs) = MODBUS_REQUEST_PROCESS_STATE_MASTER_WAITING_RESPONSE);
          used = ringbuffer_get_used (ringbuffer_rx rs);
          last_length = rx_rb_last_length (modbus_rtu rs)
      in if mode rs \<noteq> MODE_MODBUS_MASTER_RTU then Some rs
         else if waiting \<and>
           system_timer_is_time_elapsed_ms tick (time_ref_master_request_timeout (req rs))
             (modbus_master_request_timeout rs) \<and>
           \<not> master_request_timed_out (req rs)
         then Some (request_failed rs)
         else if waiting \<and> used > 0 \<and> used > last_length
         then Some (upd_rtu (\<lambda>m. m \<lparr> state_wire := MODBUS_RTU_WIRE_STATE_RX,
                                     rx_rb_last_length := used \<rparr>) rs)
         else if waiting \<and> used > 0 \<and> used = last_length
         then modbus_check_response rs
         else Some rs)"

definition modbus_update_rtu_wire_state_machine :: "u32 \<Rightarrow> rs485 \<Rightarrow> rs485 option" where
  "modbus_update_rtu_wire_state_machine tick rs =
     (case state_wire (modbus_rtu rs) of
        MODBUS_RTU_WIRE_STATE_IDLE \<Rightarrow> modbus_wire_idle tick rs
      | MODBUS_RTU_WIRE_STATE_RX \<Rightarrow>
          if system_timer_is_time_elapsed_ms tick (time_4_chars_ms (modbus_rtu rs))
               MODBUS_WAIT_AFTER_READ_MS
          then Some (upd_rtu (\<lambda>m. m \<lparr> state_wire := MODBUS_RTU_WIRE_STATE_IDLE \<rparr>) rs)
          else Some rs
      | MODBUS_RTU_WIRE_STATE_TX \<Rightarrow>
          if tx_done (modbus_rtu rs) then do {
            let rs1 = upd_rtu (\<lambda>m. m \<lparr> tx_done := False, state_wire := MODBUS_RTU_WIRE_STATE_IDLE \<rparr>) rs;
            if mode rs1 = MODE_MODBUS_MASTER_RTU then do {
              tx0 \<leftarrow> arr_get (rs_buffer rs1) (tx_frame (req rs1));
              if tx0 = 0 then Some (upd_request (\<lambda>r. r \<lparr> cb_invoke := True \<rparr>) rs1) else Some rs1
            }
            else Some rs1
          }
          else Some rs)"

section \<open>Exceptions\<close>

fun ringbuffer_tx_add_all :: "u8 list \<Rightarrow> rs485 \<Rightarrow> rs485 option" where
  "ringbuffer_tx_add_all [] rs = Some rs"
| "ringbuffer_tx_add_all (b # bs) rs = do {
     (buf, rb, _) \<leftarrow> ringbuffer_add (rs_buffer rs) (ringbuffer_tx rs) b;
     ringbuffer_tx_add_all bs (rs \<lparr> rs_buffer := buf, ringbuffer_tx := rb \<rparr>)
   }"

definition modbus_report_exception :: "u8 \<Rightarrow> u8 \<Rightarrow> rs \<Rightarrow> rs option" where
  "modbus_report_exception function_code exception_code s = (case s of (rs, u) \<Rightarrow> do {
     let response = [modbus_slave_address rs, function_code + 0x80, exception_code];
     let checksum = crc16_modbus response;
     let rs1 = rs \<lparr> ringbuffer_tx := ringbuffer_init (RS485_BUFFER_SIZE rs - buffer_size_rx rs)
                                      (unat (buffer_size_rx rs)) \<rparr>;
     rs2 \<leftarrow> ringbuffer_tx_add_all (response @ le16 checksum) rs1;
     Some (modbus_start_tx_from_buffer (rs2, u))
   })"

section \<open>Driver entry points\<close>

definition MODBUS_DEFAULT_SLAVE_ADDRESS :: u8 where
  "MODBUS_DEFAULT_SLAVE_ADDRESS = 1"

definition MODBUS_DEFAULT_MASTER_REQUEST_TIMEOUT :: u32 where
  "MODBUS_DEFAULT_MASTER_REQUEST_TIMEOUT = 1000"

definition rs485_init :: "u32 \<Rightarrow> rs485 \<Rightarrow> rs485 option" where
  "rs485_init tick rs = do {
     let rs1 = rs \<lparr> mode := MODE_MODBUS_MASTER_RTU, baudrate := 9600, parity := PARITY_NONE,
       wordlength := WORDLENGTH_8, stopbits := STOPBITS_1, duplex := DUPLEX_HALF,
       duplex_shift_setting := 0x1, error_count_overrun := 0, error_count_parity := 0,
       read_callback_enabled := False, error_count_callback_enabled := False,
       frame_readable_cb_frame_size := 0,
       modbus_slave_address := MODBUS_DEFAULT_SLAVE_ADDRESS,
       modbus_master_request_timeout := MODBUS_DEFAULT_MASTER_REQUEST_TIMEOUT,
       buffer_size_rx := RS485_BUFFER_SIZE rs div 2 \<rparr>;
     rs2 \<leftarrow> rs485_init_buffer rs1;
     if mode rs2 = MODE_MODBUS_SLAVE_RTU \<or> mode rs2 = MODE_MODBUS_MASTER_RTU
     then modbus_init tick rs2
     else Some rs2
   }"

definition rs485_tick :: "u32 \<Rightarrow> u32 \<Rightarrow> u8 list \<Rightarrow> rs485 \<Rightarrow> rs485 option" where
  "rs485_tick tick1 tick2 fifo rs = do {
     rs1 \<leftarrow> rs485_rx_bytes rs fifo;
     let rs2 = (if fifo \<noteq> []
                then upd_rtu (\<lambda>m. m \<lparr> time_4_chars_ms := system_timer_get_ms tick1 \<rparr>) rs1
                else rs1);
     if mode rs2 = MODE_MODBUS_SLAVE_RTU \<or> mode rs2 = MODE_MODBUS_MASTER_RTU
     then modbus_update_rtu_wire_state_machine tick2 rs2
     else Some rs2
   }"

section \<open>The layout invariant\<close>

text \<open>
  Both rings and both frame pointers stay inside the shared array. In the Modbus modes nobody reads
  the receive ring, it is only reset: a received frame starts at the first byte of the array.
\<close>

definition rs485_wf :: "rs485 \<Rightarrow> bool" where
  "rs485_wf rs \<longleftrightarrow> length (rs_buffer rs) < 65536 \<and> 2 \<le> unat (buffer_size_rx rs) \<and>
     unat (buffer_size_rx rs) + 2 \<le> length (rs_buffer rs) \<and>
     rx_frame (req rs) = 0 \<and> tx_frame (req rs) = unat (buffer_size_rx rs) \<and>
     rb_buffer (ringbuffer_rx rs) = 0 \<and> rb_size (ringbuffer_rx rs) = buffer_size_rx rs \<and>
     rb_buffer (ringbuffer_tx rs) = unat (buffer_size_rx rs) \<and>
     rb_size (ringbuffer_tx rs) = RS485_BUFFER_SIZE rs - buffer_size_rx rs \<and>
     rb_wf (rs_buffer rs) (ringbuffer_rx rs) \<and> rb_wf (rs_buffer rs) (ringbuffer_tx rs) \<and>
     rb_start (ringbuffer_rx rs) = 0"

lemma rs485_wf_memory:
  assumes "rs485_wf rs"
  shows "length (rs_buffer rs) < 65536" "2 \<le> unat (buffer_size_rx rs)"
    "unat (buffer_size_rx rs) + 2 \<le> length (rs_buffer rs)"
    "rx_frame (req rs) = 0" "tx_frame (req rs) = unat (buffer_size_rx rs)"
    "rb_wf (rs_buffer rs) (ringbuffer_rx rs)" "rb_wf (rs_buffer rs) (ringbuffer_tx rs)"
    "rb_buffer (ringbuffer_rx rs) = 0" "rb_size (ringbuffer_rx rs) = buffer_size_rx rs"
    "rb_buffer (ringbuffer_tx rs) = unat (buffer_size_rx rs)"
    "rb_start (ringbuffer_rx rs) = 0"
  using assms by (auto simp: rs485_wf_def)

lemma unat_tx_size:
  assumes "length (rs_buffer rs) < 65536" "unat (buffer_size_rx rs) \<le> length (rs_buffer rs)"
  shows "unat (RS485_BUFFER_SIZE rs - buffer_size_rx rs) = length (rs_buffer rs) - unat (buffer_size_rx rs)"
proof -
  have "unat (of_nat (length (rs_buffer rs)) :: u16) = length (rs_buffer rs)"
    using assms(1) by (simp add: unat_of_nat take_bit_nat_eq_self)
  with assms(2) show ?thesis
    by (simp add: RS485_BUFFER_SIZE_def unat_sub_no_wrap)
qed

lemma rb_wf_length: "length mem' = length mem \<Longrightarrow> rb_wf mem' rb = rb_wf mem rb"
  by (simp add: rb_wf_def)

text \<open>Updates that leave the layout alone.\<close>

lemma rs485_wf_upd_rtu [simp]:
  "(\<And>m. rx_frame (request (f m)) = rx_frame (request m) \<and> tx_frame (request (f m)) = tx_frame (request m)) \<Longrightarrow>
   rs485_wf (upd_rtu f rs) = rs485_wf rs"
  by (simp add: rs485_wf_def upd_rtu_def RS485_BUFFER_SIZE_def)

lemma rs485_wf_upd_request [simp]:
  "(\<And>r. rx_frame (f r) = rx_frame r \<and> tx_frame (f r) = tx_frame r) \<Longrightarrow>
   rs485_wf (upd_request f rs) = rs485_wf rs"
  by (simp add: upd_request_def)

lemma rs485_wf_upd_counters [simp]: "rs485_wf (upd_counters f rs) = rs485_wf rs"
  by (simp add: rs485_wf_def upd_counters_def RS485_BUFFER_SIZE_def)

lemma rs485_wf_counts [simp]:
  "rs485_wf (rs \<lparr> error_count_overrun := a \<rparr>) = rs485_wf rs"
  "rs485_wf (rs \<lparr> error_count_parity := a \<rparr>) = rs485_wf rs"
  by (simp_all add: rs485_wf_def RS485_BUFFER_SIZE_def)

lemma rs485_wf_buffer:
  assumes "rs485_wf rs" "length mem' = length (rs_buffer rs)"
  shows "rs485_wf (rs \<lparr> rs_buffer := mem' \<rparr>)"
  using assms by (simp add: rs485_wf_def RS485_BUFFER_SIZE_def rb_wf_length[OF assms(2)])

lemma rs485_wf_rx_ring:
  assumes "rs485_wf rs" "rb_wf (rs_buffer rs) rb" "rb_size rb = buffer_size_rx rs" "rb_buffer rb = 0"
    "rb_start rb = 0"
  shows "rs485_wf (rs \<lparr> ringbuffer_rx := rb \<rparr>)"
  using assms by (simp add: rs485_wf_def RS485_BUFFER_SIZE_def)

lemma rs485_wf_tx_ring:
  assumes "rs485_wf rs" "rb_wf (rs_buffer rs) rb" "rb_size rb = rb_size (ringbuffer_tx rs)"
    "rb_buffer rb = rb_buffer (ringbuffer_tx rs)"
  shows "rs485_wf (rs \<lparr> ringbuffer_tx := rb \<rparr>)"
  using assms by (simp add: rs485_wf_def RS485_BUFFER_SIZE_def)

subsection \<open>Receiving\<close>

text \<open>
  The handwritten insertion of the receive loops: with room it is ringbuffer\_add, and a full ring
  counts an overrun and drops the byte.
\<close>

lemma rx_byte_room:
  assumes wf: "rs485_wf rs" and room: "rb_used (ringbuffer_rx rs) < rb_capacity (ringbuffer_rx rs)"
  shows "rs485_rx_byte rs b = map_option (\<lambda>(mem, rb, ok). rs \<lparr> rs_buffer := mem, ringbuffer_rx := rb \<rparr>)
    (ringbuffer_add (rs_buffer rs) (ringbuffer_rx rs) b)"
proof -
  note m = rs485_wf_memory[OF wf]
  have "rb_next (ringbuffer_rx rs) (rb_end (ringbuffer_rx rs)) \<noteq> rb_start (ringbuffer_rx rs)"
    using rb_full_iff[OF m(6)] room by simp
  moreover have "unat (rb_end (ringbuffer_rx rs)) < length (rs_buffer rs)"
    using rb_wf_unat[OF m(6)] by linarith
  ultimately show ?thesis
    using m(8) by (simp add: rs485_rx_byte_def ringbuffer_add_eq[OF m(6)] rb_next_def arr_simps Let_def)
qed

lemma rx_byte_full:
  assumes wf: "rs485_wf rs" and full: "rb_capacity (ringbuffer_rx rs) \<le> rb_used (ringbuffer_rx rs)"
  shows "rs485_rx_byte rs b = Some (rs \<lparr> error_count_overrun := error_count_overrun rs + 1 \<rparr>)"
proof -
  note m = rs485_wf_memory[OF wf]
  have "rb_used (ringbuffer_rx rs) = rb_capacity (ringbuffer_rx rs)"
    using rb_used_bound[OF m(6)] full by simp
  then have "rb_next (ringbuffer_rx rs) (rb_end (ringbuffer_rx rs)) = rb_start (ringbuffer_rx rs)"
    using rb_full_iff[OF m(6)] by simp
  then show ?thesis
    by (auto simp: rs485_rx_byte_def rb_next_def Let_def split: if_splits)
qed

definition rx_contents :: "rs485 \<Rightarrow> u8 list" where
  "rx_contents rs = rb_contents (rs_buffer rs) (ringbuffer_rx rs)"

definition tx_contents :: "rs485 \<Rightarrow> u8 list" where
  "tx_contents rs = rb_contents (rs_buffer rs) (ringbuffer_tx rs)"

lemma rx_byte_ok:
  assumes wf: "rs485_wf rs"
  shows "\<exists>rs'. rs485_rx_byte rs b = Some rs' \<and> rs485_wf rs' \<and>
    rb_start (ringbuffer_rx rs') = rb_start (ringbuffer_rx rs) \<and>
    buffer_size_rx rs' = buffer_size_rx rs \<and> modbus_rtu rs' = modbus_rtu rs \<and> mode rs' = mode rs \<and>
    (if length (rx_contents rs) < unat (buffer_size_rx rs) - 1
     then rx_contents rs' = rx_contents rs @ [b] \<and> error_count_overrun rs' = error_count_overrun rs
     else rx_contents rs' = rx_contents rs \<and> error_count_overrun rs' = error_count_overrun rs + 1)"
proof -
  note m = rs485_wf_memory[OF wf]
  have cap: "rb_capacity (ringbuffer_rx rs) = unat (buffer_size_rx rs) - 1"
    by (simp add: rb_capacity_def m(9))
  show ?thesis
  proof (cases "rb_used (ringbuffer_rx rs) < rb_capacity (ringbuffer_rx rs)")
    case True
    obtain mem' rb' where add: "ringbuffer_add (rs_buffer rs) (ringbuffer_rx rs) b = Some (mem', rb', True)"
      and c: "rb_contents mem' rb' = rb_contents (rs_buffer rs) (ringbuffer_rx rs) @ [b]"
      using ringbuffer_add_room[OF m(6) True, of b] by blast
    note w = rb_wf_add[OF m(6) add]
    have start: "rb_start rb' = rb_start (ringbuffer_rx rs)"
      using add by (auto simp: ringbuffer_add_eq[OF m(6)] Let_def split: if_splits)
    have "rs485_wf (rs \<lparr> rs_buffer := mem', ringbuffer_rx := rb' \<rparr>)"
      by (rule rs485_wf_rx_ring[OF rs485_wf_buffer[OF wf w(5)]]) (use w m start in simp_all)
    with add c start cap True show ?thesis
      by (simp add: rx_byte_room[OF wf True] rx_contents_def)
  next
    case False
    then show ?thesis
      using wf cap rx_byte_full[OF wf, of b] by (simp add: rx_contents_def)
  qed
qed

lemma rx_bytes_ok:
  assumes wf: "rs485_wf rs"
  shows "\<exists>rs'. rs485_rx_bytes rs bs = Some rs' \<and> rs485_wf rs' \<and>
    rb_start (ringbuffer_rx rs') = rb_start (ringbuffer_rx rs) \<and>
    buffer_size_rx rs' = buffer_size_rx rs \<and> modbus_rtu rs' = modbus_rtu rs \<and> mode rs' = mode rs \<and>
    rx_contents rs' = rx_contents rs @ take (unat (buffer_size_rx rs) - 1 - length (rx_contents rs)) bs \<and>
    error_count_overrun rs' = error_count_overrun rs +
      of_nat (length bs - (unat (buffer_size_rx rs) - 1 - length (rx_contents rs)))"
  using wf
proof (induction bs arbitrary: rs)
  case (Cons b bs)
  obtain rs1 where r1: "rs485_rx_byte rs b = Some rs1" "rs485_wf rs1"
    "rb_start (ringbuffer_rx rs1) = rb_start (ringbuffer_rx rs)"
    "buffer_size_rx rs1 = buffer_size_rx rs" "modbus_rtu rs1 = modbus_rtu rs" "mode rs1 = mode rs"
    "if length (rx_contents rs) < unat (buffer_size_rx rs) - 1
     then rx_contents rs1 = rx_contents rs @ [b] \<and> error_count_overrun rs1 = error_count_overrun rs
     else rx_contents rs1 = rx_contents rs \<and> error_count_overrun rs1 = error_count_overrun rs + 1"
    using rx_byte_ok[OF Cons.prems, of b] by blast
  let ?room = "unat (buffer_size_rx rs) - 1 - length (rx_contents rs)"
  obtain rs2 where r2: "rs485_rx_bytes rs1 bs = Some rs2" "rs485_wf rs2"
    "rb_start (ringbuffer_rx rs2) = rb_start (ringbuffer_rx rs1)"
    "buffer_size_rx rs2 = buffer_size_rx rs1" "modbus_rtu rs2 = modbus_rtu rs1" "mode rs2 = mode rs1"
    "rx_contents rs2 = rx_contents rs1 @ take (unat (buffer_size_rx rs1) - 1 - length (rx_contents rs1)) bs"
    "error_count_overrun rs2 = error_count_overrun rs1 +
      of_nat (length bs - (unat (buffer_size_rx rs1) - 1 - length (rx_contents rs1)))"
    using Cons.IH[OF r1(2)] by blast
  have "rx_contents rs2 = rx_contents rs @ take ?room (b # bs)"
  proof (cases "length (rx_contents rs) < unat (buffer_size_rx rs) - 1")
    case True
    then obtain k where k: "?room = Suc k" by (cases ?room) auto
    then have "unat (buffer_size_rx rs) - Suc (Suc (length (rx_contents rs))) = k" by simp
    with True r1 r2 k show ?thesis by simp
  qed (use r1 r2 in simp)
  moreover have "error_count_overrun rs2 = error_count_overrun rs + of_nat (length (b # bs) - ?room)"
  proof (cases "length (rx_contents rs) < unat (buffer_size_rx rs) - 1")
    case True
    then have "length bs - (?room - 1) = length (b # bs) - ?room" by simp
    with True r1 r2 show ?thesis by simp
  qed (use r1 r2 in simp)
  ultimately show ?case
    using r1 r2 by simp
qed simp

subsection \<open>Sending\<close>

lemma tx_add_ok:
  assumes wf: "rs485_wf rs"
    and room: "length (tx_contents rs) + length bs < length (rs_buffer rs) - unat (buffer_size_rx rs)"
  shows "\<exists>rs'. ringbuffer_tx_add_all bs rs = Some rs' \<and> rs485_wf rs' \<and>
    tx_contents rs' = tx_contents rs @ bs \<and> 
    (\<exists>mem rb. rs' = rs \<lparr> rs_buffer := mem, ringbuffer_tx := rb \<rparr> \<and> length mem = length (rs_buffer rs) \<and>
       rb_start rb = rb_start (ringbuffer_tx rs) \<and>
       take (unat (buffer_size_rx rs)) mem = take (unat (buffer_size_rx rs)) (rs_buffer rs))"
  using assms
proof (induction bs arbitrary: rs)
  case Nil
  then show ?case
    by (auto intro!: exI[of _ "rs_buffer rs"] exI[of _ "ringbuffer_tx rs"])
next
  case (Cons b bs)
  note m = rs485_wf_memory[OF Cons.prems(1)]
  have cap: "rb_capacity (ringbuffer_tx rs) = length (rs_buffer rs) - unat (buffer_size_rx rs) - 1"
    using Cons.prems(1) m(1-3) unat_tx_size[OF m(1)] by (simp add: rb_capacity_def rs485_wf_def)
  have room: "rb_used (ringbuffer_tx rs) < rb_capacity (ringbuffer_tx rs)"
    using Cons.prems(2) unfolding cap by (simp add: tx_contents_def)
  obtain mem rb where add: "ringbuffer_add (rs_buffer rs) (ringbuffer_tx rs) b = Some (mem, rb, True)"
    "rb_contents mem rb = rb_contents (rs_buffer rs) (ringbuffer_tx rs) @ [b]"
    using ringbuffer_add_room[OF m(7) room, of b] by blast
  note w = rb_wf_add[OF m(7) add(1)]
  let ?rs1 = "rs \<lparr> rs_buffer := mem, ringbuffer_tx := rb \<rparr>"
  have wf1: "rs485_wf ?rs1"
    by (rule rs485_wf_tx_ring[OF rs485_wf_buffer[OF Cons.prems(1) w(5)]]) (use w m in simp_all)
  have c1: "tx_contents ?rs1 = tx_contents rs @ [b]"
    using add(2) by (simp add: tx_contents_def)
  have start: "rb_start rb = rb_start (ringbuffer_tx rs)"
    and keep: "take (unat (buffer_size_rx rs)) mem = take (unat (buffer_size_rx rs)) (rs_buffer rs)"
    using add(1) m(10) by (auto simp: ringbuffer_add_eq[OF m(7)] Let_def split: if_splits)
  have "\<exists>rs'. ringbuffer_tx_add_all bs ?rs1 = Some rs' \<and> rs485_wf rs' \<and>
    tx_contents rs' = tx_contents ?rs1 @ bs \<and> 
    (\<exists>mem' rb'. rs' = ?rs1 \<lparr> rs_buffer := mem', ringbuffer_tx := rb' \<rparr> \<and>
       length mem' = length (rs_buffer ?rs1) \<and>
       rb_start rb' = rb_start (ringbuffer_tx ?rs1) \<and>
       take (unat (buffer_size_rx ?rs1)) mem' = take (unat (buffer_size_rx ?rs1)) (rs_buffer ?rs1))"
    by (rule Cons.IH[OF wf1]) (use Cons.prems(2) c1 w(5) in simp)
  with add(1) c1 start keep w(5) show ?case by auto
qed

lemma tx_loop_ok:
  assumes "rs485_wf rs"
  shows "\<exists>rs' u'. rs485_tx_loop room (rs, u) = Some (rs', u') \<and> rs485_wf rs' \<and>
    line_out u' = line_out u @ take room (tx_contents rs) \<and>
    tx_contents rs' = drop room (tx_contents rs) \<and>
    rs_buffer rs' = rs_buffer rs \<and>
    tx_done (modbus_rtu rs') = (tx_done (modbus_rtu rs) \<or> length (tx_contents rs) < room) \<and>
    tx_event_enabled u' = (tx_event_enabled u \<and> room \<le> length (tx_contents rs))"
  using assms
proof (induction room arbitrary: rs u)
  case (Suc room)
  note m = rs485_wf_memory[OF Suc.prems]
  show ?case
  proof (cases "tx_contents rs")
    case Nil
    have "rs485_wf (rs \<lparr> ringbuffer_tx := ringbuffer_tx rs \<rparr>)" using Suc.prems by simp
    then show ?thesis
      using Nil ringbuffer_get_empty[OF m(7)]
      by (simp add: tx_contents_def upd_rtu_def[of _ rs]) (simp add: upd_rtu_def rs485_wf_def RS485_BUFFER_SIZE_def)
  next
    case (Cons x xs)
    obtain rb where get: "ringbuffer_get (rs_buffer rs) (ringbuffer_tx rs) = Some (rb, Some x)"
      "rb_wf (rs_buffer rs) rb" "rb_contents (rs_buffer rs) rb = xs"
      using ringbuffer_get_Cons[OF m(7)] Cons unfolding tx_contents_def by blast
    have same: "rb_size rb = rb_size (ringbuffer_tx rs)" "rb_buffer rb = rb_buffer (ringbuffer_tx rs)"
      using get(1) by (auto simp: ringbuffer_get_eq[OF m(7)] split: if_splits)
    have wf1: "rs485_wf (rs \<lparr> ringbuffer_tx := rb \<rparr>)"
      by (rule rs485_wf_tx_ring[OF Suc.prems get(2) same])
    have c1: "tx_contents (rs \<lparr> ringbuffer_tx := rb \<rparr>) = xs"
      using get(3) by (simp add: tx_contents_def)
    show ?thesis
      using Suc.IH[OF wf1, of "u \<lparr> line_out := line_out u @ [x] \<rparr>"] Cons get(1) c1 by auto
  qed
qed simp

subsection \<open>Initialisation establishes it\<close>

lemma mem_fill_ok: "off + n \<le> length mem \<Longrightarrow> \<exists>mem'. mem_fill mem off n v = Some mem' \<and> length mem' = length mem"
  by (auto simp: mem_fill_def)

lemma rs485_init_ok:
  assumes "8 \<le> length (rs_buffer rs)" "length (rs_buffer rs) < 65536"
  shows "\<exists>rs'. rs485_init tick rs = Some rs' \<and> rs485_wf rs' \<and>
    state_wire (modbus_rtu rs') = MODBUS_RTU_WIRE_STATE_IDLE \<and>
    rx_contents rs' = [] \<and> tx_contents rs' = [] \<and> mode rs' = MODE_MODBUS_MASTER_RTU \<and>
    length (rs_buffer rs') = length (rs_buffer rs)"
proof -
  let ?n = "length (rs_buffer rs)"
  let ?half = "of_nat ?n div 2 :: u16"
  have n: "unat (of_nat ?n :: u16) = ?n"
    using assms(2) by (simp add: unat_of_nat take_bit_nat_eq_self)
  have half: "unat ?half = ?n div 2" by (simp add: unat_div n)
  have tx: "unat (of_nat ?n - ?half) = ?n - ?n div 2"
    using n half by (subst unat_sub_no_wrap) simp_all
  have pos: "0 < ?half" "0 < of_nat ?n - ?half"
    using half tx assms(1) by (simp_all add: word_less_nat_alt)
  have fits: "0 + unat ?half \<le> ?n" "unat ?half + unat (of_nat ?n - ?half) \<le> ?n"
    using half tx by simp_all
  note rx_ring = ringbuffer_init_spec[OF pos(1), of 0]
  note tx_ring = ringbuffer_init_spec[OF pos(2), of "unat ?half"]
  have l: "2 \<le> ?n div 2" "?n div 2 + 2 \<le> ?n" using assms(1) by linarith+
  show ?thesis
    using rx_ring tx_ring fits l half tx n assms
    by (simp add: rs485_init_def rs485_init_buffer_def modbus_init_def mem_fill_def
        RS485_BUFFER_SIZE_def rs485_wf_def ringbuffer_init_def rx_contents_def tx_contents_def Let_def)
qed

lemma modbus_clear_request_ok:
  assumes wf: "rs485_wf rs"
  shows "rs485_wf (modbus_clear_request rs)"
    "rx_contents (modbus_clear_request rs) = []" "tx_contents (modbus_clear_request rs) = []"
proof -
  note m = rs485_wf_memory[OF wf]
  have tx: "unat (RS485_BUFFER_SIZE rs - buffer_size_rx rs) = length (rs_buffer rs) - unat (buffer_size_rx rs)"
    using m by (intro unat_tx_size) simp_all
  have pos: "0 < buffer_size_rx rs" "0 < RS485_BUFFER_SIZE rs - buffer_size_rx rs"
    using m tx by (simp_all add: word_less_nat_alt)
  have fits: "0 + unat (buffer_size_rx rs) \<le> length (rs_buffer rs)"
    "unat (buffer_size_rx rs) + unat (RS485_BUFFER_SIZE rs - buffer_size_rx rs) \<le> length (rs_buffer rs)"
    using m tx by simp_all
  note rings = ringbuffer_init_spec[OF pos(1) fits(1)] ringbuffer_init_spec[OF pos(2) fits(2)]
  show "rs485_wf (modbus_clear_request rs)"
    "rx_contents (modbus_clear_request rs) = []" "tx_contents (modbus_clear_request rs) = []"
    using rings m
    by (simp_all add: modbus_clear_request_def rs485_wf_def upd_rtu_def RS485_BUFFER_SIZE_def
        ringbuffer_init_def rx_contents_def tx_contents_def)
qed

lemma modbus_init_new_request_wf [simp]:
  "rs485_wf (modbus_init_new_request st len rs) = rs485_wf rs"
  by (simp add: modbus_init_new_request_def)

lemma modbus_start_tx_wf [simp]:
  "rs485_wf (fst (modbus_start_tx_from_buffer s)) = rs485_wf (fst s)"
  by (simp add: modbus_start_tx_from_buffer_def split: prod.split)

subsection \<open>The checks never leave the array\<close>

lemma rx_used_bound:
  "rs485_wf rs \<Longrightarrow> unat (ringbuffer_get_used (ringbuffer_rx rs)) < unat (buffer_size_rx rs)"
  using rs485_wf_memory[of rs] rb_used_bound[of "rs_buffer rs" "ringbuffer_rx rs"]
  by (simp add: unat_get_used[of "rs_buffer rs"] rb_capacity_def)

lemma check_frame_checksum_ok:
  assumes "rs485_wf rs" "unat (rx_rb_last_length (modbus_rtu rs)) < unat (buffer_size_rx rs)"
  shows "modbus_check_frame_checksum rs =
    Some (2 \<le> unat (rx_rb_last_length (modbus_rtu rs)) \<and>
      crc16_modbus (take (unat (rx_rb_last_length (modbus_rtu rs))) (rs_buffer rs)) = 0)"
proof (cases "unat (rx_rb_last_length (modbus_rtu rs)) < 2")
  case True
  then show ?thesis by (simp add: modbus_check_frame_checksum_def Let_def)
next
  case False
  define k where "k = unat (rx_rb_last_length (modbus_rtu rs)) - 2"
  note m = rs485_wf_memory[OF assms(1)]
  have len: "unat (rx_rb_last_length (modbus_rtu rs)) = k + 2" using False by (simp add: k_def)
  have k: "Suc k < length (rs_buffer rs)" using m assms(2) len by linarith
  let ?lo = "rs_buffer rs ! k" and ?hi = "rs_buffer rs ! (k + 1)"
  have frame: "take (Suc (Suc k)) (rs_buffer rs) = take k (rs_buffer rs) @ [?lo, ?hi]"
    using k by (simp add: take_Suc_conv_app_nth)
  have "(ucast ?lo = c AND 0xFF \<and> ucast ?hi = drop_bit 8 c) \<longleftrightarrow> un_le16 ?lo ?hi = c" for c :: u16
  proof
    assume *: "ucast ?lo = c AND 0xFF \<and> ucast ?hi = drop_bit 8 c"
    show "un_le16 ?lo ?hi = c"
      unfolding un_le16_def conjunct1[OF *] conjunct2[OF *]
    proof (rule bit_word_eqI)
      fix n :: nat assume "n < LENGTH(16)"
      then show "bit ((c AND 0xFF) OR push_bit 8 (drop_bit 8 c)) n = bit c n"
        by (cases "n < 8") (simp_all add: byte_mask bit_simps)
    qed
  next
    assume "un_le16 ?lo ?hi = c"
    then have c: "c = un_le16 ?lo ?hi" by simp
    show "ucast ?lo = c AND 0xFF \<and> ucast ?hi = drop_bit 8 c"
      unfolding c un_le16_def
      by (intro conjI bit_word_eqI) (auto simp: byte_mask bit_simps u8_bit_out dest: bit_lt(1))
  qed
  then show ?thesis
    using False k m crc16_modbus_frame_check_rule[of "take k (rs_buffer rs)" ?lo ?hi]
    by (simp add: modbus_check_frame_checksum_def Let_def len mem_slice_def arr_simps frame)
qed

lemma check_slave_response_ok:
  assumes "rs485_wf rs"
  shows "modbus_master_check_slave_response rs =
    (let rx = rs_buffer rs; tx = drop (unat (buffer_size_rx rs)) (rs_buffer rs)
     in Some (rx ! 0 = tx ! 0 \<and> (rx ! 1 = tx ! 1 \<or> unat (rx ! 1) = unat (tx ! 1) + 0x80)))"
proof -
  note m = rs485_wf_memory[OF assms]
  have "0 < length (rs_buffer rs)" "1 < length (rs_buffer rs)"
    "unat (buffer_size_rx rs) < length (rs_buffer rs)"
    "unat (buffer_size_rx rs) + 1 < length (rs_buffer rs)"
    using m by linarith+
  then show ?thesis
    using m by (simp add: modbus_master_check_slave_response_def arr_get_def Let_def)
qed

lemma check_response_ok:
  assumes wf: "rs485_wf rs"
    and last: "ringbuffer_get_used (ringbuffer_rx rs) = rx_rb_last_length (modbus_rtu rs)"
  shows "\<exists>rs'. modbus_check_response rs = Some rs' \<and> rs485_wf rs'"
proof -
  have "unat (rx_rb_last_length (modbus_rtu rs)) < unat (buffer_size_rx rs)"
    using rx_used_bound[OF wf] last by simp
  then show ?thesis
    using wf by (auto simp: modbus_check_response_def check_frame_checksum_ok Let_def
        check_slave_response_ok[OF wf] request_failed_def)
qed

lemma modbus_update_ok:
  assumes wf: "rs485_wf rs"
  shows "\<exists>rs'. modbus_update_rtu_wire_state_machine tick rs = Some rs' \<and> rs485_wf rs'"
proof (cases "state_wire (modbus_rtu rs)")
  case MODBUS_RTU_WIRE_STATE_IDLE
  then show ?thesis
    using wf check_response_ok[OF wf]
    by (auto simp: modbus_update_rtu_wire_state_machine_def modbus_wire_idle_def Let_def
        request_failed_def)
next
  case MODBUS_RTU_WIRE_STATE_RX
  then show ?thesis
    using wf by (simp add: modbus_update_rtu_wire_state_machine_def)
next
  case MODBUS_RTU_WIRE_STATE_TX
  let ?rs1 = "upd_rtu (\<lambda>m. m \<lparr> tx_done := False, state_wire := MODBUS_RTU_WIRE_STATE_IDLE \<rparr>) rs"
  have wf1: "rs485_wf ?rs1" using wf by simp
  have "tx_frame (req ?rs1) < length (rs_buffer ?rs1)"
    using rs485_wf_memory[OF wf1] by linarith
  then show ?thesis
    using MODBUS_RTU_WIRE_STATE_TX wf wf1
    by (auto simp: modbus_update_rtu_wire_state_machine_def Let_def arr_simps)
qed

section \<open>Every sequence of events keeps the invariant\<close>

text \<open>
  What can happen to the driver: its interrupts and tick, and the calls of its clients (the
  transmit bytes of a request, the start of a transmission, a new request, the end of a request,
  an exception response). The firmware serialises them: the tick masks the receive interrupts.
\<close>

datatype rs485_event =
  Rx_Irq u32 "u8 list"
| Rxa_Irq u32 "u8 list"
| Tx_Irq nat
| Tick u32 u32 "u8 list"
| Store_Tx u8
| New_Request rs485_request_state u16
| Start_Tx
| Clear_Request
| Report_Exception u8 u8

fun rs485_event_step :: "rs485_event \<Rightarrow> rs \<Rightarrow> rs option" where
  "rs485_event_step (Rx_Irq tick fifo) (rs, u) =
     map_option (\<lambda>rs. (rs, u)) (rs485_rx_irq_handler tick fifo rs)"
| "rs485_event_step (Rxa_Irq tick fifo) (rs, u) =
     map_option (\<lambda>rs. (rs, u)) (rs485_rxa_irq_handler tick fifo rs)"
| "rs485_event_step (Tx_Irq room) (rs, u) = rs485_tx_irq_handler room (rs, u)"
| "rs485_event_step (Tick tick1 tick2 fifo) (rs, u) =
     map_option (\<lambda>rs. (rs, u)) (rs485_tick tick1 tick2 fifo rs)"
| "rs485_event_step (Store_Tx b) (rs, u) =
     map_option (\<lambda>rs. (rs, u)) (ringbuffer_tx_add_all [b] rs)"
| "rs485_event_step (New_Request st len) (rs, u) = Some (modbus_init_new_request st len rs, u)"
| "rs485_event_step Start_Tx (rs, u) = Some (modbus_start_tx_from_buffer (rs, u))"
| "rs485_event_step Clear_Request (rs, u) = Some (modbus_clear_request rs, u)"
| "rs485_event_step (Report_Exception fc ec) (rs, u) = modbus_report_exception fc ec (rs, u)"

fun rs485_run :: "rs485_event list \<Rightarrow> rs \<Rightarrow> rs option" where
  "rs485_run [] s = Some s"
| "rs485_run (e # es) s = do { s1 \<leftarrow> rs485_event_step e s; rs485_run es s1 }"

lemma tx_add_wf:
  assumes wf: "rs485_wf rs"
  shows "\<exists>rs'. ringbuffer_tx_add_all bs rs = Some rs' \<and> rs485_wf rs'"
  using wf
proof (induction bs arbitrary: rs)
  case (Cons b bs)
  note m = rs485_wf_memory[OF Cons.prems]
  obtain mem rb ok where add: "ringbuffer_add (rs_buffer rs) (ringbuffer_tx rs) b = Some (mem, rb, ok)"
    using ringbuffer_add_room[OF m(7), of b] ringbuffer_add_full[OF m(7), of b]
    by (meson not_le)
  note w = rb_wf_add[OF m(7) add]
  have "rs485_wf (rs \<lparr> rs_buffer := mem, ringbuffer_tx := rb \<rparr>)"
    by (rule rs485_wf_tx_ring[OF rs485_wf_buffer[OF Cons.prems w(5)]]) (use w m in simp_all)
  from Cons.IH[OF this] add show ?case by simp
qed simp

lemma tx_ring_reset_wf:
  assumes wf: "rs485_wf rs"
  shows "rs485_wf (rs \<lparr> ringbuffer_tx := ringbuffer_init (RS485_BUFFER_SIZE rs - buffer_size_rx rs)
      (unat (buffer_size_rx rs)) \<rparr>)"
    and "tx_contents (rs \<lparr> ringbuffer_tx := ringbuffer_init (RS485_BUFFER_SIZE rs - buffer_size_rx rs)
      (unat (buffer_size_rx rs)) \<rparr>) = []"
proof -
  note m = rs485_wf_memory[OF wf]
  have tx: "unat (RS485_BUFFER_SIZE rs - buffer_size_rx rs) = length (rs_buffer rs) - unat (buffer_size_rx rs)"
    using m by (intro unat_tx_size) simp_all
  have pos: "0 < RS485_BUFFER_SIZE rs - buffer_size_rx rs"
    using m tx by (simp add: word_less_nat_alt)
  have fits: "unat (buffer_size_rx rs) + unat (RS485_BUFFER_SIZE rs - buffer_size_rx rs) \<le> length (rs_buffer rs)"
    using m tx by simp
  note ring = ringbuffer_init_spec[OF pos fits]
  show "rs485_wf (rs \<lparr> ringbuffer_tx := ringbuffer_init (RS485_BUFFER_SIZE rs - buffer_size_rx rs)
      (unat (buffer_size_rx rs)) \<rparr>)"
    using wf ring(1) by (simp add: rs485_wf_def RS485_BUFFER_SIZE_def ringbuffer_init_def)
  show "tx_contents (rs \<lparr> ringbuffer_tx := ringbuffer_init (RS485_BUFFER_SIZE rs - buffer_size_rx rs)
      (unat (buffer_size_rx rs)) \<rparr>) = []"
    using ring(2) by (simp add: tx_contents_def)
qed

lemma rx_irq_wf:
  "rs485_wf rs \<Longrightarrow> \<exists>rs'. rs485_rx_irq_handler tick fifo rs = Some rs' \<and> rs485_wf rs'"
  using rx_bytes_ok[of rs fifo] by (auto simp: rs485_rx_irq_handler_def)

lemma rs485_tick_wf:
  assumes "rs485_wf rs"
  shows "\<exists>rs'. rs485_tick tick1 tick2 fifo rs = Some rs' \<and> rs485_wf rs'"
proof -
  obtain rs1 where r1: "rs485_rx_bytes rs fifo = Some rs1" "rs485_wf rs1"
    using rx_bytes_ok[OF assms, of fifo] by blast
  define rs2 where "rs2 = (if fifo \<noteq> []
    then upd_rtu (\<lambda>m. m \<lparr> time_4_chars_ms := system_timer_get_ms tick1 \<rparr>) rs1 else rs1)"
  have "rs485_wf rs2" using r1(2) by (simp add: rs2_def)
  then show ?thesis
    using r1(1) modbus_update_ok[of rs2 tick2]
    by (auto simp: rs485_tick_def Let_def rs2_def[symmetric])
qed

lemma rs485_event_ok:
  assumes "rs485_wf (fst s)"
  shows "\<exists>s'. rs485_event_step e s = Some s' \<and> rs485_wf (fst s')"
proof -
  obtain rs u where s: "s = (rs, u)" by fastforce
  with assms have wf: "rs485_wf rs" by simp
  show ?thesis
  proof (cases e)
    case (Rx_Irq tick fifo)
    then show ?thesis using s rx_irq_wf[OF wf, of tick fifo] by auto
  next
    case (Rxa_Irq tick fifo)
    have "rs485_wf (rs \<lparr> error_count_parity := error_count_parity rs + 1 \<rparr>)" using wf by simp
    from rx_irq_wf[OF this, of tick fifo] show ?thesis
      using Rxa_Irq s by (auto simp: rs485_rxa_irq_handler_def)
  next
    case (Tx_Irq room)
    then show ?thesis
      using s tx_loop_ok[OF wf, of room "RS485_HALF_DUPLEX_TX_ENABLE rs u"]
      by (auto simp: rs485_tx_irq_handler_def)
  next
    case (Tick tick1 tick2 fifo)
    then show ?thesis using s rs485_tick_wf[OF wf, of tick1 tick2 fifo] by auto
  next
    case (Store_Tx b)
    then show ?thesis using s tx_add_wf[OF wf, of "[b]"] by auto
  next
    case (Report_Exception fc ec)
    define chk where "chk = [modbus_slave_address rs, fc + 0x80, ec]
        @ le16 (crc16_modbus [modbus_slave_address rs, fc + 0x80, ec])"
    obtain rs2 where "ringbuffer_tx_add_all chk (rs \<lparr> ringbuffer_tx :=
        ringbuffer_init (RS485_BUFFER_SIZE rs - buffer_size_rx rs) (unat (buffer_size_rx rs)) \<rparr>) = Some rs2"
      "rs485_wf rs2"
      using tx_add_wf[OF tx_ring_reset_wf(1)[OF wf], of chk] by blast
    then show ?thesis
      using Report_Exception s modbus_start_tx_wf[of "(rs2, u)"]
      by (simp add: modbus_report_exception_def Let_def chk_def del: ringbuffer_tx_add_all.simps)
  next
    case Start_Tx
    then show ?thesis using s wf modbus_start_tx_wf[of s] by auto
  qed (use s wf modbus_clear_request_ok(1)[OF wf] in auto)
qed

text \<open>C3. After initialisation no sequence of interrupts, ticks and client calls makes the RS485
  driver access memory outside its byte array, and the layout invariant of the two rings and the
  frame pointers holds in every state it can reach.\<close>

theorem rs485_never_faults:
  assumes "8 \<le> length (rs_buffer rs)" "length (rs_buffer rs) < 65536"
  shows "\<exists>rs0 s'. rs485_init tick rs = Some rs0 \<and> rs485_run es (rs0, u) = Some s' \<and> rs485_wf (fst s')"
proof -
  have run: "\<exists>s'. rs485_run es s = Some s' \<and> rs485_wf (fst s')" if "rs485_wf (fst s)" for s
    using that
  proof (induction es arbitrary: s)
    case (Cons e es)
    then show ?case using rs485_event_ok[OF Cons.prems, of e] by fastforce
  qed simp
  obtain rs0 where "rs485_init tick rs = Some rs0" "rs485_wf rs0"
    using rs485_init_ok[OF assms] by blast
  with run[of "(rs0, u)"] show ?thesis by auto
qed

text \<open>A driver state before its initialisation, with a given byte array.\<close>

definition rs485_blank :: "u8 list \<Rightarrow> rs485" where
  "rs485_blank buf = \<lparr> mode = MODE_RS485, baudrate = 0, parity = PARITY_NONE, duplex = DUPLEX_HALF,
     stopbits = STOPBITS_1, buffer_size_rx = 0, ringbuffer_tx = ringbuffer_init 0 0,
     ringbuffer_rx = ringbuffer_init 0 0, read_callback_enabled = False,
     frame_readable_cb_frame_size = 0, frame_readable_cb_already_sent = False,
     wordlength = WORDLENGTH_8, error_count_parity = 0, error_count_overrun = 0,
     duplex_shift_setting = 0, error_count_callback_enabled = False, rs_buffer = buf,
     modbus_rtu = \<lparr> tx_done = False, time_4_chars_ms = 0, rx_rb_last_length = 0,
       request = \<lparr> req_id = 0, cb_invoke = False, req_length = 0, rx_frame = 0, tx_frame = 0,
         req_state = MODBUS_REQUEST_PROCESS_STATE_READY, master_request_timed_out = False,
         time_ref_master_request_timeout = 0, stream_chunking = zero_stream_chunking \<rparr>,
       state_wire = MODBUS_RTU_WIRE_STATE_IDLE \<rparr>,
     modbus_slave_address = 0, modbus_master_request_timeout = 0,
     modbus_common_error_counters = zero_error_counters \<rparr>"

lemma rs485_never_faults_witness:
  "\<forall>u. \<exists>rs0 s'. rs485_init 0 (rs485_blank (replicate 64 0)) = Some rs0 \<and>
     rs485_run [Rx_Irq 1 [1, 2, 3], Tick 2 2 [], Clear_Request] (rs0, u) = Some s' \<and> rs485_wf (fst s')"
  by (rule allI, rule rs485_never_faults) (simp_all add: rs485_blank_def)

section \<open>Responses\<close>

lemma rx_frame_contents:
  assumes "rs485_wf rs"
  shows "take (length (rx_contents rs)) (rs_buffer rs) = rx_contents rs"
proof -
  note m = rs485_wf_memory[OF assms]
  have used: "rb_used (ringbuffer_rx rs) < unat (buffer_size_rx rs)"
    using rx_used_bound[OF assms] by (simp add: unat_get_used[OF m(6)])
  show ?thesis
  proof (rule nth_equalityI)
    show "length (take (length (rx_contents rs)) (rs_buffer rs)) = length (rx_contents rs)"
      using used m by (simp add: rx_contents_def)
    fix i assume "i < length (take (length (rx_contents rs)) (rs_buffer rs))"
    then have "i < rb_used (ringbuffer_rx rs)" by (simp add: rx_contents_def)
    with used m show "take (length (rx_contents rs)) (rs_buffer rs) ! i = rx_contents rs ! i"
      by (simp add: rx_contents_def rb_contents_def rb_slot_def)
  qed
qed

lemma get_used_rx: "rs485_wf rs \<Longrightarrow> unat (ringbuffer_get_used (ringbuffer_rx rs)) = length (rx_contents rs)"
  using rs485_wf_memory(6)[of rs] by (simp add: unat_get_used rx_contents_def)

text \<open>A response the master may hand to its client, for the request at the transmit frame.\<close>

definition valid_response :: "u8 list \<Rightarrow> u8 list \<Rightarrow> bool" where
  "valid_response tx frame \<longleftrightarrow> 2 \<le> length frame \<and> length frame \<le> 256 \<and> crc16_modbus frame = 0 \<and>
     frame ! 0 = tx ! 0 \<and> (frame ! 1 = tx ! 1 \<or> unat (frame ! 1) = unat (tx ! 1) + 0x80)"

abbreviation tx_region :: "rs485 \<Rightarrow> u8 list" where
  "tx_region rs \<equiv> drop (unat (buffer_size_rx rs)) (rs_buffer rs)"

abbreviation waiting_response :: "rs485 \<Rightarrow> bool" where
  "waiting_response rs \<equiv> req_state (req rs) = MODBUS_REQUEST_PROCESS_STATE_MASTER_WAITING_RESPONSE"

lemma check_response_cases:
  assumes wf: "rs485_wf rs" and used: "ringbuffer_get_used (ringbuffer_rx rs) = rx_rb_last_length (modbus_rtu rs)"
    and pend: "\<not> master_request_timed_out (req rs)" "\<not> in_progress (stream_chunking (req rs))"
  shows "\<exists>f. modbus_check_response rs =
    Some (if valid_response (tx_region rs) (rx_contents rs)
          then upd_request (\<lambda>r. r \<lparr> cb_invoke := True \<rparr>) rs
          else request_failed (upd_counters f rs))"
proof -
  note m = rs485_wf_memory[OF wf]
  have len: "unat (rx_rb_last_length (modbus_rtu rs)) = length (rx_contents rs)"
    using get_used_rx[OF wf] used by simp
  have lt: "unat (rx_rb_last_length (modbus_rtu rs)) < unat (buffer_size_rx rs)"
    using rx_used_bound[OF wf] used by simp
  note crc = check_frame_checksum_ok[OF wf lt, unfolded len rx_frame_contents[OF wf]]
  have big: "ringbuffer_get_used (ringbuffer_rx rs) > RS485_MODBUS_RTU_FRAME_SIZE_MAX \<longleftrightarrow> 256 < length (rx_contents rs)"
    using get_used_rx[OF wf] by (simp add: word_less_nat_alt RS485_MODBUS_RTU_FRAME_SIZE_MAX_def)
  have head: "rx_contents rs ! i = rs_buffer rs ! i" if "i < length (rx_contents rs)" for i
    using rx_frame_contents[OF wf] that by (metis nth_take)
  have id: "upd_counters (\<lambda>c. c) rs = rs" by (simp add: upd_counters_def)
  show ?thesis
  proof (cases "256 < length (rx_contents rs)")
    case True
    then show ?thesis
      using pend big by (auto simp: modbus_check_response_def valid_response_def)
  next
    case small: False
    show ?thesis
    proof (cases "2 \<le> length (rx_contents rs) \<and> crc16_modbus (rx_contents rs) = 0")
      case False
      then show ?thesis
        using pend small big crc by (auto simp: modbus_check_response_def valid_response_def)
    next
      case True
      then have "0 < length (rx_contents rs)" "1 < length (rx_contents rs)"
        by linarith+
      then have "rx_contents rs ! 0 = rs_buffer rs ! 0" "rx_contents rs ! 1 = rs_buffer rs ! 1"
        using head by blast+
      then show ?thesis
        using pend small big crc True check_slave_response_ok[OF wf]
        by (auto simp: modbus_check_response_def valid_response_def Let_def id intro!: exI[of _ "\<lambda>c. c"])
    qed
  qed
qed

text \<open>C1. Whenever the Modbus master's state machine reports success to its client (it raises the
  callback flag without marking the request as timed out), either a broadcast has just been
  sent completely, or the receive ring holds a complete response of 2 to 256 bytes whose checksum
  is right, which comes from the addressed slave and answers the function code of the request
  (normally or with an exception).\<close>

theorem modbus_master_accepts_only_valid:
  assumes wf: "rs485_wf rs" and run: "modbus_update_rtu_wire_state_machine tick rs = Some rs'"
    and raised: "\<not> cb_invoke (req rs)" "cb_invoke (req rs')"
    and fresh: "\<not> master_request_timed_out (req rs')"
  shows "mode rs = MODE_MODBUS_MASTER_RTU \<and>
    (state_wire (modbus_rtu rs) = MODBUS_RTU_WIRE_STATE_TX \<and> tx_done (modbus_rtu rs) \<and> tx_region rs ! 0 = 0 \<or>
     state_wire (modbus_rtu rs) = MODBUS_RTU_WIRE_STATE_IDLE \<and> waiting_response rs \<and>
     valid_response (tx_region rs) (rx_contents rs))"
proof (cases "state_wire (modbus_rtu rs)")
  case MODBUS_RTU_WIRE_STATE_IDLE
  then have idle: "modbus_wire_idle tick rs = Some rs'"
    using run by (simp add: modbus_update_rtu_wire_state_machine_def)
  have failed: "master_request_timed_out (req (request_failed r))" for r
    by (simp add: request_failed_def upd_request_def upd_rtu_def upd_counters_def)
  have keep: "cb_invoke (req (upd_rtu (\<lambda>m. m \<lparr> state_wire := a, rx_rb_last_length := b \<rparr>) rs)) = cb_invoke (req rs)" for a b
    by (simp add: upd_rtu_def)
  from idle raised fresh failed keep have *: "mode rs = MODE_MODBUS_MASTER_RTU" "waiting_response rs"
    "ringbuffer_get_used (ringbuffer_rx rs) = rx_rb_last_length (modbus_rtu rs)"
    "modbus_check_response rs = Some rs'"
    by (auto simp: modbus_wire_idle_def Let_def split: if_splits)
  have chunk: "\<not> in_progress (stream_chunking (req rs))"
    using *(4) raised by (auto simp: modbus_check_response_def)
  have "\<not> master_request_timed_out (req rs)"
  proof
    assume late: "master_request_timed_out (req rs)"
    have "unat (rx_rb_last_length (modbus_rtu rs)) < unat (buffer_size_rx rs)"
      using rx_used_bound[OF wf] *(3) by simp
    then have "rs' = upd_request (\<lambda>r. r \<lparr> cb_invoke := True \<rparr>) rs"
      using *(4) chunk late check_slave_response_ok[OF wf]
      by (auto simp: modbus_check_response_def check_frame_checksum_ok[OF wf] Let_def)
    with late fresh show False by (simp add: upd_request_def upd_rtu_def)
  qed
  then show ?thesis
    using check_response_cases[OF wf *(3) _ chunk] * fresh failed MODBUS_RTU_WIRE_STATE_IDLE
    by (auto split: if_splits)
next
  case MODBUS_RTU_WIRE_STATE_RX
  then show ?thesis
    using run raised by (auto simp: modbus_update_rtu_wire_state_machine_def upd_rtu_def split: if_splits)
next
  case MODBUS_RTU_WIRE_STATE_TX
  note m = rs485_wf_memory[OF wf]
  have "unat (buffer_size_rx rs) < length (rs_buffer rs)" using m by linarith
  then show ?thesis
    using MODBUS_RTU_WIRE_STATE_TX run raised m
    by (auto simp: modbus_update_rtu_wire_state_machine_def upd_rtu_def upd_request_def Let_def arr_simps
        split: if_splits)
qed

text \<open>C24. A response is not missed: when the master waits for a response, is neither timed out
  nor streaming, and the receive ring holds newly received bytes, three updates (one now, one at
  least five milliseconds after the last byte, one more), none of them at or after the request's
  timeout, end with the client's callback raised; it reports a timeout exactly when the bytes are
  not a valid response.\<close>

theorem modbus_response_progress:
  assumes wf: "rs485_wf rs" and master: "mode rs = MODE_MODBUS_MASTER_RTU"
    and state: "state_wire (modbus_rtu rs) = MODBUS_RTU_WIRE_STATE_IDLE" "waiting_response rs"
      "\<not> master_request_timed_out (req rs)" "\<not> in_progress (stream_chunking (req rs))"
    and fresh: "unat (rx_rb_last_length (modbus_rtu rs)) < length (rx_contents rs)"
    and t1: "\<not> system_timer_is_time_elapsed_ms t1 (time_ref_master_request_timeout (req rs)) (modbus_master_request_timeout rs)"
    and t2: "system_timer_is_time_elapsed_ms t2 (time_4_chars_ms (modbus_rtu rs)) MODBUS_WAIT_AFTER_READ_MS"
    and t3: "\<not> system_timer_is_time_elapsed_ms t3 (time_ref_master_request_timeout (req rs)) (modbus_master_request_timeout rs)"
  shows "\<exists>rs1 rs2 rs3. modbus_update_rtu_wire_state_machine t1 rs = Some rs1 \<and>
    modbus_update_rtu_wire_state_machine t2 rs1 = Some rs2 \<and>
    modbus_update_rtu_wire_state_machine t3 rs2 = Some rs3 \<and>
    cb_invoke (req rs3) \<and> rx_contents rs3 = rx_contents rs \<and>
    (master_request_timed_out (req rs3) \<longleftrightarrow> \<not> valid_response (tx_region rs) (rx_contents rs))"
proof -
  let ?used = "ringbuffer_get_used (ringbuffer_rx rs)"
  have used: "?used > rx_rb_last_length (modbus_rtu rs)" "?used > 0"
    using get_used_rx[OF wf] fresh by (auto simp: word_less_nat_alt)
  define rs1 where "rs1 = upd_rtu (\<lambda>m. m \<lparr> state_wire := MODBUS_RTU_WIRE_STATE_RX, rx_rb_last_length := ?used \<rparr>) rs"
  define rs2 where "rs2 = upd_rtu (\<lambda>m. m \<lparr> state_wire := MODBUS_RTU_WIRE_STATE_IDLE \<rparr>) rs1"
  have s1: "modbus_update_rtu_wire_state_machine t1 rs = Some rs1"
    using master state t1 used by (simp add: modbus_update_rtu_wire_state_machine_def modbus_wire_idle_def Let_def rs1_def)
  have s2: "modbus_update_rtu_wire_state_machine t2 rs1 = Some rs2"
    using t2 by (simp add: modbus_update_rtu_wire_state_machine_def rs1_def rs2_def upd_rtu_def)
  have same: "ringbuffer_rx rs2 = ringbuffer_rx rs" "rs_buffer rs2 = rs_buffer rs" "mode rs2 = mode rs"
    "buffer_size_rx rs2 = buffer_size_rx rs" "req rs2 = req rs"
    "modbus_master_request_timeout rs2 = modbus_master_request_timeout rs"
    "rx_rb_last_length (modbus_rtu rs2) = ?used" "state_wire (modbus_rtu rs2) = MODBUS_RTU_WIRE_STATE_IDLE"
    by (simp_all add: rs2_def rs1_def upd_rtu_def)
  have wf2: "rs485_wf rs2" using wf by (simp add: rs2_def rs1_def)
  have rx2: "rx_contents rs2 = rx_contents rs" by (simp add: rx_contents_def same)
  have s3: "modbus_update_rtu_wire_state_machine t3 rs2 = modbus_check_response rs2"
    using master state t3 used same by (simp add: modbus_update_rtu_wire_state_machine_def modbus_wire_idle_def Let_def)
  obtain f where "modbus_check_response rs2 =
    Some (if valid_response (tx_region rs) (rx_contents rs)
          then upd_request (\<lambda>r. r \<lparr> cb_invoke := True \<rparr>) rs2 else request_failed (upd_counters f rs2))"
    using check_response_cases[OF wf2] state same rx2 by auto
  then show ?thesis
    using s1 s2 s3 rx2 state(3) same
    by (auto simp: request_failed_def upd_request_def upd_rtu_def upd_counters_def rx_contents_def)
qed

text \<open>An exception report puts the five byte exception response on the line: transmitting it
  sends slave address, function code plus 0x80 and exception code followed by their checksum, with
  which the receiver's frame check succeeds, and ends the transmission.\<close>

theorem modbus_exception_on_line:
  assumes wf: "rs485_wf rs" and fits: "unat (buffer_size_rx rs) + 6 \<le> length (rs_buffer rs)"
    and room: "5 < room"
  shows "\<exists>s1 rs2 u2. modbus_report_exception fc ec (rs, u) = Some s1 \<and>
    rs485_tx_irq_handler room s1 = Some (rs2, u2) \<and>
    line_out u2 = line_out u @ [modbus_slave_address rs, fc + 0x80, ec]
      @ le16 (crc16_modbus [modbus_slave_address rs, fc + 0x80, ec]) \<and>
    crc16_modbus ([modbus_slave_address rs, fc + 0x80, ec]
      @ le16 (crc16_modbus [modbus_slave_address rs, fc + 0x80, ec])) = 0 \<and>
    tx_done (modbus_rtu rs2) \<and> \<not> tx_event_enabled u2 \<and> tx_contents rs2 = []"
proof -
  define resp where "resp = [modbus_slave_address rs, fc + 0x80, ec]"
  let ?frame = "resp @ le16 (crc16_modbus resp)"
  let ?rs0 = "rs \<lparr> ringbuffer_tx := ringbuffer_init (RS485_BUFFER_SIZE rs - buffer_size_rx rs)
      (unat (buffer_size_rx rs)) \<rparr>"
  have len: "length ?frame = 5" by (simp add: resp_def)
  have "length (tx_contents ?rs0) + length ?frame < length (rs_buffer ?rs0) - unat (buffer_size_rx ?rs0)"
    unfolding tx_ring_reset_wf(2)[OF wf] len using fits by simp
  from tx_add_ok[OF tx_ring_reset_wf(1)[OF wf] this]
  obtain rs1 where add: "ringbuffer_tx_add_all ?frame ?rs0 = Some rs1" "rs485_wf rs1" "tx_contents rs1 = ?frame"
    unfolding tx_ring_reset_wf(2)[OF wf] by auto
  let ?s1 = "modbus_start_tx_from_buffer (rs1, u)"
  have wf1: "rs485_wf (fst ?s1)" using add(2) by simp
  have s1: "tx_contents (fst ?s1) = ?frame" "line_out (snd ?s1) = line_out u"
    using add(3) by (simp_all add: modbus_start_tx_from_buffer_def tx_contents_def upd_rtu_def)
  obtain rs2 u2 where irq: "rs485_tx_loop room (fst ?s1, RS485_HALF_DUPLEX_TX_ENABLE (fst ?s1) (snd ?s1)) = Some (rs2, u2)"
    "line_out u2 = line_out u @ take room ?frame" "tx_contents rs2 = drop room ?frame"
    "tx_done (modbus_rtu rs2)" "\<not> tx_event_enabled u2"
    using tx_loop_ok[OF wf1, of room "RS485_HALF_DUPLEX_TX_ENABLE (fst ?s1) (snd ?s1)"] room len s1
    by (auto simp: RS485_HALF_DUPLEX_TX_ENABLE_def)
  have report: "modbus_report_exception fc ec (rs, u) = Some ?s1"
    using add(1) by (simp add: modbus_report_exception_def Let_def resp_def del: ringbuffer_tx_add_all.simps)
  have crc: "crc16_modbus ?frame = 0"
    using crc16_modbus_frame_check_rule[of resp] un_le16_le16[of "crc16_modbus resp"] by (simp add: le16_def)
  have "take room ?frame = ?frame" "drop room ?frame = []" using len room by simp_all
  with irq report crc show ?thesis
    by (intro exI[of _ ?s1] exI[of _ rs2] exI[of _ u2])
      (simp add: rs485_tx_irq_handler_def resp_def split_beta)
qed

subsection \<open>A concrete exchange\<close>

text \<open>A master that asked slave 1 with function 3 and has received an answer in 16 bytes of memory.\<close>

definition modbus_witness :: "u16 \<Rightarrow> rs485" where
  "modbus_witness last_length = (rs485_blank ([1, 3] @ le16 (crc16_modbus [1, 3])
       @ [0, 0, 0, 0, 1, 3, 0, 0, 0, 0, 0, 0]))
     \<lparr> mode := MODE_MODBUS_MASTER_RTU, buffer_size_rx := 8,
       ringbuffer_rx := (ringbuffer_init 8 0) \<lparr> rb_end := 4 \<rparr>, ringbuffer_tx := ringbuffer_init 8 8,
       modbus_master_request_timeout := 1000,
       modbus_rtu := \<lparr> tx_done = False, time_4_chars_ms = 0, rx_rb_last_length = last_length,
         request = \<lparr> req_id = 1, cb_invoke = False, req_length = 10, rx_frame = 0, tx_frame = 8,
           req_state = MODBUS_REQUEST_PROCESS_STATE_MASTER_WAITING_RESPONSE,
           master_request_timed_out = False, time_ref_master_request_timeout = 0,
           stream_chunking = zero_stream_chunking \<rparr>,
         state_wire = MODBUS_RTU_WIRE_STATE_IDLE \<rparr> \<rparr>"

lemma modbus_witness_wf: "rs485_wf (modbus_witness n)"
  by (simp add: rs485_wf_def modbus_witness_def rs485_blank_def RS485_BUFFER_SIZE_def rb_wf_def
      ringbuffer_init_def)

lemma modbus_witness_rx: "rx_contents (modbus_witness n) = [1, 3] @ le16 (crc16_modbus [1, 3])"
  by (simp add: rx_contents_def rb_contents_def rb_used_def rb_slot_def modbus_witness_def
      rs485_blank_def ringbuffer_init_def le16_def upt_conv_Cons)

lemma modbus_witness_valid:
  "valid_response (tx_region (modbus_witness n)) (rx_contents (modbus_witness n))"
proof -
  have "crc16_modbus ([1, 3] @ le16 (crc16_modbus [1, 3])) = 0"
    using crc16_modbus_frame_check_rule[of "[1, 3]"] un_le16_le16[of "crc16_modbus [1, 3]"]
    by (simp add: le16_def)
  then show ?thesis
    unfolding valid_response_def modbus_witness_rx
    by (simp add: modbus_witness_def rs485_blank_def le16_def)
qed

lemma modbus_master_accepts_only_valid_witness:
  "\<exists>rs'. modbus_update_rtu_wire_state_machine 7 (modbus_witness 4) = Some rs' \<and> cb_invoke (req rs') \<and>
     valid_response (tx_region (modbus_witness 4)) (rx_contents (modbus_witness 4))"
proof -
  let ?rs = "modbus_witness 4"
  let ?rs' = "upd_request (\<lambda>r. r \<lparr> cb_invoke := True \<rparr>) ?rs"
  have st: "state_wire (modbus_rtu ?rs) = MODBUS_RTU_WIRE_STATE_IDLE" "waiting_response ?rs"
    "\<not> master_request_timed_out (req ?rs)" "\<not> in_progress (stream_chunking (req ?rs))"
    "ringbuffer_get_used (ringbuffer_rx ?rs) = rx_rb_last_length (modbus_rtu ?rs)"
    "rx_rb_last_length (modbus_rtu ?rs) = 4" "\<not> cb_invoke (req ?rs)"
    "mode ?rs = MODE_MODBUS_MASTER_RTU" "time_ref_master_request_timeout (req ?rs) = 0"
    "modbus_master_request_timeout ?rs = 1000"
    by (simp_all add: modbus_witness_def rs485_blank_def zero_stream_chunking_def
        ringbuffer_get_used_def ringbuffer_init_def)
  have "modbus_check_response ?rs = Some ?rs'"
    using check_response_cases[OF modbus_witness_wf st(5,3,4)] modbus_witness_valid[of 4] by auto
  then have run: "modbus_update_rtu_wire_state_machine 7 ?rs = Some ?rs'"
    using st by (simp add: modbus_update_rtu_wire_state_machine_def modbus_wire_idle_def Let_def
        system_timer_is_time_elapsed_ms_def system_timer_get_ms_def)
  have cb: "cb_invoke (req ?rs')" "\<not> master_request_timed_out (req ?rs')"
    using st(3) by (simp_all add: upd_request_def upd_rtu_def)
  have "valid_response (tx_region ?rs) (rx_contents ?rs)"
    using modbus_master_accepts_only_valid[OF modbus_witness_wf run st(7) cb] st(1) by simp
  with run cb(1) show ?thesis by blast
qed

lemma modbus_response_progress_witness:
  "\<exists>rs1 rs2 rs3. modbus_update_rtu_wire_state_machine 2 (modbus_witness 0) = Some rs1 \<and>
     modbus_update_rtu_wire_state_machine 6 rs1 = Some rs2 \<and>
     modbus_update_rtu_wire_state_machine 7 rs2 = Some rs3 \<and> cb_invoke (req rs3) \<and>
     \<not> master_request_timed_out (req rs3)"
proof -
  let ?rs = "modbus_witness 0"
  have st: "mode ?rs = MODE_MODBUS_MASTER_RTU"
    "state_wire (modbus_rtu ?rs) = MODBUS_RTU_WIRE_STATE_IDLE" "waiting_response ?rs"
    "\<not> master_request_timed_out (req ?rs)" "\<not> in_progress (stream_chunking (req ?rs))"
    "rx_rb_last_length (modbus_rtu ?rs) = 0" "time_ref_master_request_timeout (req ?rs) = 0"
    "modbus_master_request_timeout ?rs = 1000" "time_4_chars_ms (modbus_rtu ?rs) = 0"
    by (simp_all add: modbus_witness_def rs485_blank_def zero_stream_chunking_def)
  show ?thesis
    using modbus_response_progress[OF modbus_witness_wf st(1-5), of 2 6 7] st modbus_witness_valid[of 0]
    by (auto simp: modbus_witness_rx system_timer_is_time_elapsed_ms_def system_timer_get_ms_def
        MODBUS_WAIT_AFTER_READ_MS_def)
qed

lemma modbus_exception_on_line_witness:
  "\<forall>u. \<exists>s1 rs2 u2. modbus_report_exception 3 2 (modbus_witness 0, u) = Some s1 \<and>
     rs485_tx_irq_handler 6 s1 = Some (rs2, u2) \<and> tx_done (modbus_rtu rs2)"
proof -
  have "unat (buffer_size_rx (modbus_witness 0)) + 6 \<le> length (rs_buffer (modbus_witness 0))"
    by (simp add: modbus_witness_def rs485_blank_def)
  from modbus_exception_on_line[OF modbus_witness_wf this, of 6 3 2] show ?thesis by fastforce
qed

end
