(* ===== verification/Meter_Data.thy ===== *)
theory Meter_Data
  imports Modbus
begin

text \<open>
  The data of the energy meter client (\<^verbatim>\<open>warp/meter.h\<close>,
  \<^verbatim>\<open>warp/meter_iskra.h\<close>) and the register tables of the supported meters
  (the \<^verbatim>\<open>warp/meter_*_def.inc\<close> files that \<^verbatim>\<open>warp/meter.c\<close> includes).
  Floating point numbers are their 32 bit patterns; the arithmetic on them, and the square root and
  arc cosine of the C library, is a record of operations every function that computes takes.
\<close>

section \<open>Floats\<close>

record float_ops =
  f_add :: "u32 \<Rightarrow> u32 \<Rightarrow> u32"
  f_sub :: "u32 \<Rightarrow> u32 \<Rightarrow> u32"
  f_mul :: "u32 \<Rightarrow> u32 \<Rightarrow> u32"
  f_div :: "u32 \<Rightarrow> u32 \<Rightarrow> u32"
  f_neg :: "u32 \<Rightarrow> u32"
  f_of_int :: "int \<Rightarrow> u32"
  f_less :: "u32 \<Rightarrow> u32 \<Rightarrow> bool"
  f_eq :: "u32 \<Rightarrow> u32 \<Rightarrow> bool"
  f_sqrt :: "u32 \<Rightarrow> u32"
  f_acos :: "u32 \<Rightarrow> u32"

text \<open>The literals of the source as IEEE single precision patterns.\<close>

abbreviation (input) NAN :: u32 where "NAN \<equiv> 0x7FC00000"
abbreviation (input) f_0 :: u32 where "f_0 \<equiv> 0"
abbreviation (input) f_0_0001 :: u32 where "f_0_0001 \<equiv> 0x38D1B717"
abbreviation (input) f_0_01 :: u32 where "f_0_01 \<equiv> 0x3C23D70A"
abbreviation (input) f_0_1 :: u32 where "f_0_1 \<equiv> 0x3DCCCCCD"
abbreviation (input) f_1 :: u32 where "f_1 \<equiv> 0x3F800000"
abbreviation (input) f_2 :: u32 where "f_2 \<equiv> 0x40000000"
abbreviation (input) f_3 :: u32 where "f_3 \<equiv> 0x40400000"
abbreviation (input) f_10 :: u32 where "f_10 \<equiv> 0x41200000"
abbreviation (input) f_57_29 :: u32 where "f_57_29 \<equiv> 0x42652EE1"
abbreviation (input) f_180 :: u32 where "f_180 \<equiv> 0x43340000"
abbreviation (input) f_1000 :: u32 where "f_1000 \<equiv> 0x447A0000"

section \<open>Types\<close>

datatype meter_type =
  METER_TYPE_DETECTION
| METER_TYPE_UNKNOWN
| METER_TYPE_UNSUPPORTED
| METER_TYPE_SDM630
| METER_TYPE_SDM72V2
| METER_TYPE_SDM72CTM
| METER_TYPE_SDM630MCTV2
| METER_TYPE_DSZ15DZMOD
| METER_TYPE_DEM4A
| METER_TYPE_DMED341MID7ER
| METER_TYPE_DSZ16DZE
| METER_TYPE_WM3M4C
| METER_TYPE_WM3M4

datatype meter_register_data_type =
  METER_REGISTER_DATA_TYPE_FLOAT
| METER_REGISTER_DATA_TYPE_INT32
| METER_REGISTER_DATA_TYPE_INT16
| METER_REGISTER_DATA_TYPE_T2
| METER_REGISTER_DATA_TYPE_T3
| METER_REGISTER_DATA_TYPE_T5
| METER_REGISTER_DATA_TYPE_T6
| METER_REGISTER_DATA_TYPE_T7
| METER_REGISTER_DATA_TYPE_T16
| METER_REGISTER_DATA_TYPE_T17

text \<open>
  The register set is a struct of 32 bit registers that the code also walks as an array; it is the
  list of its fields in order, and a field name is its index.
\<close>

type_synonym meter_register_set = "u32 list"

definition METER_REGISTER_NUM :: nat where
  "METER_REGISTER_NUM = 82"

abbreviation (input) VoltageL1N :: nat where "VoltageL1N \<equiv> 0"
abbreviation (input) VoltageL2N :: nat where "VoltageL2N \<equiv> 1"
abbreviation (input) VoltageL3N :: nat where "VoltageL3N \<equiv> 2"
abbreviation (input) CurrentL1ImExSum :: nat where "CurrentL1ImExSum \<equiv> 3"
abbreviation (input) CurrentL2ImExSum :: nat where "CurrentL2ImExSum \<equiv> 4"
abbreviation (input) CurrentL3ImExSum :: nat where "CurrentL3ImExSum \<equiv> 5"
abbreviation (input) PowerActiveL1ImExDiff :: nat where "PowerActiveL1ImExDiff \<equiv> 6"
abbreviation (input) PowerActiveL2ImExDiff :: nat where "PowerActiveL2ImExDiff \<equiv> 7"
abbreviation (input) PowerActiveL3ImExDiff :: nat where "PowerActiveL3ImExDiff \<equiv> 8"
abbreviation (input) PowerApparentL1ImExSum :: nat where "PowerApparentL1ImExSum \<equiv> 9"
abbreviation (input) PowerApparentL2ImExSum :: nat where "PowerApparentL2ImExSum \<equiv> 10"
abbreviation (input) PowerApparentL3ImExSum :: nat where "PowerApparentL3ImExSum \<equiv> 11"
abbreviation (input) PowerReactiveL1IndCapDiff :: nat where "PowerReactiveL1IndCapDiff \<equiv> 12"
abbreviation (input) PowerReactiveL1IndCapSum :: nat where "PowerReactiveL1IndCapSum \<equiv> 13"
abbreviation (input) PowerReactiveL2IndCapDiff :: nat where "PowerReactiveL2IndCapDiff \<equiv> 14"
abbreviation (input) PowerReactiveL2IndCapSum :: nat where "PowerReactiveL2IndCapSum \<equiv> 15"
abbreviation (input) PowerReactiveL3IndCapDiff :: nat where "PowerReactiveL3IndCapDiff \<equiv> 16"
abbreviation (input) PowerReactiveL3IndCapSum :: nat where "PowerReactiveL3IndCapSum \<equiv> 17"
abbreviation (input) PowerFactorL1Directional :: nat where "PowerFactorL1Directional \<equiv> 18"
abbreviation (input) PowerFactorL2Directional :: nat where "PowerFactorL2Directional \<equiv> 19"
abbreviation (input) PowerFactorL3Directional :: nat where "PowerFactorL3Directional \<equiv> 20"
abbreviation (input) PhaseAngleL1 :: nat where "PhaseAngleL1 \<equiv> 21"
abbreviation (input) PhaseAngleL2 :: nat where "PhaseAngleL2 \<equiv> 22"
abbreviation (input) PhaseAngleL3 :: nat where "PhaseAngleL3 \<equiv> 23"
abbreviation (input) VoltageLNAvg :: nat where "VoltageLNAvg \<equiv> 24"
abbreviation (input) CurrentLAvgImExSum :: nat where "CurrentLAvgImExSum \<equiv> 25"
abbreviation (input) CurrentLSumImExSum :: nat where "CurrentLSumImExSum \<equiv> 26"
abbreviation (input) PowerActiveLSumImExDiff :: nat where "PowerActiveLSumImExDiff \<equiv> 27"
abbreviation (input) PowerApparentLSumImExSum :: nat where "PowerApparentLSumImExSum \<equiv> 28"
abbreviation (input) PowerReactiveLSumIndCapDiff :: nat where "PowerReactiveLSumIndCapDiff \<equiv> 29"
abbreviation (input) PowerReactiveLSumIndCapSum :: nat where "PowerReactiveLSumIndCapSum \<equiv> 30"
abbreviation (input) PowerFactorLSumDirectional :: nat where "PowerFactorLSumDirectional \<equiv> 31"
abbreviation (input) PhaseAngleLSum :: nat where "PhaseAngleLSum \<equiv> 32"
abbreviation (input) FrequencyLAvg :: nat where "FrequencyLAvg \<equiv> 33"
abbreviation (input) EnergyActiveLSumImport :: nat where "EnergyActiveLSumImport \<equiv> 34"
abbreviation (input) EnergyActiveLSumExport :: nat where "EnergyActiveLSumExport \<equiv> 35"
abbreviation (input) EnergyReactiveLSumInductive :: nat where "EnergyReactiveLSumInductive \<equiv> 36"
abbreviation (input) EnergyReactiveLSumCapacitive :: nat where "EnergyReactiveLSumCapacitive \<equiv> 37"
abbreviation (input) EnergyApparentLSumImExSum :: nat where "EnergyApparentLSumImExSum \<equiv> 38"
abbreviation (input) ElectricCharge :: nat where "ElectricCharge \<equiv> 39"
abbreviation (input) VoltageL1L2 :: nat where "VoltageL1L2 \<equiv> 40"
abbreviation (input) VoltageL2L3 :: nat where "VoltageL2L3 \<equiv> 41"
abbreviation (input) VoltageL3L1 :: nat where "VoltageL3L1 \<equiv> 42"
abbreviation (input) VoltageLLAvg :: nat where "VoltageLLAvg \<equiv> 43"
abbreviation (input) CurrentNImExSum :: nat where "CurrentNImExSum \<equiv> 44"
abbreviation (input) VoltageTHDL1N :: nat where "VoltageTHDL1N \<equiv> 45"
abbreviation (input) VoltageTHDL2N :: nat where "VoltageTHDL2N \<equiv> 46"
abbreviation (input) VoltageTHDL3N :: nat where "VoltageTHDL3N \<equiv> 47"
abbreviation (input) CurrentTHDL1 :: nat where "CurrentTHDL1 \<equiv> 48"
abbreviation (input) CurrentTHDL2 :: nat where "CurrentTHDL2 \<equiv> 49"
abbreviation (input) CurrentTHDL3 :: nat where "CurrentTHDL3 \<equiv> 50"
abbreviation (input) VoltageTHDLNAvg :: nat where "VoltageTHDLNAvg \<equiv> 51"
abbreviation (input) CurrentTHDLAvg :: nat where "CurrentTHDLAvg \<equiv> 52"
abbreviation (input) VoltageTHDL1L2 :: nat where "VoltageTHDL1L2 \<equiv> 53"
abbreviation (input) VoltageTHDL2L3 :: nat where "VoltageTHDL2L3 \<equiv> 54"
abbreviation (input) VoltageTHDL3L1 :: nat where "VoltageTHDL3L1 \<equiv> 55"
abbreviation (input) VoltageTHDLLAvg :: nat where "VoltageTHDLLAvg \<equiv> 56"
abbreviation (input) EnergyActiveLSumImExSum :: nat where "EnergyActiveLSumImExSum \<equiv> 57"
abbreviation (input) EnergyReactiveLSumIndCapSum :: nat where "EnergyReactiveLSumIndCapSum \<equiv> 58"
abbreviation (input) EnergyActiveL1Import :: nat where "EnergyActiveL1Import \<equiv> 59"
abbreviation (input) EnergyActiveL2Import :: nat where "EnergyActiveL2Import \<equiv> 60"
abbreviation (input) EnergyActiveL3Import :: nat where "EnergyActiveL3Import \<equiv> 61"
abbreviation (input) EnergyActiveL1Export :: nat where "EnergyActiveL1Export \<equiv> 62"
abbreviation (input) EnergyActiveL2Export :: nat where "EnergyActiveL2Export \<equiv> 63"
abbreviation (input) EnergyActiveL3Export :: nat where "EnergyActiveL3Export \<equiv> 64"
abbreviation (input) EnergyActiveL1ImExSum :: nat where "EnergyActiveL1ImExSum \<equiv> 65"
abbreviation (input) EnergyActiveL2ImExSum :: nat where "EnergyActiveL2ImExSum \<equiv> 66"
abbreviation (input) EnergyActiveL3ImExSum :: nat where "EnergyActiveL3ImExSum \<equiv> 67"
abbreviation (input) EnergyReactiveL1Inductive :: nat where "EnergyReactiveL1Inductive \<equiv> 68"
abbreviation (input) EnergyReactiveL2Inductive :: nat where "EnergyReactiveL2Inductive \<equiv> 69"
abbreviation (input) EnergyReactiveL3Inductive :: nat where "EnergyReactiveL3Inductive \<equiv> 70"
abbreviation (input) EnergyReactiveL1Capacitive :: nat where "EnergyReactiveL1Capacitive \<equiv> 71"
abbreviation (input) EnergyReactiveL2Capacitive :: nat where "EnergyReactiveL2Capacitive \<equiv> 72"
abbreviation (input) EnergyReactiveL3Capacitive :: nat where "EnergyReactiveL3Capacitive \<equiv> 73"
abbreviation (input) EnergyReactiveL1IndCapSum :: nat where "EnergyReactiveL1IndCapSum \<equiv> 74"
abbreviation (input) EnergyReactiveL2IndCapSum :: nat where "EnergyReactiveL2IndCapSum \<equiv> 75"
abbreviation (input) EnergyReactiveL3IndCapSum :: nat where "EnergyReactiveL3IndCapSum \<equiv> 76"
abbreviation (input) EnergyActiveLSumImExSumResettable :: nat where "EnergyActiveLSumImExSumResettable \<equiv> 77"
abbreviation (input) EnergyActiveLSumImportResettable :: nat where "EnergyActiveLSumImportResettable \<equiv> 78"
abbreviation (input) EnergyActiveLSumExportResettable :: nat where "EnergyActiveLSumExportResettable \<equiv> 79"
abbreviation (input) Temperature :: nat where "Temperature \<equiv> 80"
abbreviation (input) RunTime :: nat where "RunTime \<equiv> 81"

text \<open>
  The address of a definition: nothing, a field of the register set, or a field of the Iskra struct,
  which lies outside of the register set's memory.
\<close>

datatype iskra_field = Energy_Counter_Exponent | Energy_Counter | Energy_Counter_1000x

datatype register_set_address = Reg_Null | Reg_Set nat | Reg_Iskra iskra_field nat

record meter_definition =
  register_address :: u16
  register_set_address :: register_set_address
  scale_factor :: u32
  register_data_type :: meter_register_data_type
  fast_read :: bool

definition mdef :: "u16 \<Rightarrow> register_set_address \<Rightarrow> u32 \<Rightarrow> meter_register_data_type \<Rightarrow> bool \<Rightarrow> meter_definition" where
  "mdef a t s d f = \<lparr> register_address = a, register_set_address = t, scale_factor = s,
     register_data_type = d, fast_read = f \<rparr>"

lemma mdef_simps [simp]:
  "register_address (mdef a t s d f) = a" "register_set_address (mdef a t s d f) = t"
  "scale_factor (mdef a t s d f) = s" "register_data_type (mdef a t s d f) = d"
  "fast_read (mdef a t s d f) = f"
  by (simp_all add: mdef_def)

section \<open>State\<close>

text \<open>The pointer current\_meter is the table it points to, NULL the empty list.\<close>

record meter =
  m_type :: meter_type
  m_slave_address :: u16
  m_state :: u8
  m_register_full_position :: u16
  m_register_fast_position :: u16
  m_register_fast_time :: u32
  m_available :: bool
  m_reset_energy_meter :: bool
  m_each_value_read_once :: bool
  m_timeout :: u32
  m_first_tick :: u32
  m_error_wait_time :: u32
  m_system_type_write :: u32
  m_system_type_read :: u32
  m_new_system_type :: bool
  m_phases_connected :: "bool list"
  m_new_fast_value_callback :: bool
  m_relative_energy_sum :: u32
  m_relative_energy_import :: u32
  m_relative_energy_export :: u32
  m_current_meter :: "meter_definition list"
  m_current_meter_size :: u8
  m_current_meter_index :: u8
  m_current_meter_definition_size :: u8

record meter_iskra =
  energy_counter_exponent :: "u32 list"
  energy_counter :: "u32 list"
  energy_counter_1000x :: "u32 list"
  measurement_status :: u16
  signature_status :: u16
  fast_state :: u8
  fast_active :: bool
  fast_start_time :: u32

text \<open>The globals and the static variables of the functions.\<close>

record meter_sys =
  ms_rs :: rs485
  ms_uart :: uart
  ms_meter :: meter
  ms_set :: meter_register_set
  ms_iskra :: meter_iskra
  ms_find_state :: u8
  ms_generic_find :: u8
  ms_eastron_find :: u8
  ms_eltako_find :: u8
  ms_iskra_find :: u8
  ms_generic_fast :: bool
  ms_eastron_fast :: bool
  ms_eltako_time :: u32
  ms_eltako_data :: "u32 list"
  ms_eltako_new :: bool
  ms_eltako_i :: u8
  ms_eltako_value :: u32
  ms_last_state :: u8
  ms_packet_payload_index :: u32

definition upd_meter :: "(meter \<Rightarrow> meter) \<Rightarrow> meter_sys \<Rightarrow> meter_sys" where
  "upd_meter f s = s \<lparr> ms_meter := f (ms_meter s) \<rparr>"

definition upd_rs :: "(rs485 \<Rightarrow> rs485) \<Rightarrow> meter_sys \<Rightarrow> meter_sys" where
  "upd_rs f s = s \<lparr> ms_rs := f (ms_rs s) \<rparr>"

text \<open>
  A function that reads the millisecond clock takes the readings as a function from the number of
  the reading site in it.
\<close>

type_synonym clk = "nat \<Rightarrow> u32"

section \<open>The register tables\<close>

definition meter_sdm630 :: "meter_definition list" where
  "meter_sdm630 = [
     mdef 1 (Reg_Set VoltageL1N) 0x3F800000 METER_REGISTER_DATA_TYPE_FLOAT False,
     mdef 3 (Reg_Set VoltageL2N) 0x3F800000 METER_REGISTER_DATA_TYPE_FLOAT False,
     mdef 5 (Reg_Set VoltageL3N) 0x3F800000 METER_REGISTER_DATA_TYPE_FLOAT False,
     mdef 7 (Reg_Set CurrentL1ImExSum) 0x3F800000 METER_REGISTER_DATA_TYPE_FLOAT True,
     mdef 9 (Reg_Set CurrentL2ImExSum) 0x3F800000 METER_REGISTER_DATA_TYPE_FLOAT True,
     mdef 11 (Reg_Set CurrentL3ImExSum) 0x3F800000 METER_REGISTER_DATA_TYPE_FLOAT True,
     mdef 13 (Reg_Set PowerActiveL1ImExDiff) 0x3F800000 METER_REGISTER_DATA_TYPE_FLOAT False,
     mdef 15 (Reg_Set PowerActiveL2ImExDiff) 0x3F800000 METER_REGISTER_DATA_TYPE_FLOAT False,
     mdef 17 (Reg_Set PowerActiveL3ImExDiff) 0x3F800000 METER_REGISTER_DATA_TYPE_FLOAT False,
     mdef 19 (Reg_Set PowerApparentL1ImExSum) 0x3F800000 METER_REGISTER_DATA_TYPE_FLOAT False,
     mdef 21 (Reg_Set PowerApparentL2ImExSum) 0x3F800000 METER_REGISTER_DATA_TYPE_FLOAT False,
     mdef 23 (Reg_Set PowerApparentL3ImExSum) 0x3F800000 METER_REGISTER_DATA_TYPE_FLOAT False,
     mdef 25 (Reg_Set PowerReactiveL1IndCapDiff) 0x3F800000 METER_REGISTER_DATA_TYPE_FLOAT False,
     mdef 27 (Reg_Set PowerReactiveL2IndCapDiff) 0x3F800000 METER_REGISTER_DATA_TYPE_FLOAT False,
     mdef 29 (Reg_Set PowerReactiveL3IndCapDiff) 0x3F800000 METER_REGISTER_DATA_TYPE_FLOAT False,
     mdef 31 (Reg_Set PowerFactorL1Directional) 0x3F800000 METER_REGISTER_DATA_TYPE_FLOAT False,
     mdef 33 (Reg_Set PowerFactorL2Directional) 0x3F800000 METER_REGISTER_DATA_TYPE_FLOAT False,
     mdef 35 (Reg_Set PowerFactorL3Directional) 0x3F800000 METER_REGISTER_DATA_TYPE_FLOAT False,
     mdef 37 (Reg_Set PhaseAngleL1) 0x3F800000 METER_REGISTER_DATA_TYPE_FLOAT False,
     mdef 39 (Reg_Set PhaseAngleL2) 0x3F800000 METER_REGISTER_DATA_TYPE_FLOAT False,
     mdef 41 (Reg_Set PhaseAngleL3) 0x3F800000 METER_REGISTER_DATA_TYPE_FLOAT False,
     mdef 43 (Reg_Set VoltageLNAvg) 0x3F800000 METER_REGISTER_DATA_TYPE_FLOAT False,
     mdef 47 (Reg_Set CurrentLAvgImExSum) 0x3F800000 METER_REGISTER_DATA_TYPE_FLOAT False,
     mdef 49 (Reg_Set CurrentLSumImExSum) 0x3F800000 METER_REGISTER_DATA_TYPE_FLOAT False,
     mdef 53 (Reg_Set PowerActiveLSumImExDiff) 0x3F800000 METER_REGISTER_DATA_TYPE_FLOAT True,
     mdef 57 (Reg_Set PowerApparentLSumImExSum) 0x3F800000 METER_REGISTER_DATA_TYPE_FLOAT False,
     mdef 61 (Reg_Set PowerReactiveLSumIndCapDiff) 0x3F800000 METER_REGISTER_DATA_TYPE_FLOAT False,
     mdef 63 (Reg_Set PowerFactorLSumDirectional) 0x3F800000 METER_REGISTER_DATA_TYPE_FLOAT False,
     mdef 67 (Reg_Set PhaseAngleLSum) 0x3F800000 METER_REGISTER_DATA_TYPE_FLOAT False,
     mdef 71 (Reg_Set FrequencyLAvg) 0x3F800000 METER_REGISTER_DATA_TYPE_FLOAT False,
     mdef 73 (Reg_Set EnergyActiveLSumImport) 0x3F800000 METER_REGISTER_DATA_TYPE_FLOAT False,
     mdef 75 (Reg_Set EnergyActiveLSumExport) 0x3F800000 METER_REGISTER_DATA_TYPE_FLOAT False,
     mdef 77 (Reg_Set EnergyReactiveLSumInductive) 0x3F800000 METER_REGISTER_DATA_TYPE_FLOAT False,
     mdef 79 (Reg_Set EnergyReactiveLSumCapacitive) 0x3F800000 METER_REGISTER_DATA_TYPE_FLOAT False,
     mdef 81 (Reg_Set EnergyApparentLSumImExSum) 0x3F800000 METER_REGISTER_DATA_TYPE_FLOAT False,
     mdef 83 (Reg_Set ElectricCharge) 0x3F800000 METER_REGISTER_DATA_TYPE_FLOAT False,
     mdef 201 (Reg_Set VoltageL1L2) 0x3F800000 METER_REGISTER_DATA_TYPE_FLOAT False,
     mdef 203 (Reg_Set VoltageL2L3) 0x3F800000 METER_REGISTER_DATA_TYPE_FLOAT False,
     mdef 205 (Reg_Set VoltageL3L1) 0x3F800000 METER_REGISTER_DATA_TYPE_FLOAT False,
     mdef 207 (Reg_Set VoltageLLAvg) 0x3F800000 METER_REGISTER_DATA_TYPE_FLOAT False,
     mdef 225 (Reg_Set CurrentNImExSum) 0x3F800000 METER_REGISTER_DATA_TYPE_FLOAT False,
     mdef 235 (Reg_Set VoltageTHDL1N) 0x3F800000 METER_REGISTER_DATA_TYPE_FLOAT False,
     mdef 237 (Reg_Set VoltageTHDL2N) 0x3F800000 METER_REGISTER_DATA_TYPE_FLOAT False,
     mdef 239 (Reg_Set VoltageTHDL3N) 0x3F800000 METER_REGISTER_DATA_TYPE_FLOAT False,
     mdef 241 (Reg_Set CurrentTHDL1) 0x3F800000 METER_REGISTER_DATA_TYPE_FLOAT False,
     mdef 243 (Reg_Set CurrentTHDL2) 0x3F800000 METER_REGISTER_DATA_TYPE_FLOAT False,
     mdef 245 (Reg_Set CurrentTHDL3) 0x3F800000 METER_REGISTER_DATA_TYPE_FLOAT False,
     mdef 249 (Reg_Set VoltageTHDLNAvg) 0x3F800000 METER_REGISTER_DATA_TYPE_FLOAT False,
     mdef 251 (Reg_Set CurrentTHDLAvg) 0x3F800000 METER_REGISTER_DATA_TYPE_FLOAT False,
     mdef 335 (Reg_Set VoltageTHDL1L2) 0x3F800000 METER_REGISTER_DATA_TYPE_FLOAT False,
     mdef 337 (Reg_Set VoltageTHDL2L3) 0x3F800000 METER_REGISTER_DATA_TYPE_FLOAT False,
     mdef 339 (Reg_Set VoltageTHDL3L1) 0x3F800000 METER_REGISTER_DATA_TYPE_FLOAT False,
     mdef 341 (Reg_Set VoltageTHDLLAvg) 0x3F800000 METER_REGISTER_DATA_TYPE_FLOAT False,
     mdef 343 (Reg_Set EnergyActiveLSumImExSum) 0x3F800000 METER_REGISTER_DATA_TYPE_FLOAT False,
     mdef 345 (Reg_Set EnergyReactiveLSumIndCapSum) 0x3F800000 METER_REGISTER_DATA_TYPE_FLOAT False,
     mdef 347 (Reg_Set EnergyActiveL1Import) 0x3F800000 METER_REGISTER_DATA_TYPE_FLOAT False,
     mdef 349 (Reg_Set EnergyActiveL2Import) 0x3F800000 METER_REGISTER_DATA_TYPE_FLOAT False,
     mdef 351 (Reg_Set EnergyActiveL3Import) 0x3F800000 METER_REGISTER_DATA_TYPE_FLOAT False,
     mdef 353 (Reg_Set EnergyActiveL1Export) 0x3F800000 METER_REGISTER_DATA_TYPE_FLOAT False,
     mdef 355 (Reg_Set EnergyActiveL2Export) 0x3F800000 METER_REGISTER_DATA_TYPE_FLOAT False,
     mdef 357 (Reg_Set EnergyActiveL3Export) 0x3F800000 METER_REGISTER_DATA_TYPE_FLOAT False,
     mdef 359 (Reg_Set EnergyActiveL1ImExSum) 0x3F800000 METER_REGISTER_DATA_TYPE_FLOAT False,
     mdef 361 (Reg_Set EnergyActiveL2ImExSum) 0x3F800000 METER_REGISTER_DATA_TYPE_FLOAT False,
     mdef 363 (Reg_Set EnergyActiveL3ImExSum) 0x3F800000 METER_REGISTER_DATA_TYPE_FLOAT False,
     mdef 365 (Reg_Set EnergyReactiveL1Inductive) 0x3F800000 METER_REGISTER_DATA_TYPE_FLOAT False,
     mdef 367 (Reg_Set EnergyReactiveL2Inductive) 0x3F800000 METER_REGISTER_DATA_TYPE_FLOAT False,
     mdef 369 (Reg_Set EnergyReactiveL3Inductive) 0x3F800000 METER_REGISTER_DATA_TYPE_FLOAT False,
     mdef 371 (Reg_Set EnergyReactiveL1Capacitive) 0x3F800000 METER_REGISTER_DATA_TYPE_FLOAT False,
     mdef 373 (Reg_Set EnergyReactiveL2Capacitive) 0x3F800000 METER_REGISTER_DATA_TYPE_FLOAT False,
     mdef 375 (Reg_Set EnergyReactiveL3Capacitive) 0x3F800000 METER_REGISTER_DATA_TYPE_FLOAT False,
     mdef 377 (Reg_Set EnergyReactiveL1IndCapSum) 0x3F800000 METER_REGISTER_DATA_TYPE_FLOAT False,
     mdef 379 (Reg_Set EnergyReactiveL2IndCapSum) 0x3F800000 METER_REGISTER_DATA_TYPE_FLOAT False,
     mdef 381 (Reg_Set EnergyReactiveL3IndCapSum) 0x3F800000 METER_REGISTER_DATA_TYPE_FLOAT False,
     mdef 0 (Reg_Null) 0 METER_REGISTER_DATA_TYPE_FLOAT False,
     mdef 0 (Reg_Set EnergyActiveLSumImExSumResettable) 0 METER_REGISTER_DATA_TYPE_FLOAT False,
     mdef 0 (Reg_Set EnergyActiveLSumImportResettable) 0 METER_REGISTER_DATA_TYPE_FLOAT False,
     mdef 0 (Reg_Set EnergyActiveLSumExportResettable) 0 METER_REGISTER_DATA_TYPE_FLOAT False]"

definition meter_sdm72v2 :: "meter_definition list" where
  "meter_sdm72v2 = [
     mdef 1 (Reg_Set VoltageL1N) 0x3F800000 METER_REGISTER_DATA_TYPE_FLOAT False,
     mdef 3 (Reg_Set VoltageL2N) 0x3F800000 METER_REGISTER_DATA_TYPE_FLOAT False,
     mdef 5 (Reg_Set VoltageL3N) 0x3F800000 METER_REGISTER_DATA_TYPE_FLOAT False,
     mdef 7 (Reg_Set CurrentL1ImExSum) 0x3F800000 METER_REGISTER_DATA_TYPE_FLOAT True,
     mdef 9 (Reg_Set CurrentL2ImExSum) 0x3F800000 METER_REGISTER_DATA_TYPE_FLOAT True,
     mdef 11 (Reg_Set CurrentL3ImExSum) 0x3F800000 METER_REGISTER_DATA_TYPE_FLOAT True,
     mdef 13 (Reg_Set PowerActiveL1ImExDiff) 0x3F800000 METER_REGISTER_DATA_TYPE_FLOAT False,
     mdef 15 (Reg_Set PowerActiveL2ImExDiff) 0x3F800000 METER_REGISTER_DATA_TYPE_FLOAT False,
     mdef 17 (Reg_Set PowerActiveL3ImExDiff) 0x3F800000 METER_REGISTER_DATA_TYPE_FLOAT False,
     mdef 19 (Reg_Set PowerApparentL1ImExSum) 0x3F800000 METER_REGISTER_DATA_TYPE_FLOAT False,
     mdef 21 (Reg_Set PowerApparentL2ImExSum) 0x3F800000 METER_REGISTER_DATA_TYPE_FLOAT False,
     mdef 23 (Reg_Set PowerApparentL3ImExSum) 0x3F800000 METER_REGISTER_DATA_TYPE_FLOAT False,
     mdef 25 (Reg_Set PowerReactiveL1IndCapDiff) 0x3F800000 METER_REGISTER_DATA_TYPE_FLOAT False,
     mdef 27 (Reg_Set PowerReactiveL2IndCapDiff) 0x3F800000 METER_REGISTER_DATA_TYPE_FLOAT False,
     mdef 29 (Reg_Set PowerReactiveL3IndCapDiff) 0x3F800000 METER_REGISTER_DATA_TYPE_FLOAT False,
     mdef 31 (Reg_Set PowerFactorL1Directional) 0x3F800000 METER_REGISTER_DATA_TYPE_FLOAT False,
     mdef 33 (Reg_Set PowerFactorL2Directional) 0x3F800000 METER_REGISTER_DATA_TYPE_FLOAT False,
     mdef 35 (Reg_Set PowerFactorL3Directional) 0x3F800000 METER_REGISTER_DATA_TYPE_FLOAT False,
     mdef 43 (Reg_Set VoltageLNAvg) 0x3F800000 METER_REGISTER_DATA_TYPE_FLOAT False,
     mdef 47 (Reg_Set CurrentLAvgImExSum) 0x3F800000 METER_REGISTER_DATA_TYPE_FLOAT False,
     mdef 49 (Reg_Set CurrentLSumImExSum) 0x3F800000 METER_REGISTER_DATA_TYPE_FLOAT False,
     mdef 53 (Reg_Set PowerActiveLSumImExDiff) 0x3F800000 METER_REGISTER_DATA_TYPE_FLOAT True,
     mdef 57 (Reg_Set PowerApparentLSumImExSum) 0x3F800000 METER_REGISTER_DATA_TYPE_FLOAT False,
     mdef 61 (Reg_Set PowerReactiveLSumIndCapDiff) 0x3F800000 METER_REGISTER_DATA_TYPE_FLOAT False,
     mdef 63 (Reg_Set PowerFactorLSumDirectional) 0x3F800000 METER_REGISTER_DATA_TYPE_FLOAT False,
     mdef 71 (Reg_Set FrequencyLAvg) 0x3F800000 METER_REGISTER_DATA_TYPE_FLOAT False,
     mdef 73 (Reg_Set EnergyActiveLSumImport) 0x3F800000 METER_REGISTER_DATA_TYPE_FLOAT False,
     mdef 75 (Reg_Set EnergyActiveLSumExport) 0x3F800000 METER_REGISTER_DATA_TYPE_FLOAT False,
     mdef 201 (Reg_Set VoltageL1L2) 0x3F800000 METER_REGISTER_DATA_TYPE_FLOAT False,
     mdef 203 (Reg_Set VoltageL2L3) 0x3F800000 METER_REGISTER_DATA_TYPE_FLOAT False,
     mdef 205 (Reg_Set VoltageL3L1) 0x3F800000 METER_REGISTER_DATA_TYPE_FLOAT False,
     mdef 207 (Reg_Set VoltageLLAvg) 0x3F800000 METER_REGISTER_DATA_TYPE_FLOAT False,
     mdef 225 (Reg_Set CurrentNImExSum) 0x3F800000 METER_REGISTER_DATA_TYPE_FLOAT False,
     mdef 343 (Reg_Set EnergyActiveLSumImExSum) 0x3F800000 METER_REGISTER_DATA_TYPE_FLOAT False,
     mdef 345 (Reg_Set EnergyReactiveLSumIndCapSum) 0x3F800000 METER_REGISTER_DATA_TYPE_FLOAT False,
     mdef 0 (Reg_Null) 0 METER_REGISTER_DATA_TYPE_FLOAT False,
     mdef 0 (Reg_Set EnergyActiveLSumImExSumResettable) 0 METER_REGISTER_DATA_TYPE_FLOAT False,
     mdef 0 (Reg_Set EnergyActiveLSumImportResettable) 0 METER_REGISTER_DATA_TYPE_FLOAT False,
     mdef 0 (Reg_Set EnergyActiveLSumExportResettable) 0 METER_REGISTER_DATA_TYPE_FLOAT False]"

definition meter_dsz15dzmod :: "meter_definition list" where
  "meter_dsz15dzmod = [
     mdef 1 (Reg_Set VoltageL1N) 0x3C23D70A METER_REGISTER_DATA_TYPE_INT32 False,
     mdef 3 (Reg_Set VoltageL2N) 0x3C23D70A METER_REGISTER_DATA_TYPE_INT32 False,
     mdef 5 (Reg_Set VoltageL3N) 0x3C23D70A METER_REGISTER_DATA_TYPE_INT32 False,
     mdef 7 (Reg_Set CurrentL1ImExSum) 0x3C23D70A METER_REGISTER_DATA_TYPE_INT32 True,
     mdef 9 (Reg_Set CurrentL2ImExSum) 0x3C23D70A METER_REGISTER_DATA_TYPE_INT32 True,
     mdef 11 (Reg_Set CurrentL3ImExSum) 0x3C23D70A METER_REGISTER_DATA_TYPE_INT32 True,
     mdef 13 (Reg_Set PowerActiveL1ImExDiff) 0x3F800000 METER_REGISTER_DATA_TYPE_INT32 False,
     mdef 15 (Reg_Set PowerActiveL2ImExDiff) 0x3F800000 METER_REGISTER_DATA_TYPE_INT32 False,
     mdef 17 (Reg_Set PowerActiveL3ImExDiff) 0x3F800000 METER_REGISTER_DATA_TYPE_INT32 False,
     mdef 31 (Reg_Set PowerFactorL1Directional) 0x3A83126F METER_REGISTER_DATA_TYPE_INT32 False,
     mdef 33 (Reg_Set PowerFactorL2Directional) 0x3A83126F METER_REGISTER_DATA_TYPE_INT32 False,
     mdef 35 (Reg_Set PowerFactorL3Directional) 0x3A83126F METER_REGISTER_DATA_TYPE_INT32 False,
     mdef 53 (Reg_Set PowerActiveLSumImExDiff) 0x3F800000 METER_REGISTER_DATA_TYPE_INT32 True,
     mdef 63 (Reg_Set PowerFactorLSumDirectional) 0x3A83126F METER_REGISTER_DATA_TYPE_INT32 False,
     mdef 73 (Reg_Set EnergyActiveLSumImport) 0x3C23D70A METER_REGISTER_DATA_TYPE_INT32 False,
     mdef 75 (Reg_Set EnergyActiveLSumExport) 0x3C23D70A METER_REGISTER_DATA_TYPE_INT32 False,
     mdef 0 (Reg_Null) 0 METER_REGISTER_DATA_TYPE_FLOAT False,
     mdef 0 (Reg_Set PowerApparentL1ImExSum) 0 METER_REGISTER_DATA_TYPE_FLOAT False,
     mdef 0 (Reg_Set PowerApparentL2ImExSum) 0 METER_REGISTER_DATA_TYPE_FLOAT False,
     mdef 0 (Reg_Set PowerApparentL3ImExSum) 0 METER_REGISTER_DATA_TYPE_FLOAT False,
     mdef 0 (Reg_Set PowerReactiveL1IndCapSum) 0 METER_REGISTER_DATA_TYPE_FLOAT False,
     mdef 0 (Reg_Set PowerReactiveL2IndCapSum) 0 METER_REGISTER_DATA_TYPE_FLOAT False,
     mdef 0 (Reg_Set PowerReactiveL3IndCapSum) 0 METER_REGISTER_DATA_TYPE_FLOAT False,
     mdef 0 (Reg_Set PhaseAngleL1) 0 METER_REGISTER_DATA_TYPE_FLOAT False,
     mdef 0 (Reg_Set PhaseAngleL2) 0 METER_REGISTER_DATA_TYPE_FLOAT False,
     mdef 0 (Reg_Set PhaseAngleL3) 0 METER_REGISTER_DATA_TYPE_FLOAT False,
     mdef 0 (Reg_Set CurrentNImExSum) 0 METER_REGISTER_DATA_TYPE_FLOAT False,
     mdef 0 (Reg_Set VoltageLNAvg) 0 METER_REGISTER_DATA_TYPE_FLOAT False,
     mdef 0 (Reg_Set CurrentLAvgImExSum) 0 METER_REGISTER_DATA_TYPE_FLOAT False,
     mdef 0 (Reg_Set CurrentLSumImExSum) 0 METER_REGISTER_DATA_TYPE_FLOAT False,
     mdef 0 (Reg_Set PowerApparentLSumImExSum) 0 METER_REGISTER_DATA_TYPE_FLOAT False,
     mdef 0 (Reg_Set PowerReactiveLSumIndCapSum) 0 METER_REGISTER_DATA_TYPE_FLOAT False,
     mdef 0 (Reg_Set PhaseAngleLSum) 0 METER_REGISTER_DATA_TYPE_FLOAT False,
     mdef 0 (Reg_Set EnergyActiveLSumImExSum) 0 METER_REGISTER_DATA_TYPE_FLOAT False,
     mdef 0 (Reg_Set EnergyActiveLSumImExSumResettable) 0 METER_REGISTER_DATA_TYPE_FLOAT False,
     mdef 0 (Reg_Set EnergyActiveLSumImportResettable) 0 METER_REGISTER_DATA_TYPE_FLOAT False,
     mdef 0 (Reg_Set EnergyActiveLSumExportResettable) 0 METER_REGISTER_DATA_TYPE_FLOAT False,
     mdef 0 (Reg_Set FrequencyLAvg) 0 METER_REGISTER_DATA_TYPE_FLOAT False]"

definition meter_dsz16dze :: "meter_definition list" where
  "meter_dsz16dze = [
     mdef 1 (Reg_Set VoltageL1N) 0x3C23D70A METER_REGISTER_DATA_TYPE_INT32 False,
     mdef 3 (Reg_Set VoltageL2N) 0x3C23D70A METER_REGISTER_DATA_TYPE_INT32 False,
     mdef 5 (Reg_Set VoltageL3N) 0x3C23D70A METER_REGISTER_DATA_TYPE_INT32 False,
     mdef 7 (Reg_Set CurrentL1ImExSum) 0x3C23D70A METER_REGISTER_DATA_TYPE_INT32 True,
     mdef 9 (Reg_Set CurrentL2ImExSum) 0x3C23D70A METER_REGISTER_DATA_TYPE_INT32 True,
     mdef 11 (Reg_Set CurrentL3ImExSum) 0x3C23D70A METER_REGISTER_DATA_TYPE_INT32 True,
     mdef 13 (Reg_Set PowerActiveL1ImExDiff) 0x3F800000 METER_REGISTER_DATA_TYPE_INT32 False,
     mdef 15 (Reg_Set PowerActiveL2ImExDiff) 0x3F800000 METER_REGISTER_DATA_TYPE_INT32 False,
     mdef 17 (Reg_Set PowerActiveL3ImExDiff) 0x3F800000 METER_REGISTER_DATA_TYPE_INT32 False,
     mdef 19 (Reg_Set PowerApparentL1ImExSum) 0x3F800000 METER_REGISTER_DATA_TYPE_INT32 False,
     mdef 21 (Reg_Set PowerApparentL2ImExSum) 0x3F800000 METER_REGISTER_DATA_TYPE_INT32 False,
     mdef 23 (Reg_Set PowerApparentL3ImExSum) 0x3F800000 METER_REGISTER_DATA_TYPE_INT32 False,
     mdef 25 (Reg_Set PowerReactiveL1IndCapDiff) 0x3F800000 METER_REGISTER_DATA_TYPE_INT32 False,
     mdef 27 (Reg_Set PowerReactiveL2IndCapDiff) 0x3F800000 METER_REGISTER_DATA_TYPE_INT32 False,
     mdef 29 (Reg_Set PowerReactiveL3IndCapDiff) 0x3F800000 METER_REGISTER_DATA_TYPE_INT32 False,
     mdef 31 (Reg_Set PowerFactorL1Directional) 0x3A83126F METER_REGISTER_DATA_TYPE_INT32 False,
     mdef 33 (Reg_Set PowerFactorL2Directional) 0x3A83126F METER_REGISTER_DATA_TYPE_INT32 False,
     mdef 35 (Reg_Set PowerFactorL3Directional) 0x3A83126F METER_REGISTER_DATA_TYPE_INT32 False,
     mdef 37 (Reg_Set PhaseAngleL1) 0x3A83126F METER_REGISTER_DATA_TYPE_INT32 False,
     mdef 39 (Reg_Set PhaseAngleL2) 0x3A83126F METER_REGISTER_DATA_TYPE_INT32 False,
     mdef 41 (Reg_Set PhaseAngleL3) 0x3A83126F METER_REGISTER_DATA_TYPE_INT32 False,
     mdef 53 (Reg_Set PowerActiveLSumImExDiff) 0x3F800000 METER_REGISTER_DATA_TYPE_INT32 True,
     mdef 55 (Reg_Set PowerApparentLSumImExSum) 0x3F800000 METER_REGISTER_DATA_TYPE_INT32 False,
     mdef 57 (Reg_Set PowerReactiveLSumIndCapDiff) 0x3F800000 METER_REGISTER_DATA_TYPE_INT32 False,
     mdef 63 (Reg_Set PowerFactorLSumDirectional) 0x3A83126F METER_REGISTER_DATA_TYPE_INT32 False,
     mdef 65 (Reg_Set PhaseAngleLSum) 0x3A83126F METER_REGISTER_DATA_TYPE_INT32 False,
     mdef 71 (Reg_Set FrequencyLAvg) 0x3C23D70A METER_REGISTER_DATA_TYPE_INT32 False,
     mdef 73 (Reg_Set EnergyActiveLSumImport) 0x3C23D70A METER_REGISTER_DATA_TYPE_INT32 False,
     mdef 75 (Reg_Set EnergyActiveLSumExport) 0x3C23D70A METER_REGISTER_DATA_TYPE_INT32 False,
     mdef 0 (Reg_Null) 0 METER_REGISTER_DATA_TYPE_FLOAT False,
     mdef 0 (Reg_Set PhaseAngleL1) 0 METER_REGISTER_DATA_TYPE_FLOAT False,
     mdef 0 (Reg_Set PhaseAngleL2) 0 METER_REGISTER_DATA_TYPE_FLOAT False,
     mdef 0 (Reg_Set PhaseAngleL3) 0 METER_REGISTER_DATA_TYPE_FLOAT False,
     mdef 0 (Reg_Set PhaseAngleLSum) 0 METER_REGISTER_DATA_TYPE_FLOAT False,
     mdef 0 (Reg_Set EnergyActiveLSumImExSumResettable) 0 METER_REGISTER_DATA_TYPE_FLOAT False,
     mdef 0 (Reg_Set EnergyActiveLSumImportResettable) 0 METER_REGISTER_DATA_TYPE_FLOAT False,
     mdef 0 (Reg_Set EnergyActiveLSumExportResettable) 0 METER_REGISTER_DATA_TYPE_FLOAT False]"

definition meter_dem4a :: "meter_definition list" where
  "meter_dem4a = [
     mdef 1025 (Reg_Set VoltageL1N) 0x3A83126F METER_REGISTER_DATA_TYPE_INT32 False,
     mdef 1027 (Reg_Set VoltageL2N) 0x3A83126F METER_REGISTER_DATA_TYPE_INT32 False,
     mdef 1029 (Reg_Set VoltageL3N) 0x3A83126F METER_REGISTER_DATA_TYPE_INT32 False,
     mdef 1041 (Reg_Set CurrentL1ImExSum) 0x3A83126F METER_REGISTER_DATA_TYPE_INT32 True,
     mdef 1043 (Reg_Set CurrentL2ImExSum) 0x3A83126F METER_REGISTER_DATA_TYPE_INT32 True,
     mdef 1045 (Reg_Set CurrentL3ImExSum) 0x3A83126F METER_REGISTER_DATA_TYPE_INT32 True,
     mdef 1051 (Reg_Set PowerActiveL1ImExDiff) 0x3F800000 METER_REGISTER_DATA_TYPE_INT32 False,
     mdef 1053 (Reg_Set PowerActiveL2ImExDiff) 0x3F800000 METER_REGISTER_DATA_TYPE_INT32 False,
     mdef 1055 (Reg_Set PowerActiveL3ImExDiff) 0x3F800000 METER_REGISTER_DATA_TYPE_INT32 False,
     mdef 1059 (Reg_Set PowerApparentL1ImExSum) 0x3F800000 METER_REGISTER_DATA_TYPE_INT32 False,
     mdef 1061 (Reg_Set PowerApparentL2ImExSum) 0x3F800000 METER_REGISTER_DATA_TYPE_INT32 False,
     mdef 1063 (Reg_Set PowerApparentL3ImExSum) 0x3F800000 METER_REGISTER_DATA_TYPE_INT32 False,
     mdef 1067 (Reg_Set PowerReactiveL1IndCapDiff) 0x3F800000 METER_REGISTER_DATA_TYPE_INT32 False,
     mdef 1069 (Reg_Set PowerReactiveL2IndCapDiff) 0x3F800000 METER_REGISTER_DATA_TYPE_INT32 False,
     mdef 1071 (Reg_Set PowerReactiveL3IndCapDiff) 0x3F800000 METER_REGISTER_DATA_TYPE_INT32 False,
     mdef 1079 (Reg_Set PowerFactorL1Directional) 0x3A83126F METER_REGISTER_DATA_TYPE_INT16 False,
     mdef 1080 (Reg_Set PowerFactorL2Directional) 0x3A83126F METER_REGISTER_DATA_TYPE_INT16 False,
     mdef 1081 (Reg_Set PowerFactorL3Directional) 0x3A83126F METER_REGISTER_DATA_TYPE_INT16 False,
     mdef 1037 (Reg_Set VoltageLNAvg) 0x3A83126F METER_REGISTER_DATA_TYPE_INT32 False,
     mdef 1039 (Reg_Set CurrentLAvgImExSum) 0x3A83126F METER_REGISTER_DATA_TYPE_INT32 False,
     mdef 1057 (Reg_Set PowerActiveLSumImExDiff) 0x3F800000 METER_REGISTER_DATA_TYPE_INT32 True,
     mdef 1065 (Reg_Set PowerApparentLSumImExSum) 0x3F800000 METER_REGISTER_DATA_TYPE_INT32 False,
     mdef 1073 (Reg_Set PowerReactiveLSumIndCapDiff) 0x3F800000 METER_REGISTER_DATA_TYPE_INT32 False,
     mdef 1082 (Reg_Set PowerFactorLSumDirectional) 0x3A83126F METER_REGISTER_DATA_TYPE_INT16 False,
     mdef 1078 (Reg_Set FrequencyLAvg) 0x3DCCCCCD METER_REGISTER_DATA_TYPE_INT16 False,
     mdef 271 (Reg_Set EnergyActiveLSumImport) 0x3C23D70A METER_REGISTER_DATA_TYPE_INT32 False,
     mdef 281 (Reg_Set EnergyActiveLSumExport) 0x3C23D70A METER_REGISTER_DATA_TYPE_INT32 False,
     mdef 301 (Reg_Set EnergyReactiveLSumInductive) 0x3C23D70A METER_REGISTER_DATA_TYPE_INT32 False,
     mdef 311 (Reg_Set EnergyReactiveLSumCapacitive) 0x3C23D70A METER_REGISTER_DATA_TYPE_INT32 False,
     mdef 1031 (Reg_Set VoltageL1L2) 0x3A83126F METER_REGISTER_DATA_TYPE_INT32 False,
     mdef 1033 (Reg_Set VoltageL2L3) 0x3A83126F METER_REGISTER_DATA_TYPE_INT32 False,
     mdef 1035 (Reg_Set VoltageL3L1) 0x3A83126F METER_REGISTER_DATA_TYPE_INT32 False,
     mdef 1039 (Reg_Set VoltageLLAvg) 0x3A83126F METER_REGISTER_DATA_TYPE_INT32 False,
     mdef 1047 (Reg_Set CurrentNImExSum) 0x3A83126F METER_REGISTER_DATA_TYPE_INT32 False,
     mdef 291 (Reg_Set EnergyActiveLSumImExSum) 0x3C23D70A METER_REGISTER_DATA_TYPE_INT32 False,
     mdef 0 (Reg_Null) 0 METER_REGISTER_DATA_TYPE_FLOAT False,
     mdef 0 (Reg_Set EnergyActiveLSumImExSumResettable) 0 METER_REGISTER_DATA_TYPE_FLOAT False,
     mdef 0 (Reg_Set EnergyActiveLSumImportResettable) 0 METER_REGISTER_DATA_TYPE_FLOAT False,
     mdef 0 (Reg_Set EnergyActiveLSumExportResettable) 0 METER_REGISTER_DATA_TYPE_FLOAT False]"

definition meter_dmed341mid7er :: "meter_definition list" where
  "meter_dmed341mid7er = [
     mdef 2 (Reg_Set VoltageL1N) 0x3C23D70A METER_REGISTER_DATA_TYPE_INT32 False,
     mdef 4 (Reg_Set VoltageL2N) 0x3C23D70A METER_REGISTER_DATA_TYPE_INT32 False,
     mdef 6 (Reg_Set VoltageL3N) 0x3C23D70A METER_REGISTER_DATA_TYPE_INT32 False,
     mdef 8 (Reg_Set CurrentL1ImExSum) 0x38D1B717 METER_REGISTER_DATA_TYPE_INT32 True,
     mdef 10 (Reg_Set CurrentL2ImExSum) 0x38D1B717 METER_REGISTER_DATA_TYPE_INT32 True,
     mdef 12 (Reg_Set CurrentL3ImExSum) 0x38D1B717 METER_REGISTER_DATA_TYPE_INT32 True,
     mdef 14 (Reg_Set VoltageL1L2) 0x3C23D70A METER_REGISTER_DATA_TYPE_INT32 False,
     mdef 16 (Reg_Set VoltageL2L3) 0x3C23D70A METER_REGISTER_DATA_TYPE_INT32 False,
     mdef 18 (Reg_Set VoltageL3L1) 0x3C23D70A METER_REGISTER_DATA_TYPE_INT32 False,
     mdef 20 (Reg_Set PowerActiveL1ImExDiff) 0x3C23D70A METER_REGISTER_DATA_TYPE_INT32 False,
     mdef 22 (Reg_Set PowerActiveL2ImExDiff) 0x3C23D70A METER_REGISTER_DATA_TYPE_INT32 False,
     mdef 24 (Reg_Set PowerActiveL3ImExDiff) 0x3C23D70A METER_REGISTER_DATA_TYPE_INT32 False,
     mdef 26 (Reg_Set PowerReactiveL1IndCapDiff) 0x3C23D70A METER_REGISTER_DATA_TYPE_INT32 False,
     mdef 28 (Reg_Set PowerReactiveL2IndCapDiff) 0x3C23D70A METER_REGISTER_DATA_TYPE_INT32 False,
     mdef 30 (Reg_Set PowerReactiveL3IndCapDiff) 0x3C23D70A METER_REGISTER_DATA_TYPE_INT32 False,
     mdef 32 (Reg_Set PowerApparentL1ImExSum) 0x3C23D70A METER_REGISTER_DATA_TYPE_INT32 False,
     mdef 34 (Reg_Set PowerApparentL2ImExSum) 0x3C23D70A METER_REGISTER_DATA_TYPE_INT32 False,
     mdef 36 (Reg_Set PowerApparentL3ImExSum) 0x3C23D70A METER_REGISTER_DATA_TYPE_INT32 False,
     mdef 38 (Reg_Set PowerFactorL1Directional) 0x38D1B717 METER_REGISTER_DATA_TYPE_INT32 False,
     mdef 40 (Reg_Set PowerFactorL2Directional) 0x38D1B717 METER_REGISTER_DATA_TYPE_INT32 False,
     mdef 42 (Reg_Set PowerFactorL3Directional) 0x38D1B717 METER_REGISTER_DATA_TYPE_INT32 False,
     mdef 50 (Reg_Set FrequencyLAvg) 0x3C23D70A METER_REGISTER_DATA_TYPE_INT32 False,
     mdef 58 (Reg_Set PowerActiveLSumImExDiff) 0x3C23D70A METER_REGISTER_DATA_TYPE_INT32 True,
     mdef 64 (Reg_Set PowerFactorLSumDirectional) 0x38D1B717 METER_REGISTER_DATA_TYPE_INT32 False,
     mdef 6688 (Reg_Set EnergyActiveLSumImport) 0x3A83126F METER_REGISTER_DATA_TYPE_INT32 False,
     mdef 6690 (Reg_Set EnergyActiveLSumExport) 0x3A83126F METER_REGISTER_DATA_TYPE_INT32 False,
     mdef 6692 (Reg_Set EnergyReactiveLSumInductive) 0x3A83126F METER_REGISTER_DATA_TYPE_INT32 False,
     mdef 6694 (Reg_Set EnergyReactiveLSumCapacitive) 0x3A83126F METER_REGISTER_DATA_TYPE_INT32 False,
     mdef 6708 (Reg_Set EnergyActiveL1Import) 0x3A83126F METER_REGISTER_DATA_TYPE_INT32 False,
     mdef 6710 (Reg_Set EnergyActiveL1Export) 0x3A83126F METER_REGISTER_DATA_TYPE_INT32 False,
     mdef 6712 (Reg_Set EnergyReactiveL1Inductive) 0x3A83126F METER_REGISTER_DATA_TYPE_INT32 False,
     mdef 6714 (Reg_Set EnergyReactiveL1Capacitive) 0x3A83126F METER_REGISTER_DATA_TYPE_INT32 False,
     mdef 6728 (Reg_Set EnergyActiveL2Import) 0x3A83126F METER_REGISTER_DATA_TYPE_INT32 False,
     mdef 6730 (Reg_Set EnergyActiveL2Export) 0x3A83126F METER_REGISTER_DATA_TYPE_INT32 False,
     mdef 6732 (Reg_Set EnergyReactiveL2Inductive) 0x3A83126F METER_REGISTER_DATA_TYPE_INT32 False,
     mdef 6734 (Reg_Set EnergyReactiveL2Capacitive) 0x3A83126F METER_REGISTER_DATA_TYPE_INT32 False,
     mdef 6748 (Reg_Set EnergyActiveL3Import) 0x3A83126F METER_REGISTER_DATA_TYPE_INT32 False,
     mdef 6750 (Reg_Set EnergyActiveL3Export) 0x3A83126F METER_REGISTER_DATA_TYPE_INT32 False,
     mdef 6752 (Reg_Set EnergyReactiveL3Inductive) 0x3A83126F METER_REGISTER_DATA_TYPE_INT32 False,
     mdef 6754 (Reg_Set EnergyReactiveL3Capacitive) 0x3A83126F METER_REGISTER_DATA_TYPE_INT32 False,
     mdef 0 (Reg_Null) 0 METER_REGISTER_DATA_TYPE_FLOAT False,
     mdef 0 (Reg_Set EnergyActiveLSumImExSumResettable) 0 METER_REGISTER_DATA_TYPE_FLOAT False,
     mdef 0 (Reg_Set EnergyActiveLSumImportResettable) 0 METER_REGISTER_DATA_TYPE_FLOAT False,
     mdef 0 (Reg_Set EnergyActiveLSumExportResettable) 0 METER_REGISTER_DATA_TYPE_FLOAT False]"

definition meter_wm3m4c :: "meter_definition list" where
  "meter_wm3m4c = [
     mdef 108 (Reg_Set VoltageL1N) 0x3F800000 METER_REGISTER_DATA_TYPE_T5 False,
     mdef 110 (Reg_Set VoltageL2N) 0x3F800000 METER_REGISTER_DATA_TYPE_T5 False,
     mdef 112 (Reg_Set VoltageL3N) 0x3F800000 METER_REGISTER_DATA_TYPE_T5 False,
     mdef 127 (Reg_Set CurrentL1ImExSum) 0x3F800000 METER_REGISTER_DATA_TYPE_T5 False,
     mdef 129 (Reg_Set CurrentL2ImExSum) 0x3F800000 METER_REGISTER_DATA_TYPE_T5 False,
     mdef 131 (Reg_Set CurrentL3ImExSum) 0x3F800000 METER_REGISTER_DATA_TYPE_T5 False,
     mdef 143 (Reg_Set PowerActiveL1ImExDiff) 0x3F800000 METER_REGISTER_DATA_TYPE_T6 False,
     mdef 145 (Reg_Set PowerActiveL2ImExDiff) 0x3F800000 METER_REGISTER_DATA_TYPE_T6 False,
     mdef 147 (Reg_Set PowerActiveL3ImExDiff) 0x3F800000 METER_REGISTER_DATA_TYPE_T6 False,
     mdef 159 (Reg_Set PowerApparentL1ImExSum) 0x3F800000 METER_REGISTER_DATA_TYPE_T5 False,
     mdef 161 (Reg_Set PowerApparentL2ImExSum) 0x3F800000 METER_REGISTER_DATA_TYPE_T5 False,
     mdef 163 (Reg_Set PowerApparentL3ImExSum) 0x3F800000 METER_REGISTER_DATA_TYPE_T5 False,
     mdef 151 (Reg_Set PowerReactiveL1IndCapDiff) 0x3F800000 METER_REGISTER_DATA_TYPE_T6 False,
     mdef 153 (Reg_Set PowerReactiveL2IndCapDiff) 0x3F800000 METER_REGISTER_DATA_TYPE_T6 False,
     mdef 155 (Reg_Set PowerReactiveL3IndCapDiff) 0x3F800000 METER_REGISTER_DATA_TYPE_T6 False,
     mdef 167 (Reg_Set PowerFactorL1Directional) 0x3F800000 METER_REGISTER_DATA_TYPE_T7 False,
     mdef 169 (Reg_Set PowerFactorL2Directional) 0x3F800000 METER_REGISTER_DATA_TYPE_T7 False,
     mdef 171 (Reg_Set PowerFactorL3Directional) 0x3F800000 METER_REGISTER_DATA_TYPE_T7 False,
     mdef 174 (Reg_Set PhaseAngleL1) 0x3F800000 METER_REGISTER_DATA_TYPE_T17 False,
     mdef 175 (Reg_Set PhaseAngleL2) 0x3F800000 METER_REGISTER_DATA_TYPE_T17 False,
     mdef 176 (Reg_Set PhaseAngleL3) 0x3F800000 METER_REGISTER_DATA_TYPE_T17 False,
     mdef 114 (Reg_Set VoltageLNAvg) 0x3F800000 METER_REGISTER_DATA_TYPE_T5 False,
     mdef 137 (Reg_Set CurrentLAvgImExSum) 0x3F800000 METER_REGISTER_DATA_TYPE_T5 False,
     mdef 139 (Reg_Set CurrentLSumImExSum) 0x3F800000 METER_REGISTER_DATA_TYPE_T5 False,
     mdef 141 (Reg_Set PowerActiveLSumImExDiff) 0x3F800000 METER_REGISTER_DATA_TYPE_T6 False,
     mdef 157 (Reg_Set PowerApparentLSumImExSum) 0x3F800000 METER_REGISTER_DATA_TYPE_T5 False,
     mdef 149 (Reg_Set PowerReactiveLSumIndCapDiff) 0x3F800000 METER_REGISTER_DATA_TYPE_T6 False,
     mdef 165 (Reg_Set PowerFactorLSumDirectional) 0x3F800000 METER_REGISTER_DATA_TYPE_T7 False,
     mdef 173 (Reg_Set PhaseAngleLSum) 0x3F800000 METER_REGISTER_DATA_TYPE_T17 False,
     mdef 106 (Reg_Set FrequencyLAvg) 0x3F800000 METER_REGISTER_DATA_TYPE_T5 False,
     mdef 119 (Reg_Set VoltageL1L2) 0x3F800000 METER_REGISTER_DATA_TYPE_T5 False,
     mdef 121 (Reg_Set VoltageL2L3) 0x3F800000 METER_REGISTER_DATA_TYPE_T5 False,
     mdef 123 (Reg_Set VoltageL3L1) 0x3F800000 METER_REGISTER_DATA_TYPE_T5 False,
     mdef 125 (Reg_Set VoltageLLAvg) 0x3F800000 METER_REGISTER_DATA_TYPE_T5 False,
     mdef 183 (Reg_Set VoltageTHDL1N) 0x3F800000 METER_REGISTER_DATA_TYPE_T16 False,
     mdef 184 (Reg_Set VoltageTHDL2N) 0x3F800000 METER_REGISTER_DATA_TYPE_T16 False,
     mdef 185 (Reg_Set VoltageTHDL3N) 0x3F800000 METER_REGISTER_DATA_TYPE_T16 False,
     mdef 189 (Reg_Set CurrentTHDL1) 0x3F800000 METER_REGISTER_DATA_TYPE_T16 False,
     mdef 190 (Reg_Set CurrentTHDL2) 0x3F800000 METER_REGISTER_DATA_TYPE_T16 False,
     mdef 191 (Reg_Set CurrentTHDL3) 0x3F800000 METER_REGISTER_DATA_TYPE_T16 False,
     mdef 415 (Reg_Iskra Energy_Counter_Exponent 0) 0x3F800000 METER_REGISTER_DATA_TYPE_T2 False,
     mdef 416 (Reg_Iskra Energy_Counter_Exponent 1) 0x3F800000 METER_REGISTER_DATA_TYPE_T2 False,
     mdef 419 (Reg_Iskra Energy_Counter 0) 0x3F800000 METER_REGISTER_DATA_TYPE_T3 False,
     mdef 421 (Reg_Iskra Energy_Counter 1) 0x3F800000 METER_REGISTER_DATA_TYPE_T3 False,
     mdef 435 (Reg_Iskra Energy_Counter_1000x 0) 0x3F800000 METER_REGISTER_DATA_TYPE_T3 False,
     mdef 437 (Reg_Iskra Energy_Counter_1000x 1) 0x3F800000 METER_REGISTER_DATA_TYPE_T3 False,
     mdef 5582 (Reg_Set Temperature) 0x3F800000 METER_REGISTER_DATA_TYPE_T17 False,
     mdef 5000 (Reg_Set RunTime) 0x3F800000 METER_REGISTER_DATA_TYPE_T3 False,
     mdef 0 (Reg_Null) 0 METER_REGISTER_DATA_TYPE_FLOAT False,
     mdef 0 (Reg_Set EnergyActiveLSumImExSum) 0 METER_REGISTER_DATA_TYPE_FLOAT False,
     mdef 0 (Reg_Set EnergyActiveLSumImport) 0 METER_REGISTER_DATA_TYPE_FLOAT False,
     mdef 0 (Reg_Set EnergyActiveLSumExport) 0 METER_REGISTER_DATA_TYPE_FLOAT False]"


end
