(* ===== verification/Meter_Frames.thy ===== *)
theory Meter_Frames
  imports Meter_Data
begin

text \<open>
  How \<^verbatim>\<open>warp/meter.c\<close> talks Modbus: it builds requests in the transmit ring, starts
  them, and takes the response out of the receive frame once the state machine has raised the
  callback flag.
\<close>

section \<open>Requests\<close>

abbreviation (input) MODBUS_FC_READ_HOLDING_REGISTERS :: u8 where "MODBUS_FC_READ_HOLDING_REGISTERS \<equiv> 3"
abbreviation (input) MODBUS_FC_READ_INPUT_REGISTERS :: u8 where "MODBUS_FC_READ_INPUT_REGISTERS \<equiv> 4"
abbreviation (input) MODBUS_FC_WRITE_SINGLE_REGISTER :: u8 where "MODBUS_FC_WRITE_SINGLE_REGISTER \<equiv> 6"
abbreviation (input) MODBUS_FC_WRITE_MULTIPLE_REGISTERS :: u8 where "MODBUS_FC_WRITE_MULTIPLE_REGISTERS \<equiv> 16"

definition be16 :: "u16 \<Rightarrow> u8 list" where
  "be16 w = [ucast (drop_bit 8 w), ucast (w AND 0xFF)]"

definition modbus_store_tx_frame_data_bytes :: "u8 list \<Rightarrow> rs485 \<Rightarrow> rs485 option" where
  "modbus_store_tx_frame_data_bytes data rs = ringbuffer_tx_add_all data rs"

definition modbus_store_tx_frame_data_shorts :: "u16 list \<Rightarrow> rs485 \<Rightarrow> rs485 option" where
  "modbus_store_tx_frame_data_shorts data rs = ringbuffer_tx_add_all (concat (map be16 data)) rs"

definition modbus_add_tx_frame_checksum :: "rs485 \<Rightarrow> rs485 option" where
  "modbus_add_tx_frame_checksum rs = do {
     frame \<leftarrow> mem_slice (rs_buffer rs) (rb_buffer (ringbuffer_tx rs))
       (unat (ringbuffer_get_used (ringbuffer_tx rs)));
     let checksum = crc16_modbus frame;
     ringbuffer_tx_add_all [ucast (checksum AND 0xFF), ucast (drop_bit 8 checksum)] rs
   }"

text \<open>Registers are numbered from one, addresses from zero.\<close>

definition modbus_store_tx_header :: "u8 \<Rightarrow> u8 \<Rightarrow> u16 \<Rightarrow> rs485 \<Rightarrow> rs485 option" where
  "modbus_store_tx_header slave_address fc starting_address rs = do {
     rs1 \<leftarrow> modbus_store_tx_frame_data_bytes [slave_address] rs;
     rs2 \<leftarrow> modbus_store_tx_frame_data_bytes [fc] rs1;
     modbus_store_tx_frame_data_shorts [starting_address - 1] rs2
   }"

definition modbus_start_tx :: "u32 \<Rightarrow> u16 \<Rightarrow> rs \<Rightarrow> rs option" where
  "modbus_start_tx tick response_length s = (case s of (rs, u) \<Rightarrow> do {
     rs1 \<leftarrow> modbus_add_tx_frame_checksum rs;
     let rs2 = modbus_init_new_request MODBUS_REQUEST_PROCESS_STATE_MASTER_WAITING_RESPONSE response_length rs1;
     let rs3 = upd_request (\<lambda>r. r \<lparr> time_ref_master_request_timeout := system_timer_get_ms tick \<rparr>) rs2;
     Some (modbus_start_tx_from_buffer (modbus_start_tx_from_buffer (rs3, u)))
   })"

definition meter_read_registers :: "u32 \<Rightarrow> u8 \<Rightarrow> u8 \<Rightarrow> u16 \<Rightarrow> u16 \<Rightarrow> rs \<Rightarrow> rs option" where
  "meter_read_registers tick fc slave_address starting_address count s = (case s of (rs, u) \<Rightarrow> do {
     rs1 \<leftarrow> modbus_store_tx_header slave_address fc starting_address rs;
     rs2 \<leftarrow> modbus_store_tx_frame_data_shorts [count] rs1;
     modbus_start_tx tick 10 (rs2, u)
   })"

definition meter_write_register :: "u32 \<Rightarrow> u8 \<Rightarrow> u8 \<Rightarrow> u16 \<Rightarrow> u32 \<Rightarrow> rs \<Rightarrow> rs option" where
  "meter_write_register tick fc slave_address starting_address payload s = (case s of (rs, u) \<Rightarrow> do {
     let u16_0 = ucast payload;
     let u16_1 = ucast (drop_bit 16 payload);
     rs1 \<leftarrow> modbus_store_tx_header slave_address fc starting_address rs;
     rs2 \<leftarrow> (if fc = MODBUS_FC_WRITE_MULTIPLE_REGISTERS then do {
         a \<leftarrow> modbus_store_tx_frame_data_shorts [2] rs1;
         b \<leftarrow> modbus_store_tx_frame_data_bytes [4] a;
         c \<leftarrow> modbus_store_tx_frame_data_shorts [u16_1] b;
         modbus_store_tx_frame_data_shorts [u16_0] c
       }
       else if fc = MODBUS_FC_WRITE_SINGLE_REGISTER
       then modbus_store_tx_frame_data_shorts [u16_0] rs1
       else Some rs1);
     modbus_start_tx tick 13 (rs2, u)
   })"

definition meter_write_string :: "u32 \<Rightarrow> u8 \<Rightarrow> u16 \<Rightarrow> u8 list \<Rightarrow> u8 \<Rightarrow> rs \<Rightarrow> rs option" where
  "meter_write_string tick slave_address starting_address payload payload_count s = (case s of (rs, u) \<Rightarrow> do {
     rs1 \<leftarrow> modbus_store_tx_header slave_address MODBUS_FC_WRITE_MULTIPLE_REGISTERS starting_address rs;
     rs2 \<leftarrow> modbus_store_tx_frame_data_shorts [ucast (payload_count div 2)] rs1;
     rs3 \<leftarrow> modbus_store_tx_frame_data_bytes [payload_count] rs2;
     data \<leftarrow> mem_slice payload 0 (unat payload_count);
     rs4 \<leftarrow> modbus_store_tx_frame_data_bytes data rs3;
     modbus_start_tx tick 13 (rs4, u)
   })"

section \<open>Responses\<close>

text \<open>
  The requesting part of a meter state: transmit and receive state, with the two fields of the
  meter that the response functions touch.
\<close>

definition meter_reset_error_counter :: "meter_sys \<Rightarrow> meter_sys" where
  "meter_reset_error_counter = upd_rs (upd_counters (\<lambda>c. c \<lparr> ec_illegal_function := 0,
     ec_illegal_data_address := 0, ec_illegal_data_value := 0, ec_slave_device_failure := 0,
     ec_timeout := 0 \<rparr>))"

definition count_exception :: "u8 \<Rightarrow> error_counters \<Rightarrow> error_counters" where
  "count_exception ec c =
     (if ec = 1 then c \<lparr> ec_illegal_function := ec_illegal_function c + 1 \<rparr>
      else if ec = 2 then c \<lparr> ec_illegal_data_address := ec_illegal_data_address c + 1 \<rparr>
      else if ec = 3 then c \<lparr> ec_illegal_data_value := ec_illegal_data_value c + 1 \<rparr>
      else if ec = 4 then c \<lparr> ec_slave_device_failure := ec_slave_device_failure c + 1 \<rparr>
      else c)"

definition meter_has_errors :: "u32 \<Rightarrow> meter_sys \<Rightarrow> (bool \<times> meter_sys) option" where
  "meter_has_errors tick s =
     (let rs = ms_rs s in
      if master_request_timed_out (req rs)
      then Some (True, upd_meter (\<lambda>m. m \<lparr> m_error_wait_time := system_timer_get_ms tick \<rparr>) s)
      else do {
        rx1 \<leftarrow> arr_get (rs_buffer rs) (rx_frame (req rs) + 1);
        tx1 \<leftarrow> arr_get (rs_buffer rs) (tx_frame (req rs) + 1);
        if unat rx1 = unat tx1 + 0x80 then do {
          ec \<leftarrow> arr_get (rs_buffer rs) (rx_frame (req rs) + 2);
          Some (True, upd_rs (upd_counters (count_exception ec)) s)
        }
        else Some (False, s)
      })"

definition meter_is_response_ready :: "u8 \<Rightarrow> rs485 \<Rightarrow> bool option" where
  "meter_is_response_ready fc rs =
     (if mode rs \<noteq> MODE_MODBUS_MASTER_RTU \<or>
         req_state (req rs) \<noteq> MODBUS_REQUEST_PROCESS_STATE_MASTER_WAITING_RESPONSE
      then Some False
      else do {
        tx1 \<leftarrow> arr_get (rs_buffer rs) (tx_frame (req rs) + 1);
        Some (tx1 = fc \<and> cb_invoke (req rs))
      })"

text \<open>
  What a read response writes through its untyped pointer: nothing after an error, one 16 bit
  value, or a number of 32 bit values.
\<close>

datatype response_data = Nothing_Written | Written_16 u16 | Written_32 "u32 list"

definition be_word :: "u8 list \<Rightarrow> nat \<Rightarrow> u32 option" where
  "be_word mem p = do {
     d0 \<leftarrow> arr_get mem p; d1 \<leftarrow> arr_get mem (p + 1);
     d2 \<leftarrow> arr_get mem (p + 2); d3 \<leftarrow> arr_get mem (p + 3);
     Some (push_bit 24 (ucast d0) OR push_bit 16 (ucast d1) OR push_bit 8 (ucast d2) OR ucast d3)
   }"

fun be_words :: "u8 list \<Rightarrow> nat \<Rightarrow> nat \<Rightarrow> u32 list option" where
  "be_words mem p 0 = Some []"
| "be_words mem p (Suc n) = do { w \<leftarrow> be_word mem p; ws \<leftarrow> be_words mem (p + 4) n; Some (w # ws) }"

definition meter_get_read_registers_response ::
  "u32 \<Rightarrow> u8 \<Rightarrow> u8 \<Rightarrow> meter_sys \<Rightarrow> (bool \<times> response_data \<times> meter_sys) option" where
  "meter_get_read_registers_response tick fc count s = do {
     ready \<leftarrow> meter_is_response_ready fc (ms_rs s);
     if \<not> ready then Some (False, Nothing_Written, s)
     else do {
       (errors, s1) \<leftarrow> meter_has_errors tick s;
       if errors then Some (True, Nothing_Written, s1)
       else do {
         let s2 = upd_meter (\<lambda>m. m \<lparr> m_available := True \<rparr>) s1;
         let mem = rs_buffer (ms_rs s2);
         let d = rx_frame (req (ms_rs s2)) + 3;
         data \<leftarrow> (if count = 1 then do {
             d0 \<leftarrow> arr_get mem d; d1 \<leftarrow> arr_get mem (d + 1);
             Some (Written_16 (push_bit 8 (ucast d0) OR ucast d1))
           }
           else if count = 2 then map_option (\<lambda>w. Written_32 [w]) (be_word mem d)
           else map_option Written_32 (be_words mem d (unat count div 2)));
         Some (True, data, s2)
       }
     }
   }"

definition meter_get_read_registers_response_string ::
  "u32 \<Rightarrow> u8 \<Rightarrow> u8 \<Rightarrow> meter_sys \<Rightarrow> (bool \<times> u8 list option \<times> meter_sys) option" where
  "meter_get_read_registers_response_string tick fc count s = do {
     ready \<leftarrow> meter_is_response_ready fc (ms_rs s);
     if \<not> ready then Some (False, None, s)
     else do {
       (errors, s1) \<leftarrow> meter_has_errors tick s;
       if errors then Some (True, None, s1)
       else do {
         let s2 = upd_meter (\<lambda>m. m \<lparr> m_available := True \<rparr>) s1;
         data \<leftarrow> mem_slice (rs_buffer (ms_rs s2)) (rx_frame (req (ms_rs s2)) + 3) (unat count);
         Some (True, Some data, s2)
       }
     }
   }"

definition meter_get_write_register_response :: "u32 \<Rightarrow> u8 \<Rightarrow> meter_sys \<Rightarrow> (bool \<times> meter_sys) option" where
  "meter_get_write_register_response tick fc s = do {
     ready \<leftarrow> meter_is_response_ready fc (ms_rs s);
     if \<not> ready then Some (False, s)
     else do {
       (errors, s1) \<leftarrow> meter_has_errors tick s;
       Some (True, s1)
     }
   }"

section \<open>What a request looks like on the line\<close>

lemma tx_add_append:
  "ringbuffer_tx_add_all (xs @ ys) rs = do { rs1 \<leftarrow> ringbuffer_tx_add_all xs rs; ringbuffer_tx_add_all ys rs1 }"
proof (induction xs arbitrary: rs)
  case (Cons x xs)
  then show ?case by (cases "ringbuffer_add (rs_buffer rs) (ringbuffer_tx rs) x") (auto split: prod.splits)
qed simp

text \<open>An unread transmit ring lies at the start of its region.\<close>

lemma tx_frame_contents:
  assumes wf: "rs485_wf rs" and start: "rb_start (ringbuffer_tx rs) = 0"
  shows "take (length (tx_contents rs)) (tx_region rs) = tx_contents rs"
proof -
  note m = rs485_wf_memory[OF wf]
  have size: "unat (rb_size (ringbuffer_tx rs)) = length (rs_buffer rs) - unat (buffer_size_rx rs)"
    using wf m unat_tx_size[OF m(1)] by (simp add: rs485_wf_def)
  have used: "rb_used (ringbuffer_tx rs) < length (rs_buffer rs) - unat (buffer_size_rx rs)"
    using rb_used_bound[OF m(7)] m(3) by (simp add: rb_capacity_def size)
  show ?thesis
  proof (rule nth_equalityI)
    show "length (take (length (tx_contents rs)) (tx_region rs)) = length (tx_contents rs)"
      using used by (simp add: tx_contents_def)
    fix i assume "i < length (take (length (tx_contents rs)) (tx_region rs))"
    then have "i < rb_used (ringbuffer_tx rs)" by (simp add: tx_contents_def)
    with used start m(10) show "take (length (tx_contents rs)) (tx_region rs) ! i = tx_contents rs ! i"
      by (simp add: tx_contents_def rb_contents_def rb_slot_def size)
  qed
qed

definition framed :: "u8 list \<Rightarrow> u8 list" where
  "framed body = body @ le16 (crc16_modbus body)"

lemma crc_framed: "crc16_modbus (framed body) = 0"
  using crc16_modbus_frame_check_rule[of body] un_le16_le16[of "crc16_modbus body"]
  by (simp add: framed_def le16_def)

lemma le16_masked: "[ucast (c AND 0xFF), ucast (drop_bit 8 c)] = le16 c"
  unfolding le16_def by (auto intro!: bit_word_eqI simp: byte_mask bit_simps)

lemma add_checksum_ok:
  assumes wf: "rs485_wf rs" and start: "rb_start (ringbuffer_tx rs) = 0"
    and room: "length (tx_contents rs) + 2 < length (rs_buffer rs) - unat (buffer_size_rx rs)"
  shows "\<exists>rs'. modbus_add_tx_frame_checksum rs = Some rs' \<and> rs485_wf rs' \<and>
    tx_contents rs' = framed (tx_contents rs) \<and>
    (\<exists>mem rb. rs' = rs \<lparr> rs_buffer := mem, ringbuffer_tx := rb \<rparr> \<and> rb_start rb = 0)"
proof -
  note m = rs485_wf_memory[OF wf]
  have used: "unat (ringbuffer_get_used (ringbuffer_tx rs)) = length (tx_contents rs)"
    by (simp add: unat_get_used[OF m(7)] tx_contents_def)
  have "mem_slice (rs_buffer rs) (rb_buffer (ringbuffer_tx rs)) (length (tx_contents rs)) = Some (tx_contents rs)"
    using room m(10) tx_frame_contents[OF wf start] by (simp add: mem_slice_def)
  moreover have "length (tx_contents rs) + length (le16 (crc16_modbus (tx_contents rs)))
      < length (rs_buffer rs) - unat (buffer_size_rx rs)"
    using room by simp
  from tx_add_ok[OF wf this] obtain rs' where "ringbuffer_tx_add_all (le16 (crc16_modbus (tx_contents rs))) rs = Some rs'"
    "rs485_wf rs'" "tx_contents rs' = framed (tx_contents rs)"
    "\<exists>mem rb. rs' = rs \<lparr> rs_buffer := mem, ringbuffer_tx := rb \<rparr> \<and> rb_start rb = 0"
    using start unfolding framed_def by auto
  ultimately show ?thesis
    by (simp add: modbus_add_tx_frame_checksum_def used Let_def le16_masked del: ringbuffer_tx_add_all.simps)
qed

text \<open>A request in progress: started, waiting, with the given bytes in the transmit ring.\<close>

definition request_started :: "u32 \<Rightarrow> u8 list \<Rightarrow> rs \<Rightarrow> bool" where
  "request_started tick frame s \<longleftrightarrow> (case s of (rs, u) \<Rightarrow> rs485_wf rs \<and> tx_contents rs = frame \<and>
     waiting_response rs \<and> state_wire (modbus_rtu rs) = MODBUS_RTU_WIRE_STATE_TX \<and>
     time_ref_master_request_timeout (req rs) = tick \<and> tx_event_enabled u \<and> tx_irq_requested u \<and>
     (mode rs = MODE_MODBUS_MASTER_RTU \<longrightarrow> \<not> cb_invoke (req rs)))"

lemma start_tx_ok:
  assumes wf: "rs485_wf rs" and start: "rb_start (ringbuffer_tx rs) = 0"
    and room: "length (tx_contents rs) + 2 < length (rs_buffer rs) - unat (buffer_size_rx rs)"
  shows "\<exists>s'. modbus_start_tx tick n (rs, u) = Some s' \<and>
    request_started tick (framed (tx_contents rs)) s' \<and> line_out (snd s') = line_out u"
proof -
  obtain rs1 where r1: "modbus_add_tx_frame_checksum rs = Some rs1" "rs485_wf rs1"
    "tx_contents rs1 = framed (tx_contents rs)"
    using add_checksum_ok[OF assms] by blast
  define rs3 where "rs3 = upd_request (\<lambda>r. r \<lparr> time_ref_master_request_timeout := tick \<rparr>)
     (modbus_init_new_request MODBUS_REQUEST_PROCESS_STATE_MASTER_WAITING_RESPONSE n rs1)"
  have wf3: "rs485_wf rs3" using r1(2) by (simp add: rs3_def)
  have r3: "tx_contents rs3 = framed (tx_contents rs)" "waiting_response rs3"
    "time_ref_master_request_timeout (req rs3) = tick"
    "mode rs3 = MODE_MODBUS_MASTER_RTU \<Longrightarrow> \<not> cb_invoke (req rs3)"
    using r1 by (simp_all add: rs3_def modbus_init_new_request_def upd_request_def upd_rtu_def tx_contents_def)
  let ?s = "modbus_start_tx_from_buffer (modbus_start_tx_from_buffer (rs3, u))"
  have "rs485_wf (fst ?s)" using wf3 by simp
  then have "request_started tick (framed (tx_contents rs)) ?s" "line_out (snd ?s) = line_out u"
    using r3 by (auto simp: request_started_def modbus_start_tx_from_buffer_def upd_rtu_def tx_contents_def)
  then show ?thesis
    using r1(1) by (simp add: modbus_start_tx_def rs3_def Let_def system_timer_get_ms_def)
qed

lemma store_and_start:
  assumes wf: "rs485_wf rs" and idle: "tx_contents rs = []" "rb_start (ringbuffer_tx rs) = 0"
    and room: "length body + 2 < length (rs_buffer rs) - unat (buffer_size_rx rs)"
  shows "\<exists>s'. (do { rs1 \<leftarrow> ringbuffer_tx_add_all body rs; modbus_start_tx tick n (rs1, u) }) = Some s' \<and>
    request_started tick (framed body) s' \<and> line_out (snd s') = line_out u"
proof -
  obtain rs1 where r1: "ringbuffer_tx_add_all body rs = Some rs1" "rs485_wf rs1" "tx_contents rs1 = body"
    "length (rs_buffer rs1) = length (rs_buffer rs)" "buffer_size_rx rs1 = buffer_size_rx rs"
    "rb_start (ringbuffer_tx rs1) = 0"
    using tx_add_ok[OF wf, of body] room idle by auto
  then show ?thesis
    using start_tx_ok[of rs1 tick n u] room by simp
qed

text \<open>The three kinds of request frames, without their checksum.\<close>

definition read_request :: "u8 \<Rightarrow> u8 \<Rightarrow> u16 \<Rightarrow> u16 \<Rightarrow> u8 list" where
  "read_request fc slave reg count = [slave, fc] @ be16 (reg - 1) @ be16 count"

definition write_request :: "u8 \<Rightarrow> u8 \<Rightarrow> u16 \<Rightarrow> u32 \<Rightarrow> u8 list" where
  "write_request fc slave reg payload = [slave, fc] @ be16 (reg - 1) @
     (if fc = 16 then be16 2 @ [4] @ be16 (ucast (drop_bit 16 payload)) @ be16 (ucast payload)
      else if fc = 6 then be16 (ucast payload) else [])"

lemma store_defs:
  "modbus_store_tx_header a fc reg rs = ringbuffer_tx_add_all ([a, fc] @ be16 (reg - 1)) rs"
  "modbus_store_tx_frame_data_shorts [x] rs = ringbuffer_tx_add_all (be16 x) rs"
  "modbus_store_tx_frame_data_bytes bs rs = ringbuffer_tx_add_all bs rs"
proof -
  have "ringbuffer_tx_add_all ([a] @ [fc] @ be16 (reg - 1)) rs = do {
      rs1 \<leftarrow> ringbuffer_tx_add_all [a] rs; rs2 \<leftarrow> ringbuffer_tx_add_all [fc] rs1;
      ringbuffer_tx_add_all (be16 (reg - 1)) rs2 }"
    by (simp only: tx_add_append)
  then show "modbus_store_tx_header a fc reg rs = ringbuffer_tx_add_all ([a, fc] @ be16 (reg - 1)) rs"
    by (simp add: modbus_store_tx_header_def modbus_store_tx_frame_data_shorts_def
        modbus_store_tx_frame_data_bytes_def del: ringbuffer_tx_add_all.simps)
qed (simp_all add: modbus_store_tx_frame_data_shorts_def modbus_store_tx_frame_data_bytes_def
    del: ringbuffer_tx_add_all.simps)

lemma meter_read_registers_store:
  "meter_read_registers tick fc slave reg count (rs, u) =
     do { rs1 \<leftarrow> ringbuffer_tx_add_all (read_request fc slave reg count) rs; modbus_start_tx tick 10 (rs1, u) }"
proof -
  have "ringbuffer_tx_add_all ((slave # fc # be16 (reg - 1)) @ be16 count) rs = do {
      rs1 \<leftarrow> ringbuffer_tx_add_all (slave # fc # be16 (reg - 1)) rs; ringbuffer_tx_add_all (be16 count) rs1 }"
    by (simp only: tx_add_append)
  then show ?thesis
    by (simp add: meter_read_registers_def store_defs read_request_def del: ringbuffer_tx_add_all.simps)
qed

lemma meter_write_register_store:
  "meter_write_register tick fc slave reg payload (rs, u) =
     do { rs1 \<leftarrow> ringbuffer_tx_add_all (write_request fc slave reg payload) rs; modbus_start_tx tick 13 (rs1, u) }"
proof -
  let ?hd = "slave # fc # be16 (reg - 1)"
  let ?hi = "be16 (ucast (drop_bit 16 payload))" and ?lo = "be16 (ucast payload)"
  have "ringbuffer_tx_add_all (?hd @ be16 2 @ [4] @ ?hi @ ?lo) rs = do {
      rs1 \<leftarrow> ringbuffer_tx_add_all ?hd rs; a \<leftarrow> ringbuffer_tx_add_all (be16 2) rs1;
      b \<leftarrow> ringbuffer_tx_add_all [4] a; c \<leftarrow> ringbuffer_tx_add_all ?hi b; ringbuffer_tx_add_all ?lo c }"
    by (simp only: tx_add_append)
  moreover have "ringbuffer_tx_add_all (?hd @ ?lo) rs = do {
      rs1 \<leftarrow> ringbuffer_tx_add_all ?hd rs; ringbuffer_tx_add_all ?lo rs1 }"
    by (simp only: tx_add_append)
  ultimately show ?thesis
    by (cases "fc = 16"; cases "fc = 6")
      (simp_all add: meter_write_register_def store_defs write_request_def Let_def
        del: ringbuffer_tx_add_all.simps)
qed

text \<open>C22. A register request leaves the firmware as the Modbus frame it must be: with an idle
  transmit ring and room for it, meter\_read\_registers and meter\_write\_register start a request
  whose frame is slave address, function code, zero-based register address and count (or values),
  big-endian, and the checksum; the transmit interrupt then sends exactly these bytes.\<close>

theorem meter_request_on_line:
  assumes wf: "rs485_wf rs" and idle: "tx_contents rs = []" "rb_start (ringbuffer_tx rs) = 0"
    and size: "unat (buffer_size_rx rs) + 15 < length (rs_buffer rs)" and room: "13 < room"
  shows "\<exists>s1 rs2 u2 s3 rs4 u4.
    meter_read_registers tick fc slave reg count (rs, u) = Some s1 \<and>
    request_started tick (framed (read_request fc slave reg count)) s1 \<and>
    rs485_tx_irq_handler room s1 = Some (rs2, u2) \<and> tx_done (modbus_rtu rs2) \<and>
    line_out u2 = line_out u @ framed (read_request fc slave reg count) \<and>
    meter_write_register tick fc slave reg payload (rs, u) = Some s3 \<and>
    request_started tick (framed (write_request fc slave reg payload)) s3 \<and>
    rs485_tx_irq_handler room s3 = Some (rs4, u4) \<and> tx_done (modbus_rtu rs4) \<and>
    line_out u4 = line_out u @ framed (write_request fc slave reg payload)"
proof -
  have send: "\<exists>rs' u'. rs485_tx_irq_handler room s = Some (rs', u') \<and> tx_done (modbus_rtu rs') \<and>
      line_out u' = line_out u @ framed body"
    if "request_started tick (framed body) s" "line_out (snd s) = line_out u" "length body \<le> 11" for s body
  proof -
    obtain r v where s: "s = (r, v)" by fastforce
    with that have "rs485_wf r" "tx_contents r = framed body" by (simp_all add: request_started_def)
    moreover have "length (framed body) < room" using that(3) room by (simp add: framed_def)
    ultimately show ?thesis
      using tx_loop_ok[of r room "RS485_HALF_DUPLEX_TX_ENABLE r v"] that(2) s
      by (auto simp: rs485_tx_irq_handler_def RS485_HALF_DUPLEX_TX_ENABLE_def)
  qed
  have len: "length (read_request fc slave reg count) \<le> 11" "length (write_request fc slave reg payload) \<le> 11"
    by (simp_all add: read_request_def write_request_def be16_def)
  have fits: "length (read_request fc slave reg count) + 2 < length (rs_buffer rs) - unat (buffer_size_rx rs)"
    "length (write_request fc slave reg payload) + 2 < length (rs_buffer rs) - unat (buffer_size_rx rs)"
    using len size by linarith+
  obtain s1 where s1: "meter_read_registers tick fc slave reg count (rs, u) = Some s1"
    "request_started tick (framed (read_request fc slave reg count)) s1" "line_out (snd s1) = line_out u"
    using store_and_start[OF wf idle fits(1), of tick 10 u]
    unfolding meter_read_registers_store by blast
  obtain s3 where s3: "meter_write_register tick fc slave reg payload (rs, u) = Some s3"
    "request_started tick (framed (write_request fc slave reg payload)) s3" "line_out (snd s3) = line_out u"
    using store_and_start[OF wf idle fits(2), of tick 13 u]
    unfolding meter_write_register_store by blast
  from send[OF s1(2,3) len(1)] send[OF s3(2,3) len(2)] s1 s3 show ?thesis by blast
qed

definition idle_master :: rs485 where
  "idle_master = (rs485_blank (replicate 64 0))
     \<lparr> mode := MODE_MODBUS_MASTER_RTU, buffer_size_rx := 32, ringbuffer_rx := ringbuffer_init 32 0,
       ringbuffer_tx := ringbuffer_init 32 32,
       modbus_rtu := (modbus_rtu (rs485_blank []))
         \<lparr> request := (req (rs485_blank [])) \<lparr> tx_frame := 32 \<rparr> \<rparr> \<rparr>"

lemma idle_master_ok:
  "rs485_wf idle_master" "tx_contents idle_master = []" "rb_start (ringbuffer_tx idle_master) = 0"
  "unat (buffer_size_rx idle_master) + 15 < length (rs_buffer idle_master)"
  by (simp_all add: rs485_wf_def idle_master_def rs485_blank_def RS485_BUFFER_SIZE_def rb_wf_def
      ringbuffer_init_def tx_contents_def rb_contents_def rb_used_def)

lemma meter_request_on_line_witness:
  "\<forall>u. \<exists>s1. meter_read_registers 5 4 1 31 2 (idle_master, u) = Some s1 \<and>
     request_started 5 (framed [1, 4, 0, 30, 0, 2]) s1"
proof
  fix u
  have "read_request 4 1 31 2 = [1, 4, 0, 30, 0, 2]"
    by (simp add: read_request_def be16_def)
  then show "\<exists>s1. meter_read_registers 5 4 1 31 2 (idle_master, u) = Some s1 \<and>
     request_started 5 (framed [1, 4, 0, 30, 0, 2]) s1"
    using meter_request_on_line[OF idle_master_ok, of 14 5 4 1 31 2 u 0] by auto
qed

section \<open>What a response means\<close>

definition be32 :: "u32 \<Rightarrow> u8 list" where
  "be32 w = [ucast (drop_bit 24 w), ucast (drop_bit 16 w), ucast (drop_bit 8 w), ucast w]"

lemma length_be32 [simp]: "length (be32 w) = 4"
  by (simp add: be32_def)

lemma be32_value:
  "push_bit 24 (ucast (be32 w ! 0)) OR push_bit 16 (ucast (be32 w ! 1)) OR
   push_bit 8 (ucast (be32 w ! 2)) OR ucast (be32 w ! 3) = w"
proof -
  have "(push_bit 24 (ucast (be32 w ! 0)) OR push_bit 16 (ucast (be32 w ! 1)) OR
      push_bit 8 (ucast (be32 w ! 2)) OR ucast (be32 w ! 3)) =
    un_le32 (le32 w ! 0) (le32 w ! 1) (le32 w ! 2) (le32 w ! 3)"
    by (simp add: be32_def un_le32_def le32_def or.assoc or.commute or.left_commute)
  then show ?thesis by (simp only: un_le32_le32)
qed

lemma be_word_be32:
  assumes "take 4 (drop p mem) = be32 w"
  shows "be_word mem p = Some w"
proof -
  have len: "p + 4 \<le> length mem"
    using arg_cong[OF assms, of length] by simp
  have nth: "mem ! (p + i) = be32 w ! i" if "i < 4" for i
    using arg_cong[OF assms, of "\<lambda>l. l ! i"] that len by simp
  have "mem ! p = be32 w ! 0" "mem ! (p + 1) = be32 w ! 1" "mem ! (p + 2) = be32 w ! 2" "mem ! (p + 3) = be32 w ! 3"
    using nth[of 0] nth[of 1] nth[of 2] nth[of 3] by simp_all
  then show ?thesis
    using len be32_value[of w] by (simp add: be_word_def arr_get_def)
qed

lemma be_words_be32:
  assumes "take (4 * length ws) (drop p mem) = concat (map be32 ws)"
  shows "be_words mem p (length ws) = Some ws"
  using assms
proof (induction ws arbitrary: p)
  case (Cons w ws)
  have eq: "take (4 + 4 * length ws) (drop p mem) = be32 w @ concat (map be32 ws)"
    using Cons.prems by simp
  have "take 4 (drop p mem) = be32 w"
    using arg_cong[OF eq, of "take 4"] by simp
  moreover have "take (4 * length ws) (drop (p + 4) mem) = concat (map be32 ws)"
    using arg_cong[OF eq, of "drop 4"] by (simp add: drop_take add.commute)
  ultimately show ?case
    using Cons.IH by (simp add: be_word_be32)
qed simp

text \<open>C23. A slave's answer is read back exactly: when the answer to the pending request is ready
  and not a timeout, and its data are 32 bit values in big-endian order behind address, function
  code and byte count, meter\_get\_read\_registers\_response delivers these values and marks the
  meter as available.\<close>

theorem meter_response_decoded:
  assumes wf: "rs485_wf (ms_rs s)" and ready: "meter_is_response_ready fc (ms_rs s) = Some True"
    and fresh: "\<not> master_request_timed_out (req (ms_rs s))"
    and ws: "ws \<noteq> []" "2 * length ws < 256" "unat count = 2 * length ws"
    and frame: "take (3 + 4 * length ws) (rs_buffer (ms_rs s)) = [slave, fc, bytes] @ concat (map be32 ws)"
  shows "meter_get_read_registers_response tick fc count s =
    Some (True, Written_32 ws, upd_meter (\<lambda>m. m \<lparr> m_available := True \<rparr>) s)"
proof -
  let ?rs = "ms_rs s"
  note m = rs485_wf_memory[OF wf]
  have in_buf: "1 < length (rs_buffer ?rs)" "unat (buffer_size_rx ?rs) + 1 < length (rs_buffer ?rs)"
    using m by linarith+
  have rx1: "rs_buffer ?rs ! 1 = fc"
    using arg_cong[OF frame, of "\<lambda>l. l ! 1"] by simp
  have tx1: "rs_buffer ?rs ! (unat (buffer_size_rx ?rs) + 1) = fc"
    using ready in_buf m(5) by (auto simp: meter_is_response_ready_def arr_get_def split: if_splits)
  have ok: "meter_has_errors tick s = Some (False, s)"
    using fresh m in_buf rx1 tx1 by (simp add: meter_has_errors_def arr_get_def)
  have data: "take (4 * length ws) (drop 3 (rs_buffer ?rs)) = concat (map be32 ws)"
    using arg_cong[OF frame, of "drop 3"] by (simp add: drop_take)
  have "count \<noteq> 1" using ws by (auto simp: word_unat_eq_iff)
  moreover have "be_word (rs_buffer ?rs) 3 = Some (hd ws) \<and> ws = [hd ws]" if "count = 2"
  proof -
    have "length ws = 1" using ws that by simp
    then obtain w where "ws = [w]" by (metis One_nat_def length_0_conv length_Suc_conv)
    then show ?thesis using data by (simp add: be_word_be32)
  qed
  moreover have "be_words (rs_buffer ?rs) 3 (unat count div 2) = Some ws"
    using be_words_be32[OF data] ws by simp
  ultimately show ?thesis
    using ready ok m(4)
    by (auto simp: meter_get_read_registers_response_def Let_def upd_meter_def)
qed

definition meter_blank :: meter where
  "meter_blank = \<lparr> m_type = METER_TYPE_UNKNOWN, m_slave_address = 0, m_state = 0,
     m_register_full_position = 0, m_register_fast_position = 0, m_register_fast_time = 0,
     m_available = False, m_reset_energy_meter = False, m_each_value_read_once = False,
     m_timeout = 0, m_first_tick = 0, m_error_wait_time = 0, m_system_type_write = 0,
     m_system_type_read = 0, m_new_system_type = False, m_phases_connected = [False, False, False],
     m_new_fast_value_callback = False, m_relative_energy_sum = 0, m_relative_energy_import = 0,
     m_relative_energy_export = 0, m_current_meter = [], m_current_meter_size = 0,
     m_current_meter_index = 0, m_current_meter_definition_size = 0 \<rparr>"

definition meter_sys_blank :: "rs485 \<Rightarrow> uart \<Rightarrow> meter_sys" where
  "meter_sys_blank rs u = \<lparr> ms_rs = rs, ms_uart = u, ms_meter = meter_blank,
     ms_set = replicate METER_REGISTER_NUM 0,
     ms_iskra = \<lparr> energy_counter_exponent = [0, 0], energy_counter = [0, 0],
       energy_counter_1000x = [0, 0], measurement_status = 0, signature_status = 0,
       fast_state = 0, fast_active = False, fast_start_time = 0 \<rparr>,
     ms_find_state = 0, ms_generic_find = 0, ms_eastron_find = 0, ms_eltako_find = 0,
     ms_iskra_find = 0, ms_generic_fast = False, ms_eastron_fast = False, ms_eltako_time = 0,
     ms_eltako_data = replicate 76 0, ms_eltako_new = False, ms_eltako_i = 0, ms_eltako_value = 0,
     ms_last_state = 255, ms_packet_payload_index = 0 \<rparr>"

text \<open>A master whose request has been answered (or has timed out).\<close>

definition answered_master :: "bool \<Rightarrow> rs485" where
  "answered_master timed_out = idle_master
     \<lparr> rs_buffer := [1, 4, 4] @ be32 0x43660000 @ replicate 25 0 @ [1, 4] @ replicate 30 0,
       modbus_rtu := (modbus_rtu idle_master) \<lparr> request := (req idle_master)
         \<lparr> req_state := MODBUS_REQUEST_PROCESS_STATE_MASTER_WAITING_RESPONSE, cb_invoke := True,
           master_request_timed_out := timed_out \<rparr> \<rparr> \<rparr>"

lemma answered_master_ok:
  "rs485_wf (answered_master t)" "meter_is_response_ready 4 (answered_master t) = Some True"
  "master_request_timed_out (req (answered_master t)) = t"
  "mode (answered_master t) = MODE_MODBUS_MASTER_RTU"
  by (simp_all add: answered_master_def idle_master_def rs485_blank_def rs485_wf_def
      RS485_BUFFER_SIZE_def rb_wf_def ringbuffer_init_def meter_is_response_ready_def arr_get_def
      be32_def nth_append)

lemma meter_response_decoded_witness:
  "\<forall>u. meter_get_read_registers_response 7 4 2 (meter_sys_blank (answered_master False) u) =
     Some (True, Written_32 [0x43660000],
       upd_meter (\<lambda>m. m \<lparr> m_available := True \<rparr>) (meter_sys_blank (answered_master False) u))"
proof
  fix u
  have rs: "ms_rs (meter_sys_blank (answered_master False) u) = answered_master False"
    by (simp add: meter_sys_blank_def)
  have frame: "take (3 + 4 * length [0x43660000 :: u32]) (rs_buffer (answered_master False))
      = [1, 4, 4] @ concat (map be32 [0x43660000])"
    by (simp add: answered_master_def be32_def)
  show "meter_get_read_registers_response 7 4 2 (meter_sys_blank (answered_master False) u) =
     Some (True, Written_32 [0x43660000],
       upd_meter (\<lambda>m. m \<lparr> m_available := True \<rparr>) (meter_sys_blank (answered_master False) u))"
    using meter_response_decoded[of "meter_sys_blank (answered_master False) u" 4 "[0x43660000]" 2 1 4 7]
      answered_master_ok[of False] frame
    unfolding rs by simp
qed

end
