(* ===== verification/Meter.thy ===== *)
theory Meter
  imports Meter_Frames
begin

text \<open>
  The energy meter client of \<^verbatim>\<open>warp/meter.c\<close>: conversion of register values, the
  meter's table, and the stream of all values to the host. A function that cannot finish (an
  access outside an array, a loop without end) is \<open>None\<close>.
\<close>

section \<open>Register values\<close>

text \<open>The power of ten of an Iskra value. The counter is an int8 that is compared as an int.\<close>

partial_function (option) scale_loop :: "float_ops \<Rightarrow> u32 \<Rightarrow> int \<Rightarrow> u8 \<Rightarrow> u32 \<Rightarrow> u32 option" where
  "scale_loop F factor n i scale =
     (if sint i < n then scale_loop F factor n (i + 1) (f_mul F scale factor) else Some scale)"

definition decade_scale :: "float_ops \<Rightarrow> u8 \<Rightarrow> u32 option" where
  "decade_scale F exponent =
     (if sint exponent < 0 then scale_loop F f_0_1 (- sint exponent) 0 f_1
      else scale_loop F f_10 (sint exponent) 0 f_1)"

definition convert_register :: "float_ops \<Rightarrow> u32 \<Rightarrow> meter_definition \<Rightarrow> u32 option" where
  "convert_register F data d =
     (let scaled = (\<lambda>v. f_mul F v (scale_factor d));
          i16 = sint (ucast data :: u16); u16' = uint (ucast data :: u16);
          exponent = ucast (drop_bit 24 data) :: u8
      in case register_data_type d of
        METER_REGISTER_DATA_TYPE_FLOAT \<Rightarrow> Some (scaled data)
      | METER_REGISTER_DATA_TYPE_INT32 \<Rightarrow> Some (scaled (f_of_int F (sint data)))
      | METER_REGISTER_DATA_TYPE_INT16 \<Rightarrow> Some (scaled (f_of_int F i16))
      | METER_REGISTER_DATA_TYPE_T2 \<Rightarrow> Some (scaled (f_of_int F i16))
      | METER_REGISTER_DATA_TYPE_T3 \<Rightarrow> Some (scaled (f_of_int F (uint data)))
      | METER_REGISTER_DATA_TYPE_T5 \<Rightarrow> do {
          scale \<leftarrow> decade_scale F exponent;
          Some (scaled (f_mul F (f_of_int F (uint (data AND 0x00FFFFFF))) scale))
        }
      | METER_REGISTER_DATA_TYPE_T6 \<Rightarrow> do {
          let value_u = data AND 0x00FFFFFF;
          let value_s = (if value_u AND 0x00800000 \<noteq> 0 then value_u OR 0xFF000000 else value_u);
          scale \<leftarrow> decade_scale F exponent;
          Some (scaled (f_mul F (f_of_int F (sint value_s)) scale))
        }
      | METER_REGISTER_DATA_TYPE_T7 \<Rightarrow> Some (scaled (f_mul F (f_of_int F u16') f_0_0001))
      | METER_REGISTER_DATA_TYPE_T16 \<Rightarrow> Some (scaled (f_mul F (f_of_int F u16') f_0_01))
      | METER_REGISTER_DATA_TYPE_T17 \<Rightarrow> Some (scaled (f_mul F (f_of_int F i16) f_0_01)))"

definition store_register :: "register_set_address \<Rightarrow> u32 \<Rightarrow> meter_sys \<Rightarrow> meter_sys option" where
  "store_register target v s =
     (case target of
        Reg_Null \<Rightarrow> None
      | Reg_Set i \<Rightarrow> map_option (\<lambda>rs. s \<lparr> ms_set := rs \<rparr>) (arr_set (ms_set s) i v)
      | Reg_Iskra field i \<Rightarrow> (case field of
          Energy_Counter_Exponent \<Rightarrow> map_option
            (\<lambda>xs. s \<lparr> ms_iskra := (ms_iskra s) \<lparr> energy_counter_exponent := xs \<rparr> \<rparr>)
            (arr_set (energy_counter_exponent (ms_iskra s)) i v)
        | Energy_Counter \<Rightarrow> map_option
            (\<lambda>xs. s \<lparr> ms_iskra := (ms_iskra s) \<lparr> energy_counter := xs \<rparr> \<rparr>)
            (arr_set (energy_counter (ms_iskra s)) i v)
        | Energy_Counter_1000x \<Rightarrow> map_option
            (\<lambda>xs. s \<lparr> ms_iskra := (ms_iskra s) \<lparr> energy_counter_1000x := xs \<rparr> \<rparr>)
            (arr_set (energy_counter_1000x (ms_iskra s)) i v)))"

definition meter_handle_new_data :: "float_ops \<Rightarrow> u32 \<Rightarrow> meter_definition \<Rightarrow> meter_sys \<Rightarrow> meter_sys option" where
  "meter_handle_new_data F data d s = do {
     v \<leftarrow> convert_register F data d;
     store_register (register_set_address d) v s
   }"

text \<open>
  The union a response is read into is a local variable: what a response does not write keeps the
  value the memory happened to have.
\<close>

definition overlay_response :: "u32 \<Rightarrow> response_data \<Rightarrow> u32" where
  "overlay_response uninit r =
     (case r of
        Nothing_Written \<Rightarrow> uninit
      | Written_16 w \<Rightarrow> (uninit AND 0xFFFF0000) OR ucast w
      | Written_32 ws \<Rightarrow> (case ws of [] \<Rightarrow> uninit | w # _ \<Rightarrow> w))"

section \<open>State of the meter\<close>

definition meter_init :: "clk \<Rightarrow> meter_sys \<Rightarrow> meter_sys" where
  "meter_init clk s =
     (let m = ms_meter s in
      s \<lparr> ms_set := replicate METER_REGISTER_NUM NAN,
          ms_meter := meter_blank \<lparr> m_relative_energy_sum := m_relative_energy_sum m,
            m_relative_energy_import := m_relative_energy_import m,
            m_relative_energy_export := m_relative_energy_export m,
            m_first_tick := system_timer_get_ms (clk 0),
            m_register_fast_time := system_timer_get_ms (clk 1) \<rparr> \<rparr>)"

definition meter_handle_phases_connected :: "float_ops \<Rightarrow> meter_sys \<Rightarrow> meter_sys option" where
  "meter_handle_phases_connected F s = do {
     v1 \<leftarrow> arr_get (ms_set s) VoltageL1N;
     v2 \<leftarrow> arr_get (ms_set s) VoltageL2N;
     v3 \<leftarrow> arr_get (ms_set s) VoltageL3N;
     Some (upd_meter (\<lambda>m. m \<lparr> m_phases_connected :=
       [f_less F f_180 v1, f_less F f_180 v2, f_less F f_180 v3] \<rparr>) s)
   }"

text \<open>Only addresses within the memory of the register set count as values of the meter.\<close>

definition in_register_set :: "register_set_address \<Rightarrow> bool" where
  "in_register_set t = (case t of Reg_Set i \<Rightarrow> i < METER_REGISTER_NUM | _ \<Rightarrow> False)"

definition table_of_type :: "meter_type \<Rightarrow> meter_definition list" where
  "table_of_type t =
     (case t of
        METER_TYPE_SDM72V2 \<Rightarrow> meter_sdm72v2
      | METER_TYPE_SDM630 \<Rightarrow> meter_sdm630
      | METER_TYPE_SDM630MCTV2 \<Rightarrow> meter_sdm630
      | METER_TYPE_DSZ15DZMOD \<Rightarrow> meter_dsz15dzmod
      | METER_TYPE_DEM4A \<Rightarrow> meter_dem4a
      | METER_TYPE_DMED341MID7ER \<Rightarrow> meter_dmed341mid7er
      | METER_TYPE_DSZ16DZE \<Rightarrow> meter_dsz16dze
      | METER_TYPE_WM3M4C \<Rightarrow> meter_wm3m4c
      | METER_TYPE_WM3M4 \<Rightarrow> meter_wm3m4c
      | _ \<Rightarrow> [])"

fun count_definitions :: "meter_definition list \<Rightarrow> nat \<Rightarrow> nat \<Rightarrow> u8 \<Rightarrow> u8 option" where
  "count_definitions table i 0 cnt = Some cnt"
| "count_definitions table i (Suc n) cnt = do {
     d \<leftarrow> arr_get table i;
     count_definitions table (i + 1) n
       (if in_register_set (register_set_address d) then cnt + 1 else cnt)
   }"

definition meter_update_size :: "meter_sys \<Rightarrow> meter_sys option" where
  "meter_update_size s =
     (let m = ms_meter s; definition_size = of_nat (length (table_of_type (m_type m))) :: u8 in
      if m_current_meter m = [] \<or> definition_size = 0
      then Some (upd_meter (\<lambda>m. m \<lparr> m_current_meter_size := 0, m_current_meter_definition_size := 0 \<rparr>) s)
      else do {
        cnt \<leftarrow> count_definitions (m_current_meter m) 0 (unat definition_size) 0;
        Some (upd_meter (\<lambda>m. m \<lparr> m_current_meter_definition_size := definition_size,
                                 m_current_meter_size := cnt \<rparr>) s)
      })"

definition meter_set_meter_type :: "clk \<Rightarrow> meter_type \<Rightarrow> meter_sys \<Rightarrow> meter_sys option" where
  "meter_set_meter_type clk t s = do {
     let slave = (case t of
         METER_TYPE_WM3M4C \<Rightarrow> 0x21 | METER_TYPE_WM3M4 \<Rightarrow> 0x21
       | _ \<Rightarrow> if table_of_type t = [] then 0 else 0x01);
     s1 \<leftarrow> meter_update_size (upd_meter (\<lambda>m. m \<lparr> m_type := t, m_slave_address := slave,
       m_current_meter := table_of_type t \<rparr>) s);
     Some (upd_meter (\<lambda>m. m \<lparr> m_timeout := system_timer_get_ms (clk 0) \<rparr>) s1)
   }"

definition meter_handle_register_set_fast_read_done :: "meter_sys \<Rightarrow> meter_sys" where
  "meter_handle_register_set_fast_read_done = upd_meter (\<lambda>m. m \<lparr> m_new_fast_value_callback := True \<rparr>)"

definition meter_handle_register_set_read_done :: "float_ops \<Rightarrow> meter_sys \<Rightarrow> meter_sys option" where
  "meter_handle_register_set_read_done F s = do {
     let m = ms_meter s;
     imp \<leftarrow> arr_get (ms_set s) EnergyActiveLSumImport;
     set1 \<leftarrow> arr_set (ms_set s) EnergyActiveLSumImportResettable (f_sub F imp (m_relative_energy_import m));
     ex \<leftarrow> arr_get set1 EnergyActiveLSumExport;
     set2 \<leftarrow> arr_set set1 EnergyActiveLSumExportResettable (f_sub F ex (m_relative_energy_export m));
     sm \<leftarrow> arr_get set2 EnergyActiveLSumImExSum;
     set3 \<leftarrow> arr_set set2 EnergyActiveLSumImExSumResettable (f_sub F sm (m_relative_energy_sum m));
     Some (upd_meter (\<lambda>m. m \<lparr> m_each_value_read_once := True \<rparr>) (s \<lparr> ms_set := set3 \<rparr>))
   }"

definition register_size :: "meter_register_data_type \<Rightarrow> u8" where
  "register_size t =
     (case t of
        METER_REGISTER_DATA_TYPE_FLOAT \<Rightarrow> 2
      | METER_REGISTER_DATA_TYPE_INT32 \<Rightarrow> 2
      | METER_REGISTER_DATA_TYPE_T2 \<Rightarrow> 1
      | METER_REGISTER_DATA_TYPE_INT16 \<Rightarrow> 1
      | METER_REGISTER_DATA_TYPE_T3 \<Rightarrow> 2
      | METER_REGISTER_DATA_TYPE_T5 \<Rightarrow> 2
      | METER_REGISTER_DATA_TYPE_T6 \<Rightarrow> 2
      | METER_REGISTER_DATA_TYPE_T7 \<Rightarrow> 2
      | METER_REGISTER_DATA_TYPE_T16 \<Rightarrow> 1
      | METER_REGISTER_DATA_TYPE_T17 \<Rightarrow> 1)"

definition current_definition :: "meter_sys \<Rightarrow> u16 \<Rightarrow> meter_definition option" where
  "current_definition s position = arr_get (m_current_meter (ms_meter s)) (unat position)"

definition meter_get_register_size :: "meter_sys \<Rightarrow> u16 \<Rightarrow> u8 option" where
  "meter_get_register_size s position =
     map_option (\<lambda>d. register_size (register_data_type d)) (current_definition s position)"

definition meter_supports_eichrecht :: "meter_sys \<Rightarrow> bool" where
  "meter_supports_eichrecht s \<longleftrightarrow> m_type (ms_meter s) = METER_TYPE_WM3M4C"

section \<open>The values for the host\<close>

function next_value_loop :: "meter_definition list \<Rightarrow> u8 \<Rightarrow> meter_register_set \<Rightarrow> u8 \<Rightarrow> (u32 \<times> u8) option" where
  "next_value_loop table definition_size rset index =
     (if index \<ge> definition_size then Some (NAN, index)
      else do {
        d \<leftarrow> arr_get table (unat index);
        if in_register_set (register_set_address d)
        then do {
          v \<leftarrow> (case register_set_address d of Reg_Set i \<Rightarrow> arr_get rset i | _ \<Rightarrow> None);
          Some (v, index + 1)
        }
        else next_value_loop table definition_size rset (index + 1)
      })"
  by pat_completeness auto

termination
proof (relation "measure (\<lambda>(t, n, r, i). unat n - unat i)", goal_cases)
  case (2 table n rset i d)
  then have "unat i < unat n" by (simp add: word_le_nat_alt)
  then show ?case using unat_Suc_no_wrap[of i n] by simp
qed simp

declare next_value_loop.simps [simp del]

definition meter_get_next_value :: "meter_sys \<Rightarrow> (u32 \<times> meter_sys) option" where
  "meter_get_next_value s =
     (let m = ms_meter s in
      if m_current_meter m = [] \<or> m_current_meter_size m = 0 then Some (NAN, s)
      else do {
        (v, index) \<leftarrow> next_value_loop (m_current_meter m) (m_current_meter_definition_size m)
          (ms_set s) (m_current_meter_index m);
        Some (v, upd_meter (\<lambda>m. m \<lparr> m_current_meter_index := index \<rparr>) s)
      })"

record meter_values_response =
  values_length :: u16
  values_chunk_offset :: u16
  values_chunk_data :: "u32 list"

text \<open>The copy loop counts with a uint8 against a uint16: it may run past the 15 element array.\<close>

partial_function (option) copy_values_loop ::
  "u16 \<Rightarrow> u8 \<Rightarrow> meter_values_response \<Rightarrow> meter_sys \<Rightarrow> (meter_values_response \<times> meter_sys) option" where
  "copy_values_loop copy_num i response s =
     (if unat i < unat copy_num then do {
        (v, s1) \<leftarrow> meter_get_next_value s;
        data \<leftarrow> arr_set (values_chunk_data response) (unat i) v;
        copy_values_loop copy_num (i + 1) (response \<lparr> values_chunk_data := data \<rparr>) s1
      }
      else Some (response, s))"

definition meter_fill_communication_values ::
  "meter_values_response \<Rightarrow> meter_sys \<Rightarrow> (meter_values_response \<times> meter_sys) option" where
  "meter_fill_communication_values response s = do {
     let cnt = m_current_meter_size (ms_meter s);
     let index = ms_packet_payload_index s;
     let start = (ucast (index * 15) :: u16);
     let end_pos = (word_of_int (c_MIN (uint start + 15) (uint cnt)) :: u16);
     let copy_num = end_pos - start;
     let s1 = (if index = 0 then upd_meter (\<lambda>m. m \<lparr> m_current_meter_index := 0 \<rparr>) s else s);
     (response1, s2) \<leftarrow> copy_values_loop copy_num 0
       (response \<lparr> values_length := ucast cnt, values_chunk_offset := start \<rparr>) s1;
     Some (response1, s2 \<lparr> ms_packet_payload_index :=
       (if end_pos < ucast cnt then index + 1 else 0) \<rparr>)
   }"


section \<open>The power of ten of a register value\<close>

lemma scale_loop_ends:
  assumes "n \<le> 127" "0 \<le> sint i" "sint i \<le> n"
  shows "scale_loop F factor n i scale = Some (((\<lambda>s. f_mul F s factor) ^^ nat (n - sint i)) scale)"
  using assms
proof (induction "nat (n - sint i)" arbitrary: i scale)
  case 0
  then show ?case by (subst scale_loop.simps) simp
next
  case (Suc k)
  then have lt: "sint i < n" by simp
  have step: "sint (i + 1) = sint i + 1"
    using Suc.prems lt by (simp add: sint_word_ariths signed_take_bit_int_eq_self)
  have "nat (n - sint i) = Suc (nat (n - sint (i + 1)))" using lt step by simp
  moreover have "scale_loop F factor n (i + 1) (f_mul F scale factor) =
      Some (((\<lambda>s. f_mul F s factor) ^^ nat (n - sint (i + 1))) (f_mul F scale factor))"
    using Suc.hyps(1)[of "i + 1"] Suc.hyps(2) Suc.prems lt step by simp
  ultimately show ?case
    using lt funpow_swap1[of "\<lambda>s. f_mul F s factor" _ scale]
    by (subst scale_loop.simps) simp
qed

lemma scale_loop_128_never_ends: "scale_loop F factor 128 i scale = None"
proof -
  have "n \<noteq> 128" if "scale_loop F factor n i scale = Some y" for n y
    using _ that
  proof (rule scale_loop.raw_induct[where P = "\<lambda>F factor n i scale y. n \<noteq> 128"])
    fix f F factor n scale y and i :: u8
    assume "\<And>F factor n i scale y. f F factor n i scale = Some y \<Longrightarrow> n \<noteq> 128"
      and "(if sint i < n then f F factor n (i + 1) (f_mul F scale factor) else Some scale) = Some y"
    then show "n \<noteq> 128" using sint_lt[of i] by (fastforce split: if_splits)
  qed
  then show ?thesis by (cases "scale_loop F factor 128 i scale") auto
qed

definition decade :: "float_ops \<Rightarrow> int \<Rightarrow> u32" where
  "decade F e = ((\<lambda>s. f_mul F s (if e < 0 then f_0_1 else f_10)) ^^ nat \<bar>e\<bar>) f_1"

lemma decade_scale_cases:
  "decade_scale F e = (if sint e = - 128 then None else Some (decade F (sint e)))"
proof -
  have b: "- 128 \<le> sint e" "sint e \<le> 127" using sint_range_size[of e] by (simp_all add: word_size)
  show ?thesis
  proof (cases "sint e < 0")
    case True
    then show ?thesis
      using b scale_loop_ends[of "- sint e" 0 F f_0_1 f_1] scale_loop_128_never_ends
      by (auto simp: decade_scale_def decade_def)
  next
    case False
    then show ?thesis
      using b scale_loop_ends[of "sint e" 0 F f_10 f_1] by (auto simp: decade_scale_def decade_def)
  qed
qed

text \<open>C36. Exactly one kind of register value hangs the firmware: meter\_handle\_new\_data fails to
  produce a value if and only if the register has type T5 or T6 and its decade exponent is -128 (the
  int8 loop counter never reaches 128); for every other exponent a T5 value is mantissa times that
  many factors of ten (or of a tenth), scaled by the table's factor.\<close>

theorem convert_register_hangs_iff:
  "(convert_register F data d = None \<longleftrightarrow>
     register_data_type d \<in> {METER_REGISTER_DATA_TYPE_T5, METER_REGISTER_DATA_TYPE_T6} \<and>
     drop_bit 24 data = 0x80) \<and>
   convert_register F data (mdef a t factor METER_REGISTER_DATA_TYPE_T5 fast) =
     (if drop_bit 24 data = 0x80 then None
      else Some (f_mul F (f_mul F (f_of_int F (uint (data AND 0xFFFFFF)))
        (decade F (sint (ucast (drop_bit 24 data) :: u8)))) factor))"
proof -
  have e: "sint (ucast (drop_bit 24 data) :: u8) = - 128 \<longleftrightarrow> drop_bit 24 data = 0x80"
  proof
    assume "sint (ucast (drop_bit 24 data) :: u8) = - 128"
    then have "sint (ucast (drop_bit 24 data) :: u8) = sint (0x80 :: u8)" by simp
    then have "(ucast (drop_bit 24 data) :: u8) = 0x80" by (rule signed_word_eqI)
    then have "unat (ucast (drop_bit 24 data) :: u8) = 128" by simp
    moreover have "unat (drop_bit 24 data) < 256"
      by (simp add: unat_drop_bit) (rule less_mult_imp_div_less, use unsigned_less[of data, where 'a = nat] in simp)
    ultimately have "unat (drop_bit 24 data) = 128" by (simp add: unsigned_ucast_eq take_bit_nat_eq_self)
    then show "drop_bit 24 data = 0x80" by (simp add: word_unat_eq_iff)
  qed simp
  have "convert_register F data d = None \<longleftrightarrow>
     register_data_type d \<in> {METER_REGISTER_DATA_TYPE_T5, METER_REGISTER_DATA_TYPE_T6} \<and>
     drop_bit 24 data = 0x80"
    by (cases "register_data_type d") (simp_all add: convert_register_def decade_scale_cases e Let_def)
  then show ?thesis by (simp add: convert_register_def decade_scale_cases e Let_def)
qed

end
