(* ===== verification/Meter_Values.thy ===== *)
theory Meter_Values
  imports Meter
begin

text \<open>
  The stream of all meter values to the host (\<^verbatim>\<open>meter_fill_communication_values\<close> of
  \<^verbatim>\<open>warp/meter.c\<close>): what a sequence of calls delivers.
\<close>

section \<open>The values of a table\<close>

definition table_values :: "meter_definition list \<Rightarrow> meter_register_set \<Rightarrow> u32 list" where
  "table_values table rset = concat (map (\<lambda>d. case register_set_address d of
      Reg_Set j \<Rightarrow> if j < METER_REGISTER_NUM then [rset ! j] else []
    | _ \<Rightarrow> []) table)"

lemma table_values_Cons:
  "table_values (d # ds) rset =
     (if in_register_set (register_set_address d)
      then [case register_set_address d of Reg_Set j \<Rightarrow> rset ! j | _ \<Rightarrow> 0] else []) @ table_values ds rset"
  by (simp add: table_values_def in_register_set_def split: register_set_address.split)

lemma table_values_Nil [simp]: "table_values [] rset = []"
  by (simp add: table_values_def)

lemma table_values_append: "table_values (xs @ ys) rset = table_values xs rset @ table_values ys rset"
  by (simp add: table_values_def)

lemma length_table_values_le: "length (table_values ds rset) \<le> length ds"
  by (induction ds) (auto simp: table_values_Cons)

lemma length_table_values_set: "length (table_values ds rset) = length (table_values ds rset')"
  by (induction ds) (auto simp: table_values_Cons)

lemma table_values_blank:
  "table_values table (replicate METER_REGISTER_NUM 0) = replicate (length (table_values table rset)) 0"
  by (induction table) (auto simp: table_values_Cons in_register_set_def split: register_set_address.split)

lemma count_definitions_values:
  "i + k \<le> length table \<Longrightarrow>
   count_definitions table i k cnt = Some (cnt + of_nat (length (table_values (take k (drop i table)) rset)))"
proof (induction k arbitrary: i cnt)
  case (Suc k)
  then have i: "i < length table" and "i + 1 + k \<le> length table" by simp_all
  have "take (Suc k) (drop i table) = table ! i # take k (drop (i + 1) table)"
    using i by (simp add: Cons_nth_drop_Suc [symmetric])
  with Suc.IH[of "i + 1"] i \<open>i + 1 + k \<le> length table\<close> show ?case
    by (simp add: table_values_Cons arr_get_def add.assoc)
qed simp

lemma next_value_loop_values:
  assumes "length table = unat n" "length rset = METER_REGISTER_NUM"
    and "table_values (drop (unat i) table) rset = v # vs"
  shows "\<exists>j. next_value_loop table n rset i = Some (v, j) \<and>
    table_values (drop (unat j) table) rset = vs"
  using assms
proof (induction table n rset i rule: next_value_loop.induct)
  case (1 table n rset i)
  have lt: "\<not> n \<le> i"
    using "1.prems" by (auto simp: word_le_nat_alt)
  then have i: "unat i < length table" using "1.prems"(1) by (simp add: word_le_nat_alt)
  then have get: "arr_get table (unat i) = Some (table ! unat i)" by (simp add: arr_get_def)
  have "unat i < unat n" using i "1.prems"(1) by simp
  then have suc: "unat (i + 1) = Suc (unat i)" using unat_Suc_no_wrap[of i n] by simp
  have split: "drop (unat i) table = table ! unat i # drop (unat (i + 1)) table"
    using i suc by (simp add: Cons_nth_drop_Suc)
  show ?case
  proof (cases "in_register_set (register_set_address (table ! unat i))")
    case True
    then obtain j where j: "register_set_address (table ! unat i) = Reg_Set j" "j < METER_REGISTER_NUM"
      by (auto simp: in_register_set_def split: register_set_address.splits)
    then have "v = rset ! j" "vs = table_values (drop (unat (i + 1)) table) rset"
      using "1.prems"(3) True by (simp_all add: split table_values_Cons)
    then show ?thesis
      using lt get True j "1.prems"(2) by (subst next_value_loop.simps) (simp add: arr_get_def)
  next
    case False
    then have "table_values (drop (unat (i + 1)) table) rset = v # vs"
      using "1.prems"(3) by (simp add: split table_values_Cons)
    with "1.IH"[OF lt get False "1.prems"(1,2)] show ?thesis
      using lt get False by (subst next_value_loop.simps) simp
  qed
qed

section \<open>One chunk\<close>

text \<open>A meter whose table is set up, with the values the next calls will deliver.\<close>

definition streams :: "meter_definition list \<Rightarrow> meter_register_set \<Rightarrow> u32 list \<Rightarrow> meter_sys \<Rightarrow> bool" where
  "streams table rset rest s \<longleftrightarrow>
     m_current_meter (ms_meter s) = table \<and>
     length table = unat (m_current_meter_definition_size (ms_meter s)) \<and>
     unat (m_current_meter_size (ms_meter s)) = length (table_values table rset) \<and>
     ms_set s = rset \<and> length rset = METER_REGISTER_NUM \<and>
     table_values (drop (unat (m_current_meter_index (ms_meter s))) table) rset = rest"

lemma next_value_streams:
  assumes "streams table rset (v # vs) s"
  shows "\<exists>s'. meter_get_next_value s = Some (v, s') \<and> streams table rset vs s' \<and>
    ms_packet_payload_index s' = ms_packet_payload_index s"
proof -
  have "table_values table rset \<noteq> []"
  proof
    assume "table_values table rset = []"
    then have "table_values (drop n table) rset = []" for n
      using table_values_append[of "take n table" "drop n table" rset] by simp
    then show False using assms by (auto simp: streams_def)
  qed
  then have nz: "m_current_meter (ms_meter s) \<noteq> []" "m_current_meter_size (ms_meter s) \<noteq> 0"
    using assms by (auto simp: streams_def)
  show ?thesis
    using next_value_loop_values[of table "m_current_meter_definition_size (ms_meter s)" rset
        "m_current_meter_index (ms_meter s)" v vs] assms nz
    by (auto simp: meter_get_next_value_def Let_def streams_def upd_meter_def)
qed

lemma copy_values_streams:
  assumes "streams table rset (xs @ ys) s" "unat i + length xs = unat copy_num" "unat copy_num \<le> 15"
    and "length (values_chunk_data r) = 15"
  shows "\<exists>s'. copy_values_loop copy_num i r s =
      Some (r \<lparr> values_chunk_data := take (unat i) (values_chunk_data r) @ xs @
                 drop (unat copy_num) (values_chunk_data r) \<rparr>, s') \<and>
      streams table rset ys s' \<and> ms_packet_payload_index s' = ms_packet_payload_index s"
  using assms
proof (induction xs arbitrary: i r s)
  case Nil
  then show ?case by (subst copy_values_loop.simps) simp
next
  case (Cons x xs)
  have lt: "unat i < unat copy_num" "unat i < 15" using Cons.prems by simp_all
  have suc: "unat (i + 1) = Suc (unat i)"
    by (rule unat_Suc_no_wrap[of i "15"]) (use lt in \<open>simp add: word_less_nat_alt\<close>)
  obtain s1 where s1: "meter_get_next_value s = Some (x, s1)" "streams table rset (xs @ ys) s1"
    "ms_packet_payload_index s1 = ms_packet_payload_index s"
    using next_value_streams[of table rset x "xs @ ys" s] Cons.prems(1) by auto
  define r1 where "r1 = r \<lparr> values_chunk_data := (values_chunk_data r)[unat i := x] \<rparr>"
  have i1: "unat (i + 1) + length xs = unat copy_num" using Cons.prems(2) suc by simp
  have "length (values_chunk_data r1) = 15" using Cons.prems(4) by (simp add: r1_def)
  from Cons.IH[OF s1(2) i1 Cons.prems(3) this] obtain s2 where
    "copy_values_loop copy_num (i + 1) r1 s1 =
      Some (r1 \<lparr> values_chunk_data := take (unat (i + 1)) (values_chunk_data r1) @ xs @
                 drop (unat copy_num) (values_chunk_data r1) \<rparr>, s2)"
    "streams table rset ys s2" "ms_packet_payload_index s2 = ms_packet_payload_index s1" by blast
  moreover have "take (unat (i + 1)) (values_chunk_data r1) = take (unat i) (values_chunk_data r) @ [x]"
    using lt Cons.prems(4) suc by (simp add: r1_def take_Suc_conv_app_nth)
  moreover have "drop (unat copy_num) (values_chunk_data r1) = drop (unat copy_num) (values_chunk_data r)"
    using lt by (simp add: r1_def)
  ultimately show ?case
    using lt s1 Cons.prems(4) by (subst copy_values_loop.simps) (simp add: arr_set_def r1_def)
qed

section \<open>The whole stream\<close>

text \<open>The part of a response the host reads.\<close>

definition payload :: "meter_values_response \<Rightarrow> u32 list" where
  "payload r = take (min 15 (unat (values_length r) - unat (values_chunk_offset r))) (values_chunk_data r)"

text \<open>A sequence of calls, one for each response buffer.\<close>

fun fill_stream :: "meter_values_response list \<Rightarrow> meter_sys \<Rightarrow> (meter_values_response list \<times> meter_sys) option" where
  "fill_stream [] s = Some ([], s)"
| "fill_stream (b # bs) s = do {
     (r, s1) \<leftarrow> meter_fill_communication_values b s;
     (rs, s2) \<leftarrow> fill_stream bs s1;
     Some (r # rs, s2)
   }"

lemma unat_chunk_start: "k \<le> 17 \<Longrightarrow> unat (ucast (of_nat k * 15 :: u32) :: u16) = 15 * k"
proof -
  assume k: "k \<le> 17"
  have "of_nat k * 15 = (of_nat (15 * k) :: u32)" by (simp add: mult.commute)
  moreover have "unat (of_nat (15 * k) :: u32) = 15 * k" using k by (simp add: unat_of_nat take_bit_nat_eq_self del: of_nat_mult)
  ultimately show ?thesis using k by (simp add: unsigned_ucast_eq take_bit_nat_eq_self mult.commute)
qed

lemma fill_chunk:
  assumes s: "streams table rset rest s" and k: "ms_packet_payload_index s = of_nat k"
    and rest: "0 < k \<Longrightarrow> rest = drop (15 * k) all" and all: "all = table_values table rset"
    and lt: "15 * k < length all" and b: "length (values_chunk_data b) = 15"
  shows "\<exists>r s'. meter_fill_communication_values b s = Some (r, s') \<and>
    unat (values_length r) = length all \<and> unat (values_chunk_offset r) = 15 * k \<and>
    payload r = take 15 (drop (15 * k) all) \<and>
    streams table rset (drop (15 * Suc k) all) s' \<and>
    ms_packet_payload_index s' = (if 15 * Suc k < length all then of_nat (Suc k) else 0)"
proof -
  let ?cnt = "m_current_meter_size (ms_meter s)" and ?start = "ucast (of_nat k * 15 :: u32) :: u16"
  let ?chunk = "take 15 (drop (15 * k) all)"
  have cnt: "unat ?cnt = length all" "length all < 256"
    using s all unsigned_less[of ?cnt, where 'a = nat] by (simp_all add: streams_def)
  have start: "unat ?start = 15 * k" using unat_chunk_start[of k] lt cnt by simp
  define end_pos :: u16 where "end_pos = word_of_int (c_MIN (uint ?start + 15) (uint ?cnt))"
  define copy_num where "copy_num = end_pos - ?start"
  have "c_MIN (uint ?start + 15) (uint ?cnt) = int (min (15 * Suc k) (length all))"
    using start cnt by (simp add: c_MIN_def uint_nat)
  then have endp: "unat end_pos = min (15 * Suc k) (length all)"
    using cnt by (simp add: end_pos_def unat_of_nat take_bit_nat_eq_self)
  have copy: "unat copy_num = length ?chunk"
    using start endp lt by (simp add: copy_num_def unat_sub_no_wrap word_le_nat_alt)
  define s1 where "s1 = (if ms_packet_payload_index s = 0
    then upd_meter (\<lambda>m. m \<lparr> m_current_meter_index := 0 \<rparr>) s else s)"
  define b1 where "b1 = b \<lparr> values_length := ucast ?cnt, values_chunk_offset := ?start \<rparr>"
  have kz: "ms_packet_payload_index s = 0 \<longleftrightarrow> k = 0"
    using k lt cnt by (auto simp: word_unat_eq_iff unat_of_nat take_bit_nat_eq_self)
  have s1: "streams table rset (?chunk @ drop (15 * Suc k) all) s1"
  proof (cases "k = 0")
    case True
    have "streams table rset all s1"
      using s all True kz by (simp add: s1_def streams_def upd_meter_def)
    then show ?thesis using True append_take_drop_id[of 15 all] by simp
  next
    case False
    have "?chunk @ drop (15 * Suc k) all = drop (15 * k) all"
      using append_take_drop_id[of 15 "drop (15 * k) all"] by (simp add: add.commute)
    then show ?thesis using s rest False kz by (simp add: s1_def)
  qed
  obtain s2 where s2: "copy_values_loop copy_num 0 b1 s1 =
      Some (b1 \<lparr> values_chunk_data := ?chunk @ drop (unat copy_num) (values_chunk_data b1) \<rparr>, s2)"
    "streams table rset (drop (15 * Suc k) all) s2" "ms_packet_payload_index s2 = ms_packet_payload_index s1"
    using copy_values_streams[OF s1, of 0 copy_num b1] copy b by (auto simp: b1_def)
  have less: "end_pos < ucast ?cnt \<longleftrightarrow> 15 * Suc k < length all"
    using endp cnt by (auto simp: word_less_nat_alt unat_ucast_u8)
  let ?r = "b1 \<lparr> values_chunk_data := ?chunk @ drop (unat copy_num) (values_chunk_data b1) \<rparr>"
  have pay: "payload ?r = ?chunk"
    using start cnt by (simp add: payload_def b1_def unat_ucast_u8 min_def)
  have "meter_fill_communication_values b s = Some (?r, s2 \<lparr> ms_packet_payload_index :=
      (if end_pos < ucast ?cnt then of_nat k + 1 else 0) \<rparr>)"
    using s2(1) unfolding meter_fill_communication_values_def Let_def k [symmetric]
    by (simp add: s1_def b1_def copy_num_def end_pos_def k)
  then show ?thesis
    using pay s2(2) start cnt less
    by (auto simp: b1_def unat_ucast_u8 streams_def add.commute)
qed

lemma fill_stream_rest:
  assumes "streams table rset rest s" and "ms_packet_payload_index s = of_nat k"
    and "0 < k \<Longrightarrow> rest = drop (15 * k) all" and "all = table_values table rset"
    and "15 * k < length all" "length bs = (length all + 14) div 15 - k"
    and "\<forall>b \<in> set bs. length (values_chunk_data b) = 15"
  shows "\<exists>rs s'. fill_stream bs s = Some (rs, s') \<and> concat (map payload rs) = drop (15 * k) all \<and>
    ms_packet_payload_index s' = 0 \<and> ms_set s' = rset"
  using assms
proof (induction bs arbitrary: k rest s)
  case Nil
  then have "(length all + 14) div 15 \<le> k" by simp
  then have "length all + 14 < 15 * Suc k" by (simp add: div_less_iff_less_mult flip: less_Suc_eq_le)
  then show ?case using Nil by simp
next
  case (Cons b bs)
  obtain r s1 where r: "meter_fill_communication_values b s = Some (r, s1)"
    "payload r = take 15 (drop (15 * k) all)" "streams table rset (drop (15 * Suc k) all) s1"
    "ms_packet_payload_index s1 = (if 15 * Suc k < length all then of_nat (Suc k) else 0)"
    using fill_chunk[OF Cons.prems(1-5), of b] Cons.prems(7) by (auto simp del: mult_Suc_right)
  have split: "take 15 (drop (15 * k) all) @ drop (15 * Suc k) all = drop (15 * k) all"
    using append_take_drop_id[of 15 "drop (15 * k) all"] by (simp add: add.commute)
  show ?case
  proof (cases "15 * Suc k < length all")
    case True
    have "length bs = (length all + 14) div 15 - Suc k" using Cons.prems(6) by simp
    with True Cons.IH[OF r(3), of "Suc k"] r(4) Cons.prems(4,7) obtain rs s2 where
      "fill_stream bs s1 = Some (rs, s2)" "concat (map payload rs) = drop (15 * Suc k) all"
      "ms_packet_payload_index s2 = 0" "ms_set s2 = rset" by auto
    then show ?thesis using r(1,2) split by auto
  next
    case False
    have "(length all + 14) div 15 < Suc (Suc k)" using False by (simp add: div_less_iff_less_mult)
    moreover have "Suc (length bs) = (length all + 14) div 15 - k" using Cons.prems(6) by simp
    ultimately have "length bs = 0" by linarith
    then have "bs = []" by simp
    then show ?thesis using r False split by (auto simp: streams_def)
  qed
qed

lemma meter_set_meter_type_ok:
  "\<exists>s1. meter_set_meter_type clk t s = Some s1 \<and> ms_set s1 = ms_set s \<and>
     ms_packet_payload_index s1 = ms_packet_payload_index s"
proof -
  have len: "length (table_of_type t) < 256"
    by (cases t) (simp_all add: table_of_type_def meter_sdm630_def meter_sdm72v2_def meter_dsz15dzmod_def
        meter_dem4a_def meter_dmed341mid7er_def meter_dsz16dze_def meter_wm3m4c_def)
  then have "unat (of_nat (length (table_of_type t)) :: u8) = length (table_of_type t)"
    by (simp add: unat_of_nat take_bit_nat_eq_self)
  then show ?thesis
    using count_definitions_values[of 0 "length (table_of_type t)" "table_of_type t" 0 "ms_set s"]
    by (auto simp: meter_set_meter_type_def meter_update_size_def Let_def upd_meter_def)
qed

lemma meter_set_meter_type_streams:
  assumes "meter_set_meter_type clk t s = Some s1" "table_of_type t \<noteq> []" "length (ms_set s) = METER_REGISTER_NUM"
  shows "\<exists>rest. streams (table_of_type t) (ms_set s1) rest s1"
    "table_values (table_of_type t) (ms_set s1) \<noteq> []"
proof -
  have len: "length (table_of_type t) < 256"
    by (cases t) (simp_all add: table_of_type_def meter_sdm630_def meter_sdm72v2_def meter_dsz15dzmod_def
        meter_dem4a_def meter_dmed341mid7er_def meter_dsz16dze_def meter_wm3m4c_def)
  then have size: "unat (of_nat (length (table_of_type t)) :: u8) = length (table_of_type t)"
    by (simp add: unat_of_nat take_bit_nat_eq_self)
  moreover have "(of_nat (length (table_of_type t)) :: u8) \<noteq> 0"
    using size assms(2) by (auto simp: word_unat_eq_iff)
  ultimately have "streams (table_of_type t) (ms_set s1)
      (table_values (drop (unat (m_current_meter_index (ms_meter s1))) (table_of_type t)) (ms_set s1)) s1"
    using assms len count_definitions_values[of 0 "length (table_of_type t)" "table_of_type t" 0 "ms_set s"]
      length_table_values_le[of "table_of_type t" "ms_set s"]
    by (auto simp: meter_set_meter_type_def meter_update_size_def Let_def streams_def upd_meter_def
        unat_of_nat take_bit_nat_eq_self)
  then show "\<exists>rest. streams (table_of_type t) (ms_set s1) rest s1" by blast
  show "table_values (table_of_type t) (ms_set s1) \<noteq> []"
    using assms(2) by (cases t) (simp_all add: table_of_type_def meter_sdm630_def meter_sdm72v2_def
        meter_dsz15dzmod_def meter_dem4a_def meter_dmed341mid7er_def meter_dsz16dze_def meter_wm3m4c_def
        table_values_def METER_REGISTER_NUM_def)
qed

text \<open>C20. The host gets every value of the meter once and in table order: after the type of a meter
  with a table has been set, as many calls of meter\_fill\_communication\_values as there are chunks
  of 15 answer with chunks whose concatenation is the value of every register of the table, temporary
  registers and the end marker left out, and the next stream starts at the first value again.\<close>

theorem meter_values_streamed:
  assumes "meter_set_meter_type clk t s = Some s1" "table_of_type t \<noteq> []"
    and "length (ms_set s) = METER_REGISTER_NUM" "ms_packet_payload_index s1 = 0"
    and "length bs = (length (table_values (table_of_type t) (ms_set s1)) + 14) div 15"
    and "\<forall>b \<in> set bs. length (values_chunk_data b) = 15"
  shows "\<exists>rs s2. fill_stream bs s1 = Some (rs, s2) \<and>
    concat (map payload rs) = table_values (table_of_type t) (ms_set s1) \<and>
    ms_packet_payload_index s2 = 0 \<and> ms_set s2 = ms_set s1"
proof -
  obtain rest where "streams (table_of_type t) (ms_set s1) rest s1"
    using meter_set_meter_type_streams[OF assms(1-3)] by blast
  from fill_stream_rest[OF this, of 0 "table_values (table_of_type t) (ms_set s1)" bs] assms(4-6)
    meter_set_meter_type_streams(2)[OF assms(1-3)]
  show ?thesis by simp
qed

lemma meter_values_streamed_witness:
  "\<forall>u. \<exists>rs s1 s2. meter_set_meter_type (\<lambda>_. 5) METER_TYPE_DEM4A (meter_sys_blank idle_master u) = Some s1 \<and>
     fill_stream (replicate 3 \<lparr> values_length = 0, values_chunk_offset = 0,
       values_chunk_data = replicate 15 0 \<rparr>) s1 = Some (rs, s2) \<and>
     concat (map payload rs) = replicate 38 0"
proof
  fix u
  let ?s = "meter_sys_blank idle_master u"
  have T: "table_of_type METER_TYPE_DEM4A = meter_dem4a" by (simp add: table_of_type_def)
  have "length (table_values meter_dem4a []) = 38"
    by (simp add: meter_dem4a_def table_values_def METER_REGISTER_NUM_def)
  then have vals: "table_values meter_dem4a (replicate METER_REGISTER_NUM 0) = replicate 38 0"
    using table_values_blank[of meter_dem4a "[]"] by simp
  obtain s1 where s1: "meter_set_meter_type (\<lambda>_. 5) METER_TYPE_DEM4A ?s = Some s1"
    "ms_set s1 = replicate METER_REGISTER_NUM 0" "ms_packet_payload_index s1 = 0"
    using meter_set_meter_type_ok[of "\<lambda>_. 5" METER_TYPE_DEM4A ?s] by (auto simp: meter_sys_blank_def)
  have "table_of_type METER_TYPE_DEM4A \<noteq> []" by (simp add: T meter_dem4a_def)
  from meter_values_streamed[OF s1(1) this, of "replicate 3 \<lparr> values_length = 0, values_chunk_offset = 0,
       values_chunk_data = replicate 15 0 \<rparr>"] s1
  show "\<exists>rs s1 s2. meter_set_meter_type (\<lambda>_. 5) METER_TYPE_DEM4A ?s = Some s1 \<and>
     fill_stream (replicate 3 \<lparr> values_length = 0, values_chunk_offset = 0,
       values_chunk_data = replicate 15 0 \<rparr>) s1 = Some (rs, s2) \<and>
     concat (map payload rs) = replicate 38 0"
    by (auto simp: T vals meter_sys_blank_def)
qed

section \<open>A meter that changes during a stream\<close>

lemma copy_values_overrun:
  assumes "15 < unat copy_num" "length (values_chunk_data r) = 15" "unat i \<le> 15"
  shows "copy_values_loop copy_num i r s = None"
  using assms
proof (induction "15 - unat i" arbitrary: i r s)
  case 0
  then show ?case
    by (cases "meter_get_next_value s") (subst copy_values_loop.simps, auto simp: arr_set_def)+
next
  case (Suc n)
  have "unat (i + 1) = Suc (unat i)"
    by (rule unat_Suc_no_wrap[of i "15"]) (use Suc in \<open>simp add: word_less_nat_alt\<close>)
  then have "copy_values_loop copy_num (i + 1) r' s' = None" if "length (values_chunk_data r') = 15" for r' s'
    using Suc.hyps(1)[of "i + 1" r' s'] Suc.hyps(2) Suc.prems that by simp
  then show ?case
    using Suc.prems by (cases "meter_get_next_value s")
      (subst copy_values_loop.simps, auto simp: arr_set_def)+
qed

text \<open>A meter that is re-initialised in the middle of a stream breaks the stream's bounds: the
  static packet index survives meter\_init, so the next call computes a chunk of more than 15 values
  and writes past the response's array.\<close>

theorem meter_init_during_stream_overruns:
  assumes "ms_packet_payload_index s = of_nat k" "0 < k" "k \<le> 17" "length (values_chunk_data b) = 15"
  shows "meter_fill_communication_values b (meter_init clk s) = None"
proof -
  let ?start = "ucast (of_nat k * 15 :: u32) :: u16"
  have start: "unat ?start = 15 * k" using unat_chunk_start assms(3) by simp
  have cnt: "m_current_meter_size (ms_meter (meter_init clk s)) = 0"
    "ms_packet_payload_index (meter_init clk s) = of_nat k"
    using assms(1) by (simp_all add: meter_init_def Let_def meter_blank_def)
  define copy_num :: u16 where "copy_num = word_of_int (c_MIN (uint (ucast (ms_packet_payload_index
      (meter_init clk s) * 15) :: u16) + 15) (uint (m_current_meter_size (ms_meter (meter_init clk s))))) -
    ucast (ms_packet_payload_index (meter_init clk s) * 15)"
  have "copy_num = 0 - ?start"
    using start by (simp add: copy_num_def cnt c_MIN_def uint_nat)
  moreover have "unat (0 - ?start) = 65536 - 15 * k"
    using start assms(2,3) unat_sub_if_size[of 0 ?start] by (simp add: word_size word_le_nat_alt)
  ultimately have "15 < unat copy_num" using assms(3) by simp
  then have "copy_values_loop copy_num 0 r s' = None" if "length (values_chunk_data r) = 15" for r s'
    using copy_values_overrun[of copy_num r 0 s'] that by simp
  then show ?thesis
    unfolding meter_fill_communication_values_def Let_def copy_num_def [symmetric] using assms(4) by simp
qed

lemma meter_init_during_stream_overruns_witness:
  "\<forall>u. meter_fill_communication_values \<lparr> values_length = 0, values_chunk_offset = 0,
     values_chunk_data = replicate 15 0 \<rparr>
     (meter_init (\<lambda>_. 9) ((meter_sys_blank idle_master u) \<lparr> ms_packet_payload_index := 1 \<rparr>)) = None"
proof
  fix u
  show "meter_fill_communication_values \<lparr> values_length = 0, values_chunk_offset = 0,
      values_chunk_data = replicate 15 0 \<rparr>
     (meter_init (\<lambda>_. 9) ((meter_sys_blank idle_master u) \<lparr> ms_packet_payload_index := 1 \<rparr>)) = None"
    using meter_init_during_stream_overruns[of "(meter_sys_blank idle_master u) \<lparr> ms_packet_payload_index := 1 \<rparr>" 1
        "\<lparr> values_length = 0, values_chunk_offset = 0, values_chunk_data = replicate 15 0 \<rparr>" "\<lambda>_. 9"]
    by (simp only: meter_sys.simps meter_values_response.simps of_nat_1 length_replicate) simp
qed

end
