(* ===== verification/Meter_Cycle.thy ===== *)
theory Meter_Cycle
  imports Meter
begin

text \<open>
  The tick functions of the meters that are read register by register:
  \<^verbatim>\<open>warp/meter_generic.c\<close> and \<^verbatim>\<open>warp/meter_eastron.c\<close>. Their states 0 and 1
  (the interleaved slow and fast read cycles) are the same code in both files. Clock site 0 is the
  elapsed test of the request, 1 the start of a request, 2 the error time stamp, from 3 on the two
  readings of each turn of the position loop. The parameter \<^term>\<open>uninit\<close> is what the memory of the
  uninitialised local \<^verbatim>\<open>data\<close> happens to hold. The code is modelled without
  HAS\_HARDWARE\_VERSION.
\<close>

section \<open>Requests and responses on the whole state\<close>

definition on_rs :: "(rs \<Rightarrow> rs option) \<Rightarrow> meter_sys \<Rightarrow> meter_sys option" where
  "on_rs f s = do { (rs, u) \<leftarrow> f (ms_rs s, ms_uart s); Some (s \<lparr> ms_rs := rs, ms_uart := u \<rparr>) }"

definition slave :: "meter_sys \<Rightarrow> u8" where
  "slave s = ucast (m_slave_address (ms_meter s))"

definition set_baudrate :: "u32 \<Rightarrow> meter_sys \<Rightarrow> meter_sys" where
  "set_baudrate rate s = s \<lparr> ms_uart := (ms_uart s) \<lparr> line_baudrate := rate \<rparr> \<rparr>"

definition set_state :: "u8 \<Rightarrow> meter_sys \<Rightarrow> meter_sys" where
  "set_state n = upd_meter (\<lambda>m. m \<lparr> m_state := n \<rparr>)"

definition next_state :: "meter_sys \<Rightarrow> meter_sys" where
  "next_state = upd_meter (\<lambda>m. m \<lparr> m_state := m_state m + 1 \<rparr>)"

definition overlay_response_16 :: "u16 \<Rightarrow> response_data \<Rightarrow> u16" where
  "overlay_response_16 init r = (case r of Written_16 w \<Rightarrow> w | _ \<Rightarrow> init)"

section \<open>The read cycles\<close>

definition read_cycle_request :: "clk \<Rightarrow> bool \<Rightarrow> meter_sys \<Rightarrow> (bool \<times> meter_sys) option" where
  "read_cycle_request clk fast s = do {
     let m = ms_meter s;
     let fast1 = (system_timer_is_time_elapsed_ms (clk 0) (m_register_fast_time m) 500 \<or> fast);
     let position = (if fast1 then m_register_fast_position m else m_register_full_position m);
     d \<leftarrow> current_definition s position;
     n \<leftarrow> meter_get_register_size s position;
     s1 \<leftarrow> on_rs (meter_read_registers (clk 1) MODBUS_FC_READ_INPUT_REGISTERS (slave s)
       (register_address d) (ucast n)) s;
     Some (fast1, next_state s1)
   }"

definition fast_cycle_done :: "clk \<Rightarrow> meter_sys \<Rightarrow> meter_sys" where
  "fast_cycle_done clk s =
     (let time = m_register_fast_time (ms_meter s) + 500 in
      meter_handle_register_set_fast_read_done (upd_meter (\<lambda>m. m \<lparr> m_register_fast_position := 0,
        m_register_fast_time := (if system_timer_is_time_elapsed_ms (clk 3) time 500
                                 then system_timer_get_ms (clk 4) else time) \<rparr>) s))"

partial_function (option) next_fast_position :: "clk \<Rightarrow> bool \<Rightarrow> meter_sys \<Rightarrow> (bool \<times> meter_sys) option" where
  "next_fast_position clk fast s = do {
     let s1 = upd_meter (\<lambda>m. m \<lparr> m_register_fast_position := m_register_fast_position m + 1 \<rparr>) s;
     d \<leftarrow> current_definition s1 (m_register_fast_position (ms_meter s1));
     let wrap = (register_set_address d = Reg_Null);
     let s2 = (if wrap then fast_cycle_done clk s1 else s1);
     let fast2 = (if wrap then False else fast);
     d2 \<leftarrow> current_definition s2 (m_register_fast_position (ms_meter s2));
     if fast_read d2 then Some (fast2, s2) else next_fast_position (\<lambda>n. clk (n + 2)) fast2 s2
   }"

partial_function (option) next_full_position :: "float_ops \<Rightarrow> meter_sys \<Rightarrow> meter_sys option" where
  "next_full_position F s = do {
     let s1 = upd_meter (\<lambda>m. m \<lparr> m_register_full_position := m_register_full_position m + 1 \<rparr>) s;
     d \<leftarrow> current_definition s1 (m_register_full_position (ms_meter s1));
     s2 \<leftarrow> (if register_set_address d = Reg_Null
       then meter_handle_register_set_read_done F
         (upd_meter (\<lambda>m. m \<lparr> m_register_full_position := 0 \<rparr>) s1)
       else Some s1);
     d2 \<leftarrow> current_definition s2 (m_register_full_position (ms_meter s2));
     if fast_read d2 then next_full_position F s2 else Some s2
   }"

definition read_cycle_response ::
  "float_ops \<Rightarrow> clk \<Rightarrow> u32 \<Rightarrow> bool \<Rightarrow> meter_sys \<Rightarrow> (bool \<times> meter_sys) option" where
  "read_cycle_response F clk uninit fast s = do {
     let position = (if fast then m_register_fast_position (ms_meter s) else m_register_full_position (ms_meter s));
     n \<leftarrow> meter_get_register_size s position;
     (ret, r, s1) \<leftarrow> meter_get_read_registers_response (clk 2) MODBUS_FC_READ_INPUT_REGISTERS n s;
     if \<not> ret then Some (fast, s1)
     else do {
       d \<leftarrow> current_definition s1 position;
       s2 \<leftarrow> meter_handle_new_data F (overlay_response uninit r) d s1;
       let s3 = upd_rs modbus_clear_request s2;
       if fast then next_fast_position clk fast (set_state 0 s3)
       else do { s4 \<leftarrow> next_full_position F (next_state s3); Some (fast, s4) }
     }
   }"

section \<open>Generic meters\<close>

definition meter_generic_is_connected :: "clk \<Rightarrow> meter_sys \<Rightarrow> (meter_type \<times> meter_sys) option" where
  "meter_generic_is_connected clk s =
     (if ms_generic_find s = 0 then do {
        s1 \<leftarrow> on_rs (meter_read_registers (clk 1) MODBUS_FC_READ_HOLDING_REGISTERS 1 0x100D 1) (set_baudrate 9600 s);
        Some (METER_TYPE_DETECTION, s1 \<lparr> ms_generic_find := ms_generic_find s1 + 1 \<rparr>)
      }
      else if ms_generic_find s = 1 then do {
        (ret, r, s1) \<leftarrow> meter_get_read_registers_response (clk 2) MODBUS_FC_READ_HOLDING_REGISTERS 1 s;
        if \<not> ret then Some (METER_TYPE_DETECTION, s1)
        else do {
          let s2 = upd_rs modbus_clear_request (s1 \<lparr> ms_generic_find := 0 \<rparr>);
          Some (if overlay_response_16 0xFFFF r = 0x0006 then METER_TYPE_DEM4A else METER_TYPE_UNKNOWN, s2)
        }
      }
      else Some (METER_TYPE_UNKNOWN, s \<lparr> ms_generic_find := 0 \<rparr>))"

definition meter_generic_tick :: "float_ops \<Rightarrow> clk \<Rightarrow> u32 \<Rightarrow> meter_sys \<Rightarrow> meter_sys option" where
  "meter_generic_tick F clk uninit s =
     (let m = ms_meter s in
      if m_state m = 0 then do {
        (fast, s1) \<leftarrow> read_cycle_request clk (ms_generic_fast s) s;
        Some (s1 \<lparr> ms_generic_fast := fast \<rparr>)
      }
      else if m_state m = 1 then do {
        (fast, s1) \<leftarrow> read_cycle_response F clk uninit (ms_generic_fast s) s;
        Some (s1 \<lparr> ms_generic_fast := fast \<rparr>)
      }
      else if m_state m = 2 then
        (if m_register_full_position m \<noteq> 0 \<or> \<not> m_each_value_read_once m then Some (set_state 0 s)
         else map_option (set_state 0) (meter_handle_phases_connected F s))
      else Some (set_state 0 s))"

section \<open>Eastron meters\<close>

abbreviation (input) METER_SDM_HOLDING_REG_SYSTEM_TYPE :: u16 where "METER_SDM_HOLDING_REG_SYSTEM_TYPE \<equiv> 11"
abbreviation (input) METER_SDM_HOLDING_REG_SYSTEM_KPPA :: u16 where "METER_SDM_HOLDING_REG_SYSTEM_KPPA \<equiv> 15"
abbreviation (input) METER_SDM_HOLDING_REG_PASSWORD :: u16 where "METER_SDM_HOLDING_REG_PASSWORD \<equiv> 25"
abbreviation (input) METER_SDM_HOLDING_REG_METER_CODE :: u16 where "METER_SDM_HOLDING_REG_METER_CODE \<equiv> 64515"
abbreviation (input) METER_SDM_SYSTEM_TYPE_1P2W :: u32 where "METER_SDM_SYSTEM_TYPE_1P2W \<equiv> f_1"
abbreviation (input) METER_SDM_SYSTEM_TYPE_3P4W :: u32 where "METER_SDM_SYSTEM_TYPE_3P4W \<equiv> f_3"
abbreviation (input) METER_SDM_PASSWORD :: u32 where "METER_SDM_PASSWORD \<equiv> f_1000"

definition phases_connected :: "meter \<Rightarrow> bool \<times> bool \<times> bool" where
  "phases_connected m = (m_phases_connected m ! 0, m_phases_connected m ! 1, m_phases_connected m ! 2)"

definition meter_eastron_handle_new_system_type :: "float_ops \<Rightarrow> meter_sys \<Rightarrow> meter_sys option" where
  "meter_eastron_handle_new_system_type F s = do {
     s1 \<leftarrow> meter_handle_phases_connected F s;
     let m = ms_meter s1;
     let renew = upd_meter (\<lambda>m. m \<lparr> m_new_system_type := True \<rparr>) s1;
     Some (if f_eq F (m_system_type_read m) METER_SDM_SYSTEM_TYPE_3P4W
       then (if phases_connected m = (True, False, False) then renew else s1)
       else if f_eq F (m_system_type_read m) METER_SDM_SYSTEM_TYPE_1P2W
       then (if phases_connected m = (True, True, True) then renew else s1)
       else renew)
   }"

definition meter_eastron_is_connected :: "clk \<Rightarrow> meter_sys \<Rightarrow> (meter_type \<times> meter_sys) option" where
  "meter_eastron_is_connected clk s =
     (if ms_eastron_find s = 0 then do {
        s1 \<leftarrow> on_rs (meter_read_registers (clk 1) MODBUS_FC_READ_HOLDING_REGISTERS 1
          METER_SDM_HOLDING_REG_METER_CODE 1) (set_baudrate 9600 s);
        Some (METER_TYPE_DETECTION, s1 \<lparr> ms_eastron_find := ms_eastron_find s1 + 1 \<rparr>)
      }
      else if ms_eastron_find s = 1 then do {
        (ret, r, s1) \<leftarrow> meter_get_read_registers_response (clk 2) MODBUS_FC_READ_HOLDING_REGISTERS 1 s;
        if \<not> ret then Some (METER_TYPE_DETECTION, s1)
        else do {
          let s2 = upd_rs modbus_clear_request (s1 \<lparr> ms_eastron_find := 0 \<rparr>);
          let meter_code = overlay_response_16 0xFFFF r;
          Some (if meter_code = 0x0084 then METER_TYPE_UNSUPPORTED
            else if meter_code = 0x0089 then METER_TYPE_SDM72V2
            else if meter_code = 0x0000 \<or> meter_code = 0x0070 then METER_TYPE_SDM630
            else if meter_code = 0x0079 then METER_TYPE_SDM630MCTV2
            else METER_TYPE_UNKNOWN, s2)
        }
      }
      else Some (METER_TYPE_UNKNOWN, s \<lparr> ms_eastron_find := 0 \<rparr>))"

definition eastron_write :: "clk \<Rightarrow> u16 \<Rightarrow> u32 \<Rightarrow> meter_sys \<Rightarrow> meter_sys option" where
  "eastron_write clk reg v s = map_option next_state
     (on_rs (meter_write_register (clk 1) MODBUS_FC_WRITE_MULTIPLE_REGISTERS (slave s) reg v)
       (upd_rs modbus_clear_request s))"

definition eastron_write_response :: "clk \<Rightarrow> meter_sys \<Rightarrow> meter_sys option" where
  "eastron_write_response clk s = do {
     (ret, s1) \<leftarrow> meter_get_write_register_response (clk 2) MODBUS_FC_WRITE_MULTIPLE_REGISTERS s;
     Some (if ret then next_state (upd_rs modbus_clear_request s1) else s1)
   }"

definition meter_eastron_tick :: "float_ops \<Rightarrow> clk \<Rightarrow> u32 \<Rightarrow> meter_sys \<Rightarrow> meter_sys option" where
  "meter_eastron_tick F clk uninit s =
     (let m = ms_meter s in
      if m_state m = 0 then do {
        (fast, s1) \<leftarrow> read_cycle_request clk (ms_eastron_fast s) s;
        Some (s1 \<lparr> ms_eastron_fast := fast \<rparr>)
      }
      else if m_state m = 1 then do {
        (fast, s1) \<leftarrow> read_cycle_response F clk uninit (ms_eastron_fast s) s;
        Some (s1 \<lparr> ms_eastron_fast := fast \<rparr>)
      }
      else if m_state m = 2 then
        (if m_register_full_position m \<noteq> 0 \<or> \<not> m_each_value_read_once m then Some (set_state 0 s)
         else if m_type m \<in> {METER_TYPE_DSZ15DZMOD, METER_TYPE_DEM4A, METER_TYPE_DMED341MID7ER,
           METER_TYPE_DSZ16DZE, METER_TYPE_WM3M4C}
         then map_option (set_state 0) (meter_handle_phases_connected F s)
         else map_option next_state (on_rs (meter_read_registers (clk 1) MODBUS_FC_READ_HOLDING_REGISTERS
           (slave s) METER_SDM_HOLDING_REG_SYSTEM_TYPE 2) s))
      else if m_state m = 3 then do {
        (ret, r, s1) \<leftarrow> meter_get_read_registers_response (clk 2) MODBUS_FC_READ_HOLDING_REGISTERS 2 s;
        if \<not> ret then Some s1
        else do {
          s2 \<leftarrow> meter_eastron_handle_new_system_type F
            (upd_meter (\<lambda>m. m \<lparr> m_system_type_read := overlay_response (m_system_type_read m) r \<rparr>) s1);
          Some (next_state (upd_rs modbus_clear_request s2))
        }
      }
      else if m_state m = 4 then
        (if \<not> m_new_system_type m then Some (set_state 0 s)
         else eastron_write clk
           (if m_type m = METER_TYPE_SDM72V2 then METER_SDM_HOLDING_REG_SYSTEM_KPPA else METER_SDM_HOLDING_REG_PASSWORD)
           METER_SDM_PASSWORD (upd_meter (\<lambda>m. m \<lparr> m_new_system_type := False \<rparr>) s))
      else if m_state m = 5 then eastron_write_response clk s
      else if m_state m = 6 then
        (if phases_connected m = (True, False, False)
         then eastron_write clk METER_SDM_HOLDING_REG_SYSTEM_TYPE METER_SDM_SYSTEM_TYPE_1P2W s
         else if phases_connected m = (True, True, True)
         then eastron_write clk METER_SDM_HOLDING_REG_SYSTEM_TYPE METER_SDM_SYSTEM_TYPE_3P4W s
         else Some (set_state 0 s))
      else if m_state m = 7 then eastron_write_response clk s
      else Some (set_state 0 s))"

end
