(* ===== verification/Meter_Cycle_Props.thy ===== *)
theory Meter_Cycle_Props
  imports Meter_Cycle
begin

text \<open>
  What the read cycles of \<^verbatim>\<open>warp/meter_generic.c\<close> and \<^verbatim>\<open>warp/meter_eastron.c\<close>
  do on the shipped register tables: the position loops end, a slow cycle reads every slow register
  once, a fast cycle every fast register once; and what an error response does.
\<close>

section \<open>Position loops\<close>

text \<open>A table as the loops need it: registers up to an end marker, the first one not fast.\<close>

definition null_pos :: "meter_definition list \<Rightarrow> nat" where
  "null_pos table = length (takeWhile (\<lambda>d. register_set_address d \<noteq> Reg_Null) table)"

definition cycle_table :: "meter_definition list \<Rightarrow> bool" where
  "cycle_table table \<longleftrightarrow> 0 < null_pos table \<and> null_pos table < length table \<and> length table < 256 \<and>
     \<not> fast_read (table ! 0)"

definition fast_positions :: "meter_definition list \<Rightarrow> nat list" where
  "fast_positions table = filter (\<lambda>i. fast_read (table ! i)) [0..<null_pos table]"

definition slow_positions :: "meter_definition list \<Rightarrow> nat list" where
  "slow_positions table = filter (\<lambda>i. \<not> fast_read (table ! i)) [0..<null_pos table]"

lemma null_pos_nth:
  "i < null_pos table \<Longrightarrow> register_set_address (table ! i) \<noteq> Reg_Null"
  "null_pos table < length table \<Longrightarrow> register_set_address (table ! null_pos table) = Reg_Null"
proof -
  show "register_set_address (table ! i) \<noteq> Reg_Null" if "i < null_pos table"
    using that nth_mem[of i "takeWhile (\<lambda>d. register_set_address d \<noteq> Reg_Null) table"]
    by (auto simp: null_pos_def takeWhile_nth dest: set_takeWhileD)
  show "register_set_address (table ! null_pos table) = Reg_Null" if "null_pos table < length table"
    using that nth_length_takeWhile[of "\<lambda>d. register_set_address d \<noteq> Reg_Null" table]
    by (simp add: null_pos_def)
qed

lemma table_of_type_cycle: "table_of_type t \<noteq> [] \<Longrightarrow> cycle_table (table_of_type t)"
  by (cases t) (simp_all add: table_of_type_def cycle_table_def null_pos_def meter_sdm630_def
      meter_sdm72v2_def meter_dsz15dzmod_def meter_dem4a_def meter_dmed341mid7er_def
      meter_dsz16dze_def meter_wm3m4c_def)

definition with_full_position :: "nat \<Rightarrow> meter_sys \<Rightarrow> meter_sys" where
  "with_full_position p = upd_meter (\<lambda>m. m \<lparr> m_register_full_position := of_nat p \<rparr>)"

definition with_fast_position :: "nat \<Rightarrow> meter_sys \<Rightarrow> meter_sys" where
  "with_fast_position p = upd_meter (\<lambda>m. m \<lparr> m_register_fast_position := of_nat p \<rparr>)"

lemma unat_of_nat_16: "p < 256 \<Longrightarrow> unat (of_nat p :: u16) = p"
  by (simp add: unat_of_nat take_bit_nat_eq_self)

lemma with_position_simps [simp]:
  "m_current_meter (ms_meter (with_full_position p s)) = m_current_meter (ms_meter s)"
  "m_current_meter (ms_meter (with_fast_position p s)) = m_current_meter (ms_meter s)"
  "m_register_full_position (ms_meter (with_full_position p s)) = of_nat p"
  "m_register_fast_position (ms_meter (with_fast_position p s)) = of_nat p"
  "ms_set (with_full_position p s) = ms_set s"
  "ms_set (with_fast_position p s) = ms_set s"
  "with_full_position p (with_full_position q s) = with_full_position p s"
  "with_fast_position p (with_fast_position q s) = with_fast_position p s"
  by (simp_all add: with_full_position_def with_fast_position_def upd_meter_def)

lemma next_full_position_step:
  assumes t: "m_current_meter (ms_meter s) = table" "cycle_table table" and p: "p < null_pos table"
  shows "next_full_position F (with_full_position p s) =
    (if Suc p = null_pos table
     then meter_handle_register_set_read_done F (with_full_position 0 s) \<bind>
       (\<lambda>s2. current_definition s2 (m_register_full_position (ms_meter s2)) \<bind>
         (\<lambda>d2. if fast_read d2 then next_full_position F s2 else Some s2))
     else if fast_read (table ! Suc p) then next_full_position F (with_full_position (Suc p) s)
     else Some (with_full_position (Suc p) s))"
proof -
  have len: "Suc p < length table" "Suc p < 256" using t(2) p by (simp_all add: cycle_table_def)
  have upd: "upd_meter (\<lambda>m. m \<lparr> m_register_full_position := m_register_full_position m + 1 \<rparr>)
      (with_full_position p s) = with_full_position (Suc p) s"
    "upd_meter (\<lambda>m. m \<lparr> m_register_full_position := 0 \<rparr>) (with_full_position q s) =
      with_full_position 0 s" for q
    by (simp_all add: with_full_position_def upd_meter_def add.commute)
  have d: "current_definition (with_full_position (Suc p) s) (of_nat (Suc p)) = Some (table ! Suc p)"
    using t(1) len unat_of_nat_16[of "Suc p"] by (simp add: current_definition_def arr_get_def del: of_nat_Suc)
  show ?thesis
    using null_pos_nth(1)[of "Suc p" table] null_pos_nth(2)[of table] p t(2) d
    by (subst next_full_position.simps) (auto simp: upd Let_def cycle_table_def simp del: of_nat_Suc)
qed

lemma next_full_position_next:
  assumes "m_current_meter (ms_meter s) = table" "cycle_table table" "p < null_pos table"
    and "filter (\<lambda>i. \<not> fast_read (table ! i)) [Suc p..<null_pos table] = q # qs"
  shows "next_full_position F (with_full_position p s) = Some (with_full_position q s)"
  using assms(3,4)
proof (induction "null_pos table - p" arbitrary: p)
  case (Suc k)
  have lt: "Suc p < null_pos table" using Suc.prems by (cases "Suc p < null_pos table") simp_all
  then have cons: "[Suc p..<null_pos table] = Suc p # [Suc (Suc p)..<null_pos table]"
    by (rule upt_conv_Cons)
  show ?case
  proof (cases "fast_read (table ! Suc p)")
    case True
    then have "next_full_position F (with_full_position (Suc p) s) = Some (with_full_position q s)"
      using Suc.hyps(1)[of "Suc p"] Suc.hyps(2) Suc.prems lt by (simp add: cons)
    then show ?thesis
      using next_full_position_step[OF assms(1,2) Suc.prems(1), of F] lt True by simp
  next
    case False
    then show ?thesis
      using next_full_position_step[OF assms(1,2) Suc.prems(1), of F] lt Suc.prems(2) by (simp add: cons)
  qed
qed simp

lemma next_full_position_wraps:
  assumes "m_current_meter (ms_meter s) = table" "cycle_table table" "p < null_pos table"
    and "length (ms_set s) = METER_REGISTER_NUM"
    and "filter (\<lambda>i. \<not> fast_read (table ! i)) [Suc p..<null_pos table] = []"
  shows "\<exists>s'. next_full_position F (with_full_position p s) = Some s' \<and>
    meter_handle_register_set_read_done F (with_full_position 0 s) = Some s' \<and>
    m_register_full_position (ms_meter s') = 0 \<and> m_each_value_read_once (ms_meter s')"
  using assms(3,5)
proof (induction "null_pos table - p" arbitrary: p)
  case (Suc k)
  show ?case
  proof (cases "Suc p = null_pos table")
    case True
    have len: "0 < length table" "\<not> fast_read (table ! 0)" using assms(2) by (auto simp: cycle_table_def)
    obtain s' where "meter_handle_register_set_read_done F (with_full_position 0 s) = Some s'"
      "m_register_full_position (ms_meter s') = 0" "m_each_value_read_once (ms_meter s')"
      "m_current_meter (ms_meter s') = table"
      using assms(1,4) by (auto simp: meter_handle_register_set_read_done_def METER_REGISTER_NUM_def
          arr_get_def arr_set_def Let_def upd_meter_def with_full_position_def)
    then show ?thesis
      using next_full_position_step[OF assms(1,2) Suc.prems(1), of F] len True
      by (simp add: current_definition_def arr_get_def)
  next
    case False
    then have lt: "Suc p < null_pos table" using Suc.prems by simp
    then have "[Suc p..<null_pos table] = Suc p # [Suc (Suc p)..<null_pos table]"
      by (rule upt_conv_Cons)
    then show ?thesis
      using Suc.hyps(1)[of "Suc p"] Suc.hyps(2) Suc.prems lt
        next_full_position_step[OF assms(1,2) Suc.prems(1), of F] by (simp split: if_splits)
  qed
qed simp

text \<open>The positions a number of turns of the slow cycle reads.\<close>

fun walk_full :: "float_ops \<Rightarrow> nat \<Rightarrow> meter_sys \<Rightarrow> (nat list \<times> meter_sys) option" where
  "walk_full F 0 s = Some ([], s)"
| "walk_full F (Suc k) s = do {
     s1 \<leftarrow> next_full_position F s;
     (ps, s2) \<leftarrow> walk_full F k s1;
     Some (unat (m_register_full_position (ms_meter s)) # ps, s2)
   }"

lemma walk_full_rest:
  assumes "m_current_meter (ms_meter s) = table" "cycle_table table" "p < null_pos table"
    and "length (ms_set s) = METER_REGISTER_NUM"
    and "ps = filter (\<lambda>i. \<not> fast_read (table ! i)) [Suc p..<null_pos table]"
  shows "\<exists>s'. walk_full F (Suc (length ps)) (with_full_position p s) = Some (p # ps, s') \<and>
    meter_handle_register_set_read_done F (with_full_position 0 s) = Some s' \<and>
    m_register_full_position (ms_meter s') = 0 \<and> m_each_value_read_once (ms_meter s')"
  using assms(3,5)
proof (induction ps arbitrary: p)
  case Nil
  have "p < 256" using Nil.prems(1) assms(2) by (simp add: cycle_table_def)
  then show ?case
    using next_full_position_wraps[OF assms(1,2) Nil.prems(1) assms(4), of F] Nil.prems(2)
    by (auto simp: unat_of_nat_16)
next
  case (Cons q ps)
  have p: "p < 256" using Cons.prems(1) assms(2) by (simp add: cycle_table_def)
  have q: "q \<in> set [Suc p..<null_pos table]" "\<not> fast_read (table ! q)"
    using list.set_intros(1)[of q ps] unfolding Cons.prems(2) by simp_all
  have "[Suc p..<null_pos table] = [Suc p..<q] @ q # [Suc q..<null_pos table]"
    using q(1) upt_add_eq_append[of "Suc p" q "null_pos table - q"] by (simp add: upt_conv_Cons)
  then have "filter (\<lambda>i. \<not> fast_read (table ! i)) [Suc p..<q] @ q #
      filter (\<lambda>i. \<not> fast_read (table ! i)) [Suc q..<null_pos table] = q # ps"
    using q(2) Cons.prems(2) by simp
  moreover have "q \<notin> set (filter (\<lambda>i. \<not> fast_read (table ! i)) [Suc p..<q])" by simp
  ultimately have ps: "ps = filter (\<lambda>i. \<not> fast_read (table ! i)) [Suc q..<null_pos table]"
    by (cases "filter (\<lambda>i. \<not> fast_read (table ! i)) [Suc p..<q]") auto
  have "next_full_position F (with_full_position p s) = Some (with_full_position q s)"
    by (rule next_full_position_next[OF assms(1,2) Cons.prems(1) Cons.prems(2) [symmetric]])
  moreover obtain s' where "walk_full F (Suc (length ps)) (with_full_position q s) = Some (q # ps, s')"
    "meter_handle_register_set_read_done F (with_full_position 0 s) = Some s'"
    "m_register_full_position (ms_meter s') = 0" "m_each_value_read_once (ms_meter s')"
    using Cons.IH[OF _ ps] q(1) by auto
  ultimately show ?case
    using walk_full.simps(2)[of F "Suc (length ps)" "with_full_position p s"] p
    by (simp add: unat_of_nat_16 del: walk_full.simps)
qed

lemma slow_positions_0: "cycle_table table \<Longrightarrow>
  slow_positions table = 0 # filter (\<lambda>i. \<not> fast_read (table ! i)) [Suc 0..<null_pos table]"
  by (simp add: slow_positions_def cycle_table_def upt_conv_Cons)

section \<open>The fast cycle\<close>

lemma next_fast_position_step:
  assumes t: "m_current_meter (ms_meter s) = table" "cycle_table table" and p: "p < null_pos table"
  shows "next_fast_position clk fast (with_fast_position p s) =
    (if Suc p = null_pos table
     then next_fast_position (\<lambda>n. clk (n + 2)) False (fast_cycle_done clk s)
     else if fast_read (table ! Suc p) then Some (fast, with_fast_position (Suc p) s)
     else next_fast_position (\<lambda>n. clk (n + 2)) fast (with_fast_position (Suc p) s))"
proof -
  have len: "Suc p < length table" "Suc p < 256" "0 < length table" "\<not> fast_read (table ! 0)"
    using t(2) p by (auto simp: cycle_table_def)
  have upd: "upd_meter (\<lambda>m. m \<lparr> m_register_fast_position := m_register_fast_position m + 1 \<rparr>)
      (with_fast_position p s) = with_fast_position (Suc p) s"
    by (simp add: with_fast_position_def upd_meter_def add.commute)
  have wrapped: "fast_cycle_done clk (with_fast_position q s) = fast_cycle_done clk s" for q
    by (simp add: fast_cycle_done_def with_fast_position_def upd_meter_def Let_def
        meter_handle_register_set_fast_read_done_def)
  have zero: "m_register_fast_position (ms_meter (fast_cycle_done clk s)) = 0"
    "m_current_meter (ms_meter (fast_cycle_done clk s)) = table"
    using t(1) by (simp_all add: fast_cycle_done_def upd_meter_def Let_def
        meter_handle_register_set_fast_read_done_def)
  have d: "current_definition (with_fast_position (Suc p) s) (of_nat (Suc p)) = Some (table ! Suc p)"
    using t(1) len unat_of_nat_16[of "Suc p"] by (simp add: current_definition_def arr_get_def del: of_nat_Suc)
  have d0: "current_definition (fast_cycle_done clk s) 0 = Some (table ! 0)"
    using zero len by (simp add: current_definition_def arr_get_def)
  show ?thesis
    using null_pos_nth(1)[of "Suc p" table] null_pos_nth(2)[of table] p t(2) d d0 len(4) zero(1)
    by (subst next_fast_position.simps) (auto simp: upd wrapped Let_def cycle_table_def simp del: of_nat_Suc)
qed

lemma next_fast_position_next:
  assumes "m_current_meter (ms_meter s) = table" "cycle_table table" "p < null_pos table"
    and "filter (\<lambda>i. fast_read (table ! i)) [Suc p..<null_pos table] = q # qs"
  shows "next_fast_position clk fast (with_fast_position p s) = Some (fast, with_fast_position q s)"
  using assms(3,4)
proof (induction "null_pos table - p" arbitrary: p clk)
  case (Suc k)
  have lt: "Suc p < null_pos table" using Suc.prems by (cases "Suc p < null_pos table") simp_all
  then have cons: "[Suc p..<null_pos table] = Suc p # [Suc (Suc p)..<null_pos table]"
    by (rule upt_conv_Cons)
  show ?case
  proof (cases "fast_read (table ! Suc p)")
    case False
    then have "next_fast_position (\<lambda>n. clk (n + 2)) fast (with_fast_position (Suc p) s) =
        Some (fast, with_fast_position q s)"
      using Suc.hyps(1)[of "Suc p"] Suc.hyps(2) Suc.prems lt by (simp add: cons)
    then show ?thesis
      using next_fast_position_step[OF assms(1,2) Suc.prems(1), of clk fast] lt False by simp
  next
    case True
    then show ?thesis
      using next_fast_position_step[OF assms(1,2) Suc.prems(1), of clk fast] lt Suc.prems(2) by (simp add: cons)
  qed
qed simp

lemma next_fast_position_wraps:
  assumes "m_current_meter (ms_meter s) = table" "cycle_table table" "p < null_pos table"
    and "filter (\<lambda>i. fast_read (table ! i)) [Suc p..<null_pos table] = []"
    and "fast_positions table = q # qs"
  shows "\<exists>clk'. next_fast_position clk fast (with_fast_position p s) =
    Some (False, with_fast_position q (fast_cycle_done clk' s))"
  using assms(3,4)
proof (induction "null_pos table - p" arbitrary: p clk fast)
  case (Suc k)
  show ?case
  proof (cases "Suc p = null_pos table")
    case True
    have cyc: "with_fast_position 0 (fast_cycle_done clk s) = fast_cycle_done clk s"
      "m_current_meter (ms_meter (fast_cycle_done clk s)) = table"
      using assms(1) by (simp_all add: fast_cycle_done_def with_fast_position_def upd_meter_def Let_def
        meter_handle_register_set_fast_read_done_def)
    have "0 < null_pos table" "\<not> fast_read (table ! 0)" using assms(2) by (simp_all add: cycle_table_def)
    then have "filter (\<lambda>i. fast_read (table ! i)) [Suc 0..<null_pos table] = q # qs"
      using assms(5) by (simp add: fast_positions_def upt_conv_Cons)
    from next_fast_position_next[OF cyc(2) assms(2) _ this, of "\<lambda>n. clk (n + 2)" False]
    show ?thesis
      using next_fast_position_step[OF assms(1,2) Suc.prems(1), of clk fast] True cyc(1)
        \<open>0 < null_pos table\<close> by auto
  next
    case False
    then have lt: "Suc p < null_pos table" using Suc.prems by simp
    then have "[Suc p..<null_pos table] = Suc p # [Suc (Suc p)..<null_pos table]"
      by (rule upt_conv_Cons)
    then show ?thesis
      using Suc.hyps(1)[of "Suc p" "\<lambda>n. clk (n + 2)" fast] Suc.hyps(2) Suc.prems lt
        next_fast_position_step[OF assms(1,2) Suc.prems(1), of clk fast] by (simp split: if_splits)
  qed
qed simp

text \<open>The positions a number of turns of the fast cycle reads, and the flag after them.\<close>

fun walk_fast :: "clk list \<Rightarrow> bool \<Rightarrow> meter_sys \<Rightarrow> (nat list \<times> bool \<times> meter_sys) option" where
  "walk_fast [] fast s = Some ([], fast, s)"
| "walk_fast (clk # clks) fast s = do {
     (fast1, s1) \<leftarrow> next_fast_position clk fast s;
     (ps, fast2, s2) \<leftarrow> walk_fast clks fast1 s1;
     Some (unat (m_register_fast_position (ms_meter s)) # ps, fast2, s2)
   }"

lemma filter_upt_split:
  assumes "filter P [a..<n] = q # qs"
  shows "a \<le> q" "q < n" "P q" "filter P [Suc q..<n] = qs"
proof -
  show q: "a \<le> q" "q < n" "P q" using list.set_intros(1)[of q qs] unfolding assms [symmetric] by simp_all
  have "[a..<n] = [a..<q] @ q # [Suc q..<n]"
    using q upt_add_eq_append[of a q "n - q"] by (simp add: upt_conv_Cons)
  then have "filter P [a..<q] @ q # filter P [Suc q..<n] = q # qs"
    using q(3) assms by simp
  moreover have "q \<notin> set (filter P [a..<q])" by simp
  ultimately show "filter P [Suc q..<n] = qs" by (cases "filter P [a..<q]") auto
qed

lemma walk_fast_rest:
  assumes "m_current_meter (ms_meter s) = table" "cycle_table table" "p < null_pos table"
    and "fast_positions table = q0 # qs0"
    and "ps = filter (\<lambda>i. fast_read (table ! i)) [Suc p..<null_pos table]"
    and "length clks = Suc (length ps)"
  shows "\<exists>clk. walk_fast clks True (with_fast_position p s) =
    Some (p # ps, False, with_fast_position q0 (fast_cycle_done clk s))"
  using assms(3,5,6)
proof (induction ps arbitrary: p clks)
  case Nil
  then obtain clk where clks: "clks = [clk]" by (cases clks) auto
  have "p < 256" using Nil.prems(1) assms(2) by (simp add: cycle_table_def)
  then show ?case
    using next_fast_position_wraps[OF assms(1,2) Nil.prems(1) _ assms(4), of clk True] Nil.prems(2)
    by (auto simp: clks unat_of_nat_16)
next
  case (Cons q ps)
  from Cons.prems(3) obtain clk cs where clks: "clks = clk # cs" "length cs = Suc (length ps)"
    by (cases clks) simp_all
  have p: "p < 256" using Cons.prems(1) assms(2) by (simp add: cycle_table_def)
  note sp = filter_upt_split[OF Cons.prems(2) [symmetric]]
  have "next_fast_position clk True (with_fast_position p s) = Some (True, with_fast_position q s)"
    by (rule next_fast_position_next[OF assms(1,2) Cons.prems(1) Cons.prems(2) [symmetric]])
  then show ?case
    using Cons.IH[OF sp(2) sp(4) [symmetric] clks(2)] p clks(1) by (auto simp: unat_of_nat_16)
qed



section \<open>Error responses\<close>

text \<open>An answer that timed out still overwrites the register: when the pending request of the slow
  cycle is answered by a timeout, the register's value becomes what the uninitialised local variable
  converts to, and the cycle goes on as after a good answer.\<close>

theorem timeout_stores_uninitialised:
  assumes "m_state (ms_meter s) = 1" "\<not> ms_generic_fast s"
    and "current_definition s (m_register_full_position (ms_meter s)) = Some d"
    and "register_set_address d = Reg_Set i" "i < length (ms_set s)" "convert_register F uninit d = Some v"
    and "meter_is_response_ready 4 (ms_rs s) = Some True" "master_request_timed_out (req (ms_rs s))"
  shows "meter_generic_tick F clk uninit s = do {
      s' \<leftarrow> next_full_position F (next_state (upd_rs modbus_clear_request
        ((upd_meter (\<lambda>m. m \<lparr> m_error_wait_time := clk 2 \<rparr>) s)
          \<lparr> ms_set := (ms_set s)[i := v] \<rparr>)));
      Some (s' \<lparr> ms_generic_fast := False \<rparr>)
    }"
  using assms
  by (simp add: meter_generic_tick_def read_cycle_response_def meter_get_register_size_def
      meter_get_read_registers_response_def meter_has_errors_def Let_def overlay_response_def
      current_definition_def upd_meter_def meter_handle_new_data_def
      store_register_def arr_set_def system_timer_get_ms_def)

lemma timeout_stores_uninitialised_witness:
  "\<forall>F u. \<exists>s'. meter_generic_tick F (\<lambda>_. 9) 7 ((meter_sys_blank (answered_master True) u)
      \<lparr> ms_meter := meter_blank \<lparr> m_state := 1, m_current_meter := meter_dem4a \<rparr> \<rparr>) = Some s' \<and>
    ms_set s' ! 0 = f_mul F (f_of_int F 7) 0x3A83126F"
proof (intro allI)
  fix F :: float_ops and u
  let ?s = "(meter_sys_blank (answered_master True) u)
      \<lparr> ms_meter := meter_blank \<lparr> m_state := 1, m_current_meter := meter_dem4a \<rparr> \<rparr>"
  let ?v = "f_mul F (f_of_int F 7) 0x3A83126F"
  define s1 where "s1 = next_state (upd_rs modbus_clear_request
    ((upd_meter (\<lambda>m. m \<lparr> m_error_wait_time := 9 \<rparr>) ?s) \<lparr> ms_set := (ms_set ?s)[0 := ?v] \<rparr>))"
  have d: "current_definition ?s (m_register_full_position (ms_meter ?s)) = Some (meter_dem4a ! 0)"
    by (simp add: current_definition_def meter_blank_def arr_get_def meter_dem4a_def)
  have conv: "register_set_address (meter_dem4a ! 0) = Reg_Set 0"
    "convert_register F 7 (meter_dem4a ! 0) = Some ?v"
    by (simp_all add: meter_dem4a_def convert_register_def)
  have tick: "meter_generic_tick F (\<lambda>_. 9) 7 ?s =
      do { s' \<leftarrow> next_full_position F s1; Some (s' \<lparr> ms_generic_fast := False \<rparr>) }"
    unfolding s1_def
    by (rule timeout_stores_uninitialised[OF _ _ d conv(1) _ conv(2), where clk = "\<lambda>_. 9"])
      (simp_all add: meter_sys_blank_def meter_blank_def METER_REGISTER_NUM_def answered_master_ok)
  have s1: "with_full_position 0 s1 = s1" "m_current_meter (ms_meter s1) = meter_dem4a" "ms_set s1 ! 0 = ?v"
    by (simp_all add: s1_def next_state_def with_full_position_def upd_rs_def upd_meter_def meter_sys_blank_def
        meter_blank_def METER_REGISTER_NUM_def)
  have np: "null_pos meter_dem4a = 35" by (simp add: null_pos_def meter_dem4a_def)
  have "cycle_table meter_dem4a" using table_of_type_cycle[of METER_TYPE_DEM4A]
    by (simp add: table_of_type_def meter_dem4a_def)
  moreover have "\<exists>qs. filter (\<lambda>i. \<not> fast_read (meter_dem4a ! i)) [Suc 0..<null_pos meter_dem4a] = 1 # qs"
  proof -
    have "[Suc 0..<35] = 1 # [2..<35 :: nat]" by (simp add: upt_conv_Cons)
    moreover have "\<not> fast_read (meter_dem4a ! 1)" by (simp add: meter_dem4a_def)
    ultimately show ?thesis unfolding np by simp
  qed
  ultimately have "next_full_position F s1 = Some (with_full_position 1 s1)"
    using next_full_position_next[OF s1(2), of 0 1 _ F] s1(1) np by auto
  then show "\<exists>s'. meter_generic_tick F (\<lambda>_. 9) 7 ?s = Some s' \<and> ms_set s' ! 0 = ?v"
    using tick s1(3) by simp
qed

end
