(* ===== verification/Meter_Eltako.thy ===== *)
theory Meter_Eltako
  imports Meter_Cycle
begin

text \<open>
  The Eltako meters of \<^verbatim>\<open>warp/meter_eltako.c\<close>: detection with its configuration
  writes, the derived values, and the tick that reads all registers at once. Modelled without
  USE\_SIMPLE\_SQRTF, USE\_SIMPLE\_ACOSF and HAS\_HARDWARE\_VERSION.
\<close>

abbreviation (input) METER_ELTAKO_HOLDING_REG_MANUFACTURING_CODE :: u16 where
  "METER_ELTAKO_HOLDING_REG_MANUFACTURING_CODE \<equiv> 64515"
abbreviation (input) METER_ELTAKO_HOLDING_REG_METER_CODE :: u16 where
  "METER_ELTAKO_HOLDING_REG_METER_CODE \<equiv> 64525"
abbreviation (input) METER_ELTAKO_HOLDING_REG_REVERSE_DIRECTION :: u16 where
  "METER_ELTAKO_HOLDING_REG_REVERSE_DIRECTION \<equiv> 63767"
abbreviation (input) METER_ELTAKO_REGISTER_COUNT :: u8 where "METER_ELTAKO_REGISTER_COUNT \<equiv> 76"

definition simple_sqrtf :: "float_ops \<Rightarrow> u32 \<Rightarrow> u32" where
  "simple_sqrtf F x = f_sqrt F x"

definition simple_acosf :: "float_ops \<Rightarrow> u32 \<Rightarrow> u32" where
  "simple_acosf F x = f_acos F x"

section \<open>Detection\<close>

definition next_find :: "meter_sys \<Rightarrow> meter_sys" where
  "next_find s = s \<lparr> ms_eltako_find := ms_eltako_find s + 1 \<rparr>"

definition eltako_request :: "clk \<Rightarrow> u16 \<Rightarrow> meter_sys \<Rightarrow> (meter_type \<times> meter_sys) option" where
  "eltako_request clk reg s = do {
     s1 \<leftarrow> on_rs (meter_read_registers (clk 1) MODBUS_FC_READ_HOLDING_REGISTERS 0x01 reg 2) s;
     Some (METER_TYPE_DETECTION, next_find s1)
   }"

definition eltako_write :: "clk \<Rightarrow> u16 \<Rightarrow> u32 \<Rightarrow> meter_sys \<Rightarrow> (meter_type \<times> meter_sys) option" where
  "eltako_write clk reg direction s = do {
     s1 \<leftarrow> on_rs (meter_write_register (clk 1) MODBUS_FC_WRITE_SINGLE_REGISTER 0x01 reg direction)
       (upd_rs modbus_clear_request s);
     Some (METER_TYPE_DETECTION, next_find s1)
   }"

text \<open>
  The upper half of the written union is uninitialised, but a single register write sends the lower
  half only.
\<close>

definition meter_eltako_is_connected :: "clk \<Rightarrow> u32 \<Rightarrow> meter_sys \<Rightarrow> (meter_type \<times> meter_sys) option" where
  "meter_eltako_is_connected clk uninit s =
     (let n = ms_eltako_find s; high = uninit AND 0xFFFF0000 in
      if n = 0 then eltako_request clk METER_ELTAKO_HOLDING_REG_MANUFACTURING_CODE (set_baudrate 9600 s)
      else if n = 1 then do {
        (ret, r, s1) \<leftarrow> meter_get_read_registers_response (clk 2) MODBUS_FC_READ_HOLDING_REGISTERS 2 s;
        if \<not> ret then Some (METER_TYPE_DETECTION, s1)
        else do {
          let s2 = upd_rs modbus_clear_request s1;
          if overlay_response 0xFFFFFFFF r = 0x0000000D then Some (METER_TYPE_DETECTION, next_find s2)
          else Some (METER_TYPE_UNKNOWN, s2 \<lparr> ms_eltako_find := 0 \<rparr>)
        }
      }
      else if n = 2 then eltako_request clk METER_ELTAKO_HOLDING_REG_METER_CODE s
      else if n = 3 then do {
        (ret, r, s1) \<leftarrow> meter_get_read_registers_response (clk 2) MODBUS_FC_READ_HOLDING_REGISTERS 2 s;
        if \<not> ret then Some (METER_TYPE_DETECTION, s1)
        else do {
          let s2 = upd_rs modbus_clear_request s1;
          let meter_code = overlay_response 0xFFFFFFFF r;
          if meter_code = 1 then Some (METER_TYPE_DSZ15DZMOD, s2)
          else if meter_code = 2 \<or> meter_code = 3 then Some (METER_TYPE_DETECTION, next_find s2)
          else Some (METER_TYPE_DSZ15DZMOD, s2)
        }
      }
      else if n = 4 then eltako_write clk METER_ELTAKO_HOLDING_REG_REVERSE_DIRECTION high s
      else if n = 5 then do {
        (ret, s1) \<leftarrow> meter_get_write_register_response (clk 2) MODBUS_FC_WRITE_SINGLE_REGISTER s;
        Some (METER_TYPE_DETECTION, if ret then next_find (upd_rs modbus_clear_request s1) else s1)
      }
      else if n = 6 then eltako_write clk (METER_ELTAKO_HOLDING_REG_REVERSE_DIRECTION + 1) (high OR 1) s
      else if n = 7 then do {
        (ret, s1) \<leftarrow> meter_get_write_register_response (clk 2) MODBUS_FC_WRITE_SINGLE_REGISTER s;
        Some (if ret then (METER_TYPE_DSZ16DZE, (upd_rs modbus_clear_request s1) \<lparr> ms_eltako_find := 0 \<rparr>)
              else (METER_TYPE_DETECTION, s1))
      }
      else Some (METER_TYPE_UNKNOWN, s \<lparr> ms_eltako_find := 0 \<rparr>))"

section \<open>Derived values\<close>

text \<open>One assignment to a field of the register set, from the fields.\<close>

definition assign :: "nat \<Rightarrow> ((nat \<Rightarrow> u32) \<Rightarrow> u32) \<Rightarrow> meter_sys \<Rightarrow> meter_sys option" where
  "assign i e s = (if length (ms_set s) = METER_REGISTER_NUM
     then Some (s \<lparr> ms_set := (ms_set s)[i := e (\<lambda>j. ms_set s ! j)] \<rparr>) else None)"

definition apparent :: "float_ops \<Rightarrow> nat \<Rightarrow> nat \<Rightarrow> (nat \<Rightarrow> u32) \<Rightarrow> u32" where
  "apparent F pf p r = (if f_eq F (r pf) f_0 then f_0 else f_div F (r p) (r pf))"

definition reactive :: "float_ops \<Rightarrow> nat \<Rightarrow> nat \<Rightarrow> nat \<Rightarrow> (nat \<Rightarrow> u32) \<Rightarrow> u32" where
  "reactive F pf ap p r = (if f_eq F (r pf) f_0 then f_0
     else simple_sqrtf F (f_sub F (f_mul F (r ap) (r ap)) (f_mul F (r p) (r p))))"

definition phase_angle :: "float_ops \<Rightarrow> nat \<Rightarrow> nat \<Rightarrow> (nat \<Rightarrow> u32) \<Rightarrow> u32" where
  "phase_angle F ap p r = (if f_eq F (r ap) f_0 then f_0 else simple_acosf F (f_div F (r p) (r ap)))"

definition sum3 :: "float_ops \<Rightarrow> nat \<Rightarrow> nat \<Rightarrow> nat \<Rightarrow> (nat \<Rightarrow> u32) \<Rightarrow> u32" where
  "sum3 F a b c r = f_add F (f_add F (r a) (r b)) (r c)"

definition neutral_square :: "float_ops \<Rightarrow> (nat \<Rightarrow> u32) \<Rightarrow> u32" where
  "neutral_square F r =
     (let a = r CurrentL1ImExSum; b = r CurrentL2ImExSum; c = r CurrentL3ImExSum in
      f_sub F (f_sub F (f_sub F (f_add F (f_add F (f_mul F a a) (f_mul F b b)) (f_mul F c c))
        (f_mul F a b)) (f_mul F a c)) (f_mul F b c))"

definition degrees :: "float_ops \<Rightarrow> nat \<Rightarrow> nat \<Rightarrow> (nat \<Rightarrow> u32) \<Rightarrow> u32" where
  "degrees F q phi r = (if f_less F (r q) f_0 then f_mul F (f_neg F (r phi)) f_57_29 else f_mul F (r phi) f_57_29)"

definition f_ABS :: "float_ops \<Rightarrow> u32 \<Rightarrow> u32" where
  "f_ABS F x = (if f_less F x f_0 then f_neg F x else x)"

definition dsz15dzmod_step :: "float_ops \<Rightarrow> u8 \<Rightarrow> meter_sys \<Rightarrow> (bool \<times> meter_sys) option" where
  "dsz15dzmod_step F state s =
     (let set = (\<lambda>i e. map_option (\<lambda>s'. (True, s')) (assign i e s)) in
      if state = 1 then set PowerApparentL1ImExSum (apparent F PowerFactorL1Directional PowerActiveL1ImExDiff)
      else if state = 2 then set PowerApparentL2ImExSum (apparent F PowerFactorL2Directional PowerActiveL2ImExDiff)
      else if state = 3 then set PowerApparentL3ImExSum (apparent F PowerFactorL3Directional PowerActiveL3ImExDiff)
      else if state = 4 then set PowerReactiveL1IndCapSum
        (reactive F PowerFactorL1Directional PowerApparentL1ImExSum PowerActiveL1ImExDiff)
      else if state = 5 then set PowerReactiveL2IndCapSum
        (reactive F PowerFactorL2Directional PowerApparentL2ImExSum PowerActiveL2ImExDiff)
      else if state = 6 then set PowerReactiveL3IndCapSum
        (reactive F PowerFactorL3Directional PowerApparentL3ImExSum PowerActiveL3ImExDiff)
      else if state = 7 then set PhaseAngleL1 (phase_angle F PowerApparentL1ImExSum PowerActiveL1ImExDiff)
      else if state = 8 then set PhaseAngleL2 (phase_angle F PowerApparentL2ImExSum PowerActiveL2ImExDiff)
      else if state = 9 then set PhaseAngleL3 (phase_angle F PowerApparentL3ImExSum PowerActiveL3ImExDiff)
      else if state = 10 then (if length (ms_set s) = METER_REGISTER_NUM
        then Some (True, s \<lparr> ms_eltako_value := neutral_square F (\<lambda>j. ms_set s ! j) \<rparr>) else None)
      else if state = 11 then set CurrentNImExSum (\<lambda>r. simple_sqrtf F (f_ABS F (ms_eltako_value s)))
      else if state = 12 then set VoltageLNAvg (\<lambda>r. f_div F (sum3 F VoltageL1N VoltageL2N VoltageL3N r) f_3)
      else if state = 13 then set CurrentLAvgImExSum
        (\<lambda>r. f_div F (sum3 F CurrentL1ImExSum CurrentL2ImExSum CurrentL3ImExSum r) f_3)
      else if state = 14 then set CurrentLSumImExSum (sum3 F CurrentL1ImExSum CurrentL2ImExSum CurrentL3ImExSum)
      else if state = 15 then set PowerApparentLSumImExSum
        (sum3 F PowerApparentL1ImExSum PowerApparentL2ImExSum PowerApparentL3ImExSum)
      else if state = 16 then set PowerReactiveLSumIndCapSum
        (sum3 F PowerReactiveL1IndCapDiff PowerReactiveL2IndCapDiff PowerReactiveL3IndCapDiff)
      else if state = 17 then set PhaseAngleLSum (sum3 F PhaseAngleL1 PhaseAngleL2 PhaseAngleL3)
      else if state = 18 then set EnergyActiveLSumImExSum
        (\<lambda>r. f_add F (r EnergyActiveLSumImport) (r EnergyActiveLSumExport))
      else if state = 19 then set FrequencyLAvg (\<lambda>r. NAN)
      else Some (False, s))"

definition dsz16dze_step :: "float_ops \<Rightarrow> u8 \<Rightarrow> meter_sys \<Rightarrow> (bool \<times> meter_sys) option" where
  "dsz16dze_step F state s =
     (let set = (\<lambda>i e. map_option (\<lambda>s'. (True, s')) (assign i e s)) in
      if state = 1 then set PhaseAngleL1 (\<lambda>r. simple_acosf F (r PhaseAngleL1))
      else if state = 2 then set PhaseAngleL1 (degrees F PowerReactiveL1IndCapDiff PhaseAngleL1)
      else if state = 3 then set PhaseAngleL2 (\<lambda>r. simple_acosf F (r PhaseAngleL2))
      else if state = 4 then set PhaseAngleL2 (degrees F PowerReactiveL2IndCapDiff PhaseAngleL2)
      else if state = 5 then set PhaseAngleL3 (\<lambda>r. simple_acosf F (r PhaseAngleL3))
      else if state = 6 then set PhaseAngleL3 (degrees F PowerReactiveL3IndCapDiff PhaseAngleL3)
      else if state = 7 then set PhaseAngleLSum (\<lambda>r. simple_acosf F (r PhaseAngleLSum))
      else if state = 8 then set PhaseAngleLSum (degrees F PowerReactiveLSumIndCapDiff PhaseAngleLSum)
      else Some (False, s))"

definition meter_eltako_handle_register_set_read_done ::
  "float_ops \<Rightarrow> u8 \<Rightarrow> meter_sys \<Rightarrow> (bool \<times> meter_sys) option" where
  "meter_eltako_handle_register_set_read_done F state s =
     (if state = 0 then map_option (\<lambda>s'. (True, s')) (meter_handle_register_set_read_done F s)
      else if m_type (ms_meter s) = METER_TYPE_DSZ15DZMOD then dsz15dzmod_step F state s
      else if m_type (ms_meter s) = METER_TYPE_DSZ16DZE then dsz16dze_step F state s
      else Some (True, s))"

section \<open>Tick\<close>

text \<open>Site 3 is the time stamp of the response, site 0 the elapsed test.\<close>

definition overlay_words :: "u32 list \<Rightarrow> response_data \<Rightarrow> u32 list option" where
  "overlay_words old r =
     (case r of
        Nothing_Written \<Rightarrow> Some old
      | Written_16 w \<Rightarrow> map_option (\<lambda>v. old[0 := (v AND 0xFFFF0000) OR ucast w]) (arr_get old 0)
      | Written_32 ws \<Rightarrow> if length ws \<le> length old then Some (ws @ drop (length ws) old) else None)"

definition eltako_handle_new_data :: "float_ops \<Rightarrow> meter_sys \<Rightarrow> meter_sys option" where
  "eltako_handle_new_data F s = do {
     d \<leftarrow> current_definition s (ucast (ms_eltako_i s));
     let reg = register_address d;
     if reg \<noteq> 0 then do {
       w \<leftarrow> arr_get (ms_eltako_data s) ((unat reg - 1) div 2);
       s1 \<leftarrow> meter_handle_new_data F w d s;
       Some (s1 \<lparr> ms_eltako_i := ms_eltako_i s1 + 1 \<rparr>)
     }
     else do {
       s1 \<leftarrow> meter_handle_phases_connected F (upd_rs modbus_clear_request (next_state s));
       Some (s1 \<lparr> ms_eltako_new := True, ms_eltako_i := 1 \<rparr>)
     }
   }"

definition eltako_calculate :: "float_ops \<Rightarrow> meter_sys \<Rightarrow> meter_sys option" where
  "eltako_calculate F s = do {
     (more, s1) \<leftarrow> meter_eltako_handle_register_set_read_done F (ms_eltako_i s) s;
     if more then Some (s1 \<lparr> ms_eltako_i := ms_eltako_i s1 + 1 \<rparr>)
     else do {
       (_, s2) \<leftarrow> meter_eltako_handle_register_set_read_done F 0 s1;
       Some ((meter_handle_register_set_fast_read_done s2) \<lparr> ms_eltako_new := False, ms_eltako_i := 0 \<rparr>)
     }
   }"

definition meter_eltako_tick :: "float_ops \<Rightarrow> clk \<Rightarrow> meter_sys \<Rightarrow> meter_sys option" where
  "meter_eltako_tick F clk s =
     (let n = m_state (ms_meter s) in
      if n = 0 then do {
        d \<leftarrow> current_definition s 0;
        map_option next_state (on_rs (meter_read_registers (clk 1) MODBUS_FC_READ_INPUT_REGISTERS (slave s)
          (register_address d) (ucast METER_ELTAKO_REGISTER_COUNT)) s)
      }
      else if n = 1 then do {
        (ret, r, s1) \<leftarrow> meter_get_read_registers_response (clk 2) MODBUS_FC_READ_INPUT_REGISTERS
          METER_ELTAKO_REGISTER_COUNT s;
        data \<leftarrow> overlay_words (ms_eltako_data s1) r;
        let s2 = s1 \<lparr> ms_eltako_data := data \<rparr>;
        Some (if ret then (next_state s2) \<lparr> ms_eltako_time := system_timer_get_ms (clk 3),
          ms_eltako_new := True, ms_eltako_i := 0 \<rparr> else s2)
      }
      else if n = 2 then (if ms_eltako_new s then eltako_handle_new_data F s else Some (next_state s))
      else if n = 3 then
        (if system_timer_is_time_elapsed_ms (clk 0) (ms_eltako_time s) 100
         then Some ((set_state 0 s) \<lparr> ms_eltako_new := False, ms_eltako_i := 0 \<rparr>)
         else if ms_eltako_new s then eltako_calculate F s
         else Some s)
      else Some (set_state 0 s))"

end
