(* ===== verification/Meter_Eltako_Props.thy ===== *)
theory Meter_Eltako_Props
  imports Meter_Cycle_Props Meter_Eltako
begin

text \<open>
  The block read of \<^verbatim>\<open>warp/meter_eltako.c\<close>: one response is spread over the registers
  of the table, one register per tick.
\<close>

fun eltako_ticks :: "float_ops \<Rightarrow> clk list \<Rightarrow> meter_sys \<Rightarrow> meter_sys option" where
  "eltako_ticks F [] s = Some s"
| "eltako_ticks F (clk # clks) s = do { s1 \<leftarrow> meter_eltako_tick F clk s; eltako_ticks F clks s1 }"

definition eltako_store :: "float_ops \<Rightarrow> u32 list \<Rightarrow> meter_definition \<Rightarrow> meter_register_set \<Rightarrow> meter_register_set" where
  "eltako_store F data d rset =
     (case register_set_address d of
        Reg_Set i \<Rightarrow> rset[i := f_mul F (f_of_int F (sint (data ! ((unat (register_address d) - 1) div 2))))
          (scale_factor d)]
      | _ \<Rightarrow> rset)"

text \<open>All registers lie within the 76 that are requested.\<close>

definition eltako_row :: "meter_definition \<Rightarrow> bool" where
  "eltako_row d \<longleftrightarrow> register_address d \<noteq> 0 \<and> unat (register_address d) \<le> 76 \<and>
     register_data_type d = METER_REGISTER_DATA_TYPE_INT32 \<and> in_register_set (register_set_address d)"

definition eltako_table :: "meter_definition list \<Rightarrow> bool" where
  "eltako_table table \<longleftrightarrow> cycle_table table \<and> list_all eltako_row (take (null_pos table) table) \<and>
     register_address (table ! null_pos table) = 0"

lemma eltako_tables: "t \<in> {METER_TYPE_DSZ15DZMOD, METER_TYPE_DSZ16DZE} \<Longrightarrow> eltako_table (table_of_type t)"
  by (auto simp: eltako_table_def cycle_table_def table_of_type_def null_pos_def meter_dsz15dzmod_def
      meter_dsz16dze_def eltako_row_def in_register_set_def METER_REGISTER_NUM_def)

lemma length_eltako_store [simp]: "length (eltako_store F data d rset) = length rset"
  by (simp add: eltako_store_def split: register_set_address.split)

definition eltako_handling :: "meter_definition list \<Rightarrow> u32 list \<Rightarrow> nat \<Rightarrow> meter_sys \<Rightarrow> bool" where
  "eltako_handling table data i s \<longleftrightarrow>
     m_current_meter (ms_meter s) = table \<and> m_state (ms_meter s) = 2 \<and> ms_eltako_new s \<and>
     ms_eltako_data s = data \<and> length (ms_set s) = METER_REGISTER_NUM \<and> ms_eltako_i s = of_nat i"

lemma unat_ucast_8_16: "i < 256 \<Longrightarrow> unat (ucast (of_nat i :: u8) :: u16) = i"
  by (simp add: unat_ucast_u8 unat_of_nat take_bit_nat_eq_self)

lemma eltako_tick_row:
  assumes "eltako_handling table data i s" "eltako_table table" "i < null_pos table" "38 \<le> length data"
  shows "\<exists>s'. meter_eltako_tick F clk s = Some s' \<and> eltako_handling table data (Suc i) s' \<and>
    ms_set s' = eltako_store F data (table ! i) (ms_set s)"
proof -
  have i: "i < length table" "i < 256" "eltako_row (table ! i)"
    using assms(2,3) by (auto simp: eltako_table_def cycle_table_def list_all_length)
  then obtain k where k: "register_set_address (table ! i) = Reg_Set k" "k < METER_REGISTER_NUM"
    by (auto simp: eltako_row_def in_register_set_def split: register_set_address.splits)
  have d: "current_definition s (ucast (ms_eltako_i s)) = Some (table ! i)"
    using assms(1) i unat_ucast_8_16[of i] by (simp add: current_definition_def eltako_handling_def arr_get_def)
  have "(unat (register_address (table ! i)) - 1) div 2 < length data"
    using i(3) assms(4) by (auto simp: eltako_row_def)
  with assms(1) i(3) k d show ?thesis
    by (auto simp: meter_eltako_tick_def Let_def eltako_handle_new_data_def eltako_handling_def
        eltako_row_def arr_get_def meter_handle_new_data_def convert_register_def store_register_def
        arr_set_def eltako_store_def)
qed

lemma eltako_ticks_rows:
  assumes "eltako_handling table data i s" "eltako_table table" "i + n = null_pos table" "38 \<le> length data"
    and "length clks = n"
  shows "\<exists>s'. eltako_ticks F (clks @ rest) s = eltako_ticks F rest s' \<and>
    eltako_handling table data (null_pos table) s' \<and>
    ms_set s' = fold (eltako_store F data) (take n (drop i table)) (ms_set s)"
  using assms(1,3,5)
proof (induction n arbitrary: i s clks)
  case (Suc n)
  then obtain clk cs where clks: "clks = clk # cs" "length cs = n" by (cases clks) auto
  have i: "i < null_pos table" "i < length table"
    using Suc.prems(2) assms(2) by (auto simp: eltako_table_def cycle_table_def)
  obtain s1 where s1: "meter_eltako_tick F clk s = Some s1" "eltako_handling table data (Suc i) s1"
    "ms_set s1 = eltako_store F data (table ! i) (ms_set s)"
    using eltako_tick_row[OF Suc.prems(1) assms(2) i(1) assms(4)] by blast
  have "take (Suc n) (drop i table) = table ! i # take n (drop (Suc i) table)"
    using i(2) by (simp add: Cons_nth_drop_Suc [symmetric])
  moreover obtain s' where "eltako_ticks F (cs @ rest) s1 = eltako_ticks F rest s'"
    "eltako_handling table data (null_pos table) s'"
    "ms_set s' = fold (eltako_store F data) (take n (drop (Suc i) table)) (ms_set s1)"
    using Suc.IH[OF s1(2) _ clks(2)] Suc.prems(2) by auto
  ultimately show ?case
    using s1 clks(1) by auto
qed auto

text \<open>One Eltako response fills every register: from a fresh response, one tick for each row of
  the table and one for its end marker store every row's value, the signed 32 bit word at its place in
  the response times its scale factor, read no word beyond the 38 of the response, and leave the meter
  in the calculating state with the request given free.\<close>

theorem eltako_block_decoded:
  assumes "t \<in> {METER_TYPE_DSZ15DZMOD, METER_TYPE_DSZ16DZE}" "table = table_of_type t"
    and "eltako_handling table data 0 s" "38 \<le> length data" "length clks = Suc (null_pos table)"
  shows "\<exists>s'. eltako_ticks F clks s = Some s' \<and>
    ms_set s' = fold (eltako_store F data) (take (null_pos table) table) (ms_set s) \<and>
    m_state (ms_meter s') = 3 \<and> ms_eltako_i s' = 1 \<and> ms_eltako_new s' \<and>
    req_state (req (ms_rs s')) = MODBUS_REQUEST_PROCESS_STATE_READY"
proof -
  have tab: "eltako_table table" using eltako_tables[OF assms(1)] assms(2) by simp
  define cs where "cs = butlast clks"
  have clks: "clks = cs @ [last clks]" "length cs = null_pos table"
    using assms(5) by (auto simp: cs_def intro: append_butlast_last_id [symmetric])
  obtain s1 where s1: "eltako_ticks F clks s = eltako_ticks F [last clks] s1"
    "eltako_handling table data (null_pos table) s1"
    "ms_set s1 = fold (eltako_store F data) (take (null_pos table) table) (ms_set s)"
    using eltako_ticks_rows[OF assms(3) tab _ assms(4) clks(2), of F "[last clks]"] clks(1) by auto
  have len: "null_pos table < length table" "null_pos table < 256" "register_address (table ! null_pos table) = 0"
    using tab by (auto simp: eltako_table_def cycle_table_def)
  have "current_definition s1 (ucast (ms_eltako_i s1)) = Some (table ! null_pos table)"
    using s1(2) len unat_ucast_8_16[of "null_pos table"]
    by (simp add: current_definition_def eltako_handling_def arr_get_def)
  then have "\<exists>s'. meter_eltako_tick F (last clks) s1 = Some s' \<and> ms_set s' = ms_set s1 \<and>
      m_state (ms_meter s') = 3 \<and> ms_eltako_i s' = 1 \<and> ms_eltako_new s' \<and>
      req_state (req (ms_rs s')) = MODBUS_REQUEST_PROCESS_STATE_READY"
    using s1(2) len(3)
    by (simp add: meter_eltako_tick_def eltako_handle_new_data_def eltako_handling_def Let_def
        meter_handle_phases_connected_def METER_REGISTER_NUM_def arr_get_def next_state_def upd_rs_def
        upd_meter_def modbus_clear_request_def upd_rtu_def)
  then show ?thesis using s1(1,3) by auto
qed

lemma eltako_block_decoded_witness:
  "\<forall>F u. \<exists>s'. eltako_ticks F (replicate 17 (\<lambda>_. 0)) ((meter_sys_blank idle_master u)
      \<lparr> ms_meter := meter_blank \<lparr> m_current_meter := meter_dsz15dzmod, m_state := 2 \<rparr>, ms_eltako_new := True \<rparr>) =
        Some s' \<and> m_state (ms_meter s') = 3"
proof (intro allI)
  fix F u
  let ?s = "(meter_sys_blank idle_master u)
      \<lparr> ms_meter := meter_blank \<lparr> m_current_meter := meter_dsz15dzmod, m_state := 2 \<rparr>, ms_eltako_new := True \<rparr>"
  have T: "meter_dsz15dzmod = table_of_type METER_TYPE_DSZ15DZMOD" by (simp add: table_of_type_def)
  have np: "null_pos meter_dsz15dzmod = 16" by (simp add: null_pos_def meter_dsz15dzmod_def)
  show "\<exists>s'. eltako_ticks F (replicate 17 (\<lambda>_. 0)) ?s = Some s' \<and> m_state (ms_meter s') = 3"
    using eltako_block_decoded[OF _ T, of "replicate 76 0" ?s "replicate 17 (\<lambda>_. 0)" F] np
    by (auto simp: eltako_handling_def meter_sys_blank_def)
qed

end
