(* ===== verification/Meter_Iskra.thy ===== *)
theory Meter_Iskra
  imports Meter_Cycle
begin

text \<open>
  The Iskra meters of \<^verbatim>\<open>warp/meter_iskra.c\<close>: detection, the interleaved fast read of
  two register blocks, and the tick. Modelled with METER\_ISKRA\_FAST\_READ\_ENABLED and without
  HAS\_HARDWARE\_VERSION (no Eichrecht, no display).
\<close>

abbreviation (input) METER_ISKRA_INPUT_REG_MODEL_NUMBER :: u16 where "METER_ISKRA_INPUT_REG_MODEL_NUMBER \<equiv> 2"
abbreviation (input) METER_ISKRA_FAST_INTERVAL_MS :: u32 where "METER_ISKRA_FAST_INTERVAL_MS \<equiv> 100"
abbreviation (input) METER_ISKRA_FAST_REG_VF_START :: u16 where "METER_ISKRA_FAST_REG_VF_START \<equiv> 106"
abbreviation (input) METER_ISKRA_FAST_REG_VF_COUNT :: u8 where "METER_ISKRA_FAST_REG_VF_COUNT \<equiv> 8"
abbreviation (input) METER_ISKRA_FAST_REG_I_START :: u16 where "METER_ISKRA_FAST_REG_I_START \<equiv> 127"
abbreviation (input) METER_ISKRA_FAST_REG_I_COUNT :: u8 where "METER_ISKRA_FAST_REG_I_COUNT \<equiv> 6"

definition meter_wm3m4c_fast :: "meter_definition list" where
  "meter_wm3m4c_fast = [
     mdef 106 (Reg_Set FrequencyLAvg) f_1 METER_REGISTER_DATA_TYPE_T5 False,
     mdef 108 (Reg_Set VoltageL1N) f_1 METER_REGISTER_DATA_TYPE_T5 False,
     mdef 110 (Reg_Set VoltageL2N) f_1 METER_REGISTER_DATA_TYPE_T5 False,
     mdef 112 (Reg_Set VoltageL3N) f_1 METER_REGISTER_DATA_TYPE_T5 False,
     mdef 127 (Reg_Set CurrentL1ImExSum) f_1 METER_REGISTER_DATA_TYPE_T5 False,
     mdef 129 (Reg_Set CurrentL2ImExSum) f_1 METER_REGISTER_DATA_TYPE_T5 False,
     mdef 131 (Reg_Set CurrentL3ImExSum) f_1 METER_REGISTER_DATA_TYPE_T5 False]"

section \<open>The fast read\<close>

definition upd_iskra :: "(meter_iskra \<Rightarrow> meter_iskra) \<Rightarrow> meter_sys \<Rightarrow> meter_sys" where
  "upd_iskra f s = s \<lparr> ms_iskra := f (ms_iskra s) \<rparr>"

definition meter_iskra_response_had_error :: "rs485 \<Rightarrow> bool option" where
  "meter_iskra_response_had_error rs =
     (if master_request_timed_out (req rs) then Some True
      else do {
        rx1 \<leftarrow> arr_get (rs_buffer rs) (rx_frame (req rs) + 1);
        tx1 \<leftarrow> arr_get (rs_buffer rs) (tx_frame (req rs) + 1);
        Some (unat rx1 = unat tx1 + 0x80)
      })"

text \<open>The calls of \<^verbatim>\<open>meter_handle_new_data\<close> for consecutive words and definitions.\<close>

fun handle_block :: "float_ops \<Rightarrow> u32 list \<Rightarrow> meter_definition list \<Rightarrow> meter_sys \<Rightarrow> meter_sys option" where
  "handle_block F ws [] s = Some s"
| "handle_block F [] (d # ds) s = None"
| "handle_block F (w # ws) (d # ds) s = do { s1 \<leftarrow> meter_handle_new_data F w d s; handle_block F ws ds s1 }"

definition read_block :: "u32 list \<Rightarrow> response_data \<Rightarrow> u32 list" where
  "read_block uninit r = (case r of Written_32 ws \<Rightarrow> ws | _ \<Rightarrow> uninit)"

text \<open>Site 3 is the start of a fast cycle, site 4 the end of its first half.\<close>

definition meter_iskra_fast_tick :: "float_ops \<Rightarrow> clk \<Rightarrow> u32 list \<Rightarrow> meter_sys \<Rightarrow> meter_sys option" where
  "meter_iskra_fast_tick F clk uninit s =
     (let n = fast_state (ms_iskra s);
          next = upd_iskra (\<lambda>i. i \<lparr> fast_state := fast_state i + 1 \<rparr>);
          finish = upd_iskra (\<lambda>i. i \<lparr> fast_state := 0, fast_active := False \<rparr>)
      in
      if n = 0 then map_option next (on_rs (meter_read_registers (clk 1) MODBUS_FC_READ_INPUT_REGISTERS
          (slave s) METER_ISKRA_FAST_REG_VF_START (ucast METER_ISKRA_FAST_REG_VF_COUNT))
        (upd_iskra (\<lambda>i. i \<lparr> fast_active := True, fast_start_time := system_timer_get_ms (clk 3) \<rparr>) s))
      else if n = 1 then do {
        (ret, r, s1) \<leftarrow> meter_get_read_registers_response (clk 2) MODBUS_FC_READ_INPUT_REGISTERS
          METER_ISKRA_FAST_REG_VF_COUNT s;
        if \<not> ret then Some s1
        else do {
          bad \<leftarrow> meter_iskra_response_had_error (ms_rs s1);
          s2 \<leftarrow> (if bad then Some s1
            else do {
              a \<leftarrow> handle_block F (read_block uninit r) (take 4 meter_wm3m4c_fast) s1;
              b \<leftarrow> meter_handle_phases_connected F a;
              Some (upd_meter (\<lambda>m. m \<lparr> m_register_fast_time := system_timer_get_ms (clk 4) \<rparr>) b)
            });
          Some (next (upd_rs modbus_clear_request s2))
        }
      }
      else if n = 2 then map_option next (on_rs (meter_read_registers (clk 1) MODBUS_FC_READ_INPUT_REGISTERS
          (slave s) METER_ISKRA_FAST_REG_I_START (ucast METER_ISKRA_FAST_REG_I_COUNT)) s)
      else if n = 3 then do {
        (ret, r, s1) \<leftarrow> meter_get_read_registers_response (clk 2) MODBUS_FC_READ_INPUT_REGISTERS
          METER_ISKRA_FAST_REG_I_COUNT s;
        if \<not> ret then Some s1
        else do {
          bad \<leftarrow> meter_iskra_response_had_error (ms_rs s1);
          s2 \<leftarrow> (if bad then Some s1 else handle_block F (read_block uninit r) (drop 4 meter_wm3m4c_fast) s1);
          Some (finish (upd_rs modbus_clear_request s2))
        }
      }
      else Some (finish s))"

section \<open>Detection\<close>

definition meter_iskra_is_connected :: "clk \<Rightarrow> meter_sys \<Rightarrow> (meter_type \<times> meter_sys) option" where
  "meter_iskra_is_connected clk s =
     (if ms_iskra_find s = 0 then do {
        s1 \<leftarrow> on_rs (meter_read_registers (clk 1) MODBUS_FC_READ_INPUT_REGISTERS 0x21
          METER_ISKRA_INPUT_REG_MODEL_NUMBER 4) (set_baudrate 115200 s);
        Some (METER_TYPE_DETECTION, s1 \<lparr> ms_iskra_find := ms_iskra_find s1 + 1 \<rparr>)
      }
      else if ms_iskra_find s = 1 then do {
        (ret, r, s1) \<leftarrow> meter_get_read_registers_response (clk 2) MODBUS_FC_READ_INPUT_REGISTERS 4 s;
        if \<not> ret then Some (METER_TYPE_DETECTION, s1)
        else do {
          let s2 = upd_rs modbus_clear_request (s1 \<lparr> ms_iskra_find := 0 \<rparr>);
          let model_number = read_block [0xFFFFFFFF, 0xFFFFFFFF] r;
          n0 \<leftarrow> arr_get model_number 0;
          n1 \<leftarrow> arr_get model_number 1;
          Some (if n0 = 0x574D334D then
              (if n1 AND 0xFFFF0000 = 0x34430000 then METER_TYPE_WM3M4C
               else if n1 AND 0xFF000000 = 0x34000000 then METER_TYPE_WM3M4
               else METER_TYPE_UNKNOWN)
            else METER_TYPE_UNKNOWN, s2)
        }
      }
      else Some (METER_TYPE_UNKNOWN, s \<lparr> ms_iskra_find := 0 \<rparr>))"

section \<open>Tick\<close>

definition meter_iskra_handle_register_set_read_done :: "float_ops \<Rightarrow> meter_sys \<Rightarrow> meter_sys option" where
  "meter_iskra_handle_register_set_read_done F s = do {
     c0 \<leftarrow> arr_get (energy_counter (ms_iskra s)) 0;
     c1 \<leftarrow> arr_get (energy_counter (ms_iskra s)) 1;
     let imp = f_div F c0 f_1000;
     let exp = f_div F c1 f_1000;
     set1 \<leftarrow> arr_set (ms_set s) EnergyActiveLSumImport imp;
     set2 \<leftarrow> arr_set set1 EnergyActiveLSumExport exp;
     set3 \<leftarrow> arr_set set2 EnergyActiveLSumImExSum (f_sub F imp exp);
     s1 \<leftarrow> meter_handle_register_set_read_done F (s \<lparr> ms_set := set3 \<rparr>);
     Some (meter_handle_register_set_fast_read_done s1)
   }"

definition iskra_next_position :: "float_ops \<Rightarrow> meter_sys \<Rightarrow> meter_sys option" where
  "iskra_next_position F s = do {
     let s1 = upd_meter (\<lambda>m. m \<lparr> m_register_full_position := m_register_full_position m + 1 \<rparr>) s;
     d \<leftarrow> current_definition s1 (m_register_full_position (ms_meter s1));
     if register_set_address d = Reg_Null
     then meter_iskra_handle_register_set_read_done F
       (upd_meter (\<lambda>m. m \<lparr> m_register_full_position := 0 \<rparr>) s1)
     else Some s1
   }"

definition iskra_status_request :: "clk \<Rightarrow> u16 \<Rightarrow> meter_sys \<Rightarrow> meter_sys option" where
  "iskra_status_request clk reg s = map_option next_state
     (on_rs (meter_read_registers (clk 1) MODBUS_FC_READ_HOLDING_REGISTERS (slave s) reg 1) s)"

definition meter_iskra_tick :: "float_ops \<Rightarrow> clk \<Rightarrow> u32 \<Rightarrow> u32 list \<Rightarrow> meter_sys \<Rightarrow> meter_sys option" where
  "meter_iskra_tick F clk uninit block s =
     (let m = ms_meter s; n = m_state m in
      if fast_active (ms_iskra s) \<or>
         (n = 0 \<and> system_timer_is_time_elapsed_ms (clk 0) (fast_start_time (ms_iskra s)) METER_ISKRA_FAST_INTERVAL_MS)
      then meter_iskra_fast_tick F clk block s
      else if n = 0 then do {
        d \<leftarrow> current_definition s (m_register_full_position m);
        k \<leftarrow> meter_get_register_size s (m_register_full_position m);
        map_option next_state (on_rs (meter_read_registers (clk 1) MODBUS_FC_READ_INPUT_REGISTERS (slave s)
          (register_address d) (ucast k)) s)
      }
      else if n = 1 then do {
        k \<leftarrow> meter_get_register_size s (m_register_full_position m);
        (ret, r, s1) \<leftarrow> meter_get_read_registers_response (clk 2) MODBUS_FC_READ_INPUT_REGISTERS k s;
        if \<not> ret then Some s1
        else do {
          d \<leftarrow> current_definition s1 (m_register_full_position m);
          s2 \<leftarrow> meter_handle_new_data F (overlay_response uninit r) d s1;
          iskra_next_position F (next_state (upd_rs modbus_clear_request s2))
        }
      }
      else if n = 2 then
        (if m_register_full_position m \<noteq> 0 \<or> \<not> m_each_value_read_once m then Some (set_state 0 s)
         else map_option next_state (meter_handle_phases_connected F s))
      else if n = 3 then iskra_status_request clk (7000 + 1) s
      else if n = 4 then do {
        (ret, r, s1) \<leftarrow> meter_get_read_registers_response (clk 2) MODBUS_FC_READ_HOLDING_REGISTERS 1 s;
        Some (if ret then next_state (upd_rs modbus_clear_request (upd_iskra (\<lambda>i. i \<lparr> measurement_status :=
          overlay_response_16 (measurement_status i) r \<rparr>) s1)) else s1)
      }
      else if n = 5 then iskra_status_request clk (7052 + 1) s
      else if n = 6 then do {
        (ret, r, s1) \<leftarrow> meter_get_read_registers_response (clk 2) MODBUS_FC_READ_HOLDING_REGISTERS 1 s;
        Some (if ret then next_state (upd_rs modbus_clear_request (upd_iskra (\<lambda>i. i \<lparr> signature_status :=
          overlay_response_16 (signature_status i) r \<rparr>) s1)) else s1)
      }
      else Some (set_state 0 s))"

end
