(* ===== verification/Meter_Tick.thy ===== *)
theory Meter_Tick
  imports Meter_Cycle_Props Meter_Eltako Meter_Iskra
begin

text \<open>
  Detection and dispatch of \<^verbatim>\<open>warp/meter.c\<close>: \<^verbatim>\<open>meter_find_meter_type\<close> and
  \<^verbatim>\<open>meter_tick\<close>. The endless loop that waits for the watchdog is an outcome of its own.
  Clock sites 10 to 13 are the readings of the tick itself.
\<close>

definition meter_find_meter_type :: "clk \<Rightarrow> u32 \<Rightarrow> meter_sys \<Rightarrow> meter_sys option" where
  "meter_find_meter_type clk uninit s =
     (if ms_find_state s > 3 then Some (s \<lparr> ms_find_state := 0 \<rparr>)
      else do {
        (t, s1) \<leftarrow> (if ms_find_state s = 0 then meter_generic_is_connected clk s
          else if ms_find_state s = 1 then meter_eastron_is_connected clk s
          else if ms_find_state s = 2 then meter_eltako_is_connected clk uninit s
          else meter_iskra_is_connected clk s);
        let s2 = meter_reset_error_counter s1;
        if t = METER_TYPE_DETECTION then Some s2
        else if t \<noteq> METER_TYPE_UNKNOWN
        then map_option (\<lambda>s3. s3 \<lparr> ms_find_state := 0 \<rparr>) (meter_set_meter_type (\<lambda>_. clk 10) t s2)
        else Some (s2 \<lparr> ms_find_state := ms_find_state s2 + 1 \<rparr>)
      })"

datatype tick_outcome = Ticked meter_sys | Watchdog

definition vendor_tick :: "float_ops \<Rightarrow> clk \<Rightarrow> u32 \<Rightarrow> u32 list \<Rightarrow> meter_sys \<Rightarrow> meter_sys option" where
  "vendor_tick F clk uninit block s =
     (case m_type (ms_meter s) of
        METER_TYPE_SDM72V2 \<Rightarrow> meter_eastron_tick F clk uninit s
      | METER_TYPE_SDM630 \<Rightarrow> meter_eastron_tick F clk uninit s
      | METER_TYPE_SDM630MCTV2 \<Rightarrow> meter_eastron_tick F clk uninit s
      | METER_TYPE_DEM4A \<Rightarrow> meter_generic_tick F clk uninit s
      | METER_TYPE_DMED341MID7ER \<Rightarrow> meter_generic_tick F clk uninit s
      | METER_TYPE_WM3M4C \<Rightarrow> meter_iskra_tick F clk uninit block s
      | METER_TYPE_WM3M4 \<Rightarrow> meter_iskra_tick F clk uninit block s
      | METER_TYPE_DSZ15DZMOD \<Rightarrow> meter_eltako_tick F clk s
      | METER_TYPE_DSZ16DZE \<Rightarrow> meter_eltako_tick F clk s
      | _ \<Rightarrow> Some s)"

text \<open>
  A waiting time that is set holds the tick back until it has elapsed and is cleared then. The
  result says whether the tick goes on.
\<close>

definition error_wait :: "clk \<Rightarrow> meter_sys \<Rightarrow> bool \<times> meter_sys" where
  "error_wait clk s =
     (if m_error_wait_time (ms_meter s) = 0 then (True, s)
      else if \<not> system_timer_is_time_elapsed_ms (clk 10) (m_error_wait_time (ms_meter s)) 500 then (False, s)
      else (True, upd_meter (\<lambda>m. m \<lparr> m_error_wait_time := 0 \<rparr>) s))"

definition first_wait :: "clk \<Rightarrow> meter_sys \<Rightarrow> bool \<times> meter_sys" where
  "first_wait clk s =
     (if m_first_tick (ms_meter s) = 0 then (True, s)
      else if \<not> system_timer_is_time_elapsed_ms (clk 11) (m_first_tick (ms_meter s)) 2500 then (False, s)
      else (True, upd_meter (\<lambda>m. m \<lparr> m_first_tick := 0 \<rparr>) s))"

definition meter_tick :: "float_ops \<Rightarrow> clk \<Rightarrow> u32 \<Rightarrow> u32 list \<Rightarrow> meter_sys \<Rightarrow> tick_outcome option" where
  "meter_tick F clk uninit block s =
     (if m_type (ms_meter s) = METER_TYPE_UNSUPPORTED then Some (Ticked s)
      else
        let (go1, s1) = error_wait clk s in
        if \<not> go1 then Some (Ticked s1)
        else
          let (go2, s2) = first_wait clk s1 in
          if \<not> go2 then Some (Ticked s2)
          else if m_type (ms_meter s2) = METER_TYPE_UNKNOWN
          then map_option Ticked (meter_find_meter_type clk uninit s2)
          else if ms_last_state s2 \<noteq> m_state (ms_meter s2)
          then map_option Ticked (vendor_tick F clk uninit block
            ((upd_meter (\<lambda>m. m \<lparr> m_timeout := system_timer_get_ms (clk 12) \<rparr>) s2)
              \<lparr> ms_last_state := m_state (ms_meter s2) \<rparr>))
          else if system_timer_is_time_elapsed_ms (clk 13) (m_timeout (ms_meter s2)) 60000
          then Some Watchdog
          else map_option Ticked (vendor_tick F clk uninit block s2))"

section \<open>Detection\<close>

lemma response_timed_out:
  assumes "meter_is_response_ready fc (ms_rs s) = Some True" "master_request_timed_out (req (ms_rs s))"
  shows "meter_get_read_registers_response tick fc n s = Some (True, Nothing_Written,
    upd_meter (\<lambda>m. m \<lparr> m_error_wait_time := tick \<rparr>) s)"
  using assms by (simp add: meter_get_read_registers_response_def meter_has_errors_def Let_def
      system_timer_get_ms_def)

lemma upd_frame [simp]:
  "ms_find_state (upd_meter f s) = ms_find_state s" "ms_find_state (upd_rs g s) = ms_find_state s"
  "ms_meter (upd_rs g s) = ms_meter s" "ms_set (upd_rs g s) = ms_set s" "ms_set (upd_meter f s) = ms_set s"
  "ms_meter (upd_meter f s) = f (ms_meter s)" "ms_rs (upd_meter f s) = ms_rs s" "ms_rs (upd_rs g s) = g (ms_rs s)"
  "ms_eltako_find (upd_meter f s) = ms_eltako_find s" "ms_eltako_find (upd_rs g s) = ms_eltako_find s"
  by (simp_all add: upd_meter_def upd_rs_def)

lemma not_pending: "req_state (req rs) = MODBUS_REQUEST_PROCESS_STATE_READY \<Longrightarrow> meter_is_response_ready fc rs = Some False"
  by (simp add: meter_is_response_ready_def)

lemma cleared_ready [simp]:
  "req_state (req (modbus_clear_request rs)) = MODBUS_REQUEST_PROCESS_STATE_READY"
  "req_state (req (upd_counters f rs)) = req_state (req rs)"
  by (simp_all add: modbus_clear_request_def upd_rtu_def upd_counters_def)

text \<open>The state of each vendor's probe, and the function code it waits for.\<close>

definition probe_state :: "meter_sys \<Rightarrow> u8" where
  "probe_state s =
     (if ms_find_state s = 0 then ms_generic_find s
      else if ms_find_state s = 1 then ms_eastron_find s
      else if ms_find_state s = 2 then ms_eltako_find s
      else ms_iskra_find s)"

definition probe_fc :: "meter_sys \<Rightarrow> u8" where
  "probe_fc s = (if ms_find_state s = 3 then 4 else 3)"

text \<open>A probe nobody answers moves the detection on: when the request of the current vendor's
  probe times out, the detection turns to the next vendor in the order generic, Eastron, Eltako,
  Iskra, resets that probe, gives the request free again, counts no error, and leaves the meter
  unknown; past the last vendor it starts again with the first.\<close>

theorem detection_moves_on_after_timeout:
  assumes "ms_find_state s \<le> 3" "probe_state s = 1"
    and "meter_is_response_ready (probe_fc s) (ms_rs s) = Some True"
    and "master_request_timed_out (req (ms_rs s))"
  shows "\<exists>s'. meter_find_meter_type clk uninit s = Some s' \<and>
    ms_find_state s' = ms_find_state s + 1 \<and> m_type (ms_meter s') = m_type (ms_meter s) \<and>
    req_state (req (ms_rs s')) = MODBUS_REQUEST_PROCESS_STATE_READY \<and>
    ec_timeout (modbus_common_error_counters (ms_rs s')) = 0 \<and>
    probe_state (s' \<lparr> ms_find_state := ms_find_state s \<rparr>) = 0 \<and>
    meter_find_meter_type clk uninit (s' \<lparr> ms_find_state := 4 \<rparr>) = Some (s' \<lparr> ms_find_state := 0 \<rparr>)"
proof -
  have "ms_find_state s \<in> {0, 1, 2, 3}"
    using assms(1) by (auto simp: word_le_nat_alt word_unat_eq_iff)
  then consider "ms_find_state s = 0" | "ms_find_state s = 1" | "ms_find_state s = 2" | "ms_find_state s = 3"
    by blast
  then show ?thesis
  proof cases
    case 1
    with assms show ?thesis
      by (simp add: meter_find_meter_type_def probe_state_def probe_fc_def meter_generic_is_connected_def
          response_timed_out overlay_response_16_def meter_reset_error_counter_def upd_counters_def
          upd_rs_def upd_meter_def modbus_clear_request_def upd_rtu_def Let_def)
  next
    case 2
    with assms show ?thesis
      by (simp add: meter_find_meter_type_def probe_state_def probe_fc_def meter_eastron_is_connected_def
          response_timed_out overlay_response_16_def meter_reset_error_counter_def upd_counters_def
          upd_rs_def upd_meter_def modbus_clear_request_def upd_rtu_def Let_def)
  next
    case 3
    with assms show ?thesis
      by (simp add: meter_find_meter_type_def probe_state_def probe_fc_def meter_eltako_is_connected_def
          response_timed_out overlay_response_def meter_reset_error_counter_def upd_counters_def
          upd_rs_def upd_meter_def modbus_clear_request_def upd_rtu_def Let_def)
  next
    case 4
    with assms show ?thesis
      by (simp add: meter_find_meter_type_def probe_state_def probe_fc_def meter_iskra_is_connected_def
          response_timed_out read_block_def arr_get_def meter_reset_error_counter_def upd_counters_def
          upd_rs_def upd_meter_def modbus_clear_request_def upd_rtu_def Let_def)
  qed
qed

lemma detection_moves_on_after_timeout_witness:
  "\<forall>u. \<exists>s'. meter_find_meter_type (\<lambda>_. 9) 0 ((meter_sys_blank (answered_master True) u)
       \<lparr> ms_find_state := 3, ms_iskra_find := 1 \<rparr>) = Some s' \<and> ms_find_state s' = 4"
proof
  fix u
  let ?s = "(meter_sys_blank (answered_master True) u) \<lparr> ms_find_state := 3, ms_iskra_find := 1 \<rparr>"
  show "\<exists>s'. meter_find_meter_type (\<lambda>_. 9) 0 ?s = Some s' \<and> ms_find_state s' = 4"
    using detection_moves_on_after_timeout[of ?s "\<lambda>_. 9" 0] answered_master_ok
    by (auto simp: probe_state_def probe_fc_def meter_sys_blank_def)
qed

text \<open>A DSZ15DZMOD that has been found once cannot be found again: that branch of the Eltako probe
  leaves the probe in its state 3 although its request is done, and from there every further call
  only reports that detection is going on and changes nothing.\<close>

theorem eltako_redetection_stuck:
  assumes "meter_eltako_is_connected clk uninit s = Some (METER_TYPE_DSZ15DZMOD, s1)"
  shows "ms_eltako_find s1 = 3 \<and>
    (\<forall>clk' uninit'. meter_eltako_is_connected clk' uninit' s1 = Some (METER_TYPE_DETECTION, s1))"
proof -
  have "ms_eltako_find s1 = 3 \<and> req_state (req (ms_rs s1)) = MODBUS_REQUEST_PROCESS_STATE_READY"
    using assms by (auto simp: meter_eltako_is_connected_def eltako_request_def eltako_write_def Let_def
        meter_get_read_registers_response_def meter_has_errors_def upd_rs_def upd_meter_def
        split: if_splits option.splits prod.splits bind_splits)
  then show ?thesis
    by (simp add: meter_eltako_is_connected_def meter_get_read_registers_response_def not_pending Let_def)
qed

lemma eltako_redetection_stuck_witness:
  "\<forall>u. \<exists>s1. meter_eltako_is_connected (\<lambda>_. 9) 0
      ((meter_sys_blank ((answered_master True) \<lparr> rs_buffer := replicate 64 3 \<rparr>) u) \<lparr> ms_eltako_find := 3 \<rparr>) =
        Some (METER_TYPE_DSZ15DZMOD, s1) \<and>
     meter_eltako_is_connected (\<lambda>_. 10) 0 s1 = Some (METER_TYPE_DETECTION, s1)"
proof
  fix u
  let ?rs = "(answered_master True) \<lparr> rs_buffer := replicate 64 3 \<rparr>"
  let ?s = "(meter_sys_blank ?rs u) \<lparr> ms_eltako_find := 3 \<rparr>"
  have "meter_is_response_ready 3 ?rs = Some True" "master_request_timed_out (req ?rs)"
    by (simp_all add: answered_master_def idle_master_def meter_is_response_ready_def arr_get_def)
  then have "\<exists>s1. meter_eltako_is_connected (\<lambda>_. 9) 0 ?s = Some (METER_TYPE_DSZ15DZMOD, s1)"
    by (simp add: meter_eltako_is_connected_def response_timed_out overlay_response_def Let_def meter_sys_blank_def)
  then show "\<exists>s1. meter_eltako_is_connected (\<lambda>_. 9) 0 ?s = Some (METER_TYPE_DSZ15DZMOD, s1) \<and>
     meter_eltako_is_connected (\<lambda>_. 10) 0 s1 = Some (METER_TYPE_DETECTION, s1)"
    using eltako_redetection_stuck by blast
qed

section \<open>Iskra fast read\<close>

text \<open>The Iskra fast read keeps its values when a block is not answered: after a timeout or an
  exception in either of its two reading states, no register value, no phase flag and no read time
  changes; the request is given free and the fast cycle goes on to its next state (or ends).\<close>

theorem iskra_fast_read_ignores_errors:
  assumes "fast_state (ms_iskra s) = 1 \<or> fast_state (ms_iskra s) = 3"
    and "meter_is_response_ready 4 (ms_rs s) = Some True" "master_request_timed_out (req (ms_rs s))"
  shows "\<exists>s'. meter_iskra_fast_tick F clk block s = Some s' \<and> ms_set s' = ms_set s \<and>
    m_phases_connected (ms_meter s') = m_phases_connected (ms_meter s) \<and>
    m_register_fast_time (ms_meter s') = m_register_fast_time (ms_meter s) \<and>
    req_state (req (ms_rs s')) = MODBUS_REQUEST_PROCESS_STATE_READY \<and>
    fast_state (ms_iskra s') = (if fast_state (ms_iskra s) = 1 then 2 else 0) \<and>
    (fast_state (ms_iskra s) = 3 \<longrightarrow> \<not> fast_active (ms_iskra s'))"
  using assms
  by (auto simp: meter_iskra_fast_tick_def response_timed_out meter_iskra_response_had_error_def Let_def
      upd_iskra_def upd_meter_def upd_rs_def)

lemma iskra_fast_read_ignores_errors_witness:
  "\<forall>F u. \<exists>s'. meter_iskra_fast_tick F (\<lambda>_. 9) [] ((meter_sys_blank (answered_master True) u)
      \<lparr> ms_iskra := (ms_iskra (meter_sys_blank idle_master u)) \<lparr> fast_state := 3 \<rparr> \<rparr>) = Some s' \<and>
     fast_state (ms_iskra s') = 0"
proof (intro allI)
  fix F u
  let ?s = "(meter_sys_blank (answered_master True) u)
      \<lparr> ms_iskra := (ms_iskra (meter_sys_blank idle_master u)) \<lparr> fast_state := 3 \<rparr> \<rparr>"
  show "\<exists>s'. meter_iskra_fast_tick F (\<lambda>_. 9) [] ?s = Some s' \<and> fast_state (ms_iskra s') = 0"
    using iskra_fast_read_ignores_errors[of ?s F "\<lambda>_. 9" "[]"] answered_master_ok
    by (auto simp: meter_sys_blank_def)
qed

end
