(* ===== verification/Sd_Paths.thy ===== *)
theory Sd_Paths
  imports Tfp
begin

text \<open>
  File names of the SD card storage (\<^verbatim>\<open>warp/wem/sd.c\<close>): numbers in decimal, wallbox
  ids in base 58, and the path of the file that holds a data point.
\<close>

section \<open>Definitions\<close>

definition SD_PATH_LENGTH :: nat where
  "SD_PATH_LENGTH = 32"

definition SD_FILE_NO_DAY_IN_PATH :: u8 where
  "SD_FILE_NO_DAY_IN_PATH = 0xFF"

definition SD_POSTFIXES :: "string list" where
  "SD_POSTFIXES = [''.wb'', ''.em'', ''.e2'']"

abbreviation (input) SD_POSTFIX_WB :: u8 where "SD_POSTFIX_WB \<equiv> 0"
abbreviation (input) SD_POSTFIX_EM :: u8 where "SD_POSTFIX_EM \<equiv> 1"
abbreviation (input) SD_POSTFIX_EM_W_PRICES :: u8 where "SD_POSTFIX_EM_W_PRICES \<equiv> 2"

text \<open>
  The loop and the alphabet are the ones of \<^verbatim>\<open>tfp_uid_uint32_to_base58\<close>; the buffer for
  the reversed digits is one byte shorter and the result is not padded.
\<close>

definition BASE58_MAX_STR_SIZE :: nat where
  "BASE58_MAX_STR_SIZE = 7"

definition base58_encode :: "u32 \<Rightarrow> string option" where
  "base58_encode value = do {
     (i, value', reverse_str) \<leftarrow> base58_digits_loop value 0 (replicate BASE58_MAX_STR_SIZE (CHR 0x00));
     d \<leftarrow> arr_get TFP_BASE58_STR (unat value');
     reverse_str' \<leftarrow> arr_set reverse_str i d;
     Some (rev (take (i + 1) reverse_str'))
   }"

definition digit :: "u8 \<Rightarrow> char" where
  "digit d = char_of (48 + unat d)"

definition sd_itoa :: "u8 \<Rightarrow> string" where
  "sd_itoa v =
     (if v \<ge> 100 then [digit (v div 100), digit ((v div 10) mod 10), digit (v mod 10)]
      else if v \<ge> 10 then [digit (v div 10), digit (v mod 10)]
      else [digit v])"

definition sd_get_path_with_filename :: "u32 \<Rightarrow> u8 \<Rightarrow> u8 \<Rightarrow> u8 \<Rightarrow> u8 \<Rightarrow> string option" where
  "sd_get_path_with_filename wallbox_id year month day postfix = do {
     b \<leftarrow> base58_encode wallbox_id;
     p \<leftarrow> arr_get SD_POSTFIXES (unat postfix);
     Some (sd_itoa year @ ''/'' @ sd_itoa month @ ''/'' @
       (if day \<noteq> SD_FILE_NO_DAY_IN_PATH then sd_itoa day @ ''/'' else '''') @ b @ p)
   }"

text \<open>The directories \<^verbatim>\<open>sd_make_path\<close> creates, in order.\<close>

definition sd_make_path_dirs :: "u8 \<Rightarrow> u8 \<Rightarrow> u8 \<Rightarrow> string list" where
  "sd_make_path_dirs year month day =
     (let y = sd_itoa year; m = y @ ''/'' @ sd_itoa month in
      if day = SD_FILE_NO_DAY_IN_PATH then [y, m] else [y, m, m @ ''/'' @ sd_itoa day])"

section \<open>Decimal numbers\<close>

lemma u8_cases_digits:
  assumes "(v :: u8) \<ge> 100"
  shows "unat (v div 100) = unat v div 100" "unat ((v div 10) mod 10) = unat v div 10 mod 10"
    "unat (v mod 10) = unat v mod 10"
  by (simp_all add: unat_div unat_mod)

lemma hundreds: "unat (v :: u8) div 100 < 10"
  by (rule less_mult_imp_div_less) (rule less_trans[OF unat_u8], simp)

lemma digit_value: "unat d < 10 \<Longrightarrow> of_char (digit d) = 48 + unat d"
  by (simp add: digit_def)

definition decimal :: "string \<Rightarrow> nat" where
  "decimal s = foldl (\<lambda>n c. 10 * n + (of_char c - 48)) 0 s"

lemma sd_itoa_decimal: "decimal (sd_itoa v) = unat v"
proof -
  have b: "unat v < 256" by (rule unat_u8)
  have d: "unat (v div 100) = unat v div 100" "unat ((v div 10) mod 10) = unat v div 10 mod 10"
    "unat (v mod 10) = unat v mod 10" "unat (v div 10) = unat v div 10"
    by (simp_all add: unat_div unat_mod)
  have "unat v div 100 < 10" by (rule hundreds)
  moreover have "unat v div 10 < 10" if "\<not> v \<ge> 100" using that by (simp add: word_le_nat_alt)
  moreover have "unat v < 10" if "\<not> v \<ge> 10" using that by (simp add: word_le_nat_alt)
  moreover have "10 * (10 * (unat v div 100) + unat v div 10 mod 10) + unat v mod 10 = unat v"
    using div_mult2_eq[of "unat v" 10 10] mult_div_mod_eq[of 10 "unat v div 10"] mult_div_mod_eq[of 10 "unat v"]
    by simp
  moreover have "10 * (unat v div 10) + unat v mod 10 = unat v" by (rule mult_div_mod_eq)
  ultimately show ?thesis
    by (auto simp: sd_itoa_def decimal_def digit_value d)
qed

lemma sd_itoa_inj: "sd_itoa v = sd_itoa w \<longleftrightarrow> v = w"
  by (metis sd_itoa_decimal word_unat_eq_iff)

lemma sd_itoa_no_slash: "CHR ''/'' \<notin> set (sd_itoa v)"
proof -
  have "CHR ''/'' \<noteq> digit d" if "unat d < 10" for d :: u8
  proof
    assume "CHR ''/'' = digit d"
    from this [symmetric] have "of_char (digit d) = (47 :: nat)" by simp
    then show False using digit_value[OF that] by simp
  qed
  moreover have "unat v div 100 < 10" by (rule hundreds)
  then have "unat (v div 100) < 10" "unat ((v div 10) mod 10) < 10" "unat (v mod 10) < 10"
    by (simp_all add: unat_div unat_mod)
  moreover have "unat (v div 10) < 10" if "\<not> v \<ge> 100" using that by (simp add: word_le_nat_alt unat_div)
  moreover have "unat v < 10" if "\<not> v \<ge> 10" using that by (simp add: word_le_nat_alt)
  ultimately show ?thesis by (auto simp: sd_itoa_def)
qed

lemma length_sd_itoa: "length (sd_itoa v) \<le> 3"
  by (simp add: sd_itoa_def)

section \<open>Wallbox ids\<close>

lemma base58_encode_digits:
  "base58_encode v = Some (map (\<lambda>d. TFP_BASE58_STR ! d) (rev (digits58 (unat v))))"
proof -
  have "length (digits58 (unat v)) \<le> Suc 5"
    by (rule digits58_length) (rule less_trans[OF unat_u32], simp)
  then have len: "0 < length (digits58 (unat v))" "length (digits58 (unat v)) \<le> 6"
    using digits58_length_pos by auto
  obtain v' rs' where
    "base58_digits_loop v 0 (replicate 7 (CHR 0x00)) = Some (length (digits58 (unat v)) - 1, v', rs')"
    "unat v' < 58" "length rs' = 7"
    "take (length (digits58 (unat v))) (rs'[length (digits58 (unat v)) - 1 := TFP_BASE58_STR ! unat v'])
     = map (\<lambda>d. TFP_BASE58_STR ! d) (digits58 (unat v))"
    using base58_loop_digits[of 0 v "replicate 7 (CHR 0x00)"] len by auto
  then show ?thesis
    using len by (simp add: base58_encode_def BASE58_MAX_STR_SIZE_def arr_simps rev_map
        del: length_greater_0_conv)
qed

lemma base58_text:
  assumes "base58_encode v = Some b"
  shows "base58_decode b = unat v" "length b \<le> 6" "CHR ''/'' \<notin> set b" "CHR ''.'' \<notin> set b"
proof -
  have b: "b = map (\<lambda>d. TFP_BASE58_STR ! d) (rev (digits58 (unat v)))"
    using assms by (simp add: base58_encode_digits)
  show "base58_decode b = unat v"
    using base58_decode_digits[of "digits58 (unat v)" 0] digits58_less by (simp add: b digits58_value)
  show "length b \<le> 6"
    using digits58_length[of "unat v" 5] less_trans[OF unat_u32[of v], of "58 ^ 6"] by (simp add: b)
  have "set b \<subseteq> set TFP_BASE58_STR"
    using digits58_less by (auto simp: b)
  moreover have "CHR ''/'' \<notin> set TFP_BASE58_STR" "CHR ''.'' \<notin> set TFP_BASE58_STR"
    by (simp_all add: TFP_BASE58_STR_def)
  ultimately show "CHR ''/'' \<notin> set b" "CHR ''.'' \<notin> set b" by auto
qed

section \<open>Paths\<close>

lemma split_at_char:
  "c \<notin> set xs \<Longrightarrow> c \<notin> set ys \<Longrightarrow> xs @ c # zs = ys @ c # ws \<longleftrightarrow> xs = ys \<and> zs = ws"
proof (induction xs arbitrary: ys)
  case Nil
  then show ?case by (cases ys) auto
next
  case (Cons a xs)
  then show ?case by (cases ys) auto
qed

lemma postfix_cases: "arr_get SD_POSTFIXES i = Some p \<Longrightarrow> p = CHR ''.'' # tl p \<and> CHR ''/'' \<notin> set p \<and> length p = 3"
  by (auto simp: SD_POSTFIXES_def arr_get_def less_Suc_eq split: if_splits)

lemma postfix_inj: "arr_get SD_POSTFIXES i = Some p \<Longrightarrow> arr_get SD_POSTFIXES j = Some p \<Longrightarrow> i = j"
  by (auto simp: SD_POSTFIXES_def arr_get_def less_Suc_eq split: if_splits)

definition path_rest :: "u8 \<Rightarrow> string \<Rightarrow> string \<Rightarrow> string" where
  "path_rest d b p = (if d \<noteq> SD_FILE_NO_DAY_IN_PATH then sd_itoa d @ ''/'' else []) @ b @ p"

lemma path_parts:
  assumes "sd_get_path_with_filename i y m d p = Some s"
  obtains b q where "base58_encode i = Some b" "arr_get SD_POSTFIXES (unat p) = Some q"
    "s = sd_itoa y @ CHR ''/'' # sd_itoa m @ CHR ''/'' # path_rest d b q"
  using assms by (cases "base58_encode i"; cases "arr_get SD_POSTFIXES (unat p)")
    (auto simp: sd_get_path_with_filename_def path_rest_def)

text \<open>No two data points share a file by accident: paths fit their 32 byte buffer with the
  terminating NUL, and two paths are equal only for the same wallbox, year, month, day (or the same
  absence of a day) and kind of file.\<close>

theorem sd_path_injective:
  assumes "sd_get_path_with_filename id1 y1 m1 d1 p1 = Some s"
  shows "length s < SD_PATH_LENGTH \<and>
    (sd_get_path_with_filename id2 y2 m2 d2 p2 = Some s \<longleftrightarrow> (id2, y2, m2, d2, p2) = (id1, y1, m1, d1, p1))"
proof -
  obtain b1 q1 where 1: "base58_encode id1 = Some b1" "arr_get SD_POSTFIXES (unat p1) = Some q1"
    "s = sd_itoa y1 @ CHR ''/'' # sd_itoa m1 @ CHR ''/'' # path_rest d1 b1 q1"
    using path_parts[OF assms] by blast
  have len: "length s < SD_PATH_LENGTH"
    using 1(3) length_sd_itoa[of y1] length_sd_itoa[of m1] length_sd_itoa[of d1] base58_text(2)[OF 1(1)]
      postfix_cases[OF 1(2)] by (simp add: SD_PATH_LENGTH_def path_rest_def)
  have "(id2, y2, m2, d2, p2) = (id1, y1, m1, d1, p1)"
    if eq: "sd_get_path_with_filename id2 y2 m2 d2 p2 = Some s"
  proof -
    obtain b2 q2 where 2: "base58_encode id2 = Some b2" "arr_get SD_POSTFIXES (unat p2) = Some q2"
      "s = sd_itoa y2 @ CHR ''/'' # sd_itoa m2 @ CHR ''/'' # path_rest d2 b2 q2"
      using path_parts[OF eq] by blast
    have ym: "y1 = y2" "m1 = m2" and rest: "path_rest d1 b1 q1 = path_rest d2 b2 q2"
      using 1(3) 2(3) by (simp_all add: split_at_char sd_itoa_no_slash sd_itoa_inj)
    have slash: "CHR ''/'' \<notin> set (b1 @ q1)" "CHR ''/'' \<notin> set (b2 @ q2)"
      using base58_text(3)[OF 1(1)] base58_text(3)[OF 2(1)] postfix_cases[OF 1(2)] postfix_cases[OF 2(2)] by auto
    have "(CHR ''/'' \<in> set (path_rest d1 b1 q1)) = (d1 \<noteq> SD_FILE_NO_DAY_IN_PATH)"
      "(CHR ''/'' \<in> set (path_rest d2 b2 q2)) = (d2 \<noteq> SD_FILE_NO_DAY_IN_PATH)"
      using slash by (auto simp: path_rest_def)
    then have "(d1 \<noteq> SD_FILE_NO_DAY_IN_PATH) = (d2 \<noteq> SD_FILE_NO_DAY_IN_PATH)"
      using rest by simp
    then have d: "d1 = d2" and tail: "b1 @ q1 = b2 @ q2"
      using rest by (auto simp: path_rest_def split_at_char sd_itoa_no_slash sd_itoa_inj split: if_splits)
    have "b1 @ CHR ''.'' # tl q1 = b2 @ CHR ''.'' # tl q2"
      using tail postfix_cases[OF 1(2)] postfix_cases[OF 2(2)] by metis
    then have "b1 = b2" using split_at_char base58_text(4)[OF 1(1)] base58_text(4)[OF 2(1)] by metis
    then have "id1 = id2" "q1 = q2"
      using base58_text(1)[OF 1(1)] base58_text(1)[OF 2(1)] tail by (simp_all add: word_unat_eq_iff)
    then have "unat p1 = unat p2" using postfix_inj 1(2) 2(2) by blast
    then show ?thesis using ym d \<open>id1 = id2\<close> by (simp add: word_unat_eq_iff)
  qed
  then show ?thesis using len assms by auto
qed

lemma sd_path_injective_witness:
  "sd_get_path_with_filename 0 24 12 31 0 = Some ''24/12/31/1.wb'' \<and>
   sd_get_path_with_filename 0 24 12 31 2 \<noteq> Some ''24/12/31/1.wb''"
proof -
  have p: "sd_get_path_with_filename 0 24 12 31 0 = Some ''24/12/31/1.wb''"
    by (simp add: sd_get_path_with_filename_def base58_encode_digits digits58.simps TFP_BASE58_STR_def
        SD_POSTFIXES_def arr_get_def SD_FILE_NO_DAY_IN_PATH_def sd_itoa_def digit_def char_of_def bit_simps)
  with sd_path_injective[OF p, of 0 24 12 31 2] show ?thesis by simp
qed

end
