(* ===== verification/Sd_Files.thy ===== *)
theory Sd_Files
  imports Sd_Paths
begin

text \<open>
  The data point files of the SD card storage (\<^verbatim>\<open>warp/wem/sd.c\<close>,
  \<^verbatim>\<open>warp/wem/sd.h\<close>, \<^verbatim>\<open>warp/wem/sd_new_file_objects.c\<close>) for the second
  hardware version (IS\_ENERGY\_MANAGER\_V1 undefined). The littlefs calls are a record of functions
  on a state of the file system and a file handle; they return what the C functions return (an error
  code or a number of bytes), the new handle and the new state.
\<close>

section \<open>The file system\<close>

datatype open_flags = LFS_O_RDONLY | LFS_O_RDWR | LFS_O_CREAT_RDWR

record ('fs, 'f) lfs_ops =
  lfs_file_opencfg :: "string \<Rightarrow> open_flags \<Rightarrow> 'fs \<Rightarrow> int \<times> 'f \<times> 'fs"
  lfs_file_close :: "'f \<Rightarrow> 'fs \<Rightarrow> int \<times> 'f \<times> 'fs"
  lfs_file_write :: "'f \<Rightarrow> u8 list \<Rightarrow> 'fs \<Rightarrow> int \<times> 'f \<times> 'fs"
  lfs_file_read :: "'f \<Rightarrow> nat \<Rightarrow> 'fs \<Rightarrow> (int \<times> u8 list) \<times> 'f \<times> 'fs"
  lfs_file_seek :: "'f \<Rightarrow> nat \<Rightarrow> 'fs \<Rightarrow> int \<times> 'f \<times> 'fs"
  lfs_file_rewind :: "'f \<Rightarrow> 'fs \<Rightarrow> int \<times> 'f \<times> 'fs"
  lfs_mkdir :: "string \<Rightarrow> 'fs \<Rightarrow> int \<times> 'fs"
  lfs_mount :: "'fs \<Rightarrow> int \<times> 'fs"
  lfs_unmount :: "'fs \<Rightarrow> int \<times> 'fs"
  lfs_format :: "'fs \<Rightarrow> int \<times> 'fs"

abbreviation (input) LFS_ERR_OK :: int where "LFS_ERR_OK \<equiv> 0"
abbreviation (input) LFS_ERR_IO :: int where "LFS_ERR_IO \<equiv> - 5"
abbreviation (input) LFS_ERR_NOENT :: int where "LFS_ERR_NOENT \<equiv> - 2"
abbreviation (input) LFS_ERR_EXIST :: int where "LFS_ERR_EXIST \<equiv> - 17"

definition no_file :: "int \<Rightarrow> bool" where
  "no_file err \<longleftrightarrow> err = LFS_ERR_EXIST \<or> err = LFS_ERR_NOENT"

section \<open>Data\<close>

abbreviation (input) SD_5MIN_PER_DAY :: nat where "SD_5MIN_PER_DAY \<equiv> 12 * 24"
abbreviation (input) SD_1DAY_PER_MONTH :: nat where "SD_1DAY_PER_MONTH \<equiv> 31"
abbreviation (input) SD_5MIN_FLAG_NO_DATA :: u16 where "SD_5MIN_FLAG_NO_DATA \<equiv> 0x8000"
abbreviation (input) UINT32_MAX :: u32 where "UINT32_MAX \<equiv> 0xFFFFFFFF"

record wallbox_5min_data = wb_flags :: u16  wb_power :: u16
record wallbox_1day_data = wb_energy :: u32

record energy_manager_5min_data =
  em_flags :: u16
  em_power_grid :: u32
  em_power_general :: "u32 list"
  em_price :: u32

record energy_manager_1day_data =
  em_energy_grid_in :: u32
  em_energy_grid_out :: u32
  em_energy_general_in :: "u32 list"
  em_energy_general_out :: "u32 list"
  em_day_price :: u32

text \<open>The packed structs in memory; every array of a point has six elements.\<close>

definition wb_5min_bytes :: "wallbox_5min_data \<Rightarrow> u8 list" where
  "wb_5min_bytes d = le16 (wb_flags d) @ le16 (wb_power d)"

definition wb_1day_bytes :: "wallbox_1day_data \<Rightarrow> u8 list" where
  "wb_1day_bytes d = le32 (wb_energy d)"

definition em_5min_bytes :: "energy_manager_5min_data \<Rightarrow> u8 list" where
  "em_5min_bytes d = le16 (em_flags d) @ le32 (em_power_grid d) @
     concat (map le32 (em_power_general d)) @ le32 (em_price d)"

definition em_1day_bytes :: "energy_manager_1day_data \<Rightarrow> u8 list" where
  "em_1day_bytes d = le32 (em_energy_grid_in d) @ le32 (em_energy_grid_out d) @
     concat (map le32 (em_energy_general_in d)) @ concat (map le32 (em_energy_general_out d)) @
     le32 (em_day_price d)"

definition WB_5MIN_SIZE :: nat where "WB_5MIN_SIZE = 4"
definition WB_1DAY_SIZE :: nat where "WB_1DAY_SIZE = 4"
definition EM_5MIN_SIZE :: nat where "EM_5MIN_SIZE = 34"
definition EM_1DAY_SIZE :: nat where "EM_1DAY_SIZE = 60"

lemmas point_sizes = WB_5MIN_SIZE_def WB_1DAY_SIZE_def EM_5MIN_SIZE_def EM_1DAY_SIZE_def

section \<open>New files\<close>

definition SD_METADATA_SIZE :: nat where "SD_METADATA_SIZE = 8"

definition metadata :: "u8 \<Rightarrow> u8 list" where
  "metadata type = le16 0x4243 @ [0, type, 0, 0, 0, 0]"

definition sd_new_file_wb_5min :: "u8 list" where
  "sd_new_file_wb_5min = metadata 0 @ concat (replicate SD_5MIN_PER_DAY
     (wb_5min_bytes \<lparr> wb_flags = SD_5MIN_FLAG_NO_DATA, wb_power = 0 \<rparr>))"

definition sd_new_file_wb_1day :: "u8 list" where
  "sd_new_file_wb_1day = metadata 1 @ concat (replicate SD_1DAY_PER_MONTH
     (wb_1day_bytes \<lparr> wb_energy = UINT32_MAX \<rparr>))"

definition sd_new_file_em_5min :: "u8 list" where
  "sd_new_file_em_5min = metadata 2 @ concat (replicate SD_5MIN_PER_DAY
     (em_5min_bytes \<lparr> em_flags = SD_5MIN_FLAG_NO_DATA, em_power_grid = 0,
        em_power_general = replicate 6 0, em_price = 0 \<rparr>))"

definition sd_new_file_em_1day :: "u8 list" where
  "sd_new_file_em_1day = metadata 3 @ concat (replicate SD_1DAY_PER_MONTH
     (em_1day_bytes \<lparr> em_energy_grid_in = UINT32_MAX, em_energy_grid_out = UINT32_MAX,
        em_energy_general_in = replicate 6 UINT32_MAX, em_energy_general_out = replicate 6 UINT32_MAX,
        em_day_price = UINT32_MAX \<rparr>))"

text \<open>The four functions that create a file differ in its contents.\<close>

definition new_file :: "('fs, 'f) lfs_ops \<Rightarrow> u8 list \<Rightarrow> string \<Rightarrow> 'fs \<Rightarrow> bool \<times> 'fs" where
  "new_file ops contents f fs =
     (let (err, file, fs1) = lfs_file_opencfg ops f LFS_O_CREAT_RDWR fs in
      if err \<noteq> LFS_ERR_OK then let (_, _, fs2) = lfs_file_close ops file fs1 in (False, fs2)
      else
        let (written, file1, fs2) = lfs_file_write ops file contents fs1 in
        if written \<noteq> int (length contents)
        then let (_, _, fs3) = lfs_file_close ops file1 fs2 in (False, fs3)
        else let (err, _, fs3) = lfs_file_close ops file1 fs2 in (err = LFS_ERR_OK, fs3))"

definition sd_write_wallbox_data_point_new_file :: "('fs, 'f) lfs_ops \<Rightarrow> string \<Rightarrow> 'fs \<Rightarrow> bool \<times> 'fs" where
  "sd_write_wallbox_data_point_new_file ops = new_file ops sd_new_file_wb_5min"

definition sd_write_wallbox_daily_data_point_new_file :: "('fs, 'f) lfs_ops \<Rightarrow> string \<Rightarrow> 'fs \<Rightarrow> bool \<times> 'fs" where
  "sd_write_wallbox_daily_data_point_new_file ops = new_file ops sd_new_file_wb_1day"

definition sd_write_energy_manager_data_point_new_file :: "('fs, 'f) lfs_ops \<Rightarrow> string \<Rightarrow> 'fs \<Rightarrow> bool \<times> 'fs" where
  "sd_write_energy_manager_data_point_new_file ops = new_file ops sd_new_file_em_5min"

definition sd_write_energy_manager_daily_data_point_new_file :: "('fs, 'f) lfs_ops \<Rightarrow> string \<Rightarrow> 'fs \<Rightarrow> bool \<times> 'fs" where
  "sd_write_energy_manager_daily_data_point_new_file ops = new_file ops sd_new_file_em_1day"

section \<open>State\<close>

text \<open>The identity of a file; the arguments that select it.\<close>

record file_key =
  k_wallbox_id :: u32
  k_year :: u8
  k_month :: u8
  k_day :: u8
  k_postfix :: u8

record file_no_exist_entry = c_wallbox_id :: u32  c_ymdp :: u32

record ('fs, 'f) sd =
  sd_fs :: 'fs
  buffered_read_is_open :: bool
  buffered_read_current_err :: int
  buffered_read_current :: file_key
  buffered_read_file :: 'f
  file_no_exist_cache :: "file_no_exist_entry list"
  file_no_exist_index :: u8
  sd_rw_error_count :: u32

definition SD_FILE_NO_EXIST_CACHE_LENGTH :: nat where
  "SD_FILE_NO_EXIST_CACHE_LENGTH = 4"

definition key_path :: "file_key \<Rightarrow> string option" where
  "key_path k = sd_get_path_with_filename (k_wallbox_id k) (k_year k) (k_month k) (k_day k) (k_postfix k)"

definition ymdp :: "file_key \<Rightarrow> u32" where
  "ymdp k = push_bit 24 (ucast (k_year k)) OR push_bit 16 (ucast (k_month k)) OR
     push_bit 8 (ucast (k_day k)) OR ucast (k_postfix k)"

definition entry_matches :: "file_key \<Rightarrow> file_no_exist_entry \<Rightarrow> bool" where
  "entry_matches k e \<longleftrightarrow> c_wallbox_id e = k_wallbox_id k \<and> c_ymdp e = ymdp k"

definition sd_set_file_no_exist :: "file_key \<Rightarrow> ('fs, 'f) sd \<Rightarrow> ('fs, 'f) sd option" where
  "sd_set_file_no_exist k s = do {
     cache \<leftarrow> arr_set (file_no_exist_cache s) (unat (file_no_exist_index s))
       \<lparr> c_wallbox_id = k_wallbox_id k, c_ymdp = ymdp k \<rparr>;
     Some (s \<lparr> file_no_exist_cache := cache,
       file_no_exist_index := (file_no_exist_index s + 1) mod of_nat SD_FILE_NO_EXIST_CACHE_LENGTH \<rparr>)
   }"

definition sd_get_file_no_exist :: "file_key \<Rightarrow> ('fs, 'f) sd \<Rightarrow> bool" where
  "sd_get_file_no_exist k s = list_ex (entry_matches k) (take SD_FILE_NO_EXIST_CACHE_LENGTH (file_no_exist_cache s))"

definition sd_remove_file_no_exist :: "file_key \<Rightarrow> ('fs, 'f) sd \<Rightarrow> ('fs, 'f) sd" where
  "sd_remove_file_no_exist k s = s \<lparr> file_no_exist_cache :=
     map (\<lambda>e. if entry_matches k e then \<lparr> c_wallbox_id = 0, c_ymdp = 0 \<rparr> else e) (file_no_exist_cache s) \<rparr>"

section \<open>Writing a point\<close>

fun mkdirs :: "('fs, 'f) lfs_ops \<Rightarrow> string list \<Rightarrow> 'fs \<Rightarrow> 'fs" where
  "mkdirs ops [] fs = fs"
| "mkdirs ops (d # ds) fs = mkdirs ops ds (snd (lfs_mkdir ops d fs))"

definition sd_make_path :: "('fs, 'f) lfs_ops \<Rightarrow> u8 \<Rightarrow> u8 \<Rightarrow> u8 \<Rightarrow> 'fs \<Rightarrow> 'fs" where
  "sd_make_path ops year month day = mkdirs ops (sd_make_path_dirs year month day)"

text \<open>
  The common beginning of the writing functions: open the file, or create it and open it again. The
  result is the handle, if the function goes on. An error other than a missing file goes on too.
\<close>

definition open_for_write ::
  "('fs, 'f) lfs_ops \<Rightarrow> (string \<Rightarrow> 'fs \<Rightarrow> bool \<times> 'fs) \<Rightarrow> file_key \<Rightarrow> ('fs, 'f) sd \<Rightarrow> ('f option \<times> ('fs, 'f) sd) option" where
  "open_for_write ops create k s = do {
     f \<leftarrow> key_path k;
     let (err, file, fs1) = lfs_file_opencfg ops f LFS_O_RDWR (sd_fs s);
     if \<not> no_file err then Some (Some file, s \<lparr> sd_fs := fs1 \<rparr>)
     else do {
       let (_, _, fs2) = lfs_file_close ops file fs1;
       let (ret, fs3) = create f (sd_make_path ops (k_year k) (k_month k) (k_day k) fs2);
       if \<not> ret then Some (None, s \<lparr> sd_fs := fs3 \<rparr>)
       else do {
         let (err, file, fs4) = lfs_file_opencfg ops f LFS_O_RDWR fs3;
         if err \<noteq> LFS_ERR_OK then Some (None, s \<lparr> sd_fs := fs4 \<rparr>)
         else Some (Some file, sd_remove_file_no_exist k (s \<lparr> sd_fs := fs4 \<rparr>))
       }
     }
   }"

definition write_and_close :: "('fs, 'f) lfs_ops \<Rightarrow> u8 list \<Rightarrow> 'f \<Rightarrow> 'fs \<Rightarrow> bool \<times> 'fs" where
  "write_and_close ops bytes file fs =
     (let (written, file1, fs1) = lfs_file_write ops file bytes fs in
      if written \<noteq> int (length bytes)
      then let (_, _, fs2) = lfs_file_close ops file1 fs1 in (False, fs2)
      else let (err, _, fs2) = lfs_file_close ops file1 fs1 in (err = LFS_ERR_OK, fs2))"

text \<open>After a failed seek the functions for the five minute files return, the daily ones go on.\<close>

definition seek_and_write :: "('fs, 'f) lfs_ops \<Rightarrow> u16 \<Rightarrow> u8 list \<Rightarrow> 'f \<Rightarrow> 'fs \<Rightarrow> bool \<times> 'fs" where
  "seek_and_write ops pos bytes file fs =
     (let (p, file1, fs1) = lfs_file_seek ops file (unat pos) fs in
      if p \<noteq> uint pos then let (_, _, fs2) = lfs_file_close ops file1 fs1 in (False, fs2)
      else write_and_close ops bytes file1 fs1)"

definition seek_and_write_daily :: "('fs, 'f) lfs_ops \<Rightarrow> u16 \<Rightarrow> u8 list \<Rightarrow> 'f \<Rightarrow> 'fs \<Rightarrow> bool \<times> 'fs" where
  "seek_and_write_daily ops pos bytes file fs =
     (let (p, file1, fs1) = lfs_file_seek ops file (unat pos) fs;
          (file2, fs2) = (if p \<noteq> uint pos then snd (lfs_file_close ops file1 fs1) else (file1, fs1))
      in write_and_close ops bytes file2 fs2)"

text \<open>Positions are computed as unsigned 32 bit numbers and kept in 16 bits.\<close>

definition pos_5min :: "nat \<Rightarrow> u8 \<Rightarrow> u8 \<Rightarrow> u16 \<Rightarrow> u16" where
  "pos_5min sz hour minute offset =
     of_nat (8 + (unat hour * 12 + unat minute div 5) * sz + unat offset * sz)"

definition pos_1day :: "nat \<Rightarrow> u8 \<Rightarrow> u16 \<Rightarrow> u16" where
  "pos_1day sz day offset = of_int (8 + (uint day - 1) * int sz + uint offset * int sz)"

definition wb_key :: "u32 \<Rightarrow> u8 \<Rightarrow> u8 \<Rightarrow> u8 \<Rightarrow> file_key" where
  "wb_key wallbox_id year month day = \<lparr> k_wallbox_id = wallbox_id, k_year = year, k_month = month,
     k_day = day, k_postfix = SD_POSTFIX_WB \<rparr>"

definition em_key :: "u8 \<Rightarrow> u8 \<Rightarrow> u8 \<Rightarrow> file_key" where
  "em_key year month day = \<lparr> k_wallbox_id = 0, k_year = year, k_month = month, k_day = day,
     k_postfix = SD_POSTFIX_EM_W_PRICES \<rparr>"

definition write_point ::
  "('fs, 'f) lfs_ops \<Rightarrow> (string \<Rightarrow> 'fs \<Rightarrow> bool \<times> 'fs) \<Rightarrow> ('f \<Rightarrow> 'fs \<Rightarrow> bool \<times> 'fs) \<Rightarrow> file_key \<Rightarrow>
   ('fs, 'f) sd \<Rightarrow> (bool \<times> ('fs, 'f) sd) option" where
  "write_point ops create store k s = do {
     (handle, s1) \<leftarrow> open_for_write ops create k s;
     Some (case handle of
         None \<Rightarrow> (False, s1)
       | Some file \<Rightarrow> let (ret, fs) = store file (sd_fs s1) in (ret, s1 \<lparr> sd_fs := fs \<rparr>))
   }"

definition sd_write_wallbox_data_point ::
  "('fs, 'f) lfs_ops \<Rightarrow> u32 \<Rightarrow> u8 \<Rightarrow> u8 \<Rightarrow> u8 \<Rightarrow> u8 \<Rightarrow> u8 \<Rightarrow> wallbox_5min_data \<Rightarrow>
   ('fs, 'f) sd \<Rightarrow> (bool \<times> ('fs, 'f) sd) option" where
  "sd_write_wallbox_data_point ops wallbox_id year month day hour minute data5m =
     write_point ops (sd_write_wallbox_data_point_new_file ops)
       (seek_and_write ops (pos_5min WB_5MIN_SIZE hour minute 0) (wb_5min_bytes data5m))
       (wb_key wallbox_id year month day)"

definition sd_write_wallbox_daily_data_point ::
  "('fs, 'f) lfs_ops \<Rightarrow> u32 \<Rightarrow> u8 \<Rightarrow> u8 \<Rightarrow> u8 \<Rightarrow> wallbox_1day_data \<Rightarrow>
   ('fs, 'f) sd \<Rightarrow> (bool \<times> ('fs, 'f) sd) option" where
  "sd_write_wallbox_daily_data_point ops wallbox_id year month day data1d =
     write_point ops (sd_write_wallbox_daily_data_point_new_file ops)
       (seek_and_write_daily ops (pos_1day WB_1DAY_SIZE day 0) (wb_1day_bytes data1d))
       (wb_key wallbox_id year month SD_FILE_NO_DAY_IN_PATH)"

definition sd_write_energy_manager_data_point ::
  "('fs, 'f) lfs_ops \<Rightarrow> u8 \<Rightarrow> u8 \<Rightarrow> u8 \<Rightarrow> u8 \<Rightarrow> u8 \<Rightarrow> energy_manager_5min_data \<Rightarrow>
   ('fs, 'f) sd \<Rightarrow> (bool \<times> ('fs, 'f) sd) option" where
  "sd_write_energy_manager_data_point ops year month day hour minute data5m =
     write_point ops (sd_write_energy_manager_data_point_new_file ops)
       (seek_and_write ops (pos_5min EM_5MIN_SIZE hour minute 0) (em_5min_bytes data5m))
       (em_key year month day)"

definition sd_write_energy_manager_daily_data_point ::
  "('fs, 'f) lfs_ops \<Rightarrow> u8 \<Rightarrow> u8 \<Rightarrow> u8 \<Rightarrow> energy_manager_1day_data \<Rightarrow>
   ('fs, 'f) sd \<Rightarrow> (bool \<times> ('fs, 'f) sd) option" where
  "sd_write_energy_manager_daily_data_point ops year month day data1d =
     write_point ops (sd_write_energy_manager_daily_data_point_new_file ops)
       (seek_and_write_daily ops (pos_1day EM_1DAY_SIZE day 0) (em_1day_bytes data1d))
       (em_key year month SD_FILE_NO_DAY_IN_PATH)"

section \<open>Reading points\<close>

text \<open>The handle is None for the NULL of a file that is known not to exist.\<close>

definition sd_lfs_open_buffered_read ::
  "('fs, 'f) lfs_ops \<Rightarrow> file_key \<Rightarrow> ('fs, 'f) sd \<Rightarrow> (int \<times> 'f option \<times> ('fs, 'f) sd) option" where
  "sd_lfs_open_buffered_read ops k s =
     (if sd_get_file_no_exist k s then Some (LFS_ERR_NOENT, None, s)
      else if buffered_read_is_open s \<and> buffered_read_current s = k
      then Some (buffered_read_current_err s, Some (buffered_read_file s), s)
      else if \<not> buffered_read_is_open s \<and> no_file (buffered_read_current_err s) \<and> buffered_read_current s = k
      then Some (buffered_read_current_err s, Some (buffered_read_file s), s)
      else do {
        let s1 = (if buffered_read_is_open s
          then let (_, file, fs) = lfs_file_close ops (buffered_read_file s) (sd_fs s) in
            s \<lparr> buffered_read_is_open := False, buffered_read_file := file, sd_fs := fs \<rparr>
          else s);
        f \<leftarrow> key_path k;
        let (err, file, fs) = lfs_file_opencfg ops f LFS_O_RDONLY (sd_fs s1);
        let s2 = s1 \<lparr> buffered_read_current := k, buffered_read_current_err := err,
          buffered_read_file := file, buffered_read_is_open := (err = LFS_ERR_OK), sd_fs := fs \<rparr>;
        s3 \<leftarrow> (if no_file err then sd_set_file_no_exist k s2 else Some s2);
        Some (err, Some file, s3)
      })"

definition sd_lfs_close_buffered_read :: "('fs, 'f) lfs_ops \<Rightarrow> ('fs, 'f) sd \<Rightarrow> int \<times> ('fs, 'f) sd" where
  "sd_lfs_close_buffered_read ops s =
     (let (err, file, fs) = lfs_file_close ops (buffered_read_file s) (sd_fs s) in
      (err, s \<lparr> buffered_read_is_open := False, buffered_read_file := file, sd_fs := fs \<rparr>))"

text \<open>The result of a read: success, and the bytes it put at the start of the caller's buffer.\<close>

definition read_and_check ::
  "('fs, 'f) lfs_ops \<Rightarrow> nat \<Rightarrow> ('fs, 'f) sd \<Rightarrow> bool \<times> u8 list \<times> ('fs, 'f) sd" where
  "read_and_check ops n s =
     (let ((size_read, bytes), file, fs) = lfs_file_read ops (buffered_read_file s) n (sd_fs s);
          s1 = s \<lparr> buffered_read_file := file, sd_fs := fs \<rparr>
      in if size_read \<noteq> int n then (False, bytes, snd (sd_lfs_close_buffered_read ops s1)) else (True, bytes, s1))"

definition seek_and_read ::
  "('fs, 'f) lfs_ops \<Rightarrow> u16 \<Rightarrow> nat \<Rightarrow> ('fs, 'f) sd \<Rightarrow> bool \<times> u8 list \<times> ('fs, 'f) sd" where
  "seek_and_read ops pos n s =
     (let (p, file, fs) = lfs_file_seek ops (buffered_read_file s) (unat pos) (sd_fs s);
          s1 = s \<lparr> buffered_read_file := file, sd_fs := fs \<rparr>
      in if p \<noteq> uint pos then (False, [], snd (sd_lfs_close_buffered_read ops s1))
         else read_and_check ops n s1)"

definition seek_and_read_daily ::
  "('fs, 'f) lfs_ops \<Rightarrow> u16 \<Rightarrow> nat \<Rightarrow> ('fs, 'f) sd \<Rightarrow> bool \<times> u8 list \<times> ('fs, 'f) sd" where
  "seek_and_read_daily ops pos n s =
     (let (p, file, fs) = lfs_file_seek ops (buffered_read_file s) (unat pos) (sd_fs s);
          s1 = s \<lparr> buffered_read_file := file, sd_fs := fs \<rparr>
      in read_and_check ops n (if p \<noteq> uint pos then snd (sd_lfs_close_buffered_read ops s1) else s1))"

definition read_points ::
  "('fs, 'f) lfs_ops \<Rightarrow> u8 list \<Rightarrow> (('fs, 'f) sd \<Rightarrow> bool \<times> u8 list \<times> ('fs, 'f) sd) \<Rightarrow> file_key \<Rightarrow>
   ('fs, 'f) sd \<Rightarrow> (bool \<times> u8 list \<times> ('fs, 'f) sd) option" where
  "read_points ops absent load k s = do {
     (err, _, s1) \<leftarrow> sd_lfs_open_buffered_read ops k s;
     Some (if no_file err then (True, absent, s1)
       else if err \<noteq> LFS_ERR_OK then (False, [], s1)
       else load s1)
   }"

text \<open>What a point of a file that does not exist reads as.\<close>

definition absent_wb_5min :: "u8 list" where
  "absent_wb_5min = [ucast (SD_5MIN_FLAG_NO_DATA AND 0xFF), ucast (drop_bit 8 SD_5MIN_FLAG_NO_DATA AND 0xFF), 0, 0]"

definition absent_em_5min :: "u8 list" where
  "absent_em_5min = [ucast (SD_5MIN_FLAG_NO_DATA AND 0xFF), ucast (drop_bit 8 SD_5MIN_FLAG_NO_DATA AND 0xFF)] @
     replicate (4 * 7) 0 @ replicate 4 0xFF"

definition sd_read_wallbox_data_point ::
  "('fs, 'f) lfs_ops \<Rightarrow> u32 \<Rightarrow> u8 \<Rightarrow> u8 \<Rightarrow> u8 \<Rightarrow> u8 \<Rightarrow> u8 \<Rightarrow> u16 \<Rightarrow> u16 \<Rightarrow>
   ('fs, 'f) sd \<Rightarrow> (bool \<times> u8 list \<times> ('fs, 'f) sd) option" where
  "sd_read_wallbox_data_point ops wallbox_id year month day hour minute amount offset =
     read_points ops (concat (replicate (unat amount) absent_wb_5min))
       (seek_and_read ops (pos_5min WB_5MIN_SIZE hour minute offset) (unat amount * WB_5MIN_SIZE))
       (wb_key wallbox_id year month day)"

definition sd_read_wallbox_daily_data_point ::
  "('fs, 'f) lfs_ops \<Rightarrow> u32 \<Rightarrow> u8 \<Rightarrow> u8 \<Rightarrow> u8 \<Rightarrow> u16 \<Rightarrow> u16 \<Rightarrow>
   ('fs, 'f) sd \<Rightarrow> (bool \<times> u8 list \<times> ('fs, 'f) sd) option" where
  "sd_read_wallbox_daily_data_point ops wallbox_id year month day amount offset =
     read_points ops (replicate (unat amount * WB_1DAY_SIZE) 0xFF)
       (seek_and_read_daily ops (pos_1day WB_1DAY_SIZE day offset) (unat amount * WB_1DAY_SIZE))
       (wb_key wallbox_id year month SD_FILE_NO_DAY_IN_PATH)"

definition sd_read_energy_manager_data_point ::
  "('fs, 'f) lfs_ops \<Rightarrow> u8 \<Rightarrow> u8 \<Rightarrow> u8 \<Rightarrow> u8 \<Rightarrow> u8 \<Rightarrow> u16 \<Rightarrow> u16 \<Rightarrow>
   ('fs, 'f) sd \<Rightarrow> (bool \<times> u8 list \<times> ('fs, 'f) sd) option" where
  "sd_read_energy_manager_data_point ops year month day hour minute amount offset =
     read_points ops (concat (replicate (unat amount) absent_em_5min))
       (seek_and_read ops (pos_5min EM_5MIN_SIZE hour minute offset) (unat amount * EM_5MIN_SIZE))
       (em_key year month day)"

definition sd_read_energy_manager_daily_data_point ::
  "('fs, 'f) lfs_ops \<Rightarrow> u8 \<Rightarrow> u8 \<Rightarrow> u8 \<Rightarrow> u16 \<Rightarrow> u16 \<Rightarrow>
   ('fs, 'f) sd \<Rightarrow> (bool \<times> u8 list \<times> ('fs, 'f) sd) option" where
  "sd_read_energy_manager_daily_data_point ops year month day amount offset =
     read_points ops (replicate (unat amount * EM_1DAY_SIZE) 0xFF)
       (seek_and_read_daily ops (pos_1day EM_1DAY_SIZE day offset) (unat amount * EM_1DAY_SIZE))
       (em_key year month SD_FILE_NO_DAY_IN_PATH)"

end
