(* ===== verification/Sd_Card.thy ===== *)
theory Sd_Card
  imports Sd_Files
begin

text \<open>
  What the storage relies on of littlefs on a card without faults, as a locale, and what the reading
  and writing functions of \<^verbatim>\<open>warp/wem/sd.c\<close> then do. A handle has its own view of the
  file; what it wrote becomes the file's contents when it is closed.
\<close>

section \<open>The contract\<close>

record handle =
  h_path :: string
  h_pos :: nat
  h_contents :: "u8 list"
  h_dirty :: bool

definition splice :: "nat \<Rightarrow> 'a list \<Rightarrow> 'a list \<Rightarrow> 'a list" where
  "splice pos bytes c = take pos c @ bytes @ drop (pos + length bytes) c"

definition parent :: "string \<Rightarrow> string" where
  "parent p = rev (tl (dropWhile (\<lambda>c. c \<noteq> CHR ''/'') (rev p)))"

definition has_parent :: "string set \<Rightarrow> string \<Rightarrow> bool" where
  "has_parent ds p \<longleftrightarrow> parent p = '''' \<or> parent p \<in> ds"

definition opened :: "string \<Rightarrow> u8 list \<Rightarrow> handle" where
  "opened p c = \<lparr> h_path = p, h_pos = 0, h_contents = c, h_dirty = False \<rparr>"

definition closed_files :: "handle option \<Rightarrow> (string \<rightharpoonup> u8 list) \<Rightarrow> (string \<rightharpoonup> u8 list)" where
  "closed_files h fs = (case h of Some v \<Rightarrow> if h_dirty v then fs(h_path v \<mapsto> h_contents v) else fs | None \<Rightarrow> fs)"

text \<open>The contents a file has for the functions that write to it: its own, or those of a new file.\<close>

definition contents_or :: "u8 list \<Rightarrow> (string \<rightharpoonup> u8 list) \<Rightarrow> string \<Rightarrow> u8 list" where
  "contents_or new fs p = (case fs p of Some c \<Rightarrow> c | None \<Rightarrow> new)"

locale card =
  fixes ops :: "('fs, 'f) lfs_ops"
    and files :: "'fs \<Rightarrow> string \<rightharpoonup> u8 list"
    and dirs :: "'fs \<Rightarrow> string set"
    and view :: "'f \<Rightarrow> handle option"
  assumes open_found: "files fs p = Some c \<Longrightarrow> \<exists>h fs'. lfs_file_opencfg ops p m fs = (LFS_ERR_OK, h, fs') \<and>
      view h = Some (opened p c) \<and> files fs' = files fs \<and> dirs fs' = dirs fs"
    and open_missing: "files fs p = None \<Longrightarrow> m \<noteq> LFS_O_CREAT_RDWR \<Longrightarrow>
      \<exists>h fs'. lfs_file_opencfg ops p m fs = (LFS_ERR_NOENT, h, fs') \<and>
      view h = None \<and> files fs' = files fs \<and> dirs fs' = dirs fs"
    and open_create: "files fs p = None \<Longrightarrow> has_parent (dirs fs) p \<Longrightarrow>
      \<exists>h fs'. lfs_file_opencfg ops p LFS_O_CREAT_RDWR fs = (LFS_ERR_OK, h, fs') \<and>
      view h = Some (opened p []) \<and> files fs' = (files fs)(p \<mapsto> []) \<and> dirs fs' = dirs fs"
    and close_any: "\<exists>h' fs'. lfs_file_close ops h fs = (LFS_ERR_OK, h', fs') \<and>
      files fs' = closed_files (view h) (files fs) \<and> dirs fs' = dirs fs"
    and seek_in: "view h = Some v \<Longrightarrow> pos \<le> length (h_contents v) \<Longrightarrow>
      \<exists>h' fs'. lfs_file_seek ops h pos fs = (int pos, h', fs') \<and> view h' = Some (v \<lparr> h_pos := pos \<rparr>) \<and>
      files fs' = files fs \<and> dirs fs' = dirs fs"
    and write_at: "view h = Some v \<Longrightarrow> h_pos v \<le> length (h_contents v) \<Longrightarrow>
      \<exists>h' fs'. lfs_file_write ops h bytes fs = (int (length bytes), h', fs') \<and>
      view h' = Some (v \<lparr> h_pos := h_pos v + length bytes,
        h_contents := splice (h_pos v) bytes (h_contents v), h_dirty := True \<rparr>) \<and>
      files fs' = files fs \<and> dirs fs' = dirs fs"
    and read_at: "view h = Some v \<Longrightarrow> h_pos v + n \<le> length (h_contents v) \<Longrightarrow>
      \<exists>h' fs'. lfs_file_read ops h n fs = ((int n, take n (drop (h_pos v) (h_contents v))), h', fs') \<and>
      view h' = Some (v \<lparr> h_pos := h_pos v + n \<rparr>) \<and> files fs' = files fs \<and> dirs fs' = dirs fs"
    and mkdir_in: "has_parent (dirs fs) d \<Longrightarrow>
      files (snd (lfs_mkdir ops d fs)) = files fs \<and> insert d (dirs fs) \<subseteq> dirs (snd (lfs_mkdir ops d fs))"

section \<open>Directories and new files\<close>

lemma parent_append: "CHR ''/'' \<notin> set b \<Longrightarrow> parent (a @ CHR ''/'' # b) = a"
  by (simp add: parent_def dropWhile_append)

lemma parent_itoa: "parent (sd_itoa v) = ''''"
proof -
  have "dropWhile (\<lambda>c. c \<noteq> CHR ''/'') (rev (sd_itoa v)) = []"
    using sd_itoa_no_slash[of v] by (auto simp: dropWhile_eq_Nil_conv)
  then show ?thesis unfolding parent_def by (simp only: list.sel rev.simps)
qed

lemma path_parent:
  assumes "key_path k = Some p"
  shows "parent p = last (sd_make_path_dirs (k_year k) (k_month k) (k_day k))"
proof -
  obtain b q where b: "base58_encode (k_wallbox_id k) = Some b" "arr_get SD_POSTFIXES (unat (k_postfix k)) = Some q"
    "p = sd_itoa (k_year k) @ CHR ''/'' # sd_itoa (k_month k) @ CHR ''/'' # path_rest (k_day k) b q"
    using path_parts[OF assms[unfolded key_path_def]] by blast
  have "CHR ''/'' \<notin> set (b @ q)" using base58_text(3)[OF b(1)] postfix_cases[OF b(2)] by simp
  then show ?thesis
    using parent_append[of "b @ q" "sd_itoa (k_year k) @ CHR ''/'' # sd_itoa (k_month k) @ CHR ''/'' # sd_itoa (k_day k)"]
      parent_append[of "b @ q" "sd_itoa (k_year k) @ CHR ''/'' # sd_itoa (k_month k)"]
    by (simp add: b(3) path_rest_def sd_make_path_dirs_def Let_def)
qed

context card
begin

lemma mkdirs_chain:
  assumes "has_parent (dirs fs) d0"
  shows "files (mkdirs ops [d0] fs) = files fs" "insert d0 (dirs fs) \<subseteq> dirs (mkdirs ops [d0] fs)"
  using mkdir_in[OF assms] by simp_all

lemma make_path_ok:
  "files (sd_make_path ops y m d fs) = files fs \<and>
   last (sd_make_path_dirs y m d) \<in> dirs (sd_make_path ops y m d fs)"
proof -
  let ?y = "sd_itoa y" and ?m = "sd_itoa y @ CHR ''/'' # sd_itoa m"
  let ?d = "?m @ CHR ''/'' # sd_itoa d"
  define fs1 where "fs1 = snd (lfs_mkdir ops ?y fs)"
  define fs2 where "fs2 = snd (lfs_mkdir ops ?m fs1)"
  define fs3 where "fs3 = snd (lfs_mkdir ops ?d fs2)"
  have 1: "files fs1 = files fs" "?y \<in> dirs fs1"
    using mkdir_in[of fs ?y] by (auto simp: fs1_def has_parent_def parent_itoa)
  have "parent ?m = ?y" by (rule parent_append) (rule sd_itoa_no_slash)
  then have 2: "files fs2 = files fs1" "?m \<in> dirs fs2"
    using mkdir_in[of fs1 ?m] 1 by (auto simp: fs2_def has_parent_def)
  have "parent ?d = ?m" by (rule parent_append) (rule sd_itoa_no_slash)
  then have 3: "files fs3 = files fs2" "?d \<in> dirs fs3"
    using mkdir_in[of fs2 ?d] 2 by (auto simp: fs3_def has_parent_def)
  from 1 2 3 show ?thesis
    by (simp add: sd_make_path_def sd_make_path_dirs_def Let_def fs1_def fs2_def fs3_def)
qed

lemma new_file_ok:
  assumes "files fs p = None" "has_parent (dirs fs) p"
  shows "\<exists>fs'. new_file ops c p fs = (True, fs') \<and> files fs' = (files fs)(p \<mapsto> c) \<and> dirs fs' = dirs fs"
proof -
  obtain h fs1 where o: "lfs_file_opencfg ops p LFS_O_CREAT_RDWR fs = (LFS_ERR_OK, h, fs1)"
    "view h = Some (opened p [])" "files fs1 = (files fs)(p \<mapsto> [])" "dirs fs1 = dirs fs"
    using open_create[OF assms] by blast
  obtain h1 fs2 where w: "lfs_file_write ops h c fs1 = (int (length c), h1, fs2)"
    "view h1 = Some (opened p [] \<lparr> h_pos := length c, h_contents := c, h_dirty := True \<rparr>)"
    "files fs2 = files fs1" "dirs fs2 = dirs fs1"
    using write_at[OF o(2), of c fs1] by (auto simp: opened_def splice_def)
  obtain h2 fs3 where "lfs_file_close ops h1 fs2 = (LFS_ERR_OK, h2, fs3)"
    "files fs3 = closed_files (view h1) (files fs2)" "dirs fs3 = dirs fs2"
    using close_any by blast
  with o w show ?thesis by (simp add: new_file_def closed_files_def opened_def)
qed

section \<open>Writing\<close>

lemma open_for_write_ok:
  assumes "key_path k = Some p"
  shows "\<exists>h s1. open_for_write ops (new_file ops new) k s = Some (Some h, s1) \<and>
    view h = Some (opened p (contents_or new (files (sd_fs s)) p)) \<and>
    files (sd_fs s1) = (files (sd_fs s))(p \<mapsto> contents_or new (files (sd_fs s)) p) \<and>
    (case files (sd_fs s) p of
       Some _ \<Rightarrow> s1 = s \<lparr> sd_fs := sd_fs s1 \<rparr>
     | None \<Rightarrow> s1 = sd_remove_file_no_exist k (s \<lparr> sd_fs := sd_fs s1 \<rparr>))"
proof (cases "files (sd_fs s) p")
  case (Some c)
  then obtain h fs1 where "lfs_file_opencfg ops p LFS_O_RDWR (sd_fs s) = (LFS_ERR_OK, h, fs1)"
    "view h = Some (opened p c)" "files fs1 = files (sd_fs s)"
    using open_found by blast
  with Some assms show ?thesis
    by (auto simp: open_for_write_def no_file_def contents_or_def)
next
  case None
  then obtain h fs1 where o: "lfs_file_opencfg ops p LFS_O_RDWR (sd_fs s) = (LFS_ERR_NOENT, h, fs1)"
    "view h = None" "files fs1 = files (sd_fs s)"
    using open_missing[of "sd_fs s" p LFS_O_RDWR] by auto
  obtain h2 fs2 where c: "lfs_file_close ops h fs1 = (LFS_ERR_OK, h2, fs2)" "files fs2 = files (sd_fs s)"
    using close_any[of h fs1] o by (auto simp: closed_files_def)
  define fs3 where "fs3 = sd_make_path ops (k_year k) (k_month k) (k_day k) fs2"
  have "files fs3 = files (sd_fs s)" "parent p \<in> dirs fs3"
    using make_path_ok[of "k_year k" "k_month k" "k_day k" fs2] c path_parent[OF assms] by (simp_all add: fs3_def)
  then obtain fs4 where n: "new_file ops new p fs3 = (True, fs4)" "files fs4 = (files (sd_fs s))(p \<mapsto> new)"
    using new_file_ok[of fs3 p new] None by (auto simp: has_parent_def)
  obtain h5 fs5 where "lfs_file_opencfg ops p LFS_O_RDWR fs4 = (LFS_ERR_OK, h5, fs5)"
    "view h5 = Some (opened p new)" "files fs5 = files fs4"
    using open_found[of fs4 p new LFS_O_RDWR] n by auto
  with o c n None assms show ?thesis
    by (auto simp: open_for_write_def no_file_def contents_or_def fs3_def sd_remove_file_no_exist_def)
qed

lemma write_and_close_ok:
  assumes "view h = Some v" "h_pos v \<le> length (h_contents v)"
  shows "\<exists>fs'. write_and_close ops bytes h fs = (True, fs') \<and>
    files fs' = (files fs)(h_path v \<mapsto> splice (h_pos v) bytes (h_contents v))"
proof -
  obtain h1 fs1 where w: "lfs_file_write ops h bytes fs = (int (length bytes), h1, fs1)"
    "view h1 = Some (v \<lparr> h_pos := h_pos v + length bytes,
        h_contents := splice (h_pos v) bytes (h_contents v), h_dirty := True \<rparr>)" "files fs1 = files fs"
    using write_at[OF assms] by blast
  obtain h2 fs2 where "lfs_file_close ops h1 fs1 = (LFS_ERR_OK, h2, fs2)"
    "files fs2 = closed_files (view h1) (files fs1)"
    using close_any by blast
  with w show ?thesis by (simp add: write_and_close_def closed_files_def)
qed

lemma seek_and_write_ok:
  assumes "view h = Some (opened p c)" "unat pos \<le> length c"
  shows "\<exists>fs'. seek_and_write ops pos bytes h fs = (True, fs') \<and>
      files fs' = (files fs)(p \<mapsto> splice (unat pos) bytes c)"
    "\<exists>fs'. seek_and_write_daily ops pos bytes h fs = (True, fs') \<and>
      files fs' = (files fs)(p \<mapsto> splice (unat pos) bytes c)"
proof -
  have "unat pos \<le> length (h_contents (opened p c))" using assms(2) by (simp add: opened_def)
  then obtain h1 fs1 where s: "lfs_file_seek ops h (unat pos) fs = (int (unat pos), h1, fs1)"
    "view h1 = Some (opened p c \<lparr> h_pos := unat pos \<rparr>)" "files fs1 = files fs"
    using seek_in[OF assms(1)] by blast
  obtain fs2 where "write_and_close ops bytes h1 fs1 = (True, fs2)"
    "files fs2 = (files fs)(p \<mapsto> splice (unat pos) bytes c)"
    using write_and_close_ok[OF s(2), of bytes fs1] assms(2) s(3) by (auto simp: opened_def)
  with s show "\<exists>fs'. seek_and_write ops pos bytes h fs = (True, fs') \<and>
      files fs' = (files fs)(p \<mapsto> splice (unat pos) bytes c)"
    "\<exists>fs'. seek_and_write_daily ops pos bytes h fs = (True, fs') \<and>
      files fs' = (files fs)(p \<mapsto> splice (unat pos) bytes c)"
    by (simp_all add: seek_and_write_def seek_and_write_daily_def)
qed

section \<open>Reading\<close>

lemma read_and_check_ok:
  assumes "view (buffered_read_file s) = Some v" "h_pos v + n \<le> length (h_contents v)"
  shows "\<exists>s'. read_and_check ops n s = (True, take n (drop (h_pos v) (h_contents v)), s') \<and>
    files (sd_fs s') = files (sd_fs s)"
proof -
  obtain h1 fs1 where "lfs_file_read ops (buffered_read_file s) n (sd_fs s) =
      ((int n, take n (drop (h_pos v) (h_contents v))), h1, fs1)" "files fs1 = files (sd_fs s)"
    using read_at[OF assms] by blast
  then show ?thesis by (simp add: read_and_check_def)
qed

lemma seek_and_read_ok:
  assumes "view (buffered_read_file s) = Some (opened p c)" "unat pos + n \<le> length c"
  shows "\<exists>s'. seek_and_read ops pos n s = (True, take n (drop (unat pos) c), s') \<and>
      files (sd_fs s') = files (sd_fs s)"
    "\<exists>s'. seek_and_read_daily ops pos n s = (True, take n (drop (unat pos) c), s') \<and>
      files (sd_fs s') = files (sd_fs s)"
proof -
  have "unat pos \<le> length (h_contents (opened p c))" using assms(2) by (simp add: opened_def)
  then obtain h1 fs1 where s: "lfs_file_seek ops (buffered_read_file s) (unat pos) (sd_fs s) = (int (unat pos), h1, fs1)"
    "view h1 = Some (opened p c \<lparr> h_pos := unat pos \<rparr>)" "files fs1 = files (sd_fs s)"
    using seek_in[OF assms(1)] by blast
  define s1 where "s1 = s \<lparr> buffered_read_file := h1, sd_fs := fs1 \<rparr>"
  obtain s2 where "read_and_check ops n s1 = (True, take n (drop (unat pos) c), s2)"
    "files (sd_fs s2) = files (sd_fs s)"
    using read_and_check_ok[of s1 "opened p c \<lparr> h_pos := unat pos \<rparr>" n] s assms(2)
    by (auto simp: s1_def opened_def)
  with s show "\<exists>s'. seek_and_read ops pos n s = (True, take n (drop (unat pos) c), s') \<and>
      files (sd_fs s') = files (sd_fs s)"
    "\<exists>s'. seek_and_read_daily ops pos n s = (True, take n (drop (unat pos) c), s') \<and>
      files (sd_fs s') = files (sd_fs s)"
    by (simp_all add: seek_and_read_def seek_and_read_daily_def s1_def)
qed

lemma open_buffered_found:
  assumes "key_path k = Some p" "files (sd_fs s) p = Some c" "\<not> sd_get_file_no_exist k s"
    and "\<not> buffered_read_is_open s" "\<not> (no_file (buffered_read_current_err s) \<and> buffered_read_current s = k)"
  shows "\<exists>h s'. sd_lfs_open_buffered_read ops k s = Some (LFS_ERR_OK, Some h, s') \<and>
    view (buffered_read_file s') = Some (opened p c) \<and> files (sd_fs s') = files (sd_fs s)"
proof -
  obtain h fs1 where "lfs_file_opencfg ops p LFS_O_RDONLY (sd_fs s) = (LFS_ERR_OK, h, fs1)"
    "view h = Some (opened p c)" "files fs1 = files (sd_fs s)"
    using open_found[OF assms(2)] by blast
  with assms show ?thesis by (auto simp: sd_lfs_open_buffered_read_def no_file_def)
qed

lemma read_points_found:
  assumes "key_path k = Some p" "files (sd_fs s) p = Some c" "\<not> sd_get_file_no_exist k s"
    and "\<not> buffered_read_is_open s" "\<not> (no_file (buffered_read_current_err s) \<and> buffered_read_current s = k)"
    and "unat pos + n \<le> length c" "load \<in> {seek_and_read ops pos n, seek_and_read_daily ops pos n}"
  shows "\<exists>s'. read_points ops absent load k s = Some (True, take n (drop (unat pos) c), s') \<and>
    files (sd_fs s') = files (sd_fs s)"
proof -
  obtain h s1 where o: "sd_lfs_open_buffered_read ops k s = Some (LFS_ERR_OK, Some h, s1)"
    "view (buffered_read_file s1) = Some (opened p c)" "files (sd_fs s1) = files (sd_fs s)"
    using open_buffered_found[OF assms(1-5)] by blast
  with assms(7) seek_and_read_ok[OF o(2) assms(6)] show ?thesis
    by (auto simp: read_points_def no_file_def)
qed

section \<open>Round trips\<close>

lemma splice_read: "pos + length bytes \<le> length c \<Longrightarrow> take (length bytes) (drop pos (splice pos bytes c)) = bytes"
  by (simp add: splice_def)

lemma length_splice: "pos + length bytes \<le> length c \<Longrightarrow> length (splice pos bytes c) = length c"
  by (simp add: splice_def)

lemma write_point_ok:
  assumes "key_path k = Some p" "unat pos + length bytes \<le> length (contents_or new (files (sd_fs s)) p)"
    and "store \<in> {seek_and_write ops pos bytes, seek_and_write_daily ops pos bytes}"
  shows "\<exists>s1. write_point ops (new_file ops new) store k s = Some (True, s1) \<and>
    files (sd_fs s1) = (files (sd_fs s))(p \<mapsto> splice (unat pos) bytes (contents_or new (files (sd_fs s)) p)) \<and>
    buffered_read_is_open s1 = buffered_read_is_open s \<and> buffered_read_current s1 = buffered_read_current s \<and>
    buffered_read_current_err s1 = buffered_read_current_err s \<and>
    file_no_exist_cache s1 = (if files (sd_fs s) p = None
      then file_no_exist_cache (sd_remove_file_no_exist k s) else file_no_exist_cache s)"
proof -
  let ?c = "contents_or new (files (sd_fs s)) p"
  obtain h s1 where o: "open_for_write ops (new_file ops new) k s = Some (Some h, s1)"
    "view h = Some (opened p ?c)" "files (sd_fs s1) = (files (sd_fs s))(p \<mapsto> ?c)"
    "case files (sd_fs s) p of Some _ \<Rightarrow> s1 = s \<lparr> sd_fs := sd_fs s1 \<rparr>
     | None \<Rightarrow> s1 = sd_remove_file_no_exist k (s \<lparr> sd_fs := sd_fs s1 \<rparr>)"
    using open_for_write_ok[OF assms(1), of new s] by blast
  have "unat pos \<le> length ?c" using assms(2) by simp
  from seek_and_write_ok[OF o(2) this, of bytes "sd_fs s1"] assms(3) obtain fs where
    "store h (sd_fs s1) = (True, fs)" "files fs = (files (sd_fs s1))(p \<mapsto> splice (unat pos) bytes ?c)"
    by auto
  moreover have "buffered_read_is_open s1 = buffered_read_is_open s \<and>
      buffered_read_current s1 = buffered_read_current s \<and>
      buffered_read_current_err s1 = buffered_read_current_err s \<and>
      file_no_exist_cache s1 = (if files (sd_fs s) p = None
        then file_no_exist_cache (sd_remove_file_no_exist k s) else file_no_exist_cache s)"
    using o(4) by (cases "files (sd_fs s) p"; cases s1) (simp_all add: sd_remove_file_no_exist_def)
  ultimately show ?thesis
    using o(1,3) by (simp add: write_point_def)
qed

end

text \<open>A date with a month is not the zero entry that marks a free cache slot.\<close>

lemma ymdp_month: "k_month k \<noteq> 0 \<Longrightarrow> ymdp k \<noteq> 0"
proof
  assume "k_month k \<noteq> 0" "ymdp k = 0"
  moreover have "(ucast (drop_bit 16 (ymdp k)) :: u8) = k_month k"
    by (rule bit_word_eqI) (auto simp: ymdp_def bit_simps u8_bit_out)
  ultimately show False by simp
qed

lemma removed_not_cached:
  "k_month k \<noteq> 0 \<Longrightarrow> \<not> sd_get_file_no_exist k (sd_remove_file_no_exist k s)"
  using ymdp_month[of k]
  by (auto simp: sd_get_file_no_exist_def sd_remove_file_no_exist_def list_ex_iff entry_matches_def
      dest!: in_set_takeD split: if_splits)

end
