(* ===== verification/Sd_Card_Props.thy ===== *)
theory Sd_Card_Props
  imports Sd_Card
begin

text \<open>
  Properties of the data point files (\<^verbatim>\<open>warp/wem/sd.c\<close>) on a card without faults:
  round trips through the files, what a missing point reads as, and the negative answer that outlives
  the creation of its file. A card in memory shows that the contract can be met.
\<close>

section \<open>A card in memory\<close>

record ram_card =
  ram_files :: "string \<rightharpoonup> u8 list"
  ram_dirs :: "string set"

definition ram_open :: "string \<Rightarrow> open_flags \<Rightarrow> ram_card \<Rightarrow> int \<times> handle option \<times> ram_card" where
  "ram_open p m fs =
     (case ram_files fs p of
        Some c \<Rightarrow> (LFS_ERR_OK, Some (opened p c), fs)
      | None \<Rightarrow> if m = LFS_O_CREAT_RDWR \<and> has_parent (ram_dirs fs) p
          then (LFS_ERR_OK, Some (opened p []), fs \<lparr> ram_files := (ram_files fs)(p \<mapsto> []) \<rparr>)
          else (LFS_ERR_NOENT, None, fs))"

definition ram_close :: "handle option \<Rightarrow> ram_card \<Rightarrow> int \<times> handle option \<times> ram_card" where
  "ram_close h fs = (LFS_ERR_OK, None, fs \<lparr> ram_files := closed_files h (ram_files fs) \<rparr>)"

definition ram_seek :: "handle option \<Rightarrow> nat \<Rightarrow> ram_card \<Rightarrow> int \<times> handle option \<times> ram_card" where
  "ram_seek h pos fs = (int pos, map_option (\<lambda>v. v \<lparr> h_pos := pos \<rparr>) h, fs)"

definition ram_write :: "handle option \<Rightarrow> u8 list \<Rightarrow> ram_card \<Rightarrow> int \<times> handle option \<times> ram_card" where
  "ram_write h bytes fs = (int (length bytes), map_option (\<lambda>v. v \<lparr> h_pos := h_pos v + length bytes,
     h_contents := splice (h_pos v) bytes (h_contents v), h_dirty := True \<rparr>) h, fs)"

definition ram_read :: "handle option \<Rightarrow> nat \<Rightarrow> ram_card \<Rightarrow> (int \<times> u8 list) \<times> handle option \<times> ram_card" where
  "ram_read h n fs =
     (case h of
        None \<Rightarrow> ((LFS_ERR_IO, []), None, fs)
      | Some v \<Rightarrow> let bytes = take n (drop (h_pos v) (h_contents v)) in
          ((int (length bytes), bytes), Some (v \<lparr> h_pos := h_pos v + length bytes \<rparr>), fs))"

definition ram_mkdir :: "string \<Rightarrow> ram_card \<Rightarrow> int \<times> ram_card" where
  "ram_mkdir d fs = (if has_parent (ram_dirs fs) d
     then (LFS_ERR_OK, fs \<lparr> ram_dirs := insert d (ram_dirs fs) \<rparr>) else (LFS_ERR_NOENT, fs))"

definition ram_ops :: "(ram_card, handle option) lfs_ops" where
  "ram_ops = \<lparr> lfs_file_opencfg = ram_open, lfs_file_close = ram_close, lfs_file_write = ram_write,
     lfs_file_read = ram_read, lfs_file_seek = ram_seek, lfs_file_rewind = (\<lambda>h. ram_seek h 0),
     lfs_mkdir = ram_mkdir, lfs_mount = Pair LFS_ERR_OK, lfs_unmount = Pair LFS_ERR_OK,
     lfs_format = (\<lambda>fs. (LFS_ERR_OK, \<lparr> ram_files = Map.empty, ram_dirs = {} \<rparr>)) \<rparr>"

interpretation ram: card ram_ops ram_files ram_dirs id
proof (unfold_locales, goal_cases)
  case (4 h fs)
  then show ?case by (simp add: ram_ops_def ram_close_def)
qed (auto simp: ram_ops_def ram_open_def ram_seek_def ram_write_def ram_read_def ram_mkdir_def)

section \<open>Positions\<close>

lemma unat_pos_5min:
  assumes "unat hour < 24" "unat minute < 60" "unat offset < 288" "sz \<le> 64"
  shows "unat (pos_5min sz hour minute offset) = 8 + (unat hour * 12 + unat minute div 5 + unat offset) * sz"
proof -
  let ?n = "unat hour * 12 + unat minute div 5 + unat offset"
  have "?n \<le> 23 * 12 + 11 + 287" using assms(1-3) by linarith
  then have "?n * sz \<le> 574 * 64" using assms(4) by (intro mult_le_mono) simp_all
  then have "8 + ?n * sz < 2 ^ 16" by simp
  moreover have "8 + (unat hour * 12 + unat minute div 5) * sz + unat offset * sz = 8 + ?n * sz"
    by (simp add: distrib_right)
  ultimately show ?thesis
    unfolding pos_5min_def by (simp add: unat_of_nat take_bit_nat_eq_self del: of_nat_add of_nat_mult)
qed

lemma int_pos: "0 < d \<Longrightarrow> 8 + (int d - 1) * int sz + int n * int sz = int (8 + (d - 1 + n) * sz)"
  by (cases d) (simp_all add: algebra_simps)

lemma unat_pos_1day:
  assumes "0 < unat day" "unat day \<le> 31" "unat offset \<le> 31" "sz \<le> 64"
  shows "unat (pos_1day sz day offset) = 8 + (unat day - 1 + unat offset) * sz"
proof -
  let ?n = "unat day - 1 + unat offset"
  have "?n * sz \<le> 61 * 64" using assms by (intro mult_le_mono) simp_all
  then have "8 + ?n * sz < 2 ^ 16" by simp
  moreover have "8 + (uint day - 1) * int sz + uint offset * int sz = int (8 + ?n * sz)"
    using int_pos[of "unat day" sz "unat offset"] assms(1) by simp
  ultimately show ?thesis
    unfolding pos_1day_def by (simp add: unat_of_nat take_bit_nat_eq_self del: of_nat_add of_nat_mult)
qed

lemma length_point_bytes:
  "length (wb_5min_bytes x) = WB_5MIN_SIZE" "length (wb_1day_bytes y) = WB_1DAY_SIZE"
  "length (em_power_general z) = 6 \<Longrightarrow> length (em_5min_bytes z) = EM_5MIN_SIZE"
  "length (em_energy_general_in w) = 6 \<Longrightarrow> length (em_energy_general_out w) = 6 \<Longrightarrow>
     length (em_1day_bytes w) = EM_1DAY_SIZE"
  by (simp_all add: wb_5min_bytes_def wb_1day_bytes_def em_5min_bytes_def em_1day_bytes_def point_sizes
      length_concat comp_def sum_list_triv)

lemma length_new_files:
  "length sd_new_file_wb_5min = 8 + 288 * WB_5MIN_SIZE" "length sd_new_file_wb_1day = 8 + 31 * WB_1DAY_SIZE"
  "length sd_new_file_em_5min = 8 + 288 * EM_5MIN_SIZE" "length sd_new_file_em_1day = 8 + 31 * EM_1DAY_SIZE"
  by (simp_all add: sd_new_file_wb_5min_def sd_new_file_wb_1day_def sd_new_file_em_5min_def
      sd_new_file_em_1day_def metadata_def length_concat sum_list_replicate length_point_bytes)

section \<open>Round trips\<close>

text \<open>The next read of a file goes to the card: nothing is open, no negative answer is remembered.\<close>

definition fresh_read :: "(string \<rightharpoonup> u8 list) \<Rightarrow> file_key \<Rightarrow> string \<Rightarrow> ('fs, 'f) sd \<Rightarrow> bool" where
  "fresh_read fs k p s \<longleftrightarrow> \<not> buffered_read_is_open s \<and>
     \<not> (no_file (buffered_read_current_err s) \<and> buffered_read_current s = k) \<and>
     (fs p \<noteq> None \<longrightarrow> \<not> sd_get_file_no_exist k s)"

lemma fresh_read_eq:
  "buffered_read_is_open s1 = buffered_read_is_open s \<Longrightarrow> buffered_read_current s1 = buffered_read_current s \<Longrightarrow>
   buffered_read_current_err s1 = buffered_read_current_err s \<Longrightarrow> fresh_read fs k p s \<Longrightarrow>
   \<not> buffered_read_is_open s1 \<and> \<not> (no_file (buffered_read_current_err s1) \<and> buffered_read_current s1 = k)"
  by (simp add: fresh_read_def)

lemma sd_get_file_no_exist_cache:
  "file_no_exist_cache s1 = file_no_exist_cache s2 \<Longrightarrow> sd_get_file_no_exist k s1 = sd_get_file_no_exist k s2"
  by (simp add: sd_get_file_no_exist_def)

context card
begin

lemma point_roundtrip:
  assumes key: "key_path k = Some p" "k_month k \<noteq> 0" and fresh: "fresh_read (files (sd_fs s)) k p s"
    and room: "unat pos + length bytes \<le> length (contents_or new (files (sd_fs s)) p)"
    and store: "store \<in> {seek_and_write ops pos bytes, seek_and_write_daily ops pos bytes}"
    and load: "load \<in> {seek_and_read ops pos (length bytes), seek_and_read_daily ops pos (length bytes)}"
  shows "\<exists>s1 s2. write_point ops (new_file ops new) store k s = Some (True, s1) \<and>
    read_points ops absent load k s1 = Some (True, bytes, s2) \<and>
    files (sd_fs s1) = (files (sd_fs s))(p \<mapsto> splice (unat pos) bytes (contents_or new (files (sd_fs s)) p))"
proof -
  let ?c = "contents_or new (files (sd_fs s)) p"
  obtain s1 where w: "write_point ops (new_file ops new) store k s = Some (True, s1)"
    "files (sd_fs s1) = (files (sd_fs s))(p \<mapsto> splice (unat pos) bytes ?c)"
    "buffered_read_is_open s1 = buffered_read_is_open s" "buffered_read_current s1 = buffered_read_current s"
    "buffered_read_current_err s1 = buffered_read_current_err s"
    "file_no_exist_cache s1 = (if files (sd_fs s) p = None
      then file_no_exist_cache (sd_remove_file_no_exist k s) else file_no_exist_cache s)"
    using write_point_ok[OF key(1) room store] by blast
  have "\<not> sd_get_file_no_exist k s1"
  proof (cases "files (sd_fs s) p = None")
    case True
    then show ?thesis
      using w(6) removed_not_cached[OF key(2), of s]
        sd_get_file_no_exist_cache[of s1 "sd_remove_file_no_exist k s" k] by simp
  next
    case False
    then show ?thesis
      using w(6) fresh sd_get_file_no_exist_cache[of s1 s k] by (auto simp: fresh_read_def)
  qed
  moreover have "files (sd_fs s1) p = Some (splice (unat pos) bytes ?c)" using w(2) by simp
  moreover have "unat pos + length bytes \<le> length (splice (unat pos) bytes ?c)"
    using room by (simp add: length_splice)
  ultimately show ?thesis
    using read_points_found[OF key(1), of s1 _ pos "length bytes" load absent] load w
      fresh_read_eq[OF w(3-5) fresh] splice_read[OF room] by auto
qed

end

lemma contents_or_length:
  "(\<And>c. fs p = Some c \<Longrightarrow> length c = n) \<Longrightarrow> length new = n \<Longrightarrow> length (contents_or new fs p) = n"
  by (simp add: contents_or_def split: option.split)


text \<open>A daily point that is written is read back: for a day of a month the same holds of the
  daily files of the wallboxes and of the energy manager.\<close>

theorem daily_points_roundtrip:
  assumes "card ops files dirs view" "0 < unat day" "unat day \<le> 31" "month \<noteq> 0"
    and "key_path (wb_key wallbox year month SD_FILE_NO_DAY_IN_PATH) = Some p"
    and "key_path (em_key year month SD_FILE_NO_DAY_IN_PATH) = Some q"
    and "fresh_read (files (sd_fs s)) (wb_key wallbox year month SD_FILE_NO_DAY_IN_PATH) p s"
    and "fresh_read (files (sd_fs s)) (em_key year month SD_FILE_NO_DAY_IN_PATH) q s"
    and "\<And>c. files (sd_fs s) p = Some c \<Longrightarrow> length c = length sd_new_file_wb_1day"
    and "\<And>c. files (sd_fs s) q = Some c \<Longrightarrow> length c = length sd_new_file_em_1day"
    and "length (em_energy_general_in y) = 6" "length (em_energy_general_out y) = 6"
  shows "\<exists>s1 s2 s3 s4.
    sd_write_wallbox_daily_data_point ops wallbox year month day x s = Some (True, s1) \<and>
    sd_read_wallbox_daily_data_point ops wallbox year month day 1 0 s1 = Some (True, wb_1day_bytes x, s2) \<and>
    files (sd_fs s1) = (files (sd_fs s))(p \<mapsto> splice (8 + (unat day - 1) * WB_1DAY_SIZE)
      (wb_1day_bytes x) (contents_or sd_new_file_wb_1day (files (sd_fs s)) p)) \<and>
    sd_write_energy_manager_daily_data_point ops year month day y s = Some (True, s3) \<and>
    sd_read_energy_manager_daily_data_point ops year month day 1 0 s3 = Some (True, em_1day_bytes y, s4) \<and>
    files (sd_fs s3) = (files (sd_fs s))(q \<mapsto> splice (8 + (unat day - 1) * EM_1DAY_SIZE)
      (em_1day_bytes y) (contents_or sd_new_file_em_1day (files (sd_fs s)) q))"
proof -
  have slot: "Suc (unat day - 1) \<le> 31" using assms(2,3) by arith
  have room: "8 + (unat day - 1) * sz + sz \<le> 8 + 31 * sz" for sz
    using mult_le_mono1[OF slot, of sz] by (simp only: mult_Suc)
  have pos: "unat (pos_1day sz day 0) = 8 + (unat day - 1) * sz" if "sz \<le> 64" for sz
    using unat_pos_1day[OF assms(2,3), of 0 sz] that by simp
  have month: "k_month (wb_key wallbox year month SD_FILE_NO_DAY_IN_PATH) \<noteq> 0"
    "k_month (em_key year month SD_FILE_NO_DAY_IN_PATH) \<noteq> 0"
    using assms(4) by (simp_all add: wb_key_def em_key_def)
  have len: "length (contents_or sd_new_file_wb_1day (files (sd_fs s)) p) = 8 + 31 * WB_1DAY_SIZE"
    "length (contents_or sd_new_file_em_1day (files (sd_fs s)) q) = 8 + 31 * EM_1DAY_SIZE"
    using contents_or_length[of "files (sd_fs s)" p] contents_or_length[of "files (sd_fs s)" q]
      assms(9,10) by (simp_all add: length_new_files)
  have fits: "WB_1DAY_SIZE \<le> 64" "EM_1DAY_SIZE \<le> 64" by (simp_all add: point_sizes)
  note ems = length_point_bytes(4)[OF assms(11,12)]
  show ?thesis
    using card.point_roundtrip[OF assms(1,5) month(1) assms(7), of "pos_1day WB_1DAY_SIZE day 0"
        "wb_1day_bytes x" sd_new_file_wb_1day "seek_and_write_daily ops (pos_1day WB_1DAY_SIZE day 0) (wb_1day_bytes x)"
        "seek_and_read_daily ops (pos_1day WB_1DAY_SIZE day 0) WB_1DAY_SIZE" "replicate (unat (1 :: u16) * WB_1DAY_SIZE) 0xFF"]
      card.point_roundtrip[OF assms(1,6) month(2) assms(8), of "pos_1day EM_1DAY_SIZE day 0"
        "em_1day_bytes y" sd_new_file_em_1day "seek_and_write_daily ops (pos_1day EM_1DAY_SIZE day 0) (em_1day_bytes y)"
        "seek_and_read_daily ops (pos_1day EM_1DAY_SIZE day 0) EM_1DAY_SIZE" "replicate (unat (1 :: u16) * EM_1DAY_SIZE) 0xFF"]
    unfolding pos[OF fits(1)] pos[OF fits(2)] len ems length_point_bytes(2)
    using room by (simp add: sd_write_wallbox_daily_data_point_def sd_read_wallbox_daily_data_point_def
        sd_write_energy_manager_daily_data_point_def sd_read_energy_manager_daily_data_point_def
        sd_write_wallbox_daily_data_point_new_file_def sd_write_energy_manager_daily_data_point_new_file_def)
qed

text \<open>A storage that has just been started, on an empty card in memory.\<close>

definition empty_sd :: "(ram_card, handle option) sd" where
  "empty_sd = \<lparr> sd_fs = \<lparr> ram_files = Map.empty, ram_dirs = {} \<rparr>, buffered_read_is_open = False,
     buffered_read_current_err = 0, buffered_read_current = wb_key 0 0 0 0, buffered_read_file = None,
     file_no_exist_cache = replicate 4 \<lparr> c_wallbox_id = 0, c_ymdp = 0 \<rparr>, file_no_exist_index = 0,
     sd_rw_error_count = 0 \<rparr>"

lemma wb_em_paths: "\<exists>p. key_path (wb_key i y m d) = Some p" "\<exists>p. key_path (em_key y m d) = Some p"
  by (simp_all add: key_path_def wb_key_def em_key_def sd_get_path_with_filename_def base58_encode_digits
      SD_POSTFIXES_def arr_get_def)

lemma empty_sd_fresh: "fresh_read (ram_files (sd_fs empty_sd)) k p empty_sd"
  by (simp add: fresh_read_def empty_sd_def no_file_def)

lemma empty_sd_files: "ram_files (sd_fs empty_sd) p = None"
  by (simp add: empty_sd_def)

lemma exists2_of_4:
  "(PROP A \<Longrightarrow> PROP B \<Longrightarrow> \<exists>s1 s2 s3 s4. P s1 \<and> Q s1 s2 \<and> R s1 s2 s3 s4) \<Longrightarrow>
   PROP A \<Longrightarrow> PROP B \<Longrightarrow> \<exists>s1 s2. P s1 \<and> Q s1 s2"
proof -
  assume "PROP A \<Longrightarrow> PROP B \<Longrightarrow> \<exists>s1 s2 s3 s4. P s1 \<and> Q s1 s2 \<and> R s1 s2 s3 s4" "PROP A" "PROP B"
  then have "\<exists>s1 s2 s3 s4. P s1 \<and> Q s1 s2 \<and> R s1 s2 s3 s4" .
  then show ?thesis by blast
qed


lemma daily_points_roundtrip_witness:
  "\<exists>s1 s2. sd_write_wallbox_daily_data_point ram_ops 7 25 6 30 \<lparr> wb_energy = 258 \<rparr> empty_sd = Some (True, s1) \<and>
     sd_read_wallbox_daily_data_point ram_ops 7 25 6 30 1 0 s1 = Some (True, [2, 1, 0, 0], s2)"
proof -
  obtain p q where pq: "key_path (wb_key 7 25 6 SD_FILE_NO_DAY_IN_PATH) = Some p"
    "key_path (em_key 25 6 SD_FILE_NO_DAY_IN_PATH) = Some q"
    using wb_em_paths by blast
  have bytes: "wb_1day_bytes \<lparr> wb_energy = 258 \<rparr> = [2, 1, 0, 0]"
    by (simp add: wb_1day_bytes_def le32_def)
  have date: "0 < unat (30 :: u8)" "unat (30 :: u8) \<le> 31" "(6 :: u8) \<noteq> 0" by simp_all
  let ?y = "\<lparr> em_energy_grid_in = 0, em_energy_grid_out = 0, em_energy_general_in = replicate 6 0,
     em_energy_general_out = replicate 6 0, em_day_price = 0 \<rparr>"
  have len: "length (em_energy_general_in ?y) = 6" "length (em_energy_general_out ?y) = 6" by simp_all
  note written = daily_points_roundtrip[OF ram.card_axioms date pq empty_sd_fresh empty_sd_fresh
      _ _ len, where x = "\<lparr> wb_energy = 258 \<rparr>"]
  show ?thesis unfolding bytes[symmetric] by (rule exists2_of_4[OF written]) (simp_all add: empty_sd_files)
qed

section \<open>Missing points\<close>

lemma take_drop_concat_replicate:
  "i < n \<Longrightarrow> length xs = k \<Longrightarrow> take k (drop (i * k) (concat (replicate n xs))) = xs"
proof (induction i arbitrary: n)
  case 0
  then show ?case by (cases n) simp_all
next
  case (Suc i)
  then show ?case by (cases n) (simp_all add: drop_append)
qed

lemma new_file_slot:
  assumes "i < n" "length xs = k"
  shows "take k (drop (8 + i * k) (metadata m @ concat (replicate n xs))) = xs"
proof -
  have "length (metadata m) = 8" by (simp add: metadata_def)
  then have "drop (8 + i * k) (metadata m @ concat (replicate n xs)) = drop (i * k) (concat (replicate n xs))"
    by (simp only: drop_append) simp
  then show ?thesis using take_drop_concat_replicate[OF assms] by simp
qed

lemma replicate_numeral: "replicate (numeral k) x = x # replicate (pred_numeral k) x"
  by (simp add: numeral_eq_Suc)

lemma unwritten_bytes:
  "wb_5min_bytes \<lparr> wb_flags = SD_5MIN_FLAG_NO_DATA, wb_power = 0 \<rparr> = absent_wb_5min"
  "wb_1day_bytes \<lparr> wb_energy = UINT32_MAX \<rparr> = replicate WB_1DAY_SIZE 0xFF"
  "em_5min_bytes \<lparr> em_flags = SD_5MIN_FLAG_NO_DATA, em_power_grid = 0, em_power_general = replicate 6 0,
     em_price = 0 \<rparr> = take 30 absent_em_5min @ replicate 4 0"
  "em_1day_bytes \<lparr> em_energy_grid_in = UINT32_MAX, em_energy_grid_out = UINT32_MAX,
     em_energy_general_in = replicate 6 UINT32_MAX, em_energy_general_out = replicate 6 UINT32_MAX,
     em_day_price = UINT32_MAX \<rparr> = replicate EM_1DAY_SIZE 0xFF"
  subgoal by (simp add: wb_5min_bytes_def absent_wb_5min_def le16_def)
  subgoal by (simp add: wb_1day_bytes_def le32_def WB_1DAY_SIZE_def replicate_numeral)
  subgoal by (simp add: em_5min_bytes_def absent_em_5min_def le16_def le32_def replicate_numeral)
  subgoal by (simp add: em_1day_bytes_def le32_def EM_1DAY_SIZE_def replicate_numeral)
  done

text \<open>A point that was never written reads the same whether its file is missing or has been
  created for another point, except for the price of the energy manager: for a wallbox and for both
  daily files the slot of a new file holds the bytes that are given for a missing file, but a five
  minute point of the energy manager has the price 0xFFFFFFFF when the file is missing and 0 when it
  exists, and is otherwise the same.\<close>

theorem missing_point_reads:
  assumes "i < 288" "j < 31"
  shows "take WB_5MIN_SIZE (drop (8 + i * WB_5MIN_SIZE) sd_new_file_wb_5min) = absent_wb_5min \<and>
    take WB_1DAY_SIZE (drop (8 + j * WB_1DAY_SIZE) sd_new_file_wb_1day) = replicate WB_1DAY_SIZE 0xFF \<and>
    take EM_1DAY_SIZE (drop (8 + j * EM_1DAY_SIZE) sd_new_file_em_1day) = replicate EM_1DAY_SIZE 0xFF \<and>
    take EM_5MIN_SIZE (drop (8 + i * EM_5MIN_SIZE) sd_new_file_em_5min) =
      take 30 absent_em_5min @ replicate 4 0 \<and>
    absent_em_5min = take 30 absent_em_5min @ replicate 4 0xFF"
proof -
  have "take WB_5MIN_SIZE (drop (8 + i * WB_5MIN_SIZE) sd_new_file_wb_5min) =
      wb_5min_bytes \<lparr> wb_flags = SD_5MIN_FLAG_NO_DATA, wb_power = 0 \<rparr>"
    unfolding sd_new_file_wb_5min_def by (rule new_file_slot) (use assms in \<open>simp_all add: length_point_bytes\<close>)
  moreover have "take WB_1DAY_SIZE (drop (8 + j * WB_1DAY_SIZE) sd_new_file_wb_1day) =
      wb_1day_bytes \<lparr> wb_energy = UINT32_MAX \<rparr>"
    unfolding sd_new_file_wb_1day_def by (rule new_file_slot) (use assms in \<open>simp_all add: length_point_bytes\<close>)
  moreover have "take EM_1DAY_SIZE (drop (8 + j * EM_1DAY_SIZE) sd_new_file_em_1day) =
      em_1day_bytes \<lparr> em_energy_grid_in = UINT32_MAX, em_energy_grid_out = UINT32_MAX,
        em_energy_general_in = replicate 6 UINT32_MAX, em_energy_general_out = replicate 6 UINT32_MAX,
        em_day_price = UINT32_MAX \<rparr>"
    unfolding sd_new_file_em_1day_def by (rule new_file_slot) (use assms in \<open>simp_all add: length_point_bytes\<close>)
  moreover have "take EM_5MIN_SIZE (drop (8 + i * EM_5MIN_SIZE) sd_new_file_em_5min) =
      em_5min_bytes \<lparr> em_flags = SD_5MIN_FLAG_NO_DATA, em_power_grid = 0,
        em_power_general = replicate 6 0, em_price = 0 \<rparr>"
    unfolding sd_new_file_em_5min_def by (rule new_file_slot) (use assms in \<open>simp_all add: length_point_bytes\<close>)
  ultimately show ?thesis
    by (simp only: unwritten_bytes) (simp add: absent_em_5min_def)
qed

lemma missing_point_reads_witness:
  "take EM_5MIN_SIZE (drop (8 + 5 * EM_5MIN_SIZE) sd_new_file_em_5min) \<noteq> absent_em_5min"
proof -
  have "take 30 absent_em_5min @ replicate 4 0 \<noteq> take 30 absent_em_5min @ replicate 4 (0xFF :: u8)"
    by simp
  moreover have "take EM_5MIN_SIZE (drop (8 + 5 * EM_5MIN_SIZE) sd_new_file_em_5min) =
      take 30 absent_em_5min @ replicate 4 0" "absent_em_5min = take 30 absent_em_5min @ replicate 4 0xFF"
    using missing_point_reads[of 5 5] by simp_all
  ultimately show ?thesis by simp
qed

section \<open>The remembered negative answer\<close>

context card
begin

lemma open_buffered_missing:
  assumes "key_path k = Some p" "files (sd_fs s) p = None" "\<not> sd_get_file_no_exist k s"
    and "\<not> buffered_read_is_open s" "\<not> (no_file (buffered_read_current_err s) \<and> buffered_read_current s = k)"
    and "unat (file_no_exist_index s) < length (file_no_exist_cache s)"
  shows "\<exists>s1. read_points ops absent load k s = Some (True, absent, s1) \<and>
    view (buffered_read_file s1) = None \<and> files (sd_fs s1) = files (sd_fs s) \<and>
    buffered_read_current s1 = k \<and> buffered_read_current_err s1 = LFS_ERR_NOENT"
proof -
  obtain h fs1 where "lfs_file_opencfg ops p LFS_O_RDONLY (sd_fs s) = (LFS_ERR_NOENT, h, fs1)"
    "view h = None" "files fs1 = files (sd_fs s)"
    using open_missing[OF assms(2), of LFS_O_RDONLY] by auto
  with assms show ?thesis
    by (auto simp: sd_lfs_open_buffered_read_def no_file_def read_points_def sd_set_file_no_exist_def arr_set_def)
qed

lemma answer_outlives_file:
  assumes key: "key_path k = Some p" "k_month k \<noteq> 0" and missing: "files (sd_fs s) p = None"
    and fresh: "\<not> sd_get_file_no_exist k s" "fresh_read (files (sd_fs s)) k p s"
    and idx: "unat (file_no_exist_index s) < length (file_no_exist_cache s)"
    and room: "unat pos + length bytes \<le> length new"
  shows "\<exists>s1 s2. read_points ops absent load k s = Some (True, absent, s1) \<and>
    write_point ops (new_file ops new) (seek_and_write ops pos bytes) k (snd (sd_lfs_close_buffered_read ops s1)) =
      Some (True, s2) \<and>
    files (sd_fs s2) p = Some (splice (unat pos) bytes new) \<and>
    read_points ops absent load k s2 = Some (True, absent, s2)"
proof -
  obtain s1 where r: "read_points ops absent load k s = Some (True, absent, s1)"
    "view (buffered_read_file s1) = None" "files (sd_fs s1) = files (sd_fs s)"
    "buffered_read_current s1 = k" "buffered_read_current_err s1 = LFS_ERR_NOENT"
    using open_buffered_missing[OF key(1) missing fresh(1) _ _ idx, of absent load] fresh(2)
    by (auto simp: fresh_read_def)
  define s2 where "s2 = snd (sd_lfs_close_buffered_read ops s1)"
  obtain h fs where "lfs_file_close ops (buffered_read_file s1) (sd_fs s1) = (LFS_ERR_OK, h, fs)"
    "files fs = files (sd_fs s1)"
    using close_any[of "buffered_read_file s1" "sd_fs s1"] r(2) by (auto simp: closed_files_def)
  with r have c: "files (sd_fs s2) p = None" "buffered_read_current s2 = k" "\<not> buffered_read_is_open s2"
    "buffered_read_current_err s2 = LFS_ERR_NOENT"
    using missing by (simp_all add: s2_def sd_lfs_close_buffered_read_def)
  then have room2: "unat pos + length bytes \<le> length (contents_or new (files (sd_fs s2)) p)"
    using room by (simp add: contents_or_def)
  obtain s3 where w: "write_point ops (new_file ops new) (seek_and_write ops pos bytes) k s2 = Some (True, s3)"
    "files (sd_fs s3) p = Some (splice (unat pos) bytes new)"
    "buffered_read_is_open s3 = buffered_read_is_open s2" "buffered_read_current s3 = buffered_read_current s2"
    "buffered_read_current_err s3 = buffered_read_current_err s2"
    "file_no_exist_cache s3 = file_no_exist_cache (sd_remove_file_no_exist k s2)"
    using write_point_ok[OF key(1) room2, of "seek_and_write ops pos bytes"] c(1)
    by (auto simp: contents_or_def)
  have "\<not> sd_get_file_no_exist k s3"
    using w(6) removed_not_cached[OF key(2), of s2]
      sd_get_file_no_exist_cache[of s3 "sd_remove_file_no_exist k s2" k] by simp
  then have "read_points ops absent load k s3 = Some (True, absent, s3)"
    using w(3-5) c by (simp add: read_points_def sd_lfs_open_buffered_read_def no_file_def)
  with r(1) w(1,2) show ?thesis unfolding s2_def by blast
qed

end



end
