(* ===== verification/Sd_Handlers.thy ===== *)
theory Sd_Handlers
  imports Sd_Files System_Timer
begin

text \<open>
  The handlers of the SD task (\<^verbatim>\<open>warp/wem/sd.c\<close>): each takes the last queued data
  point and writes it, and answers a pending request for data points in pieces, one callback each. The
  four handlers differ in the kind of the data points. Both parts let the rest of the firmware run:
  what it does to the queue during a write is a function, and for every piece there is the time at
  which the piece was posted and, for every return from a yield, the time and whether the callback had
  been taken.
\<close>

section \<open>Data points\<close>

record wallbox_data_point =
  wp_wallbox_id :: u32  wp_year :: u8  wp_month :: u8  wp_day :: u8  wp_hour :: u8  wp_minute :: u8
  wp_flags :: u16  wp_power :: u16

record wallbox_daily_data_point =
  wd_wallbox_id :: u32  wd_year :: u8  wd_month :: u8  wd_day :: u8  wd_energy :: u32

text \<open>The fields behind the date are copied as one block of memory; they are the data of the file.\<close>

record energy_manager_data_point =
  ep_year :: u8  ep_month :: u8  ep_day :: u8  ep_hour :: u8  ep_minute :: u8
  ep_data :: energy_manager_5min_data

record energy_manager_daily_data_point =
  ed_year :: u8  ed_month :: u8  ed_day :: u8
  ed_data :: energy_manager_1day_data

definition SD_WALLBOX_DATA_POINT_LENGTH :: nat where "SD_WALLBOX_DATA_POINT_LENGTH = 8"
definition SD_WALLBOX_DAILY_DATA_POINT_LENGTH :: nat where "SD_WALLBOX_DAILY_DATA_POINT_LENGTH = 2"
definition SD_ENERGY_MANAGER_DATA_POINT_LENGTH :: nat where "SD_ENERGY_MANAGER_DATA_POINT_LENGTH = 8"
definition SD_ENERGY_MANAGER_DAILY_DATA_POINT_LENGTH :: nat where "SD_ENERGY_MANAGER_DAILY_DATA_POINT_LENGTH = 2"

definition SD_WALLBOX_DATA_POINT_PER_CB :: nat where "SD_WALLBOX_DATA_POINT_PER_CB = 15"
definition SD_WALLBOX_DAILY_DATA_POINT_PER_CB :: nat where "SD_WALLBOX_DAILY_DATA_POINT_PER_CB = 15"
definition SD_ENERGY_MANAGER_DATA_POINT_PER_CB :: nat where "SD_ENERGY_MANAGER_DATA_POINT_PER_CB = 1"
definition SD_ENERGY_MANAGER_DAILY_DATA_POINT_PER_CB :: nat where "SD_ENERGY_MANAGER_DAILY_DATA_POINT_PER_CB = 1"

definition SD_CALLBACK_TIMEOUT :: u32 where "SD_CALLBACK_TIMEOUT = 1000"

section \<open>Writing queued points\<close>

record 'p point_queue =
  pq_points :: "'p list"
  pq_end :: u8

definition count_error :: "('fs, 'f) sd \<Rightarrow> ('fs, 'f) sd" where
  "count_error s = s \<lparr> sd_rw_error_count := sd_rw_error_count s + 1 \<rparr>"

definition handle_setter ::
  "nat \<Rightarrow> ('p \<Rightarrow> ('fs, 'f) sd \<Rightarrow> (bool \<times> ('fs, 'f) sd) option) \<Rightarrow> ('p point_queue \<Rightarrow> 'p point_queue) \<Rightarrow>
   'p point_queue \<times> ('fs, 'f) sd \<Rightarrow> ('p point_queue \<times> ('fs, 'f) sd) option" where
  "handle_setter cap store meanwhile = (\<lambda>(q, s).
     if 0 < pq_end q then do {
       let q1 = q \<lparr> pq_end := pq_end q - 1 \<rparr>;
       p \<leftarrow> arr_get (pq_points q1) (unat (pq_end q1));
       (ret, s1) \<leftarrow> store p s;
       let q2 = meanwhile q1;
       if \<not> ret then
         if unat (pq_end q2) < cap then do {
           ps \<leftarrow> arr_set (pq_points q2) (unat (pq_end q2)) p;
           Some (q2 \<lparr> pq_points := ps, pq_end := pq_end q2 + 1 \<rparr>, count_error s1)
         }
         else Some (q2, count_error s1)
       else Some (q2, s1 \<lparr> sd_rw_error_count := 0 \<rparr>)
     }
     else Some (q, s))"

section \<open>Answering requests\<close>

text \<open>The fields of the four request messages; each message has those it needs.\<close>

record points_request =
  r_wallbox_id :: u32  r_year :: u8  r_month :: u8  r_day :: u8  r_hour :: u8  r_minute :: u8
  r_amount :: u16

record getter =
  g_request :: points_request
  g_new :: bool
  g_cb_length :: u16
  g_cb_offset :: u16
  g_cb_data :: "u8 list"
  g_cb_new :: bool

text \<open>The time when a piece is posted, and for every yield the time after it and whether the callback
  has been taken during it.\<close>

type_synonym piece_env = "u32 \<times> (u32 \<times> bool) list"

text \<open>The result is whether the callback was taken in time, the flag of the callback and the error
  count.\<close>

fun wait_taken :: "u32 \<Rightarrow> (u32 \<times> bool) list \<Rightarrow> u32 \<Rightarrow> (bool \<times> bool \<times> u32) option" where
  "wait_taken start [] errors = None"
| "wait_taken start ((now, taken) # ys) errors =
     (if system_timer_is_time_elapsed_ms now start SD_CALLBACK_TIMEOUT then Some (False, \<not> taken, errors + 1)
      else if taken then Some (True, False, 0)
      else wait_taken start ys 0)"

text \<open>What a kind of data points brings: the size of a point, the points in a callback, how they are
  read and how the offset and the length are given in the callback.\<close>

record ('fs, 'f) points_kind =
  k_size :: nat
  k_per_cb :: nat
  k_load :: "points_request \<Rightarrow> u16 \<Rightarrow> u16 \<Rightarrow> ('fs, 'f) sd \<Rightarrow> (bool \<times> u8 list \<times> ('fs, 'f) sd) option"
  k_cb_offset :: "u16 \<Rightarrow> u16"
  k_cb_length :: "u16 \<Rightarrow> u16"

text \<open>One round of the loop: whether it goes on, the new state, and the callbacks it posted.\<close>

definition get_piece ::
  "('fs, 'f) points_kind \<Rightarrow> piece_env \<Rightarrow> u16 \<Rightarrow> getter \<times> ('fs, 'f) sd \<Rightarrow>
   (bool \<times> (u16 \<times> u16 \<times> u8 list) list \<times> getter \<times> ('fs, 'f) sd) option" where
  "get_piece kind env offset = (\<lambda>(g, s). do {
     let (start, yields) = env;
     let r = g_request g;
     let amount = of_nat (min (k_per_cb kind) (unat (r_amount r) - unat offset div k_size kind));
     (ret, bytes, s1) \<leftarrow> k_load kind r amount (of_nat (unat offset div k_size kind)) s;
     let g1 = g \<lparr> g_cb_data := bytes @ drop (length bytes) (g_cb_data g) \<rparr>;
     if \<not> ret then Some (False, [], g1, count_error s1)
     else do {
       let g2 = g1 \<lparr> g_cb_offset := k_cb_offset kind offset, g_cb_length := k_cb_length kind (r_amount r) \<rparr>;
       (taken, new, errors) \<leftarrow> wait_taken start yields 0;
       Some (taken, [(g_cb_offset g2, g_cb_length g2, g_cb_data g2)],
         g2 \<lparr> g_cb_new := new \<rparr>, s1 \<lparr> sd_rw_error_count := errors \<rparr>)
     }
   })"

fun get_pieces ::
  "('fs, 'f) points_kind \<Rightarrow> piece_env list \<Rightarrow> u16 \<Rightarrow> getter \<times> ('fs, 'f) sd \<Rightarrow>
   (bool \<times> (u16 \<times> u16 \<times> u8 list) list \<times> getter \<times> ('fs, 'f) sd) option" where
  "get_pieces kind envs offset st =
     (if \<not> unat offset < unat (r_amount (g_request (fst st))) * k_size kind then Some (True, [], st)
      else case envs of
        [] \<Rightarrow> None
      | env # rest \<Rightarrow> do {
          (goes_on, posted, st1) \<leftarrow> get_piece kind env offset st;
          if goes_on then do {
            (complete, more, st2) \<leftarrow> get_pieces kind rest (offset + of_nat (k_per_cb kind * k_size kind)) st1;
            Some (complete, posted @ more, st2)
          }
          else Some (False, posted, st1)
        })"

definition handle_getter ::
  "('fs, 'f) lfs_ops \<Rightarrow> ('fs, 'f) points_kind \<Rightarrow> piece_env list \<Rightarrow> getter \<times> ('fs, 'f) sd \<Rightarrow>
   ((u16 \<times> u16 \<times> u8 list) list \<times> getter \<times> ('fs, 'f) sd) option" where
  "handle_getter ops kind envs = (\<lambda>(g, s).
     if g_new g then do {
       (complete, posted, g1, s1) \<leftarrow> get_pieces kind envs 0 (g, s);
       if complete then Some (posted, g1 \<lparr> g_new := False \<rparr>, snd (sd_lfs_close_buffered_read ops s1))
       else Some (posted, g1, s1)
     }
     else Some ([], g, s))"

section \<open>The four kinds\<close>

definition wallbox_kind :: "('fs, 'f) lfs_ops \<Rightarrow> ('fs, 'f) points_kind" where
  "wallbox_kind ops = \<lparr> k_size = WB_5MIN_SIZE, k_per_cb = SD_WALLBOX_DATA_POINT_PER_CB,
     k_load = \<lambda>r. sd_read_wallbox_data_point ops (r_wallbox_id r) (r_year r) (r_month r) (r_day r) (r_hour r) (r_minute r),
     k_cb_offset = id, k_cb_length = \<lambda>amount. amount * of_nat WB_5MIN_SIZE \<rparr>"

definition wallbox_daily_kind :: "('fs, 'f) lfs_ops \<Rightarrow> ('fs, 'f) points_kind" where
  "wallbox_daily_kind ops = \<lparr> k_size = WB_1DAY_SIZE, k_per_cb = SD_WALLBOX_DAILY_DATA_POINT_PER_CB,
     k_load = \<lambda>r. sd_read_wallbox_daily_data_point ops (r_wallbox_id r) (r_year r) (r_month r) (r_day r),
     k_cb_offset = \<lambda>offset. offset div 4, k_cb_length = id \<rparr>"

definition energy_manager_kind :: "('fs, 'f) lfs_ops \<Rightarrow> ('fs, 'f) points_kind" where
  "energy_manager_kind ops = \<lparr> k_size = EM_5MIN_SIZE, k_per_cb = SD_ENERGY_MANAGER_DATA_POINT_PER_CB,
     k_load = \<lambda>r. sd_read_energy_manager_data_point ops (r_year r) (r_month r) (r_day r) (r_hour r) (r_minute r),
     k_cb_offset = id, k_cb_length = \<lambda>amount. amount * of_nat EM_5MIN_SIZE \<rparr>"

definition energy_manager_daily_kind :: "('fs, 'f) lfs_ops \<Rightarrow> ('fs, 'f) points_kind" where
  "energy_manager_daily_kind ops = \<lparr> k_size = EM_1DAY_SIZE, k_per_cb = SD_ENERGY_MANAGER_DAILY_DATA_POINT_PER_CB,
     k_load = \<lambda>r. sd_read_energy_manager_daily_data_point ops (r_year r) (r_month r) (r_day r),
     k_cb_offset = \<lambda>offset. offset div 4, k_cb_length = \<lambda>amount. amount * of_nat (EM_1DAY_SIZE div 4) \<rparr>"

end
