(* ===== verification/Sd_Stream.thy ===== *)
theory Sd_Stream
  imports Sd_Handlers Sd_Card_Props
begin

text \<open>
  Properties of the handlers of the SD task: the queue of points is a stack that keeps a point whose
  write failed, and the callbacks of an answered request carry the requested bytes of the file.
\<close>

section \<open>The queue\<close>

definition pending :: "'p point_queue \<Rightarrow> 'p list" where
  "pending q = take (unat (pq_end q)) (pq_points q)"

definition queue_ok :: "nat \<Rightarrow> 'p point_queue \<Rightarrow> bool" where
  "queue_ok cap q \<longleftrightarrow> length (pq_points q) = cap \<and> unat (pq_end q) \<le> cap"

lemma length_pending: "queue_ok cap q \<Longrightarrow> length (pending q) = unat (pq_end q)"
  by (simp add: pending_def queue_ok_def)

lemma pending_pop:
  assumes "queue_ok cap q" "pending q = ps @ [p]"
  shows "0 < pq_end q" "unat (pq_end q - 1) < cap" "pq_points q ! unat (pq_end q - 1) = p"
    "queue_ok cap (q \<lparr> pq_end := pq_end q - 1 \<rparr>)" "pending (q \<lparr> pq_end := pq_end q - 1 \<rparr>) = ps"
proof -
  have n: "unat (pq_end q) = Suc (length ps)" using length_pending[OF assms(1)] assms(2) by simp
  then show pos: "0 < pq_end q" by (simp add: word_less_nat_alt)
  have e: "unat (pq_end q - 1) = length ps" using n unat_minus_1[of "pq_end q"] by simp
  then show "unat (pq_end q - 1) < cap" using n assms(1) by (simp add: queue_ok_def)
  have t: "take (Suc (length ps)) (pq_points q) = ps @ [p]" using assms(2) n by (simp add: pending_def)
  then have "take (Suc (length ps)) (pq_points q) ! length ps = p" by simp
  then show "pq_points q ! unat (pq_end q - 1) = p" using e by simp
  show "queue_ok cap (q \<lparr> pq_end := pq_end q - 1 \<rparr>)" using assms(1) n e by (simp add: queue_ok_def)
  have "take (length ps) (take (Suc (length ps)) (pq_points q)) = ps" using t by simp
  then show "pending (q \<lparr> pq_end := pq_end q - 1 \<rparr>) = ps" using e by (simp add: pending_def)
qed

lemma pending_push:
  assumes "queue_ok cap q" "unat (pq_end q) < cap" "cap < 256"
  shows "queue_ok cap (q \<lparr> pq_points := (pq_points q)[unat (pq_end q) := p], pq_end := pq_end q + 1 \<rparr>)"
    "pending (q \<lparr> pq_points := (pq_points q)[unat (pq_end q) := p], pq_end := pq_end q + 1 \<rparr>) = pending q @ [p]"
proof -
  have "unat (of_nat cap :: u8) = cap" using assms(3) by (simp add: unat_of_nat take_bit_nat_eq_self)
  then have e: "unat (pq_end q + 1) = Suc (unat (pq_end q))"
    using unat_Suc_no_wrap[of "pq_end q" "of_nat cap"] assms(2) by simp
  show "queue_ok cap (q \<lparr> pq_points := (pq_points q)[unat (pq_end q) := p], pq_end := pq_end q + 1 \<rparr>)"
    using assms e by (simp add: queue_ok_def)
  show "pending (q \<lparr> pq_points := (pq_points q)[unat (pq_end q) := p], pq_end := pq_end q + 1 \<rparr>) = pending q @ [p]"
    using assms(1,2) e by (simp add: pending_def queue_ok_def take_Suc_conv_app_nth)
qed

text \<open>C27. The setter treats the queue as a stack and loses a point only when it has no room: it takes
  the point that was queued last; when its write succeeds the point is gone and the error count is
  zero, and when it fails the error count grows by one and the point is queued last again, behind the
  points that were queued during the write, unless these have filled the queue.\<close>

theorem failed_point_stays_queued:
  assumes "queue_ok cap q" "cap < 256" "pending q = ps @ [p]" "store p s = Some (ret, s1)"
    and "queue_ok cap (meanwhile (q \<lparr> pq_end := pq_end q - 1 \<rparr>))"
    and "pending (meanwhile (q \<lparr> pq_end := pq_end q - 1 \<rparr>)) = ps @ new"
  shows "\<exists>q'. handle_setter cap store meanwhile (q, s) =
      Some (q', s1 \<lparr> sd_rw_error_count := if ret then 0 else sd_rw_error_count s1 + 1 \<rparr>) \<and> queue_ok cap q' \<and>
    pending q' = ps @ new @ (if \<not> ret \<and> length (ps @ new) < cap then [p] else [])"
proof -
  let ?q1 = "q \<lparr> pq_end := pq_end q - 1 \<rparr>"
  note pop = pending_pop[OF assms(1,3)]
  have "length (pq_points q) = cap" using assms(1) by (simp add: queue_ok_def)
  then have get: "arr_get (pq_points q) (unat (pq_end q - 1)) = Some p" using pop(2,3) by (simp add: arr_get_def)
  have len: "unat (pq_end (meanwhile ?q1)) = length (ps @ new)" "length (pq_points (meanwhile ?q1)) = cap"
    using length_pending[OF assms(5)] assms(5,6) by (simp_all add: queue_ok_def)
  show ?thesis
  proof (cases "\<not> ret \<and> length (ps @ new) < cap")
    case True
    then show ?thesis
      using pop(1) get assms(4,6) len pending_push[OF assms(5) _ assms(2), of p]
      by (auto simp: handle_setter_def arr_set_def count_error_def Let_def)
  next
    case False
    then show ?thesis
      using pop(1) get assms(4-6) len by (auto simp: handle_setter_def count_error_def Let_def)
  qed
qed

lemma failed_point_stays_queued_witness:
  "\<exists>q'. handle_setter 2 (\<lambda>p s. Some (False, s)) id
      (\<lparr> pq_points = [10, 20 :: nat], pq_end = 2 \<rparr>, empty_sd) =
    Some (q', empty_sd \<lparr> sd_rw_error_count := 1 \<rparr>) \<and> pending q' = [10, 20]"
proof -
  let ?q = "\<lparr> pq_points = [10, 20 :: nat], pq_end = 2 \<rparr>"
  have "queue_ok 2 ?q" "pending ?q = [10] @ [20]" "queue_ok 2 (id (?q \<lparr> pq_end := pq_end ?q - 1 \<rparr>))"
    "pending (id (?q \<lparr> pq_end := pq_end ?q - 1 \<rparr>)) = [10] @ []"
    by (simp_all add: queue_ok_def pending_def)
  then show ?thesis
    using failed_point_stays_queued[where cap = 2 and q = ?q and ps = "[10]" and p = 20 and new = "[]" and
        store = "\<lambda>p s. Some (False, s)" and s = empty_sd and ret = False and ?s1.0 = empty_sd and meanwhile = id]
    by (auto simp: empty_sd_def)
qed

section \<open>Pieces\<close>

definition taken_in_time :: "piece_env \<Rightarrow> bool" where
  "taken_in_time env \<longleftrightarrow> wait_taken (fst env) (snd env) 0 = Some (True, False, 0)"

abbreviation piece_data :: "u16 \<times> u16 \<times> u8 list \<Rightarrow> u8 list" where
  "piece_data c \<equiv> snd (snd c)"

lemma get_pieces_end:
  "\<not> unat offset < unat (r_amount (g_request g)) * k_size kind \<Longrightarrow>
   get_pieces kind envs offset (g, s) = Some (True, [], g, s)"
  by (subst get_pieces.simps) simp

lemma get_pieces_next:
  "unat offset < unat (r_amount (g_request g)) * k_size kind \<Longrightarrow>
   get_piece kind env offset (g, s) = Some (True, posted, st1) \<Longrightarrow>
   get_pieces kind envs (offset + of_nat (k_per_cb kind * k_size kind)) st1 = Some (True, later, st2) \<Longrightarrow>
   get_pieces kind (env # envs) offset (g, s) = Some (True, posted @ later, st2)"
  by (subst get_pieces.simps) simp

text \<open>What is left after the first j points, read with the callbacks: the last one has the old bytes
  of the buffer behind its points.\<close>

definition carries :: "('fs, 'f) points_kind \<Rightarrow> u16 \<Rightarrow> u8 list \<Rightarrow> nat \<Rightarrow> (u16 \<times> u16 \<times> u8 list) list \<Rightarrow> bool" where
  "carries kind amount d j posted \<longleftrightarrow>
     take (length d - j * k_size kind) (concat (map piece_data posted)) = drop (j * k_size kind) d \<and>
     map fst posted = map (\<lambda>i. k_cb_offset kind (of_nat ((j + i * k_per_cb kind) * k_size kind))) [0..<length posted] \<and>
     list_all (\<lambda>c. fst (snd c) = k_cb_length kind amount) posted"

lemma carries_next:
  fixes kind :: "('fs, 'f) points_kind" and d :: "u8 list"
  assumes n_def: "n = min (k_per_cb kind) (unat amount - j)" and d: "length d = unat amount * k_size kind" "j < unat amount"
    and later: "carries kind amount d (j + k_per_cb kind) later" and old: "length old = k_per_cb kind * k_size kind"
    and bytes: "bytes = take (n * k_size kind) (drop (j * k_size kind) d)"
  shows "carries kind amount d j
    ((k_cb_offset kind (of_nat (j * k_size kind)), k_cb_length kind amount, bytes @ drop (length bytes) old) # later)"
proof -
  let ?sz = "k_size kind" and ?p = "k_per_cb kind"
  have len: "length d - j * ?sz = (unat amount - j) * ?sz" using d by (simp add: diff_mult_distrib)
  have "take (length d - j * ?sz) ((bytes @ drop (length bytes) old) @ concat (map piece_data later)) = drop (j * ?sz) d"
  proof (cases "?p \<le> unat amount - j")
    case True
    then have n: "n = ?p" by (simp add: n_def)
    have "?p * ?sz \<le> (unat amount - j) * ?sz" using True by (rule mult_le_mono1)
    then have lb: "length bytes = ?p * ?sz" using bytes n len by simp
    have rest: "length d - j * ?sz - ?p * ?sz = length d - (j + ?p) * ?sz" by (simp add: distrib_right)
    have "take (length d - j * ?sz) (bytes @ concat (map piece_data later)) =
        bytes @ take (length d - (j + ?p) * ?sz) (concat (map piece_data later))"
      using lb len \<open>?p * ?sz \<le> (unat amount - j) * ?sz\<close> rest by (simp add: take_append)
    also have "\<dots> = take (?p * ?sz) (drop (j * ?sz) d) @ drop (?p * ?sz) (drop (j * ?sz) d)"
      using later bytes n by (simp add: carries_def distrib_right add.commute)
    also have "\<dots> = drop (j * ?sz) d" by (rule append_take_drop_id)
    finally show ?thesis using lb old by simp
  next
    case False
    then have n: "n = unat amount - j" by (simp add: n_def)
    then have b: "bytes = drop (j * ?sz) d" using bytes len by simp
    then have "length bytes = length d - j * ?sz" by simp
    then show ?thesis using b by simp
  qed
  moreover have "k_cb_offset kind (of_nat (j * ?sz)) # map fst later =
      map (\<lambda>i. k_cb_offset kind (of_nat ((j + i * ?p) * ?sz))) [0..<Suc (length later)]"
    using later unfolding map_upt_Suc carries_def by (simp add: add.assoc del: of_nat_add of_nat_mult)
  ultimately show ?thesis
    using later unfolding carries_def by (simp del: upt_Suc of_nat_add of_nat_mult)
qed

lemma get_pieces_stream:
  fixes kind :: "('fs, 'f) points_kind"
  assumes load: "\<And>n j s. ok s \<Longrightarrow> j + n \<le> unat (r_amount r) \<Longrightarrow> \<exists>s'. k_load kind r (of_nat n) (of_nat j) s =
      Some (True, take (n * k_size kind) (drop (j * k_size kind) d), s') \<and> ok s'"
    and err: "\<And>s e. ok s \<Longrightarrow> ok (s \<lparr> sd_rw_error_count := e \<rparr>)"
    and size: "0 < k_size kind" "length d = unat (r_amount r) * k_size kind"
      "(unat (r_amount r) + k_per_cb kind) * k_size kind < 65536"
    and "g_request g = r" "length (g_cb_data g) = k_per_cb kind * k_size kind" "ok s"
    and "j < unat (r_amount r) + k_per_cb kind"
    and "list_all taken_in_time envs" "unat (r_amount r) \<le> j + length envs * k_per_cb kind"
  shows "\<exists>posted g' s'. get_pieces kind envs (of_nat (j * k_size kind)) (g, s) = Some (True, posted, g', s') \<and>
    ok s' \<and> g_request g' = r \<and> carries kind (r_amount r) d j posted"
  using assms(6-)
proof (induction envs arbitrary: j g s)
  case Nil
  have "j * k_size kind < 65536"
    using mult_le_mono1[of j "unat (r_amount r) + k_per_cb kind" "k_size kind"] Nil.prems(4) size(3) by linarith
  then have off: "unat (of_nat (j * k_size kind) :: u16) = j * k_size kind" by (simp add: unat_of_nat take_bit_nat_eq_self del: of_nat_mult)
  show ?case
    using Nil.prems get_pieces_end[of "of_nat (j * k_size kind)" g kind "[]" s] size(2)
    unfolding off by (auto simp: carries_def)
next
  case (Cons env envs)
  let ?sz = "k_size kind" and ?p = "k_per_cb kind" and ?a = "unat (r_amount r)"
  have "j * ?sz < 65536"
    using mult_le_mono1[of j "?a + ?p" ?sz] Cons.prems(4) size(3) by linarith
  then have off: "unat (of_nat (j * ?sz) :: u16) = j * ?sz" by (simp add: unat_of_nat take_bit_nat_eq_self del: of_nat_mult)
  show ?case
  proof (cases "j < ?a")
    case False
    then show ?thesis
      using Cons.prems get_pieces_end[of "of_nat (j * ?sz)" g kind "env # envs" s] size(2)
      unfolding off by (auto simp: carries_def)
  next
    case True
    define n where "n = min ?p (?a - j)"
    define bytes where "bytes = take (n * ?sz) (drop (j * ?sz) d)"
    have jn: "j + n \<le> ?a" using True by (auto simp: n_def min_def)
    obtain s1 where s1: "k_load kind r (of_nat n) (of_nat j) s = Some (True, bytes, s1)" "ok s1"
      using load[OF Cons.prems(3) jn] unfolding bytes_def by blast
    define g1 where "g1 = g \<lparr> g_cb_data := bytes @ drop (length bytes) (g_cb_data g),
      g_cb_offset := k_cb_offset kind (of_nat (j * ?sz)), g_cb_length := k_cb_length kind (r_amount r), g_cb_new := False \<rparr>"
    have "wait_taken (fst env) (snd env) 0 = Some (True, False, 0)" using Cons.prems(5) by (simp add: taken_in_time_def)
    then have piece: "get_piece kind env (of_nat (j * ?sz)) (g, s) = Some (True,
        [(k_cb_offset kind (of_nat (j * ?sz)), k_cb_length kind (r_amount r), bytes @ drop (length bytes) (g_cb_data g))],
        g1, s1 \<lparr> sd_rw_error_count := 0 \<rparr>)"
      using s1(1) Cons.prems(1) off size(1)
      by (cases env) (simp add: get_piece_def g1_def n_def del: of_nat_mult)
    have "length bytes \<le> n * ?sz" by (simp add: bytes_def)
    also have "\<dots> \<le> ?p * ?sz" unfolding n_def by (intro mult_le_mono1) simp
    finally have g1: "g_request g1 = r" "length (g_cb_data g1) = ?p * ?sz"
      using Cons.prems(1,2) by (simp_all add: g1_def)
    have step: "of_nat (j * ?sz) + of_nat (?p * ?sz) = (of_nat ((j + ?p) * ?sz) :: u16)" by (simp add: distrib_right)
    have "\<exists>posted g' s'. get_pieces kind envs (of_nat ((j + ?p) * ?sz)) (g1, s1 \<lparr> sd_rw_error_count := 0 \<rparr>) =
        Some (True, posted, g', s') \<and> ok s' \<and> g_request g' = r \<and> carries kind (r_amount r) d (j + ?p) posted"
    proof (rule Cons.IH[OF g1 err[OF s1(2)]])
      show "j + ?p < ?a + ?p" using True by simp
      show "list_all taken_in_time envs" using Cons.prems(5) by simp
      show "?a \<le> j + ?p + length envs * ?p" using Cons.prems(6) by simp
    qed
    then obtain later g' s' where later: "get_pieces kind envs (of_nat ((j + ?p) * ?sz)) (g1, s1 \<lparr> sd_rw_error_count := 0 \<rparr>) =
        Some (True, later, g', s')" "ok s'" "g_request g' = r" "carries kind (r_amount r) d (j + ?p) later"
      by blast
    have "unat (of_nat (j * ?sz) :: u16) < unat (r_amount (g_request g)) * ?sz"
      unfolding off using True Cons.prems(1) size(1) by simp
    from get_pieces_next[OF this piece later(1)[folded step]]
    show ?thesis
      using later(2,3) carries_next[OF n_def size(2) True later(4) Cons.prems(2) bytes_def] by auto
  qed
qed

section \<open>Reading a file in pieces\<close>

text \<open>The next read of a file finds its contents: the file is open for reading, or it is opened.\<close>

definition reading :: "('fs \<Rightarrow> string \<rightharpoonup> u8 list) \<Rightarrow> ('f \<Rightarrow> handle option) \<Rightarrow> file_key \<Rightarrow> string \<Rightarrow> u8 list \<Rightarrow>
    ('fs, 'f) sd \<Rightarrow> bool" where
  "reading files view k p c s \<longleftrightarrow> files (sd_fs s) p = Some c \<and> \<not> sd_get_file_no_exist k s \<and>
     (if buffered_read_is_open s then buffered_read_current s = k \<and> buffered_read_current_err s = LFS_ERR_OK \<and>
        map_option h_contents (view (buffered_read_file s)) = Some c
      else \<not> (no_file (buffered_read_current_err s) \<and> buffered_read_current s = k))"

lemma reading_errors: "reading files view k p c s \<Longrightarrow> reading files view k p c (s \<lparr> sd_rw_error_count := e \<rparr>)"
  by (simp add: reading_def sd_get_file_no_exist_def)

context card
begin

lemma seek_and_read_view:
  assumes "map_option h_contents (view (buffered_read_file s)) = Some c" "unat pos + n \<le> length c"
    and "load \<in> {seek_and_read ops pos n, seek_and_read_daily ops pos n}"
  shows "\<exists>h fs. load s = (True, take n (drop (unat pos) c), s \<lparr> buffered_read_file := h, sd_fs := fs \<rparr>) \<and>
    map_option h_contents (view h) = Some c \<and> files fs = files (sd_fs s)"
proof -
  obtain v where v: "view (buffered_read_file s) = Some v" "h_contents v = c" using assms(1) by auto
  have "unat pos \<le> length (h_contents v)" using assms(2) v(2) by simp
  then obtain h1 fs1 where s: "lfs_file_seek ops (buffered_read_file s) (unat pos) (sd_fs s) = (int (unat pos), h1, fs1)"
    "view h1 = Some (v \<lparr> h_pos := unat pos \<rparr>)" "files fs1 = files (sd_fs s)"
    using seek_in[OF v(1)] by blast
  obtain h2 fs2 where r: "lfs_file_read ops h1 n fs1 = ((int n, take n (drop (unat pos) c)), h2, fs2)"
    "view h2 = Some (v \<lparr> h_pos := unat pos + n \<rparr>)" "files fs2 = files fs1"
    using read_at[OF s(2), of n fs1] assms(2) v(2) by auto
  from assms(3) show ?thesis
    using s r v(2)
    by (intro exI[of _ h2] exI[of _ fs2]) (auto simp: seek_and_read_def seek_and_read_daily_def read_and_check_def)
qed

lemma read_points_reading:
  assumes "key_path k = Some p" "reading files view k p c s" "unat pos + n \<le> length c"
    and "load \<in> {seek_and_read ops pos n, seek_and_read_daily ops pos n}"
  shows "\<exists>s'. read_points ops absent load k s = Some (True, take n (drop (unat pos) c), s') \<and>
    reading files view k p c s'"
proof -
  have "\<exists>h s1. sd_lfs_open_buffered_read ops k s = Some (LFS_ERR_OK, h, s1) \<and> reading files view k p c s1 \<and>
      buffered_read_is_open s1"
  proof (cases "buffered_read_is_open s")
    case True
    with assms(2) show ?thesis by (auto simp: reading_def sd_lfs_open_buffered_read_def)
  next
    case False
    have "files (sd_fs s) p = Some c" using assms(2) by (simp add: reading_def)
    then obtain h fs1 where "lfs_file_opencfg ops p LFS_O_RDONLY (sd_fs s) = (LFS_ERR_OK, h, fs1)"
      "view h = Some (opened p c)" "files fs1 = files (sd_fs s)"
      using open_found by blast
    with False assms(1,2) show ?thesis
      by (auto simp: reading_def sd_lfs_open_buffered_read_def no_file_def opened_def sd_get_file_no_exist_def)
  qed
  then obtain h s1 where o: "sd_lfs_open_buffered_read ops k s = Some (LFS_ERR_OK, h, s1)"
    "reading files view k p c s1" "buffered_read_is_open s1" by blast
  then have "map_option h_contents (view (buffered_read_file s1)) = Some c" by (simp add: reading_def)
  then obtain h2 fs2 where r: "load s1 = (True, take n (drop (unat pos) c), s1 \<lparr> buffered_read_file := h2, sd_fs := fs2 \<rparr>)"
    "map_option h_contents (view h2) = Some c" "files fs2 = files (sd_fs s1)"
    using seek_and_read_view[OF _ assms(3,4)] by blast
  have "reading files view k p c (s1 \<lparr> buffered_read_file := h2, sd_fs := fs2 \<rparr>)"
    using o(2,3) r(2,3) by (simp add: reading_def sd_get_file_no_exist_def)
  then show ?thesis using o(1) r(1) by (simp add: read_points_def no_file_def)
qed

end



end
