(* ===== verification/Data_Storage.thy ===== *)
theory Data_Storage
  imports Sd_Card_Props System_Timer
begin

text \<open>
  The persistent data storage (\<^verbatim>\<open>warp/wem/data_storage.c\<close>): pages in memory that are
  read from the SD card once and written back ten minutes after a change, and the functions of
  \<^verbatim>\<open>warp/wem/sd.c\<close> that do it. Every read of the clock is a value of its own, so the tick
  takes them as a function of the page.
\<close>

section \<open>State\<close>

definition DATA_STORAGE_PAGES :: nat where "DATA_STORAGE_PAGES = 5"
definition DATA_STORAGE_SIZE :: nat where "DATA_STORAGE_SIZE = 64"

record data_storage =
  storage :: "u8 list list"
  last_change_time :: "u32 list"
  write_to_sd :: "bool list"
  read_from_sd :: "bool list"
  file_not_found :: "bool list"
  has_been_written_once :: "bool list"

definition data_storage_ok :: "data_storage \<Rightarrow> bool" where
  "data_storage_ok d \<longleftrightarrow> length (storage d) = DATA_STORAGE_PAGES \<and>
     (\<forall>p \<in> set (storage d). length p = DATA_STORAGE_SIZE) \<and>
     length (last_change_time d) = DATA_STORAGE_PAGES \<and> length (write_to_sd d) = DATA_STORAGE_PAGES \<and>
     length (read_from_sd d) = DATA_STORAGE_PAGES \<and> length (file_not_found d) = DATA_STORAGE_PAGES \<and>
     length (has_been_written_once d) = DATA_STORAGE_PAGES"

section \<open>Operations\<close>

text \<open>A loop over the pages; the body may access an array out of range.\<close>

fun for_pages :: "(nat \<Rightarrow> 's \<Rightarrow> 's option) \<Rightarrow> nat list \<Rightarrow> 's \<Rightarrow> 's option" where
  "for_pages body [] s = Some s"
| "for_pages body (i # is) s = do { s1 \<leftarrow> body i s; for_pages body is s1 }"

definition data_storage_init :: "data_storage option" where
  "data_storage_init = for_pages (\<lambda>i d. do {
       r \<leftarrow> arr_set (read_from_sd d) i True;
       Some (d \<lparr> read_from_sd := r \<rparr>)
     }) [0..<DATA_STORAGE_PAGES]
     \<lparr> storage = replicate DATA_STORAGE_PAGES (replicate DATA_STORAGE_SIZE 0),
       last_change_time = replicate DATA_STORAGE_PAGES 0,
       write_to_sd = replicate DATA_STORAGE_PAGES False, read_from_sd = replicate DATA_STORAGE_PAGES False,
       file_not_found = replicate DATA_STORAGE_PAGES False,
       has_been_written_once = replicate DATA_STORAGE_PAGES False \<rparr>"

definition data_storage_page_tick :: "(nat \<Rightarrow> u32) \<Rightarrow> nat \<Rightarrow> data_storage \<Rightarrow> data_storage option" where
  "data_storage_page_tick now i d = do {
     t \<leftarrow> arr_get (last_change_time d) i;
     if t = 0 then Some d
     else if system_timer_is_time_elapsed_ms (now i) t (1000 * 60 * 10) then do {
       l \<leftarrow> arr_set (last_change_time d) i 0;
       w \<leftarrow> arr_set (write_to_sd d) i True;
       Some (d \<lparr> last_change_time := l, write_to_sd := w \<rparr>)
     }
     else Some d
   }"

definition data_storage_tick :: "(nat \<Rightarrow> u32) \<Rightarrow> data_storage \<Rightarrow> data_storage option" where
  "data_storage_tick now = for_pages (data_storage_page_tick now) [0..<DATA_STORAGE_PAGES]"

definition storage_path :: "u8 \<Rightarrow> string" where
  "storage_path page = ''storage/'' @ [char_of (unat (0x30 + page))] @ ''.sp''"

definition sd_write_storage ::
  "('fs, 'f) lfs_ops \<Rightarrow> u8 \<Rightarrow> 'fs \<times> data_storage \<Rightarrow> (bool \<times> 'fs \<times> data_storage) option" where
  "sd_write_storage ops page = (\<lambda>(fs, d). do {
     bytes \<leftarrow> arr_get (storage d) (unat page);
     let (err, file, fs1) = lfs_file_opencfg ops (storage_path page) LFS_O_RDWR fs;
     let (err, file, fs2) = (if no_file err
       then let (_, _, fs2) = lfs_file_close ops file fs1;
                (_, fs3) = lfs_mkdir ops ''storage'' fs2
            in lfs_file_opencfg ops (storage_path page) LFS_O_CREAT_RDWR fs3
       else (LFS_ERR_OK, file, fs1));
     if err \<noteq> LFS_ERR_OK then Some (False, fs2, d)
     else do {
       let (ret, fs3) = write_and_close ops bytes file fs2;
       if \<not> ret then Some (False, fs3, d)
       else do {
         h \<leftarrow> arr_set (has_been_written_once d) (unat page) True;
         Some (True, fs3, d \<lparr> has_been_written_once := h \<rparr>)
       }
     }
   })"

definition sd_read_storage ::
  "('fs, 'f) lfs_ops \<Rightarrow> u8 \<Rightarrow> 'fs \<times> data_storage \<Rightarrow> (bool \<times> 'fs \<times> data_storage) option" where
  "sd_read_storage ops page = (\<lambda>(fs, d). do {
     let (err, file, fs1) = lfs_file_opencfg ops (storage_path page) LFS_O_RDONLY fs;
     if no_file err then do {
       n \<leftarrow> arr_set (file_not_found d) (unat page) True;
       Some (True, fs1, d \<lparr> file_not_found := n \<rparr>)
     }
     else do {
       let ((size_read, bytes), file1, fs2) = lfs_file_read ops file DATA_STORAGE_SIZE fs1;
       old \<leftarrow> arr_get (storage d) (unat page);
       st \<leftarrow> arr_set (storage d) (unat page) (splice 0 bytes old);
       let d1 = d \<lparr> storage := st \<rparr>;
       let (err, _, fs3) = lfs_file_close ops file1 fs2;
       if size_read \<noteq> int DATA_STORAGE_SIZE \<or> err \<noteq> LFS_ERR_OK then Some (False, fs3, d1)
       else do {
         n \<leftarrow> arr_set (file_not_found d1) (unat page) False;
         Some (True, fs3, d1 \<lparr> file_not_found := n \<rparr>)
       }
     }
   })"

definition handle_storage_page ::
  "('fs, 'f) lfs_ops \<Rightarrow> nat \<Rightarrow> 'fs \<times> data_storage \<Rightarrow> ('fs \<times> data_storage) option" where
  "handle_storage_page ops i s = do {
     r \<leftarrow> arr_get (read_from_sd (snd s)) i;
     s1 \<leftarrow> (if r then do {
         (_, fs, d) \<leftarrow> sd_read_storage ops (of_nat i) s;
         rs \<leftarrow> arr_set (read_from_sd d) i False;
         ws \<leftarrow> arr_set (write_to_sd d) i False;
         Some (fs, d \<lparr> read_from_sd := rs, write_to_sd := ws \<rparr>)
       }
       else Some s);
     w \<leftarrow> arr_get (write_to_sd (snd s1)) i;
     if w then do {
       (_, fs, d) \<leftarrow> sd_write_storage ops (of_nat i) s1;
       ws \<leftarrow> arr_set (write_to_sd d) i False;
       Some (fs, d \<lparr> write_to_sd := ws \<rparr>)
     }
     else Some s1
   }"

definition sd_tick_task_handle_storage ::
  "('fs, 'f) lfs_ops \<Rightarrow> 'fs \<times> data_storage \<Rightarrow> ('fs \<times> data_storage) option" where
  "sd_tick_task_handle_storage ops = for_pages (handle_storage_page ops) [0..<DATA_STORAGE_PAGES]"

section \<open>Pages one by one\<close>

lemma for_pages_rule:
  assumes "\<And>i s B. i \<in> set is \<Longrightarrow> i \<notin> B \<Longrightarrow> I B s \<Longrightarrow> \<exists>s'. body i s = Some s' \<and> I (insert i B) s'"
    and "distinct is" "set is \<inter> A = {}" "I A s"
  shows "\<exists>s'. for_pages body is s = Some s' \<and> I (A \<union> set is) s'"
  using assms
proof (induction "is" arbitrary: A s)
  case (Cons i "is")
  have "i \<in> set (i # is)" "i \<notin> A" using Cons.prems(3) by auto
  from Cons.prems(1)[OF this Cons.prems(4)] obtain s1 where s1: "body i s = Some s1" "I (insert i A) s1"
    by blast
  have "\<exists>s'. for_pages body is s1 = Some s' \<and> I (insert i A \<union> set is) s'"
  proof (rule Cons.IH)
    show "\<exists>s'. body j s = Some s' \<and> I (insert j B) s'" if "j \<in> set is" "j \<notin> B" "I B s" for j s B
      using Cons.prems(1)[of j B s] that by simp
    show "set is \<inter> insert i A = {}" "distinct is" using Cons.prems(2,3) by auto
  qed (rule s1(2))
  then show ?case using s1(1) by simp
qed simp

lemma pages_rule:
  assumes "\<And>i s B. i < DATA_STORAGE_PAGES \<Longrightarrow> i \<notin> B \<Longrightarrow> I B s \<Longrightarrow> \<exists>s'. body i s = Some s' \<and> I (insert i B) s'"
    and "I {} s"
  shows "\<exists>s'. for_pages body [0..<DATA_STORAGE_PAGES] s = Some s' \<and> I {..<DATA_STORAGE_PAGES} s'"
  using for_pages_rule[of "[0..<DATA_STORAGE_PAGES]" I body "{}" s] assms
  by (simp add: atLeast0LessThan)

lemma unat_page: "i < DATA_STORAGE_PAGES \<Longrightarrow> unat (of_nat i :: u8) = i"
  by (simp add: DATA_STORAGE_PAGES_def unat_of_nat take_bit_nat_eq_self)

lemma storage_path_inj:
  assumes "i < DATA_STORAGE_PAGES" "j < DATA_STORAGE_PAGES" "storage_path (of_nat i) = storage_path (of_nat j)"
  shows "i = j"
proof -
  have "i \<in> {0, 1, 2, 3, 4}" "j \<in> {0, 1, 2, 3, 4}"
    using assms(1,2) by (auto simp: DATA_STORAGE_PAGES_def)
  with assms(3) show ?thesis by (auto simp: storage_path_def)
qed

lemma storage_path_parent: "i < DATA_STORAGE_PAGES \<Longrightarrow> parent (storage_path (of_nat i)) = ''storage''"
proof -
  assume "i < DATA_STORAGE_PAGES"
  then have "i \<in> {0, 1, 2, 3, 4}" by (auto simp: DATA_STORAGE_PAGES_def)
  then show ?thesis by (auto simp: storage_path_def parent_def char_of_eq_iff)
qed

section \<open>On a card without faults\<close>

definition page_files_ok :: "(string \<rightharpoonup> u8 list) \<Rightarrow> bool" where
  "page_files_ok fs \<longleftrightarrow> (\<forall>i < DATA_STORAGE_PAGES. \<forall>c. fs (storage_path (of_nat i)) = Some c \<longrightarrow> length c = DATA_STORAGE_SIZE)"

lemma data_storage_ok_lengths:
  assumes "data_storage_ok d" "i < DATA_STORAGE_PAGES"
  shows "i < length (storage d)" "length (storage d ! i) = DATA_STORAGE_SIZE" "i < length (last_change_time d)"
    "i < length (write_to_sd d)" "i < length (read_from_sd d)" "i < length (file_not_found d)"
    "i < length (has_been_written_once d)"
  using assms by (auto simp: data_storage_ok_def)

context card
begin

lemma write_storage_ok:
  assumes "i < DATA_STORAGE_PAGES" "data_storage_ok d" "page_files_ok (files fs)"
  shows "\<exists>fs'. sd_write_storage ops (of_nat i) (fs, d) =
      Some (True, fs', d \<lparr> has_been_written_once := (has_been_written_once d)[i := True] \<rparr>) \<and>
    files fs' = (files fs)(storage_path (of_nat i) \<mapsto> storage d ! i)"
proof -
  let ?p = "storage_path (of_nat i)" and ?b = "storage d ! i"
  note in_range = data_storage_ok_lengths[OF assms(2,1)]
  have full: "splice 0 ?b c = ?b" if "length c = DATA_STORAGE_SIZE \<or> c = []" for c
    using that in_range(2) by (auto simp: splice_def)
  have "\<exists>h fs1 c. (let (err, file, fs1) = lfs_file_opencfg ops ?p LFS_O_RDWR fs in
      if no_file err then let (_, _, fs2) = lfs_file_close ops file fs1; (_, fs3) = lfs_mkdir ops ''storage'' fs2
        in lfs_file_opencfg ops ?p LFS_O_CREAT_RDWR fs3
      else (LFS_ERR_OK, file, fs1)) = (LFS_ERR_OK, h, fs1) \<and> view h = Some (opened ?p c) \<and>
      (length c = DATA_STORAGE_SIZE \<or> c = []) \<and> (files fs1)(?p \<mapsto> ?b) = (files fs)(?p \<mapsto> ?b)"
  proof (cases "files fs ?p")
    case (Some c)
    then obtain h fs1 where "lfs_file_opencfg ops ?p LFS_O_RDWR fs = (LFS_ERR_OK, h, fs1)"
      "view h = Some (opened ?p c)" "files fs1 = files fs"
      using open_found by blast
    moreover have "length c = DATA_STORAGE_SIZE" using assms(1,3) Some by (auto simp: page_files_ok_def)
    ultimately show ?thesis by (intro exI[of _ h] exI[of _ fs1] exI[of _ c]) (simp add: no_file_def)
  next
    case None
    then obtain h fs1 where o: "lfs_file_opencfg ops ?p LFS_O_RDWR fs = (LFS_ERR_NOENT, h, fs1)"
      "view h = None" "files fs1 = files fs"
      using open_missing[of fs ?p LFS_O_RDWR] by auto
    obtain h2 fs2 where c: "lfs_file_close ops h fs1 = (LFS_ERR_OK, h2, fs2)" "files fs2 = files fs"
      using close_any[of h fs1] o by (auto simp: closed_files_def)
    obtain e fs3 where m: "lfs_mkdir ops ''storage'' fs2 = (e, fs3)" by fastforce
    have "has_parent (dirs fs2) ''storage''" by (simp add: has_parent_def parent_def)
    from mkdir_in[OF this] m c(2) have d: "files fs3 = files fs" "''storage'' \<in> dirs fs3" by auto
    obtain h4 fs4 where "lfs_file_opencfg ops ?p LFS_O_CREAT_RDWR fs3 = (LFS_ERR_OK, h4, fs4)"
      "view h4 = Some (opened ?p [])" "files fs4 = (files fs3)(?p \<mapsto> [])"
      using open_create[of fs3 ?p] d None storage_path_parent[OF assms(1)] by (auto simp: has_parent_def)
    with o c m d show ?thesis by (intro exI[of _ h4] exI[of _ fs4] exI[of _ "[]"]) (simp add: no_file_def)
  qed
  then obtain h fs1 c where o: "(let (err, file, fs1) = lfs_file_opencfg ops ?p LFS_O_RDWR fs in
      if no_file err then let (_, _, fs2) = lfs_file_close ops file fs1; (_, fs3) = lfs_mkdir ops ''storage'' fs2
        in lfs_file_opencfg ops ?p LFS_O_CREAT_RDWR fs3
      else (LFS_ERR_OK, file, fs1)) = (LFS_ERR_OK, h, fs1)" "view h = Some (opened ?p c)"
    "length c = DATA_STORAGE_SIZE \<or> c = []" "(files fs1)(?p \<mapsto> ?b) = (files fs)(?p \<mapsto> ?b)"
    by blast
  obtain fs2 where w: "write_and_close ops ?b h fs1 = (True, fs2)" "files fs2 = (files fs1)(?p \<mapsto> splice 0 ?b c)"
    using write_and_close_ok[OF o(2), of ?b fs1] by (auto simp: opened_def)
  have "files fs2 = (files fs)(?p \<mapsto> ?b)" using w(2) full[OF o(3)] o(4) by simp
  moreover obtain e f fs0 where first: "lfs_file_opencfg ops ?p LFS_O_RDWR fs = (e, f, fs0)"
    using prod_cases3 by blast
  have "sd_write_storage ops (of_nat i) (fs, d) =
      Some (True, fs2, d \<lparr> has_been_written_once := (has_been_written_once d)[i := True] \<rparr>)"
    using o(1)[unfolded first Let_def prod.case] w(1) in_range unfolding sd_write_storage_def prod.case first Let_def
    by (simp add: unat_page[OF assms(1)] arr_get_def arr_set_def)
  ultimately show ?thesis by blast
qed

lemma read_storage_ok:
  assumes "i < DATA_STORAGE_PAGES" "data_storage_ok d" "page_files_ok (files fs)"
  shows "\<exists>fs'. sd_read_storage ops (of_nat i) (fs, d) = Some (True, fs',
      (case files fs (storage_path (of_nat i)) of
         None \<Rightarrow> d \<lparr> file_not_found := (file_not_found d)[i := True] \<rparr>
       | Some c \<Rightarrow> d \<lparr> storage := (storage d)[i := c], file_not_found := (file_not_found d)[i := False] \<rparr>)) \<and>
    files fs' = files fs"
proof (cases "files fs (storage_path (of_nat i))")
  case None
  then obtain h fs1 where "lfs_file_opencfg ops (storage_path (of_nat i)) LFS_O_RDONLY fs = (LFS_ERR_NOENT, h, fs1)"
    "files fs1 = files fs"
    using open_missing[of fs "storage_path (of_nat i)" LFS_O_RDONLY] by auto
  then show ?thesis
    using None data_storage_ok_lengths[OF assms(2,1)]
    by (simp add: sd_read_storage_def no_file_def unat_page[OF assms(1)] arr_set_def)
next
  case (Some c)
  then obtain h fs1 where o: "lfs_file_opencfg ops (storage_path (of_nat i)) LFS_O_RDONLY fs = (LFS_ERR_OK, h, fs1)"
    "view h = Some (opened (storage_path (of_nat i)) c)" "files fs1 = files fs"
    using open_found by blast
  have len: "length c = DATA_STORAGE_SIZE" using assms(1,3) Some by (auto simp: page_files_ok_def)
  obtain h2 fs2 where r: "lfs_file_read ops h DATA_STORAGE_SIZE fs1 = ((int DATA_STORAGE_SIZE, c), h2, fs2)"
    "view h2 = Some (opened (storage_path (of_nat i)) c \<lparr> h_pos := DATA_STORAGE_SIZE \<rparr>)" "files fs2 = files fs"
    using read_at[OF o(2), of DATA_STORAGE_SIZE fs1] len o(3) by (auto simp: opened_def)
  obtain h3 fs3 where "lfs_file_close ops h2 fs2 = (LFS_ERR_OK, h3, fs3)" "files fs3 = files fs"
    using close_any[of h2 fs2] r by (auto simp: closed_files_def opened_def)
  with o r Some len show ?thesis
    using data_storage_ok_lengths[OF assms(2,1)]
    by (simp add: sd_read_storage_def no_file_def unat_page[OF assms(1)] arr_set_def arr_get_def splice_def)
qed

lemma handle_page_writes:
  assumes "i < DATA_STORAGE_PAGES" "data_storage_ok d" "page_files_ok (files fs)" "\<not> read_from_sd d ! i"
  shows "\<exists>fs' d'. handle_storage_page ops i (fs, d) = Some (fs', d') \<and> data_storage_ok d' \<and>
    page_files_ok (files fs') \<and> storage d' = storage d \<and> read_from_sd d' = read_from_sd d \<and>
    write_to_sd d' = (write_to_sd d)[i := False] \<and>
    files fs' = (if write_to_sd d ! i then (files fs)(storage_path (of_nat i) \<mapsto> storage d ! i) else files fs)"
proof (cases "write_to_sd d ! i")
  case True
  note in_range = data_storage_ok_lengths[OF assms(2,1)]
  obtain fs' where "sd_write_storage ops (of_nat i) (fs, d) =
      Some (True, fs', d \<lparr> has_been_written_once := (has_been_written_once d)[i := True] \<rparr>)"
    "files fs' = (files fs)(storage_path (of_nat i) \<mapsto> storage d ! i)"
    using write_storage_ok[OF assms(1-3)] by blast
  then show ?thesis
    using assms(2-4) True in_range
    by (simp add: handle_storage_page_def arr_get_def arr_set_def data_storage_ok_def page_files_ok_def)
next
  case False
  then have "(write_to_sd d)[i := False] = write_to_sd d"
    using list_update_id[of "write_to_sd d" i] by simp
  then show ?thesis
    using False assms(2-4) data_storage_ok_lengths[OF assms(2,1)]
    by (simp add: handle_storage_page_def arr_get_def)
qed

lemma handle_page_reads:
  assumes "i < DATA_STORAGE_PAGES" "data_storage_ok d" "page_files_ok (files fs)" "read_from_sd d ! i"
  shows "\<exists>fs' d'. handle_storage_page ops i (fs, d) = Some (fs', d') \<and> data_storage_ok d' \<and>
    files fs' = files fs \<and> read_from_sd d' = (read_from_sd d)[i := False] \<and>
    storage d' = (storage d)[i := case files fs (storage_path (of_nat i)) of Some c \<Rightarrow> c | None \<Rightarrow> storage d ! i] \<and>
    file_not_found d' = (file_not_found d)[i := files fs (storage_path (of_nat i)) = None]"
proof -
  note in_range = data_storage_ok_lengths[OF assms(2,1)]
  obtain fs' where r: "sd_read_storage ops (of_nat i) (fs, d) = Some (True, fs',
      (case files fs (storage_path (of_nat i)) of
         None \<Rightarrow> d \<lparr> file_not_found := (file_not_found d)[i := True] \<rparr>
       | Some c \<Rightarrow> d \<lparr> storage := (storage d)[i := c], file_not_found := (file_not_found d)[i := False] \<rparr>))"
    "files fs' = files fs"
    using read_storage_ok[OF assms(1-3)] by blast
  show ?thesis
  proof (cases "files fs (storage_path (of_nat i))")
    case None
    with r show ?thesis using assms(2,4) in_range
      by (simp add: handle_storage_page_def arr_get_def arr_set_def data_storage_ok_def)
  next
    case (Some c)
    then have "length c = DATA_STORAGE_SIZE" using assms(1,3) by (auto simp: page_files_ok_def)
    with Some r show ?thesis using assms(2,4) in_range
      by (auto simp: handle_storage_page_def arr_get_def arr_set_def data_storage_ok_def set_update_subset_insert
          dest!: subsetD[OF set_update_subset_insert])
  qed
qed

lemma handle_storage_writes:
  assumes "data_storage_ok d" "page_files_ok (files fs)" "\<And>i. i < DATA_STORAGE_PAGES \<Longrightarrow> \<not> read_from_sd d ! i"
  shows "\<exists>fs' d'. sd_tick_task_handle_storage ops (fs, d) = Some (fs', d') \<and> page_files_ok (files fs') \<and>
    (\<forall>i < DATA_STORAGE_PAGES. files fs' (storage_path (of_nat i)) =
      (if write_to_sd d ! i then Some (storage d ! i) else files fs (storage_path (of_nat i))))"
proof -
  define inv where "inv B s \<longleftrightarrow> (let (fs', d') = s in data_storage_ok d' \<and> page_files_ok (files fs') \<and>
      storage d' = storage d \<and> read_from_sd d' = read_from_sd d \<and>
      (\<forall>i < DATA_STORAGE_PAGES. (i \<notin> B \<longrightarrow> write_to_sd d' ! i = write_to_sd d ! i) \<and>
        files fs' (storage_path (of_nat i)) = (if i \<in> B \<and> write_to_sd d ! i then Some (storage d ! i)
          else files fs (storage_path (of_nat i)))))" for B s
  have "\<exists>s'. for_pages (handle_storage_page ops) [0..<DATA_STORAGE_PAGES] (fs, d) = Some s' \<and>
      inv {..<DATA_STORAGE_PAGES} s'"
  proof (rule pages_rule)
    show "inv {} (fs, d)" using assms by (simp add: inv_def)
    show "\<exists>s'. handle_storage_page ops i s = Some s' \<and> inv (insert i B) s'"
      if i: "i < DATA_STORAGE_PAGES" "i \<notin> B" and "inv B s" for i s B
    proof -
      obtain fs1 d1 where s: "s = (fs1, d1)" by fastforce
      note inv = \<open>inv B s\<close>[unfolded inv_def s Let_def prod.case]
      have "\<not> read_from_sd d1 ! i" using inv assms(3)[OF i(1)] by simp
      then obtain fs2 d2 where h: "handle_storage_page ops i (fs1, d1) = Some (fs2, d2)" "data_storage_ok d2"
        "page_files_ok (files fs2)" "storage d2 = storage d1" "read_from_sd d2 = read_from_sd d1"
        "write_to_sd d2 = (write_to_sd d1)[i := False]"
        "files fs2 = (if write_to_sd d1 ! i then (files fs1)(storage_path (of_nat i) \<mapsto> storage d1 ! i) else files fs1)"
        using handle_page_writes[OF i(1)] inv by blast
      have "storage_path (of_nat j) = storage_path (of_nat i) \<longleftrightarrow> j = i" if "j < DATA_STORAGE_PAGES" for j
        using storage_path_inj[OF that i(1)] by blast
      then have "inv (insert i B) (fs2, d2)"
        using h inv i by (auto simp: inv_def)
      then show ?thesis using h(1) s by blast
    qed
  qed
  then show ?thesis unfolding sd_tick_task_handle_storage_def inv_def by fastforce
qed

lemma handle_storage_reads:
  assumes "data_storage_ok d" "page_files_ok (files fs)" "\<And>i. i < DATA_STORAGE_PAGES \<Longrightarrow> read_from_sd d ! i"
  shows "\<exists>fs' d'. sd_tick_task_handle_storage ops (fs, d) = Some (fs', d') \<and>
    (\<forall>i < DATA_STORAGE_PAGES. storage d' ! i =
        (case files fs (storage_path (of_nat i)) of Some c \<Rightarrow> c | None \<Rightarrow> storage d ! i) \<and>
      file_not_found d' ! i = (files fs (storage_path (of_nat i)) = None))"
proof -
  define inv where "inv B s \<longleftrightarrow> (let (fs', d') = s in data_storage_ok d' \<and> files fs' = files fs \<and>
      (\<forall>i < DATA_STORAGE_PAGES. if i \<in> B
        then storage d' ! i = (case files fs (storage_path (of_nat i)) of Some c \<Rightarrow> c | None \<Rightarrow> storage d ! i) \<and>
          file_not_found d' ! i = (files fs (storage_path (of_nat i)) = None)
        else read_from_sd d' ! i \<and> storage d' ! i = storage d ! i))" for B s
  have "\<exists>s'. for_pages (handle_storage_page ops) [0..<DATA_STORAGE_PAGES] (fs, d) = Some s' \<and>
      inv {..<DATA_STORAGE_PAGES} s'"
  proof (rule pages_rule)
    show "inv {} (fs, d)" using assms by (simp add: inv_def)
    show "\<exists>s'. handle_storage_page ops i s = Some s' \<and> inv (insert i B) s'"
      if i: "i < DATA_STORAGE_PAGES" "i \<notin> B" and "inv B s" for i s B
    proof -
      obtain fs1 d1 where s: "s = (fs1, d1)" by fastforce
      note inv = \<open>inv B s\<close>[unfolded inv_def s Let_def prod.case]
      have "read_from_sd d1 ! i" "page_files_ok (files fs1)" using inv i assms(2) by auto
      then obtain fs2 d2 where h: "handle_storage_page ops i (fs1, d1) = Some (fs2, d2)" "data_storage_ok d2"
        "files fs2 = files fs1" "read_from_sd d2 = (read_from_sd d1)[i := False]"
        "storage d2 = (storage d1)[i := case files fs1 (storage_path (of_nat i)) of Some c \<Rightarrow> c | None \<Rightarrow> storage d1 ! i]"
        "file_not_found d2 = (file_not_found d1)[i := files fs1 (storage_path (of_nat i)) = None]"
        using handle_page_reads[OF i(1)] inv by blast
      moreover have "i < length (storage d1)" "i < length (file_not_found d1)"
        using inv data_storage_ok_lengths[of d1 i] i(1) by auto
      moreover have "storage d1 ! i = storage d ! i" using inv i by auto
      ultimately have "inv (insert i B) (fs2, d2)"
        using inv i unfolding inv_def Let_def prod.case by (auto simp: nth_list_update split: option.splits)
      then show ?thesis using h(1) s by blast
    qed
  qed
  then show ?thesis unfolding sd_tick_task_handle_storage_def inv_def by fastforce
qed

end

lemma data_storage_tick_ok:
  assumes "data_storage_ok d"
  shows "\<exists>d'. data_storage_tick now d = Some d' \<and> data_storage_ok d' \<and> storage d' = storage d \<and>
    read_from_sd d' = read_from_sd d \<and>
    (\<forall>i < DATA_STORAGE_PAGES. write_to_sd d' ! i = (write_to_sd d ! i \<or> last_change_time d ! i \<noteq> 0 \<and>
      system_timer_is_time_elapsed_ms (now i) (last_change_time d ! i) 600000))"
proof -
  define inv where "inv B d' \<longleftrightarrow> data_storage_ok d' \<and> storage d' = storage d \<and> read_from_sd d' = read_from_sd d \<and>
      (\<forall>i < DATA_STORAGE_PAGES. if i \<in> B
        then write_to_sd d' ! i = (write_to_sd d ! i \<or> last_change_time d ! i \<noteq> 0 \<and>
          system_timer_is_time_elapsed_ms (now i) (last_change_time d ! i) 600000)
        else write_to_sd d' ! i = write_to_sd d ! i \<and> last_change_time d' ! i = last_change_time d ! i)" for B d'
  have "\<exists>s'. for_pages (data_storage_page_tick now) [0..<DATA_STORAGE_PAGES] d = Some s' \<and>
      inv {..<DATA_STORAGE_PAGES} s'"
  proof (rule pages_rule)
    show "inv {} d" using assms by (simp add: inv_def)
    show "\<exists>s'. data_storage_page_tick now i s = Some s' \<and> inv (insert i B) s'"
      if i: "i < DATA_STORAGE_PAGES" "i \<notin> B" and inv: "inv B s" for i s B
    proof -
      have "data_storage_ok s" using inv by (simp add: inv_def)
      from data_storage_ok_lengths[OF this i(1)] this show ?thesis
        using inv i by (simp add: inv_def data_storage_page_tick_def arr_get_def arr_set_def data_storage_ok_def
            nth_list_update)
    qed
  qed
  then show ?thesis unfolding data_storage_tick_def inv_def by fastforce
qed

lemma data_storage_init_eq:
  "data_storage_init = Some \<lparr> storage = replicate DATA_STORAGE_PAGES (replicate DATA_STORAGE_SIZE 0),
     last_change_time = replicate DATA_STORAGE_PAGES 0, write_to_sd = replicate DATA_STORAGE_PAGES False,
     read_from_sd = replicate DATA_STORAGE_PAGES True, file_not_found = replicate DATA_STORAGE_PAGES False,
     has_been_written_once = replicate DATA_STORAGE_PAGES False \<rparr>"
  by (simp add: data_storage_init_def DATA_STORAGE_PAGES_def upt_conv_Cons arr_set_def eval_nat_numeral)



section \<open>On any card\<close>

lemma sd_write_storage_any:
  assumes "i < DATA_STORAGE_PAGES" "data_storage_ok d"
  shows "\<exists>ret fs' h. sd_write_storage ops (of_nat i) (fs, d) = Some (ret, fs', d \<lparr> has_been_written_once := h \<rparr>) \<and>
    length h = DATA_STORAGE_PAGES"
proof -
  let ?p = "storage_path (of_nat i)"
  note in_range = data_storage_ok_lengths[OF assms(2,1)]
  have len: "length (has_been_written_once d) = DATA_STORAGE_PAGES" using assms(2) by (simp add: data_storage_ok_def)
  obtain e f fs1 where 1: "lfs_file_opencfg ops ?p LFS_O_RDWR fs = (e, f, fs1)" using prod_cases3 by blast
  obtain e2 f2 fs2 where 2: "(if no_file e
      then let (_, _, fs2) = lfs_file_close ops f fs1; (_, fs3) = lfs_mkdir ops ''storage'' fs2
        in lfs_file_opencfg ops ?p LFS_O_CREAT_RDWR fs3
      else (LFS_ERR_OK, f, fs1)) = (e2, f2, fs2)" using prod_cases3 by blast
  obtain ret fs3 where 3: "write_and_close ops (storage d ! i) f2 fs2 = (ret, fs3)" by fastforce
  have "sd_write_storage ops (of_nat i) (fs, d) = (if e2 \<noteq> LFS_ERR_OK then Some (False, fs2, d)
      else if \<not> ret then Some (False, fs3, d)
      else Some (True, fs3, d \<lparr> has_been_written_once := (has_been_written_once d)[i := True] \<rparr>))"
    unfolding sd_write_storage_def prod.case 1 Let_def 2[unfolded Let_def]
    using in_range 3 by (simp add: unat_page[OF assms(1)] arr_get_def arr_set_def 2[unfolded Let_def])
  then show ?thesis using len
    by (intro exI[of _ "e2 = LFS_ERR_OK \<and> ret"] exI[of _ "if e2 = LFS_ERR_OK then fs3 else fs2"]
        exI[of _ "if e2 = LFS_ERR_OK \<and> ret then (has_been_written_once d)[i := True] else has_been_written_once d"])
      simp
qed

lemma splice_0_length: "length bytes \<le> length old \<Longrightarrow> length (splice 0 bytes old) = length old"
  by (simp add: splice_def)

lemma sd_read_storage_any:
  assumes "i < DATA_STORAGE_PAGES" "data_storage_ok d"
    and "\<And>h n fs. length (snd (fst (lfs_file_read ops h n fs))) \<le> n"
  shows "\<exists>ret fs' d'. sd_read_storage ops (of_nat i) (fs, d) = Some (ret, fs', d') \<and> data_storage_ok d' \<and>
    read_from_sd d' = read_from_sd d \<and> write_to_sd d' = write_to_sd d"
proof -
  let ?p = "storage_path (of_nat i)"
  note in_range = data_storage_ok_lengths[OF assms(2,1)]
  obtain e f fs1 where 1: "lfs_file_opencfg ops ?p LFS_O_RDONLY fs = (e, f, fs1)" using prod_cases3 by blast
  obtain sz bytes f2 fs2 where 2: "lfs_file_read ops f DATA_STORAGE_SIZE fs1 = ((sz, bytes), f2, fs2)"
    by (metis prod.collapse)
  obtain e2 f3 fs3 where 3: "lfs_file_close ops f2 fs2 = (e2, f3, fs3)" using prod_cases3 by blast
  have "length bytes \<le> DATA_STORAGE_SIZE" using assms(3)[of f DATA_STORAGE_SIZE fs1] 2 by simp
  then have "length (splice 0 bytes (storage d ! i)) = DATA_STORAGE_SIZE"
    using splice_0_length[of bytes "storage d ! i"] in_range(2) by simp
  then have "data_storage_ok (d \<lparr> storage := (storage d)[i := splice 0 bytes (storage d ! i)] \<rparr>)"
    using assms(2) by (auto simp: data_storage_ok_def dest!: subsetD[OF set_update_subset_insert])
  moreover have "sd_read_storage ops (of_nat i) (fs, d) =
     (if no_file e then Some (True, fs1, d \<lparr> file_not_found := (file_not_found d)[i := True] \<rparr>)
      else let d1 = d \<lparr> storage := (storage d)[i := splice 0 bytes (storage d ! i)] \<rparr>
        in if sz \<noteq> int DATA_STORAGE_SIZE \<or> e2 \<noteq> LFS_ERR_OK then Some (False, fs3, d1)
          else Some (True, fs3, d1 \<lparr> file_not_found := (file_not_found d1)[i := False] \<rparr>))"
    using in_range 1 2 3
    by (simp add: sd_read_storage_def unat_page[OF assms(1)] arr_get_def arr_set_def Let_def)
  ultimately show ?thesis
    using assms(2) by (simp add: data_storage_ok_def Let_def) blast
qed

lemma handle_storage_any:
  fixes ops :: "('fs, 'f) lfs_ops"
  assumes "data_storage_ok d" "\<And>h n fs. length (snd (fst (lfs_file_read ops h n fs))) \<le> n"
  shows "\<exists>fs' d'. sd_tick_task_handle_storage ops (fs, d) = Some (fs', d') \<and> data_storage_ok d' \<and>
    (\<forall>i < DATA_STORAGE_PAGES. \<not> read_from_sd d' ! i \<and> \<not> write_to_sd d' ! i)"
proof -
  define inv where "inv B s \<longleftrightarrow> data_storage_ok (snd s) \<and>
    (\<forall>i < DATA_STORAGE_PAGES. i \<in> B \<longrightarrow> \<not> read_from_sd (snd s) ! i \<and> \<not> write_to_sd (snd s) ! i)"
    for B and s :: "'fs \<times> data_storage"
  have "\<exists>s'. for_pages (handle_storage_page ops) [0..<DATA_STORAGE_PAGES] (fs, d) = Some s' \<and>
      inv {..<DATA_STORAGE_PAGES} s'"
  proof (rule pages_rule)
    show "inv {} (fs, d)" using assms by (simp add: inv_def)
    show "\<exists>s'. handle_storage_page ops i s = Some s' \<and> inv (insert i B) s'"
      if i: "i < DATA_STORAGE_PAGES" and inv: "inv B s" for i s B
    proof (cases "read_from_sd (snd s) ! i")
      case True
      obtain fs1 d1 where s: "s = (fs1, d1)" by fastforce
      have ok: "data_storage_ok d1" using inv s by (simp add: inv_def)
      obtain ret fs2 d2 where r: "sd_read_storage ops (of_nat i) (fs1, d1) = Some (ret, fs2, d2)" "data_storage_ok d2"
        "read_from_sd d2 = read_from_sd d1" "write_to_sd d2 = write_to_sd d1"
        using sd_read_storage_any[OF i ok assms(2), where fs = fs1] by blast
      show ?thesis
        using True r inv s i data_storage_ok_lengths[OF ok i]
        by (simp add: inv_def handle_storage_page_def arr_get_def arr_set_def data_storage_ok_def nth_list_update)
    next
      case False
      obtain fs1 d1 where s: "s = (fs1, d1)" by fastforce
      have ok: "data_storage_ok d1" using inv s by (simp add: inv_def)
      obtain ret fs2 h where w: "sd_write_storage ops (of_nat i) (fs1, d1) =
          Some (ret, fs2, d1 \<lparr> has_been_written_once := h \<rparr>)" "length h = DATA_STORAGE_PAGES"
        using sd_write_storage_any[OF i ok, where ops = ops and fs = fs1] by blast
      show ?thesis
        using False w inv s i data_storage_ok_lengths[OF ok i]
        by (cases "write_to_sd d1 ! i")
          (simp_all add: inv_def handle_storage_page_def arr_get_def arr_set_def data_storage_ok_def nth_list_update)
    qed
  qed
  then show ?thesis unfolding sd_tick_task_handle_storage_def inv_def by fastforce
qed

text \<open>Requests to read or write a page are never repeated: whatever the card answers (it may fail
  at any call), one storage step of the SD task serves every page and leaves no request to read or to
  write behind, so a page whose write failed is written again only after its next change, and a page
  whose read failed is never read.\<close>

theorem storage_requests_served_once:
  fixes ops :: "('fs, 'f) lfs_ops"
  assumes "data_storage_ok d" "\<And>h n fs. length (snd (fst (lfs_file_read ops h n fs))) \<le> n"
  shows "\<exists>fs' d'. sd_tick_task_handle_storage ops (fs, d) = Some (fs', d') \<and> data_storage_ok d' \<and>
    (\<forall>i < DATA_STORAGE_PAGES. \<not> read_from_sd d' ! i \<and> \<not> write_to_sd d' ! i)"
  by (rule handle_storage_any[OF assms])

text \<open>A card that fails at every call.\<close>

definition dead_ops :: "(ram_card, handle option) lfs_ops" where
  "dead_ops = ram_ops \<lparr> lfs_file_opencfg := \<lambda>p m fs. (LFS_ERR_IO, None, fs),
     lfs_file_write := \<lambda>h b fs. (LFS_ERR_IO, h, fs), lfs_file_read := \<lambda>h n fs. ((LFS_ERR_IO, []), h, fs) \<rparr>"

lemma storage_requests_served_once_witness:
  "\<exists>fs' d'. sd_tick_task_handle_storage dead_ops (\<lparr> ram_files = Map.empty, ram_dirs = {} \<rparr>,
      \<lparr> storage = replicate 5 (replicate 64 7), last_change_time = replicate 5 0,
        write_to_sd = [True, False, False, False, False], read_from_sd = replicate 5 False,
        file_not_found = replicate 5 False, has_been_written_once = replicate 5 False \<rparr>) = Some (fs', d') \<and>
    \<not> write_to_sd d' ! 0 \<and> \<not> read_from_sd d' ! 0"
proof -
  let ?d = "\<lparr> storage = replicate 5 (replicate 64 7), last_change_time = replicate 5 0,
    write_to_sd = [True, False, False, False, False], read_from_sd = replicate 5 False,
    file_not_found = replicate 5 False, has_been_written_once = replicate 5 False \<rparr>"
  have ok: "data_storage_ok ?d"
    by (simp add: data_storage_ok_def DATA_STORAGE_PAGES_def DATA_STORAGE_SIZE_def)
  have read: "length (snd (fst (lfs_file_read dead_ops h n fs))) \<le> n" for h n fs by (simp add: dead_ops_def)
  have "0 < DATA_STORAGE_PAGES" by (simp add: DATA_STORAGE_PAGES_def)
  with storage_requests_served_once[OF ok read] show ?thesis by blast
qed

end
