(* ===== verification/Sdmmc.thy ===== *)
theory Sdmmc
  imports System_Timer
begin

text \<open>
  The SD card protocol over SPI (\<^verbatim>\<open>warp/wem/sdmmc.c\<close>, \<^verbatim>\<open>warp/wem/sdmmc.h\<close>).
  The bus exchanges one byte at a time with the card; the state behind it is the card, its select line
  and the clock. It stands for the serial interface and its set-up (\<^verbatim>\<open>sdmmc_spi_init\<close>).
  A transfer of 16 bytes and more goes through the interrupts, which are modelled in
  \<^verbatim>\<open>Sdmmc_Transfer\<close>; here it is taken to end in time, when it exchanges the same bytes as one
  that waits; the code would start it again. A loop that waits for an answer of the card may not end.
\<close>

section \<open>The bus\<close>

record 'c bus =
  bus_xfer :: "u8 \<Rightarrow> 'c \<Rightarrow> u8 \<times> 'c"
  bus_select :: "bool \<Rightarrow> 'c \<Rightarrow> 'c"
  bus_ms :: "'c \<Rightarrow> u32"

fun sdmmc_spi_write :: "'c bus \<Rightarrow> u8 list \<Rightarrow> 'c \<Rightarrow> 'c" where
  "sdmmc_spi_write bus [] c = c"
| "sdmmc_spi_write bus (b # bs) c = sdmmc_spi_write bus bs (snd (bus_xfer bus b c))"

fun sdmmc_spi_read :: "'c bus \<Rightarrow> nat \<Rightarrow> 'c \<Rightarrow> u8 list \<times> 'c" where
  "sdmmc_spi_read bus 0 c = ([], c)"
| "sdmmc_spi_read bus (Suc n) c =
     (let (b, c1) = bus_xfer bus 0xFF c; (bs, c2) = sdmmc_spi_read bus n c1 in (b # bs, c2))"

definition sdmmc_spi_select :: "'c bus \<Rightarrow> 'c \<Rightarrow> 'c" where
  "sdmmc_spi_select bus c = snd (bus_xfer bus 0xFF (bus_select bus True (snd (bus_xfer bus 0xFF c))))"

definition sdmmc_spi_deselect :: "'c bus \<Rightarrow> 'c \<Rightarrow> 'c" where
  "sdmmc_spi_deselect bus c = snd (bus_xfer bus 0xFF (bus_select bus False (snd (bus_xfer bus 0xFF c))))"

section \<open>Waiting\<close>

definition SDMMC_RESPONSE_TIMEOUT :: u32 where "SDMMC_RESPONSE_TIMEOUT = 100"
definition SDMMC_DATA_TOKEN_TIMEOUT :: u32 where "SDMMC_DATA_TOKEN_TIMEOUT = 100"
definition SDMMC_READ_RETRY_COUNT :: nat where "SDMMC_READ_RETRY_COUNT = 10"

datatype sdmmc_error = SDMMC_OK | READ_BLOCK_TIMEOUT | WRITE_BLOCK_TIMEOUT | RESPONSE_TIMEOUT | INIT_TYPE
  | INIT_VER_OR_VOLTAGE | INIT_ACMD41 | INIT_CMD58 | INIT_CMD0 | CID_START | CID_CMD10 | CSD_START | CSD_CMD9

definition timed_out :: "'c bus \<Rightarrow> u32 \<Rightarrow> u32 \<Rightarrow> 'c \<Rightarrow> bool" where
  "timed_out bus start limit c = system_timer_is_time_elapsed_ms (bus_ms bus c) start limit"

text \<open>The common form of the loops that wait for the card: read a byte, give up when the time has
  passed, stop when the byte is the awaited one. The result is whether the time has passed and the last
  byte.\<close>

partial_function (option) poll :: "'c bus \<Rightarrow> (u8 \<Rightarrow> bool) \<Rightarrow> u32 \<Rightarrow> u32 \<Rightarrow> 'c \<Rightarrow> (bool \<times> u8 \<times> 'c) option" where
  "poll bus awaited start limit c =
     (let (b, c1) = bus_xfer bus 0xFF c in
      if timed_out bus start limit c1 then Some (True, b, c1)
      else if \<not> awaited b then poll bus awaited start limit c1
      else Some (False, b, c1))"

declare poll.simps [code]

definition sdmmc_response :: "'c bus \<Rightarrow> u8 \<Rightarrow> 'c \<Rightarrow> (sdmmc_error \<times> 'c) option" where
  "sdmmc_response bus response c = do {
     (late, _, c1) \<leftarrow> poll bus (\<lambda>b. b = response) (bus_ms bus c) SDMMC_RESPONSE_TIMEOUT c;
     Some (if late then RESPONSE_TIMEOUT else SDMMC_OK, c1)
   }"

definition sdmmc_wait_until_ready :: "'c bus \<Rightarrow> 'c \<Rightarrow> (u8 \<times> 'c) option" where
  "sdmmc_wait_until_ready bus c = do {
     (_, data, c1) \<leftarrow> poll bus (\<lambda>b. b = 0xFF) (bus_ms bus c) SDMMC_RESPONSE_TIMEOUT c;
     Some (data, c1)
   }"

section \<open>Commands\<close>

definition SDMMC_CMD0 :: u8 where "SDMMC_CMD0 = 0x40"
definition SDMMC_CMD1 :: u8 where "SDMMC_CMD1 = 0x41"
definition SDMMC_CMD8 :: u8 where "SDMMC_CMD8 = 0x48"
definition SDMMC_CMD9 :: u8 where "SDMMC_CMD9 = 0x49"
definition SDMMC_CMD10 :: u8 where "SDMMC_CMD10 = 0x4A"
definition SDMMC_CMD12 :: u8 where "SDMMC_CMD12 = 0x4C"
definition SDMMC_CMD16 :: u8 where "SDMMC_CMD16 = 0x50"
definition SDMMC_CMD17 :: u8 where "SDMMC_CMD17 = 0x51"
definition SDMMC_CMD24 :: u8 where "SDMMC_CMD24 = 0x58"
definition SDMMC_CMD41 :: u8 where "SDMMC_CMD41 = 0x69"
definition SDMMC_CMD55 :: u8 where "SDMMC_CMD55 = 0x77"
definition SDMMC_CMD58 :: u8 where "SDMMC_CMD58 = 0x7A"
definition SDMMC_ACMD41 :: u8 where "SDMMC_ACMD41 = 0xE9"

text \<open>Reads until the highest bit of the answer is clear, at most n times.\<close>

fun read_answer :: "'c bus \<Rightarrow> nat \<Rightarrow> u8 \<Rightarrow> 'c \<Rightarrow> bool \<times> u8 \<times> 'c" where
  "read_answer bus 0 data c = (False, data, c)"
| "read_answer bus (Suc n) data c =
     (let (data, c1) = bus_xfer bus 0xFF c in
      if data AND 0x80 = 0 then (True, data, c1) else read_answer bus n data c1)"

definition be32_bytes :: "u32 \<Rightarrow> u8 list" where
  "be32_bytes arg = [ucast (drop_bit 24 arg), ucast (drop_bit 16 arg), ucast (drop_bit 8 arg), ucast arg]"

definition command_crc :: "u8 \<Rightarrow> u8" where
  "command_crc cmd = (if cmd = SDMMC_CMD0 then 0x95 else if cmd = SDMMC_CMD8 then 0x87
     else if cmd = SDMMC_CMD41 then 0x77 else 1)"

definition send_single :: "'c bus \<Rightarrow> u8 \<Rightarrow> u32 \<Rightarrow> u8 \<Rightarrow> 'c \<Rightarrow> u8 \<times> 'c" where
  "send_single bus cmd arg data c =
     (let c1 = sdmmc_spi_write bus ([cmd] @ be32_bytes arg @ [command_crc cmd]) c;
          (data, c2) = (if cmd = SDMMC_CMD12 then bus_xfer bus 0xFF c1 else (data, c1));
          (_, data, c3) = read_answer bus SDMMC_READ_RETRY_COUNT data c2
      in (data, c3))"

definition sdmmc_send_command :: "'c bus \<Rightarrow> u8 \<Rightarrow> u32 \<Rightarrow> 'c \<Rightarrow> (u8 \<times> 'c) option" where
  "sdmmc_send_command bus cmd arg c = do {
     let (_, c1) = bus_xfer bus 0xFF c;
     (ready, c2) \<leftarrow> (if cmd \<noteq> SDMMC_CMD0 then sdmmc_wait_until_ready bus c1 else Some (0xFF, c1));
     if ready \<noteq> 0xFF then Some (0xFF, c2)
     else if cmd AND 0x80 \<noteq> 0 then
       let c3 = sdmmc_spi_write bus [SDMMC_CMD55, 0, 0, 0, 0, 1] c2;
           (answered, data, c4) = read_answer bus SDMMC_READ_RETRY_COUNT 0 c3;
           c5 = (if answered then snd (bus_xfer bus 0xFF c4) else c4)
       in if data \<noteq> 1 then Some (data, c5) else Some (send_single bus (cmd AND 0x7F) arg data c5)
     else Some (send_single bus cmd arg 0 c2)
   }"

section \<open>Registers of the card\<close>

text \<open>The card specific data as the 16 bytes of the C structure, which are those of the register in
  reverse; its bit fields are read from there.\<close>

record sdmmc =
  sd_type :: u8
  ocr :: "u8 list"
  csd :: "u8 list"
  cid_manufacturing_date :: u16
  cid_product_serial_num :: u32
  cid_product_rev :: u8
  cid_product_name :: "u8 list"
  cid_app_oem_id :: "u8 list"
  cid_manufacturer_id :: u8

definition csd_dev_size_low :: "u8 list \<Rightarrow> u32" where
  "csd_dev_size_low r = ucast (un_le16 (r ! 6) (r ! 7))"

definition csd_dev_size_high :: "u8 list \<Rightarrow> u32" where
  "csd_dev_size_high r = ucast (r ! 8 AND 0x3F)"

definition sdmmc_zero :: sdmmc where
  "sdmmc_zero = \<lparr> sd_type = 0, ocr = replicate 4 0, csd = replicate 16 0, cid_manufacturing_date = 0,
     cid_product_serial_num = 0, cid_product_rev = 0, cid_product_name = replicate 5 0,
     cid_app_oem_id = [0, 0], cid_manufacturer_id = 0 \<rparr>"

text \<open>Reads a register of 16 bytes and its checksum, which is not looked at; the result is the error or
  the bytes.\<close>

definition read_register ::
  "'c bus \<Rightarrow> u8 \<Rightarrow> sdmmc_error \<Rightarrow> sdmmc_error \<Rightarrow> 'c \<Rightarrow> ((sdmmc_error + u8 list) \<times> 'c) option" where
  "read_register bus cmd refused no_token c = do {
     (r, c1) \<leftarrow> sdmmc_send_command bus cmd 0 (sdmmc_spi_select bus c);
     if r = 0 then do {
       (e, c2) \<leftarrow> sdmmc_response bus 0xFE c1;
       if e = SDMMC_OK then
         let (buffer, c3) = sdmmc_spi_read bus 18 c2 in Some (Inr (take 16 buffer), sdmmc_spi_deselect bus c3)
       else Some (Inl no_token, sdmmc_spi_deselect bus c2)
     }
     else Some (Inl refused, sdmmc_spi_deselect bus c1)
   }"

definition sdmmc_init_csd :: "'c bus \<Rightarrow> sdmmc \<times> 'c \<Rightarrow> (sdmmc_error \<times> sdmmc \<times> 'c) option" where
  "sdmmc_init_csd bus = (\<lambda>(s, c). do {
     (r, c1) \<leftarrow> read_register bus SDMMC_CMD9 CSD_CMD9 CSD_START c;
     Some (case r of
         Inl e \<Rightarrow> (e, s, c1)
       | Inr buffer \<Rightarrow> (SDMMC_OK, s \<lparr> csd := rev buffer \<rparr>, c1))
   })"

definition sdmmc_init_cid :: "'c bus \<Rightarrow> sdmmc \<times> 'c \<Rightarrow> (sdmmc_error \<times> sdmmc \<times> 'c) option" where
  "sdmmc_init_cid bus = (\<lambda>(s, c). do {
     (r, c1) \<leftarrow> read_register bus SDMMC_CMD10 CID_CMD10 CID_START c;
     Some (case r of
         Inl e \<Rightarrow> (e, s, c1)
       | Inr b \<Rightarrow> (SDMMC_OK, s \<lparr>
           cid_manufacturing_date := push_bit 8 (ucast (b ! 13) AND 0x0F) OR ucast (b ! 14),
           cid_product_serial_num := ucast (b ! 12) OR (push_bit 8 (ucast (b ! 11)) OR
             push_bit 16 (ucast (b ! 10)) OR push_bit 24 (ucast (b ! 9))),
           cid_product_rev := b ! 8,
           cid_product_name := [b ! 3, b ! 4, b ! 5, b ! 6, b ! 7],
           cid_app_oem_id := [b ! 1, b ! 2],
           cid_manufacturer_id := b ! 0 \<rparr>, c1))
   })"

section \<open>Initialisation\<close>

abbreviation (input) SDMMC_ARG_STUFF :: u32 where "SDMMC_ARG_STUFF \<equiv> 0"
definition SDMMC_ARG_CMD8 :: u32 where "SDMMC_ARG_CMD8 = 0x1AA"
definition SDMMC_ARG_ACMD41 :: u32 where "SDMMC_ARG_ACMD41 = 0x40000000"
definition SDMMC_SECTOR_SIZE :: nat where "SDMMC_SECTOR_SIZE = 512"
definition SDMMC_TYPE_MMC :: u8 where "SDMMC_TYPE_MMC = 1"
definition SDMMC_TYPE_SD1 :: u8 where "SDMMC_TYPE_SD1 = 2"
definition SDMMC_TYPE_SD2 :: u8 where "SDMMC_TYPE_SD2 = 4"
definition SDMMC_TYPE_BLOCK :: u8 where "SDMMC_TYPE_BLOCK = 8"

fun acmd41_retry :: "'c bus \<Rightarrow> nat \<Rightarrow> 'c \<Rightarrow> (bool \<times> 'c) option" where
  "acmd41_retry bus 0 c = Some (False, c)"
| "acmd41_retry bus (Suc n) c = do {
     (ret, c1) \<leftarrow> sdmmc_send_command bus SDMMC_ACMD41 SDMMC_ARG_ACMD41 c;
     let (_, c2) = sdmmc_spi_read bus 4 c1;
     if ret = 0 then Some (True, c2)
     else acmd41_retry bus n (sdmmc_spi_select bus (sdmmc_spi_deselect bus c2))
   }"

fun command_retry :: "'c bus \<Rightarrow> u8 \<Rightarrow> nat \<Rightarrow> 'c \<Rightarrow> (bool \<times> 'c) option" where
  "command_retry bus cmd 0 c = Some (False, c)"
| "command_retry bus cmd (Suc n) c = do {
     (ret, c1) \<leftarrow> sdmmc_send_command bus cmd SDMMC_ARG_STUFF c;
     if ret = 0 then Some (True, c1) else command_retry bus cmd n c1
   }"

text \<open>A card that accepts CMD8, and an older one.\<close>

definition init_version_2 :: "'c bus \<Rightarrow> sdmmc \<times> 'c \<Rightarrow> (sdmmc_error \<times> sdmmc \<times> 'c) option" where
  "init_version_2 bus = (\<lambda>(s, c). do {
     let (buffer, c1) = sdmmc_spi_read bus 4 c;
     if buffer ! 2 = 1 \<and> buffer ! 3 = 0xAA then do {
       (idle, c2) \<leftarrow> acmd41_retry bus SDMMC_READ_RETRY_COUNT (sdmmc_spi_select bus (sdmmc_spi_deselect bus c1));
       if idle then do {
         (ret, c3) \<leftarrow> sdmmc_send_command bus SDMMC_CMD58 0 c2;
         if ret = 0 then
           let (r, c4) = sdmmc_spi_read bus 4 c3
           in Some (SDMMC_OK, s \<lparr> ocr := r, sd_type := if r ! 0 AND 0x40 \<noteq> 0
               then SDMMC_TYPE_SD2 OR SDMMC_TYPE_BLOCK else SDMMC_TYPE_SD2 \<rparr>, c4)
         else Some (INIT_CMD58, s, c3)
       }
       else Some (INIT_ACMD41, s, c2)
     }
     else Some (INIT_VER_OR_VOLTAGE, s, c1)
   })"

definition init_version_1 :: "'c bus \<Rightarrow> sdmmc \<times> 'c \<Rightarrow> (sdmmc_error \<times> sdmmc \<times> 'c) option" where
  "init_version_1 bus = (\<lambda>(s, c). do {
     (ret, c1) \<leftarrow> sdmmc_send_command bus SDMMC_ACMD41 SDMMC_ARG_STUFF c;
     let (t, cmd) = (if ret \<le> 1 then (SDMMC_TYPE_SD1, SDMMC_ACMD41) else (SDMMC_TYPE_MMC, SDMMC_CMD1));
     (idle, c2) \<leftarrow> command_retry bus cmd SDMMC_READ_RETRY_COUNT c1;
     (ok, c3) \<leftarrow> (if idle then do {
         (ret, c3) \<leftarrow> sdmmc_send_command bus SDMMC_CMD16 512 c2;
         Some (ret = 0, c3)
       }
       else Some (False, c2));
     Some (if ok then (SDMMC_OK, s \<lparr> sd_type := t \<rparr>, c3) else (INIT_TYPE, s \<lparr> sd_type := 0 \<rparr>, c3))
   })"

text \<open>The part of the initialisation that runs at the slow clock, and the whole of it.\<close>

definition init_first :: "'c bus \<Rightarrow> 'c \<Rightarrow> (sdmmc_error \<times> sdmmc \<times> 'c) option" where
  "init_first bus c = do {
     let (_, c1) = sdmmc_spi_read bus 10 c;
     (ret, c2) \<leftarrow> sdmmc_send_command bus SDMMC_CMD0 SDMMC_ARG_STUFF (sdmmc_spi_select bus c1);
     if ret = 1 then do {
       (ret, c3) \<leftarrow> sdmmc_send_command bus SDMMC_CMD8 SDMMC_ARG_CMD8 c2;
       if ret = 1 then init_version_2 bus (sdmmc_zero, c3) else init_version_1 bus (sdmmc_zero, c3)
     }
     else Some (INIT_CMD0, sdmmc_zero, c2)
   }"

definition sdmmc_init :: "'c bus \<Rightarrow> 'c \<Rightarrow> (sdmmc_error \<times> sdmmc \<times> 'c) option" where
  "sdmmc_init bus c = do {
     (err, s, c3) \<leftarrow> init_first bus (sdmmc_spi_deselect bus c);
     let c4 = sdmmc_spi_deselect bus c3;
     if sd_type s = 0 then Some (err, s, c4)
     else do {
       (err, s, c5) \<leftarrow> sdmmc_init_csd bus (s, c4);
       if err \<noteq> SDMMC_OK then Some (err, s, c5) else sdmmc_init_cid bus (s, c5)
     }
   }"

section \<open>Blocks\<close>

definition block_address :: "u8 \<Rightarrow> u32 \<Rightarrow> u32" where
  "block_address t sector = (if t AND SDMMC_TYPE_BLOCK \<noteq> 0 then sector else push_bit 9 sector)"

text \<open>The result of a read is the error, and the bytes when the card sent them.\<close>

definition sdmmc_read_block :: "'c bus \<Rightarrow> u8 \<Rightarrow> u32 \<Rightarrow> 'c \<Rightarrow> (sdmmc_error \<times> u8 list option \<times> 'c) option" where
  "sdmmc_read_block bus t sector c = do {
     (ret, c1) \<leftarrow> sdmmc_send_command bus SDMMC_CMD17 (block_address t sector) (sdmmc_spi_select bus c);
     if ret = 0 then do {
       (_, token, c2) \<leftarrow> poll bus (\<lambda>b. b \<noteq> 0xFF) (bus_ms bus c1) SDMMC_DATA_TOKEN_TIMEOUT c1;
       if token = 0xFE then
         let (bytes, c3) = sdmmc_spi_read bus SDMMC_SECTOR_SIZE c2; (_, c4) = sdmmc_spi_read bus 2 c3
         in Some (SDMMC_OK, Some bytes, sdmmc_spi_deselect bus c4)
       else Some (READ_BLOCK_TIMEOUT, None, sdmmc_spi_deselect bus c2)
     }
     else Some (READ_BLOCK_TIMEOUT, None, sdmmc_spi_deselect bus c1)
   }"

definition sdmmc_send_spi_command :: "'c bus \<Rightarrow> u8 \<Rightarrow> u32 \<Rightarrow> u8 \<Rightarrow> 'c \<Rightarrow> 'c option" where
  "sdmmc_send_spi_command bus cmd arg crc c = do {
     (_, c1) \<leftarrow> sdmmc_response bus 0xFF c;
     Some (sdmmc_spi_write bus ([cmd] @ be32_bytes arg @ [crc]) c1)
   }"

text \<open>Sending a block up to the card's answer to the data.\<close>

definition send_block :: "'c bus \<Rightarrow> u8 \<Rightarrow> u32 \<Rightarrow> u8 list \<Rightarrow> 'c \<Rightarrow> (sdmmc_error \<times> 'c) option" where
  "send_block bus t sector data c = do {
     c1 \<leftarrow> sdmmc_send_spi_command bus SDMMC_CMD24 (block_address t sector) 0xFF (sdmmc_spi_select bus c);
     (err, c2) \<leftarrow> sdmmc_response bus 0 c1;
     if err \<noteq> SDMMC_OK then Some (err, c2)
     else sdmmc_response bus 0xE5 (sdmmc_spi_write bus ([0xFE] @ data @ [0xFF] @ [0xFF]) c2)
   }"

text \<open>Waiting for the end of the write: there is no time limit.\<close>

partial_function (option) busy_loop :: "'c bus \<Rightarrow> 'c \<Rightarrow> 'c option" where
  "busy_loop bus c =
     (let (tmp, c1) = bus_xfer bus 0xFF c in if tmp = 0 then busy_loop bus c1 else Some c1)"

declare busy_loop.simps [code]

definition sdmmc_write_block :: "'c bus \<Rightarrow> u8 \<Rightarrow> u32 \<Rightarrow> u8 list \<Rightarrow> 'c \<Rightarrow> (sdmmc_error \<times> 'c) option" where
  "sdmmc_write_block bus t sector data c = do {
     (err, c1) \<leftarrow> send_block bus t sector data c;
     if err \<noteq> SDMMC_OK then Some (WRITE_BLOCK_TIMEOUT, sdmmc_spi_deselect bus c1)
     else do {
       c2 \<leftarrow> busy_loop bus c1;
       Some (SDMMC_OK, sdmmc_spi_deselect bus c2)
     }
   }"

section \<open>Which operations return\<close>

text \<open>The card after n reads, and a clock that does not stop: there is a time in milliseconds that never
  goes back, makes no step of more than a second, and reads take it on.\<close>

definition after_reads :: "'c bus \<Rightarrow> nat \<Rightarrow> 'c \<Rightarrow> 'c" where
  "after_reads bus n = (\<lambda>c. snd (bus_xfer bus 0xFF c)) ^^ n"

definition clock_runs :: "'c bus \<Rightarrow> ('c \<Rightarrow> nat) \<Rightarrow> bool" where
  "clock_runs bus time \<longleftrightarrow> (\<forall>c. bus_ms bus c = of_nat (time c)) \<and>
     (\<forall>b c. time c \<le> time (snd (bus_xfer bus b c)) \<and> time (snd (bus_xfer bus b c)) \<le> time c + 1000) \<and>
     (\<forall>c. \<exists>n. time c + 100 \<le> time (after_reads bus n c))"

lemma after_reads_Suc: "after_reads bus (Suc n) c = after_reads bus n (snd (bus_xfer bus 0xFF c))"
  by (simp add: after_reads_def funpow_Suc_right del: funpow.simps)

lemma poll_ends_by:
  assumes clock: "clock_runs bus time" and limit: "unat limit = 100"
  shows "start \<le> time c \<Longrightarrow> time c < start + 100 \<Longrightarrow> start + 100 \<le> time (after_reads bus n c) \<Longrightarrow>
    poll bus awaited (of_nat start) limit c \<noteq> None"
proof (induction n arbitrary: c)
  case 0
  then show ?case by (simp add: after_reads_def)
next
  case (Suc n)
  obtain b c1 where x: "bus_xfer bus 0xFF c = (b, c1)" by fastforce
  have t: "time c \<le> time c1" "time c1 \<le> time c + 1000" "bus_ms bus c1 = of_nat (time c1)"
    using clock x unfolding clock_runs_def by (metis snd_conv)+
  have "bus_ms bus c1 - of_nat start = (of_nat (time c1 - start) :: u32)"
    using t Suc.prems(1) by (simp add: of_nat_diff)
  moreover have "time c1 - start < 2 ^ 32" using t(2) Suc.prems(2) by simp
  ultimately have "unat (bus_ms bus c1 - of_nat start) = time c1 - start"
    by (simp only: unat_of_nat) (simp add: take_bit_nat_eq_self)
  then have late: "timed_out bus (of_nat start) limit c1 \<longleftrightarrow> start + 100 \<le> time c1"
    using t(1) Suc.prems(1)
    by (simp only: timed_out_def system_timer_is_time_elapsed_ms_def system_timer_get_ms_def word_le_nat_alt limit) arith
  have "poll bus awaited (of_nat start) limit c1 \<noteq> None" if "time c1 < start + 100"
    using Suc.IH[of c1] that t(1) Suc.prems(1,3) x by (simp add: after_reads_Suc)
  then show ?case by (subst poll.simps) (simp add: x late, blast)
qed

lemma poll_ends:
  assumes "clock_runs bus time" "unat limit = 100"
  shows "\<exists>r. poll bus awaited (bus_ms bus c) limit c = Some r"
proof -
  obtain n where "time c + 100 \<le> time (after_reads bus n c)" using assms(1) unfolding clock_runs_def by blast
  then show ?thesis
    using poll_ends_by[OF assms, of "time c" c n awaited] assms(1) by (simp add: clock_runs_def)
qed

lemmas limits = SDMMC_RESPONSE_TIMEOUT_def SDMMC_DATA_TOKEN_TIMEOUT_def

lemma response_ends: "clock_runs bus time \<Longrightarrow> \<exists>e c1. sdmmc_response bus r c = Some (e, c1)"
  using poll_ends[of bus time SDMMC_RESPONSE_TIMEOUT "\<lambda>b. b = r" c] by (auto simp: sdmmc_response_def limits)

lemma ready_ends: "clock_runs bus time \<Longrightarrow> \<exists>b c1. sdmmc_wait_until_ready bus c = Some (b, c1)"
  using poll_ends[of bus time SDMMC_RESPONSE_TIMEOUT "\<lambda>b. b = 0xFF" c] by (auto simp: sdmmc_wait_until_ready_def limits)

lemma token_ends: "clock_runs bus time \<Longrightarrow> \<exists>l b c1. poll bus (\<lambda>b. b \<noteq> 0xFF) (bus_ms bus c) SDMMC_DATA_TOKEN_TIMEOUT c = Some (l, b, c1)"
  using poll_ends[of bus time SDMMC_DATA_TOKEN_TIMEOUT "\<lambda>b. b \<noteq> 0xFF" c] by (auto simp: limits)

lemma command_ends: "clock_runs bus time \<Longrightarrow> \<exists>b c1. sdmmc_send_command bus cmd arg c = Some (b, c1)"
proof -
  assume clock: "clock_runs bus time"
  obtain b c1 where r: "sdmmc_wait_until_ready bus (snd (bus_xfer bus 0xFF c)) = Some (b, c1)"
    using ready_ends[OF clock] by blast
  show ?thesis
    by (cases "cmd = SDMMC_CMD0") (auto simp: sdmmc_send_command_def r split_beta Let_def)
qed

lemma register_ends: "clock_runs bus time \<Longrightarrow> \<exists>r c1. read_register bus cmd e1 e2 c = Some (r, c1)"
proof -
  assume clock: "clock_runs bus time"
  obtain b c1 where 1: "sdmmc_send_command bus cmd 0 (sdmmc_spi_select bus c) = Some (b, c1)"
    using command_ends[OF clock] by blast
  obtain e c2 where 2: "sdmmc_response bus 0xFE c1 = Some (e, c2)" using response_ends[OF clock] by blast
  show ?thesis by (auto simp: read_register_def 1 2 split_beta Let_def)
qed

lemma acmd41_ends: "clock_runs bus time \<Longrightarrow> \<exists>b c1. acmd41_retry bus n c = Some (b, c1)"
proof (induction n arbitrary: c)
  case (Suc n)
  obtain b c1 where 1: "sdmmc_send_command bus SDMMC_ACMD41 SDMMC_ARG_ACMD41 c = Some (b, c1)"
    using command_ends[OF Suc.prems] by blast
  show ?case using Suc.IH[OF Suc.prems] by (simp add: 1 split_beta Let_def) blast
next
  case 0
  show ?case by (intro exI[of _ False] exI[of _ c]) simp
qed

lemma command_retry_ends: "clock_runs bus time \<Longrightarrow> \<exists>b c1. command_retry bus cmd n c = Some (b, c1)"
proof (induction n arbitrary: c)
  case (Suc n)
  obtain b c1 where 1: "sdmmc_send_command bus cmd SDMMC_ARG_STUFF c = Some (b, c1)"
    using command_ends[OF Suc.prems] by blast
  show ?case using Suc.IH[OF Suc.prems] by (simp add: 1) blast
next
  case 0
  show ?case by (intro exI[of _ False] exI[of _ c]) simp
qed

lemma init_versions_end:
  assumes "clock_runs bus time"
  shows "\<exists>e s1 c1. init_version_2 bus (s, c) = Some (e, s1, c1)" "\<exists>e s1 c1. init_version_1 bus (s, c) = Some (e, s1, c1)"
proof -
  obtain b c1 where 1: "acmd41_retry bus SDMMC_READ_RETRY_COUNT
      (sdmmc_spi_select bus (sdmmc_spi_deselect bus (snd (sdmmc_spi_read bus 4 c)))) = Some (b, c1)"
    using acmd41_ends[OF assms] by blast
  obtain r c2 where 2: "sdmmc_send_command bus SDMMC_CMD58 0 c1 = Some (r, c2)" using command_ends[OF assms] by blast
  show "\<exists>e s1 c1. init_version_2 bus (s, c) = Some (e, s1, c1)"
    by (auto simp: init_version_2_def 1 2 split_beta Let_def)
  obtain r1 c1 where 1: "sdmmc_send_command bus SDMMC_ACMD41 0 c = Some (r1, c1)" using command_ends[OF assms] by blast
  obtain i c2 where 2: "command_retry bus (if r1 \<le> 1 then SDMMC_ACMD41 else SDMMC_CMD1) SDMMC_READ_RETRY_COUNT c1 = Some (i, c2)"
    using command_retry_ends[OF assms] by blast
  obtain r3 c3 where 3: "sdmmc_send_command bus SDMMC_CMD16 512 c2 = Some (r3, c3)" using command_ends[OF assms] by blast
  show "\<exists>e s1 c1. init_version_1 bus (s, c) = Some (e, s1, c1)"
    using 2 by (cases "r1 \<le> 1") (auto simp: init_version_1_def 1 3)
qed

lemma init_first_ends:
  assumes "clock_runs bus time"
  shows "\<exists>e s c1. init_first bus c = Some (e, s, c1)"
proof -
  obtain r1 c1 where 1: "sdmmc_send_command bus SDMMC_CMD0 0 (sdmmc_spi_select bus
      (snd (sdmmc_spi_read bus 10 c))) = Some (r1, c1)"
    using command_ends[OF assms] by blast
  obtain r2 c2 where 2: "sdmmc_send_command bus SDMMC_CMD8 SDMMC_ARG_CMD8 c1 = Some (r2, c2)"
    using command_ends[OF assms] by blast
  show ?thesis
    using init_versions_end[OF assms, of sdmmc_zero c2]
    by (cases "r1 = 1"; cases "r2 = 1") (simp_all add: init_first_def 1 2 split_beta Let_def)
qed

lemma init_ends:
  assumes "clock_runs bus time"
  shows "\<exists>r. sdmmc_init bus c = Some r"
proof -
  obtain e3 s3 c3 where 3: "init_first bus (sdmmc_spi_deselect bus c) = Some (e3, s3, c3)"
    using init_first_ends[OF assms] by blast
  obtain r4 c4 where 4: "read_register bus SDMMC_CMD9 CSD_CMD9 CSD_START (sdmmc_spi_deselect bus c3) = Some (r4, c4)"
    using register_ends[OF assms] by blast
  obtain r5 c5 where 5: "read_register bus SDMMC_CMD10 CID_CMD10 CID_START c4 = Some (r5, c5)"
    using register_ends[OF assms] by blast
  show ?thesis
    by (cases r4; cases r5)
      (auto simp: sdmmc_init_def 3 4 5 split_beta Let_def sdmmc_init_csd_def sdmmc_init_cid_def)
qed

lemma read_block_ends:
  assumes "clock_runs bus time"
  shows "\<exists>r. sdmmc_read_block bus t sector c = Some r"
proof -
  obtain r1 c1 where 1: "sdmmc_send_command bus SDMMC_CMD17 (block_address t sector) (sdmmc_spi_select bus c) = Some (r1, c1)"
    using command_ends[OF assms] by blast
  obtain l b c2 where 2: "poll bus (\<lambda>b. b \<noteq> 0xFF) (bus_ms bus c1) SDMMC_DATA_TOKEN_TIMEOUT c1 = Some (l, b, c2)"
    using token_ends[OF assms] by blast
  show ?thesis by (auto simp: sdmmc_read_block_def 1 2 split_beta Let_def)
qed

lemma send_block_ends:
  assumes "clock_runs bus time"
  shows "\<exists>e c1. send_block bus t sector data c = Some (e, c1)"
proof -
  obtain e1 c1 where 1: "sdmmc_response bus 0xFF (sdmmc_spi_select bus c) = Some (e1, c1)"
    using response_ends[OF assms] by blast
  obtain e2 c2 where 2: "sdmmc_response bus 0 (sdmmc_spi_write bus ([SDMMC_CMD24] @
      be32_bytes (block_address t sector) @ [0xFF]) c1) = Some (e2, c2)"
    using response_ends[OF assms] by blast
  show ?thesis
    using response_ends[OF assms, of "0xE5"] by (auto simp: send_block_def sdmmc_send_spi_command_def 1 2[simplified])
qed

lemma busy_loop_None_iff: "busy_loop bus c = None \<longleftrightarrow> (\<forall>n. fst (bus_xfer bus 0xFF (after_reads bus n c)) = 0)"
proof
  assume never: "busy_loop bus c = None"
  have "busy_loop bus c \<noteq> None" if "fst (bus_xfer bus 0xFF (after_reads bus n c)) \<noteq> 0" for n
    using that
  proof (induction n arbitrary: c)
    case 0
    then show ?case by (subst busy_loop.simps) (simp add: after_reads_def split_beta)
  next
    case (Suc n)
    then show ?case by (subst busy_loop.simps) (simp add: after_reads_Suc split_beta)
  qed
  with never show "\<forall>n. fst (bus_xfer bus 0xFF (after_reads bus n c)) = 0" by blast
next
  have "\<exists>n. fst (bus_xfer bus 0xFF (after_reads bus n c)) \<noteq> 0" if "busy_loop bus c = Some r" for r
  proof (rule busy_loop.raw_induct[OF _ that, where P = "\<lambda>bus c r. \<exists>n. fst (bus_xfer bus 0xFF (after_reads bus n c)) \<noteq> 0"])
    fix loop and bus :: "'a bus" and c r
    assume IH: "\<And>bus c r. loop bus c = Some r \<Longrightarrow> \<exists>n. fst (bus_xfer bus 0xFF (after_reads bus n c)) \<noteq> 0"
      and step: "(let (tmp, c1) = bus_xfer bus 0xFF c in if tmp = 0 then loop bus c1 else Some c1) = Some r"
    obtain b c1 where x: "bus_xfer bus 0xFF c = (b, c1)" by fastforce
    show "\<exists>n. fst (bus_xfer bus 0xFF (after_reads bus n c)) \<noteq> 0"
    proof (cases "b = 0")
      case True
      then obtain n where "fst (bus_xfer bus 0xFF (after_reads bus n c1)) \<noteq> 0"
        using IH[of bus c1 r] step x by auto
      then have "fst (bus_xfer bus 0xFF (after_reads bus (Suc n) c)) \<noteq> 0" using x by (simp add: after_reads_Suc)
      then show ?thesis by blast
    next
      case False
      then have "fst (bus_xfer bus 0xFF (after_reads bus 0 c)) \<noteq> 0" using x by (simp add: after_reads_def)
      then show ?thesis by blast
    qed
  qed
  moreover assume "\<forall>n. fst (bus_xfer bus 0xFF (after_reads bus n c)) = 0"
  ultimately show "busy_loop bus c = None" by (cases "busy_loop bus c") auto
qed

text \<open>Whatever the card answers, the initialisation and the reading of a block return, provided the
  clock runs: every wait for the card has a time limit. Writing a block does not: it never returns
  exactly when the card has accepted the block and then holds its answer at zero forever, since the wait
  for the end of the write has no limit.\<close>

theorem only_a_busy_write_hangs:
  assumes "clock_runs bus time"
  shows "(\<exists>r. sdmmc_init bus c = Some r) \<and> (\<exists>r. sdmmc_read_block bus t sector c = Some r) \<and>
    (sdmmc_write_block bus t sector data c = None \<longleftrightarrow>
      (\<exists>c1. send_block bus t sector data c = Some (SDMMC_OK, c1) \<and>
        (\<forall>n. fst (bus_xfer bus 0xFF (after_reads bus n c1)) = 0)))"
proof -
  obtain e c1 where "send_block bus t sector data c = Some (e, c1)" using send_block_ends[OF assms] by blast
  then have "sdmmc_write_block bus t sector data c = None \<longleftrightarrow> e = SDMMC_OK \<and> busy_loop bus c1 = None"
    by (auto simp: sdmmc_write_block_def split: Option.bind_splits)
  then show ?thesis
    using init_ends[OF assms] read_block_ends[OF assms] \<open>send_block bus t sector data c = Some (e, c1)\<close>
    by (auto simp: busy_loop_None_iff)
qed

text \<open>A card that accepts a block and stays busy: its state is the number of bytes exchanged, one in
  every millisecond.\<close>

definition stuck_bus :: "nat bus" where
  "stuck_bus = \<lparr> bus_xfer = \<lambda>b n. (if n = 2 then 0xFF else if n = 525 then 0xE5 else 0, Suc n),
     bus_select = \<lambda>b n. n, bus_ms = of_nat \<rparr>"

lemma stuck_bus_write: "sdmmc_spi_write stuck_bus bs n = n + length bs"
  by (induction bs arbitrary: n) (simp_all add: stuck_bus_def)

lemma stuck_bus_reads: "after_reads stuck_bus n c = c + n"
  by (induction n arbitrary: c) (simp_all add: after_reads_Suc, simp_all add: stuck_bus_def after_reads_def)

lemma stuck_bus_simps:
  "bus_xfer stuck_bus b n = (if n = 2 then 0xFF else if n = 525 then 0xE5 else 0, Suc n)"
  "bus_ms stuck_bus n = of_nat n"
  by (simp_all add: stuck_bus_def)

lemma stuck_bus_response:
  assumes "fst (bus_xfer stuck_bus 0xFF n) = r"
  shows "sdmmc_response stuck_bus r n = Some (SDMMC_OK, Suc n)"
proof -
  have "\<not> timed_out stuck_bus (of_nat n) SDMMC_RESPONSE_TIMEOUT (Suc n)"
    by (simp add: timed_out_def system_timer_is_time_elapsed_ms_def system_timer_get_ms_def stuck_bus_simps limits
        word_le_nat_alt)
  with assms show ?thesis
    unfolding sdmmc_response_def by (subst poll.simps) (simp add: stuck_bus_simps(2), simp add: stuck_bus_simps split: if_splits)
qed

lemma only_a_busy_write_hangs_witness:
  "(\<exists>r. sdmmc_init stuck_bus 0 = Some r) \<and> sdmmc_write_block stuck_bus 8 0 (replicate 512 7) 0 = None"
proof -
  have clock: "clock_runs stuck_bus id"
    unfolding clock_runs_def stuck_bus_reads by (auto simp: stuck_bus_def)
  have sel: "sdmmc_spi_select stuck_bus 0 = 2" by (simp add: sdmmc_spi_select_def stuck_bus_def)
  have "send_block stuck_bus 8 0 (replicate 512 7) 0 = Some (SDMMC_OK, 526)"
    by (simp add: send_block_def sdmmc_send_spi_command_def sel stuck_bus_response stuck_bus_write be32_bytes_def
        stuck_bus_simps del: sdmmc_spi_write.simps)
  moreover have "fst (bus_xfer stuck_bus 0xFF (after_reads stuck_bus n 526)) = 0" for n
    unfolding stuck_bus_reads by (simp add: stuck_bus_def)
  ultimately show ?thesis
    using only_a_busy_write_hangs[OF clock, of 0 8 0 "replicate 512 7"] by auto
qed

section \<open>What the initialisation leaves\<close>

lemma length_sdmmc_spi_read: "length (fst (sdmmc_spi_read bus n c)) = n"
  by (induction n arbitrary: c) (simp_all add: split_beta Let_def)

lemma read_register_length: "read_register bus cmd e1 e2 c = Some (Inr b, c1) \<Longrightarrow> length b = 16"
  using length_sdmmc_spi_read[of bus 18]
  by (auto simp: read_register_def split_beta Let_def split: Option.bind_splits if_splits)

lemma read_register_error: "read_register bus cmd e1 e2 c = Some (Inl e, c1) \<Longrightarrow> e \<in> {e1, e2}"
  by (auto simp: read_register_def split_beta Let_def split: Option.bind_splits if_splits)

lemma init_csd_type:
  "sdmmc_init_csd bus (s, c) = Some (SDMMC_OK, s1, c1) \<Longrightarrow> sd_type s1 = sd_type s \<and> length (csd s1) = 16"
  by (auto simp: sdmmc_init_csd_def read_register_length dest: read_register_error split: Option.bind_splits sum.splits)

lemma init_cid_type:
  "sdmmc_init_cid bus (s, c) = Some (e, s1, c1) \<Longrightarrow> sd_type s1 = sd_type s \<and> csd s1 = csd s \<and>
     (length (cid_product_name s) = 5 \<longrightarrow> length (cid_product_name s1) = 5)"
  by (auto simp: sdmmc_init_cid_def split: Option.bind_splits sum.splits)

definition card_type_ok :: "u8 \<Rightarrow> bool" where
  "card_type_ok t \<longleftrightarrow> t \<in> {SDMMC_TYPE_MMC, SDMMC_TYPE_SD1, SDMMC_TYPE_SD2, SDMMC_TYPE_SD2 OR SDMMC_TYPE_BLOCK}"

lemma init_version_type:
  "init_version_2 bus (s, c) = Some (e, s1, c1) \<Longrightarrow> sd_type s = 0 \<Longrightarrow>
     (sd_type s1 = 0 \<or> card_type_ok (sd_type s1)) \<and> cid_product_name s1 = cid_product_name s"
  "init_version_1 bus (s, c) = Some (e, s1, c1) \<Longrightarrow> sd_type s = 0 \<Longrightarrow>
     (sd_type s1 = 0 \<or> card_type_ok (sd_type s1)) \<and> cid_product_name s1 = cid_product_name s"
  by (auto simp: init_version_2_def init_version_1_def card_type_ok_def Let_def split_beta
      split: Option.bind_splits if_splits)

lemma init_version_error:
  "init_version_2 bus (sdmmc_zero, c) = Some (e, s1, c1) \<Longrightarrow> sd_type s1 = 0 \<Longrightarrow> e \<noteq> SDMMC_OK"
  "init_version_1 bus (sdmmc_zero, c) = Some (e, s1, c1) \<Longrightarrow> sd_type s1 = 0 \<Longrightarrow> e \<noteq> SDMMC_OK"
  by (auto simp: init_version_2_def init_version_1_def sdmmc_zero_def SDMMC_TYPE_MMC_def SDMMC_TYPE_SD1_def
      SDMMC_TYPE_SD2_def SDMMC_TYPE_BLOCK_def Let_def split_beta split: Option.bind_splits if_splits)

lemma init_first_type:
  assumes "init_first bus c = Some (e, s, c1)"
  shows "(sd_type s = 0 \<longrightarrow> e \<noteq> SDMMC_OK) \<and> (sd_type s = 0 \<or> card_type_ok (sd_type s)) \<and> length (cid_product_name s) = 5"
proof -
  have zero: "sd_type sdmmc_zero = 0" "length (cid_product_name sdmmc_zero) = 5" by (simp_all add: sdmmc_zero_def)
  consider c2 where "init_version_2 bus (sdmmc_zero, c2) = Some (e, s, c1)"
    | c2 where "init_version_1 bus (sdmmc_zero, c2) = Some (e, s, c1)"
    | "e = INIT_CMD0" "s = sdmmc_zero"
    using assms unfolding init_first_def Let_def split_beta by (auto elim!: bind_SomeE split: if_splits)
  then show ?thesis
  proof cases
    case 1
    show ?thesis using init_version_error(1)[OF 1] init_version_type(1)[OF 1 zero(1)] zero(2) by auto
  next
    case 2
    show ?thesis using init_version_error(2)[OF 2] init_version_type(2)[OF 2 zero(1)] zero(2) by auto
  next
    case 3
    then show ?thesis using zero by simp
  qed
qed

lemma dev_size_bounds: "unat (csd_dev_size_high r) < 64" "unat (csd_dev_size_low r) < 65536"
proof -
  have "unat (r ! 8 AND 0x3F) = take_bit 6 (unat (r ! 8))"
    using unsigned_take_bit_eq[of 6 "r ! 8"] by (simp add: take_bit_eq_mask mask_numeral)
  also have "\<dots> < 64" using take_bit_nat_less_exp[of 6 "unat (r ! 8)"] by simp
  finally show "unat (csd_dev_size_high r) < 64" by (simp only: csd_dev_size_high_def unat_ucast_u8)
  show "unat (csd_dev_size_low r) < 65536"
    unfolding csd_dev_size_low_def unsigned_ucast_eq
    using le_less_trans[OF take_bit_nat_less_eq_self unat_u16] by simp
qed


text \<open>A card of the second version, as the bytes that it sends in turn.\<close>

definition script_bus :: "u8 list bus" where
  "script_bus = \<lparr> bus_xfer = \<lambda>b xs. (case xs of [] \<Rightarrow> (0xFF, []) | x # xs \<Rightarrow> (x, xs)),
     bus_select = \<lambda>b xs. xs, bus_ms = \<lambda>xs. 0 \<rparr>"

definition card_script :: "u8 list" where
  "card_script = replicate 21 0xFF @ [1] @ replicate 8 0xFF @ [1, 0, 0, 1, 0xAA] @ replicate 12 0xFF @ [1] @
     replicate 7 0xFF @ [0] @ replicate 12 0xFF @ [0, 0x40, 0, 0, 0] @ replicate 12 0xFF @ [0, 0xFE] @
     replicate 18 7 @ replicate 12 0xFF @ [0, 0xFE] @ replicate 18 65 @ replicate 2 0xFF"


end
