(* ===== verification/Sdmmc_Transfer.thy ===== *)
theory Sdmmc_Transfer
  imports Sdmmc
begin

text \<open>
  The transfers of 16 bytes and more over the serial interface of the SD card (\<^verbatim>\<open>warp/wem/sdmmc.c\<close>):
  two interrupts move the bytes between one shared buffer and the two hardware FIFOs while the task yields.
  The hardware between two steps of the code is a list of events: a byte that is shifted out and in, and the
  interrupts.
\<close>

section \<open>State\<close>

definition SDMMC_FIFO_SIZE :: nat where "SDMMC_FIFO_SIZE = 16"

record 'c transfer =
  sdmmc_spi_buffer :: "u8 list"
  sdmmc_spi_miso_index :: u16
  sdmmc_spi_mosi_index :: u16
  sdmmc_spi_data_length :: u16
  tx_fifo :: "u8 list"
  rx_fifo :: "u8 list"
  card :: 'c

section \<open>Interrupts\<close>

fun miso_read :: "nat \<Rightarrow> 'c transfer \<Rightarrow> 'c transfer option" where
  "miso_read 0 s = Some s"
| "miso_read (Suc n) s = (case rx_fifo s of
       [] \<Rightarrow> None
     | b # bs \<Rightarrow> do {
         buf \<leftarrow> arr_set (sdmmc_spi_buffer s) (unat (sdmmc_spi_miso_index s)) b;
         miso_read n (s \<lparr> rx_fifo := bs, sdmmc_spi_buffer := buf, sdmmc_spi_miso_index := sdmmc_spi_miso_index s + 1 \<rparr>)
       })"

definition sdmmc_miso_irq_handler :: "'c transfer \<Rightarrow> 'c transfer option" where
  "sdmmc_miso_irq_handler s = (let amount = length (rx_fifo s) in miso_read amount s)"

fun mosi_write :: "nat \<Rightarrow> 'c transfer \<Rightarrow> 'c transfer option" where
  "mosi_write 0 s = Some s"
| "mosi_write (Suc n) s = do {
     b \<leftarrow> arr_get (sdmmc_spi_buffer s) (unat (sdmmc_spi_mosi_index s));
     mosi_write n (s \<lparr> tx_fifo := tx_fifo s @ [b], sdmmc_spi_mosi_index := sdmmc_spi_mosi_index s + 1 \<rparr>)
   }"

definition sdmmc_mosi_irq_handler :: "'c transfer \<Rightarrow> 'c transfer option" where
  "sdmmc_mosi_irq_handler s =
     (let to_send = sdmmc_spi_data_length s - sdmmc_spi_mosi_index s;
          fifo_level = min (SDMMC_FIFO_SIZE - length (tx_fifo s)) (SDMMC_FIFO_SIZE - length (rx_fifo s));
          amount = min (unat to_send) fifo_level
      in mosi_write amount s)"

text \<open>The hardware exchanges the first byte of the transmit FIFO; what comes back is lost when the receive
  FIFO is full.\<close>

definition shift :: "'c bus \<Rightarrow> 'c transfer \<Rightarrow> 'c transfer" where
  "shift bus s = (case tx_fifo s of
       [] \<Rightarrow> s
     | b # bs \<Rightarrow> let (r, c) = bus_xfer bus b (card s) in
         s \<lparr> tx_fifo := bs, card := c, rx_fifo := if length (rx_fifo s) < SDMMC_FIFO_SIZE then rx_fifo s @ [r] else rx_fifo s \<rparr>)"

datatype event = Shift | Miso_Irq | Mosi_Irq

definition step :: "'c bus \<Rightarrow> event \<Rightarrow> 'c transfer \<Rightarrow> 'c transfer option" where
  "step bus e s = (case e of
       Shift \<Rightarrow> Some (shift bus s)
     | Miso_Irq \<Rightarrow> sdmmc_miso_irq_handler s
     | Mosi_Irq \<Rightarrow> sdmmc_mosi_irq_handler s)"

fun steps :: "'c bus \<Rightarrow> event list \<Rightarrow> 'c transfer \<Rightarrow> 'c transfer option" where
  "steps bus [] s = Some s"
| "steps bus (e # es) s = Option.bind (step bus e s) (steps bus es)"

section \<open>The transfer\<close>

text \<open>A round of the loop has the events during its yield and whether the time has passed after it. The
  result is None while the loop has not ended within the given rounds.\<close>

definition transfer_pending :: "'c transfer \<Rightarrow> bool" where
  "transfer_pending s \<longleftrightarrow> sdmmc_spi_miso_index s < sdmmc_spi_data_length s \<or>
     sdmmc_spi_mosi_index s < sdmmc_spi_data_length s"

fun transceive_loop :: "'c bus \<Rightarrow> (event list \<times> bool) list \<Rightarrow> 'c transfer \<Rightarrow> (bool option \<times> 'c transfer) option" where
  "transceive_loop bus [] s = Some (if transfer_pending s then None else Some True, s)"
| "transceive_loop bus ((es, late) # rs) s =
     (if transfer_pending s then do {
        s1 \<leftarrow> steps bus es s;
        s2 \<leftarrow> (if unat (sdmmc_spi_data_length s1) - unat (sdmmc_spi_miso_index s1) \<le> 8 then sdmmc_miso_irq_handler s1
              else Some s1);
        s3 \<leftarrow> (if length (tx_fifo s2) < 8 then sdmmc_mosi_irq_handler s2 else Some s2);
        if late then Some (Some False, s3) else transceive_loop bus rs s3
      }
      else Some (Some True, s))"

definition sdmmc_spi_transceive_async ::
  "'c bus \<Rightarrow> (event list \<times> bool) list \<Rightarrow> u8 list option \<Rightarrow> nat \<Rightarrow> 'c transfer \<Rightarrow> (bool option \<times> u8 list \<times> 'c transfer) option" where
  "sdmmc_spi_transceive_async bus rounds data_mosi len s =
     (if len \<le> length (sdmmc_spi_buffer s) then do {
        let data = (case data_mosi of Some d \<Rightarrow> take len d | None \<Rightarrow> replicate len 0xFF);
        let s1 = s \<lparr> sdmmc_spi_buffer := data @ drop len (sdmmc_spi_buffer s), sdmmc_spi_miso_index := 0,
              sdmmc_spi_mosi_index := 0, sdmmc_spi_data_length := of_nat len \<rparr>;
        s2 \<leftarrow> sdmmc_mosi_irq_handler s1;
        (ret, s3) \<leftarrow> transceive_loop bus rounds s2;
        Some (ret, take len (sdmmc_spi_buffer s3),
          s3 \<lparr> sdmmc_spi_miso_index := 0, sdmmc_spi_mosi_index := 0, sdmmc_spi_data_length := 0 \<rparr>)
      }
      else None)"

section \<open>Interleavings\<close>

text \<open>What the bus answers to a sequence of bytes, and the card after it.\<close>

fun xfers :: "'c bus \<Rightarrow> u8 list \<Rightarrow> 'c \<Rightarrow> u8 list \<times> 'c" where
  "xfers bus [] c = ([], c)"
| "xfers bus (b # bs) c = (let (r, c1) = bus_xfer bus b c; (rs, c2) = xfers bus bs c1 in (r # rs, c2))"

lemma xfers_append: "xfers bus (xs @ ys) c =
    (fst (xfers bus xs c) @ fst (xfers bus ys (snd (xfers bus xs c))), snd (xfers bus ys (snd (xfers bus xs c))))"
  by (induction xs arbitrary: c) (simp_all add: split_beta Let_def)

lemma xfers_write: "sdmmc_spi_write bus bs c = snd (xfers bus bs c)"
  by (induction bs arbitrary: c) (simp_all add: split_beta Let_def)

lemma xfers_read: "sdmmc_spi_read bus n c = xfers bus (replicate n 0xFF) c"
  by (induction n arbitrary: c) (simp_all add: split_beta Let_def)

lemma length_xfers [simp]: "length (fst (xfers bus bs c)) = length bs"
  by (induction bs arbitrary: c) (simp_all add: split_beta Let_def)

text \<open>The number of bytes that have been exchanged, and the invariant of a transfer of the given data.\<close>

definition exchanged :: "'c transfer \<Rightarrow> nat" where
  "exchanged s = unat (sdmmc_spi_mosi_index s) - length (tx_fifo s)"

definition transfer_inv :: "'c bus \<Rightarrow> u8 list \<Rightarrow> 'c \<Rightarrow> 'c transfer \<Rightarrow> bool" where
  "transfer_inv bus data c0 s \<longleftrightarrow> length (sdmmc_spi_buffer s) = 512 \<and> length data \<le> 512 \<and>
     unat (sdmmc_spi_data_length s) = length data \<and>
     unat (sdmmc_spi_miso_index s) + length (rx_fifo s) \<le> exchanged s \<and>
     length (tx_fifo s) \<le> unat (sdmmc_spi_mosi_index s) \<and> unat (sdmmc_spi_mosi_index s) \<le> length data \<and>
     tx_fifo s = drop (exchanged s) (take (unat (sdmmc_spi_mosi_index s)) data) \<and>
     card s = snd (xfers bus (take (exchanged s) data) c0) \<and>
     drop (unat (sdmmc_spi_mosi_index s)) (take (length data) (sdmmc_spi_buffer s)) =
       drop (unat (sdmmc_spi_mosi_index s)) data \<and>
     (unat (sdmmc_spi_miso_index s) + length (rx_fifo s) = exchanged s \<longrightarrow>
       take (unat (sdmmc_spi_miso_index s)) (sdmmc_spi_buffer s) @ rx_fifo s = fst (xfers bus (take (exchanged s) data) c0))"

lemma miso_read_inv:
  "transfer_inv bus data c0 s \<Longrightarrow> n \<le> length (rx_fifo s) \<Longrightarrow> \<exists>s1. miso_read n s = Some s1 \<and> transfer_inv bus data c0 s1"
proof (induction n s rule: miso_read.induct)
  case (2 n s)
  then obtain b bs where rx: "rx_fifo s = b # bs" by (cases "rx_fifo s") auto
  let ?i = "unat (sdmmc_spi_miso_index s)"
  let ?s1 = "s \<lparr> rx_fifo := bs, sdmmc_spi_buffer := (sdmmc_spi_buffer s)[?i := b], sdmmc_spi_miso_index := sdmmc_spi_miso_index s + 1 \<rparr>"
  have i: "?i < unat (sdmmc_spi_mosi_index s)" "unat (sdmmc_spi_mosi_index s) \<le> 512"
    using 2(2) rx by (auto simp: transfer_inv_def exchanged_def)
  then have i1: "unat (sdmmc_spi_miso_index s + 1) = Suc ?i" by (rule_tac unat_Suc_no_wrap)
  have "take (Suc ?i) ((sdmmc_spi_buffer s)[?i := b]) = take ?i (sdmmc_spi_buffer s) @ [b]"
    using i 2(2) by (simp add: take_Suc_conv_app_nth transfer_inv_def)
  then have "transfer_inv bus data c0 ?s1"
    using 2(2) i rx by (auto simp: transfer_inv_def i1 exchanged_def drop_update_cancel take_update_swap)
  from 2(1)[OF rx _ this] 2(3) rx i show ?case
    using 2(2) by (simp add: arr_set_def transfer_inv_def)
qed simp

lemma mosi_write_inv:
  "transfer_inv bus data c0 s \<Longrightarrow> unat (sdmmc_spi_mosi_index s) + n \<le> length data \<Longrightarrow>
   \<exists>s1. mosi_write n s = Some s1 \<and> transfer_inv bus data c0 s1"
proof (induction n s rule: mosi_write.induct)
  case (2 n s)
  let ?i = "unat (sdmmc_spi_mosi_index s)"
  let ?s1 = "s \<lparr> tx_fifo := tx_fifo s @ [sdmmc_spi_buffer s ! ?i], sdmmc_spi_mosi_index := sdmmc_spi_mosi_index s + 1 \<rparr>"
  have i: "?i < length data" "length data \<le> 512" "length (sdmmc_spi_buffer s) = 512"
    using 2(2,3) by (auto simp: transfer_inv_def)
  then have i1: "unat (sdmmc_spi_mosi_index s + 1) = Suc ?i"
    by (rule_tac b = 512 in unat_Suc_no_wrap) simp
  have eq: "drop ?i (take (length data) (sdmmc_spi_buffer s)) = drop ?i data"
    using 2(2) by (simp add: transfer_inv_def)
  then have d: "drop (Suc ?i) (take (length data) (sdmmc_spi_buffer s)) = drop (Suc ?i) data"
    by (metis drop_Suc tl_drop drop_drop tl_drop)
  have b: "sdmmc_spi_buffer s ! ?i = data ! ?i"
    using arg_cong[OF eq, of hd] i by (simp add: hd_drop_conv_nth)
  have e: "exchanged ?s1 = exchanged s" by (simp add: exchanged_def i1)
  have "exchanged s \<le> ?i" by (simp add: exchanged_def)
  then have "transfer_inv bus data c0 ?s1"
    using 2(2) i d b unfolding transfer_inv_def e by (simp add: i1 take_Suc_conv_app_nth)
  from 2(1)[OF _ this] 2(3) i show ?case by (auto simp: arr_get_def i1)
qed simp

lemma shift_inv: "transfer_inv bus data c0 s \<Longrightarrow> transfer_inv bus data c0 (shift bus s)"
proof (cases "tx_fifo s")
  case (Cons b bs)
  assume inv: "transfer_inv bus data c0 s"
  let ?s1 = "shift bus s" and ?i = "unat (sdmmc_spi_mosi_index s)" and ?e = "exchanged s"
  have le: "length (tx_fifo s) \<le> ?i" "?i \<le> length data" using inv by (auto simp: transfer_inv_def)
  have e: "exchanged ?s1 = Suc ?e" "?e < ?i"
    using Cons le by (auto simp: exchanged_def shift_def split_beta Let_def)
  have tx: "b # bs = drop ?e (take ?i data)" using inv Cons by (simp add: transfer_inv_def)
  then have b: "b = data ! ?e" and bs: "bs = drop (Suc ?e) (take ?i data)"
    using e le by (simp_all add: Cons_nth_drop_Suc[symmetric])
  have s1: "?s1 = s \<lparr> tx_fifo := bs, card := snd (bus_xfer bus b (card s)),
      rx_fifo := if length (rx_fifo s) < SDMMC_FIFO_SIZE then rx_fifo s @ [fst (bus_xfer bus b (card s))] else rx_fifo s \<rparr>"
    by (simp add: shift_def Cons split_beta Let_def)
  have x: "xfers bus (take (Suc ?e) data) c0 =
      (fst (xfers bus (take ?e data) c0) @ [fst (bus_xfer bus b (card s))], snd (bus_xfer bus b (card s)))"
    using inv e le by (simp add: take_Suc_conv_app_nth xfers_append b split_beta Let_def transfer_inv_def)
  have "length (tx_fifo s) = Suc (length bs)" by (simp add: Cons)
  then show ?thesis
    using inv x bs le unfolding transfer_inv_def e(1) by (auto simp: s1)
qed (simp add: shift_def)

lemma miso_irq_inv: "transfer_inv bus data c0 s \<Longrightarrow>
    \<exists>s1. sdmmc_miso_irq_handler s = Some s1 \<and> transfer_inv bus data c0 s1"
  using miso_read_inv[of bus data c0 s "length (rx_fifo s)"] by (simp add: sdmmc_miso_irq_handler_def)

lemma mosi_irq_inv: "transfer_inv bus data c0 s \<Longrightarrow>
    \<exists>s1. sdmmc_mosi_irq_handler s = Some s1 \<and> transfer_inv bus data c0 s1"
proof -
  assume inv: "transfer_inv bus data c0 s"
  then have "unat (sdmmc_spi_mosi_index s) \<le> unat (sdmmc_spi_data_length s)"
    and "unat (sdmmc_spi_data_length s) = length data" by (simp_all add: transfer_inv_def)
  then have "unat (sdmmc_spi_mosi_index s) + unat (sdmmc_spi_data_length s - sdmmc_spi_mosi_index s) \<le> length data"
    by (simp add: unat_sub word_le_nat_alt)
  then have "unat (sdmmc_spi_mosi_index s) + min (unat (sdmmc_spi_data_length s - sdmmc_spi_mosi_index s)) k \<le> length data" for k
    by (rule le_trans[rotated]) simp
  from mosi_write_inv[OF inv this] show ?thesis by (simp add: sdmmc_mosi_irq_handler_def Let_def)
qed

lemma steps_inv: "transfer_inv bus data c0 s \<Longrightarrow>
    \<exists>s1. steps bus es s = Some s1 \<and> transfer_inv bus data c0 s1"
proof (induction es arbitrary: s)
  case (Cons e es)
  have "\<exists>s1. step bus e s = Some s1 \<and> transfer_inv bus data c0 s1"
    using Cons(2) shift_inv miso_irq_inv mosi_irq_inv by (cases e) (auto simp: step_def)
  with Cons(1) show ?case by auto
qed simp

lemma transceive_loop_inv: "transfer_inv bus data c0 s \<Longrightarrow>
    \<exists>r s1. transceive_loop bus rounds s = Some (r, s1) \<and> transfer_inv bus data c0 s1 \<and>
      (r = Some True \<longrightarrow> \<not> transfer_pending s1)"
proof (induction bus rounds s rule: transceive_loop.induct)
  case (2 bus es late rounds s)
  obtain s1 where 1: "steps bus es s = Some s1" "transfer_inv bus data c0 s1" using steps_inv[OF 2(2), of es] by blast
  let ?r2 = "if unat (sdmmc_spi_data_length s1) - unat (sdmmc_spi_miso_index s1) \<le> 8 then sdmmc_miso_irq_handler s1 else Some s1"
  have "\<exists>s2. ?r2 = Some s2 \<and> transfer_inv bus data c0 s2" using miso_irq_inv[OF 1(2)] 1(2) by simp
  then obtain s2 where s2: "?r2 = Some s2" "transfer_inv bus data c0 s2" by blast
  let ?r3 = "if length (tx_fifo s2) < 8 then sdmmc_mosi_irq_handler s2 else Some s2"
  have "\<exists>s3. ?r3 = Some s3 \<and> transfer_inv bus data c0 s3" using mosi_irq_inv[OF s2(2)] s2(2) by simp
  then obtain s3 where s3: "?r3 = Some s3" "transfer_inv bus data c0 s3" by blast
  show ?case
  proof (cases "transfer_pending s \<and> \<not> late")
    case True
    then have "transceive_loop bus ((es, late) # rounds) s = transceive_loop bus rounds s3"
      unfolding transceive_loop.simps 1(1) bind.bind_lunit s2(1) s3(1) by simp
    with 2(1)[OF _ 1(1) s2(1) s3(1) _ s3(2)] True show ?thesis by simp
  next
    case False
    then have "transceive_loop bus ((es, late) # rounds) s =
        (if transfer_pending s then Some (Some False, s3) else Some (Some True, s))"
      unfolding transceive_loop.simps 1(1) bind.bind_lunit s2(1) s3(1) by simp
    with 2(2) s3(2) show ?thesis by auto
  qed
qed simp

lemma transfer_done:
  assumes "transfer_inv bus data c0 s" and "\<not> transfer_pending s"
  shows "(take (length data) (sdmmc_spi_buffer s), card s) = xfers bus data c0"
proof -
  have "unat (sdmmc_spi_mosi_index s) = length data" "unat (sdmmc_spi_miso_index s) = length data"
    "exchanged s = length data" "length (rx_fifo s) = 0"
    using assms unfolding transfer_inv_def transfer_pending_def exchanged_def word_less_nat_alt by linarith+
  then show ?thesis using assms(1) by (cases "xfers bus data c0") (simp add: transfer_inv_def)
qed

section \<open>Results\<close>

lemma mosi_write_numeral: "mosi_write (numeral k) s = do {
    b \<leftarrow> arr_get (sdmmc_spi_buffer s) (unat (sdmmc_spi_mosi_index s));
    mosi_write (pred_numeral k) (s \<lparr> tx_fifo := tx_fifo s @ [b], sdmmc_spi_mosi_index := sdmmc_spi_mosi_index s + 1 \<rparr>)
  }"
  by (simp add: numeral_eq_Suc)

text \<open>C15. A transfer through the interrupts of at most 512 bytes, started with empty FIFOs, never leaves
  the shared buffer, and when it reports success the card has seen exactly the bytes of the transfer that
  waits, and the bytes received are those: for every interleaving of the shifting hardware, the two
  interrupts and the loop, also when the receive FIFO was full and lost bytes (such a transfer never
  succeeds).\<close>
theorem sdmmc_transfer_interleaved:
  assumes buffer: "length (sdmmc_spi_buffer s) = 512" and empty: "tx_fifo s = []" "rx_fifo s = []"
    and len: "len \<le> 512" "\<And>d. data_mosi = Some d \<Longrightarrow> length d = len"
  shows "\<exists>ret bs s1. sdmmc_spi_transceive_async bus rounds data_mosi len s = Some (ret, bs, s1) \<and>
    (ret = Some True \<longrightarrow> (case data_mosi of
         Some d \<Rightarrow> card s1 = sdmmc_spi_write bus d (card s)
       | None \<Rightarrow> (bs, card s1) = sdmmc_spi_read bus len (card s)))"
proof -
  define data where "data = (case data_mosi of Some d \<Rightarrow> take len d | None \<Rightarrow> replicate len 0xFF)"
  have l: "length data = len" using len by (auto simp: data_def split: option.split)
  let ?s = "s \<lparr> sdmmc_spi_buffer := data @ drop len (sdmmc_spi_buffer s), sdmmc_spi_miso_index := 0,
     sdmmc_spi_mosi_index := 0, sdmmc_spi_data_length := of_nat len \<rparr>"
  have "transfer_inv bus data (card s) ?s"
    using buffer empty len(1) by (simp add: transfer_inv_def exchanged_def l unat_of_nat)
  from mosi_irq_inv[OF this] obtain s2 where 2: "sdmmc_mosi_irq_handler ?s = Some s2" "transfer_inv bus data (card s) s2"
    by blast
  from transceive_loop_inv[OF 2(2), of rounds] obtain ret s3 where
    3: "transceive_loop bus rounds s2 = Some (ret, s3)" "transfer_inv bus data (card s) s3"
      "ret = Some True \<longrightarrow> \<not> transfer_pending s3" by blast
  have "sdmmc_spi_transceive_async bus rounds data_mosi len s = Some (ret, take len (sdmmc_spi_buffer s3),
      s3 \<lparr> sdmmc_spi_miso_index := 0, sdmmc_spi_mosi_index := 0, sdmmc_spi_data_length := 0 \<rparr>)"
    using buffer len(1) 2(1) 3(1)
    by (simp add: sdmmc_spi_transceive_async_def data_def[symmetric])
  with transfer_done[OF 3(2)] 3(3) len(2) show ?thesis
    by (auto simp: l xfers_write xfers_read data_def split: option.splits) (metis prod.sel)+
qed

definition echo_bus :: "u8 list bus" where
  "echo_bus = \<lparr> bus_xfer = (\<lambda>b c. (b + 1, c @ [b])), bus_select = (\<lambda>_ c. c), bus_ms = (\<lambda>_. 0) \<rparr>"

definition idle_transfer :: "u8 list transfer" where
  "idle_transfer = \<lparr> sdmmc_spi_buffer = replicate 512 0, sdmmc_spi_miso_index = 0, sdmmc_spi_mosi_index = 0,
     sdmmc_spi_data_length = 0, tx_fifo = [], rx_fifo = [], card = [] \<rparr>"

text \<open>Two bytes: the first comes back during the yield of the first round, the second in the second.\<close>
theorem sdmmc_transfer_interleaved_witness:
  "\<exists>ret bs s1. sdmmc_spi_transceive_async echo_bus [([Shift, Miso_Irq], False), ([Mosi_Irq, Shift], False)] (Some [5, 7]) 2
     idle_transfer = Some (ret, bs, s1) \<and> ret = Some True \<and> bs = [6, 8] \<and> card s1 = [5, 7]"
proof -
  let ?rounds = "[([Shift, Miso_Irq], False), ([Mosi_Irq, Shift], False)]"
  obtain s1 where run: "sdmmc_spi_transceive_async echo_bus ?rounds (Some [5, 7]) 2 idle_transfer = Some (Some True, [6, 8], s1)"
    by (simp add: sdmmc_spi_transceive_async_def idle_transfer_def sdmmc_mosi_irq_handler_def sdmmc_miso_irq_handler_def
        arr_get_def arr_set_def transfer_pending_def step_def shift_def echo_bus_def SDMMC_FIFO_SIZE_def
        mosi_write_numeral Let_def)
  with sdmmc_transfer_interleaved[of idle_transfer 2 "Some [5, 7]" echo_bus ?rounds]
  have "card s1 = sdmmc_spi_write echo_bus [5, 7] (card idle_transfer)"
    by (auto simp: idle_transfer_def)
  then have "card s1 = [5, 7]" by (simp add: echo_bus_def idle_transfer_def)
  with run show ?thesis by blast
qed

end
