(* ===== verification/Sd_Tick.thy ===== *)
theory Sd_Tick
  imports Sd_Stream Data_Storage
begin

text \<open>
  The SD task of \<^verbatim>\<open>warp/wem/sd.c\<close> for the second hardware version: initialisation and
  one round of its loop. What the round takes from outside (the times it reads, the outcome of the
  SD card initialisation, what the rest of the firmware does at its yields) is a record.
\<close>

section \<open>State\<close>

abbreviation (input) SDMMC_ERROR_OK :: u32 where "SDMMC_ERROR_OK \<equiv> 0"
abbreviation (input) SDMMC_ERROR_COUNT_TO_HIGH :: u32 where "SDMMC_ERROR_COUNT_TO_HIGH \<equiv> 41"

text \<open>The registers of the card that the initialisation reads; the device size has 6 and 16 bits.\<close>

record card_info =
  ci_type :: u8
  ci_dev_size_high :: u32
  ci_dev_size_low :: u32
  ci_product_rev :: u8
  ci_product_name :: "u8 list"
  ci_manufacturer_id :: u8

record ('fs, 'f) sd_task =
  t_sd :: "('fs, 'f) sd"
  sd_status :: u32
  lfs_status :: u32
  sdmmc_init_last :: u32
  sector_size :: u16
  sector_count :: u32
  card_type :: u32
  product_rev :: u8
  product_name :: "u8 list"
  manufacturer_id :: u8
  block_count :: u32
  wallbox_queue :: "wallbox_data_point point_queue"
  wallbox_daily_queue :: "wallbox_daily_data_point point_queue"
  energy_manager_queue :: "energy_manager_data_point point_queue"
  energy_manager_daily_queue :: "energy_manager_daily_data_point point_queue"
  wallbox_getter :: getter
  wallbox_daily_getter :: getter
  energy_manager_getter :: getter
  energy_manager_daily_getter :: getter
  sd_lfs_format :: bool
  was_detected :: bool

definition zero_key :: file_key where
  "zero_key = \<lparr> k_wallbox_id = 0, k_year = 0, k_month = 0, k_day = 0, k_postfix = 0 \<rparr>"

definition zero_5min :: energy_manager_5min_data where
  "zero_5min = \<lparr> em_flags = 0, em_power_grid = 0, em_power_general = replicate 6 0, em_price = 0 \<rparr>"

definition zero_1day :: energy_manager_1day_data where
  "zero_1day = \<lparr> em_energy_grid_in = 0, em_energy_grid_out = 0, em_energy_general_in = replicate 6 0,
     em_energy_general_out = replicate 6 0, em_day_price = 0 \<rparr>"

definition zero_getter :: "nat \<Rightarrow> getter" where
  "zero_getter n = \<lparr> g_request = \<lparr> r_wallbox_id = 0, r_year = 0, r_month = 0, r_day = 0, r_hour = 0, r_minute = 0,
     r_amount = 0 \<rparr>, g_new = False, g_cb_length = 0, g_cb_offset = 0, g_cb_data = replicate n 0, g_cb_new = False \<rparr>"

text \<open>The structure after memset. The card keeps its contents; f0 is a file structure of zeros. The
  flags that are not part of the structure stay.\<close>

definition cleared_task :: "'f \<Rightarrow> 'fs \<Rightarrow> bool \<Rightarrow> bool \<Rightarrow> ('fs, 'f) sd_task" where
  "cleared_task f0 fs format detected = \<lparr>
     t_sd = \<lparr> sd_fs = fs, buffered_read_is_open = False, buffered_read_current_err = 0,
       buffered_read_current = zero_key, buffered_read_file = f0,
       file_no_exist_cache = replicate SD_FILE_NO_EXIST_CACHE_LENGTH \<lparr> c_wallbox_id = 0, c_ymdp = 0 \<rparr>,
       file_no_exist_index = 0, sd_rw_error_count = 0 \<rparr>,
     sd_status = 0, lfs_status = 0, sdmmc_init_last = 0, sector_size = 0, sector_count = 0, card_type = 0,
     product_rev = 0, product_name = replicate 5 0, manufacturer_id = 0, block_count = 0,
     wallbox_queue = \<lparr> pq_points = replicate SD_WALLBOX_DATA_POINT_LENGTH \<lparr> wp_wallbox_id = 0, wp_year = 0,
       wp_month = 0, wp_day = 0, wp_hour = 0, wp_minute = 0, wp_flags = 0, wp_power = 0 \<rparr>, pq_end = 0 \<rparr>,
     wallbox_daily_queue = \<lparr> pq_points = replicate SD_WALLBOX_DAILY_DATA_POINT_LENGTH \<lparr> wd_wallbox_id = 0,
       wd_year = 0, wd_month = 0, wd_day = 0, wd_energy = 0 \<rparr>, pq_end = 0 \<rparr>,
     energy_manager_queue = \<lparr> pq_points = replicate SD_ENERGY_MANAGER_DATA_POINT_LENGTH \<lparr> ep_year = 0,
       ep_month = 0, ep_day = 0, ep_hour = 0, ep_minute = 0, ep_data = zero_5min \<rparr>, pq_end = 0 \<rparr>,
     energy_manager_daily_queue = \<lparr> pq_points = replicate SD_ENERGY_MANAGER_DAILY_DATA_POINT_LENGTH \<lparr> ed_year = 0,
       ed_month = 0, ed_day = 0, ed_data = zero_1day \<rparr>, pq_end = 0 \<rparr>,
     wallbox_getter = zero_getter (SD_WALLBOX_DATA_POINT_PER_CB * WB_5MIN_SIZE),
     wallbox_daily_getter = zero_getter (SD_WALLBOX_DAILY_DATA_POINT_PER_CB * WB_1DAY_SIZE),
     energy_manager_getter = zero_getter (SD_ENERGY_MANAGER_DATA_POINT_PER_CB * EM_5MIN_SIZE),
     energy_manager_daily_getter = zero_getter (SD_ENERGY_MANAGER_DAILY_DATA_POINT_PER_CB * EM_1DAY_SIZE),
     sd_lfs_format = format, was_detected = detected \<rparr>"

section \<open>Initialisation\<close>

definition card_sector_count :: "u32 \<Rightarrow> u32 \<Rightarrow> u32" where
  "card_sector_count dev_size_high dev_size_low = push_bit 16 dev_size_high OR push_bit 10 (dev_size_low + 1)"

definition abs_status :: "int \<Rightarrow> u32" where
  "abs_status err = of_int \<bar>err\<bar>"

definition map_fs :: "('fs \<Rightarrow> 'fs) \<Rightarrow> ('fs, 'f) sd_task \<Rightarrow> ('fs, 'f) sd_task" where
  "map_fs f t = t \<lparr> t_sd := t_sd t \<lparr> sd_fs := f (sd_fs (t_sd t)) \<rparr> \<rparr>"

text \<open>The boot counter is read, incremented and written back; no error changes what happens.\<close>

definition count_boot :: "('fs, 'f) lfs_ops \<Rightarrow> 'fs \<Rightarrow> 'fs" where
  "count_boot ops fs =
     (let (_, f1, fs1) = lfs_file_opencfg ops ''boot_count'' LFS_O_CREAT_RDWR fs;
          ((_, bytes), f2, fs2) = lfs_file_read ops f1 4 fs1;
          b = bytes @ drop (length bytes) [0, 0, 0, 0];
          boot_count = un_le32 (b ! 0) (b ! 1) (b ! 2) (b ! 3) + 1;
          (_, f3, fs3) = lfs_file_rewind ops f2 fs2;
          (_, f4, fs4) = lfs_file_write ops f3 (le32 boot_count) fs3;
          (_, _, fs5) = lfs_file_close ops f4 fs4
      in fs5)"

definition mount_or_format :: "('fs, 'f) lfs_ops \<Rightarrow> ('fs, 'f) sd_task \<Rightarrow> bool \<times> ('fs, 'f) sd_task" where
  "mount_or_format ops t =
     (let (err, fs) = lfs_mount ops (sd_fs (t_sd t));
          t1 = map_fs (\<lambda>_. fs) t \<lparr> lfs_status := abs_status err \<rparr>
      in if err = LFS_ERR_OK then (True, t1)
         else
           let (err, fs) = lfs_format ops fs; t2 = map_fs (\<lambda>_. fs) t1 in
           if err \<noteq> LFS_ERR_OK then (False, t2 \<lparr> lfs_status := abs_status err \<rparr>)
           else
             let (err, fs) = lfs_mount ops fs; t3 = map_fs (\<lambda>_. fs) t2 in
             if err \<noteq> LFS_ERR_OK then (False, t3 \<lparr> lfs_status := abs_status err \<rparr>)
             else (True, t3))"

definition sd_init_task ::
  "('fs, 'f) lfs_ops \<Rightarrow> 'f \<Rightarrow> u32 \<times> card_info \<Rightarrow> u32 \<Rightarrow> ('fs, 'f) sd_task \<Rightarrow> ('fs, 'f) sd_task" where
  "sd_init_task ops f0 sdmmc now t =
     (let (sdmmc_error, info) = sdmmc;
          t1 = cleared_task f0 (sd_fs (t_sd t)) (sd_lfs_format t) (was_detected t) \<lparr> sd_status := 0xFFFFFFFF, lfs_status := 0xFFFFFFFF, block_count := 15333376 \<rparr>
      in if sdmmc_error \<noteq> SDMMC_ERROR_OK then t1 \<lparr> sd_status := sdmmc_error, sdmmc_init_last := now \<rparr>
         else
           let n = card_sector_count (ci_dev_size_high info) (ci_dev_size_low info);
               t2 = t1 \<lparr> sdmmc_init_last := 0, sector_size := 512, sector_count := n, block_count := n,
                 product_rev := ci_product_rev info, manufacturer_id := ci_manufacturer_id info,
                 card_type := ucast (ci_type info), product_name := ci_product_name info \<rparr>;
               (err, t3) = (if sd_lfs_format t2
                 then let (err, fs) = lfs_format ops (sd_fs (t_sd t2)) in
                   (err, map_fs (\<lambda>_. fs) t2 \<lparr> sd_lfs_format := False \<rparr>)
                 else (LFS_ERR_OK, t2))
           in if err \<noteq> LFS_ERR_OK then t3 \<lparr> lfs_status := abs_status err, sd_status := sdmmc_error \<rparr>
              else
                let (mounted, t4) = mount_or_format ops t3 in
                if mounted then map_fs (count_boot ops) t4 \<lparr> sd_status := sdmmc_error \<rparr>
                else t4 \<lparr> sd_status := sdmmc_error \<rparr>)"

section \<open>The handlers\<close>

definition sd_tick_task_handle_wallbox_data ::
  "('fs, 'f) lfs_ops \<Rightarrow> (wallbox_data_point point_queue \<Rightarrow> wallbox_data_point point_queue) \<Rightarrow> piece_env list \<Rightarrow>
   ('fs, 'f) sd_task \<Rightarrow> ('fs, 'f) sd_task option" where
  "sd_tick_task_handle_wallbox_data ops meanwhile envs t = do {
     (q, s) \<leftarrow> handle_setter SD_WALLBOX_DATA_POINT_LENGTH (\<lambda>p. sd_write_wallbox_data_point ops (wp_wallbox_id p)
         (wp_year p) (wp_month p) (wp_day p) (wp_hour p) (wp_minute p)
         \<lparr> wb_flags = wp_flags p, wb_power = wp_power p \<rparr>) meanwhile (wallbox_queue t, t_sd t);
     (_, g, s) \<leftarrow> handle_getter ops (wallbox_kind ops) envs (wallbox_getter t, s);
     Some (t \<lparr> wallbox_queue := q, wallbox_getter := g, t_sd := s \<rparr>)
   }"

definition sd_tick_task_handle_wallbox_daily_data ::
  "('fs, 'f) lfs_ops \<Rightarrow> (wallbox_daily_data_point point_queue \<Rightarrow> wallbox_daily_data_point point_queue) \<Rightarrow>
   piece_env list \<Rightarrow> ('fs, 'f) sd_task \<Rightarrow> ('fs, 'f) sd_task option" where
  "sd_tick_task_handle_wallbox_daily_data ops meanwhile envs t = do {
     (q, s) \<leftarrow> handle_setter SD_WALLBOX_DAILY_DATA_POINT_LENGTH (\<lambda>p. sd_write_wallbox_daily_data_point ops
         (wd_wallbox_id p) (wd_year p) (wd_month p) (wd_day p) \<lparr> wb_energy = wd_energy p \<rparr>)
       meanwhile (wallbox_daily_queue t, t_sd t);
     (_, g, s) \<leftarrow> handle_getter ops (wallbox_daily_kind ops) envs (wallbox_daily_getter t, s);
     Some (t \<lparr> wallbox_daily_queue := q, wallbox_daily_getter := g, t_sd := s \<rparr>)
   }"

definition sd_tick_task_handle_energy_manager_data ::
  "('fs, 'f) lfs_ops \<Rightarrow> (energy_manager_data_point point_queue \<Rightarrow> energy_manager_data_point point_queue) \<Rightarrow>
   piece_env list \<Rightarrow> ('fs, 'f) sd_task \<Rightarrow> ('fs, 'f) sd_task option" where
  "sd_tick_task_handle_energy_manager_data ops meanwhile envs t = do {
     (q, s) \<leftarrow> handle_setter SD_ENERGY_MANAGER_DATA_POINT_LENGTH (\<lambda>p. sd_write_energy_manager_data_point ops
         (ep_year p) (ep_month p) (ep_day p) (ep_hour p) (ep_minute p) (ep_data p))
       meanwhile (energy_manager_queue t, t_sd t);
     (_, g, s) \<leftarrow> handle_getter ops (energy_manager_kind ops) envs (energy_manager_getter t, s);
     Some (t \<lparr> energy_manager_queue := q, energy_manager_getter := g, t_sd := s \<rparr>)
   }"

definition sd_tick_task_handle_energy_manager_daily_data ::
  "('fs, 'f) lfs_ops \<Rightarrow> (energy_manager_daily_data_point point_queue \<Rightarrow> energy_manager_daily_data_point point_queue) \<Rightarrow>
   piece_env list \<Rightarrow> ('fs, 'f) sd_task \<Rightarrow> ('fs, 'f) sd_task option" where
  "sd_tick_task_handle_energy_manager_daily_data ops meanwhile envs t = do {
     (q, s) \<leftarrow> handle_setter SD_ENERGY_MANAGER_DAILY_DATA_POINT_LENGTH (\<lambda>p. sd_write_energy_manager_daily_data_point ops
         (ed_year p) (ed_month p) (ed_day p) (ed_data p)) meanwhile (energy_manager_daily_queue t, t_sd t);
     (_, g, s) \<leftarrow> handle_getter ops (energy_manager_daily_kind ops) envs (energy_manager_daily_getter t, s);
     Some (t \<lparr> energy_manager_daily_queue := q, energy_manager_daily_getter := g, t_sd := s \<rparr>)
   }"

section \<open>The loop\<close>

record surroundings =
  now_detected :: u32
  now_reset :: u32
  now_retry :: u32
  now_init :: u32
  sdmmc_result :: "u32 \<times> card_info"
  queue_wallbox :: "wallbox_data_point point_queue \<Rightarrow> wallbox_data_point point_queue"
  queue_wallbox_daily :: "wallbox_daily_data_point point_queue \<Rightarrow> wallbox_daily_data_point point_queue"
  queue_energy_manager :: "energy_manager_data_point point_queue \<Rightarrow> energy_manager_data_point point_queue"
  queue_energy_manager_daily ::
    "energy_manager_daily_data_point point_queue \<Rightarrow> energy_manager_daily_data_point point_queue"
  take_wallbox :: "piece_env list"
  take_wallbox_daily :: "piece_env list"
  take_energy_manager :: "piece_env list"
  take_energy_manager_daily :: "piece_env list"

text \<open>One round of the loop, without the branches for a missing card: the variable that says whether a
  card is detected is the constant true.\<close>

definition sd_tick_round ::
  "('fs, 'f) lfs_ops \<Rightarrow> 'f \<Rightarrow> surroundings \<Rightarrow> ('fs, 'f) sd_task \<times> data_storage \<Rightarrow> (('fs, 'f) sd_task \<times> data_storage) option" where
  "sd_tick_round ops f0 su = (\<lambda>(t, d). do {
     let t1 = (if sd_lfs_format t then t \<lparr> t_sd := t_sd t \<lparr> sd_rw_error_count := 1000 \<rparr> \<rparr> else t);
     let t2 = (if \<not> was_detected t1 then t1 \<lparr> was_detected := True, sdmmc_init_last := now_detected su \<rparr> else t1);
     let t3 = (if 10 < sd_rw_error_count (t_sd t2)
       then map_fs (\<lambda>fs. snd (lfs_unmount ops fs)) t2
         \<lparr> t_sd := t_sd (map_fs (\<lambda>fs. snd (lfs_unmount ops fs)) t2) \<lparr> sd_rw_error_count := 0 \<rparr>,
           sdmmc_init_last := now_reset su - 1001, sd_status := SDMMC_ERROR_COUNT_TO_HIGH,
           lfs_status := SDMMC_ERROR_COUNT_TO_HIGH \<rparr>
       else t2);
     let t4 = (if sdmmc_init_last t3 \<noteq> 0 \<and> system_timer_is_time_elapsed_ms (now_retry su) (sdmmc_init_last t3) 1000
       then sd_init_task ops f0 (sdmmc_result su) (now_init su) t3 else t3);
     if sd_status t4 = SDMMC_ERROR_OK \<and> lfs_status t4 = 0 then do {
       t5 \<leftarrow> sd_tick_task_handle_wallbox_data ops (queue_wallbox su) (take_wallbox su) t4;
       t6 \<leftarrow> sd_tick_task_handle_wallbox_daily_data ops (queue_wallbox_daily su) (take_wallbox_daily su) t5;
       t7 \<leftarrow> sd_tick_task_handle_energy_manager_data ops (queue_energy_manager su) (take_energy_manager su) t6;
       t8 \<leftarrow> sd_tick_task_handle_energy_manager_daily_data ops (queue_energy_manager_daily su)
         (take_energy_manager_daily su) t7;
       (fs, d1) \<leftarrow> sd_tick_task_handle_storage ops (sd_fs (t_sd t8), d);
       Some (map_fs (\<lambda>_. fs) t8, d1)
     }
     else Some (t4, d)
   })"

text \<open>The task: what it does before its loop, and the rounds of the loop.\<close>

definition sd_tick_task_start :: "u32 \<Rightarrow> ('fs, 'f) sd_task \<Rightarrow> ('fs, 'f) sd_task" where
  "sd_tick_task_start now t = t \<lparr> sd_status := 0xFFFFFFFF, lfs_status := 0xFFFFFFFF, sdmmc_init_last := now \<rparr>"

fun sd_tick_rounds ::
  "('fs, 'f) lfs_ops \<Rightarrow> 'f \<Rightarrow> surroundings list \<Rightarrow> ('fs, 'f) sd_task \<times> data_storage \<Rightarrow>
   (('fs, 'f) sd_task \<times> data_storage) option" where
  "sd_tick_rounds ops f0 [] s = Some s"
| "sd_tick_rounds ops f0 (su # sus) s = do { s1 \<leftarrow> sd_tick_round ops f0 su s; sd_tick_rounds ops f0 sus s1 }"

section \<open>Properties\<close>

lemma or_nat_le_plus: "m OR n \<le> m + (n :: nat)"
proof -
  have "(int m AND int n) + (int m OR int n) = int m + int n" by (rule plus_and_or)
  moreover have "0 \<le> int m AND int n" by simp
  ultimately have "int m OR int n \<le> int m + int n" by linarith
  then show ?thesis unfolding of_nat_or_eq[symmetric] by linarith
qed

lemma capacity_gap: "0 < h \<Longrightarrow> c \<le> h * 65536 + (l + 1) * 1024 \<Longrightarrow> c < (h * 65536 + l + 1) * (1024 :: nat)"
  by simp

text \<open>The sector count of the initialisation is the capacity of the card, (C\_SIZE + 1) * 1024
  sectors for the 22 bit C\_SIZE of the register, exactly for the cards whose upper six bits of C\_SIZE
  are zero (up to 32 GB); for larger cards it is too small.\<close>

theorem card_sector_count_capacity:
  assumes "unat high < 64" "unat low < 65536"
  shows "unat (card_sector_count high low) \<le> (unat high * 65536 + unat low + 1) * 1024 \<and>
    (unat (card_sector_count high low) = (unat high * 65536 + unat low + 1) * 1024 \<longleftrightarrow> high = 0)"
proof -
  have l: "unat (low + 1) = unat low + 1"
    using assms(2) by (simp add: unat_word_ariths)
  have p10: "unat (push_bit 10 (low + 1)) = (unat low + 1) * 1024"
    using assms(2) l by (simp add: push_bit_eq_mult unat_word_ariths)
  have p16: "unat (push_bit 16 high) = unat high * 65536"
    using assms(1) by (simp add: push_bit_eq_mult unat_word_ariths)
  have le: "unat (card_sector_count high low) \<le> unat high * 65536 + (unat low + 1) * 1024"
    unfolding card_sector_count_def unsigned_or_eq p10[symmetric] p16[symmetric] by (rule or_nat_le_plus)
  show ?thesis
  proof (cases "high = 0")
    case True
    then show ?thesis using p10 by (simp add: card_sector_count_def)
  next
    case False
    then have "0 < unat high" by (simp add: word_unat_eq_iff)
    then have "unat (card_sector_count high low) < (unat high * 65536 + unat low + 1) * 1024"
      using capacity_gap[OF _ le] by simp
    then show ?thesis using False by simp
  qed
qed

lemma card_sector_count_capacity_witness:
  "unat (card_sector_count 1 0xDA00) < (1 * 65536 + 0xDA00 + 1) * 1024"
proof -
  have "unat (1 :: u32) < 64" "unat (0xDA00 :: u32) < 65536" by simp_all
  from card_sector_count_capacity[OF this] show ?thesis by (auto simp: less_le)
qed

lemma sd_tick_round_idle:
  assumes "\<not> sd_lfs_format t" "was_detected t" "sd_rw_error_count (t_sd t) = 0" "sdmmc_init_last t = 0"
    "lfs_status t \<noteq> 0"
  shows "sd_tick_rounds ops f0 sus (t, d) = Some (t, d)"
  by (induction sus) (use assms in \<open>simp_all add: sd_tick_round_def\<close>)

text \<open>C28. A card that had to be formatted is not used until the next start: when the SD card answers
  but its file system cannot be mounted, and formatting and mounting again both succeed, the status of
  the file system stays the error of the first mount, and whatever happens later (short of a request to
  format), the task does nothing: no round changes its state or the card.\<close>

theorem formatted_card_unused_until_restart:
  assumes "lfs_mount ops (sd_fs (t_sd t)) = (e, fs1)" "abs_status e \<noteq> 0"
    and "lfs_format ops fs1 = (LFS_ERR_OK, fs2)" "lfs_mount ops fs2 = (LFS_ERR_OK, fs3)"
    and "\<not> sd_lfs_format t" "was_detected t"
  shows "\<exists>t1. sd_init_task ops f0 (SDMMC_ERROR_OK, info) now t = t1 \<and> sd_fs (t_sd t1) = count_boot ops fs3 \<and>
    sd_status t1 = SDMMC_ERROR_OK \<and> lfs_status t1 = abs_status e \<and>
    (\<forall>sus d. sd_tick_rounds ops f0 sus (t1, d) = Some (t1, d))"
proof -
  have "e \<noteq> 0" using assms(2) by (auto simp: abs_status_def)
  then show ?thesis
    using assms
    by (auto simp: sd_init_task_def Let_def mount_or_format_def map_fs_def cleared_task_def intro!: sd_tick_round_idle)
qed

text \<open>A card in memory whose file system has to be formatted when it has a directory named lost.\<close>

definition damaged_ops :: "(ram_card, handle option) lfs_ops" where
  "damaged_ops = ram_ops \<lparr> lfs_mount := \<lambda>fs. (if ''lost'' \<in> ram_dirs fs then - 84 else LFS_ERR_OK, fs) \<rparr>"

lemma formatted_card_unused_until_restart_witness:
  "\<exists>t1. sd_init_task damaged_ops None (SDMMC_ERROR_OK, \<lparr> ci_type = 12, ci_dev_size_high = 0, ci_dev_size_low = 15159,
       ci_product_rev = 1, ci_product_name = replicate 5 0, ci_manufacturer_id = 3 \<rparr>) 5000
       (cleared_task None \<lparr> ram_files = Map.empty, ram_dirs = {''lost''} \<rparr> False True) = t1 \<and>
     lfs_status t1 = 84 \<and> (\<forall>sus d. sd_tick_rounds damaged_ops None sus (t1, d) = Some (t1, d))"
proof -
  let ?t = "cleared_task None \<lparr> ram_files = Map.empty, ram_dirs = {''lost''} \<rparr> False True :: (ram_card, handle option) sd_task"
  let ?empty = "\<lparr> ram_files = Map.empty, ram_dirs = {} \<rparr>"
  have "lfs_mount damaged_ops (sd_fs (t_sd ?t)) = (- 84, sd_fs (t_sd ?t))" "abs_status (- 84) \<noteq> 0"
    "lfs_format damaged_ops (sd_fs (t_sd ?t)) = (LFS_ERR_OK, ?empty)" "lfs_mount damaged_ops ?empty = (LFS_ERR_OK, ?empty)"
    "\<not> sd_lfs_format ?t" "was_detected ?t"
    by (simp_all add: damaged_ops_def ram_ops_def cleared_task_def abs_status_def)
  from formatted_card_unused_until_restart[OF this, of None "\<lparr> ci_type = 12, ci_dev_size_high = 0,
      ci_dev_size_low = 15159, ci_product_rev = 1, ci_product_name = replicate 5 0, ci_manufacturer_id = 3 \<rparr>" 5000]
  show ?thesis by (simp add: abs_status_def)
qed

text \<open>C30. Too many errors lose the queued points: when the error count has passed ten, the next round
  unmounts the card and starts over, and if the initialisation succeeds, every queue is empty
  afterwards, whatever was waiting in it, and every unanswered request is forgotten.\<close>

theorem too_many_errors_lose_points:
  assumes "10 < sd_rw_error_count (t_sd t)" "\<not> sd_lfs_format t" "was_detected t" "sdmmc_result su = (SDMMC_ERROR_OK, info)"
    and "now_reset su \<noteq> 1001" "1000 \<le> now_retry su - (now_reset su - 1001)"
    and "\<And>fs. fst (lfs_mount ops fs) = LFS_ERR_OK"
    and "data_storage_ok d" "\<And>h n fs. length (snd (fst (lfs_file_read ops h n fs))) \<le> n"
  shows "\<exists>t' d'. sd_tick_round ops f0 su (t, d) = Some (t', d') \<and> pending (wallbox_queue t') = [] \<and> pending (wallbox_daily_queue t') = [] \<and>
    pending (energy_manager_queue t') = [] \<and> pending (energy_manager_daily_queue t') = [] \<and>
    \<not> g_new (wallbox_getter t') \<and> \<not> g_new (wallbox_daily_getter t') \<and> \<not> g_new (energy_manager_getter t') \<and>
    \<not> g_new (energy_manager_daily_getter t')"
proof -
  let ?t3 = "map_fs (\<lambda>fs. snd (lfs_unmount ops fs)) t
    \<lparr> t_sd := t_sd (map_fs (\<lambda>fs. snd (lfs_unmount ops fs)) t) \<lparr> sd_rw_error_count := 0 \<rparr>,
      sdmmc_init_last := now_reset su - 1001, sd_status := SDMMC_ERROR_COUNT_TO_HIGH, lfs_status := SDMMC_ERROR_COUNT_TO_HIGH \<rparr>"
  define t4 where "t4 = sd_init_task ops f0 (SDMMC_ERROR_OK, info) (now_init su) ?t3"
  have clear: "pq_end (wallbox_queue t4) = 0" "pq_end (wallbox_daily_queue t4) = 0" "pq_end (energy_manager_queue t4) = 0"
    "pq_end (energy_manager_daily_queue t4) = 0" "\<not> g_new (wallbox_getter t4)" "\<not> g_new (wallbox_daily_getter t4)"
    "\<not> g_new (energy_manager_getter t4)" "\<not> g_new (energy_manager_daily_getter t4)"
    "sd_status t4 = 0" "lfs_status t4 = 0"
    using assms(2,7)
    by (auto simp: t4_def sd_init_task_def Let_def map_fs_def cleared_task_def zero_getter_def mount_or_format_def
        abs_status_def split_beta)
  have "sd_tick_round ops f0 su (t, d) = do {
      t5 \<leftarrow> sd_tick_task_handle_wallbox_data ops (queue_wallbox su) (take_wallbox su) t4;
      t6 \<leftarrow> sd_tick_task_handle_wallbox_daily_data ops (queue_wallbox_daily su) (take_wallbox_daily su) t5;
      t7 \<leftarrow> sd_tick_task_handle_energy_manager_data ops (queue_energy_manager su) (take_energy_manager su) t6;
      t8 \<leftarrow> sd_tick_task_handle_energy_manager_daily_data ops (queue_energy_manager_daily su)
        (take_energy_manager_daily su) t7;
      (fs, d1) \<leftarrow> sd_tick_task_handle_storage ops (sd_fs (t_sd t8), d);
      Some (map_fs (\<lambda>_. fs) t8, d1)
    }"
    using assms(1-6) clear(9,10) by (simp add: sd_tick_round_def t4_def Let_def system_timer_is_time_elapsed_ms_def system_timer_get_ms_def)
  moreover obtain fs d1 where "sd_tick_task_handle_storage ops (sd_fs (t_sd t4), d) = Some (fs, d1)"
    using handle_storage_any[OF assms(8,9), of "sd_fs (t_sd t4)"] by blast
  ultimately show ?thesis
    using clear by (simp add: sd_tick_task_handle_wallbox_data_def sd_tick_task_handle_wallbox_daily_data_def
        sd_tick_task_handle_energy_manager_data_def sd_tick_task_handle_energy_manager_daily_data_def
        handle_setter_def handle_getter_def pending_def map_fs_def)
qed

definition quiet :: "u32 \<Rightarrow> u32 \<times> card_info \<Rightarrow> surroundings" where
  "quiet now sdmmc = \<lparr> now_detected = now, now_reset = now, now_retry = now, now_init = now, sdmmc_result = sdmmc,
     queue_wallbox = id, queue_wallbox_daily = id, queue_energy_manager = id, queue_energy_manager_daily = id,
     take_wallbox = [], take_wallbox_daily = [], take_energy_manager = [], take_energy_manager_daily = [] \<rparr>"

lemma too_many_errors_lose_points_witness:
  "\<exists>t' d'. sd_tick_round ram_ops None (quiet 60000 (SDMMC_ERROR_OK, \<lparr> ci_type = 12, ci_dev_size_high = 0,
       ci_dev_size_low = 15159, ci_product_rev = 1, ci_product_name = replicate 5 0, ci_manufacturer_id = 3 \<rparr>))
     (cleared_task None \<lparr> ram_files = Map.empty, ram_dirs = {} \<rparr> False True
        \<lparr> t_sd := empty_sd \<lparr> sd_rw_error_count := 11 \<rparr>,
          wallbox_daily_queue := \<lparr> pq_points = [\<lparr> wd_wallbox_id = 7, wd_year = 25, wd_month = 6, wd_day = 1,
            wd_energy = 42 \<rparr>, \<lparr> wd_wallbox_id = 0, wd_year = 0, wd_month = 0, wd_day = 0, wd_energy = 0 \<rparr>], pq_end = 1 \<rparr> \<rparr>,
      \<lparr> storage = replicate 5 (replicate 64 0), last_change_time = replicate 5 0, write_to_sd = replicate 5 False,
        read_from_sd = replicate 5 False, file_not_found = replicate 5 False,
        has_been_written_once = replicate 5 False \<rparr>) = Some (t', d') \<and>
    pending (wallbox_daily_queue t') = []"
proof -
  let ?d = "\<lparr> storage = replicate 5 (replicate 64 0), last_change_time = replicate 5 0, write_to_sd = replicate 5 False,
    read_from_sd = replicate 5 False, file_not_found = replicate 5 False, has_been_written_once = replicate 5 False \<rparr>"
  let ?i = "\<lparr> ci_type = 12, ci_dev_size_high = 0, ci_dev_size_low = 15159, ci_product_rev = 1,
    ci_product_name = replicate 5 0, ci_manufacturer_id = 3 \<rparr>"
  let ?t = "cleared_task None \<lparr> ram_files = Map.empty, ram_dirs = {} \<rparr> False True
    \<lparr> t_sd := empty_sd \<lparr> sd_rw_error_count := 11 \<rparr>,
      wallbox_daily_queue := \<lparr> pq_points = [\<lparr> wd_wallbox_id = 7, wd_year = 25, wd_month = 6, wd_day = 1,
        wd_energy = 42 \<rparr>, \<lparr> wd_wallbox_id = 0, wd_year = 0, wd_month = 0, wd_day = 0, wd_energy = 0 \<rparr>], pq_end = 1 \<rparr> \<rparr>"
  let ?su = "quiet 60000 (SDMMC_ERROR_OK, ?i)"
  have t: "10 < sd_rw_error_count (t_sd ?t)" "\<not> sd_lfs_format ?t" "was_detected ?t" by (simp_all add: cleared_task_def word_less_nat_alt)
  have su: "sdmmc_result ?su = (SDMMC_ERROR_OK, ?i)" "now_reset ?su \<noteq> 1001"
    "1000 \<le> now_retry ?su - (now_reset ?su - 1001)" by (simp_all add: quiet_def word_le_nat_alt)
  have mount: "fst (lfs_mount ram_ops fs) = LFS_ERR_OK" for fs by (simp add: ram_ops_def)
  have read: "length (snd (fst (lfs_file_read ram_ops h n fs))) \<le> n" for h n fs
    by (simp add: ram_ops_def ram_read_def Let_def split: option.split)
  have d: "data_storage_ok ?d" by (simp add: data_storage_ok_def DATA_STORAGE_PAGES_def DATA_STORAGE_SIZE_def)
  from too_many_errors_lose_points[OF t su mount d read, of None] show ?thesis by blast
qed

end
