(* ===== verification/Contactor_Check.thy ===== *)
theory Contactor_Check
  imports System_Timer
begin

text \<open>
  The contactor check of \<^verbatim>\<open>warp/contactor_check.c\<close>: the second hardware version counts
  edges of the mains voltage on both sides of the contactor, the later ones read its feedback contacts.
  A tick takes the pins it reads and a function from the number of the read of the clock (in the order
  of the code) to the time. The hardware version and the relay's polarity are configuration.
\<close>

section \<open>State\<close>

datatype contactor_check_state = AC1_NLIVE_AC2_NLIVE | AC1_LIVE_AC2_NLIVE | AC1_NLIVE_AC2_LIVE | AC1_LIVE_AC2_LIVE

record contactor_check =
  ac1_edge_count :: u32
  ac2_edge_count :: u32
  ac1_last_value :: bool
  ac2_last_value :: bool
  last_check :: u32
  invalid_counter :: u8
  state :: u8
  error :: u8
  pe_edge_count :: u32
  pe_last_value :: bool
  last_error_time :: u32

record pins =
  pin_ac1 :: bool
  pin_ac2 :: bool
  pin_fb1 :: bool
  pin_fb2 :: bool
  pin_pe :: bool
  pin_contactor :: bool
  pin_phase_switch :: bool

definition CONTACTOR_CHECK_INTERVAL :: u32 where "CONTACTOR_CHECK_INTERVAL = 250"
definition CONTACTOR_CHECK_INTERVAL_V3 :: u32 where "CONTACTOR_CHECK_INTERVAL_V3 = 1000"

definition contactor_check_init :: "bool \<Rightarrow> pins \<Rightarrow> contactor_check" where
  "contactor_check_init is_v2 p =
     (let c = \<lparr> ac1_edge_count = 0, ac2_edge_count = 0, ac1_last_value = False, ac2_last_value = False,
        last_check = 0, invalid_counter = 0, state = 0, error = 0, pe_edge_count = 0, pe_last_value = False,
        last_error_time = 0 \<rparr>
      in if is_v2 then c \<lparr> ac1_last_value := pin_ac1 p, ac2_last_value := pin_ac2 p \<rparr>
         else c \<lparr> pe_last_value := pin_pe p \<rparr>)"

section \<open>Second version\<close>

definition state_of :: "bool \<Rightarrow> bool \<Rightarrow> contactor_check_state" where
  "state_of ac1_live ac2_live =
     (if ac1_live then if ac2_live then AC1_LIVE_AC2_LIVE else AC1_LIVE_AC2_NLIVE
      else if ac2_live then AC1_NLIVE_AC2_LIVE else AC1_NLIVE_AC2_NLIVE)"

fun state_code :: "contactor_check_state \<Rightarrow> u8" where
  "state_code AC1_NLIVE_AC2_NLIVE = 0"
| "state_code AC1_LIVE_AC2_NLIVE = 1"
| "state_code AC1_NLIVE_AC2_LIVE = 2"
| "state_code AC1_LIVE_AC2_LIVE = 3"

text \<open>The error when the relay is switched on, and when it is off.\<close>

fun error_on :: "contactor_check_state \<Rightarrow> u8" where
  "error_on AC1_NLIVE_AC2_NLIVE = 1"
| "error_on AC1_LIVE_AC2_NLIVE = 2"
| "error_on AC1_NLIVE_AC2_LIVE = 3"
| "error_on AC1_LIVE_AC2_LIVE = 0"

fun error_off :: "contactor_check_state \<Rightarrow> u8" where
  "error_off AC1_NLIVE_AC2_NLIVE = 4"
| "error_off AC1_LIVE_AC2_NLIVE = 0"
| "error_off AC1_NLIVE_AC2_LIVE = 5"
| "error_off AC1_LIVE_AC2_LIVE = 6"

definition count_edges :: "pins \<Rightarrow> contactor_check \<Rightarrow> contactor_check" where
  "count_edges p c =
     (let c1 = (if pin_ac1 p \<noteq> ac1_last_value c
        then c \<lparr> ac1_last_value := pin_ac1 p, ac1_edge_count := ac1_edge_count c + 1 \<rparr> else c)
      in if pin_ac2 p \<noteq> ac2_last_value c1
         then c1 \<lparr> ac2_last_value := pin_ac2 p, ac2_edge_count := ac2_edge_count c1 + 1 \<rparr> else c1)"

definition tick_v2 :: "(nat \<Rightarrow> u32) \<Rightarrow> bool \<Rightarrow> pins \<Rightarrow> contactor_check \<Rightarrow> contactor_check" where
  "tick_v2 clk relay_inverted p c =
     (let c1 = count_edges p c in
      if system_timer_is_time_elapsed_ms (clk 1) (last_check c1) CONTACTOR_CHECK_INTERVAL then
        let c2 = c1 \<lparr> last_check := system_timer_get_ms (clk 2) \<rparr>;
            c3 = (if invalid_counter c2 > 0 then c2 \<lparr> invalid_counter := invalid_counter c2 - 1 \<rparr>
              else
                let st = state_of (ac1_edge_count c2 > 10) (ac2_edge_count c2 > 10);
                    relay_state = (if relay_inverted then \<not> pin_contactor p else pin_contactor p)
                in c2 \<lparr> state := state_code st, error := if relay_state then error_on st else error_off st \<rparr>)
        in c3 \<lparr> ac1_edge_count := 0, ac2_edge_count := 0 \<rparr>
      else c1)"

section \<open>Later versions\<close>

definition pe_check :: "(nat \<Rightarrow> u32) \<Rightarrow> bool \<Rightarrow> pins \<Rightarrow> contactor_check \<Rightarrow> contactor_check" where
  "pe_check clk ove_r37_disabled p c =
     (let c1 = (if pin_pe p \<noteq> pe_last_value c
        then c \<lparr> pe_last_value := pin_pe p, pe_edge_count := pe_edge_count c + 1 \<rparr> else c)
      in if system_timer_is_time_elapsed_ms (clk 1) (last_check c1) CONTACTOR_CHECK_INTERVAL_V3 then
        let c2 = c1 \<lparr> last_check := system_timer_get_ms (clk 2) \<rparr>;
            c3 = (if invalid_counter c2 > 0 then c2 \<lparr> invalid_counter := invalid_counter c2 - 1 \<rparr>
              else c2 \<lparr> error := if ove_r37_disabled then (if pe_edge_count c2 > 10 then 0 else 1) else 0 \<rparr>)
        in c3 \<lparr> pe_edge_count := 0 \<rparr>
      else c1)"

text \<open>The pins in the order contactor, phase switch, N/L1, L2/L3; low is active.\<close>

fun feedback_error :: "bool \<Rightarrow> bool \<Rightarrow> bool \<Rightarrow> bool \<Rightarrow> u8" where
  "feedback_error False False False False = 0"
| "feedback_error False False False True = 1"
| "feedback_error False False True False = 2"
| "feedback_error False False True True = 3"
| "feedback_error False True False False = 4"
| "feedback_error False True False True = 0"
| "feedback_error False True True False = 5"
| "feedback_error False True True True = 6"
| "feedback_error True False False False = 7"
| "feedback_error True False False True = 8"
| "feedback_error True False True False = 9"
| "feedback_error True False True True = 0"
| "feedback_error True True False False = 10"
| "feedback_error True True False True = 11"
| "feedback_error True True True False = 12"
| "feedback_error True True True True = 0"

definition report_error :: "(nat \<Rightarrow> u32) \<Rightarrow> bool \<Rightarrow> u8 \<Rightarrow> contactor_check \<Rightarrow> contactor_check" where
  "report_error clk contactor err c =
     (if err = 0 then c \<lparr> last_error_time := 0 \<rparr>
      else if last_error_time c = 0 then c \<lparr> last_error_time := system_timer_get_ms (clk 3) \<rparr>
      else if contactor \<and> system_timer_is_time_elapsed_ms (clk 4) (last_error_time c) 250 \<or>
        \<not> contactor \<and> system_timer_is_time_elapsed_ms (clk 5) (last_error_time c) 500
      then c \<lparr> error := error c OR push_bit 1 err, last_error_time := system_timer_get_ms (clk 6) - 251 \<rparr>
      else c)"

definition tick_v3 :: "(nat \<Rightarrow> u32) \<Rightarrow> bool \<Rightarrow> pins \<Rightarrow> contactor_check \<Rightarrow> contactor_check" where
  "tick_v3 clk ove_r37_disabled p c =
     (let c1 = pe_check clk ove_r37_disabled p c;
          c2 = c1 \<lparr> error := error c1 AND 1 \<rparr>;
          c3 = report_error clk (pin_contactor p)
            (feedback_error (pin_contactor p) (pin_phase_switch p) (pin_fb1 p) (pin_fb2 p)) c2
      in c3 \<lparr> state := of_bool (\<not> pin_fb1 p) OR push_bit 1 (of_bool (\<not> pin_fb2 p)) OR
           push_bit 2 (of_bool (error c3 \<noteq> 0)) OR push_bit 3 (of_bool (\<not> pin_contactor p)) OR
           push_bit 4 (of_bool (\<not> pin_phase_switch p)) \<rparr>)"

definition contactor_check_tick ::
  "bool \<Rightarrow> bool \<Rightarrow> bool \<Rightarrow> (nat \<Rightarrow> u32) \<Rightarrow> pins \<Rightarrow> contactor_check \<Rightarrow> contactor_check" where
  "contactor_check_tick is_v2 relay_inverted ove_r37_disabled clk p c =
     (let c1 = (if last_check c = 0 then c \<lparr> last_check := system_timer_get_ms (clk 0) \<rparr> else c)
      in if is_v2 then tick_v2 clk relay_inverted p c1 else tick_v3 clk ove_r37_disabled p c1)"

section \<open>Properties\<close>

text \<open>What the feedback contacts say of the pins, and what is reported of it.\<close>

definition wiring_error :: "pins \<Rightarrow> u8" where
  "wiring_error p = feedback_error (pin_contactor p) (pin_phase_switch p) (pin_fb1 p) (pin_fb2 p)"

definition reported_error :: "contactor_check \<Rightarrow> u8" where
  "reported_error c = drop_bit 1 (error c)"

lemma pe_check_keeps: "last_error_time (pe_check clk ove p c) = last_error_time c"
  by (simp add: pe_check_def Let_def)

lemma pe_bit: "drop_bit (Suc 0) (x mod 2) = (0 :: u8)"
proof -
  have "drop_bit (Suc 0) (x AND 1) = (0 :: u8)"
    by (rule bit_word_eqI) (simp only: bit_drop_bit_eq bit_and_iff bit_1_iff comp_def bit_0_eq bot_fun_def, simp)
  then show ?thesis by (simp add: and_one_eq)
qed

lemma reported_bits: "drop_bit (Suc 0) (feedback_error a b c d * 2) = feedback_error a b c d"
  by (cases a; cases b; cases c; cases d) simp_all

lemma tick_v3_reports:
  assumes "wiring_error p \<noteq> 0" "last_error_time c \<noteq> 0" "last_check c \<noteq> 0"
  shows "reported_error (contactor_check_tick False relay ove (\<lambda>_. now) p c) =
      (if now - last_error_time c \<ge> (if pin_contactor p then 250 else 500) then wiring_error p else 0) \<and>
    last_error_time (contactor_check_tick False relay ove (\<lambda>_. now) p c) =
      (if now - last_error_time c \<ge> (if pin_contactor p then 250 else 500) then now - 251 else last_error_time c)"
  using assms
  by (simp add: contactor_check_tick_def tick_v3_def report_error_def Let_def reported_error_def wiring_error_def
      pe_check_keeps system_timer_is_time_elapsed_ms_def system_timer_get_ms_def reported_bits pe_bit)

lemma last_check_kept:
  assumes "last_check c \<noteq> 0" "now \<noteq> 0"
  shows "last_check (contactor_check_tick False relay ove (\<lambda>_. now) p c) \<noteq> 0"
  using assms
  by (simp add: contactor_check_tick_def tick_v3_def report_error_def pe_check_def Let_def system_timer_get_ms_def)

text \<open>C34. A wiring error that persists keeps being reported only while the contactor is switched off:
  after the debounce time the error is reported, and at any tick less than 249 ms later with the same
  pins it is reported again when the contactor is off, but is withdrawn when the contactor is on (the
  time that is stored to report the error again is 251 ms ago, and with the contactor on 500 are
  needed).\<close>

theorem active_contactor_error_withdrawn:
  assumes "wiring_error p \<noteq> 0" "last_error_time c \<noteq> 0" "last_check c \<noteq> 0"
    and "500 \<le> now1 - last_error_time c" "now1 \<noteq> 0" "now1 \<noteq> 251" "now2 - now1 < 249"
  shows "let c1 = contactor_check_tick False relay ove (\<lambda>_. now1) p c;
      c2 = contactor_check_tick False relay ove (\<lambda>_. now2) p c1
    in reported_error c1 = wiring_error p \<and>
      reported_error c2 = (if pin_contactor p then wiring_error p else 0)"
proof -
  define c1 where "c1 = contactor_check_tick False relay ove (\<lambda>_. now1) p c"
  have "(250 :: u32) \<le> 500" by (simp add: word_le_nat_alt)
  then have "(if pin_contactor p then 250 else 500) \<le> now1 - last_error_time c"
    using assms(4) order_trans[of 250 500 "now1 - last_error_time c"] by simp
  then have c1: "reported_error c1 = wiring_error p" "last_error_time c1 = now1 - 251" "last_check c1 \<noteq> 0"
    using tick_v3_reports[OF assms(1-3), of relay ove now1] last_check_kept[OF assms(3,5)] by (simp_all add: c1_def)
  have d: "unat (now2 - now1) < 249" using assms(7) by (simp add: word_less_nat_alt)
  have s: "unat ((now2 - now1) + 251) = unat (now2 - now1) + 251"
    using d by (subst unat_word_ariths) simp
  have "now2 - last_error_time c1 = (now2 - now1) + 251" unfolding c1(2) by (simp only: diff_diff_eq2 diff_add_eq)
  then have e: "unat (now2 - last_error_time c1) = unat (now2 - now1) + 251" by (simp only: s)
  have "last_error_time c1 \<noteq> 0" using c1(2) assms(6) by simp
  from tick_v3_reports[OF assms(1) this c1(3), of relay ove now2] e d
  have "reported_error (contactor_check_tick False relay ove (\<lambda>_. now2) p c1) =
      (if pin_contactor p then wiring_error p else 0)"
    by (simp add: word_le_nat_alt)
  with c1(1) show ?thesis by (simp add: c1_def Let_def)
qed

lemma active_contactor_error_withdrawn_witness:
  "let p = \<lparr> pin_ac1 = False, pin_ac2 = False, pin_fb1 = True, pin_fb2 = False, pin_pe = False, pin_contactor = False,
       pin_phase_switch = False \<rparr>;
     c1 = contactor_check_tick False False True (\<lambda>_. 2000) p (contactor_check_init False p \<lparr> last_check := 1, last_error_time := 1000 \<rparr>);
     c2 = contactor_check_tick False False True (\<lambda>_. 2001) p c1
   in reported_error c1 = 2 \<and> reported_error c2 = 0"
  using active_contactor_error_withdrawn[where p = "\<lparr> pin_ac1 = False, pin_ac2 = False, pin_fb1 = True, pin_fb2 = False,
      pin_pe = False, pin_contactor = False, pin_phase_switch = False \<rparr>" and c = "contactor_check_init False
      \<lparr> pin_ac1 = False, pin_ac2 = False, pin_fb1 = True, pin_fb2 = False, pin_pe = False, pin_contactor = False,
        pin_phase_switch = False \<rparr> \<lparr> last_check := 1, last_error_time := 1000 \<rparr>" and relay = False and ove = True
      and ?now1.0 = 2000 and ?now2.0 = 2001]
  by (simp add: wiring_error_def contactor_check_init_def word_le_nat_alt word_less_nat_alt)

end
