(* ===== verification/Usb.thy ===== *)
theory Usb
  imports Bricklib_Prelude
begin

text \<open>
  The USB buffers of the TNG modules (\<^verbatim>\<open>tng/usb_stm32/usb.c\<close>, the endpoint callbacks of
  \<^verbatim>\<open>usbd_tfp.c\<close>). The device library below is vendored; what it answers when a packet is handed
  over or a receive is prepared is an argument, and the packets that it accepts are a result.
\<close>

section \<open>Copies between buffers\<close>

definition read_bytes :: "'a list \<Rightarrow> nat \<Rightarrow> 'a list option" where
  "read_bytes buf n = (if n \<le> length buf then Some (take n buf) else None)"

definition write_bytes :: "'a list \<Rightarrow> nat \<Rightarrow> 'a list \<Rightarrow> 'a list option" where
  "write_bytes buf off bs =
     (if off + length bs \<le> length buf then Some (take off buf @ bs @ drop (off + length bs) buf) else None)"

lemma write_bytes_in [arr_simps]:
  "off + length bs \<le> length buf \<Longrightarrow> write_bytes buf off bs = Some (take off buf @ bs @ drop (off + length bs) buf)"
  by (simp add: write_bytes_def)

lemma read_bytes_in [arr_simps]: "n \<le> length buf \<Longrightarrow> read_bytes buf n = Some (take n buf)"
  by (simp add: read_bytes_def)

lemma write_bytes_length: "write_bytes buf off bs = Some buf' \<Longrightarrow> length buf' = length buf"
  by (auto simp: write_bytes_def split: if_splits)

section \<open>The buffers\<close>

definition USB_BUFFER_SIZE :: nat where "USB_BUFFER_SIZE = 256"

record tfusb =
  in_buffer :: "u8 list"
  out_buffer :: "u8 list"
  in_buffer_length :: u16
  out_buffer_length :: u16
  transfer_in_progress :: bool
  in_buffer_storage_length :: u16
  in_buffer_storage :: "u8 list"

definition usb_zero :: tfusb where
  "usb_zero = \<lparr> in_buffer = replicate USB_BUFFER_SIZE 0, out_buffer = replicate USB_BUFFER_SIZE 0,
     in_buffer_length = 0, out_buffer_length = 0, transfer_in_progress = False,
     in_buffer_storage_length = 0, in_buffer_storage = replicate USB_BUFFER_SIZE 0 \<rparr>"

text \<open>The packet that is handed to the controller, and the bytes that wait in the storage.\<close>

definition packet :: "tfusb \<Rightarrow> u8 list" where
  "packet s = take (unat (in_buffer_length s)) (in_buffer s)"

definition stored :: "tfusb \<Rightarrow> u8 list" where
  "stored s = take (unat (in_buffer_storage_length s)) (in_buffer_storage s)"

section \<open>Sending\<close>

definition usb_send_storage :: "bool \<Rightarrow> tfusb \<Rightarrow> (bool \<times> u8 list list \<times> tfusb) option" where
  "usb_send_storage ok s =
     (if in_buffer_storage_length s \<noteq> 0 \<and> \<not> transfer_in_progress s then do {
        data \<leftarrow> read_bytes (in_buffer_storage s) (unat (in_buffer_storage_length s));
        b \<leftarrow> write_bytes (in_buffer s) 0 data;
        let s1 = s \<lparr> in_buffer := b, in_buffer_length := in_buffer_storage_length s, transfer_in_progress := True \<rparr>;
        if ok then Some (True, [packet s1], s1 \<lparr> in_buffer_storage_length := 0 \<rparr>)
        else Some (False, [], s1 \<lparr> transfer_in_progress := False \<rparr>)
      }
      else Some (False, [], s))"

definition usb_append_to_storage :: "u8 list \<Rightarrow> tfusb \<Rightarrow> (bool \<times> tfusb) option" where
  "usb_append_to_storage data s =
     (if unat (in_buffer_storage_length s) + length data < USB_BUFFER_SIZE then do {
        b \<leftarrow> write_bytes (in_buffer_storage s) (unat (in_buffer_storage_length s)) data;
        Some (True, s \<lparr> in_buffer_storage := b,
          in_buffer_storage_length := in_buffer_storage_length s + of_nat (length data) \<rparr>)
      }
      else Some (False, s))"

text \<open>The interrupt at the end of a transfer.\<close>

definition usbd_tfp_data_in :: "bool \<Rightarrow> tfusb \<Rightarrow> (u8 list list \<times> tfusb) option" where
  "usbd_tfp_data_in ok s = do {
     (_, packets, s1) \<leftarrow> usb_send_storage ok (s \<lparr> transfer_in_progress := False \<rparr>);
     Some (packets, s1)
   }"

text \<open>The interrupt may come after \<^verbatim>\<open>usb_send\<close> has seen a transfer in progress and before it
  appends to the storage: the argument irq is None when it does not, and otherwise what the library answers
  to it.\<close>

definition usb_send :: "bool \<Rightarrow> bool option \<Rightarrow> u8 list \<Rightarrow> tfusb \<Rightarrow> (bool \<times> u8 list list \<times> tfusb) option" where
  "usb_send ok irq data s =
     (if in_buffer_storage_length s > 0 then do {
        (appended, s1) \<leftarrow> usb_append_to_storage data s;
        if appended then do {
          (_, packets, s2) \<leftarrow> usb_send_storage ok s1;
          Some (True, packets, s2)
        }
        else Some (False, [], s1)
      }
      else if transfer_in_progress s then do {
        (packets, s1) \<leftarrow> (case irq of None \<Rightarrow> Some ([], s) | Some ok' \<Rightarrow> usbd_tfp_data_in ok' s);
        (appended, s2) \<leftarrow> usb_append_to_storage data s1;
        Some (appended, packets, s2)
      }
      else do {
        b \<leftarrow> write_bytes (in_buffer s) 0 data;
        let s1 = s \<lparr> in_buffer := b, in_buffer_length := of_nat (length data), transfer_in_progress := True \<rparr>;
        if ok then Some (True, [packet s1], s1)
        else do {
          (appended, s2) \<leftarrow> usb_append_to_storage data (s1 \<lparr> transfer_in_progress := False \<rparr>);
          Some (appended, [], s2)
        }
      })"

section \<open>Receiving\<close>

text \<open>The destination is a buffer and an offset in it. The length that the caller allows is not looked
  at.\<close>

definition usb_recv :: "bool \<Rightarrow> u8 list \<Rightarrow> nat \<Rightarrow> nat \<Rightarrow> tfusb \<Rightarrow> (u16 \<times> u8 list \<times> tfusb) option" where
  "usb_recv ok data off max_length s =
     (if out_buffer_length s = 0 then Some (0, data, s)
      else do {
        bytes \<leftarrow> read_bytes (out_buffer s) (unat (out_buffer_length s));
        data1 \<leftarrow> write_bytes data off bytes;
        if ok then Some (out_buffer_length s, data1, s \<lparr> out_buffer_length := 0 \<rparr>) else Some (0, data1, s)
      })"

definition usb_can_recv :: "tfusb \<Rightarrow> bool" where
  "usb_can_recv s \<longleftrightarrow> out_buffer_length s \<noteq> 0"

section \<open>Responses leave in order\<close>

definition usb_ok :: "tfusb \<Rightarrow> bool" where
  "usb_ok s \<longleftrightarrow> length (in_buffer s) = 256 \<and> length (in_buffer_storage s) = 256 \<and>
     unat (in_buffer_storage_length s) < 256"

lemma usb_zero_ok: "usb_ok usb_zero" "stored usb_zero = []"
  by (simp_all add: usb_ok_def usb_zero_def USB_BUFFER_SIZE_def stored_def)

lemma send_storage_ok:
  assumes "usb_ok s"
  obtains r packets s1 where "usb_send_storage ok s = Some (r, packets, s1)" "usb_ok s1"
    "concat packets @ stored s1 = stored s"
proof (cases "in_buffer_storage_length s \<noteq> 0 \<and> \<not> transfer_in_progress s")
  case True
  with assms show thesis
    by (cases ok) (auto intro!: that simp: usb_send_storage_def usb_ok_def arr_simps packet_def stored_def)
next
  case False
  then show thesis using assms by (intro that[of False "[]" s]) (auto simp: usb_send_storage_def)
qed

lemma append_ok:
  assumes "usb_ok s"
  obtains r s1 where "usb_append_to_storage data s = Some (r, s1)" "usb_ok s1"
    "stored s1 = stored s @ (if r then data else [])" "transfer_in_progress s1 = transfer_in_progress s"
    "in_buffer s1 = in_buffer s"
proof (cases "unat (in_buffer_storage_length s) + length data < 256")
  case True
  have "unat (in_buffer_storage_length s + of_nat (length data)) = unat (in_buffer_storage_length s) + length data"
    using True by (simp add: unat_word_ariths unat_of_nat)
  with True assms show thesis
    by (intro that[of True "s \<lparr> in_buffer_storage := take (unat (in_buffer_storage_length s)) (in_buffer_storage s) @
        data @ drop (unat (in_buffer_storage_length s) + length data) (in_buffer_storage s),
      in_buffer_storage_length := in_buffer_storage_length s + of_nat (length data) \<rparr>"]) (auto simp: usb_append_to_storage_def USB_BUFFER_SIZE_def usb_ok_def arr_simps stored_def)
next
  case False
  then show thesis using assms
    by (intro that[of False s]) (auto simp: usb_append_to_storage_def USB_BUFFER_SIZE_def)
qed

lemma data_in_ok:
  assumes "usb_ok s"
  obtains packets s1 where "usbd_tfp_data_in ok s = Some (packets, s1)" "usb_ok s1"
    "concat packets @ stored s1 = stored s"
proof -
  have "usb_ok (s \<lparr> transfer_in_progress := False \<rparr>)" using assms by (simp add: usb_ok_def)
  then obtain r packets s1 where "usb_send_storage ok (s \<lparr> transfer_in_progress := False \<rparr>) = Some (r, packets, s1)"
    "usb_ok s1" "concat packets @ stored s1 = stored (s \<lparr> transfer_in_progress := False \<rparr>)"
    by (rule send_storage_ok[where ok = ok])
  then show thesis by (intro that) (auto simp: usbd_tfp_data_in_def stored_def)
qed

lemma usb_send_ok:
  assumes "usb_ok s" "length data < 256"
  obtains r packets s1 where "usb_send ok irq data s = Some (r, packets, s1)" "usb_ok s1"
    "concat packets @ stored s1 = stored s @ (if r then data else [])"
proof -
  consider (storage) "in_buffer_storage_length s > 0"
    | (busy) "in_buffer_storage_length s = 0" "transfer_in_progress s"
    | (free) "in_buffer_storage_length s = 0" "\<not> transfer_in_progress s"
    using word_neq_0_conv by blast
  then show thesis
  proof cases
    case storage
    obtain r s1 where 1: "usb_append_to_storage data s = Some (r, s1)" "usb_ok s1"
      "stored s1 = stored s @ (if r then data else [])" by (rule append_ok[OF assms(1)])
    obtain r' packets s2 where "usb_send_storage ok s1 = Some (r', packets, s2)" "usb_ok s2"
      "concat packets @ stored s2 = stored s1" by (rule send_storage_ok[OF 1(2)])
    with 1 storage show thesis
      by (cases r) (auto intro!: that simp: usb_send_def)
  next
    case busy
    obtain packets s1 where 1: "(case irq of None \<Rightarrow> Some ([], s) | Some ok' \<Rightarrow> usbd_tfp_data_in ok' s) = Some (packets, s1)"
      "usb_ok s1" "concat packets @ stored s1 = stored s"
    proof (cases irq)
      case None
      then show thesis using assms(1) by (intro that[of "[]" s]) simp_all
    next
      case (Some ok')
      then show thesis using data_in_ok[OF assms(1), of ok'] that by (metis option.simps(5))
    qed
    obtain r s2 where "usb_append_to_storage data s1 = Some (r, s2)" "usb_ok s2"
      "stored s2 = stored s1 @ (if r then data else [])" by (rule append_ok[OF 1(2)])
    with 1 busy show thesis
      by (intro that[of r packets s2]) (simp_all add: usb_send_def flip: append_assoc)
  next
    case free
    define s1 where "s1 = s \<lparr> in_buffer := data @ drop (length data) (in_buffer s),
      in_buffer_length := of_nat (length data), transfer_in_progress := True \<rparr>"
    have wr: "write_bytes (in_buffer s) 0 data = Some (data @ drop (length data) (in_buffer s))"
      using assms by (simp add: usb_ok_def arr_simps)
    have packet: "packet s1 = data"
      using assms by (simp add: s1_def packet_def unat_of_nat)
    have ok1: "usb_ok (s1 \<lparr> transfer_in_progress := t \<rparr>)" for t
      using assms by (auto simp: s1_def usb_ok_def)
    have empty: "stored s = []" "stored (s1 \<lparr> transfer_in_progress := t \<rparr>) = []" for t
      using free by (simp_all add: stored_def s1_def)
    show thesis
    proof (cases ok)
      case True
      have "usb_send ok irq data s = Some (True, [data], s1)"
        using free True packet by (simp add: usb_send_def wr s1_def)
      then show thesis using ok1[of True] empty(1) empty(2)[of True]
        by (intro that[of True "[data]" s1]) (simp_all add: s1_def)
    next
      case False
      obtain r s2 where 2: "usb_append_to_storage data (s1 \<lparr> transfer_in_progress := False \<rparr>) = Some (r, s2)" "usb_ok s2"
        "stored s2 = stored (s1 \<lparr> transfer_in_progress := False \<rparr>) @ (if r then data else [])"
        by (rule append_ok[OF ok1])
      have "usb_send ok irq data s = Some (r, [], s2)"
        using free False 2(1) by (simp add: usb_send_def wr s1_def)
      then show thesis using 2 empty by (intro that[of r "[]" s2]) auto
    qed
  qed
qed

text \<open>A run of the module: messages that are sent, and ends of transfers. Its results are the messages
  that were accepted and the packets that went to the controller.\<close>

datatype usb_event = Send bool "bool option" "u8 list" | Data_In bool

definition usb_step :: "usb_event \<Rightarrow> tfusb \<Rightarrow> (u8 list list \<times> u8 list list \<times> tfusb) option" where
  "usb_step e s = (case e of
       Send ok irq m \<Rightarrow> do {
         (r, packets, s1) \<leftarrow> usb_send ok irq m s;
         Some (if r then [m] else [], packets, s1)
       }
     | Data_In ok \<Rightarrow> do {
         (packets, s1) \<leftarrow> usbd_tfp_data_in ok s;
         Some ([], packets, s1)
       })"

fun usb_run :: "usb_event list \<Rightarrow> tfusb \<Rightarrow> (u8 list list \<times> u8 list list \<times> tfusb) option" where
  "usb_run [] s = Some ([], [], s)"
| "usb_run (e # es) s = do {
     (accepted, packets, s1) \<leftarrow> usb_step e s;
     (accepted', packets', s2) \<leftarrow> usb_run es s1;
     Some (accepted @ accepted', packets @ packets', s2)
   }"

definition small :: "usb_event \<Rightarrow> bool" where
  "small e = (case e of Send ok irq m \<Rightarrow> length m \<le> 255 | Data_In ok \<Rightarrow> True)"

lemma usb_step_ok:
  assumes "usb_ok s" "small e"
  obtains accepted packets s1 where "usb_step e s = Some (accepted, packets, s1)" "usb_ok s1"
    "concat packets @ stored s1 = stored s @ concat accepted"
proof (cases e)
  case (Send ok irq m)
  have "length m < 256" using assms(2) Send by (simp add: small_def)
  then obtain r packets s1 where "usb_send ok irq m s = Some (r, packets, s1)" "usb_ok s1"
    "concat packets @ stored s1 = stored s @ (if r then m else [])"
    by (rule usb_send_ok[OF assms(1)])
  then show thesis by (intro that[of "if r then [m] else []" packets s1]) (auto simp: usb_step_def Send)
next
  case (Data_In ok)
  obtain packets s1 where "usbd_tfp_data_in ok s = Some (packets, s1)" "usb_ok s1"
    "concat packets @ stored s1 = stored s" by (rule data_in_ok[OF assms(1)])
  then show thesis by (intro that[of "[]" packets s1]) (auto simp: usb_step_def Data_In)
qed

lemma usb_run_ok:
  assumes "usb_ok s" "list_all small es"
  shows "\<exists>accepted packets s1. usb_run es s = Some (accepted, packets, s1) \<and> usb_ok s1 \<and>
    concat packets @ stored s1 = stored s @ concat accepted"
  using assms
proof (induction es arbitrary: s)
  case Nil
  then show ?case by (intro exI[of _ "[]"] exI[of _ "[]"] exI[of _ s]) simp
next
  case (Cons e es)
  obtain accepted packets s1 where 1: "usb_step e s = Some (accepted, packets, s1)" "usb_ok s1"
    "concat packets @ stored s1 = stored s @ concat accepted"
    by (rule usb_step_ok[OF Cons.prems(1)]) (use Cons.prems(2) in auto)
  obtain accepted' packets' s2 where 2: "usb_run es s1 = Some (accepted', packets', s2)" "usb_ok s2"
    "concat packets' @ stored s2 = stored s1 @ concat accepted'"
    using Cons.IH[OF 1(2)] Cons.prems(2) by auto
  show ?case
    by (intro exI[of _ "accepted @ accepted'"] exI[of _ "packets @ packets'"] exI[of _ s2])
      (use 1 2 in \<open>simp flip: append_assoc\<close>, simp add: 2(3))
qed



text \<open>When a transfer ends between the test of usb_send and its appending to the empty
  storage, the message is accepted and stays in the storage: no transfer is in progress whose end would
  send it, so it waits for the next message.\<close>

theorem usb_response_stranded:
  assumes "usb_ok s" "transfer_in_progress s" "in_buffer_storage_length s = 0" "data \<noteq> []" "length data \<le> 255"
  shows "\<exists>s1. usb_send ok (Some ok') data s = Some (True, [], s1) \<and> stored s1 = data \<and> \<not> transfer_in_progress s1"
proof -
  define s0 where "s0 = s \<lparr> transfer_in_progress := False \<rparr>"
  have irq: "usbd_tfp_data_in ok' s = Some ([], s0)"
    using assms(3) by (simp add: usbd_tfp_data_in_def usb_send_storage_def s0_def)
  have s0: "usb_ok s0" "stored s0 = []" "in_buffer_storage_length s0 = 0" "\<not> transfer_in_progress s0"
    using assms by (auto simp: s0_def usb_ok_def stored_def)
  obtain r s1 where s1: "usb_append_to_storage data s0 = Some (r, s1)" "stored s1 = (if r then data else [])"
    "\<not> transfer_in_progress s1"
    using append_ok[OF s0(1), of data] s0 by (metis append_Nil)
  have r using s1(1) s0(3) assms(5)
    by (auto simp: usb_append_to_storage_def USB_BUFFER_SIZE_def split: Option.bind_splits if_splits)
  with s1 have "usb_append_to_storage data s0 = Some (True, s1)" "stored s1 = data" "\<not> transfer_in_progress s1" by auto
  then show ?thesis
    using assms(2,3) irq by (intro exI[of _ s1]) (simp add: usb_send_def s0_def)
qed

lemma usb_response_stranded_witness:
  "\<exists>s1. usb_send True (Some True) [7, 8] (usb_zero \<lparr> transfer_in_progress := True \<rparr>) = Some (True, [], s1) \<and>
    stored s1 = [7, 8] \<and> \<not> transfer_in_progress s1"
  by (rule usb_response_stranded) (simp_all add: usb_ok_def usb_zero_def USB_BUFFER_SIZE_def)

end
