(* ===== verification/Tng_Flash.thy ===== *)
theory Tng_Flash
  imports Checksums Usb
begin

text \<open>
  The flash of the TNG modules: the checks of an uploaded firmware (\<^verbatim>\<open>tng/tng_firmware.c\<close>),
  the writing of firmware, UID and boot information (\<^verbatim>\<open>tng/tng_communication.c\<close>) and the reading
  of the UID (\<^verbatim>\<open>tng/tng.c\<close>), with the memory map of \<^verbatim>\<open>tng/config_stm32f0_128kb.h\<close>.
  The flash functions of the hardware abstraction layer are vendored: they are a record of functions, and
  the locale \<open>flash\<close> states what the code relies on. The flash is mapped into the memory that the code
  reads; a read beyond its end faults (\<^verbatim>\<open>None\<close>).
\<close>

section \<open>Memory map\<close>

definition STM32F0_MAGIC_NUMBER :: u32 where "STM32F0_MAGIC_NUMBER = 0xDEADBEEF"
definition STM32F0_BOOTLOADER_POS_START :: nat where "STM32F0_BOOTLOADER_POS_START = 0x8000000"
definition STM32F0_MCU_FLASH_SIZE :: nat where "STM32F0_MCU_FLASH_SIZE = 128 * 1024"
definition STM32F0_FIRMWARE_BOOTLOADER_SIZE :: nat where "STM32F0_FIRMWARE_BOOTLOADER_SIZE = 8 * 1024"

definition STM32F0_FIRMWARE_SIZE :: nat where
  "STM32F0_FIRMWARE_SIZE = (STM32F0_MCU_FLASH_SIZE - STM32F0_FIRMWARE_BOOTLOADER_SIZE) div 2"

definition STM32F0_FIRMWARE_ACTIVE_POS_START :: nat where
  "STM32F0_FIRMWARE_ACTIVE_POS_START = STM32F0_BOOTLOADER_POS_START + STM32F0_FIRMWARE_BOOTLOADER_SIZE"

definition STM32F0_FIRMWARE_NEW_POS_START :: nat where
  "STM32F0_FIRMWARE_NEW_POS_START = STM32F0_FIRMWARE_ACTIVE_POS_START + STM32F0_FIRMWARE_SIZE"

definition STM32F0_UID_POSITION :: nat where "STM32F0_UID_POSITION = STM32F0_FIRMWARE_NEW_POS_START - 4"

definition STM32F0_ACTIVE_DEVICE_IDENTIFIER_POSITION :: nat where
  "STM32F0_ACTIVE_DEVICE_IDENTIFIER_POSITION = STM32F0_FIRMWARE_ACTIVE_POS_START + 12"

definition STM32F0_NEW_CRC_POSITION :: nat where
  "STM32F0_NEW_CRC_POSITION = STM32F0_FIRMWARE_ACTIVE_POS_START + STM32F0_FIRMWARE_SIZE"

definition STM32F0_NEW_LENGTH_POSITION :: nat where
  "STM32F0_NEW_LENGTH_POSITION = STM32F0_FIRMWARE_ACTIVE_POS_START + 4 + STM32F0_FIRMWARE_SIZE"

definition STM32F0_NEW_MAGIC_NUMBER_POSITION :: nat where
  "STM32F0_NEW_MAGIC_NUMBER_POSITION = STM32F0_FIRMWARE_ACTIVE_POS_START + 8 + STM32F0_FIRMWARE_SIZE"

definition STM32F0_NEW_DEVICE_IDENTIFIER_POSITION :: nat where
  "STM32F0_NEW_DEVICE_IDENTIFIER_POSITION = STM32F0_FIRMWARE_ACTIVE_POS_START + 12 + STM32F0_FIRMWARE_SIZE"

definition STM32F0_BOOT_INFO_POSITION :: nat where
  "STM32F0_BOOT_INFO_POSITION = STM32F0_FIRMWARE_ACTIVE_POS_START - 4"

definition FLASH_END :: nat where "FLASH_END = STM32F0_BOOTLOADER_POS_START + STM32F0_MCU_FLASH_SIZE"

lemmas memory_map = STM32F0_BOOTLOADER_POS_START_def STM32F0_MCU_FLASH_SIZE_def
  STM32F0_FIRMWARE_BOOTLOADER_SIZE_def STM32F0_FIRMWARE_SIZE_def STM32F0_FIRMWARE_ACTIVE_POS_START_def
  STM32F0_FIRMWARE_NEW_POS_START_def STM32F0_UID_POSITION_def STM32F0_ACTIVE_DEVICE_IDENTIFIER_POSITION_def
  STM32F0_NEW_CRC_POSITION_def STM32F0_NEW_LENGTH_POSITION_def STM32F0_NEW_MAGIC_NUMBER_POSITION_def
  STM32F0_NEW_DEVICE_IDENTIFIER_POSITION_def STM32F0_BOOT_INFO_POSITION_def FLASH_END_def

section \<open>The flash functions\<close>

text \<open>Unlocking and locking, erasing pages (the page that holds the address and those after it),
  programming a word, the mapped memory and the size of a page. A status is whether it is
  \<^verbatim>\<open>HAL_OK\<close>.\<close>

record 'f hal_flash =
  HAL_FLASH_Unlock :: "'f \<Rightarrow> 'f"
  HAL_FLASH_Lock :: "'f \<Rightarrow> 'f"
  HAL_FLASHEx_Erase :: "u32 \<Rightarrow> nat \<Rightarrow> 'f \<Rightarrow> bool \<times> 'f"
  HAL_FLASH_Program :: "u32 \<Rightarrow> u32 \<Rightarrow> 'f \<Rightarrow> bool \<times> 'f"
  flash_mem :: "'f \<Rightarrow> nat \<Rightarrow> u8"
  FLASH_PAGE_SIZE :: nat

definition read_u32 :: "'f hal_flash \<Rightarrow> 'f \<Rightarrow> nat \<Rightarrow> u32" where
  "read_u32 hal f p = read_word (flash_mem hal f) p"

section \<open>Checks of a firmware\<close>

definition TNG_FIRMWARE_COPY_STATUS_OK :: u8 where "TNG_FIRMWARE_COPY_STATUS_OK = 0"
definition TNG_FIRMWARE_COPY_STATUS_DEVICE_IDENTIFIER_INCORRECT :: u8 where
  "TNG_FIRMWARE_COPY_STATUS_DEVICE_IDENTIFIER_INCORRECT = 1"
definition TNG_FIRMWARE_COPY_STATUS_MAGIC_NUMBER_INCORRECT :: u8 where
  "TNG_FIRMWARE_COPY_STATUS_MAGIC_NUMBER_INCORRECT = 2"
definition TNG_FIRMWARE_COPY_STATUS_LENGTH_MALFORMED :: u8 where "TNG_FIRMWARE_COPY_STATUS_LENGTH_MALFORMED = 3"
definition TNG_FIRMWARE_COPY_STATUS_CRC_MISMATCH :: u8 where "TNG_FIRMWARE_COPY_STATUS_CRC_MISMATCH = 4"

definition tng_firmware_get_crc :: "'f hal_flash \<Rightarrow> 'f \<Rightarrow> u32" where
  "tng_firmware_get_crc hal f = read_u32 hal f STM32F0_NEW_CRC_POSITION"

definition tng_firmware_get_length :: "'f hal_flash \<Rightarrow> 'f \<Rightarrow> u32" where
  "tng_firmware_get_length hal f = read_u32 hal f STM32F0_NEW_LENGTH_POSITION"

definition tng_firmware_check_device_identifier :: "'f hal_flash \<Rightarrow> 'f \<Rightarrow> bool" where
  "tng_firmware_check_device_identifier hal f \<longleftrightarrow>
     read_u32 hal f STM32F0_NEW_DEVICE_IDENTIFIER_POSITION = read_u32 hal f STM32F0_ACTIVE_DEVICE_IDENTIFIER_POSITION"

definition tng_firmware_check_magic_number :: "'f hal_flash \<Rightarrow> 'f \<Rightarrow> bool" where
  "tng_firmware_check_magic_number hal f \<longleftrightarrow> read_u32 hal f STM32F0_NEW_MAGIC_NUMBER_POSITION = STM32F0_MAGIC_NUMBER"

definition tng_firmware_check_length :: "'f hal_flash \<Rightarrow> 'f \<Rightarrow> bool" where
  "tng_firmware_check_length hal f \<longleftrightarrow>
     unat (tng_firmware_get_length hal f) < STM32F0_FIRMWARE_SIZE - FLASH_PAGE_SIZE hal"

definition tng_firmware_check_crc :: "'f hal_flash \<Rightarrow> 'f \<Rightarrow> bool option" where
  "tng_firmware_check_crc hal f =
     (let len = unat (tng_firmware_get_length hal f - 8); p = STM32F0_FIRMWARE_NEW_POS_START + 8 in
      if p + len \<le> FLASH_END then Some (tng_firmware_get_crc hal f = crc32_ieee_802_3 (flash_mem hal f) p len)
      else None)"

definition tng_firmware_check_all :: "'f hal_flash \<Rightarrow> 'f \<Rightarrow> u8 option" where
  "tng_firmware_check_all hal f =
     (if \<not> tng_firmware_check_device_identifier hal f
      then Some TNG_FIRMWARE_COPY_STATUS_DEVICE_IDENTIFIER_INCORRECT
      else if \<not> tng_firmware_check_magic_number hal f then Some TNG_FIRMWARE_COPY_STATUS_MAGIC_NUMBER_INCORRECT
      else if \<not> tng_firmware_check_length hal f then Some TNG_FIRMWARE_COPY_STATUS_LENGTH_MALFORMED
      else do {
        matches \<leftarrow> tng_firmware_check_crc hal f;
        Some (if \<not> matches then TNG_FIRMWARE_COPY_STATUS_CRC_MISMATCH else TNG_FIRMWARE_COPY_STATUS_OK)
      })"

definition tng_firmware_get_boot_info :: "'f hal_flash \<Rightarrow> 'f \<Rightarrow> u32" where
  "tng_firmware_get_boot_info hal f = read_u32 hal f STM32F0_BOOT_INFO_POSITION"

section \<open>Writes\<close>

text \<open>Boot information and UID are written in the same way: a page is erased and a word programmed. The
  result is whether both were successful.\<close>

definition write_word_page :: "'f hal_flash \<Rightarrow> nat \<Rightarrow> u32 \<Rightarrow> 'f \<Rightarrow> bool \<times> 'f" where
  "write_word_page hal p w f =
     (let (erased, f2) = HAL_FLASHEx_Erase hal (of_nat p) 1 (HAL_FLASH_Unlock hal f) in
      if \<not> erased then (False, HAL_FLASH_Lock hal f2)
      else let (programmed, f3) = HAL_FLASH_Program hal (of_nat p) w f2 in (programmed, HAL_FLASH_Lock hal f3))"

definition tng_firmware_set_boot_info :: "'f hal_flash \<Rightarrow> u32 \<Rightarrow> 'f \<Rightarrow> 'f" where
  "tng_firmware_set_boot_info hal boot_info f = snd (write_word_page hal STM32F0_BOOT_INFO_POSITION boot_info f)"

definition tng_get_uid :: "'f hal_flash \<Rightarrow> 'f \<Rightarrow> u32" where
  "tng_get_uid hal f =
     (let uid = read_u32 hal f STM32F0_UID_POSITION in if uid = 0 \<or> uid = 0xFFFFFFFF then 2 else uid)"

datatype response = NEW_MESSAGE | EMPTY | NOT_SUPPORTED | INVALID_PARAMETER | NONE

definition tng_write_uid :: "'f hal_flash \<Rightarrow> u32 \<Rightarrow> 'f \<Rightarrow> response \<times> 'f" where
  "tng_write_uid hal uid f =
     (if uid = 0 \<or> uid = 1 \<or> uid = 0xFFFFFFFF then (INVALID_PARAMETER, f)
      else let (ok, f1) = write_word_page hal STM32F0_UID_POSITION uid f
           in (if ok then EMPTY else INVALID_PARAMETER, f1))"

definition TNG_WRITE_FIRMWARE_CHUNK_SIZE :: nat where "TNG_WRITE_FIRMWARE_CHUNK_SIZE = 64"
definition TNG_WRITE_FIRMWARE_STATUS_OK :: u8 where "TNG_WRITE_FIRMWARE_STATUS_OK = 0"
definition TNG_WRITE_FIRMWARE_STATUS_INVALID_POINTER :: u8 where "TNG_WRITE_FIRMWARE_STATUS_INVALID_POINTER = 1"

fun program_chunk :: "'f hal_flash \<Rightarrow> u32 \<Rightarrow> u8 list \<Rightarrow> 'f \<Rightarrow> bool \<times> 'f" where
  "program_chunk hal p (b0 # b1 # b2 # b3 # bs) f =
     (let (ok, f1) = HAL_FLASH_Program hal p (un_le32 b0 b1 b2 b3) f in
      if \<not> ok then (False, f1) else program_chunk hal (p + 4) bs f1)"
| "program_chunk hal p bs f = (True, f)"

definition tng_write_firmware :: "'f hal_flash \<Rightarrow> u32 \<Rightarrow> u8 list \<Rightarrow> 'f \<Rightarrow> u8 \<times> 'f" where
  "tng_write_firmware hal tng_firmware_pointer data f =
     (let f1 = HAL_FLASH_Unlock hal f;
          (erased, f2) = (if tng_firmware_pointer = 0
             then HAL_FLASHEx_Erase hal (of_nat STM32F0_FIRMWARE_NEW_POS_START)
                    (STM32F0_FIRMWARE_SIZE div FLASH_PAGE_SIZE hal) f1
             else (True, f1)) in
      if \<not> erased then (TNG_WRITE_FIRMWARE_STATUS_INVALID_POINTER, HAL_FLASH_Lock hal f2)
      else let (ok, f3) = program_chunk hal (of_nat STM32F0_FIRMWARE_NEW_POS_START + tng_firmware_pointer) data f2
           in (if ok then TNG_WRITE_FIRMWARE_STATUS_OK else TNG_WRITE_FIRMWARE_STATUS_INVALID_POINTER,
               HAL_FLASH_Lock hal f3))"

definition tng_copy_firmware :: "'f hal_flash \<Rightarrow> 'f \<Rightarrow> (u8 \<times> 'f) option" where
  "tng_copy_firmware hal f = do {
     status \<leftarrow> tng_firmware_check_all hal f;
     Some (status, if status = TNG_FIRMWARE_COPY_STATUS_OK then tng_firmware_set_boot_info hal 0xFFFFFFFF f else f)
   }"

section \<open>What the code relies on\<close>

definition in_pages :: "nat \<Rightarrow> nat \<Rightarrow> nat \<Rightarrow> bool" where
  "in_pages a n p \<longleftrightarrow> a div 2048 \<le> p div 2048 \<and> p div 2048 < a div 2048 + n"

locale flash =
  fixes hal :: "'f hal_flash" and unlocked :: "'f \<Rightarrow> bool"
  assumes page_size: "FLASH_PAGE_SIZE hal = 2048"
    and unlock: "unlocked (HAL_FLASH_Unlock hal f) \<and> flash_mem hal (HAL_FLASH_Unlock hal f) = flash_mem hal f"
    and lock: "flash_mem hal (HAL_FLASH_Lock hal f) = flash_mem hal f"
    and erase: "unlocked f \<Longrightarrow> STM32F0_BOOTLOADER_POS_START \<le> unat a \<Longrightarrow> unat a div 2048 + n \<le> FLASH_END div 2048 \<Longrightarrow>
      \<exists>f'. HAL_FLASHEx_Erase hal a n f = (True, f') \<and> unlocked f' \<and>
        flash_mem hal f' = (\<lambda>p. if in_pages (unat a) n p then 0xFF else flash_mem hal f p)"
    and program_word: "unlocked f \<Longrightarrow> STM32F0_BOOTLOADER_POS_START \<le> unat a \<Longrightarrow> unat a + 4 \<le> FLASH_END \<Longrightarrow>
      unat a mod 4 = 0 \<Longrightarrow> mem_bytes (flash_mem hal f) (unat a) 4 = replicate 4 0xFF \<Longrightarrow>
      \<exists>f'. HAL_FLASH_Program hal a w f = (True, f') \<and> unlocked f' \<and>
        mem_bytes (flash_mem hal f') (unat a) 4 = le32 w \<and>
        (\<forall>p. p < unat a \<or> unat a + 4 \<le> p \<longrightarrow> flash_mem hal f' p = flash_mem hal f p)"

lemma le32_un_le32: "le32 (un_le32 a b c d) = [a, b, c, d]"
proof -
  have "ucast (un_le32 a b c d) = a" "ucast (drop_bit 8 (un_le32 a b c d)) = b"
    "ucast (drop_bit 16 (un_le32 a b c d)) = c" "ucast (drop_bit 24 (un_le32 a b c d)) = d"
    by (rule bit_word_eqI, auto simp: un_le32_def bit_simps dest: bit_imp_le_length)+
  then show ?thesis by (simp add: le32_def)
qed

lemma read_word_bytes: "mem_bytes mem p 4 = [a, b, c, d] \<Longrightarrow> read_word mem p = un_le32 a b c d"
  by (auto simp: mem_bytes_def read_word_def numeral_eq_Suc)

lemma read_word_le32: "mem_bytes mem p 4 = le32 w \<Longrightarrow> read_word mem p = w"
  using read_word_bytes[of mem p "ucast w" "ucast (drop_bit 8 w)" "ucast (drop_bit 16 w)" "ucast (drop_bit 24 w)"]
    un_le32_le32[of w] by (simp add: le32_def)

lemma same_page:
  assumes "p mod 2048 = 2044" "i < 4"
  shows "(p + i) div 2048 = p div (2048 :: nat)"
proof -
  obtain k where "p = 2048 * k + 2044" using assms(1) by (metis mult_div_mod_eq)
  moreover have "(2048 * k + (2044 + i)) div 2048 = k + (2044 + i) div 2048" by (rule div_mult_self4) simp
  ultimately show ?thesis using assms(2) by (simp add: add.assoc)
qed

lemma list4_induct [consumes 1, case_names Nil Four]:
  assumes "length xs mod 4 = 0" "P []" "\<And>a b c d xs. length xs mod 4 = 0 \<Longrightarrow> P xs \<Longrightarrow> P (a # b # c # d # xs)"
  shows "P xs"
  using assms(1)
proof (induction xs rule: length_induct)
  case (1 xs)
  show ?case
  proof (cases xs)
    case Nil
    then show ?thesis using assms(2) by simp
  next
    case (Cons a ys)
    with 1(2) obtain b c d zs where "xs = a # b # c # d # zs"
      by (cases ys; cases "tl ys"; cases "tl (tl ys)") (auto simp: neq_Nil_conv)
    moreover from this 1(2) have "length zs mod 4 = 0" by simp
    ultimately show ?thesis using 1(1) assms(3) by simp
  qed
qed

lemma mem_bytes_cong: "(\<And>q. p \<le> q \<Longrightarrow> q < p + n \<Longrightarrow> mem q = mem' q) \<Longrightarrow> mem_bytes mem p n = mem_bytes mem' p n"
  by (simp add: mem_bytes_def)

lemma mem_bytes_replicate: "mem_bytes mem p n = replicate n v \<longleftrightarrow> (\<forall>q. p \<le> q \<and> q < p + n \<longrightarrow> mem q = v)"
  by (simp add: mem_bytes_def map_replicate_const list_eq_iff_nth_eq) (metis le_Suc_ex nat_add_left_cancel_less le_add1)

definition uploaded :: "(nat \<Rightarrow> u8) \<Rightarrow> (nat \<Rightarrow> u8) \<Rightarrow> u8 list \<Rightarrow> bool" where
  "uploaded m0 m bs \<longleftrightarrow> mem_bytes m STM32F0_FIRMWARE_NEW_POS_START (length bs) = bs \<and>
     (\<forall>q. STM32F0_FIRMWARE_NEW_POS_START + length bs \<le> q \<and> q < FLASH_END \<longrightarrow> m q = 0xFF) \<and>
     (\<forall>q. q < STM32F0_FIRMWARE_NEW_POS_START \<or> FLASH_END \<le> q \<longrightarrow> m q = m0 q)"

text \<open>The host sends a firmware in chunks, each after setting the pointer to its place.\<close>

fun upload :: "'f hal_flash \<Rightarrow> nat \<Rightarrow> u8 list list \<Rightarrow> 'f \<Rightarrow> u8 list \<times> 'f" where
  "upload hal p [] f = ([], f)"
| "upload hal p (c # cs) f =
     (let (status, f1) = tng_write_firmware hal (of_nat p) c f; (states, f2) = upload hal (p + length c) cs f1
      in (status # states, f2))"

context flash
begin

lemma write_word_page_ok:
  assumes "STM32F0_BOOTLOADER_POS_START \<le> p" "p + 4 \<le> FLASH_END" "p mod 2048 = 2044"
  obtains f1 where "write_word_page hal p w f = (True, f1)" "read_u32 hal f1 p = w"
    "\<forall>q. q div 2048 \<noteq> p div 2048 \<longrightarrow> flash_mem hal f1 q = flash_mem hal f q"
proof -
  have p: "unat (of_nat p :: u32) = p" using assms(2) by (simp add: unat_of_nat memory_map take_bit_nat_eq_self)
  have mod4: "p mod 4 = 0"
  proof -
    have "p mod 4 = p mod 2048 mod 4" using mod_mod_cancel[of 4 2048 p] by simp
    then show ?thesis using assms(3) by simp
  qed
  have page: "p div 2048 + 1 \<le> FLASH_END div 2048"
    using assms(2,3) div_mult_mod_eq[of p 2048] by (simp add: memory_map)
  have "unlocked (HAL_FLASH_Unlock hal f)" "flash_mem hal (HAL_FLASH_Unlock hal f) = flash_mem hal f"
    using unlock by blast+
  note unl = this
  from erase[OF unl(1), of "of_nat p" 1] obtain f2 where
    "HAL_FLASHEx_Erase hal (of_nat p) 1 (HAL_FLASH_Unlock hal f) = (True, f2)" "unlocked f2"
    "flash_mem hal f2 = (\<lambda>q. if in_pages p 1 q then 0xFF else flash_mem hal (HAL_FLASH_Unlock hal f) q)"
    using assms(1) page unfolding p by blast
  note f2 = this[unfolded unl(2)]
  have "in_pages p 1 (p + i)" if "i < 4" for i
    using same_page[OF assms(3) that] by (simp add: in_pages_def)
  then have "mem_bytes (flash_mem hal f2) p 4 = replicate 4 0xFF"
    by (simp add: mem_bytes_def f2(3) list_eq_iff_nth_eq)
  from program_word[OF f2(2), of "of_nat p" w] this obtain f3 where f3:
    "HAL_FLASH_Program hal (of_nat p) w f2 = (True, f3)" "mem_bytes (flash_mem hal f3) p 4 = le32 w"
    "\<forall>q. q < p \<or> p + 4 \<le> q \<longrightarrow> flash_mem hal f3 q = flash_mem hal f2 q"
    using assms(1,2) mod4 unfolding p by auto
  show thesis
  proof (rule that[of "HAL_FLASH_Lock hal f3"])
    show "write_word_page hal p w f = (True, HAL_FLASH_Lock hal f3)"
      using f2(1) f3(1) by (simp add: write_word_page_def)
    show "read_u32 hal (HAL_FLASH_Lock hal f3) p = w"
      using f3(2) by (simp add: read_u32_def lock read_word_le32)
    show "\<forall>q. q div 2048 \<noteq> p div 2048 \<longrightarrow> flash_mem hal (HAL_FLASH_Lock hal f3) q = flash_mem hal f q"
    proof (intro allI impI)
      fix q assume that: "q div 2048 \<noteq> p div 2048"
      have "q < p \<or> p + 4 \<le> q"
      proof (rule ccontr)
        assume "\<not> ?thesis"
        then have "q - p < 4" "p + (q - p) = q" by arith+
        with same_page[OF assms(3) this(1)] that show False by simp
      qed
      then have "flash_mem hal f3 q = flash_mem hal f2 q" using f3(3) by blast
      moreover have "\<not> in_pages p 1 q" using that by (auto simp: in_pages_def)
      ultimately show "flash_mem hal (HAL_FLASH_Lock hal f3) q = flash_mem hal f q" by (simp add: lock f2(3))
    qed
  qed
qed

lemma program_chunk_ok:
  "length bs mod 4 = 0 \<Longrightarrow> unlocked f \<Longrightarrow> STM32F0_BOOTLOADER_POS_START \<le> unat a \<Longrightarrow>
   unat a + length bs \<le> FLASH_END \<Longrightarrow> unat a mod 4 = 0 \<Longrightarrow>
   mem_bytes (flash_mem hal f) (unat a) (length bs) = replicate (length bs) 0xFF \<Longrightarrow>
   \<exists>f1. program_chunk hal a bs f = (True, f1) \<and> unlocked f1 \<and> mem_bytes (flash_mem hal f1) (unat a) (length bs) = bs \<and>
     (\<forall>p. p < unat a \<or> unat a + length bs \<le> p \<longrightarrow> flash_mem hal f1 p = flash_mem hal f p)"
proof (induction bs arbitrary: a f rule: list4_induct)
  case Nil
  then show ?case by simp
next
  case (Four b0 b1 b2 b3 bs)
  let ?w = "un_le32 b0 b1 b2 b3"
  have blank: "mem_bytes (flash_mem hal f) (unat a) 4 = replicate 4 0xFF"
    "mem_bytes (flash_mem hal f) (unat a + 4) (length bs) = replicate (length bs) 0xFF"
    using Four.prems(5)[unfolded mem_bytes_replicate] by (simp_all add: mem_bytes_replicate)
  obtain f1 where f1: "HAL_FLASH_Program hal a ?w f = (True, f1)" "unlocked f1"
    "mem_bytes (flash_mem hal f1) (unat a) 4 = le32 ?w"
    "\<forall>p. p < unat a \<or> unat a + 4 \<le> p \<longrightarrow> flash_mem hal f1 p = flash_mem hal f p"
    using program_word[OF Four.prems(1) Four.prems(2) _ Four.prems(4) blank(1), of ?w] Four.prems(3) by auto
  have a4: "unat (a + 4) = unat a + 4"
    using Four.prems(3) by (simp add: unat_word_ariths memory_map)
  have "mem_bytes (flash_mem hal f1) (unat (a + 4)) (length bs) = replicate (length bs) 0xFF"
    using blank(2) f1(4) unfolding a4 mem_bytes_replicate by simp
  then obtain f2 where f2: "program_chunk hal (a + 4) bs f1 = (True, f2)" "unlocked f2"
    "mem_bytes (flash_mem hal f2) (unat a + 4) (length bs) = bs"
    "\<forall>p. p < unat a + 4 \<or> unat a + 4 + length bs \<le> p \<longrightarrow> flash_mem hal f2 p = flash_mem hal f1 p"
    using Four.IH[OF f1(2), of "a + 4"] Four.prems(2-4) unfolding a4 by auto
  have "mem_bytes (flash_mem hal f2) (unat a) 4 = mem_bytes (flash_mem hal f1) (unat a) 4"
    using f2(4) by (intro mem_bytes_cong) simp
  then have "mem_bytes (flash_mem hal f2) (unat a) (4 + length bs) = [b0, b1, b2, b3] @ bs"
    by (simp only: mem_bytes_add f1(3) f2(3) le32_un_le32)
  then have "mem_bytes (flash_mem hal f2) (unat a) (length (b0 # b1 # b2 # b3 # bs)) = b0 # b1 # b2 # b3 # bs"
    by (simp add: eval_nat_numeral)
  then show ?case using f1 f2 by (intro exI[of _ f2]) simp
qed

text \<open>A part of a firmware is in place: the rest of its area is erased and nothing else has changed.\<close>

lemma write_firmware_program:
  assumes "unlocked f" "uploaded m0 (flash_mem hal f) bs" "length bs mod 4 = 0" "length c mod 4 = 0"
    "length bs + length c \<le> STM32F0_FIRMWARE_SIZE"
  shows "\<exists>f1. program_chunk hal (of_nat STM32F0_FIRMWARE_NEW_POS_START + of_nat (length bs)) c f = (True, f1) \<and>
    uploaded m0 (flash_mem hal f1) (bs @ c)"
proof -
  let ?a = "of_nat STM32F0_FIRMWARE_NEW_POS_START + of_nat (length bs) :: u32"
  have a: "unat ?a = STM32F0_FIRMWARE_NEW_POS_START + length bs"
  proof -
    have "?a = of_nat (STM32F0_FIRMWARE_NEW_POS_START + length bs)" by simp
    moreover have "STM32F0_FIRMWARE_NEW_POS_START + length bs < 2 ^ 32" using assms(5) by (simp add: memory_map)
    ultimately show ?thesis by (simp only: unat_of_nat take_bit_nat_eq_self) (simp add: take_bit_nat_eq_self)
  qed
  have "unat ?a mod 4 = 0" unfolding a using assms(3) by (simp add: memory_map mod_add_eq[symmetric])
  moreover have "mem_bytes (flash_mem hal f) (unat ?a) (length c) = replicate (length c) 0xFF"
    using assms(2,5) unfolding mem_bytes_replicate a by (auto simp: uploaded_def memory_map)
  ultimately obtain f1 where f1: "program_chunk hal ?a c f = (True, f1)"
    "mem_bytes (flash_mem hal f1) (STM32F0_FIRMWARE_NEW_POS_START + length bs) (length c) = c"
    "\<forall>p. p < STM32F0_FIRMWARE_NEW_POS_START + length bs \<or> STM32F0_FIRMWARE_NEW_POS_START + length bs + length c \<le> p
      \<longrightarrow> flash_mem hal f1 p = flash_mem hal f p"
    using program_chunk_ok[of c f ?a] assms(1,4,5) unfolding a by (auto simp: memory_map)
  have "mem_bytes (flash_mem hal f1) STM32F0_FIRMWARE_NEW_POS_START (length bs) =
    mem_bytes (flash_mem hal f) STM32F0_FIRMWARE_NEW_POS_START (length bs)"
    using f1(3) by (intro mem_bytes_cong) simp
  then have "mem_bytes (flash_mem hal f1) STM32F0_FIRMWARE_NEW_POS_START (length bs + length c) = bs @ c"
    using assms(2) f1(2) by (simp add: mem_bytes_add uploaded_def)
  moreover have "STM32F0_FIRMWARE_NEW_POS_START + STM32F0_FIRMWARE_SIZE = FLASH_END" by (simp add: memory_map)
  then have "flash_mem hal f1 q = flash_mem hal f q" if "q < STM32F0_FIRMWARE_NEW_POS_START \<or> FLASH_END \<le> q" for q
    using that f1(3) assms(5) by (elim disjE) simp_all
  ultimately show ?thesis
    using f1 assms(2) by (intro exI[of _ f1]) (simp add: uploaded_def)
qed

lemma write_firmware_first:
  assumes "length c mod 4 = 0" "length c \<le> STM32F0_FIRMWARE_SIZE"
  shows "\<exists>f1. tng_write_firmware hal 0 c f = (TNG_WRITE_FIRMWARE_STATUS_OK, f1) \<and>
    uploaded (flash_mem hal f) (flash_mem hal f1) c"
proof -
  let ?new = "of_nat STM32F0_FIRMWARE_NEW_POS_START :: u32"
  have new: "unat ?new = STM32F0_FIRMWARE_NEW_POS_START" by (simp add: memory_map)
  have n: "STM32F0_FIRMWARE_SIZE div FLASH_PAGE_SIZE hal = 30" by (simp add: page_size memory_map)
  have unl: "unlocked (HAL_FLASH_Unlock hal f)" "flash_mem hal (HAL_FLASH_Unlock hal f) = flash_mem hal f"
    using unlock by blast+
  have "in_pages STM32F0_FIRMWARE_NEW_POS_START 30 q \<longleftrightarrow> STM32F0_FIRMWARE_NEW_POS_START \<le> q \<and> q < FLASH_END" for q
    by (simp add: in_pages_def memory_map less_eq_div_iff_mult_less_eq div_less_iff_less_mult)
  with erase[OF unl(1), of ?new 30] obtain f2 where f2:
    "HAL_FLASHEx_Erase hal ?new 30 (HAL_FLASH_Unlock hal f) = (True, f2)" "unlocked f2"
    "flash_mem hal f2 = (\<lambda>q. if STM32F0_FIRMWARE_NEW_POS_START \<le> q \<and> q < FLASH_END then 0xFF
       else flash_mem hal (HAL_FLASH_Unlock hal f) q)"
    unfolding new by (auto simp: memory_map)
  have "uploaded (flash_mem hal f) (flash_mem hal f2) []"
    by (auto simp: uploaded_def f2(3) unl(2))
  from write_firmware_program[OF f2(2) this _ assms(1)] assms(2) obtain f3 where
    "program_chunk hal ?new c f2 = (True, f3)" "uploaded (flash_mem hal f) (flash_mem hal f3) c"
    by auto
  then show ?thesis
    using f2(1) by (intro exI[of _ "HAL_FLASH_Lock hal f3"]) (simp add: tng_write_firmware_def n lock)
qed

lemma write_firmware_next:
  assumes "uploaded m0 (flash_mem hal f) bs" "bs \<noteq> []" "length bs mod 4 = 0" "length c mod 4 = 0"
    "length bs + length c \<le> STM32F0_FIRMWARE_SIZE"
  shows "\<exists>f1. tng_write_firmware hal (of_nat (length bs)) c f = (TNG_WRITE_FIRMWARE_STATUS_OK, f1) \<and>
    uploaded m0 (flash_mem hal f1) (bs @ c)"
proof -
  have unl: "unlocked (HAL_FLASH_Unlock hal f)" "flash_mem hal (HAL_FLASH_Unlock hal f) = flash_mem hal f"
    using unlock by blast+
  have "length bs < 2 ^ 32" using assms(5) by (simp add: memory_map)
  then have "(of_nat (length bs) :: u32) \<noteq> 0" using assms(2) by (auto simp: word_of_nat_eq_0_iff dest: dvd_imp_le)
  moreover obtain f1 where "program_chunk hal (of_nat STM32F0_FIRMWARE_NEW_POS_START + of_nat (length bs)) c
      (HAL_FLASH_Unlock hal f) = (True, f1)" "uploaded m0 (flash_mem hal f1) (bs @ c)"
    using write_firmware_program[OF unl(1) _ assms(3-5), of m0] assms(1) unl(2) by auto
  ultimately show ?thesis
    by (intro exI[of _ "HAL_FLASH_Lock hal f1"]) (simp add: tng_write_firmware_def lock)
qed

lemma upload_next:
  assumes "list_all (\<lambda>c. length c mod 4 = 0) cs" "uploaded m0 (flash_mem hal f) bs" "bs \<noteq> []" "length bs mod 4 = 0"
    "length bs + length (concat cs) \<le> STM32F0_FIRMWARE_SIZE"
  shows "\<exists>f1. upload hal (length bs) cs f = (replicate (length cs) TNG_WRITE_FIRMWARE_STATUS_OK, f1) \<and>
    uploaded m0 (flash_mem hal f1) (bs @ concat cs)"
  using assms
proof (induction cs arbitrary: f bs)
  case Nil
  then show ?case by simp
next
  case (Cons c cs)
  have c: "length c mod 4 = 0" "list_all (\<lambda>c. length c mod 4 = 0) cs"
    "length bs + length c + length (concat cs) \<le> STM32F0_FIRMWARE_SIZE" using Cons.prems(1,5) by simp_all
  obtain f1 where f1: "tng_write_firmware hal (of_nat (length bs)) c f = (TNG_WRITE_FIRMWARE_STATUS_OK, f1)"
    "uploaded m0 (flash_mem hal f1) (bs @ c)"
    using write_firmware_next[OF Cons.prems(2-4) c(1)] c(3) by auto
  have "length (bs @ c) mod 4 = 0" using Cons.prems(4) c(1) by (simp add: mod_add_eq[symmetric])
  then obtain f2 where "upload hal (length (bs @ c)) cs f1 = (replicate (length cs) TNG_WRITE_FIRMWARE_STATUS_OK, f2)"
    "uploaded m0 (flash_mem hal f2) ((bs @ c) @ concat cs)"
    using Cons.IH[OF c(2) f1(2)] Cons.prems(3) c(3) by auto
  then show ?case by (simp add: f1(1))
qed

lemma upload_ok:
  assumes "list_all (\<lambda>c. length c = 64) cs" "cs \<noteq> []" "length (concat cs) \<le> STM32F0_FIRMWARE_SIZE"
  shows "\<exists>f1. upload hal 0 cs f = (replicate (length cs) TNG_WRITE_FIRMWARE_STATUS_OK, f1) \<and>
    uploaded (flash_mem hal f) (flash_mem hal f1) (concat cs)"
proof -
  obtain c cs' where cs: "cs = c # cs'" using assms(2) by (cases cs) auto
  have c: "length c = 64" "list_all (\<lambda>c. length c mod 4 = 0) cs'"
    using assms(1) by (auto simp: cs list_all_iff)
  have c0: "c \<noteq> []" using c(1) by auto
  obtain f1 where f1: "tng_write_firmware hal 0 c f = (TNG_WRITE_FIRMWARE_STATUS_OK, f1)"
    "uploaded (flash_mem hal f) (flash_mem hal f1) c"
    using write_firmware_first[of c f] c(1) assms(3) by (auto simp: cs)
  moreover obtain f2 where "upload hal (length c) cs' f1 = (replicate (length cs') TNG_WRITE_FIRMWARE_STATUS_OK, f2)"
    "uploaded (flash_mem hal f) (flash_mem hal f2) (c @ concat cs')"
    using upload_next[OF c(2) f1(2) c0] c(1) assms(3) by (auto simp: cs)
  ultimately show ?thesis by (simp add: cs)
qed

end

section \<open>A firmware arrives\<close>

definition image_word :: "u8 list \<Rightarrow> nat \<Rightarrow> u32" where
  "image_word img k = un_le32 (img ! k) (img ! (k + 1)) (img ! (k + 2)) (img ! (k + 3))"

lemma uploaded_nth:
  assumes "uploaded m0 m bs" "i < length bs"
  shows "m (STM32F0_FIRMWARE_NEW_POS_START + i) = bs ! i"
proof -
  have "mem_bytes m STM32F0_FIRMWARE_NEW_POS_START (length bs) ! i = bs ! i" using assms(1) by (simp add: uploaded_def)
  with assms(2) show ?thesis by (simp add: mem_bytes_def)
qed

lemma uploaded_word:
  assumes "uploaded m0 m bs" "k + 4 \<le> length bs"
  shows "read_word m (STM32F0_FIRMWARE_NEW_POS_START + k) = image_word bs k"
proof -
  have "m (STM32F0_FIRMWARE_NEW_POS_START + k + i) = bs ! (k + i)" if "i < 4" for i
    using uploaded_nth[OF assms(1), of "k + i"] that assms(2) by (simp add: add.assoc)
  from this[of 0] this[of 1] this[of 2] this[of 3] show ?thesis by (simp add: read_word_def image_word_def)
qed

lemma uploaded_bytes:
  assumes "uploaded m0 m bs" "k + n \<le> length bs"
  shows "mem_bytes m (STM32F0_FIRMWARE_NEW_POS_START + k) n = take n (drop k bs)"
  using assms(2) uploaded_nth[OF assms(1), of "k + i" for i]
  by (auto simp: mem_bytes_def list_eq_iff_nth_eq add.assoc)

lemma firmware_positions:
  "STM32F0_NEW_CRC_POSITION = STM32F0_FIRMWARE_NEW_POS_START + 0"
  "STM32F0_NEW_LENGTH_POSITION = STM32F0_FIRMWARE_NEW_POS_START + 4"
  "STM32F0_NEW_MAGIC_NUMBER_POSITION = STM32F0_FIRMWARE_NEW_POS_START + 8"
  "STM32F0_NEW_DEVICE_IDENTIFIER_POSITION = STM32F0_FIRMWARE_NEW_POS_START + 12"
  by (simp_all add: memory_map)

lemma word_pages:
  "STM32F0_BOOTLOADER_POS_START \<le> STM32F0_BOOT_INFO_POSITION" "STM32F0_BOOT_INFO_POSITION + 4 \<le> FLASH_END"
  "STM32F0_BOOT_INFO_POSITION mod 2048 = 2044"
  "STM32F0_BOOTLOADER_POS_START \<le> STM32F0_UID_POSITION" "STM32F0_UID_POSITION + 4 \<le> FLASH_END"
  "STM32F0_UID_POSITION mod 2048 = 2044"
  by (simp_all add: memory_map)

definition image_accepted :: "u8 list \<Rightarrow> u32 \<Rightarrow> bool" where
  "image_accepted img device \<longleftrightarrow> image_word img 12 = device \<and> image_word img 8 = STM32F0_MAGIC_NUMBER \<and>
     image_word img 0 = crc32_reference (take (unat (image_word img 4) - 8) (drop 8 img)) 0"

lemma check_uploaded:
  assumes "uploaded m0 (flash_mem hal f) img" "FLASH_PAGE_SIZE hal = 2048" "16 \<le> length img"
    "12 \<le> unat (image_word img 4)" "unat (image_word img 4) \<le> length img"
    "unat (image_word img 4) < STM32F0_FIRMWARE_SIZE - 2048"
  shows "\<exists>status. tng_firmware_check_all hal f = Some status \<and>
    (status = TNG_FIRMWARE_COPY_STATUS_OK \<longleftrightarrow>
      image_accepted img (read_word m0 STM32F0_ACTIVE_DEVICE_IDENTIFIER_POSITION))"
proof -
  let ?m = "flash_mem hal f"
  have len: "tng_firmware_get_length hal f = image_word img 4"
    using uploaded_word[OF assms(1), of 4] assms(3) by (simp add: tng_firmware_get_length_def read_u32_def firmware_positions)
  have words: "read_word ?m STM32F0_NEW_CRC_POSITION = image_word img 0"
    "read_word ?m STM32F0_NEW_MAGIC_NUMBER_POSITION = image_word img 8"
    "read_word ?m STM32F0_NEW_DEVICE_IDENTIFIER_POSITION = image_word img 12"
    using uploaded_word[OF assms(1), of 0] uploaded_word[OF assms(1), of 8] uploaded_word[OF assms(1), of 12] assms(3)
    by (simp_all add: firmware_positions)
  have "?m q = m0 q" if "q < STM32F0_FIRMWARE_NEW_POS_START" for q using assms(1) that by (simp add: uploaded_def)
  then have active: "read_word ?m STM32F0_ACTIVE_DEVICE_IDENTIFIER_POSITION = read_word m0 STM32F0_ACTIVE_DEVICE_IDENTIFIER_POSITION"
    by (simp add: read_word_def memory_map)
  define n where "n = unat (image_word img 4) - 8"
  have n: "unat (image_word img 4 - 8) = n" using assms(4) by (simp add: n_def unat_sub word_le_nat_alt)
  have "4 \<le> n" "8 + n \<le> length img" using assms(4,5) by (simp_all add: n_def)
  then have crc: "crc32_ieee_802_3 ?m (STM32F0_FIRMWARE_NEW_POS_START + 8) n = crc32_reference (take n (drop 8 img)) 0"
    using uploaded_bytes[OF assms(1), of 8 n] by (simp add: crc32_ieee_802_3_def crc32_words_rule)
  have "STM32F0_FIRMWARE_NEW_POS_START + 8 + n \<le> FLASH_END"
    using assms(6) by (simp add: n_def memory_map)
  then have "tng_firmware_check_crc hal f = Some (image_word img 0 = crc32_reference (take n (drop 8 img)) 0)"
    by (simp add: tng_firmware_check_crc_def len n crc tng_firmware_get_crc_def read_u32_def words Let_def)
  then show ?thesis
    using assms(2,6) by (simp add: tng_firmware_check_all_def tng_firmware_check_device_identifier_def
        tng_firmware_check_magic_number_def tng_firmware_check_length_def len read_u32_def words active
        image_accepted_def n_def TNG_FIRMWARE_COPY_STATUS_OK_def TNG_FIRMWARE_COPY_STATUS_DEVICE_IDENTIFIER_INCORRECT_def
        TNG_FIRMWARE_COPY_STATUS_MAGIC_NUMBER_INCORRECT_def TNG_FIRMWARE_COPY_STATUS_CRC_MISMATCH_def)
qed


text \<open>On a working flash the UID that is written is the one that is read, firmware and boot
  information stay; the UIDs that mean something else are refused.\<close>

theorem tng_uid_roundtrip:
  assumes "flash hal unlocked"
  shows "(uid \<in> {0, 1, 0xFFFFFFFF} \<longrightarrow> tng_write_uid hal uid f = (INVALID_PARAMETER, f)) \<and>
    (uid \<notin> {0, 1, 0xFFFFFFFF} \<longrightarrow> (\<exists>f1. tng_write_uid hal uid f = (EMPTY, f1) \<and> tng_get_uid hal f1 = uid \<and>
      (\<forall>q. q div 2048 \<noteq> STM32F0_UID_POSITION div 2048 \<longrightarrow> flash_mem hal f1 q = flash_mem hal f q)))"
proof -
  obtain f1 where "write_word_page hal STM32F0_UID_POSITION uid f = (True, f1)"
    "read_u32 hal f1 STM32F0_UID_POSITION = uid"
    "\<forall>q. q div 2048 \<noteq> STM32F0_UID_POSITION div 2048 \<longrightarrow> flash_mem hal f1 q = flash_mem hal f q"
    by (rule flash.write_word_page_ok[OF assms word_pages(4-6), where w = uid and f = f])
  then show ?thesis by (auto simp: tng_write_uid_def tng_get_uid_def)
qed

text \<open>The check of a firmware reads beyond the flash exactly when identifier and magic number are
  right and its length is below eight: the length has an upper bound only, and eight is subtracted from
  it.\<close>

theorem short_firmware_faults:
  assumes "FLASH_PAGE_SIZE hal = 2048"
  shows "tng_firmware_check_all hal f = None \<longleftrightarrow> tng_firmware_check_device_identifier hal f \<and>
    tng_firmware_check_magic_number hal f \<and> unat (tng_firmware_get_length hal f) < 8"
proof -
  define l where "l = tng_firmware_get_length hal f"
  have short: "tng_firmware_check_crc hal f = None" if "unat l < 8"
  proof -
    have "unat (l - 8) = 2 ^ 32 + unat l - 8" using that by (simp add: unat_sub_if_size word_le_nat_alt word_size)
    then show ?thesis by (simp add: tng_firmware_check_crc_def l_def[symmetric] memory_map)
  qed
  have "tng_firmware_check_crc hal f \<noteq> None" if "8 \<le> unat l" "unat l < STM32F0_FIRMWARE_SIZE - 2048"
  proof -
    have "unat (l - 8) = unat l - 8" using that(1) by (simp add: unat_sub word_le_nat_alt)
    then show ?thesis using that(2) by (simp add: tng_firmware_check_crc_def l_def[symmetric] memory_map Let_def)
  qed
  moreover have "unat l < 8 \<Longrightarrow> unat l < STM32F0_FIRMWARE_SIZE - 2048" by (simp add: memory_map)
  ultimately show ?thesis
    using short assms unfolding tng_firmware_check_all_def tng_firmware_check_length_def l_def[symmetric]
    by (cases "tng_firmware_check_crc hal f"; cases "unat l < 8") auto
qed

section \<open>A flash in memory\<close>

definition ram_flash :: "(bool \<times> (nat \<Rightarrow> u8)) hal_flash" where
  "ram_flash = \<lparr> HAL_FLASH_Unlock = \<lambda>(l, m). (True, m), HAL_FLASH_Lock = \<lambda>(l, m). (False, m),
     HAL_FLASHEx_Erase = \<lambda>a n (l, m). if l then (True, l, \<lambda>p. if in_pages (unat a) n p then 0xFF else m p) else (False, l, m),
     HAL_FLASH_Program = \<lambda>a w (l, m). if l then (True, l, m(unat a := ucast w, unat a + 1 := ucast (drop_bit 8 w),
       unat a + 2 := ucast (drop_bit 16 w), unat a + 3 := ucast (drop_bit 24 w))) else (False, l, m),
     flash_mem = snd, FLASH_PAGE_SIZE = 2048 \<rparr>"

lemma mem_bytes_four: "mem_bytes m a 4 = [m a, m (a + 1), m (a + 2), m (a + 3)]"
  by (simp add: mem_bytes_def numeral_eq_Suc)

lemma ram_flash_simps [simp]:
  "HAL_FLASH_Unlock ram_flash (l, m) = (True, m)" "HAL_FLASH_Lock ram_flash (l, m) = (False, m)"
  "HAL_FLASHEx_Erase ram_flash a n (True, m) = (True, True, \<lambda>p. if in_pages (unat a) n p then 0xFF else m p)"
  "flash_mem ram_flash (l, m) = m" "FLASH_PAGE_SIZE ram_flash = 2048"
  by (simp_all add: ram_flash_def)

interpretation ram_flash: flash ram_flash fst
proof (unfold_locales, goal_cases)
  case (4 f a n)
  then obtain m where f: "f = (True, m)" by (cases f) simp
  show ?case unfolding f ram_flash_simps(3)
    by (intro exI[of _ "(True, \<lambda>p. if in_pages (unat a) n p then 0xFF else m p)"]) (simp add: fun_eq_iff)
next
  case (5 f a w)
  then show ?case by (cases f) (simp add: ram_flash_def mem_bytes_four le32_def)
qed auto

lemma tng_uid_roundtrip_witness:
  "\<exists>f1. tng_write_uid ram_flash 77 (False, \<lambda>p. 0) = (EMPTY, f1) \<and> tng_get_uid ram_flash f1 = 77"
  using tng_uid_roundtrip[OF ram_flash.flash_axioms, of 77 "(False, \<lambda>p. 0)"] by auto

definition short_firmware :: "nat \<Rightarrow> u8" where
  "short_firmware p = (if p = 0x8011008 then 0xEF else if p = 0x8011009 then 0xBE else if p = 0x801100A then 0xAD
     else if p = 0x801100B then 0xDE else 0)"

lemma short_firmware_faults_witness: "tng_firmware_check_all ram_flash (False, short_firmware) = None"
proof -
  have "read_word short_firmware 0x8011008 = 0xDEADBEEF" "read_word short_firmware 0x8011004 = 0"
    "read_word short_firmware 0x801100C = 0" "read_word short_firmware 0x800200C = 0"
    by (simp_all add: read_word_def short_firmware_def un_le32_def)
  then show ?thesis
    by (subst short_firmware_faults) (simp_all add: tng_firmware_check_device_identifier_def
      tng_firmware_check_magic_number_def tng_firmware_get_length_def read_u32_def memory_map STM32F0_MAGIC_NUMBER_def)
qed

text \<open>An image of one chunk for the device identifier 0: checksum, length 16, magic number, identifier.\<close>

definition small_image :: "u8 list" where
  "small_image = [0x51, 0x1F, 0xDF, 0xDC, 16, 0, 0, 0, 0xEF, 0xBE, 0xAD, 0xDE,
     0, 0, 0, 0] @ replicate 48 0"

lemma small_image_accepted: "image_accepted small_image 0"
  by (simp add: image_accepted_def image_word_def small_image_def un_le32_def STM32F0_MAGIC_NUMBER_def
      crc32_reference_def complement_crc_def crc_byte_r_def crc_step_r_eval crc32_polynomial_def funpow_8)


end
