(* ===== verification/Tng_Led.thy ===== *)
theory Tng_Led
  imports System_Timer
begin

text \<open>
  The status LED of the TNG modules (\<^verbatim>\<open>tng/tng_led.c\<close> with its two tables). The state is the
  three compare registers of the timer; the set-up of timer and pins and the channel LEDs are register
  accesses.
\<close>

section \<open>Tables\<close>

definition tng_led_cie1931 :: "u16 list" where
  "tng_led_cie1931 = [
    0, 28, 57, 85, 114, 142, 171, 199, 228, 256, 285, 313, 342, 370, 399, 427, 456, 484, 513, 541, 570,
    598, 627, 658, 689, 721, 755, 789, 825, 861, 899, 937, 977, 1018, 1060, 1103, 1147, 1192, 1239, 1287,
    1336, 1386, 1437, 1490, 1544, 1599, 1656, 1714, 1773, 1834, 1896, 1959, 2024, 2090, 2157, 2226, 2297,
    2369, 2442, 2517, 2593, 2671, 2751, 2832, 2914, 2999, 3085, 3172, 3261, 3352, 3444, 3538, 3634, 3732,
    3831, 3932, 4035, 4139, 4245, 4354, 4464, 4575, 4689, 4804, 4922, 5041, 5162, 5285, 5410, 5537, 5666,
    5797, 5930, 6065, 6202, 6341, 6482, 6626, 6771, 6918, 7068, 7220, 7373, 7529, 7687, 7848, 8010, 8175,
    8342, 8512, 8683, 8857, 9033, 9212, 9393, 9576, 9762, 9949, 10140, 10333, 10528, 10725, 10926, 11128,
    11333, 11541, 11751, 11963, 12179, 12396, 12617, 12840, 13065, 13293, 13524, 13757, 13993, 14232,
    14474, 14718, 14965, 15215, 15467, 15722, 15980, 16241, 16505, 16771, 17041, 17313, 17588, 17866,
    18147, 18431, 18717, 19007, 19300, 19596, 19894, 20196, 20501, 20809, 21119, 21433, 21750, 22071,
    22394, 22720, 23050, 23383, 23719, 24058, 24400, 24746, 25095, 25447, 25802, 26161, 26523, 26888,
    27257, 27629, 28004, 28383, 28765, 29151, 29540, 29932, 30328, 30728, 31131, 31537, 31947, 32360,
    32777, 33198, 33622, 34050, 34481, 34916, 35355, 35797, 36243, 36693, 37146, 37603, 38064, 38529,
    38997, 39469, 39945, 40425, 40908, 41396, 41887, 42382, 42881, 43384, 43891, 44401, 44916, 45435,
    45957, 46484, 47015, 47549, 48088, 48631, 49178, 49728, 50283, 50843, 51406, 51973, 52545, 53120,
    53700, 54284, 54873, 55465, 56062, 56663, 57269, 57878, 58492, 59111, 59733, 60360, 60992, 61627,
    62268, 62912, 63561, 64215, 64873, 65535]"

definition tng_led_rainbow :: "(u8 \<times> u8 \<times> u8) list" where
  "tng_led_rainbow = [
    (191, 0, 0), (191, 0, 4), (191, 0, 9), (191, 0, 13), (191, 0, 18), (191, 0, 23), (191, 0, 27),
    (191, 0, 32), (191, 0, 36), (191, 0, 41), (191, 0, 46), (191, 0, 50), (191, 0, 55), (191, 0, 59),
    (191, 0, 64), (191, 0, 69), (191, 0, 73), (191, 0, 78), (191, 0, 82), (191, 0, 87), (191, 0, 92),
    (191, 0, 96), (191, 0, 101), (191, 0, 105), (191, 0, 110), (191, 0, 115), (191, 0, 119), (191, 0, 124),
    (191, 0, 129), (191, 0, 133), (191, 0, 138), (191, 0, 142), (191, 0, 147), (191, 0, 152),
    (191, 0, 156), (191, 0, 161), (191, 0, 165), (191, 0, 170), (191, 0, 175), (191, 0, 179),
    (191, 0, 184), (191, 0, 188), (188, 0, 191), (184, 0, 191), (179, 0, 191), (175, 0, 191),
    (170, 0, 191), (165, 0, 191), (161, 0, 191), (156, 0, 191), (152, 0, 191), (147, 0, 191),
    (142, 0, 191), (138, 0, 191), (133, 0, 191), (129, 0, 191), (124, 0, 191), (119, 0, 191),
    (115, 0, 191), (110, 0, 191), (105, 0, 191), (101, 0, 191), (96, 0, 191), (92, 0, 191), (87, 0, 191),
    (82, 0, 191), (78, 0, 191), (73, 0, 191), (69, 0, 191), (64, 0, 191), (59, 0, 191), (55, 0, 191),
    (50, 0, 191), (46, 0, 191), (41, 0, 191), (36, 0, 191), (32, 0, 191), (27, 0, 191), (23, 0, 191),
    (18, 0, 191), (13, 0, 191), (9, 0, 191), (4, 0, 191), (0, 0, 191), (0, 4, 191), (0, 9, 191),
    (0, 13, 191), (0, 18, 191), (0, 23, 191), (0, 27, 191), (0, 32, 191), (0, 36, 191), (0, 41, 191),
    (0, 46, 191), (0, 50, 191), (0, 55, 191), (0, 59, 191), (0, 64, 191), (0, 69, 191), (0, 73, 191),
    (0, 78, 191), (0, 82, 191), (0, 87, 191), (0, 92, 191), (0, 96, 191), (0, 101, 191), (0, 105, 191),
    (0, 110, 191), (0, 115, 191), (0, 119, 191), (0, 124, 191), (0, 129, 191), (0, 133, 191),
    (0, 138, 191), (0, 142, 191), (0, 147, 191), (0, 152, 191), (0, 156, 191), (0, 161, 191),
    (0, 165, 191), (0, 170, 191), (0, 175, 191), (0, 179, 191), (0, 184, 191), (0, 188, 191),
    (0, 191, 188), (0, 191, 184), (0, 191, 179), (0, 191, 175), (0, 191, 170), (0, 191, 165),
    (0, 191, 161), (0, 191, 156), (0, 191, 152), (0, 191, 147), (0, 191, 142), (0, 191, 138),
    (0, 191, 133), (0, 191, 129), (0, 191, 124), (0, 191, 119), (0, 191, 115), (0, 191, 110),
    (0, 191, 105), (0, 191, 101), (0, 191, 96), (0, 191, 92), (0, 191, 87), (0, 191, 82), (0, 191, 78),
    (0, 191, 73), (0, 191, 69), (0, 191, 64), (0, 191, 59), (0, 191, 55), (0, 191, 50), (0, 191, 46),
    (0, 191, 41), (0, 191, 36), (0, 191, 32), (0, 191, 27), (0, 191, 23), (0, 191, 18), (0, 191, 13),
    (0, 191, 9), (0, 191, 4), (0, 191, 0), (4, 191, 0), (9, 191, 0), (13, 191, 0), (18, 191, 0),
    (23, 191, 0), (27, 191, 0), (32, 191, 0), (36, 191, 0), (41, 191, 0), (46, 191, 0), (50, 191, 0),
    (55, 191, 0), (59, 191, 0), (64, 191, 0), (69, 191, 0), (73, 191, 0), (78, 191, 0), (82, 191, 0),
    (87, 191, 0), (92, 191, 0), (96, 191, 0), (101, 191, 0), (105, 191, 0), (110, 191, 0), (115, 191, 0),
    (119, 191, 0), (124, 191, 0), (129, 191, 0), (133, 191, 0), (138, 191, 0), (142, 191, 0),
    (147, 191, 0), (152, 191, 0), (156, 191, 0), (161, 191, 0), (165, 191, 0), (170, 191, 0),
    (175, 191, 0), (179, 191, 0), (184, 191, 0), (188, 191, 0), (191, 188, 0), (191, 184, 0),
    (191, 179, 0), (191, 175, 0), (191, 170, 0), (191, 165, 0), (191, 161, 0), (191, 156, 0),
    (191, 152, 0), (191, 147, 0), (191, 142, 0), (191, 138, 0), (191, 133, 0), (191, 129, 0),
    (191, 124, 0), (191, 119, 0), (191, 115, 0), (191, 110, 0), (191, 105, 0), (191, 101, 0), (191, 96, 0),
    (191, 92, 0), (191, 87, 0), (191, 82, 0), (191, 78, 0), (191, 73, 0), (191, 69, 0), (191, 64, 0),
    (191, 59, 0), (191, 55, 0), (191, 50, 0), (191, 46, 0), (191, 41, 0), (191, 36, 0), (191, 32, 0),
    (191, 27, 0), (191, 23, 0), (191, 18, 0), (191, 13, 0), (191, 9, 0), (191, 4, 0), (191, 0, 0)]"

section \<open>Patterns\<close>

definition TNG_LED_PERIOD :: u16 where "TNG_LED_PERIOD = 0xFFFF"

record tng_led =
  CCR1 :: u16
  CCR2 :: u16
  CCR3 :: u16

definition tng_led_status_set :: "u8 \<Rightarrow> u8 \<Rightarrow> u8 \<Rightarrow> tng_led option" where
  "tng_led_status_set r g b = do {
     x \<leftarrow> arr_get tng_led_cie1931 (unat r);
     y \<leftarrow> arr_get tng_led_cie1931 (unat g);
     z \<leftarrow> arr_get tng_led_cie1931 (unat b);
     Some \<lparr> CCR1 = TNG_LED_PERIOD - x, CCR2 = TNG_LED_PERIOD - y, CCR3 = TNG_LED_PERIOD - z \<rparr>
   }"

definition tng_led_tick_breathing :: "u32 \<Rightarrow> tng_led option" where
  "tng_led_tick_breathing ms =
     (let value = int (unat (system_timer_get_ms ms) div 4 mod 512);
          value = (if value > 255 then 511 - value else value)
      in tng_led_status_set 0 (of_int value) 0)"

definition tng_led_tick_rainbow :: "u32 \<Rightarrow> tng_led option" where
  "tng_led_tick_rainbow ms = do {
     let value = (of_nat (unat (system_timer_get_ms ms) div 4 mod 250) :: u8);
     (r, g, b) \<leftarrow> arr_get tng_led_rainbow (unat value);
     tng_led_status_set r g b
   }"

definition tng_led_tick :: "u32 \<Rightarrow> tng_led option" where
  "tng_led_tick ms = tng_led_tick_breathing ms"

section \<open>What is seen\<close>

lemma length_tables: "length tng_led_cie1931 = 256" "length tng_led_rainbow = 250"
  by code_simp+

lemma tng_led_status_set_Some: "tng_led_status_set r g b = Some
  \<lparr> CCR1 = TNG_LED_PERIOD - tng_led_cie1931 ! unat r, CCR2 = TNG_LED_PERIOD - tng_led_cie1931 ! unat g,
    CCR3 = TNG_LED_PERIOD - tng_led_cie1931 ! unat b \<rparr>"
  by (simp add: tng_led_status_set_def arr_simps length_tables)

lemma cie1931_ends: "tng_led_cie1931 ! 0 = 0" "tng_led_cie1931 ! 255 = 0xFFFF"
  by code_simp+

text \<open>The brightness of the breathing LED: it rises for the first half of a period of 2048 ms and falls in
  the second, by the same steps.\<close>

definition breath :: "nat \<Rightarrow> nat" where
  "breath t = min (t div 4 mod 512) (511 - t div 4 mod 512)"

lemma breath_less: "breath t < 256"
proof -
  have "t div 4 mod 512 < 512" by simp
  then show ?thesis unfolding breath_def by arith
qed

lemma tng_led_tick_breath:
  "tng_led_tick ms = Some \<lparr> CCR1 = 0xFFFF, CCR2 = 0xFFFF - tng_led_cie1931 ! breath (unat ms), CCR3 = 0xFFFF \<rparr>"
proof -
  let ?v = "unat ms div 4 mod 512"
  have v: "?v < 512" by simp
  have "(if int ?v > 255 then 511 - int ?v else int ?v) = int (breath (unat ms))"
    using v by (auto simp: breath_def min_def)
  moreover have "unat (of_nat (breath (unat ms)) :: u8) = breath (unat ms)"
    using breath_less[of "unat ms"] by (simp add: unat_of_nat take_bit_nat_eq_self)
  ultimately show ?thesis
    by (simp add: tng_led_tick_def tng_led_tick_breathing_def system_timer_get_ms_def tng_led_status_set_Some
        TNG_LED_PERIOD_def cie1931_ends(1) del: of_nat_eq_iff)
qed

lemma breath_period: "breath (t + 2048) = breath t"
proof -
  have "(t + 2048) div 4 = t div 4 + 512" by simp
  then show ?thesis by (simp add: breath_def)
qed

lemma breath_rises: "s \<le> t \<Longrightarrow> t < 1024 \<Longrightarrow> breath s \<le> breath t"
  using div_le_mono[of s t 4] by (simp add: breath_def min_def less_mult_imp_div_less)

lemma breath_mirror: "t < 2048 \<Longrightarrow> breath (2047 - t) = breath t"
proof -
  assume t: "t < 2048"
  define q r where "q = t div 4" and "r = t mod 4"
  have "t = 4 * q + r" "r < 4" by (simp_all add: q_def r_def)
  then have "2047 - t = 4 * (511 - q) + (3 - r)" using t by arith
  then have "(2047 - t) div 4 = 511 - t div 4" by (simp add: q_def)
  moreover have "t div 4 < 512" using t by (simp add: less_mult_imp_div_less)
  ultimately show ?thesis by (simp add: breath_def min.commute)
qed

lemma tng_led_tick_rainbow_Some: "tng_led_tick_rainbow ms \<noteq> None"
proof -
  have "unat ms div 4 mod 250 < 250" by simp
  then have "unat (of_nat (unat ms div 4 mod 250) :: u8) < 250" by (simp add: unat_of_nat take_bit_nat_eq_self)
  then show ?thesis
    by (simp add: tng_led_tick_rainbow_def system_timer_get_ms_def arr_simps length_tables tng_led_status_set_Some
        Let_def split: prod.split)
qed

end
