(* ===== verification/Tng.thy ===== *)
theory Tng
  imports Tfp Tng_Flash Tng_Led
begin

text \<open>
  The main loop of the TNG modules (\<^verbatim>\<open>tng/tng.c\<close>) and the messages common to them
  (\<^verbatim>\<open>tng/tng_communication.c\<close>): a request is collected from the packets of the USB, handled, and
  its response sent. The messages of the product, its tick and its version numbers are parameters; the time
  and what the USB library answers are arguments of a tick.
\<close>

section \<open>State\<close>

definition TNG_BUFFER_SIZE :: nat where "TNG_BUFFER_SIZE = 256"
definition TFP_HEADER_SIZE :: nat where "TFP_HEADER_SIZE = 8"

record ('f, 'p) tng =
  tng_request_data :: "u8 list"
  tng_response_data :: "u8 list"
  tng_request_length :: u16
  tng_firmware_pointer :: u32
  usb :: tfusb
  flash_state :: 'f
  product :: 'p
  leds :: tng_led
  was_reset :: bool

record ('f, 'p) module =
  flash_hal :: "'f hal_flash"
  handle_message :: "u8 list \<Rightarrow> u8 list \<Rightarrow> 'p \<Rightarrow> response \<times> u8 list \<times> 'p"
  communication_tick :: "('f, 'p) tng \<Rightarrow> ('f, 'p) tng option"
  version_hw :: "u8 list"
  version_fw :: "u8 list"
  device_identifier :: u32

text \<open>Fields of the packed structures, by their offset.\<close>

definition set_length :: "nat \<Rightarrow> u8 list \<Rightarrow> u8 list option" where
  "set_length n resp = arr_set resp 4 (of_nat n)"

definition field_u32 :: "nat \<Rightarrow> u8 list \<Rightarrow> u32 option" where
  "field_u32 k m = (if k + 4 \<le> length m then Some (un_le32 (m ! k) (m ! (k + 1)) (m ! (k + 2)) (m ! (k + 3))) else None)"

definition le64 :: "u64 \<Rightarrow> u8 list" where
  "le64 w = le32 (ucast w) @ le32 (ucast (drop_bit 32 w))"

section \<open>The common messages\<close>

definition TNG_FID_GET_TIMESTAMP :: u8 where "TNG_FID_GET_TIMESTAMP = 234"
definition TNG_FID_COPY_FIRMWARE :: u8 where "TNG_FID_COPY_FIRMWARE = 235"
definition TNG_FID_SET_WRITE_FIRMWARE_POINTER :: u8 where "TNG_FID_SET_WRITE_FIRMWARE_POINTER = 237"
definition TNG_FID_WRITE_FIRMWARE :: u8 where "TNG_FID_WRITE_FIRMWARE = 238"
definition TNG_FID_RESET :: u8 where "TNG_FID_RESET = 243"
definition TNG_FID_WRITE_UID :: u8 where "TNG_FID_WRITE_UID = 248"
definition TNG_FID_READ_UID :: u8 where "TNG_FID_READ_UID = 249"
definition TNG_FID_ENUMERATE_CALLBACK :: u8 where "TNG_FID_ENUMERATE_CALLBACK = 253"
definition TNG_FID_ENUMERATE :: u8 where "TNG_FID_ENUMERATE = 254"
definition TNG_FID_GET_IDENTITY :: u8 where "TNG_FID_GET_IDENTITY = 255"
definition TNG_ENUMERATE_TYPE_AVAILABLE :: u8 where "TNG_ENUMERATE_TYPE_AVAILABLE = 0"
definition TNG_ENUMERATE_TYPE_ADDED :: u8 where "TNG_ENUMERATE_TYPE_ADDED = 1"

lemmas tng_fids = TNG_FID_GET_TIMESTAMP_def TNG_FID_COPY_FIRMWARE_def TNG_FID_SET_WRITE_FIRMWARE_POINTER_def
  TNG_FID_WRITE_FIRMWARE_def TNG_FID_RESET_def TNG_FID_WRITE_UID_def TNG_FID_READ_UID_def
  TNG_FID_ENUMERATE_CALLBACK_def TNG_FID_ENUMERATE_def TNG_FID_GET_IDENTITY_def

text \<open>A handler takes the request and the response buffer; it gives the kind of response, the buffer and
  the state.\<close>

definition tng_get_timestamp :: "u64 \<Rightarrow> u8 list \<Rightarrow> u8 list option" where
  "tng_get_timestamp us resp = do {
     resp \<leftarrow> set_length 16 resp;
     write_bytes resp 8 (le64 us)
   }"

definition respond_copy_firmware :: "'f hal_flash \<Rightarrow> u8 list \<Rightarrow> 'f \<Rightarrow> (u8 list \<times> 'f) option" where
  "respond_copy_firmware hal resp f = do {
     resp \<leftarrow> set_length 9 resp;
     (status, f1) \<leftarrow> tng_copy_firmware hal f;
     resp \<leftarrow> arr_set resp 8 status;
     Some (resp, f1)
   }"

definition respond_write_firmware :: "'f hal_flash \<Rightarrow> u32 \<Rightarrow> u8 list \<Rightarrow> u8 list \<Rightarrow> 'f \<Rightarrow> (u8 list \<times> 'f) option" where
  "respond_write_firmware hal pointer req resp f = do {
     resp \<leftarrow> set_length 9 resp;
     let (status, f1) = tng_write_firmware hal pointer (take TNG_WRITE_FIRMWARE_CHUNK_SIZE (drop 8 req)) f;
     resp \<leftarrow> arr_set resp 8 status;
     Some (resp, f1)
   }"

definition tng_read_uid :: "'f hal_flash \<Rightarrow> u8 list \<Rightarrow> 'f \<Rightarrow> u8 list option" where
  "tng_read_uid hal resp f = do {
     resp \<leftarrow> set_length 12 resp;
     write_bytes resp 8 (le32 (tng_get_uid hal f))
   }"

definition uid_bytes :: "u32 \<Rightarrow> u8 list option" where
  "uid_bytes uid = map_option (map of_char) (tfp_uid_uint32_to_base58 uid)"

text \<open>The position (offset 24) is not written: it is what the buffer held before.\<close>

definition tng_get_identity :: "('f, 'p) module \<Rightarrow> u8 list \<Rightarrow> 'f \<Rightarrow> u8 list option" where
  "tng_get_identity m resp f = do {
     resp \<leftarrow> set_length 33 resp;
     uid \<leftarrow> uid_bytes (tng_get_uid (flash_hal m) f);
     resp \<leftarrow> write_bytes resp 8 uid;
     resp \<leftarrow> write_bytes resp 16 (replicate 8 0);
     resp \<leftarrow> write_bytes resp 25 (version_hw m);
     resp \<leftarrow> write_bytes resp 28 (version_fw m);
     write_bytes resp 31 (le16 (ucast (device_identifier m)))
   }"

definition tng_enumerate :: "('f, 'p) module \<Rightarrow> u8 list \<Rightarrow> 'f \<Rightarrow> u8 list option" where
  "tng_enumerate m resp f = do {
     resp \<leftarrow> tng_get_identity m resp f;
     resp \<leftarrow> write_bytes resp 0 (header_bytes (tfp_make_default_header (tng_get_uid (flash_hal m) f) 34 TNG_FID_ENUMERATE_CALLBACK));
     arr_set resp 33 TNG_ENUMERATE_TYPE_AVAILABLE
   }"

text \<open>The enumeration at the start is built in a local variable, whose bytes are the argument, and sent.\<close>

definition tng_send_initial_enumerate ::
  "('f, 'p) module \<Rightarrow> bool \<Rightarrow> bool option \<Rightarrow> u8 list \<Rightarrow> ('f, 'p) tng \<Rightarrow> (bool \<times> u8 list list \<times> ('f, 'p) tng) option" where
  "tng_send_initial_enumerate m ok irq local t = do {
     resp \<leftarrow> tng_enumerate m local (flash_state t);
     resp \<leftarrow> arr_set resp 33 TNG_ENUMERATE_TYPE_ADDED;
     n \<leftarrow> tfp_get_length_from_message resp;
     (sent, packets, u) \<leftarrow> usb_send ok irq (take (unat n) resp) (usb t);
     Some (sent, packets, t \<lparr> usb := u \<rparr>)
   }"

definition tng_handle_message :: "('f, 'p) module \<Rightarrow> u64 \<Rightarrow> ('f, 'p) tng \<Rightarrow> (response \<times> ('f, 'p) tng) option" where
  "tng_handle_message m us t =
     (let req = tng_request_data t; resp = tng_response_data t; hal = flash_hal m; f = flash_state t in do {
       fid \<leftarrow> tfp_get_fid_from_message req;
       if fid = TNG_FID_GET_TIMESTAMP then do {
         resp \<leftarrow> tng_get_timestamp us resp;
         Some (NEW_MESSAGE, t \<lparr> tng_response_data := resp \<rparr>)
       }
       else if fid = TNG_FID_COPY_FIRMWARE then do {
         (resp, f) \<leftarrow> respond_copy_firmware hal resp f;
         Some (NEW_MESSAGE, t \<lparr> tng_response_data := resp, flash_state := f \<rparr>)
       }
       else if fid = TNG_FID_SET_WRITE_FIRMWARE_POINTER then do {
         p \<leftarrow> field_u32 8 req;
         Some (EMPTY, t \<lparr> tng_firmware_pointer := p \<rparr>)
       }
       else if fid = TNG_FID_WRITE_FIRMWARE then do {
         (resp, f) \<leftarrow> respond_write_firmware hal (tng_firmware_pointer t) req resp f;
         Some (NEW_MESSAGE, t \<lparr> tng_response_data := resp, flash_state := f \<rparr>)
       }
       else if fid = TNG_FID_RESET then Some (EMPTY, t \<lparr> was_reset := True \<rparr>)
       else if fid = TNG_FID_READ_UID then do {
         resp \<leftarrow> tng_read_uid hal resp f;
         Some (NEW_MESSAGE, t \<lparr> tng_response_data := resp \<rparr>)
       }
       else if fid = TNG_FID_WRITE_UID then do {
         uid \<leftarrow> field_u32 8 req;
         let (r, f) = tng_write_uid hal uid f;
         Some (r, t \<lparr> flash_state := f \<rparr>)
       }
       else if fid = TNG_FID_ENUMERATE then do {
         resp \<leftarrow> tng_enumerate m resp f;
         Some (NEW_MESSAGE, t \<lparr> tng_response_data := resp \<rparr>)
       }
       else if fid = TNG_FID_GET_IDENTITY then do {
         resp \<leftarrow> tng_get_identity m resp f;
         Some (NEW_MESSAGE, t \<lparr> tng_response_data := resp \<rparr>)
       }
       else Some (NOT_SUPPORTED, t)
     })"

section \<open>The loop\<close>

definition tng_is_valid_request :: "('f, 'p) module \<Rightarrow> ('f, 'p) tng \<Rightarrow> bool option" where
  "tng_is_valid_request m t = do {
     uid \<leftarrow> tfp_get_uid_from_message (tng_request_data t);
     Some (\<not> (uid \<noteq> 0 \<and> tng_get_uid (flash_hal m) (flash_state t) \<noteq> uid))
   }"

definition receive :: "bool \<Rightarrow> ('f, 'p) tng \<Rightarrow> ('f, 'p) tng option" where
  "receive ok t = do {
     (n, data, u) \<leftarrow> usb_recv ok (tng_request_data t) (unat (tng_request_length t))
       (TNG_BUFFER_SIZE - unat (tng_request_length t)) (usb t);
     Some (t \<lparr> tng_request_data := data, tng_request_length := tng_request_length t + n, usb := u \<rparr>)
   }"

definition tng_try_usb_recv :: "bool \<Rightarrow> bool \<Rightarrow> ('f, 'p) tng \<Rightarrow> ('f, 'p) tng option" where
  "tng_try_usb_recv ok1 ok2 t = do {
     t1 \<leftarrow> (if unat (tng_request_length t) < TFP_HEADER_SIZE then receive ok1 t else Some t);
     n \<leftarrow> tfp_get_length_from_message (tng_request_data t1);
     if TFP_HEADER_SIZE \<le> unat (tng_request_length t1) \<and> unat (tng_request_length t1) < unat n
     then receive ok2 t1 else Some t1
   }"

text \<open>The interrupt that a packet has come: its bytes are in the buffer of the USB.\<close>

definition usbd_tfp_data_out :: "bool \<Rightarrow> bool \<Rightarrow> u8 list \<Rightarrow> ('f, 'p) tng \<Rightarrow> ('f, 'p) tng option" where
  "usbd_tfp_data_out ok1 ok2 bytes t = do {
     b \<leftarrow> write_bytes (out_buffer (usb t)) 0 bytes;
     tng_try_usb_recv ok1 ok2 (t \<lparr> usb := usb t \<lparr> out_buffer := b,
       out_buffer_length := out_buffer_length (usb t) + of_nat (length bytes) \<rparr> \<rparr>)
   }"

definition set_error :: "u8 \<Rightarrow> u8 list \<Rightarrow> u8 list option" where
  "set_error e resp = do {
     b \<leftarrow> arr_get resp 7;
     arr_set resp 7 ((b AND 0x3F) OR push_bit 6 e)
   }"

text \<open>What becomes of the header of the response.\<close>

definition finish_response :: "response \<Rightarrow> u8 list \<Rightarrow> u8 list option" where
  "finish_response r resp = do {
     expected \<leftarrow> tfp_is_return_expected resp;
     if expected then do {
       n \<leftarrow> tfp_get_length_from_message resp;
       resp \<leftarrow> (if n = 0 then set_length 8 resp else Some resp);
       (case r of
          EMPTY \<Rightarrow> set_error 0 resp
        | NOT_SUPPORTED \<Rightarrow> set_error 2 resp
        | INVALID_PARAMETER \<Rightarrow> set_error 1 resp
        | _ \<Rightarrow> Some resp)
     }
     else Some resp
   }"

definition tng_answer :: "('f, 'p) module \<Rightarrow> u64 \<Rightarrow> ('f, 'p) tng \<Rightarrow> ('f, 'p) tng option" where
  "tng_answer m us t = do {
     h \<leftarrow> read_bytes (tng_request_data t) TFP_HEADER_SIZE;
     resp \<leftarrow> write_bytes (tng_response_data t) 0 h;
     resp \<leftarrow> set_length 0 resp;
     (r, t1) \<leftarrow> tng_handle_message m us (t \<lparr> tng_response_data := resp \<rparr>);
     let (r, t2) = (if r = NOT_SUPPORTED
       then let (r, resp, p) = handle_message m (tng_request_data t1) (tng_response_data t1) (product t1)
            in (r, t1 \<lparr> tng_response_data := resp, product := p \<rparr>)
       else (r, t1));
     resp \<leftarrow> finish_response r (tng_response_data t2);
     Some (t2 \<lparr> tng_response_data := resp \<rparr>)
   }"

text \<open>The request that was handled is taken from the buffer.\<close>

definition consume_request :: "('f, 'p) tng \<Rightarrow> ('f, 'p) tng option" where
  "consume_request t = do {
     n \<leftarrow> tfp_get_length_from_message (tng_request_data t);
     if unat n < unat (tng_request_length t) then do {
       moved \<leftarrow> read_bytes (tng_request_data t) (TNG_BUFFER_SIZE - unat n);
       data \<leftarrow> write_bytes (tng_request_data t) (unat n) moved;
       Some (t \<lparr> tng_request_data := data, tng_request_length := tng_request_length t - ucast n \<rparr>)
     }
     else Some (t \<lparr> tng_request_length := 0 \<rparr>)
   }"

definition handle_request :: "('f, 'p) module \<Rightarrow> u64 \<Rightarrow> bool \<Rightarrow> bool \<Rightarrow> ('f, 'p) tng \<Rightarrow> ('f, 'p) tng option" where
  "handle_request m us ok1 ok2 t = do {
     t1 \<leftarrow> tng_try_usb_recv ok1 ok2 t;
     n \<leftarrow> tfp_get_length_from_message (tng_request_data t1);
     if unat n \<le> unat (tng_request_length t1) then do {
       pending \<leftarrow> tfp_get_length_from_message (tng_response_data t1);
       if pending = 0 then do {
         valid \<leftarrow> tng_is_valid_request m t1;
         t2 \<leftarrow> (if valid then tng_answer m us t1 else Some t1);
         consume_request t2
       }
       else Some t1
     }
     else Some t1
   }"

definition send_response :: "bool \<Rightarrow> bool option \<Rightarrow> ('f, 'p) tng \<Rightarrow> (u8 list list \<times> ('f, 'p) tng) option" where
  "send_response ok irq t = do {
     n \<leftarrow> tfp_get_length_from_message (tng_response_data t);
     if 8 \<le> n then do {
       data \<leftarrow> read_bytes (tng_response_data t) (unat n);
       (sent, packets, u) \<leftarrow> usb_send ok irq data (usb t);
       resp \<leftarrow> (if sent then set_length 0 (tng_response_data t) else Some (tng_response_data t));
       Some (packets, t \<lparr> usb := u, tng_response_data := resp \<rparr>)
     }
     else Some ([], t)
   }"

text \<open>What is outside the code in one tick: the time, the answers of the USB library, and the interrupt
  during the sending.\<close>

record tick_input =
  now_us :: u64
  now_ms :: u32
  recv_ok1 :: bool
  recv_ok2 :: bool
  send_ok :: bool
  send_irq :: "bool option"

definition tng_tick :: "('f, 'p) module \<Rightarrow> tick_input \<Rightarrow> ('f, 'p) tng \<Rightarrow> (u8 list list \<times> ('f, 'p) tng) option" where
  "tng_tick m i t = do {
     n \<leftarrow> tfp_get_length_from_message (tng_request_data t);
     t1 \<leftarrow> (if usb_can_recv (usb t) \<or> unat n \<le> unat (tng_request_length t)
            then handle_request m (now_us i) (recv_ok1 i) (recv_ok2 i) t else Some t);
     (packets, t2) \<leftarrow> send_response (send_ok i) (send_irq i) t1;
     t3 \<leftarrow> communication_tick m t2;
     l \<leftarrow> tng_led_tick (now_ms i);
     Some (packets, t3 \<lparr> leds := l \<rparr>)
   }"

section \<open>The request buffer\<close>

lemma get_length: "8 \<le> length m \<Longrightarrow> tfp_get_length_from_message m = Some (m ! 4)"
  by (simp add: tfp_get_length_from_message_def read_header_def)

lemma tfp_length_Some: "tfp_get_length_from_message m = Some n \<longleftrightarrow> 8 \<le> length m \<and> n = m ! 4"
  by (auto simp: tfp_get_length_from_message_def read_header_def)

lemmas buffer_sizes = TNG_BUFFER_SIZE_def TFP_HEADER_SIZE_def

lemma receive_None_iff:
  assumes "length (out_buffer (usb t)) = 256" "unat (out_buffer_length (usb t)) \<le> 256" "length (tng_request_data t) = 256"
  shows "receive ok t = None \<longleftrightarrow> out_buffer_length (usb t) \<noteq> 0 \<and>
    256 < unat (tng_request_length t) + unat (out_buffer_length (usb t))"
  using assms by (auto simp: receive_def usb_recv_def read_bytes_def write_bytes_def split: Option.bind_splits if_splits)

lemma receive_Some:
  assumes "receive ok t = Some t1"
  shows "length (tng_request_data t1) = length (tng_request_data t)"
    "out_buffer_length (usb t) \<noteq> 0 \<Longrightarrow> ok \<Longrightarrow> out_buffer_length (usb t1) = 0"
    "\<not> ok \<or> out_buffer_length (usb t) = 0 \<Longrightarrow> tng_request_length t1 = tng_request_length t"
    "out_buffer_length (usb t) = 0 \<Longrightarrow> t1 = t"
  using assms
  by (auto simp: receive_def usb_recv_def dest: write_bytes_length split: Option.bind_splits if_splits)

text \<open>The reception of a request runs over its buffer exactly when a packet has come, the request is
  still incomplete, and both together are longer than 256 bytes: the length that the caller allows is not
  looked at.\<close>

theorem tng_request_overrun:
  assumes "length (out_buffer (usb t)) = 256" "unat (out_buffer_length (usb t)) \<le> 256" "length (tng_request_data t) = 256"
  shows "tng_try_usb_recv ok1 ok2 t = None \<longleftrightarrow> out_buffer_length (usb t) \<noteq> 0 \<and>
    (unat (tng_request_length t) < 8 \<or> unat (tng_request_length t) < unat (tng_request_data t ! 4)) \<and>
    256 < unat (tng_request_length t) + unat (out_buffer_length (usb t))"
proof (cases "unat (tng_request_length t) < 8")
  case short: True
  show ?thesis
  proof (cases "receive ok1 t")
    case None
    then show ?thesis using receive_None_iff[OF assms, of ok1] short by (auto simp: tng_try_usb_recv_def buffer_sizes)
  next
    case (Some t1)
    note r = receive_Some[OF Some]
    have "tng_try_usb_recv ok1 ok2 t \<noteq> None"
    proof (cases "out_buffer_length (usb t) \<noteq> 0 \<and> ok1")
      case True
      then have "receive ok2 t1 = Some t1" using r(2) by (simp add: receive_def usb_recv_def)
      then show ?thesis using r(1) assms(3) short Some by (auto simp: tng_try_usb_recv_def buffer_sizes get_length)
    next
      case False
      then have "tng_request_length t1 = tng_request_length t" using r(3) by auto
      then show ?thesis using r(1) assms(3) short Some by (auto simp: tng_try_usb_recv_def buffer_sizes get_length)
    qed
    then show ?thesis using receive_None_iff[OF assms, of ok1] Some by auto
  qed
next
  case False
  then show ?thesis
    using receive_None_iff[OF assms, of ok2] assms(3)
    by (auto simp: tng_try_usb_recv_def buffer_sizes get_length)
qed

section \<open>What handling keeps\<close>

lemma tng_handle_message_keeps:
  assumes "tng_handle_message m us t = Some (r, t1)"
  shows "tng_request_data t1 = tng_request_data t \<and> tng_request_length t1 = tng_request_length t \<and> usb t1 = usb t"
  using assms unfolding tng_handle_message_def Let_def
  by (auto elim!: bind_SomeE split: if_splits prod.splits)

lemma tng_answer_keeps:
  assumes "tng_answer m us t = Some t1"
  shows "tng_request_data t1 = tng_request_data t" "tng_request_length t1 = tng_request_length t" "usb t1 = usb t"
  using assms unfolding tng_answer_def Let_def
  by (auto dest!: tng_handle_message_keeps elim!: bind_SomeE split: if_splits prod.splits)

lemma try_recv_complete:
  assumes "8 \<le> length (tng_request_data t)" "8 \<le> unat (tng_request_length t)"
    "unat (tng_request_data t ! 4) \<le> unat (tng_request_length t)"
  shows "tng_try_usb_recv ok1 ok2 t = Some t"
  using assms by (simp add: tng_try_usb_recv_def buffer_sizes get_length)

lemma handle_request_consumes:
  assumes "handle_request m us ok1 ok2 t = Some t1" "length (tng_request_data t) = 256" "8 \<le> unat (tng_request_length t)"
    "unat (tng_request_data t ! 4) \<le> unat (tng_request_length t)"
  shows "t1 = t \<or> (\<exists>t2. consume_request t2 = Some t1 \<and> tng_request_data t2 = tng_request_data t \<and>
      tng_request_length t2 = tng_request_length t)"
    "length (tng_response_data t) = 256 \<Longrightarrow> tng_response_data t ! 4 = 0 \<Longrightarrow>
      \<exists>t2. consume_request t2 = Some t1 \<and> tng_request_data t2 = tng_request_data t \<and>
        tng_request_length t2 = tng_request_length t"
proof -
  have step: "t1 = t \<and> \<not> (length (tng_response_data t) = 256 \<and> tng_response_data t ! 4 = 0) \<or>
    (\<exists>t2. consume_request t2 = Some t1 \<and> (t2 = t \<or> tng_answer m us t = Some t2))"
    using assms(1) try_recv_complete[of t ok1 ok2] assms(2-4)
    by (auto simp: handle_request_def get_length elim!: bind_SomeE split: if_splits) blast+
  then show "t1 = t \<or> (\<exists>t2. consume_request t2 = Some t1 \<and> tng_request_data t2 = tng_request_data t \<and>
      tng_request_length t2 = tng_request_length t)"
    using tng_answer_keeps by blast
  show "\<exists>t2. consume_request t2 = Some t1 \<and> tng_request_data t2 = tng_request_data t \<and>
      tng_request_length t2 = tng_request_length t"
    if "length (tng_response_data t) = 256" "tng_response_data t ! 4 = 0"
    using step that tng_answer_keeps by blast
qed

text \<open>When two requests are in the buffer, the first is not removed but moved onto the second: after
  it has been handled the buffer begins with it again, and the bytes of the second are beyond the length
  that is left.\<close>

theorem second_request_lost:
  assumes "handle_request m us ok1 ok2 t = Some t1"
    and "tng_request_data t = a @ b @ r" "length (a @ b @ r) = 256" "unat (tng_request_length t) = length a + length b"
    and "8 \<le> length a" "unat (a ! 4) = length a" "b \<noteq> []"
    and "length (tng_response_data t) = 256" "tng_response_data t ! 4 = 0"
  shows "unat (tng_request_length t1) = length b \<and>
    tng_request_data t1 = a @ take (256 - length a) (a @ b @ r)"
proof -
  have n: "tng_request_data t ! 4 = a ! 4" using assms(5) by (simp add: assms(2) nth_append)
  obtain t2 where t2: "consume_request t2 = Some t1" "tng_request_data t2 = a @ b @ r"
    "tng_request_length t2 = tng_request_length t"
    using handle_request_consumes(2)[OF assms(1) _ _ _ assms(8,9)] assms(2-6) n by auto
  have len: "unat (a ! 4) < unat (tng_request_length t)" using assms(4,6,7) by simp
  have "(a @ b @ r) ! 4 = a ! 4" using assms(5) by (simp add: nth_append)
  moreover have "write_bytes (a @ b @ r) (length a) (take (256 - length a) (a @ b @ r)) =
      Some (a @ take (256 - length a) (a @ b @ r))"
  proof -
    have "take (length a) (a @ b @ r) = a" by simp
    then show ?thesis using assms(3) by (simp add: write_bytes_def del: take_append append_assoc)
  qed
  ultimately have t1: "t1 = t2 \<lparr> tng_request_data := a @ take (256 - length a) (a @ b @ r),
      tng_request_length := tng_request_length t - ucast (a ! 4) \<rparr>"
    using t2 len assms(3,6) by (simp add: consume_request_def get_length buffer_sizes read_bytes_def del: take_append)
  have "unat (tng_request_length t - ucast (a ! 4)) = unat (tng_request_length t) - unat (a ! 4)"
    using len by (subst unat_sub) (simp_all add: word_le_nat_alt unat_ucast_u8)
  then show ?thesis
    using assms(4,6) by (simp add: t1)
qed

datatype tng_event = Tick tick_input | Packet bool bool "u8 list"

definition tng_step :: "('f, 'p) module \<Rightarrow> tng_event \<Rightarrow> ('f, 'p) tng \<Rightarrow> ('f, 'p) tng option" where
  "tng_step m e t = (case e of
       Tick i \<Rightarrow> map_option snd (tng_tick m i t)
     | Packet ok1 ok2 bytes \<Rightarrow> usbd_tfp_data_out ok1 ok2 bytes t)"

fun tng_run :: "('f, 'p) module \<Rightarrow> tng_event list \<Rightarrow> ('f, 'p) tng \<Rightarrow> ('f, 'p) tng option" where
  "tng_run m [] t = Some t"
| "tng_run m (e # es) t = Option.bind (tng_step m e t) (tng_run m es)"

definition stuck :: "('f, 'p) tng \<Rightarrow> bool" where
  "stuck t \<longleftrightarrow> length (tng_request_data t) = 256 \<and> 8 \<le> unat (tng_request_length t) \<and> tng_request_data t ! 4 = 0"

lemma stuck_consume: "stuck t \<Longrightarrow> consume_request t = Some t"
  by (auto simp: stuck_def consume_request_def get_length buffer_sizes read_bytes_def write_bytes_def)

lemma stuck_handle:
  assumes "stuck t" "handle_request m us ok1 ok2 t = Some t1"
  shows "tng_request_data t1 = tng_request_data t \<and> tng_request_length t1 = tng_request_length t"
proof -
  have "t1 = t \<or> (\<exists>t2. consume_request t2 = Some t1 \<and> tng_request_data t2 = tng_request_data t \<and>
      tng_request_length t2 = tng_request_length t)"
    using handle_request_consumes(1)[OF assms(2)] assms(1) by (simp add: stuck_def)
  moreover have "consume_request t2 = Some t2" if "tng_request_data t2 = tng_request_data t"
    "tng_request_length t2 = tng_request_length t" for t2 :: "('a, 'b) tng"
    using stuck_consume[of t2] that assms(1) by (simp add: stuck_def)
  ultimately show ?thesis by auto
qed

lemma send_response_keeps:
  "send_response ok irq t = Some (packets, t1) \<Longrightarrow>
     tng_request_data t1 = tng_request_data t \<and> tng_request_length t1 = tng_request_length t"
  by (auto simp: send_response_def split: Option.bind_splits if_splits)

definition static_buffers :: "('f, 'p) module \<Rightarrow> bool" where
  "static_buffers m \<longleftrightarrow> (\<forall>t t1. communication_tick m t = Some t1 \<longrightarrow>
     tng_request_data t1 = tng_request_data t \<and> tng_request_length t1 = tng_request_length t)"

lemma stuck_step:
  assumes "static_buffers m" "stuck t" "tng_step m e t = Some t1"
  shows "tng_request_data t1 = tng_request_data t \<and> tng_request_length t1 = tng_request_length t"
proof (cases e)
  case (Tick i)
  obtain t2 packets t3 t4 l where "(if usb_can_recv (usb t) \<or> unat (tng_request_data t ! 4) \<le> unat (tng_request_length t)
      then handle_request m (now_us i) (recv_ok1 i) (recv_ok2 i) t else Some t) = Some t2"
    "send_response (send_ok i) (send_irq i) t2 = Some (packets, t3)" "communication_tick m t3 = Some t4"
    "t1 = t4 \<lparr> leds := l \<rparr>"
    using assms(2,3) by (auto simp: tng_step_def Tick tng_tick_def get_length stuck_def split: Option.bind_splits)
  moreover from this(1) have "tng_request_data t2 = tng_request_data t \<and> tng_request_length t2 = tng_request_length t"
    using stuck_handle[OF assms(2)] by (auto split: if_splits)
  ultimately show ?thesis
    using assms(1) send_response_keeps unfolding static_buffers_def by fastforce
next
  case (Packet ok1 ok2 bytes)
  obtain b where b: "tng_try_usb_recv ok1 ok2 (t \<lparr> usb := usb t \<lparr> out_buffer := b,
       out_buffer_length := out_buffer_length (usb t) + of_nat (length bytes) \<rparr> \<rparr>) = Some t1"
    using assms(3) by (auto simp: tng_step_def Packet usbd_tfp_data_out_def split: Option.bind_splits)
  then have "t1 = t \<lparr> usb := usb t \<lparr> out_buffer := b, out_buffer_length := out_buffer_length (usb t) + of_nat (length bytes) \<rparr> \<rparr>"
    using assms(2) by (subst (asm) try_recv_complete) (simp_all add: stuck_def)
  then show ?thesis by simp
qed


section \<open>A request is answered\<close>

lemma length_header_bytes [simp]: "length (header_bytes h) = 8"
  by (simp add: header_bytes_def)

lemma header_bytes_length: "header_bytes h ! 4 = h_length h"
  by (simp add: header_bytes_def nth_append)

lemma header_bytes_update: "(header_bytes h)[4 := n] = header_bytes (h \<lparr> h_length := n \<rparr>)"
  by (simp add: header_bytes_def list_update_append)

lemma set_length_header: "set_length n (header_bytes h @ r) = Some (header_bytes (h \<lparr> h_length := of_nat n \<rparr>) @ r)"
  by (simp add: set_length_def arr_set_def list_update_append header_bytes_update)

lemma message_fields:
  "tfp_get_length_from_message (header_bytes h @ r) = Some (h_length h)"
  "tfp_get_fid_from_message (header_bytes h @ r) = Some (h_fid h)"
  "tfp_get_uid_from_message (header_bytes h @ r) = Some (h_uid h)"
  "tfp_is_return_expected (header_bytes h @ r) = Some (h_return_expected h \<noteq> 0)"
  by (simp_all add: tfp_get_length_from_message_def tfp_get_fid_from_message_def tfp_get_uid_from_message_def
      tfp_is_return_expected_def read_header_bytes)

lemma answer_starts:
  assumes "tng_request_data t = header_bytes h @ r" "8 \<le> length (tng_response_data t)"
  shows "read_bytes (tng_request_data t) TFP_HEADER_SIZE = Some (header_bytes h)"
    "write_bytes (tng_response_data t) 0 (header_bytes h) = Some (header_bytes h @ drop 8 (tng_response_data t))"
  using assms by (simp_all add: read_bytes_def write_bytes_def buffer_sizes)

lemma tng_answer_read_uid:
  assumes "tng_request_data t = header_bytes h @ r" "h_fid h = TNG_FID_READ_UID" "length (tng_response_data t) = 256"
  shows "tng_answer m us t = Some (t \<lparr> tng_response_data := header_bytes (h \<lparr> h_length := 12 \<rparr>) @
    le32 (tng_get_uid (flash_hal m) (flash_state t)) @ drop 12 (tng_response_data t) \<rparr>)"
proof -
  let ?r = "drop 8 (tng_response_data t)" and ?uid = "tng_get_uid (flash_hal m) (flash_state t)"
  have "write_bytes (header_bytes (h \<lparr> h_length := 12 \<rparr>) @ ?r) 8 (le32 ?uid) =
      Some (header_bytes (h \<lparr> h_length := 12 \<rparr>) @ le32 ?uid @ drop 12 (tng_response_data t))"
    using assms(3) by (simp add: write_bytes_def)
  then have "tng_handle_message m us (t \<lparr> tng_response_data := header_bytes (h \<lparr> h_length := 0 \<rparr>) @ ?r \<rparr>) =
      Some (NEW_MESSAGE, t \<lparr> tng_response_data := header_bytes (h \<lparr> h_length := 12 \<rparr>) @ le32 ?uid @
        drop 12 (tng_response_data t) \<rparr>)"
    using assms by (simp add: tng_handle_message_def message_fields tng_fids tng_read_uid_def set_length_header)
  moreover have "finish_response NEW_MESSAGE (header_bytes (h \<lparr> h_length := 12 \<rparr>) @ s) =
      Some (header_bytes (h \<lparr> h_length := 12 \<rparr>) @ s)" for s
    by (simp add: finish_response_def message_fields)
  ultimately show ?thesis
    using answer_starts[OF assms(1)] assms(3) by (simp add: tng_answer_def set_length_header)
qed

lemma handle_request_read_uid:
  assumes "tng_request_data t = header_bytes h @ r" "h_fid h = TNG_FID_READ_UID" "h_length h = 8"
    "h_uid h \<in> {0, tng_get_uid (flash_hal m) (flash_state t)}" "8 \<le> unat (tng_request_length t)"
    "length (tng_response_data t) = 256" "tng_response_data t ! 4 = 0"
  shows "handle_request m us ok1 ok2 t = consume_request (t \<lparr> tng_response_data := header_bytes (h \<lparr> h_length := 12 \<rparr>) @
    le32 (tng_get_uid (flash_hal m) (flash_state t)) @ drop 12 (tng_response_data t) \<rparr>)"
proof -
  have "tng_try_usb_recv ok1 ok2 t = Some t"
    using assms by (intro try_recv_complete) (simp_all add: nth_append header_bytes_length)
  moreover have "tng_is_valid_request m t = Some True"
    using assms(1,4) by (auto simp: tng_is_valid_request_def message_fields)
  moreover have "tfp_get_length_from_message (tng_response_data t) = Some 0" using assms(6,7) by (simp add: get_length)
  ultimately show ?thesis
    using tng_answer_read_uid[OF assms(1,2,6)] assms(1,3,5) by (simp add: handle_request_def message_fields)
qed

text \<open>C31. A request for the UID that has arrived completely is answered within one tick, when no response
  is pending and the USB is free: one packet with the header of the request, the length of the response and
  the UID of the flash; the request is gone and the flash unchanged.\<close>

theorem tng_read_uid_answered:
  assumes "tng_request_data t = header_bytes h @ r" "h_fid h = TNG_FID_READ_UID" "h_length h = 8"
    "h_uid h \<in> {0, tng_get_uid (flash_hal m) (flash_state t)}" "unat (tng_request_length t) = 8"
    "length (tng_response_data t) = 256" "tng_response_data t ! 4 = 0"
    and "usb_ok (usb t)" "in_buffer_storage_length (usb t) = 0" "\<not> transfer_in_progress (usb t)" "send_ok i"
    and "communication_tick m = Some"
  shows "\<exists>t1. tng_tick m i t = Some ([header_bytes (h \<lparr> h_length := 12 \<rparr>) @
      le32 (tng_get_uid (flash_hal m) (flash_state t))], t1) \<and>
    tng_request_length t1 = 0 \<and> tng_response_data t1 ! 4 = 0 \<and> flash_state t1 = flash_state t"
proof -
  let ?h = "h \<lparr> h_length := 12 \<rparr>" and ?uid = "tng_get_uid (flash_hal m) (flash_state t)"
  let ?msg = "header_bytes ?h @ le32 ?uid" and ?rest = "drop 12 (tng_response_data t)"
  let ?t1 = "t \<lparr> tng_response_data := header_bytes ?h @ le32 ?uid @ ?rest, tng_request_length := 0 \<rparr>"
  have req: "handle_request m us ok1 ok2 t = Some ?t1" for us ok1 ok2
    using handle_request_read_uid[OF assms(1-4) _ assms(6,7)] assms(1,3,5)
    by (simp add: consume_request_def message_fields)
  have "usb_send True (send_irq i) ?msg (usb t) = Some (True, [?msg], usb t \<lparr> in_buffer := ?msg @ drop 12 (in_buffer (usb t)),
      in_buffer_length := 12, transfer_in_progress := True \<rparr>)"
    using assms(8-10) by (simp add: usb_send_def usb_ok_def write_bytes_def packet_def)
  moreover have "read_bytes (header_bytes ?h @ le32 ?uid @ ?rest) 12 = Some ?msg" by (simp add: read_bytes_def)
  ultimately obtain u where sent: "send_response True (send_irq i) ?t1 = Some ([?msg], ?t1 \<lparr> usb := u,
      tng_response_data := header_bytes (h \<lparr> h_length := 0 \<rparr>) @ le32 ?uid @ ?rest \<rparr>)"
    by (simp add: send_response_def message_fields set_length_header)
  obtain l where l: "tng_led_tick (now_ms i) = Some l" using tng_led_tick_breath by blast
  have first: "tfp_get_length_from_message (tng_request_data t) = Some 8" using assms(1,3) by (simp add: message_fields)
  have "tng_tick m i t = Some ([?msg], ?t1 \<lparr> usb := u,
      tng_response_data := header_bytes (h \<lparr> h_length := 0 \<rparr>) @ le32 ?uid @ ?rest, leds := l \<rparr>)"
    using sent assms(5,11,12) by (simp add: tng_tick_def first req l)
  then show ?thesis by (simp add: nth_append header_bytes_length)
qed

section \<open>A module at rest\<close>

definition demo_module :: "(bool \<times> (nat \<Rightarrow> u8), unit) module" where
  "demo_module = \<lparr> flash_hal = ram_flash, handle_message = \<lambda>req resp p. (NOT_SUPPORTED, resp, p),
     communication_tick = Some, version_hw = [1, 0, 0], version_fw = [2, 0, 0], device_identifier = 0 \<rparr>"

definition demo_tng :: "u8 list \<Rightarrow> u16 \<Rightarrow> (bool \<times> (nat \<Rightarrow> u8), unit) tng" where
  "demo_tng req n = \<lparr> tng_request_data = req @ replicate (256 - length req) 0, tng_response_data = replicate 256 0,
     tng_request_length = n, tng_firmware_pointer = 0, usb = usb_zero, flash_state = (False, \<lambda>p. 0), product = (),
     leds = \<lparr> CCR1 = 0, CCR2 = 0, CCR3 = 0 \<rparr>, was_reset = False \<rparr>"

definition demo_header :: "u8 \<Rightarrow> tfp_message_header" where
  "demo_header n = (tfp_make_default_header 0 n TNG_FID_READ_UID) \<lparr> h_sequence_num := 5 \<rparr>"

lemma demo_uid: "tng_get_uid ram_flash (False, \<lambda>p. 0) = 2"
  by (simp add: tng_get_uid_def read_u32_def read_word_def un_le32_def)

lemma tng_request_overrun_witness:
  "tng_try_usb_recv True True ((demo_tng [] 7) \<lparr> usb := usb_zero \<lparr> out_buffer_length := 256 \<rparr> \<rparr>) = None"
  by (subst tng_request_overrun) (simp_all add: demo_tng_def usb_zero_def USB_BUFFER_SIZE_def)

lemma tng_read_uid_answered_witness:
  "\<exists>t1. tng_tick demo_module \<lparr> now_us = 0, now_ms = 0, recv_ok1 = True, recv_ok2 = True, send_ok = True, send_irq = None \<rparr>
     (demo_tng (header_bytes (demo_header 8)) 8) = Some ([header_bytes (demo_header 12) @ [2, 0, 0, 0]], t1)"
proof -
  let ?i = "\<lparr> now_us = 0, now_ms = 0, recv_ok1 = True, recv_ok2 = True, send_ok = True, send_irq = None \<rparr>"
  let ?t = "demo_tng (header_bytes (demo_header 8)) 8"
  have "\<exists>t1. tng_tick demo_module ?i ?t = Some ([header_bytes (demo_header 8 \<lparr> h_length := 12 \<rparr>) @
      le32 (tng_get_uid (flash_hal demo_module) (flash_state ?t))], t1) \<and>
    tng_request_length t1 = 0 \<and> tng_response_data t1 ! 4 = 0 \<and> flash_state t1 = flash_state ?t"
    by (rule tng_read_uid_answered[where r = "replicate 248 0"])
      (simp_all add: demo_tng_def demo_header_def tfp_make_default_header_def demo_module_def usb_zero_ok(1),
        simp_all add: usb_zero_def)
  then show ?thesis
    by (auto simp: demo_tng_def demo_header_def tfp_make_default_header_def demo_module_def demo_uid le32_def)
qed

lemma second_request_lost_witness:
  "\<exists>t1. handle_request demo_module 0 True True (demo_tng (header_bytes (demo_header 8) @ [1, 0, 0, 0, 8, 1, 0, 0]) 16) = Some t1 \<and>
     take 16 (tng_request_data t1) = header_bytes (demo_header 8) @ header_bytes (demo_header 8)"
proof -
  let ?h = "header_bytes (demo_header 8)" and ?b = "[1, 0, 0, 0, 8, 1, 0, 0] :: u8 list"
  let ?t = "demo_tng (?h @ ?b) 16"
  obtain t1 where t1: "handle_request demo_module 0 True True ?t = Some t1"
  proof -
    have "handle_request demo_module 0 True True ?t = consume_request (?t \<lparr> tng_response_data :=
        header_bytes (demo_header 8 \<lparr> h_length := 12 \<rparr>) @ le32 (tng_get_uid (flash_hal demo_module) (flash_state ?t)) @
        drop 12 (tng_response_data ?t) \<rparr>)"
      by (rule handle_request_read_uid[where r = "?b @ replicate 240 0"])
        (simp_all add: demo_tng_def demo_header_def tfp_make_default_header_def)
    then show thesis
      by (intro that) (simp add: consume_request_def demo_tng_def message_fields demo_header_def
        tfp_make_default_header_def read_bytes_def write_bytes_def buffer_sizes)
  qed
  have "unat (tng_request_length t1) = length ?b \<and> tng_request_data t1 = ?h @ take (256 - length ?h) (?h @ ?b @ replicate 240 0)"
    by (rule second_request_lost[OF t1])
      (simp_all add: demo_tng_def header_bytes_length demo_header_def tfp_make_default_header_def)
  with t1 show ?thesis by auto
qed


end
