(* ===== verification/Tng_Monitor.thy ===== *)
theory Tng_Monitor
  imports Numeric System_Timer
begin

text \<open>
  The energy monitor of the TNG modules (\<^verbatim>\<open>tng/tng_energy_monitor.c\<close>): the state machine that
  reads the PAC193X over I2C and the conversion of its registers. The status of a transfer that is started,
  whether the bus is ready, the received bytes and the time are the input of a tick. The set-up of the bus
  and the debug output are left out.
\<close>

section \<open>Registers\<close>

definition PAC193X_CHANNEL_NUM :: nat where "PAC193X_CHANNEL_NUM = 3"
definition PAC193X_REG_REFRESH :: u8 where "PAC193X_REG_REFRESH = 0"
definition PAC193X_REG_CTRL :: u8 where "PAC193X_REG_CTRL = 1"

text \<open>The packed structure that is received; a list of channels holds the bytes of each.\<close>

record pac193x_read_register =
  ctrl :: u8
  acc_count :: "u8 list"
  vpower_acc :: "u8 list list"
  vbus :: "u8 list list"
  vsense :: "u8 list list"
  vbus_avg :: "u8 list list"
  vsense_avg :: "u8 list list"
  vpower :: "u8 list list"

definition READ_REGISTER_SIZE :: nat where
  "READ_REGISTER_SIZE = 1 + 3 + PAC193X_CHANNEL_NUM * 6 + 5 * (PAC193X_CHANNEL_NUM * 2)"

definition channels :: "nat \<Rightarrow> u8 list \<Rightarrow> u8 list list" where
  "channels n bs = map (\<lambda>i. take n (drop (i * n) bs)) [0..<PAC193X_CHANNEL_NUM]"

definition read_register_of :: "u8 list \<Rightarrow> pac193x_read_register" where
  "read_register_of bs = \<lparr> ctrl = bs ! 0, acc_count = take 3 (drop 1 bs), vpower_acc = channels 6 (drop 4 bs),
     vbus = channels 2 (drop 22 bs), vsense = channels 2 (drop 28 bs), vbus_avg = channels 2 (drop 34 bs),
     vsense_avg = channels 2 (drop 40 bs), vpower = channels 2 (drop 46 bs) \<rparr>"

section \<open>Conversion\<close>

definition INTN_TO_INT64 :: "u64 \<Rightarrow> nat \<Rightarrow> u64" where
  "INTN_TO_INT64 value bits =
     (if value AND push_bit (bits - 1) 1 \<noteq> 0 then value OR NOT (push_bit bits 1 - 1) else value)"

definition be16 :: "u8 list \<Rightarrow> u32" where
  "be16 x = push_bit 8 (ucast (x ! 0)) OR ucast (x ! 1)"

definition be24 :: "u8 list \<Rightarrow> u32" where
  "be24 x = push_bit 16 (ucast (x ! 0)) OR push_bit 8 (ucast (x ! 1)) OR ucast (x ! 2)"

definition be48 :: "u8 list \<Rightarrow> u64" where
  "be48 x = push_bit 40 (ucast (x ! 0)) OR push_bit 32 (ucast (x ! 1)) OR push_bit 24 (ucast (x ! 2)) OR
     push_bit 16 (ucast (x ! 3)) OR push_bit 8 (ucast (x ! 4)) OR ucast (x ! 5)"

definition channel_voltage :: "u8 list \<Rightarrow> u32" where
  "channel_voltage x = be16 x * 125 div 256"

definition channel_current :: "u8 list \<Rightarrow> u32" where
  "channel_current x = of_int \<bar>c_div (sint (INTN_TO_INT32 (be16 x) 16) * 625) 4096\<bar>"

text \<open>The divisor is computed in 32 bits, the dividend in 64; a division by zero has no result.\<close>

definition channel_power :: "u8 list \<Rightarrow> u32 \<Rightarrow> u32 option" where
  "channel_power x count =
     (let divisor = 524288 * count in
      if divisor = 0 then None
      else Some (of_int (c_div (\<bar>sint (INTN_TO_INT64 (be48 x) 48)\<bar> * 625) (uint divisor))))"

record tng_energy_monitor =
  pac193x_register :: pac193x_read_register
  voltage :: "u32 list"
  current :: "u32 list"
  power :: "u32 list"
  energy :: "u64 list"

fun update_channels :: "nat list \<Rightarrow> tng_energy_monitor \<Rightarrow> tng_energy_monitor option" where
  "update_channels [] e = Some e"
| "update_channels (i # is) e =
     (let r = pac193x_register e in do {
        v \<leftarrow> arr_get (vbus_avg r) i;
        c \<leftarrow> arr_get (vsense_avg r) i;
        a \<leftarrow> arr_get (vpower_acc r) i;
        p \<leftarrow> channel_power a (be24 (acc_count r));
        vs \<leftarrow> arr_set (voltage e) i (channel_voltage v);
        cs \<leftarrow> arr_set (current e) i (channel_current c);
        ps \<leftarrow> arr_set (power e) i p;
        old \<leftarrow> arr_get (energy e) i;
        es \<leftarrow> arr_set (energy e) i (old + ucast (p div 5));
        update_channels is (e \<lparr> voltage := vs, current := cs, power := ps, energy := es \<rparr>)
      })"

definition pac193x_update_values :: "u8 list \<Rightarrow> tng_energy_monitor \<Rightarrow> tng_energy_monitor option" where
  "pac193x_update_values read_reg_tmp e =
     update_channels [0..<PAC193X_CHANNEL_NUM] (e \<lparr> pac193x_register := read_register_of read_reg_tmp \<rparr>)"

section \<open>State machine\<close>

datatype pac193x_state = REFRESH | REFRESH_WAIT | READ_TX | READ_TX_WAIT | READ_RX | READ_RX_WAIT | SLEEP

record monitor =
  measured :: tng_energy_monitor
  pac193x_state :: pac193x_state
  wait_start_time :: u32
  transmitted :: "u8 list list"

record monitor_input =
  started :: bool
  ready :: bool
  received :: "u8 list"
  now :: u32

definition pac193x_tick :: "monitor_input \<Rightarrow> monitor \<Rightarrow> monitor option" where
  "pac193x_tick i s = (case pac193x_state s of
       REFRESH \<Rightarrow> Some (if started i
         then s \<lparr> transmitted := transmitted s @ [[PAC193X_REG_REFRESH, 0]], pac193x_state := REFRESH_WAIT \<rparr> else s)
     | REFRESH_WAIT \<Rightarrow> Some (if ready i then s \<lparr> pac193x_state := READ_TX, wait_start_time := now i \<rparr> else s)
     | READ_TX \<Rightarrow> Some (if wait_start_time s = 0 \<or> system_timer_is_time_elapsed_ms (now i) (wait_start_time s) 2
         then let s1 = s \<lparr> wait_start_time := 0 \<rparr> in
           if started i then s1 \<lparr> transmitted := transmitted s1 @ [[PAC193X_REG_CTRL]], pac193x_state := READ_TX_WAIT \<rparr>
           else s1
         else s)
     | READ_TX_WAIT \<Rightarrow> Some (if ready i then s \<lparr> pac193x_state := READ_RX \<rparr> else s)
     | READ_RX \<Rightarrow> Some (if started i then s \<lparr> pac193x_state := READ_RX_WAIT \<rparr> else s)
     | READ_RX_WAIT \<Rightarrow> if ready i then do {
           v \<leftarrow> pac193x_update_values (received i) (measured s);
           Some (s \<lparr> measured := v, pac193x_state := SLEEP, wait_start_time := now i \<rparr>)
         }
         else Some s
     | SLEEP \<Rightarrow> Some (if wait_start_time s = 0 \<or> system_timer_is_time_elapsed_ms (now i) (wait_start_time s) 200
         then s \<lparr> wait_start_time := 0, pac193x_state := REFRESH \<rparr> else s))"

definition tng_energy_monitor_zero :: tng_energy_monitor where
  "tng_energy_monitor_zero = \<lparr> pac193x_register = read_register_of (replicate READ_REGISTER_SIZE 0),
     voltage = replicate 3 0, current = replicate 3 0, power = replicate 3 0, energy = replicate 3 0 \<rparr>"

section \<open>The power of a channel\<close>

lemma be24_less: "unat (be24 x) < 2 ^ 24"
proof -
  have "be24 x = take_bit 24 (be24 x)"
    by (rule bit_word_eqI) (auto simp: be24_def bit_simps dest: bit_imp_le_length)
  then have "unat (be24 x) = take_bit 24 (unat (be24 x))" by (metis unsigned_take_bit_eq)
  then show ?thesis using take_bit_nat_less_exp[of 24 "unat (be24 x)"] by simp
qed

lemma divisor_nat: "unat (524288 * c :: u32) = 524288 * (unat c mod 8192)"
proof -
  have "unat (524288 * c :: u32) = (2 ^ 19 * unat c) mod (2 ^ 19 * 2 ^ 13)"
    by (simp add: unat_word_ariths)
  also have "\<dots> = 2 ^ 19 * (unat c mod 2 ^ 13)" by (rule mult_mod_right[symmetric])
  finally show ?thesis by simp
qed

definition accumulated :: "u8 list \<Rightarrow> nat" where
  "accumulated x = nat \<bar>sint (INTN_TO_INT64 (be48 x) 48)\<bar>"

lemma channel_power_value:
  "channel_power x count = (if unat count mod 8192 = 0 then None
     else Some (of_nat (accumulated x * 625 div (524288 * (unat count mod 8192)))))"
proof -
  let ?d = "524288 * count"
  have "?d = 0 \<longleftrightarrow> unat ?d = 0" by (simp add: unat_eq_0)
  then have zero: "?d = 0 \<longleftrightarrow> unat count mod 8192 = 0" by (simp add: divisor_nat)
  have "c_div (\<bar>s\<bar> * 625) (uint ?d) = int (nat \<bar>s\<bar> * 625 div unat ?d)" if "?d \<noteq> 0" for s :: int
  proof -
    have "0 < unat ?d" using that unfolding unat_gt_0 .
    then have "0 < uint ?d" by (simp only: uint_nat of_nat_0_less_iff)
    then have "c_div (int (nat \<bar>s\<bar> * 625)) (uint ?d) = int (nat \<bar>s\<bar> * 625) div uint ?d"
      using that
      by (cases "nat \<bar>s\<bar> * 625 = 0") (simp_all add: c_div_def)
    then show ?thesis by (simp only: uint_nat zdiv_int of_nat_mult int_nat_eq) simp
  qed
  then show ?thesis
    unfolding channel_power_def Let_def zero[symmetric] accumulated_def by (simp add: divisor_nat)
qed

text \<open>C33. The power of a channel has no value (its divisor wraps to zero) exactly when the number of
  accumulated samples is a multiple of 8192, zero included. Below 8192 samples of at most 28 bits it is the
  mean power in mW, at most 160 W; above, the samples are divided by the remainder of their number.\<close>

theorem channel_power_bounds:
  shows "(channel_power x count = None \<longleftrightarrow> unat count mod 8192 = 0) \<and>
    (0 < unat count \<and> unat count < 8192 \<and> accumulated x \<le> unat count * 2 ^ 27 \<longrightarrow>
      (\<exists>p. channel_power x count = Some p \<and> unat p = accumulated x * 625 div (2 ^ 19 * unat count) \<and> unat p \<le> 160000))"
proof -
  have "unat (of_nat (accumulated x * 625 div (524288 * unat count)) :: u32) =
      accumulated x * 625 div (2 ^ 19 * unat count) \<and>
    accumulated x * 625 div (2 ^ 19 * unat count) \<le> 160000"
    if "0 < unat count" "accumulated x \<le> unat count * 2 ^ 27"
  proof -
    have "accumulated x * 625 \<le> 160000 * (524288 * unat count)" using that(2) by simp
    then have "accumulated x * 625 div (524288 * unat count) \<le> 160000"
      using div_le_mono[of "accumulated x * 625" "160000 * (524288 * unat count)" "524288 * unat count"] that(1) by simp
    then show ?thesis by (simp add: unat_of_nat take_bit_nat_eq_self)
  qed
  then show ?thesis by (auto simp: channel_power_value)
qed

lemma channel_power_bounds_witness:
  "\<exists>p. channel_power [0, 0, 0x40, 0, 0, 0] 12 = Some p \<and> unat p \<le> 160000"
proof -
  have "accumulated [0, 0, 0x40, 0, 0, 0] \<le> unat (12 :: u32) * 2 ^ 27"
    by (simp add: accumulated_def be48_def INTN_TO_INT64_def)
  then show ?thesis using channel_power_bounds[of "[0, 0, 0x40, 0, 0, 0]" 12] by auto
qed

section \<open>A cycle of the state machine\<close>

lemma monitor_cycle:
  assumes "pac193x_state s = REFRESH" "wait_start_time s = 0"
    and "pac193x_update_values bs (measured s) = Some v"
    and "ms \<noteq> 0" "\<And>k. k \<in> {2, 200} \<Longrightarrow> system_timer_is_time_elapsed_ms (later k) ms k"
  shows "\<exists>s1. Option.bind (pac193x_tick \<lparr> started = True, ready = b1, received = r1, now = n1 \<rparr> s) (\<lambda>s.
      Option.bind (pac193x_tick \<lparr> started = b2, ready = True, received = r2, now = ms \<rparr> s) (\<lambda>s.
      Option.bind (pac193x_tick \<lparr> started = True, ready = b3, received = r3, now = later 2 \<rparr> s) (\<lambda>s.
      Option.bind (pac193x_tick \<lparr> started = b4, ready = True, received = r4, now = n4 \<rparr> s) (\<lambda>s.
      Option.bind (pac193x_tick \<lparr> started = True, ready = b5, received = r5, now = n5 \<rparr> s) (\<lambda>s.
      Option.bind (pac193x_tick \<lparr> started = b6, ready = True, received = bs, now = ms \<rparr> s) (\<lambda>s.
      pac193x_tick \<lparr> started = b7, ready = b8, received = r7, now = later 200 \<rparr> s)))))) = Some s1 \<and>
    pac193x_state s1 = REFRESH \<and> measured s1 = v \<and> transmitted s1 = transmitted s @ [[PAC193X_REG_REFRESH, 0], [PAC193X_REG_CTRL]]"
  using assms by (simp add: pac193x_tick_def)

end
