(* ===== verification/I2c_Fifo.thy ===== *)
theory I2c_Fifo
  imports System_Timer
begin

text \<open>
  The I2C driver on the hardware FIFOs (\<^verbatim>\<open>hal/i2c_fifo/i2c_fifo.c\<close>,
  \<^verbatim>\<open>hal/i2c_fifo/i2c_fifo.h\<close>). The transmit FIFO is the list of the words written to it; the
  bytes that the hardware receives are appended to the receive FIFO between two steps of the code, and its
  status flags are an input. The register accesses that configure pins and channel are not modelled.
\<close>

section \<open>States\<close>

definition I2C_FIFO_STATUS_TIMEOUT :: u32 where "I2C_FIFO_STATUS_TIMEOUT = 0xFFFFFFFF"
definition I2C_FIFO_STATUS_MUTEX :: u32 where "I2C_FIFO_STATUS_MUTEX = 0xFFFFFFFE"
definition I2C_FIFO_TIMEOUT :: u32 where "I2C_FIFO_TIMEOUT = 10"

definition I2C_FIFO_STATE_IDLE :: u8 where "I2C_FIFO_STATE_IDLE = 0"
definition I2C_FIFO_STATE_READY :: u8 where "I2C_FIFO_STATE_READY = 0x40"
definition I2C_FIFO_STATE_ERROR :: u8 where "I2C_FIFO_STATE_ERROR = 0x80"
definition I2C_FIFO_STATE_WRITE_REGISTER :: u8 where "I2C_FIFO_STATE_WRITE_REGISTER = 1"
definition I2C_FIFO_STATE_WRITE_DIRECT :: u8 where "I2C_FIFO_STATE_WRITE_DIRECT = 2"
definition I2C_FIFO_STATE_READ_REGISTER :: u8 where "I2C_FIFO_STATE_READ_REGISTER = 4"
definition I2C_FIFO_STATE_READ_DIRECT :: u8 where "I2C_FIFO_STATE_READ_DIRECT = 8"

definition I2C_FIFO_STATE_WRITE_REGISTER_READY :: u8 where
  "I2C_FIFO_STATE_WRITE_REGISTER_READY = I2C_FIFO_STATE_WRITE_REGISTER OR I2C_FIFO_STATE_READY"
definition I2C_FIFO_STATE_WRITE_REGISTER_ERROR :: u8 where
  "I2C_FIFO_STATE_WRITE_REGISTER_ERROR = I2C_FIFO_STATE_WRITE_REGISTER OR I2C_FIFO_STATE_ERROR"
definition I2C_FIFO_STATE_WRITE_DIRECT_READY :: u8 where
  "I2C_FIFO_STATE_WRITE_DIRECT_READY = I2C_FIFO_STATE_WRITE_DIRECT OR I2C_FIFO_STATE_READY"
definition I2C_FIFO_STATE_WRITE_DIRECT_ERROR :: u8 where
  "I2C_FIFO_STATE_WRITE_DIRECT_ERROR = I2C_FIFO_STATE_WRITE_DIRECT OR I2C_FIFO_STATE_ERROR"
definition I2C_FIFO_STATE_READ_REGISTER_READY :: u8 where
  "I2C_FIFO_STATE_READ_REGISTER_READY = I2C_FIFO_STATE_READ_REGISTER OR I2C_FIFO_STATE_READY"
definition I2C_FIFO_STATE_READ_REGISTER_ERROR :: u8 where
  "I2C_FIFO_STATE_READ_REGISTER_ERROR = I2C_FIFO_STATE_READ_REGISTER OR I2C_FIFO_STATE_ERROR"
definition I2C_FIFO_STATE_READ_DIRECT_READY :: u8 where
  "I2C_FIFO_STATE_READ_DIRECT_READY = I2C_FIFO_STATE_READ_DIRECT OR I2C_FIFO_STATE_READY"
definition I2C_FIFO_STATE_READ_DIRECT_ERROR :: u8 where
  "I2C_FIFO_STATE_READ_DIRECT_ERROR = I2C_FIFO_STATE_READ_DIRECT OR I2C_FIFO_STATE_ERROR"

lemmas i2c_states = I2C_FIFO_STATE_IDLE_def I2C_FIFO_STATE_READY_def I2C_FIFO_STATE_ERROR_def
  I2C_FIFO_STATE_WRITE_REGISTER_def I2C_FIFO_STATE_WRITE_DIRECT_def I2C_FIFO_STATE_READ_REGISTER_def
  I2C_FIFO_STATE_READ_DIRECT_def I2C_FIFO_STATE_WRITE_REGISTER_READY_def I2C_FIFO_STATE_WRITE_REGISTER_ERROR_def
  I2C_FIFO_STATE_WRITE_DIRECT_READY_def I2C_FIFO_STATE_WRITE_DIRECT_ERROR_def
  I2C_FIFO_STATE_READ_REGISTER_READY_def I2C_FIFO_STATE_READ_REGISTER_ERROR_def
  I2C_FIFO_STATE_READ_DIRECT_READY_def I2C_FIFO_STATE_READ_DIRECT_ERROR_def

definition TDF_MASTER_SEND :: u32 where "TDF_MASTER_SEND = 0"
definition TDF_MASTER_RECEIVE_ACK :: u32 where "TDF_MASTER_RECEIVE_ACK = 0x200"
definition TDF_MASTER_RECEIVE_NACK :: u32 where "TDF_MASTER_RECEIVE_NACK = 0x300"
definition TDF_MASTER_START :: u32 where "TDF_MASTER_START = 0x400"
definition TDF_MASTER_RESTART :: u32 where "TDF_MASTER_RESTART = 0x500"
definition TDF_MASTER_STOP :: u32 where "TDF_MASTER_STOP = 0x600"

lemmas tdf_codes = TDF_MASTER_SEND_def TDF_MASTER_RECEIVE_ACK_def TDF_MASTER_RECEIVE_NACK_def
  TDF_MASTER_START_def TDF_MASTER_RESTART_def TDF_MASTER_STOP_def

text \<open>The constants of the vendor library, whether the calls share a mutex, and the size of a register
  address in bytes.\<close>

record i2c_config =
  XMC_I2C_CH_CMD_READ :: u32
  FLAG_NACK_RECEIVED :: u32
  FLAG_ARBITRATION_LOST :: u32
  FLAG_ERROR :: u32
  FLAG_WRONG_TDF_CODE_FOUND :: u32
  FLAG_DATA_LOST_INDICATION :: u32
  COOP_USE_MUTEX :: bool
  I2C_FIFO_REG_SIZE :: nat

record i2c_fifo =
  i2c_address :: u8
  expected_fifo_level :: u8
  i2c_state :: u8
  i2c_status :: u32
  last_activity :: u32
  mutex :: bool
  tx_words :: "u32 list"
  rx_bytes :: "u8 list"

text \<open>What the code sees of the hardware at one moment.\<close>

record i2c_now =
  status_flags :: u32
  tx_empty :: bool
  now_ms :: u32

section \<open>Transfers\<close>

definition i2c_fifo_ready_or_idle :: "i2c_fifo \<Rightarrow> bool" where
  "i2c_fifo_ready_or_idle s \<longleftrightarrow> i2c_state s = I2C_FIFO_STATE_IDLE \<or> i2c_state s AND I2C_FIFO_STATE_READY \<noteq> 0"

definition push_words :: "u32 list \<Rightarrow> i2c_fifo \<Rightarrow> i2c_fifo" where
  "push_words ws s = s \<lparr> tx_words := tx_words s @ ws \<rparr>"

definition send_words :: "u8 list \<Rightarrow> u32 list" where
  "send_words bs = map (\<lambda>b. TDF_MASTER_SEND OR ucast b) bs"

definition address_word :: "i2c_fifo \<Rightarrow> u32" where
  "address_word s = push_bit 1 (ucast (i2c_address s))"

definition register_bytes :: "i2c_config \<Rightarrow> u16 \<Rightarrow> u8 list" where
  "register_bytes cfg reg = (if I2C_FIFO_REG_SIZE cfg = 1 then [ucast reg]
     else if I2C_FIFO_REG_SIZE cfg = 2 then [ucast (drop_bit 8 reg), ucast (reg AND 0xFF)] else [])"

definition i2c_fifo_write_register :: "i2c_config \<Rightarrow> u32 \<Rightarrow> u16 \<Rightarrow> u8 list \<Rightarrow> bool \<Rightarrow> i2c_fifo \<Rightarrow> i2c_fifo" where
  "i2c_fifo_write_register cfg ms reg data send_stop s =
     (if \<not> i2c_fifo_ready_or_idle s then s \<lparr> i2c_state := I2C_FIFO_STATE_WRITE_REGISTER_ERROR \<rparr>
      else push_words ([address_word s OR TDF_MASTER_START] @ send_words (register_bytes cfg reg) @ send_words data @
             (if send_stop then [TDF_MASTER_STOP] else []))
           (s \<lparr> last_activity := ms,
                i2c_state := if send_stop then I2C_FIFO_STATE_WRITE_REGISTER else i2c_state s \<rparr>))"

definition i2c_fifo_write_direct :: "u32 \<Rightarrow> u8 list \<Rightarrow> bool \<Rightarrow> i2c_fifo \<Rightarrow> i2c_fifo" where
  "i2c_fifo_write_direct ms data send_stop s =
     (if \<not> i2c_fifo_ready_or_idle s then s \<lparr> i2c_state := I2C_FIFO_STATE_WRITE_DIRECT_ERROR \<rparr>
      else push_words ([address_word s OR TDF_MASTER_START] @ send_words data @
             (if send_stop then [TDF_MASTER_STOP] else []))
           (s \<lparr> last_activity := ms,
                i2c_state := if send_stop then I2C_FIFO_STATE_WRITE_DIRECT else i2c_state s \<rparr>))"

text \<open>The counter of the loop has 16 bits: None when the loop never ends.\<close>

definition receive_words :: "u32 \<Rightarrow> u32 list option" where
  "receive_words len = (if len = 0 then Some []
     else if unat (len - 1) \<le> 0xFFFF
     then Some (replicate (unat (len - 1)) TDF_MASTER_RECEIVE_ACK @ [TDF_MASTER_RECEIVE_NACK])
     else None)"

definition i2c_fifo_read_register :: "i2c_config \<Rightarrow> u32 \<Rightarrow> u32 \<Rightarrow> u16 \<Rightarrow> u32 \<Rightarrow> i2c_fifo \<Rightarrow> i2c_fifo option" where
  "i2c_fifo_read_register cfg ms1 ms2 reg len s =
     (let s1 = i2c_fifo_write_register cfg ms1 reg [] False s in
      if \<not> i2c_fifo_ready_or_idle s1 then Some (s1 \<lparr> i2c_state := I2C_FIFO_STATE_READ_REGISTER_ERROR \<rparr>)
      else do {
        ws \<leftarrow> receive_words len;
        Some (push_words ([TDF_MASTER_RESTART OR XMC_I2C_CH_CMD_READ cfg OR address_word s1] @ ws @ [TDF_MASTER_STOP])
          (s1 \<lparr> last_activity := ms2, i2c_state := I2C_FIFO_STATE_READ_REGISTER, expected_fifo_level := ucast len \<rparr>))
      })"

definition i2c_fifo_read_direct :: "i2c_config \<Rightarrow> u32 \<Rightarrow> u32 \<Rightarrow> bool \<Rightarrow> i2c_fifo \<Rightarrow> i2c_fifo option" where
  "i2c_fifo_read_direct cfg ms len restart s =
     (if \<not> i2c_fifo_ready_or_idle s then Some (s \<lparr> i2c_state := I2C_FIFO_STATE_READ_DIRECT_ERROR \<rparr>)
      else do {
        ws \<leftarrow> receive_words len;
        Some (push_words
          ([(if restart then TDF_MASTER_RESTART else TDF_MASTER_START) OR XMC_I2C_CH_CMD_READ cfg OR address_word s] @
            ws @ [TDF_MASTER_STOP])
          (s \<lparr> last_activity := ms, i2c_state := I2C_FIFO_STATE_READ_DIRECT, expected_fifo_level := ucast len \<rparr>))
      })"

definition i2c_fifo_read_fifo :: "u8 \<Rightarrow> i2c_fifo \<Rightarrow> u8 list \<times> i2c_fifo" where
  "i2c_fifo_read_fifo buffer_length s =
     (take (unat buffer_length) (rx_bytes s), s \<lparr> rx_bytes := drop (unat buffer_length) (rx_bytes s) \<rparr>)"

text \<open>The levels that \<^verbatim>\<open>i2c_fifo_init\<close> puts on the lines to free a stuck bus.\<close>

datatype line = Sda bool | Scl bool

definition i2c_fifo_clear_bus :: "line list" where
  "i2c_fifo_clear_bus = [Sda True, Scl True] @ concat (replicate 9 [Scl False, Scl True]) @
     [Sda True, Scl True, Sda False, Scl False, Scl True, Sda True]"

definition i2c_fifo_init :: "i2c_config \<Rightarrow> i2c_fifo \<Rightarrow> line list \<times> i2c_fifo" where
  "i2c_fifo_init cfg s =
     (if COOP_USE_MUTEX cfg \<and> mutex s then ([], s)
      else (if i2c_status s = I2C_FIFO_STATUS_TIMEOUT then i2c_fifo_clear_bus else [],
        s \<lparr> i2c_state := I2C_FIFO_STATE_IDLE, tx_words := [], rx_bytes := [],
            mutex := if COOP_USE_MUTEX cfg then False else mutex s \<rparr>))"

section \<open>Progress\<close>

definition error_flags :: "i2c_config \<Rightarrow> u32" where
  "error_flags cfg = FLAG_NACK_RECEIVED cfg OR FLAG_ARBITRATION_LOST cfg OR FLAG_ERROR cfg OR FLAG_WRONG_TDF_CODE_FOUND cfg"

definition i2c_fifo_next_state :: "i2c_config \<Rightarrow> i2c_now \<Rightarrow> i2c_fifo \<Rightarrow> i2c_fifo" where
  "i2c_fifo_next_state cfg i s =
     (if i2c_state s = I2C_FIFO_STATE_WRITE_REGISTER \<or> i2c_state s = I2C_FIFO_STATE_WRITE_DIRECT then
        let s1 = s \<lparr> i2c_status := status_flags i \<rparr> in
        if i2c_status s1 AND error_flags cfg \<noteq> 0 then s1 \<lparr> i2c_state := i2c_state s1 OR I2C_FIFO_STATE_ERROR \<rparr>
        else if tx_empty i then s1 \<lparr> i2c_state := i2c_state s1 OR I2C_FIFO_STATE_READY \<rparr>
        else if system_timer_is_time_elapsed_ms (now_ms i) (last_activity s1) I2C_FIFO_TIMEOUT
        then s1 \<lparr> i2c_state := i2c_state s1 OR I2C_FIFO_STATE_ERROR, i2c_status := I2C_FIFO_STATUS_TIMEOUT \<rparr>
        else s1
      else if i2c_state s = I2C_FIFO_STATE_READ_REGISTER \<or> i2c_state s = I2C_FIFO_STATE_READ_DIRECT then
        let s1 = s \<lparr> i2c_status := status_flags i \<rparr> in
        if i2c_status s1 AND error_flags cfg \<noteq> 0
        then s1 \<lparr> expected_fifo_level := 0, i2c_state := i2c_state s1 OR I2C_FIFO_STATE_ERROR \<rparr>
        else if unat (expected_fifo_level s1) \<le> length (rx_bytes s1)
        then s1 \<lparr> expected_fifo_level := 0, i2c_state := i2c_state s1 OR I2C_FIFO_STATE_READY \<rparr>
        else if system_timer_is_time_elapsed_ms (now_ms i) (last_activity s1) I2C_FIFO_TIMEOUT
        then s1 \<lparr> i2c_state := i2c_state s1 OR I2C_FIFO_STATE_ERROR, i2c_status := I2C_FIFO_STATUS_TIMEOUT \<rparr>
        else s1
      else s)"

section \<open>Calls from a task\<close>

text \<open>The writing calls pass a length of 32 bits to a parameter of 16 bits. A round of the loop of these calls is what the code sees and the bytes that arrive while it yields.
  Running: the loop has not ended within the rounds.\<close>

definition as_u16_length :: "'a list \<Rightarrow> 'a list" where
  "as_u16_length xs = take (unat (of_nat (length xs) :: u16)) xs"

datatype wait_result = Failed u32 | Ready | Running

fun coop_wait :: "i2c_config \<Rightarrow> u8 \<Rightarrow> (i2c_now \<times> u8 list) list \<Rightarrow> i2c_fifo \<Rightarrow> wait_result \<times> i2c_fifo" where
  "coop_wait cfg awaited [] s = (Running, s)"
| "coop_wait cfg awaited ((i, bytes) # rounds) s =
     (let s1 = i2c_fifo_next_state cfg i s in
      if i2c_state s1 AND I2C_FIFO_STATE_ERROR \<noteq> 0 then (Failed (i2c_status s1), s1)
      else if i2c_state s1 \<noteq> awaited then coop_wait cfg awaited rounds (s1 \<lparr> rx_bytes := rx_bytes s1 @ bytes \<rparr>)
      else (Ready, s1))"

definition lock :: "i2c_config \<Rightarrow> i2c_fifo \<Rightarrow> i2c_fifo" where
  "lock cfg s = (if COOP_USE_MUTEX cfg then s \<lparr> mutex := True \<rparr> else s)"

definition unlock :: "i2c_config \<Rightarrow> i2c_fifo \<Rightarrow> i2c_fifo" where
  "unlock cfg s = (if COOP_USE_MUTEX cfg then s \<lparr> mutex := False \<rparr> else s)"

text \<open>What the two reading calls do after the transfer has been started, and the two writing calls: the
  status that is returned (None while the call runs), the bytes written to the buffer, the state.\<close>

definition coop_read :: "i2c_config \<Rightarrow> u8 \<Rightarrow> u32 \<Rightarrow> (i2c_now \<times> u8 list) list \<Rightarrow> i2c_fifo \<Rightarrow> u32 option \<times> u8 list \<times> i2c_fifo" where
  "coop_read cfg awaited len rounds s =
     (case coop_wait cfg awaited rounds s of
        (Running, s1) \<Rightarrow> (None, [], s1)
      | (Failed st, s1) \<Rightarrow> (Some st, [], unlock cfg s1)
      | (Ready, s1) \<Rightarrow> let (data, s2) = i2c_fifo_read_fifo (ucast len) s1 in
          (Some (if length data \<noteq> unat len then FLAG_DATA_LOST_INDICATION cfg else 0), data, unlock cfg s2))"

definition coop_write :: "i2c_config \<Rightarrow> u8 \<Rightarrow> (i2c_now \<times> u8 list) list \<Rightarrow> i2c_fifo \<Rightarrow> u32 option \<times> i2c_fifo" where
  "coop_write cfg awaited rounds s =
     (case coop_wait cfg awaited rounds s of
        (Running, s1) \<Rightarrow> (None, s1)
      | (Failed st, s1) \<Rightarrow> (Some st, unlock cfg s1)
      | (Ready, s1) \<Rightarrow> (Some 0, unlock cfg s1))"

definition i2c_fifo_coop_read_register ::
  "i2c_config \<Rightarrow> u32 \<Rightarrow> u32 \<Rightarrow> u16 \<Rightarrow> u32 \<Rightarrow> (i2c_now \<times> u8 list) list \<Rightarrow> i2c_fifo \<Rightarrow> (u32 option \<times> u8 list \<times> i2c_fifo) option" where
  "i2c_fifo_coop_read_register cfg ms1 ms2 reg len rounds s =
     (if COOP_USE_MUTEX cfg \<and> mutex s then Some (Some I2C_FIFO_STATUS_MUTEX, [], s)
      else do {
        s1 \<leftarrow> i2c_fifo_read_register cfg ms1 ms2 reg len (lock cfg s);
        Some (coop_read cfg I2C_FIFO_STATE_READ_REGISTER_READY len rounds s1)
      })"

definition i2c_fifo_coop_write_register ::
  "i2c_config \<Rightarrow> u32 \<Rightarrow> u16 \<Rightarrow> u8 list \<Rightarrow> bool \<Rightarrow> (i2c_now \<times> u8 list) list \<Rightarrow> i2c_fifo \<Rightarrow> u32 option \<times> i2c_fifo" where
  "i2c_fifo_coop_write_register cfg ms reg data send_stop rounds s =
     (if COOP_USE_MUTEX cfg \<and> mutex s then (Some I2C_FIFO_STATUS_MUTEX, s)
      else coop_write cfg I2C_FIFO_STATE_WRITE_REGISTER_READY rounds
        (i2c_fifo_write_register cfg ms reg (as_u16_length data) send_stop (lock cfg s)))"

definition i2c_fifo_coop_read_direct ::
  "i2c_config \<Rightarrow> u32 \<Rightarrow> u32 \<Rightarrow> bool \<Rightarrow> (i2c_now \<times> u8 list) list \<Rightarrow> i2c_fifo \<Rightarrow> (u32 option \<times> u8 list \<times> i2c_fifo) option" where
  "i2c_fifo_coop_read_direct cfg ms len restart rounds s =
     (if COOP_USE_MUTEX cfg \<and> mutex s then Some (Some I2C_FIFO_STATUS_MUTEX, [], s)
      else do {
        s1 \<leftarrow> i2c_fifo_read_direct cfg ms len restart (lock cfg s);
        Some (coop_read cfg I2C_FIFO_STATE_READ_DIRECT_READY len rounds s1)
      })"

definition i2c_fifo_coop_write_direct ::
  "i2c_config \<Rightarrow> u32 \<Rightarrow> u8 list \<Rightarrow> bool \<Rightarrow> (i2c_now \<times> u8 list) list \<Rightarrow> i2c_fifo \<Rightarrow> u32 option \<times> i2c_fifo" where
  "i2c_fifo_coop_write_direct cfg ms data send_stop rounds s =
     (if COOP_USE_MUTEX cfg \<and> mutex s then (Some I2C_FIFO_STATUS_MUTEX, s)
      else coop_write cfg I2C_FIFO_STATE_WRITE_DIRECT_READY rounds
        (i2c_fifo_write_direct ms (as_u16_length data) send_stop (lock cfg s)))"

section \<open>The words of a transfer\<close>

datatype tdf = Send u8 | Receive_Ack | Receive_Nack | Start u8 | Restart u8 | Stop | Other

definition tdf_of :: "u32 \<Rightarrow> tdf" where
  "tdf_of w = (let code = drop_bit 8 w; b = ucast w in
     if code = 0 then Send b else if code = 2 then Receive_Ack else if code = 3 then Receive_Nack
     else if code = 4 then Start b else if code = 5 then Restart b else if code = 6 then Stop else Other)"

lemma code_word: "drop_bit 8 (push_bit 8 c OR (ucast (b :: u8) :: u32)) = drop_bit 8 (push_bit 8 c)"
  "ucast (push_bit 8 c OR (ucast (b :: u8) :: u32)) = b"
proof -
  show "drop_bit 8 (push_bit 8 c OR (ucast b :: u32)) = drop_bit 8 (push_bit 8 c)"
    by (rule bit_word_eqI) (auto simp: bit_simps dest: bit_imp_le_length)
  show "ucast (push_bit 8 c OR (ucast b :: u32)) = b"
    by (rule bit_word_eqI) (auto simp: bit_simps)
qed

lemma tdf_of_code:
  "c = 0 \<Longrightarrow> tdf_of (push_bit 8 c OR ucast (b :: u8)) = Send b"
  "c = 4 \<Longrightarrow> tdf_of (push_bit 8 c OR ucast (b :: u8)) = Start b"
  "c = 5 \<Longrightarrow> tdf_of (push_bit 8 c OR ucast (b :: u8)) = Restart b"
  by (simp_all only: tdf_of_def code_word) simp_all

lemma send_words_tdf: "map tdf_of (send_words bs) = map Send bs"
  using tdf_of_code(1)[of 0] by (simp add: send_words_def TDF_MASTER_SEND_def)

lemma fixed_tdf [simp]:
  "tdf_of TDF_MASTER_STOP = Stop" "tdf_of TDF_MASTER_RECEIVE_ACK = Receive_Ack" "tdf_of TDF_MASTER_RECEIVE_NACK = Receive_Nack"
  by (simp_all add: tdf_of_def tdf_codes)

lemma address_ucast:
  assumes "i2c_address s < 128"
  shows "address_word s = ucast (push_bit 1 (i2c_address s))"
proof -
  have "unat (i2c_address s) < 128" using assms by (simp add: word_less_nat_alt)
  then show ?thesis
    by (simp add: address_word_def word_unat_eq_iff unat_word_ariths unsigned_ucast_eq take_bit_eq_mod)
qed

lemma address_tdf:
  assumes "i2c_address s < 128"
  shows "tdf_of (address_word s OR TDF_MASTER_START) = Start (push_bit 1 (i2c_address s))"
    "tdf_of (TDF_MASTER_RESTART OR 1 OR address_word s) = Restart (push_bit 1 (i2c_address s) OR 1)"
    "tdf_of (TDF_MASTER_START OR 1 OR address_word s) = Start (push_bit 1 (i2c_address s) OR 1)"
proof -
  have eq: "address_word s OR TDF_MASTER_START = push_bit 8 4 OR ucast (push_bit 1 (i2c_address s))"
    "TDF_MASTER_RESTART OR 1 OR address_word s = push_bit 8 5 OR ucast (push_bit 1 (i2c_address s) OR 1)"
    "TDF_MASTER_START OR 1 OR address_word s = push_bit 8 4 OR ucast (push_bit 1 (i2c_address s) OR 1)"
    unfolding address_ucast[OF assms] by (simp_all add: tdf_codes ac_simps unsigned_or_eq)
  show "tdf_of (address_word s OR TDF_MASTER_START) = Start (push_bit 1 (i2c_address s))"
    "tdf_of (TDF_MASTER_RESTART OR 1 OR address_word s) = Restart (push_bit 1 (i2c_address s) OR 1)"
    "tdf_of (TDF_MASTER_START OR 1 OR address_word s) = Start (push_bit 1 (i2c_address s) OR 1)"
    unfolding eq by (simp_all only: tdf_of_code)
qed

lemma receive_words_tdf:
  assumes "0 < len" "unat len \<le> 255"
  obtains ws where "receive_words len = Some ws"
    "map tdf_of ws = replicate (unat len - 1) Receive_Ack @ [Receive_Nack]"
proof -
  have "unat (len - 1) = unat len - 1" using assms(1) by (simp add: unat_minus_one word_gt_0)
  then show ?thesis using assms
    by (intro that[of "replicate (unat (len - 1)) TDF_MASTER_RECEIVE_ACK @ [TDF_MASTER_RECEIVE_NACK]"])
      (auto simp: receive_words_def)
qed

section \<open>Waiting for a transfer\<close>

text \<open>A round in which the code sees neither an error nor that the time has passed.\<close>

definition good_round :: "i2c_config \<Rightarrow> i2c_fifo \<Rightarrow> i2c_now \<times> u8 list \<Rightarrow> bool" where
  "good_round cfg s r \<longleftrightarrow> status_flags (fst r) AND error_flags cfg = 0 \<and>
     \<not> system_timer_is_time_elapsed_ms (now_ms (fst r)) (last_activity s) I2C_FIFO_TIMEOUT"

definition reading :: "u8 \<Rightarrow> bool" where
  "reading st \<longleftrightarrow> st = I2C_FIFO_STATE_READ_REGISTER \<or> st = I2C_FIFO_STATE_READ_DIRECT"

lemma read_step:
  assumes "reading st" "i2c_state s = st" "s1 = i2c_fifo_next_state cfg i s"
  shows "tx_words s1 = tx_words s" "rx_bytes s1 = rx_bytes s" "mutex s1 = mutex s" "last_activity s1 = last_activity s"
    "(i2c_state s1 = st \<and> expected_fifo_level s1 = expected_fifo_level s \<and> length (rx_bytes s) < unat (expected_fifo_level s)) \<or>
     (i2c_state s1 = st OR I2C_FIFO_STATE_READY \<and> unat (expected_fifo_level s) \<le> length (rx_bytes s)) \<or>
     (i2c_state s1 = st OR I2C_FIFO_STATE_ERROR \<and> i2c_status s1 \<noteq> 0)"
    "good_round cfg s (i, b) \<Longrightarrow> i2c_state s1 = st \<or> i2c_state s1 = st OR I2C_FIFO_STATE_READY"
  using assms
  by (auto simp: i2c_fifo_next_state_def reading_def i2c_states Let_def good_round_def I2C_FIFO_STATUS_TIMEOUT_def)

lemma reading_bits:
  assumes "reading st"
  shows "st AND I2C_FIFO_STATE_ERROR = 0" "(st OR I2C_FIFO_STATE_READY) AND I2C_FIFO_STATE_ERROR = 0"
    "(st OR I2C_FIFO_STATE_ERROR) AND I2C_FIFO_STATE_ERROR \<noteq> 0" "st \<noteq> st OR I2C_FIFO_STATE_READY"
    "st \<noteq> st OR I2C_FIFO_STATE_ERROR"
  using assms by (auto simp: reading_def i2c_states)

lemma coop_wait_read:
  assumes "reading st"
  shows "i2c_state s = st \<Longrightarrow> coop_wait cfg (st OR I2C_FIFO_STATE_READY) rounds s = (w, s1) \<Longrightarrow>
    tx_words s1 = tx_words s \<and> mutex s1 = mutex s \<and>
    (\<exists>k. rx_bytes s1 = rx_bytes s @ concat (map snd (take k rounds))) \<and>
    (case w of Running \<Rightarrow> i2c_state s1 = st
     | Failed e \<Rightarrow> i2c_state s1 = st OR I2C_FIFO_STATE_ERROR \<and> e \<noteq> 0
     | Ready \<Rightarrow> i2c_state s1 = st OR I2C_FIFO_STATE_READY \<and> unat (expected_fifo_level s) \<le> length (rx_bytes s1))"
proof (induction cfg "st OR I2C_FIFO_STATE_READY" rounds s rule: coop_wait.induct)
  case (1 cfg s)
  then show ?case by (auto intro: exI[of _ 0])
next
  case (2 cfg i bytes rounds s)
  let ?s1 = "i2c_fifo_next_state cfg i s"
  note step = read_step[OF assms 2(2) refl, of cfg i] and bits = reading_bits[OF assms]
  consider (run) "i2c_state ?s1 = st" "expected_fifo_level ?s1 = expected_fifo_level s"
    | (ready) "i2c_state ?s1 = st OR I2C_FIFO_STATE_READY" "unat (expected_fifo_level s) \<le> length (rx_bytes s)"
    | (failed) "i2c_state ?s1 = st OR I2C_FIFO_STATE_ERROR" "i2c_status ?s1 \<noteq> 0" using step(5) by blast
  then show ?case
  proof cases
    case run
    let ?s2 = "?s1 \<lparr> rx_bytes := rx_bytes ?s1 @ bytes \<rparr>"
    have rec: "coop_wait cfg (st OR I2C_FIFO_STATE_READY) rounds ?s2 = (w, s1)" using 2(3) run bits by (simp add: Let_def)
    have s2: "i2c_state ?s2 = st" "expected_fifo_level ?s2 = expected_fifo_level s" "rx_bytes ?s2 = rx_bytes s @ bytes"
      "tx_words ?s2 = tx_words s" "mutex ?s2 = mutex s" using run step by simp_all
    have not_yet: "\<not> i2c_state ?s1 AND I2C_FIFO_STATE_ERROR \<noteq> 0" "i2c_state ?s1 \<noteq> st OR I2C_FIFO_STATE_READY"
      using run bits by simp_all
    note ih = 2(1)[OF refl not_yet s2(1) rec, unfolded s2]
    from ih obtain k where "rx_bytes s1 = (rx_bytes s @ bytes) @ concat (map snd (take k rounds))" by blast
    then have "rx_bytes s1 = rx_bytes s @ concat (map snd (take (Suc k) ((i, bytes) # rounds)))" by simp
    with ih show ?thesis by blast
  next
    case ready
    with 2(3) bits step show ?thesis by (auto simp: Let_def intro: exI[of _ 0])
  next
    case failed
    with 2(3) bits step show ?thesis by (auto simp: Let_def intro: exI[of _ 0])
  qed
qed

lemma coop_wait_good:
  assumes "reading st"
  shows "i2c_state s = st \<Longrightarrow> list_all (good_round cfg s) rounds \<Longrightarrow> rounds \<noteq> [] \<Longrightarrow>
    unat (expected_fifo_level s) \<le> length (rx_bytes s @ concat (map snd (butlast rounds))) \<Longrightarrow>
    fst (coop_wait cfg (st OR I2C_FIFO_STATE_READY) rounds s) = Ready"
proof (induction rounds arbitrary: s)
  case (Cons r rounds)
  obtain i bytes where r: "r = (i, bytes)" by (cases r)
  let ?s1 = "i2c_fifo_next_state cfg i s"
  note step = read_step[OF assms Cons(2) refl, of cfg i] and bits = reading_bits[OF assms]
  show ?case
  proof (cases "i2c_state ?s1 = st OR I2C_FIFO_STATE_READY")
    case True
    then show ?thesis using bits by (simp add: r Let_def)
  next
    case False
    then have run: "i2c_state ?s1 = st" using step(6)[of bytes] Cons(3) by (simp add: r)
    then have "expected_fifo_level ?s1 = expected_fifo_level s" and "length (rx_bytes s) < unat (expected_fifo_level s)"
      using step(5) bits by auto
    moreover from this(2) Cons(5) have "rounds \<noteq> []" by (auto split: if_splits)
    moreover have "list_all (good_round cfg (?s1 \<lparr> rx_bytes := rx_bytes ?s1 @ bytes \<rparr>)) rounds"
      using Cons(3) step(4) by (auto simp: good_round_def list_all_iff)
    ultimately have "fst (coop_wait cfg (st OR I2C_FIFO_STATE_READY) rounds (?s1 \<lparr> rx_bytes := rx_bytes ?s1 @ bytes \<rparr>)) = Ready"
      using Cons(5) run step(2) by (intro Cons(1)) (simp_all add: r)
    then show ?thesis using run bits by (simp add: r Let_def)
  qed
qed simp

section \<open>Register reads\<close>

lemma read_register_started:
  assumes "i2c_fifo_ready_or_idle s" "i2c_address s < 128" "0 < len" "unat len \<le> 255"
    and "I2C_FIFO_REG_SIZE cfg = 1" "XMC_I2C_CH_CMD_READ cfg = 1"
  obtains ws where "i2c_fifo_read_register cfg ms1 ms2 reg len s = Some (s \<lparr> tx_words := tx_words s @ ws,
      last_activity := ms2, i2c_state := I2C_FIFO_STATE_READ_REGISTER, expected_fifo_level := ucast len \<rparr>)"
    "map tdf_of ws = [Start (push_bit 1 (i2c_address s)), Send (ucast reg), Restart (push_bit 1 (i2c_address s) OR 1)] @
       replicate (unat len - 1) Receive_Ack @ [Receive_Nack, Stop]"
proof -
  obtain r where r: "receive_words len = Some r" "map tdf_of r = replicate (unat len - 1) Receive_Ack @ [Receive_Nack]"
    using receive_words_tdf assms(3,4) by blast
  let ?a = "address_word s"
  show ?thesis
  proof (rule that[of "[?a OR TDF_MASTER_START] @ send_words [ucast reg] @ [TDF_MASTER_RESTART OR 1 OR ?a] @ r @ [TDF_MASTER_STOP]"])
    show "map tdf_of ([?a OR TDF_MASTER_START] @ send_words [ucast reg] @ [TDF_MASTER_RESTART OR 1 OR ?a] @ r @ [TDF_MASTER_STOP]) =
      [Start (push_bit 1 (i2c_address s)), Send (ucast reg), Restart (push_bit 1 (i2c_address s) OR 1)] @
       replicate (unat len - 1) Receive_Ack @ [Receive_Nack, Stop]"
      unfolding map_append send_words_tdf r(2) using address_tdf[OF assms(2)] by simp
    show "i2c_fifo_read_register cfg ms1 ms2 reg len s = Some (s \<lparr> tx_words := tx_words s @
        [?a OR TDF_MASTER_START] @ send_words [ucast reg] @ [TDF_MASTER_RESTART OR 1 OR ?a] @ r @ [TDF_MASTER_STOP],
      last_activity := ms2, i2c_state := I2C_FIFO_STATE_READ_REGISTER, expected_fifo_level := ucast len \<rparr>)"
      using assms(1,5,6) r(1)
      by (auto simp: i2c_fifo_read_register_def i2c_fifo_write_register_def push_words_def register_bytes_def
          i2c_fifo_ready_or_idle_def address_word_def Let_def send_words_def)
  qed
qed

text \<open>C7. Reading a register of an I2C device from a task, when the bus is free: the transfer on the wire is
  start, address, register, repeated start, address with the read bit, an acknowledge for every byte but
  the last, stop. The call returns success only with exactly the requested bytes in the order of their
  arrival and the driver free for the next transfer, it returns an error only in the error state, and it
  does return success when the bytes arrive in time without an error on the bus.\<close>

theorem i2c_register_read:
  assumes free: "i2c_fifo_ready_or_idle s" "\<not> mutex s" "rx_bytes s = []"
    and params: "i2c_address s < 128" "0 < len" "unat len \<le> 255" "I2C_FIFO_REG_SIZE cfg = 1" "XMC_I2C_CH_CMD_READ cfg = 1"
  shows "\<exists>ret data s1 ws. i2c_fifo_coop_read_register cfg ms1 ms2 reg len rounds s = Some (ret, data, s1) \<and>
    tx_words s1 = tx_words s @ ws \<and>
    map tdf_of ws = [Start (push_bit 1 (i2c_address s)), Send (ucast reg), Restart (push_bit 1 (i2c_address s) OR 1)] @
       replicate (unat len - 1) Receive_Ack @ [Receive_Nack, Stop] \<and>
    (ret = Some 0 \<longrightarrow> length data = unat len \<and> (\<exists>k. data = take (unat len) (concat (map snd (take k rounds)))) \<and>
      i2c_state s1 = I2C_FIFO_STATE_READ_REGISTER_READY \<and> \<not> mutex s1) \<and>
    (ret \<noteq> None \<and> ret \<noteq> Some 0 \<longrightarrow> i2c_state s1 = I2C_FIFO_STATE_READ_REGISTER_ERROR \<and> \<not> mutex s1) \<and>
    (rounds \<noteq> [] \<and> list_all (good_round cfg (s \<lparr> last_activity := ms2 \<rparr>)) rounds \<and>
      unat len \<le> length (concat (map snd (butlast rounds))) \<longrightarrow> ret = Some 0)"
proof -
  have r: "reading I2C_FIFO_STATE_READ_REGISTER" by (simp add: reading_def)
  have l: "i2c_fifo_ready_or_idle (lock cfg s)" "i2c_address (lock cfg s) = i2c_address s" "tx_words (lock cfg s) = tx_words s"
    "rx_bytes (lock cfg s) = []" "mutex (lock cfg s) = COOP_USE_MUTEX cfg" "last_activity (lock cfg s) = last_activity s"
    using free by (simp_all add: lock_def i2c_fifo_ready_or_idle_def)
  have n: "unat (ucast len :: u8) = unat len"
    using params(3) by (simp add: unsigned_ucast_eq take_bit_nat_eq_self)
  obtain ws where ws: "i2c_fifo_read_register cfg ms1 ms2 reg len (lock cfg s) = Some (lock cfg s \<lparr> tx_words := tx_words s @ ws,
      last_activity := ms2, i2c_state := I2C_FIFO_STATE_READ_REGISTER, expected_fifo_level := ucast len \<rparr>)"
    (is "_ = Some ?s")
    "map tdf_of ws = [Start (push_bit 1 (i2c_address s)), Send (ucast reg), Restart (push_bit 1 (i2c_address s) OR 1)] @
       replicate (unat len - 1) Receive_Ack @ [Receive_Nack, Stop]"
    using read_register_started[OF l(1) _ params(2,3,4,5), of ms1 ms2 reg] params(1) l by auto
  obtain w s1 where w: "coop_wait cfg I2C_FIFO_STATE_READ_REGISTER_READY rounds ?s = (w, s1)" by fastforce
  note wait = coop_wait_read[OF r _ w[unfolded I2C_FIFO_STATE_READ_REGISTER_READY_def]]
  have good: "w = Ready" if "rounds \<noteq> []" "list_all (good_round cfg (s \<lparr> last_activity := ms2 \<rparr>)) rounds"
    "unat len \<le> length (concat (map snd (butlast rounds)))"
    using coop_wait_good[OF r, of ?s cfg rounds] that w n l(4)
    by (simp add: I2C_FIFO_STATE_READ_REGISTER_READY_def good_round_def[abs_def])
  have run: "i2c_fifo_coop_read_register cfg ms1 ms2 reg len rounds s =
      Some (coop_read cfg I2C_FIFO_STATE_READ_REGISTER_READY len rounds ?s)"
    using free(2) ws(1) by (simp add: i2c_fifo_coop_read_register_def)
  show ?thesis
  proof (cases w)
    case (Failed e)
    then show ?thesis using wait good run w ws(2) l
      by (auto simp: coop_read_def unlock_def I2C_FIFO_STATE_READ_REGISTER_ERROR_def)
  next
    case Running
    then show ?thesis using wait good run w ws(2) l by (auto simp: coop_read_def)
  next
    case Ready
    then obtain k where "rx_bytes s1 = concat (map snd (take k rounds))" using wait l by auto
    with Ready show ?thesis using wait run w ws(2) l n
      by (auto simp: coop_read_def unlock_def I2C_FIFO_STATE_READ_REGISTER_READY_def i2c_fifo_read_fifo_def Let_def)
  qed
qed

definition demo_config :: i2c_config where
  "demo_config = \<lparr> XMC_I2C_CH_CMD_READ = 1, FLAG_NACK_RECEIVED = 1, FLAG_ARBITRATION_LOST = 2, FLAG_ERROR = 4,
     FLAG_WRONG_TDF_CODE_FOUND = 8, FLAG_DATA_LOST_INDICATION = 16, COOP_USE_MUTEX = True, I2C_FIFO_REG_SIZE = 1 \<rparr>"

definition demo_i2c :: "u8 \<Rightarrow> i2c_fifo" where
  "demo_i2c st = \<lparr> i2c_address = 0x68, expected_fifo_level = 0, i2c_state = st, i2c_status = 0, last_activity = 0,
     mutex = False, tx_words = [], rx_bytes = [] \<rparr>"

definition quiet :: i2c_now where
  "quiet = \<lparr> status_flags = 0, tx_empty = True, now_ms = 3 \<rparr>"

lemma i2c_register_read_witness:
  "\<exists>data s1. i2c_fifo_coop_read_register demo_config 1 2 5 2 [(quiet, [7]), (quiet, [8]), (quiet, [])] (demo_i2c 0) =
     Some (Some 0, data, s1) \<and> length data = 2"
proof -
  let ?rounds = "[(quiet, [7 :: u8]), (quiet, [8]), (quiet, [])]"
  have "list_all (good_round demo_config (demo_i2c 0 \<lparr> last_activity := 2 \<rparr>)) ?rounds"
    by (simp add: good_round_def quiet_def demo_i2c_def demo_config_def error_flags_def I2C_FIFO_TIMEOUT_def
        system_timer_is_time_elapsed_ms_def system_timer_get_ms_def word_le_nat_alt)
  with i2c_register_read[of "demo_i2c 0" 2 demo_config 1 2 5 ?rounds]
  show ?thesis
    by (auto simp: demo_i2c_def demo_config_def i2c_fifo_ready_or_idle_def I2C_FIFO_STATE_IDLE_def)
qed

section \<open>Writes without a stop condition\<close>

text \<open>Only a running transfer changes its state.\<close>

lemma next_state_not_running:
  "i2c_state s \<notin> {I2C_FIFO_STATE_WRITE_REGISTER, I2C_FIFO_STATE_WRITE_DIRECT, I2C_FIFO_STATE_READ_REGISTER,
      I2C_FIFO_STATE_READ_DIRECT} \<Longrightarrow> i2c_fifo_next_state cfg i s = s"
  by (simp add: i2c_fifo_next_state_def)

lemma coop_wait_not_running:
  "i2c_state s \<notin> {I2C_FIFO_STATE_WRITE_REGISTER, I2C_FIFO_STATE_WRITE_DIRECT, I2C_FIFO_STATE_READ_REGISTER,
      I2C_FIFO_STATE_READ_DIRECT, awaited} \<Longrightarrow> i2c_state s AND I2C_FIFO_STATE_ERROR = 0 \<Longrightarrow>
    fst (coop_wait cfg awaited rounds s) = Running"
  by (induction cfg awaited rounds s rule: coop_wait.induct) (simp_all add: next_state_not_running)

text \<open>A task that writes a register and leaves out the stop condition never returns on a bus that is
  idle or was last read from or written to directly: the call waits for a state that nothing sets. After
  another register write it returns success at once, before the transfer has begun.\<close>

theorem i2c_write_without_stop:
  assumes "\<not> mutex s"
  shows "(i2c_state s \<in> {I2C_FIFO_STATE_IDLE, I2C_FIFO_STATE_READ_REGISTER_READY, I2C_FIFO_STATE_READ_DIRECT_READY,
       I2C_FIFO_STATE_WRITE_DIRECT_READY} \<longrightarrow>
      fst (i2c_fifo_coop_write_register cfg ms reg data False rounds s) = None) \<and>
    (i2c_state s = I2C_FIFO_STATE_WRITE_REGISTER_READY \<longrightarrow> rounds \<noteq> [] \<longrightarrow>
      fst (i2c_fifo_coop_write_register cfg ms reg data False rounds s) = Some 0)"
proof -
  have waits: "fst (coop_wait cfg I2C_FIFO_STATE_WRITE_REGISTER_READY rounds s1) = Running"
    if "i2c_state s1 \<in> {I2C_FIFO_STATE_IDLE, I2C_FIFO_STATE_READ_REGISTER_READY, I2C_FIFO_STATE_READ_DIRECT_READY,
       I2C_FIFO_STATE_WRITE_DIRECT_READY}" for s1
    using that by (intro coop_wait_not_running) (auto simp: i2c_states)
  let ?s1 = "i2c_fifo_write_register cfg ms reg (as_u16_length data) False (lock cfg s)"
  have keep: "i2c_state ?s1 = i2c_state s" if "i2c_fifo_ready_or_idle s"
    using that by (auto simp: i2c_fifo_write_register_def push_words_def lock_def i2c_fifo_ready_or_idle_def)
  have "fst (i2c_fifo_coop_write_register cfg ms reg data False rounds s) = None"
    if st: "i2c_state s \<in> {I2C_FIFO_STATE_IDLE, I2C_FIFO_STATE_READ_REGISTER_READY, I2C_FIFO_STATE_READ_DIRECT_READY,
       I2C_FIFO_STATE_WRITE_DIRECT_READY}"
  proof -
    have "i2c_state ?s1 = i2c_state s" using st by (intro keep) (auto simp: i2c_fifo_ready_or_idle_def i2c_states)
    then have "fst (coop_wait cfg I2C_FIFO_STATE_WRITE_REGISTER_READY rounds ?s1) = Running" using waits st by metis
    then show ?thesis using assms
      by (auto simp: i2c_fifo_coop_write_register_def coop_write_def split: prod.split)
  qed
  moreover have "fst (i2c_fifo_coop_write_register cfg ms reg data False rounds s) = Some 0"
    if st: "i2c_state s = I2C_FIFO_STATE_WRITE_REGISTER_READY" "rounds \<noteq> []"
  proof -
    have s1: "i2c_state ?s1 = I2C_FIFO_STATE_WRITE_REGISTER_READY"
      using st keep by (auto simp: i2c_fifo_ready_or_idle_def i2c_states)
    obtain i b rs where "rounds = (i, b) # rs" using st(2) by (cases rounds) auto
    then show ?thesis using s1 assms
      by (simp add: i2c_fifo_coop_write_register_def coop_write_def i2c_fifo_next_state_def i2c_states Let_def)
  qed
  ultimately show ?thesis by blast
qed

lemma i2c_write_without_stop_witness:
  "fst (i2c_fifo_coop_write_register demo_config 1 5 [1, 2] False [(quiet, []), (quiet, [])] (demo_i2c 0)) = None"
  using i2c_write_without_stop[of "demo_i2c 0" demo_config 1 5 "[1, 2]" "[(quiet, []), (quiet, [])]"]
  by (simp add: demo_i2c_def I2C_FIFO_STATE_IDLE_def)

section \<open>Calls on a busy bus\<close>

text \<open>Without the mutex, a call that reads while another transfer is running sends nothing, breaks the
  running transfer (its state becomes an error) and returns the last status that was seen as its result:
  with the status zero it reports success with no byte read.\<close>

theorem i2c_busy_read_returns_status:
  assumes "i2c_state s \<in> {I2C_FIFO_STATE_WRITE_REGISTER, I2C_FIFO_STATE_WRITE_DIRECT, I2C_FIFO_STATE_READ_REGISTER,
      I2C_FIFO_STATE_READ_DIRECT}" "\<not> COOP_USE_MUTEX cfg" "rounds \<noteq> []"
  shows "\<exists>s1. i2c_fifo_coop_read_register cfg ms1 ms2 reg len rounds s = Some (Some (i2c_status s), [], s1) \<and>
    tx_words s1 = tx_words s \<and> i2c_state s1 = I2C_FIFO_STATE_READ_REGISTER_ERROR"
proof -
  obtain i b rs where r: "rounds = (i, b) # rs" using assms(3) by (cases rounds) auto
  have "i2c_fifo_read_register cfg ms1 ms2 reg len s = Some (s \<lparr> i2c_state := I2C_FIFO_STATE_READ_REGISTER_ERROR \<rparr>)"
    using assms(1)
    by (auto simp: i2c_fifo_read_register_def i2c_fifo_write_register_def i2c_fifo_ready_or_idle_def i2c_states Let_def)
  then show ?thesis using assms(2)
    by (simp add: r i2c_fifo_coop_read_register_def lock_def unlock_def coop_read_def i2c_fifo_next_state_def i2c_states Let_def)
qed

lemma i2c_busy_read_returns_status_witness:
  "\<exists>s1. i2c_fifo_coop_read_register (demo_config \<lparr> COOP_USE_MUTEX := False \<rparr>) 1 2 5 2 [(quiet, [])]
      (demo_i2c I2C_FIFO_STATE_READ_REGISTER) = Some (Some 0, [], s1) \<and>
    tx_words s1 = [] \<and> i2c_state s1 = I2C_FIFO_STATE_READ_REGISTER_ERROR"
  using i2c_busy_read_returns_status[of "demo_i2c I2C_FIFO_STATE_READ_REGISTER" "demo_config \<lparr> COOP_USE_MUTEX := False \<rparr>"
      "[(quiet, [])]" 1 2 5 2] by (simp add: demo_i2c_def)

section \<open>States over time\<close>

text \<open>The calls of the driver and what the hardware does between them.\<close>

datatype i2c_op =
    Write_Register u32 u16 "u8 list" bool
  | Write_Direct u32 "u8 list" bool
  | Read_Register u32 u32 u16 u32
  | Read_Direct u32 u32 bool
  | Next_State i2c_now
  | Read_Fifo u8
  | Arrive "u8 list"
  | Init

definition i2c_do :: "i2c_config \<Rightarrow> i2c_op \<Rightarrow> i2c_fifo \<Rightarrow> i2c_fifo option" where
  "i2c_do cfg x s = (case x of
       Write_Register ms reg data stop \<Rightarrow> Some (i2c_fifo_write_register cfg ms reg data stop s)
     | Write_Direct ms data stop \<Rightarrow> Some (i2c_fifo_write_direct ms data stop s)
     | Read_Register ms1 ms2 reg len \<Rightarrow> i2c_fifo_read_register cfg ms1 ms2 reg len s
     | Read_Direct ms len restart \<Rightarrow> i2c_fifo_read_direct cfg ms len restart s
     | Next_State i \<Rightarrow> Some (i2c_fifo_next_state cfg i s)
     | Read_Fifo n \<Rightarrow> Some (snd (i2c_fifo_read_fifo n s))
     | Arrive bs \<Rightarrow> Some (s \<lparr> rx_bytes := rx_bytes s @ bs \<rparr>)
     | Init \<Rightarrow> Some (snd (i2c_fifo_init cfg s)))"

inductive i2c_reach :: "i2c_config \<Rightarrow> bool \<Rightarrow> i2c_fifo \<Rightarrow> i2c_fifo \<Rightarrow> bool" for cfg inits s where
  start: "i2c_reach cfg inits s s"
| next_op: "i2c_reach cfg inits s s1 \<Longrightarrow> i2c_do cfg x s1 = Some s2 \<Longrightarrow> x = Init \<longrightarrow> inits \<Longrightarrow> i2c_reach cfg inits s s2"

definition i2c_valid :: "u8 \<Rightarrow> bool" where
  "i2c_valid st \<longleftrightarrow> st \<in> {0, 1, 2, 4, 8, 0x41, 0x42, 0x44, 0x48, 0x81, 0x82, 0x84, 0x88}"

definition i2c_failed :: "u8 \<Rightarrow> bool" where
  "i2c_failed st \<longleftrightarrow> st \<in> {0x81, 0x82, 0x84, 0x88}"

lemma i2c_failed_iff: "i2c_valid st \<Longrightarrow> i2c_failed st \<longleftrightarrow> st AND I2C_FIFO_STATE_ERROR \<noteq> 0"
  by (auto simp: i2c_valid_def i2c_failed_def I2C_FIFO_STATE_ERROR_def)

lemma next_state_state:
  "i2c_state (i2c_fifo_next_state cfg i s) \<in>
     {i2c_state s, i2c_state s OR I2C_FIFO_STATE_READY, i2c_state s OR I2C_FIFO_STATE_ERROR}"
  by (simp add: i2c_fifo_next_state_def Let_def)

lemma next_state_valid:
  assumes "i2c_valid (i2c_state s)"
  shows "i2c_valid (i2c_state (i2c_fifo_next_state cfg i s))"
proof (cases "i2c_state s \<in> {I2C_FIFO_STATE_WRITE_REGISTER, I2C_FIFO_STATE_WRITE_DIRECT, I2C_FIFO_STATE_READ_REGISTER,
      I2C_FIFO_STATE_READ_DIRECT}")
  case True
  then have "i2c_valid (i2c_state s OR I2C_FIFO_STATE_READY)" "i2c_valid (i2c_state s OR I2C_FIFO_STATE_ERROR)"
    by (auto simp: i2c_states i2c_valid_def)
  with assms next_state_state[of cfg i s] show ?thesis by auto
qed (simp add: next_state_not_running assms)

lemma write_state:
  "i2c_state (i2c_fifo_write_register cfg ms reg data stop s) \<in>
     {i2c_state s, I2C_FIFO_STATE_WRITE_REGISTER, I2C_FIFO_STATE_WRITE_REGISTER_ERROR}"
  "i2c_state (i2c_fifo_write_direct ms data stop s) \<in>
     {i2c_state s, I2C_FIFO_STATE_WRITE_DIRECT, I2C_FIFO_STATE_WRITE_DIRECT_ERROR}"
  by (simp_all add: i2c_fifo_write_register_def i2c_fifo_write_direct_def push_words_def)

lemma read_state:
  "i2c_fifo_read_register cfg ms1 ms2 reg len s = Some s1 \<Longrightarrow>
     i2c_state s1 \<in> {I2C_FIFO_STATE_READ_REGISTER, I2C_FIFO_STATE_READ_REGISTER_ERROR}"
  "i2c_fifo_read_direct cfg ms len restart s = Some s1 \<Longrightarrow>
     i2c_state s1 \<in> {I2C_FIFO_STATE_READ_DIRECT, I2C_FIFO_STATE_READ_DIRECT_ERROR}"
  by (auto simp: i2c_fifo_read_register_def i2c_fifo_read_direct_def push_words_def Let_def
      split: if_splits Option.bind_splits)

lemma valid_constants:
  "i2c_valid I2C_FIFO_STATE_IDLE" "i2c_valid I2C_FIFO_STATE_WRITE_REGISTER" "i2c_valid I2C_FIFO_STATE_WRITE_REGISTER_ERROR"
  "i2c_valid I2C_FIFO_STATE_WRITE_DIRECT" "i2c_valid I2C_FIFO_STATE_WRITE_DIRECT_ERROR" "i2c_valid I2C_FIFO_STATE_READ_REGISTER"
  "i2c_valid I2C_FIFO_STATE_READ_REGISTER_ERROR" "i2c_valid I2C_FIFO_STATE_READ_DIRECT" "i2c_valid I2C_FIFO_STATE_READ_DIRECT_ERROR"
  by (simp_all add: i2c_valid_def i2c_states)

lemma i2c_do_valid:
  assumes "i2c_do cfg x s = Some s1" "i2c_valid (i2c_state s)"
  shows "i2c_valid (i2c_state s1)"
proof (cases x)
  case (Write_Register ms reg data stop)
  with assms write_state(1)[of cfg ms reg data stop s] valid_constants show ?thesis by (auto simp: i2c_do_def)
next
  case (Write_Direct ms data stop)
  with assms write_state(2)[of ms data stop s] valid_constants show ?thesis by (auto simp: i2c_do_def)
next
  case (Read_Register ms1 ms2 reg len)
  with assms read_state(1)[of cfg ms1 ms2 reg len s s1] valid_constants show ?thesis by (auto simp: i2c_do_def)
next
  case (Read_Direct ms len restart)
  with assms read_state(2)[of cfg ms len restart s s1] valid_constants show ?thesis by (auto simp: i2c_do_def)
next
  case (Next_State i)
  with assms next_state_valid show ?thesis by (auto simp: i2c_do_def)
next
  case Init
  with assms valid_constants show ?thesis by (auto simp: i2c_do_def i2c_fifo_init_def)
qed (use assms in \<open>auto simp: i2c_do_def i2c_fifo_read_fifo_def\<close>)

lemma failed_not_ready: "i2c_failed (i2c_state s) \<Longrightarrow> \<not> i2c_fifo_ready_or_idle s"
  by (auto simp: i2c_failed_def i2c_fifo_ready_or_idle_def i2c_states)

lemma i2c_do_failed:
  assumes "i2c_do cfg x s = Some s1" "i2c_failed (i2c_state s)" "x \<noteq> Init"
  shows "i2c_failed (i2c_state s1) \<and> tx_words s1 = tx_words s"
proof -
  have "i2c_state s \<notin> {I2C_FIFO_STATE_WRITE_REGISTER, I2C_FIFO_STATE_WRITE_DIRECT, I2C_FIFO_STATE_READ_REGISTER,
      I2C_FIFO_STATE_READ_DIRECT}" using assms(2) by (auto simp: i2c_failed_def i2c_states)
  moreover have "\<not> i2c_fifo_ready_or_idle (s \<lparr> i2c_state := I2C_FIFO_STATE_WRITE_REGISTER_ERROR \<rparr>)"
    by (simp add: i2c_fifo_ready_or_idle_def i2c_states)
  moreover have "i2c_failed I2C_FIFO_STATE_WRITE_REGISTER_ERROR" "i2c_failed I2C_FIFO_STATE_WRITE_DIRECT_ERROR"
    "i2c_failed I2C_FIFO_STATE_READ_REGISTER_ERROR" "i2c_failed I2C_FIFO_STATE_READ_DIRECT_ERROR"
    by (simp_all add: i2c_failed_def i2c_states)
  ultimately show ?thesis
    using assms failed_not_ready[OF assms(2)]
    by (cases x) (auto simp: i2c_do_def i2c_fifo_write_register_def i2c_fifo_write_direct_def i2c_fifo_read_register_def
        i2c_fifo_read_direct_def i2c_fifo_read_fifo_def next_state_not_running Let_def)
qed



end
