(* ===== verification/Spi_Fifo.thy ===== *)
theory Spi_Fifo
  imports System_Timer
begin

text \<open>
  The SPI driver on the hardware FIFOs (\<^verbatim>\<open>hal/spi_fifo/spi_fifo.c\<close>,
  \<^verbatim>\<open>hal/spi_fifo/spi_fifo.h\<close>), in the variant for cooperative tasks and in the one with a state
  machine. The bytes that the hardware receives are appended to the receive FIFO between two steps of the code;
  its status flags and the time are inputs. The set-up of pins and channel is not modelled.
\<close>

section \<open>State\<close>

definition SPI_FIFO_STATUS_TIMEOUT :: u32 where "SPI_FIFO_STATUS_TIMEOUT = 0xFFFFFFFF"
definition SPI_FIFO_TIMEOUT :: u32 where "SPI_FIFO_TIMEOUT = 10"
definition SPI_FIFO_STATE_IDLE :: u8 where "SPI_FIFO_STATE_IDLE = 0"
definition SPI_FIFO_STATE_READY :: u8 where "SPI_FIFO_STATE_READY = 0x40"
definition SPI_FIFO_STATE_ERROR :: u8 where "SPI_FIFO_STATE_ERROR = 0x80"
definition SPI_FIFO_STATE_TRANSCEIVE :: u8 where "SPI_FIFO_STATE_TRANSCEIVE = 1"
definition SPI_FIFO_STATE_TRANSCEIVE_READY :: u8 where
  "SPI_FIFO_STATE_TRANSCEIVE_READY = SPI_FIFO_STATE_TRANSCEIVE OR SPI_FIFO_STATE_READY"
definition SPI_FIFO_STATE_TRANSCEIVE_ERROR :: u8 where
  "SPI_FIFO_STATE_TRANSCEIVE_ERROR = SPI_FIFO_STATE_TRANSCEIVE OR SPI_FIFO_STATE_ERROR"

lemmas spi_states = SPI_FIFO_STATE_IDLE_def SPI_FIFO_STATE_READY_def SPI_FIFO_STATE_ERROR_def
  SPI_FIFO_STATE_TRANSCEIVE_def SPI_FIFO_STATE_TRANSCEIVE_READY_def SPI_FIFO_STATE_TRANSCEIVE_ERROR_def

record spi_fifo =
  expected_fifo_level :: u8
  spi_state :: u8
  spi_status :: u32
  last_activity :: u32
  mutex :: bool
  selected :: bool
  tx_bytes :: "u8 list"
  rx_bytes :: "u8 list"

section \<open>Transfers of a task\<close>

text \<open>A round of the loop has the time that the code reads and the bytes that arrive after it; the result
  is None while the rounds have not ended the loop.\<close>

fun receive_loop :: "u32 \<Rightarrow> nat \<Rightarrow> (u32 \<times> u8 list) list \<Rightarrow> u8 list \<Rightarrow> spi_fifo \<Rightarrow> bool option \<times> u8 list \<times> spi_fifo" where
  "receive_loop start len [] miso s = (if length miso < len then None else Some True, miso, s)"
| "receive_loop start len ((ms, bytes) # rounds) miso s =
     (if length miso < len then
        if system_timer_is_time_elapsed_ms ms start SPI_FIFO_TIMEOUT then (Some False, miso, s)
        else (case rx_bytes s of
            [] \<Rightarrow> receive_loop start len rounds miso (s \<lparr> rx_bytes := bytes \<rparr>)
          | b # bs \<Rightarrow> receive_loop start len rounds (miso @ [b]) (s \<lparr> rx_bytes := bs @ bytes \<rparr>))
      else (Some True, miso, s))"

text \<open>The configuration says whether the calls use the mutex; the yield is what the other tasks and the
  hardware do when it is taken.\<close>

definition start_transfer :: "bool \<Rightarrow> (spi_fifo \<Rightarrow> spi_fifo) \<Rightarrow> u8 list \<Rightarrow> spi_fifo \<Rightarrow> spi_fifo" where
  "start_transfer use_mutex yielding mosi s =
     (let s1 = (if use_mutex then (if mutex s then yielding s else s) \<lparr> mutex := True \<rparr> else s)
      in s1 \<lparr> rx_bytes := [], selected := True, tx_bytes := tx_bytes s1 @ mosi \<rparr>)"

definition spi_fifo_coop_transceive ::
  "bool \<Rightarrow> (spi_fifo \<Rightarrow> spi_fifo) \<Rightarrow> u32 \<Rightarrow> u8 list \<Rightarrow> (u32 \<times> u8 list) list \<Rightarrow> spi_fifo \<Rightarrow> bool option \<times> u8 list \<times> spi_fifo" where
  "spi_fifo_coop_transceive use_mutex yielding start mosi rounds s =
     (let (ret, miso, s1) = receive_loop start (length mosi) rounds [] (start_transfer use_mutex yielding mosi s)
      in (ret, miso, if use_mutex \<and> ret \<noteq> None then s1 \<lparr> mutex := False \<rparr> else s1))"

section \<open>Transfers by a state machine\<close>

definition spi_fifo_ready_or_idle :: "spi_fifo \<Rightarrow> bool" where
  "spi_fifo_ready_or_idle s \<longleftrightarrow> spi_state s = SPI_FIFO_STATE_IDLE \<or> spi_state s AND SPI_FIFO_STATE_READY \<noteq> 0"

definition spi_fifo_transceive :: "u32 \<Rightarrow> u8 list \<Rightarrow> spi_fifo \<Rightarrow> spi_fifo" where
  "spi_fifo_transceive ms data s =
     (if \<not> spi_fifo_ready_or_idle s then s \<lparr> spi_state := SPI_FIFO_STATE_TRANSCEIVE_ERROR \<rparr>
      else s \<lparr> last_activity := ms, selected := True, tx_bytes := tx_bytes s @ data,
        expected_fifo_level := of_nat (length data), spi_state := SPI_FIFO_STATE_TRANSCEIVE \<rparr>)"

definition spi_fifo_read_fifo :: "u8 \<Rightarrow> spi_fifo \<Rightarrow> u8 list \<times> spi_fifo" where
  "spi_fifo_read_fifo buffer_length s =
     (take (unat buffer_length) (rx_bytes s), s \<lparr> rx_bytes := drop (unat buffer_length) (rx_bytes s) \<rparr>)"

text \<open>The error flags are the two of the vendor library for parity and lost data; the status and the time
  are what the code reads.\<close>

definition spi_fifo_next_state :: "u32 \<Rightarrow> u32 \<Rightarrow> u32 \<Rightarrow> spi_fifo \<Rightarrow> spi_fifo" where
  "spi_fifo_next_state error_flags status ms s =
     (if spi_state s = SPI_FIFO_STATE_TRANSCEIVE then
        let s1 = s \<lparr> spi_status := status \<rparr> in
        if spi_status s1 AND error_flags \<noteq> 0
        then s1 \<lparr> selected := False, spi_state := SPI_FIFO_STATE_TRANSCEIVE_ERROR \<rparr>
        else if unat (expected_fifo_level s1) \<le> length (rx_bytes s1)
        then s1 \<lparr> selected := False, spi_state := SPI_FIFO_STATE_TRANSCEIVE_READY \<rparr>
        else if system_timer_is_time_elapsed_ms ms (last_activity s1) SPI_FIFO_TIMEOUT
        then s1 \<lparr> spi_state := SPI_FIFO_STATE_TRANSCEIVE_ERROR, spi_status := SPI_FIFO_STATUS_TIMEOUT \<rparr>
        else s1
      else s)"

definition spi_fifo_init :: "spi_fifo \<Rightarrow> spi_fifo" where
  "spi_fifo_init s = s \<lparr> rx_bytes := [], spi_state := SPI_FIFO_STATE_IDLE \<rparr>"

section \<open>Results\<close>

lemma receive_loop_result:
  "receive_loop start len rounds miso s = (ret, miso1, s1) \<Longrightarrow> length miso \<le> len \<Longrightarrow>
   (\<exists>k. miso1 @ rx_bytes s1 = miso @ rx_bytes s @ concat (map snd (take k rounds))) \<and> length miso1 \<le> len \<and>
   tx_bytes s1 = tx_bytes s \<and> mutex s1 = mutex s \<and> (ret = Some True \<longleftrightarrow> length miso1 = len)"
proof (induction start len rounds miso s rule: receive_loop.induct)
  case (1 start len miso s)
  then show ?case by (auto split: if_splits)
next
  case (2 start len ms bytes rounds miso s)
  show ?case
  proof (cases "length miso < len \<and> \<not> system_timer_is_time_elapsed_ms ms start SPI_FIFO_TIMEOUT")
    case True
    show ?thesis
    proof (cases "rx_bytes s")
      case Nil
      have rec: "receive_loop start len rounds miso (s \<lparr> rx_bytes := bytes \<rparr>) = (ret, miso1, s1)"
        using 2(3) True Nil by simp
      from 2(1)[OF _ _ Nil rec] True obtain k where "miso1 @ rx_bytes s1 = miso @ bytes @ concat (map snd (take k rounds))"
        by auto
      then have e: "miso1 @ rx_bytes s1 = miso @ rx_bytes s @ concat (map snd (take (Suc k) ((ms, bytes) # rounds)))"
        using Nil by simp
      have "length miso1 \<le> len \<and> tx_bytes s1 = tx_bytes s \<and> mutex s1 = mutex s \<and> (ret = Some True \<longleftrightarrow> length miso1 = len)"
        using 2(1)[OF _ _ Nil rec] True by simp
      with e show ?thesis by blast
    next
      case (Cons b bs)
      have rec: "receive_loop start len rounds (miso @ [b]) (s \<lparr> rx_bytes := bs @ bytes \<rparr>) = (ret, miso1, s1)"
        using 2(3) True Cons by simp
      from 2(2)[OF _ _ Cons rec] True obtain k where
        "miso1 @ rx_bytes s1 = (miso @ [b]) @ (bs @ bytes) @ concat (map snd (take k rounds))" by auto
      then have e: "miso1 @ rx_bytes s1 = miso @ rx_bytes s @ concat (map snd (take (Suc k) ((ms, bytes) # rounds)))"
        using Cons by simp
      have "length miso1 \<le> len \<and> tx_bytes s1 = tx_bytes s \<and> mutex s1 = mutex s \<and> (ret = Some True \<longleftrightarrow> length miso1 = len)"
        using 2(2)[OF _ _ Cons rec] True by simp
      with e show ?thesis by blast
    qed
  next
    case False
    with 2(3,4) show ?thesis by (auto split: if_splits intro: exI[of _ 0])
  qed
qed

text \<open>A transfer of a task sends its bytes behind those in the FIFO, returns success exactly when as
  many bytes have come back, which are the first that arrived after its start, and gives the mutex back
  whether it succeeds or times out.\<close>

theorem spi_coop_transfer:
  assumes "spi_fifo_coop_transceive use_mutex yielding start mosi rounds s = (ret, miso, s1)"
    and "\<not> mutex s"
  shows "tx_bytes s1 = tx_bytes s @ mosi \<and> (ret = Some True \<longleftrightarrow> length miso = length mosi) \<and>
    (\<exists>k. miso = take (length miso) (concat (map snd (take k rounds)))) \<and> (ret \<noteq> None \<longrightarrow> \<not> mutex s1)"
proof -
  let ?s0 = "start_transfer use_mutex yielding mosi s"
  obtain s2 where loop: "receive_loop start (length mosi) rounds [] ?s0 = (ret, miso, s2)"
    and s1: "s1 = (if use_mutex \<and> ret \<noteq> None then s2 \<lparr> mutex := False \<rparr> else s2)"
    using assms(1) by (auto simp: spi_fifo_coop_transceive_def split: prod.splits)
  have s0: "rx_bytes ?s0 = []" "tx_bytes ?s0 = tx_bytes s @ mosi" "mutex ?s0 = use_mutex"
    using assms(2) by (simp_all add: start_transfer_def Let_def)
  note result = receive_loop_result[OF loop, unfolded s0]
  from result obtain k where "miso @ rx_bytes s2 = concat (map snd (take k rounds))" by auto
  then have "miso = take (length miso) (concat (map snd (take k rounds)))" by (metis append_eq_conv_conj)
  then show ?thesis using result s1 by auto
qed

lemma spi_coop_transfer_witness:
  "\<exists>s1. spi_fifo_coop_transceive True id 0 [1, 2] [(0, [9, 8]), (1, []), (1, [])]
      \<lparr> expected_fifo_level = 0, spi_state = 0, spi_status = 0, last_activity = 0, mutex = False, selected = False,
        tx_bytes = [], rx_bytes = [5] \<rparr> = (Some True, [9, 8], s1) \<and> tx_bytes s1 = [1, 2] \<and> \<not> mutex s1"
proof -
  let ?s = "\<lparr> expected_fifo_level = 0, spi_state = 0, spi_status = 0, last_activity = 0, mutex = False, selected = False,
        tx_bytes = [], rx_bytes = [5] \<rparr>"
  obtain s1 where run: "spi_fifo_coop_transceive True id 0 [1, 2] [(0, [9, 8]), (1, []), (1, [])] ?s = (Some True, [9, 8], s1)"
    by (simp add: spi_fifo_coop_transceive_def start_transfer_def system_timer_is_time_elapsed_ms_def
        system_timer_get_ms_def SPI_FIFO_TIMEOUT_def word_le_nat_alt)
  show ?thesis using spi_coop_transfer[OF run] run by auto
qed

text \<open>The mutex does not exclude: a task that finds it taken yields once and then starts its transfer
  even if the other task still holds it. It throws away the bytes that the other task has received and puts its
  own behind those the other task is sending.\<close>

lemma spi_mutex_not_exclusive:
  assumes "mutex s" "mutex (yielding s)"
  shows "\<exists>s1. spi_fifo_coop_transceive True yielding start mosi [] s = (if mosi = [] then Some True else None, [], s1) \<and>
    rx_bytes s1 = [] \<and> tx_bytes s1 = tx_bytes (yielding s) @ mosi"
  using assms by (auto simp: spi_fifo_coop_transceive_def start_transfer_def Let_def)

text \<open>The state machine: a transfer that is ready has received as many bytes as it sent (below 256), and
  one that has timed out leaves the slave selected.\<close>

lemma spi_transceive_ready:
  assumes "spi_fifo_ready_or_idle s" "rx_bytes s = []" "length data < 256"
    and "spi_state (spi_fifo_next_state flags status ms1 (spi_fifo_transceive ms data s \<lparr> rx_bytes := bs \<rparr>)) =
      SPI_FIFO_STATE_TRANSCEIVE_READY"
  shows "length data \<le> length bs"
  using assms
  by (auto simp: spi_fifo_next_state_def spi_fifo_transceive_def spi_states Let_def unat_of_nat take_bit_nat_eq_self
      split: if_splits)

lemma spi_timeout_keeps_selection:
  assumes "spi_state s = SPI_FIFO_STATE_TRANSCEIVE" "selected s" "status AND flags = 0"
    and "length (rx_bytes s) < unat (expected_fifo_level s)"
    and "system_timer_is_time_elapsed_ms ms (last_activity s) SPI_FIFO_TIMEOUT"
  shows "spi_state (spi_fifo_next_state flags status ms s) = SPI_FIFO_STATE_TRANSCEIVE_ERROR \<and>
    selected (spi_fifo_next_state flags status ms s)"
  using assms by (simp add: spi_fifo_next_state_def Let_def)

end
