(* ===== verification/Uartbb.thy ===== *)
theory Uartbb
  imports Bricklib_Prelude
begin

text \<open>
  The bit-banged serial output (\<^verbatim>\<open>hal/uartbb/uartbb.c\<close>): the waveform of a byte on the
  transmit pin, timed by the counter of the system timer, and the text functions on top of it, whose result
  is the list of bytes they transmit. A character is a byte; a C string is a list with a zero byte in it.
\<close>

section \<open>A byte on the line\<close>

text \<open>The bit time and the counts of the timer in a millisecond, for a clock of 48 and of 32 MHz. The
  counter is read again and again; the argument is the value of each read, the result of a wait the number of
  the read that ended it.\<close>

record uart_clock =
  UARTBB_BIT_TIME :: int
  UARTBB_COUNT_TO_IN_1MS :: int

definition clock_48 :: uart_clock where
  "clock_48 = \<lparr> UARTBB_BIT_TIME = 417, UARTBB_COUNT_TO_IN_1MS = 48000 \<rparr>"

definition clock_32 :: uart_clock where
  "clock_32 = \<lparr> UARTBB_BIT_TIME = 278, UARTBB_COUNT_TO_IN_1MS = 32000 \<rparr>"

definition elapsed :: "uart_clock \<Rightarrow> u32 \<Rightarrow> int \<Rightarrow> int" where
  "elapsed cfg val start =
     (let current = UARTBB_COUNT_TO_IN_1MS cfg - sint val; result = current - start
      in if result < 0 then result + UARTBB_COUNT_TO_IN_1MS cfg else result)"

partial_function (option) uartbb_wait_1bit :: "uart_clock \<Rightarrow> (nat \<Rightarrow> u32) \<Rightarrow> int \<Rightarrow> nat \<Rightarrow> nat option" where
  "uartbb_wait_1bit cfg val start n =
     (if UARTBB_BIT_TIME cfg \<le> elapsed cfg (val n) start then Some n else uartbb_wait_1bit cfg val start (n + 1))"

text \<open>The levels of the pin, each with the number of the first read after it was set, and the number of
  the next read.\<close>

fun tx_bits :: "uart_clock \<Rightarrow> (nat \<Rightarrow> u32) \<Rightarrow> nat \<Rightarrow> u16 \<Rightarrow> int \<Rightarrow> nat \<Rightarrow> ((bool \<times> nat) list \<times> nat) option" where
  "tx_bits cfg val 0 value16 start n = Some ([], n)"
| "tx_bits cfg val (Suc bit_count) value16 start n = do {
     e \<leftarrow> uartbb_wait_1bit cfg val start n;
     (levels, n1) \<leftarrow> tx_bits cfg val bit_count (drop_bit 1 value16) (start + UARTBB_BIT_TIME cfg) (e + 1);
     Some ((value16 AND 1 \<noteq> 0, n) # levels, n1)
   }"

definition uartbb_tx :: "uart_clock \<Rightarrow> (nat \<Rightarrow> u32) \<Rightarrow> u8 \<Rightarrow> ((bool \<times> nat) list \<times> nat) option" where
  "uartbb_tx cfg val byte =
     (let value16 = push_bit 1 (ucast byte) OR push_bit 9 1; start = UARTBB_COUNT_TO_IN_1MS cfg - sint (val 0)
      in tx_bits cfg val 10 value16 start 1)"

section \<open>Timing\<close>

text \<open>The counter runs down from one less than the counts of a millisecond; the reads are at the times
  t 0, t 1 and so on.\<close>

definition counter :: "uart_clock \<Rightarrow> (nat \<Rightarrow> nat) \<Rightarrow> nat \<Rightarrow> u32" where
  "counter cfg t n = word_of_int (UARTBB_COUNT_TO_IN_1MS cfg - 1 - int (t n) mod UARTBB_COUNT_TO_IN_1MS cfg)"

definition uart_ok :: "uart_clock \<Rightarrow> nat \<Rightarrow> bool" where
  "uart_ok cfg gap \<longleftrightarrow> 0 < UARTBB_BIT_TIME cfg \<and> 0 < UARTBB_COUNT_TO_IN_1MS cfg \<and> UARTBB_COUNT_TO_IN_1MS cfg < 2 ^ 31 \<and>
     int gap \<le> UARTBB_BIT_TIME cfg \<and> 10 * UARTBB_BIT_TIME cfg + int gap < UARTBB_COUNT_TO_IN_1MS cfg"

definition start_at :: "uart_clock \<Rightarrow> nat \<Rightarrow> nat \<Rightarrow> int" where
  "start_at cfg t0 j = int t0 mod UARTBB_COUNT_TO_IN_1MS cfg + 1 + int j * UARTBB_BIT_TIME cfg"

lemma sint_counter:
  assumes "0 < UARTBB_COUNT_TO_IN_1MS cfg" "UARTBB_COUNT_TO_IN_1MS cfg < 2 ^ 31"
  shows "sint (counter cfg t n) = UARTBB_COUNT_TO_IN_1MS cfg - 1 - int (t n) mod UARTBB_COUNT_TO_IN_1MS cfg"
proof -
  let ?c = "UARTBB_COUNT_TO_IN_1MS cfg"
  have "0 \<le> int (t n) mod ?c" "int (t n) mod ?c < ?c" using assms by simp_all
  then have "0 \<le> ?c - 1 - int (t n) mod ?c" "?c - 1 - int (t n) mod ?c < 2 ^ 31" using assms by linarith+
  then show ?thesis unfolding counter_def
    by (subst signed_of_int) (simp add: signed_take_bit_int_eq_self)
qed

lemma elapsed_exact:
  assumes "uart_ok cfg gap" "j \<le> 9" "int t0 + int j * UARTBB_BIT_TIME cfg \<le> int (t n)"
    and "int (t n) < int t0 + UARTBB_COUNT_TO_IN_1MS cfg"
  shows "elapsed cfg (counter cfg t n) (start_at cfg t0 j) = int (t n) - (int t0 + int j * UARTBB_BIT_TIME cfg)"
proof -
  let ?c = "UARTBB_COUNT_TO_IN_1MS cfg" and ?b = "UARTBB_BIT_TIME cfg"
  define q r where "q = int (t n) div ?c" and "r = int (t n) mod ?c"
  define q0 r0 where "q0 = int t0 div ?c" and "r0 = int t0 mod ?c"
  have c: "0 < ?c" "?c < 2 ^ 31" "0 < ?b" using assms(1) by (simp_all add: uart_ok_def)
  have t: "int (t n) = ?c * q + r" "int t0 = ?c * q0 + r0" by (simp_all add: q_def r_def q0_def r0_def)
  have r: "0 \<le> r" "r < ?c" "0 \<le> r0" "r0 < ?c" using c by (simp_all add: r_def r0_def)
  have nonneg: "0 \<le> int j * ?b" using c by simp
  have "?c * (q - q0) < 2 * ?c" "- ?c < ?c * (q - q0)"
    using assms(3,4) t r nonneg by (simp_all add: algebra_simps)
  then have "q - q0 < 2" "-1 < q - q0" using c(1)
    by (metis mult.commute mult_less_cancel_left_pos, metis mult.commute mult_less_cancel_left_pos mult_minus1_right)
  then consider "q = q0" | "q = q0 + 1" by linarith
  moreover have "elapsed cfg (counter cfg t n) (start_at cfg t0 j) =
      (if r - (r0 + int j * ?b) < 0 then r - (r0 + int j * ?b) + ?c else r - (r0 + int j * ?b))"
    by (simp add: elapsed_def sint_counter[OF c(1,2)] start_at_def Let_def r_def r0_def)
  ultimately show ?thesis
    by cases (use t r assms(3,4) nonneg in \<open>simp_all add: distrib_left\<close>)
qed

text \<open>A wait ends at the first read at which the bit is over, however late that is.\<close>

lemma wait_1bit_ends:
  assumes ok: "uart_ok cfg gap" "j \<le> 9" and clock: "\<And>i. t i < t (Suc i)" "\<And>i. t (Suc i) \<le> t i + gap"
    and now: "int t0 + int j * UARTBB_BIT_TIME cfg \<le> int (t n)"
      "int (t n) < int t0 + int (Suc j) * UARTBB_BIT_TIME cfg + int gap"
  shows "\<exists>e\<ge>n. uartbb_wait_1bit cfg (counter cfg t) (start_at cfg t0 j) n = Some e \<and>
    int t0 + int (Suc j) * UARTBB_BIT_TIME cfg \<le> int (t e) \<and>
    int (t e) < int t0 + int (Suc j) * UARTBB_BIT_TIME cfg + int gap"
  using now
proof (induction "nat (int t0 + int (Suc j) * UARTBB_BIT_TIME cfg - int (t n))" arbitrary: n rule: less_induct)
  case less
  let ?b = "UARTBB_BIT_TIME cfg"
  have "int (Suc j) * ?b \<le> 10 * ?b" using ok by (intro mult_right_mono) (auto simp: uart_ok_def)
  then have "int (t n) < int t0 + UARTBB_COUNT_TO_IN_1MS cfg"
    using less(3) ok(1) unfolding uart_ok_def by linarith
  from elapsed_exact[of cfg gap j t0 t n, OF ok less(2) this]
  have e: "elapsed cfg (counter cfg t n) (start_at cfg t0 j) = int (t n) - (int t0 + int j * ?b)" .
  have s: "int (Suc j) * ?b = int j * ?b + ?b" by (simp add: distrib_right)
  show ?case
  proof (cases "?b \<le> elapsed cfg (counter cfg t n) (start_at cfg t0 j)")
    case True
    then have "uartbb_wait_1bit cfg (counter cfg t) (start_at cfg t0 j) n = Some n"
      by (simp add: uartbb_wait_1bit.simps)
    moreover have "int t0 + int (Suc j) * ?b \<le> int (t n)" using True e s by linarith
    ultimately show ?thesis using less(3) by blast
  next
    case False
    then have early: "int (t n) < int t0 + int (Suc j) * ?b" using e s by linarith
    have step: "int (t n) < int (t (Suc n))" "int (t (Suc n)) \<le> int (t n) + int gap"
      using clock[of n] by (auto simp flip: of_nat_add)
    have "uartbb_wait_1bit cfg (counter cfg t) (start_at cfg t0 j) n =
        uartbb_wait_1bit cfg (counter cfg t) (start_at cfg t0 j) (Suc n)"
      using False by (subst uartbb_wait_1bit.simps) simp
    moreover have "\<exists>e\<ge>Suc n. uartbb_wait_1bit cfg (counter cfg t) (start_at cfg t0 j) (Suc n) = Some e \<and>
        int t0 + int (Suc j) * ?b \<le> int (t e) \<and> int (t e) < int t0 + int (Suc j) * ?b + int gap"
      by (rule less(1)) (use early step less(2) in linarith)+
    ultimately show ?thesis using Suc_leD by auto
  qed
qed

text \<open>The j-th edge of a frame is between the j-th multiple of the bit time and a read later.\<close>

definition on_time :: "uart_clock \<Rightarrow> nat \<Rightarrow> (nat \<Rightarrow> nat) \<Rightarrow> nat \<Rightarrow> nat \<Rightarrow> bool" where
  "on_time cfg gap t j n \<longleftrightarrow> 0 < n \<and> int (t 0) + int j * UARTBB_BIT_TIME cfg \<le> int (t (n - 1)) \<and>
     int (t (n - 1)) < int (t 0) + int j * UARTBB_BIT_TIME cfg + int gap"

lemma tx_bits_waveform:
  assumes ok: "uart_ok cfg gap" and clock: "\<And>i. t i < t (Suc i)" "\<And>i. t (Suc i) \<le> t i + gap"
  shows "j + m = 10 \<Longrightarrow> on_time cfg gap t j n \<Longrightarrow>
    \<exists>ls n1. tx_bits cfg (counter cfg t) m v (start_at cfg (t 0) j) n = Some (ls, n1) \<and>
      map fst ls = map (bit v) [0..<m] \<and> (\<forall>i<m. on_time cfg gap t (j + i) (snd (ls ! i))) \<and> on_time cfg gap t 10 n1"
proof (induction m arbitrary: j n v)
  case (Suc m)
  let ?b = "UARTBB_BIT_TIME cfg"
  have step: "int (t (n - 1)) < int (t n)" "int (t n) \<le> int (t (n - 1)) + int gap"
    using clock[of "n - 1"] Suc(3) by (auto simp: on_time_def simp flip: of_nat_add)
  have s: "int (Suc j) * ?b = int j * ?b + ?b" by (simp add: distrib_right)
  have gap: "int gap \<le> ?b" using ok by (simp add: uart_ok_def)
  have now: "int (t 0) + int j * ?b \<le> int (t n)" "int (t n) < int (t 0) + int (Suc j) * ?b + int gap"
    using Suc(3) step s gap unfolding on_time_def by linarith+
  have "j \<le> 9" using Suc(2) by simp
  from wait_1bit_ends[where t = t, OF ok this clock now] obtain e
    where e: "uartbb_wait_1bit cfg (counter cfg t) (start_at cfg (t 0) j) n = Some e"
      "int (t 0) + int (Suc j) * ?b \<le> int (t e)" "int (t e) < int (t 0) + int (Suc j) * ?b + int gap" by blast
  then have "on_time cfg gap t (Suc j) (Suc e)" by (simp add: on_time_def)
  moreover have "Suc j + m = 10" using Suc(2) by simp
  ultimately obtain ls n1 where rec: "tx_bits cfg (counter cfg t) m (drop_bit 1 v) (start_at cfg (t 0) (Suc j)) (Suc e) = Some (ls, n1)"
    "map fst ls = map (bit (drop_bit 1 v)) [0..<m]" "\<forall>i<m. on_time cfg gap t (Suc j + i) (snd (ls ! i))" "on_time cfg gap t 10 n1"
    using Suc(1) by blast
  have "start_at cfg (t 0) j + ?b = start_at cfg (t 0) (Suc j)" by (simp add: start_at_def distrib_right)
  then have run: "tx_bits cfg (counter cfg t) (Suc m) v (start_at cfg (t 0) j) n = Some ((v AND 1 \<noteq> 0, n) # ls, n1)"
    using e(1) rec(1) by simp
  have "map fst ((v AND 1 \<noteq> 0, n) # ls) = map (bit v) [0..<Suc m]"
    using rec(2) by (simp add: bit_drop_bit_eq upt_conv_Cons map_Suc_upt[symmetric] bit_0 and_one_eq odd_iff_mod_2_eq_one
        del: upt_Suc)
  moreover have "\<forall>i<Suc m. on_time cfg gap t (j + i) (snd (((v AND 1 \<noteq> 0, n) # ls) ! i))"
    using rec(3) Suc(3) by (auto simp: less_Suc_eq_0_disj)
  ultimately show ?case using run rec(4) by blast
qed simp

lemma frame_bit:
  "bit (push_bit k (ucast (byte :: u8)) OR push_bit l 1 :: u16) =
     (\<lambda>i. i < 16 \<and> (k \<le> i \<and> bit byte (i - k) \<or> i = l))"
  by (auto simp: fun_eq_iff bit_simps)

text \<open>C12. A byte leaves the pin as a frame of ten bits: a low start bit, the bits of the byte from the
  lowest to the highest, a high stop bit. Every edge is at its multiple of the bit time and at most one read
  of the counter later, however the counter wraps around during the frame, and the stop bit lasts at least its
  time.\<close>

theorem uartbb_tx_frame:
  assumes "cfg = clock_48 \<or> cfg = clock_32" "gap \<le> 278"
    and "\<And>i. t i < t (Suc i)" "\<And>i. t (Suc i) \<le> t i + gap"
  shows "\<exists>frame n1. uartbb_tx cfg (counter cfg t) byte = Some (frame, n1) \<and>
    map fst frame = False # map (bit byte) [0..<8] @ [True] \<and>
    (\<forall>j<10. on_time cfg gap t j (snd (frame ! j))) \<and> on_time cfg gap t 10 n1"
proof -
  have ok: "uart_ok cfg gap" using assms(1,2) by (auto simp: uart_ok_def clock_48_def clock_32_def)
  have "0 < gap" using assms(3)[of 0] assms(4)[of 0] by linarith
  then have first: "on_time cfg gap t 0 1" by (simp add: on_time_def)
  let ?v = "push_bit 1 (ucast byte) OR push_bit 9 1 :: u16"
  obtain ls n1 where run: "tx_bits cfg (counter cfg t) 10 ?v (start_at cfg (t 0) 0) 1 = Some (ls, n1)"
    "map fst ls = map (bit ?v) [0..<10]" "\<forall>i<10. on_time cfg gap t i (snd (ls ! i))" "on_time cfg gap t 10 n1"
    using tx_bits_waveform[OF ok assms(3,4) _ first, of 10 ?v] by auto
  have start: "UARTBB_COUNT_TO_IN_1MS cfg - sint (counter cfg t 0) = start_at cfg (t 0) 0"
    using ok by (simp add: uart_ok_def sint_counter start_at_def)
  have "map (bit ?v) [0..<10] = False # map (bit byte) [0..<8] @ [True]"
    unfolding frame_bit by (simp add: upt_rec bit_simps)
  with run show ?thesis by (simp add: uartbb_tx_def start)
qed

lemma uartbb_tx_frame_witness:
  "\<exists>frame n1. uartbb_tx clock_48 (counter clock_48 (\<lambda>i. 47000 + 20 * i)) 0x55 = Some (frame, n1) \<and>
    map fst frame = [False, True, False, True, False, True, False, True, False, True]"
proof -
  have "map (bit (0x55 :: u8)) [0..<8] = [True, False, True, False, True, False, True, False]"
    by (simp add: upt_rec bit_numeral_rec)
  with uartbb_tx_frame[of clock_48 20 "\<lambda>i. 47000 + 20 * i" "0x55"] show ?thesis by auto
qed

section \<open>Strings\<close>

text \<open>The bytes of a string up to its zero byte; None when there is no zero byte in it.\<close>

fun uartbb_puts :: "u8 list \<Rightarrow> u8 list option" where
  "uartbb_puts [] = None"
| "uartbb_puts (c # str) = (if c = 0 then Some [] else map_option ((#) c) (uartbb_puts str))"

definition uartbb_putnl :: "u8 list option" where
  "uartbb_putnl = uartbb_puts [10, 13, 0]"

text \<open>The conversions of the C library, with the zero byte at the end.\<close>

fun digits :: "nat \<Rightarrow> nat \<Rightarrow> u8 list" where
  "digits base v = (let d = v mod base; c = of_nat (if d < 10 then 48 + d else 87 + d) in
     if base < 2 \<or> v < base then [c] else digits base (v div base) @ [c])"

declare digits.simps [simp del]

definition utoa :: "u32 \<Rightarrow> nat \<Rightarrow> u8 list" where
  "utoa v base = digits base (unat v) @ [0]"

definition itoa :: "u32 \<Rightarrow> nat \<Rightarrow> u8 list" where
  "itoa v base = (if sint v < 0 then 45 # digits base (nat (- sint v)) else digits base (unat v)) @ [0]"

definition uartbb_putu :: "u32 \<Rightarrow> u8 list option" where
  "uartbb_putu v = uartbb_puts (utoa v 10)"

definition uartbb_puti :: "u32 \<Rightarrow> u8 list option" where
  "uartbb_puti v = uartbb_puts (itoa v 10)"

fun put_elements :: "u8 list \<Rightarrow> u8 list option" where
  "put_elements [] = Some []"
| "put_elements (b # bs) = do {
     n \<leftarrow> uartbb_putu (ucast b);
     sep \<leftarrow> uartbb_puts [44, 32, 0];
     rest \<leftarrow> put_elements bs;
     Some (n @ sep @ rest)
   }"

definition uartbb_putarru8 :: "u8 list \<Rightarrow> u8 list \<Rightarrow> u8 list option" where
  "uartbb_putarru8 name data = do {
     n \<leftarrow> uartbb_puts name;
     sep \<leftarrow> uartbb_puts [58, 32, 0];
     elements \<leftarrow> put_elements data;
     nl \<leftarrow> uartbb_putnl;
     Some (n @ sep @ elements @ nl)
   }"

text \<open>Padding with zeros and groups of digits. One character goes out, with an underscore before it when
  the counter k has come to zero.\<close>

fun put_grouped :: "u32 \<Rightarrow> u32 \<Rightarrow> u8 list \<Rightarrow> u8 list \<times> u32" where
  "put_grouped grouping k [] = ([], k)"
| "put_grouped grouping k (c # cs) =
     (let k1 = (if 0 < grouping then k - 1 else k);
          (sep, k2) = (if 0 < grouping \<and> k1 = 0 then ([95], grouping) else ([], k1));
          (out, k3) = put_grouped grouping k2 cs
      in (sep @ [c] @ out, k3))"

definition first_group :: "u32 \<Rightarrow> u32 \<Rightarrow> u32" where
  "first_group grouping len = (let k = grouping + 1 - (grouping - len mod grouping) in if k \<le> 1 then grouping + 1 else k)"

definition uartbb_puts_advanced :: "u8 list \<Rightarrow> u32 \<Rightarrow> u32 \<Rightarrow> u8 list option" where
  "uartbb_puts_advanced str zero_padding grouping = do {
     cs \<leftarrow> uartbb_puts str;
     let str_length = of_nat (length cs);
     let padding_length = (if str_length < zero_padding then zero_padding - str_length else 0);
     let k = (if 0 < zero_padding
       then if 0 < grouping then first_group grouping (max str_length zero_padding) else grouping + 1
       else if 0 < grouping then first_group grouping str_length else grouping + 1);
     let (padding, k1) = put_grouped grouping k
       (if 0 < zero_padding then replicate (unat padding_length) 48 else []);
     Some (padding @ fst (put_grouped grouping k1 cs))
   }"

section \<open>Formatted output\<close>

text \<open>An argument of \<^verbatim>\<open>uartbb_printf\<close>: a number or the bytes of a string.\<close>

datatype arg = Num u32 | Str "u8 list"

text \<open>The number at the beginning of a format; its last digit is followed by the next character.\<close>

fun parse_number :: "u32 \<Rightarrow> u8 list \<Rightarrow> u32 \<times> u8 list" where
  "parse_number n (c # cs) =
     (if 48 \<le> c \<and> c \<le> 57 then parse_number (n * 10 + (ucast c - 48)) cs else (n, c # cs))"
| "parse_number n [] = (n, [])"

text \<open>What follows the percent sign: padding, groups, the character of the conversion, the rest.\<close>

definition conversion :: "bool \<Rightarrow> u8 list \<Rightarrow> (u32 \<times> u32 \<times> u8 \<times> u8 list) option" where
  "conversion advanced fmt =
     (let (zero_padding, fmt1) = (if advanced \<and> fmt \<noteq> [] \<and> hd fmt = 48 then parse_number 0 (tl fmt) else (0, fmt));
          (grouping, fmt2) = (if advanced \<and> fmt1 \<noteq> [] \<and> hd fmt1 = 95 then parse_number 0 (tl fmt1) else (0, fmt1))
      in (case fmt2 of [] \<Rightarrow> None | c # rest \<Rightarrow> Some (zero_padding, grouping, c, rest)))"

definition put_number :: "bool \<Rightarrow> u8 list \<Rightarrow> u32 \<Rightarrow> u32 \<Rightarrow> u8 list option" where
  "put_number advanced str zero_padding grouping =
     (if advanced then uartbb_puts_advanced str zero_padding grouping else uartbb_puts str)"

definition convert :: "bool \<Rightarrow> u8 \<Rightarrow> u32 \<Rightarrow> u32 \<Rightarrow> arg list \<Rightarrow> (u8 list \<times> arg list) option" where
  "convert advanced c zero_padding grouping args =
     (if c \<in> {117, 98, 100, 120} then (case args of
        Num v # args1 \<Rightarrow> map_option (\<lambda>out. (out, args1))
          (put_number advanced (if c = 117 then utoa v 10 else if c = 98 then utoa v 2
             else if c = 100 then itoa v 10 else utoa v 16) zero_padding grouping)
      | _ \<Rightarrow> None)
      else if c = 99 then (case args of Num v # args1 \<Rightarrow> Some ([ucast v], args1) | _ \<Rightarrow> None)
      else if c = 115 then (case args of Str s # args1 \<Rightarrow> map_option (\<lambda>out. (out, args1)) (uartbb_puts s) | _ \<Rightarrow> None)
      else Some ([c], args))"

lemma parse_number_length: "length (snd (parse_number n cs)) \<le> length cs"
  by (induction n cs rule: parse_number.induct) auto

lemma conversion_length: "conversion advanced fmt = Some (z, g, c, rest) \<Longrightarrow> length rest < length fmt"
proof -
  assume "conversion advanced fmt = Some (z, g, c, rest)"
  moreover obtain z1 fmt1 where 1: "(if advanced \<and> fmt \<noteq> [] \<and> hd fmt = 48 then parse_number 0 (tl fmt) else (0, fmt)) = (z1, fmt1)"
    by fastforce
  moreover obtain g1 fmt2 where 2: "(if advanced \<and> fmt1 \<noteq> [] \<and> hd fmt1 = 95 then parse_number 0 (tl fmt1) else (0, fmt1)) = (g1, fmt2)"
    by fastforce
  moreover have "length fmt1 \<le> length fmt" using 1 parse_number_length[of 0 "tl fmt"] by (auto split: if_splits)
  moreover have "length fmt2 \<le> length fmt1" using 2 parse_number_length[of 0 "tl fmt1"] by (auto split: if_splits)
  ultimately show ?thesis by (auto simp: conversion_def split: list.splits)
qed

text \<open>The arguments are those that follow the format; None when the format has no zero byte or asks for
  an argument that is not there.\<close>

function (sequential) uartbb_printf :: "bool \<Rightarrow> u8 list \<Rightarrow> arg list \<Rightarrow> u8 list option" where
  "uartbb_printf advanced [] args = None"
| "uartbb_printf advanced (c # fmt) args =
     (if c = 0 then Some []
      else if c \<noteq> 37 then map_option ((#) c) (uartbb_printf advanced fmt args)
      else (case conversion advanced fmt of
          None \<Rightarrow> None
        | Some (zero_padding, grouping, c1, fmt1) \<Rightarrow>
            if c1 = 0 then Some []
            else (case convert advanced c1 zero_padding grouping args of
                None \<Rightarrow> None
              | Some (out, args1) \<Rightarrow> map_option ((@) out) (uartbb_printf advanced fmt1 args1))))"
  by pat_completeness auto
termination
  by (relation "measure (\<lambda>(_, fmt, _). length fmt)") (auto dest: conversion_length)

section \<open>Numbers can be read back\<close>

definition digit_value :: "u8 \<Rightarrow> nat" where
  "digit_value c = (if c < 58 then unat c - 48 else unat c - 87)"

definition read_digits :: "nat \<Rightarrow> u8 list \<Rightarrow> nat" where
  "read_digits base cs = foldl (\<lambda>n c. n * base + digit_value c) 0 cs"

definition read_int :: "u8 list \<Rightarrow> int" where
  "read_int cs = (if cs \<noteq> [] \<and> hd cs = 45 then - int (read_digits 10 (tl cs)) else int (read_digits 10 cs))"

lemma digit_char:
  assumes "d < 16"
  shows "digit_value (of_nat (if d < 10 then 48 + d else 87 + d)) = d"
    "(of_nat (if d < 10 then 48 + d else 87 + d) :: u8) \<notin> {0, 45, 37}"
proof -
  have "unat (of_nat (if d < 10 then 48 + d else 87 + d) :: u8) = (if d < 10 then 48 + d else 87 + d)"
    using assms by (simp add: unat_of_nat)
  then show "digit_value (of_nat (if d < 10 then 48 + d else 87 + d)) = d"
    "(of_nat (if d < 10 then 48 + d else 87 + d) :: u8) \<notin> {0, 45, 37}"
    using assms by (auto simp: digit_value_def word_less_nat_alt word_unat_eq_iff split: if_splits)
qed

lemma digits_read:
  assumes "2 \<le> base" "base \<le> 16"
  shows "read_digits base (digits base v) = v \<and> set (digits base v) \<inter> {0, 45, 37} = {} \<and> digits base v \<noteq> []"
proof (induction v rule: less_induct)
  case (less v)
  let ?c = "of_nat (if v mod base < 10 then 48 + v mod base else 87 + v mod base) :: u8"
  have d: "v mod base < 16" using mod_less_divisor[of base v] assms by linarith
  note c = digit_char[OF d]
  show ?case
  proof (cases "v < base")
    case True
    then have "digits base v = [?c]" by (subst digits.simps) (simp add: Let_def)
    with c True show ?thesis by (auto simp: read_digits_def)
  next
    case False
    then have s: "digits base v = digits base (v div base) @ [?c]" using assms by (subst digits.simps) (simp add: Let_def)
    have "v div base < v" using False assms by (intro div_less_dividend) auto
    from less[OF this] show ?thesis using c unfolding s by (auto simp: read_digits_def)
  qed
qed

lemma sint_nonneg:
  fixes v :: u32
  assumes "\<not> sint v < 0"
  shows "sint v = int (unat v)"
proof -
  have "uint v = uint (word_of_int (sint v) :: u32)" by simp
  also have "\<dots> = take_bit 32 (sint v)" by (simp only: unsigned_of_int) simp
  also have "\<dots> = sint v" using assms sint_lt[of v] by (simp add: take_bit_int_eq_self)
  finally show ?thesis by simp
qed

lemma puts_string: "0 \<notin> set cs \<Longrightarrow> uartbb_puts (cs @ 0 # rest) = Some cs"
  by (induction cs) auto

lemma put_utoa: "2 \<le> base \<Longrightarrow> base \<le> 16 \<Longrightarrow> uartbb_puts (utoa v base) = Some (digits base (unat v))"
  unfolding utoa_def using digits_read[of base "unat v"] by (intro puts_string) auto

lemma put_itoa: "uartbb_puts (itoa v 10) =
    Some (if sint v < 0 then 45 # digits 10 (nat (- sint v)) else digits 10 (unat v))"
  unfolding itoa_def using digits_read[of 10] by (intro puts_string) auto

text \<open>A number that is printed in decimal (with or without sign), binary or hexadecimal form can be
  read back from the transmitted bytes, for every value.\<close>

theorem uartbb_printf_numbers:
  shows "(\<exists>out. uartbb_printf False [37, 100, 0] [Num v] = Some out \<and> read_int out = sint v) \<and>
    (\<forall>(c, base) \<in> {(117, 10), (98, 2), (120, 16)}. \<exists>out. uartbb_printf False [37, c, 0] [Num v] = Some out \<and>
      read_digits base out = unat v)"
proof (intro conjI)
  show "\<exists>out. uartbb_printf False [37, 100, 0] [Num v] = Some out \<and> read_int out = sint v"
  proof (cases "sint v < 0")
    case True
    then show ?thesis using digits_read[of 10 "nat (- sint v)"]
      by (simp add: conversion_def convert_def put_number_def put_itoa read_int_def)
  next
    case False
    have "sint v = int (unat v)" using False by (simp add: sint_nonneg)
    moreover have "hd (digits 10 (unat v)) \<noteq> 45" using digits_read[of 10 "unat v"] hd_in_set by fastforce
    ultimately show ?thesis using False digits_read[of 10 "unat v"]
      by (simp add: conversion_def convert_def put_number_def put_itoa read_int_def)
  qed
  show "\<forall>(c, base) \<in> {(117, 10), (98, 2), (120, 16)}. \<exists>out. uartbb_printf False [37, c, 0] [Num v] = Some out \<and>
      read_digits base out = unat v"
    using digits_read[of _ "unat v"] by (simp add: conversion_def convert_def put_number_def put_utoa)
qed

lemma uartbb_printf_numbers_witness:
  "\<exists>out. uartbb_printf False [37, 120, 0] [Num 0xBEEF] = Some out \<and> read_digits 16 out = 0xBEEF"
  using uartbb_printf_numbers[of "0xBEEF"] by simp

section \<open>Groups\<close>

text \<open>What grouping means: an underscore before every character, except the first, that is followed,
  itself included, by a multiple of the size of a group.\<close>

fun grouped :: "nat \<Rightarrow> u8 list \<Rightarrow> u8 list" where
  "grouped g [] = []"
| "grouped g (c # cs) = (if Suc (length cs) mod g = 0 then [95, c] else [c]) @ grouped g cs"

fun group_digits :: "nat \<Rightarrow> u8 list \<Rightarrow> u8 list" where
  "group_digits g [] = []"
| "group_digits g (c # cs) = c # grouped g cs"

definition group_counter :: "nat \<Rightarrow> nat \<Rightarrow> nat" where
  "group_counter g n = n mod g + 1"

lemma put_grouped_append:
  "fst (put_grouped g k (xs @ ys)) = fst (put_grouped g k xs) @ fst (put_grouped g (snd (put_grouped g k xs)) ys)"
  by (induction xs arbitrary: k) (auto simp: Let_def split_beta)

lemma put_ungrouped: "put_grouped 0 k cs = (cs, k)"
  by (induction cs) (simp_all add: Let_def)

lemma put_grouped_rest:
  assumes "0 < grouping" "unat grouping = g"
  shows "k = of_nat (group_counter g (length (cs @ rest))) \<Longrightarrow>
    fst (put_grouped grouping k cs) @ grouped g rest = grouped g (cs @ rest) \<and>
    snd (put_grouped grouping k cs) = of_nat (group_counter g (length rest))"
proof (induction cs arbitrary: k)
  case (Cons c cs)
  let ?n = "length (cs @ rest)"
  have g: "0 < g" "g < 2 ^ 32" using assms unsigned_less[of grouping] by (auto simp: word_less_nat_alt)
  have of_g: "of_nat g = grouping" by (simp flip: assms(2))
  show ?case
  proof (cases "Suc ?n mod g = 0")
    case True
    then have k: "k = 1" using Cons(2) by (simp add: group_counter_def)
    have "Suc (?n mod g) = g" using True g by (simp add: mod_Suc split: if_splits)
    then have "of_nat (group_counter g ?n) = grouping" by (simp add: group_counter_def of_g del: of_nat_Suc)
    with Cons(1)[of grouping] k assms(1) True show ?thesis by (simp add: Let_def split_beta)
  next
    case False
    then have n: "Suc ?n mod g = Suc (?n mod g)" by (simp add: mod_Suc split: if_splits)
    then have "k - 1 = of_nat (group_counter g ?n)" using Cons(2) by (simp add: group_counter_def)
    moreover have "unat (of_nat (group_counter g ?n) :: u32) = Suc (?n mod g)"
      using n g mod_less_divisor[of g "Suc ?n"] by (simp add: group_counter_def unat_of_nat take_bit_nat_eq_self del: of_nat_Suc)
    ultimately have "k - 1 = of_nat (group_counter g ?n)" "k - 1 \<noteq> 0" by auto
    then show ?thesis using Cons(1)[of "k - 1"] assms(1) False by (simp add: Let_def split_beta)
  qed
qed simp

lemma first_group_counter:
  assumes "0 < grouping" "grouping < 0xFFFFFFFF" "unat grouping = g"
  shows "first_group grouping len = (if unat len mod g = 0 then of_nat (g + 1) else of_nat (group_counter g (unat len)))"
proof -
  define r where "r = len mod grouping"
  have g: "0 < g" "g < 2 ^ 32 - 1" using assms by (auto simp: word_less_nat_alt)
  have r: "unat r = unat len mod g" by (simp add: r_def unat_mod assms(3))
  then have "unat r < g" using g by simp
  have k: "first_group grouping len = (if r + 1 \<le> 1 then grouping + 1 else r + 1)"
    by (simp add: first_group_def r_def Let_def algebra_simps)
  have "unat (r + 1) = Suc (unat r)"
    using \<open>unat r < g\<close> g by (intro unat_Suc_no_wrap[of _ "0xFFFFFFFF"]) (simp add: word_less_nat_alt)
  then have "r + 1 \<le> 1 \<longleftrightarrow> unat r = 0" by (simp add: word_le_nat_alt)
  moreover have "of_nat (Suc (unat r)) = r + 1" "of_nat (Suc g) = grouping + 1" using assms(3) by auto
  ultimately show ?thesis using k r by (simp add: group_counter_def)
qed

lemma put_grouped_start:
  assumes "0 < grouping" "grouping < 0xFFFFFFFF" "unat grouping = g" "unat len = length cs"
  shows "fst (put_grouped grouping (first_group grouping len) cs) = group_digits g cs"
proof (cases cs)
  case (Cons c cs1)
  have g: "0 < g" "g < 2 ^ 32 - 1" using assms by (auto simp: word_less_nat_alt)
  have n: "unat len = Suc (length cs1)" using assms(4) Cons by simp
  let ?k = "first_group grouping len"
  have "?k - 1 = of_nat (group_counter g (length cs1)) \<and> of_nat (group_counter g (length cs1)) \<noteq> (0 :: u32)"
  proof (cases "unat len mod g = 0")
    case True
    then have "Suc (length cs1 mod g) = g" using n g by (simp add: mod_Suc split: if_splits)
    then have "of_nat (group_counter g (length cs1)) = (of_nat g :: u32)" by (simp add: group_counter_def)
    moreover have "?k - 1 = of_nat g" using first_group_counter[OF assms(1-3)] True by simp
    moreover have "of_nat g = grouping" by (simp flip: assms(3))
    ultimately show ?thesis using assms(1) by auto
  next
    case False
    then have m: "unat len mod g = Suc (length cs1 mod g)" using n by (simp add: mod_Suc split: if_splits)
    then have "?k - 1 = of_nat (group_counter g (length cs1))"
      using first_group_counter[OF assms(1-3)] False by (simp add: group_counter_def)
    moreover have "unat (of_nat (group_counter g (length cs1)) :: u32) = Suc (length cs1 mod g)"
      using m g mod_less_divisor[of g "unat len"]
      by (simp add: group_counter_def unat_of_nat take_bit_nat_eq_self del: of_nat_Suc)
    ultimately show ?thesis by auto
  qed
  then show ?thesis
    using put_grouped_rest[OF assms(1,3), of "?k - 1" cs1 "[]"] assms(1) by (simp add: Cons Let_def split_beta)
qed simp

lemma puts_advanced_groups:
  assumes "uartbb_puts str = Some cs" "length cs < 2 ^ 32" "grouping < 0xFFFFFFFF"
  shows "uartbb_puts_advanced str zero_padding grouping = Some
    (let padded = replicate (unat zero_padding - length cs) 48 @ cs
     in if grouping = 0 then padded else group_digits (unat grouping) padded)"
proof -
  let ?l = "of_nat (length cs) :: u32"
  define pad where "pad = (if ?l < zero_padding then zero_padding - ?l else 0)"
  define len where "len = (if 0 < zero_padding then max ?l zero_padding else ?l)"
  have l: "unat ?l = length cs" using assms(2) by (simp add: unat_of_nat take_bit_nat_eq_self)
  have pad: "unat pad = unat zero_padding - length cs"
    using l by (auto simp: pad_def unat_sub word_less_nat_alt word_le_nat_alt)
  have len: "unat len = length (replicate (unat zero_padding - length cs) (48 :: u8) @ cs)"
    using l by (auto simp: len_def max_def word_less_nat_alt word_le_nat_alt word_gt_0)
  have "uartbb_puts_advanced str zero_padding grouping = Some (fst (put_grouped grouping
      (if 0 < grouping then first_group grouping len else grouping + 1)
      (replicate (unat zero_padding - length cs) 48 @ cs)))"
    by (cases "0 < zero_padding")
      (auto simp: uartbb_puts_advanced_def assms(1) Let_def pad_def[symmetric] pad len_def put_grouped_append split_beta
        word_gt_0)
  then show ?thesis
    using put_grouped_start[OF _ assms(3) refl len] by (auto simp: Let_def put_ungrouped word_gt_0)
qed

text \<open>The padding and grouping of a number produce exactly the padded string with an underscore before
  every group counted from the right, for every length, padding and group size: the counters that run from the
  left agree with the groups.\<close>

theorem uartbb_puts_advanced_groups:
  assumes "uartbb_puts str = Some cs" "length cs < 2 ^ 32" "grouping < 0xFFFFFFFF"
  shows "uartbb_puts_advanced str zero_padding grouping = Some
    (let padded = replicate (unat zero_padding - length cs) 48 @ cs
     in if grouping = 0 then padded else group_digits (unat grouping) padded)"
  using assms by (rule puts_advanced_groups)

lemma uartbb_puts_advanced_groups_witness:
  "uartbb_puts_advanced [49, 50, 51, 52, 53, 0] 8 3 = Some [48, 48, 95, 48, 49, 50, 95, 51, 52, 53]"
proof -
  have "replicate 3 (48 :: u8) = [48, 48, 48]" by (simp add: numeral_3_eq_3)
  with uartbb_puts_advanced_groups[of "[49, 50, 51, 52, 53, 0]" "[49, 50, 51, 52, 53]" 3 8]
  show ?thesis by (simp add: Let_def)
qed

text \<open>Padding does not know about signs: the zeros of a negative number are before its minus sign.\<close>

lemma negative_padding:
  assumes "sint v < 0"
  shows "uartbb_puts_advanced (itoa v 10) zero_padding 0 =
    Some (replicate (unat zero_padding - Suc (length (digits 10 (nat (- sint v))))) 48 @ [45] @ digits 10 (nat (- sint v)))"
proof -
  have puts: "uartbb_puts (itoa v 10) = Some (45 # digits 10 (nat (- sint v)))" using assms by (simp add: put_itoa)
  have "length (digits 10 n) \<le> Suc n" for n
  proof (induction n rule: less_induct)
    case (less n)
    show ?case using less[of "n div 10"] by (subst digits.simps) (auto simp: Let_def)
  qed
  then have "length (digits 10 (nat (- sint v))) \<le> Suc (nat (- sint v))" .
  moreover have "- sint v \<le> 2 ^ 31" using sint_ge[of v] by simp
  ultimately have "length (45 # digits 10 (nat (- sint v))) < 2 ^ 32" by simp
  from puts_advanced_groups[OF puts this, of 0 zero_padding] show ?thesis by (simp add: Let_def)
qed

end
