(* ===== verification/Bootloader_Irq.thy ===== *)
theory Bootloader_Irq
  imports Ringbuffer
begin

text \<open>
  The interrupt handlers of the protocol between Brick and Bricklet
  (\<^verbatim>\<open>bootloader/bootloader_xmc_irq.c\<close>): received bytes go into the ring buffer, the message
  or acknowledgement that waits goes into the transmit FIFO. The choices of the preprocessor are a record, the
  pointers into the send buffer are offsets, the levels of the FIFOs are inputs.
\<close>

section \<open>State\<close>

definition SPITFP_PROTOCOL_OVERHEAD :: nat where "SPITFP_PROTOCOL_OVERHEAD = 3"

record irq_config =
  SPITFP_RECEIVE_BUFFER_MASK :: u16
  SPITFP_TX_SIZE :: nat
  BOOTLOADER_FIX_POINTER_END :: bool
  BOOTLOADER_XMC_RX_IRQ_NO_OVERFLOW :: bool

record spitfp =
  buffer_recv :: "u8 list"
  buffer_send :: "u8 list"
  buffer_send_pointer :: nat
  buffer_send_pointer_end :: nat
  ringbuffer_recv :: ringbuffer
  error_count_overflow :: u32

definition buffer_send_pointer_protocol_overhead_end :: "irq_config \<Rightarrow> nat" where
  "buffer_send_pointer_protocol_overhead_end cfg =
     (if BOOTLOADER_FIX_POINTER_END cfg then SPITFP_PROTOCOL_OVERHEAD else SPITFP_PROTOCOL_OVERHEAD - 1)"

section \<open>Receiving\<close>

definition rx_byte :: "irq_config \<Rightarrow> u8 \<Rightarrow> spitfp \<Rightarrow> spitfp option" where
  "rx_byte cfg b s = do {
     buf \<leftarrow> arr_set (buffer_recv s) (unat (rb_end (ringbuffer_recv s))) b;
     let e = (rb_end (ringbuffer_recv s) + 1) AND SPITFP_RECEIVE_BUFFER_MASK cfg;
     let s1 = s \<lparr> buffer_recv := buf, ringbuffer_recv := ringbuffer_recv s \<lparr> rb_end := e \<rparr> \<rparr>;
     Some (if \<not> BOOTLOADER_XMC_RX_IRQ_NO_OVERFLOW cfg \<and> e = rb_start (ringbuffer_recv s1)
       then s1 \<lparr> error_count_overflow := error_count_overflow s1 + 1,
         ringbuffer_recv := ringbuffer_recv s1 \<lparr> rb_end := (e - 1) AND SPITFP_RECEIVE_BUFFER_MASK cfg \<rparr> \<rparr>
       else s1)
   }"

text \<open>The handler empties the receive FIFO.\<close>

fun SPITFP_IRQ_RX_HANDLER :: "irq_config \<Rightarrow> u8 list \<Rightarrow> spitfp \<Rightarrow> spitfp option" where
  "SPITFP_IRQ_RX_HANDLER cfg [] s = Some s"
| "SPITFP_IRQ_RX_HANDLER cfg (b # bs) s = Option.bind (rx_byte cfg b s) (SPITFP_IRQ_RX_HANDLER cfg bs)"

section \<open>Sending\<close>

text \<open>What happens when the pointer has come to the end: the boot loader tests for it, so in the variant
  without the fix the end is the last byte, which is sent here. The end of an acknowledgement is reset so that
  it is not sent again.\<close>

definition tx_finish :: "irq_config \<Rightarrow> spitfp \<Rightarrow> (u8 list \<times> spitfp) option" where
  "tx_finish cfg s = do {
     last_byte \<leftarrow> (if BOOTLOADER_FIX_POINTER_END cfg then Some []
       else map_option (\<lambda>b. [b]) (arr_get (buffer_send s) (buffer_send_pointer s)));
     Some (last_byte, if buffer_send_pointer_end s = buffer_send_pointer_protocol_overhead_end cfg
       then s \<lparr> buffer_send_pointer_end := 0 \<rparr> else s)
   }"

fun tx_copy :: "nat \<Rightarrow> spitfp \<Rightarrow> (u8 list \<times> spitfp) option" where
  "tx_copy 0 s = Some ([], s)"
| "tx_copy (Suc n) s = do {
     b \<leftarrow> arr_get (buffer_send s) (buffer_send_pointer s);
     (out, s1) \<leftarrow> tx_copy n (s \<lparr> buffer_send_pointer := buffer_send_pointer s + 1 \<rparr>);
     Some (b # out, s1)
   }"

definition SPITFP_IRQ_TX_HANDLER :: "irq_config \<Rightarrow> nat \<Rightarrow> spitfp \<Rightarrow> (u8 list \<times> spitfp) option" where
  "SPITFP_IRQ_TX_HANDLER cfg level s = do {
     let to_send = (word_of_int (int (buffer_send_pointer_end s) - int (buffer_send_pointer s)) :: u8);
     let fifo_level = (of_nat (SPITFP_TX_SIZE cfg) - of_nat level :: u8);
     (out, s1) \<leftarrow> tx_copy (unat (min to_send fifo_level)) s;
     if buffer_send_pointer s1 = buffer_send_pointer_end s1
     then map_option (\<lambda>(last_byte, s2). (out @ last_byte, s2)) (tx_finish cfg s1)
     else Some (out, s1)
   }"

text \<open>The variant for little memory writes one byte after the other while the FIFO has room.\<close>

fun tx_one_by_one :: "irq_config \<Rightarrow> nat \<Rightarrow> spitfp \<Rightarrow> (u8 list \<times> spitfp) option" where
  "tx_one_by_one cfg 0 s = Some ([], s)"
| "tx_one_by_one cfg (Suc room) s = do {
     b \<leftarrow> arr_get (buffer_send s) (buffer_send_pointer s);
     let s1 = s \<lparr> buffer_send_pointer := buffer_send_pointer s + 1 \<rparr>;
     (out, s2) \<leftarrow> (if buffer_send_pointer s1 = buffer_send_pointer_end s1 then tx_finish cfg s1
       else tx_one_by_one cfg room s1);
     Some (b # out, s2)
   }"

definition SPITFP_IRQ_TX_HANDLER_MEMORY_OPTIMIZED :: "irq_config \<Rightarrow> nat \<Rightarrow> spitfp \<Rightarrow> (u8 list \<times> spitfp) option" where
  "SPITFP_IRQ_TX_HANDLER_MEMORY_OPTIMIZED cfg level s = tx_one_by_one cfg (SPITFP_TX_SIZE cfg - level) s"

section \<open>Reception is a bounded queue\<close>

definition rx_config :: "irq_config \<Rightarrow> nat \<Rightarrow> spitfp \<Rightarrow> bool" where
  "rx_config cfg k s \<longleftrightarrow> k < 16 \<and> SPITFP_RECEIVE_BUFFER_MASK cfg = mask k \<and> unat (rb_size (ringbuffer_recv s)) = 2 ^ k \<and>
     rb_buffer (ringbuffer_recv s) = 0 \<and> rb_wf (buffer_recv s) (ringbuffer_recv s)"

lemma and_mask_next:
  assumes "k < 16" "unat (rb_size rb) = 2 ^ k" "i < rb_size rb"
  shows "(i + 1) AND mask k = rb_next rb i"
proof -
  have i: "unat i < 2 ^ k" using assms by (simp add: word_less_nat_alt)
  have "unat (i + 1) = Suc (unat i)" using assms by (intro unat_Suc_no_wrap[of _ "rb_size rb"]) (simp add: word_less_nat_alt)
  then have "unat ((i + 1) AND mask k) = Suc (unat i) mod 2 ^ k"
    unfolding take_bit_eq_mask[symmetric] unsigned_take_bit_eq by (simp only: take_bit_eq_mod)
  also have "\<dots> = unat (rb_next rb i)" using unat_rb_next[OF assms(3)] i assms(2) by (auto simp: mod_if)
  finally show ?thesis by (simp add: word_unat_eq_iff)
qed

lemma and_mask_prev:
  assumes "k < 16" "unat (rb_size rb) = 2 ^ k" "i < rb_size rb"
  shows "(i - 1) AND mask k = (if i = 0 then rb_size rb - 1 else i - 1)"
proof (cases "i = 0")
  case True
  have "rb_size rb = of_nat (unat (rb_size rb))" by simp
  then have "rb_size rb = 2 ^ k" unfolding assms(2) by simp
  then show ?thesis using True by (simp add: mask_eq_exp_minus_1)
next
  case False
  have "unat (i - 1) < 2 ^ k" using False assms by (simp add: unat_minus_one word_less_nat_alt)
  then have "take_bit k (i - 1) = i - 1" by (simp add: word_unat_eq_iff unsigned_take_bit_eq take_bit_nat_eq_self)
  then show ?thesis using False by (simp add: take_bit_eq_mask)
qed

lemma rb_next_back:
  assumes "i < rb_size rb"
  shows "(if rb_next rb i = 0 then rb_size rb - 1 else rb_next rb i - 1) = i"
proof -
  have n: "unat (rb_next rb i) = (if Suc (unat i) = unat (rb_size rb) then 0 else Suc (unat i))"
    by (rule unat_rb_next[OF assms])
  show ?thesis
  proof (cases "Suc (unat i) = unat (rb_size rb)")
    case True
    then have "unat (rb_size rb - 1) = unat i" using assms by (subst unat_minus_one) auto
    then show ?thesis using n True by (simp add: word_unat_eq_iff)
  next
    case False
    then have "unat (rb_next rb i) = Suc (unat i)" "rb_next rb i \<noteq> 0" using n by (auto simp: word_unat_eq_iff)
    then show ?thesis by (simp add: word_unat_eq_iff unat_minus_one)
  qed
qed

text \<open>A received byte is added to the ring by the operation of the library, except that the overflow is
  counted elsewhere.\<close>

lemma rx_byte_adds:
  assumes "rx_config cfg k s" "\<not> BOOTLOADER_XMC_RX_IRQ_NO_OVERFLOW cfg"
    and "ringbuffer_add (buffer_recv s) (ringbuffer_recv s) b = Some (mem1, rb1, ok)"
  shows "rx_byte cfg b s = Some (s \<lparr> buffer_recv := mem1,
      ringbuffer_recv := rb1 \<lparr> rb_overflows := rb_overflows (ringbuffer_recv s) \<rparr>,
      error_count_overflow := error_count_overflow s + (if ok then 0 else 1) \<rparr>)"
proof -
  let ?rb = "ringbuffer_recv s"
  have c: "k < 16" "unat (rb_size ?rb) = 2 ^ k" "SPITFP_RECEIVE_BUFFER_MASK cfg = mask k" "rb_buffer ?rb = 0"
    and wf: "rb_wf (buffer_recv s) ?rb" using assms(1) by (simp_all add: rx_config_def)
  have "rb_end ?rb < rb_size ?rb" "rb_start ?rb < rb_size ?rb" using wf by (simp_all add: rb_wf_def)
  note next_end = and_mask_next[OF c(1,2) this(1)]
    and prev = trans[OF and_mask_prev[OF c(1,2) rb_next_less[OF this(1)]] rb_next_back[OF this(1)]]
  have "unat (rb_end ?rb) < length (buffer_recv s)" using rb_wf_unat[OF wf] by simp
  then have buf: "arr_set (buffer_recv s) (unat (rb_end ?rb)) b = Some ((buffer_recv s)[unat (rb_end ?rb) := b])"
    by (simp add: arr_set_def)
  show ?thesis
  proof (cases "rb_next ?rb (rb_end ?rb) = rb_start ?rb")
    case True
    with assms(2,3) c(3,4) prev[unfolded True] buf show ?thesis unfolding ringbuffer_add_eq[OF wf]
      by (auto simp: rx_byte_def next_end Let_def)
  next
    case False
    with assms(2,3) c(3,4) buf show ?thesis unfolding ringbuffer_add_eq[OF wf]
      by (auto simp: rx_byte_def next_end Let_def)
  qed
qed

abbreviation received :: "spitfp \<Rightarrow> u8 list" where
  "received s \<equiv> rb_contents (buffer_recv s) (ringbuffer_recv s)"

lemma overflow_counter_irrelevant [simp]:
  "rb_wf mem (rb \<lparr> rb_overflows := n \<rparr>) = rb_wf mem rb"
  "rb_contents mem (rb \<lparr> rb_overflows := n \<rparr>) = rb_contents mem rb"
  by (simp_all add: rb_wf_def rb_contents_def rb_used_def rb_slot_def)

lemma carry: "(Suc n - c) + (min (Suc n) c + m - c) = n + Suc m - (c :: nat)"
  by arith

lemma rx_byte_spec:
  assumes "rx_config cfg k s" "\<not> BOOTLOADER_XMC_RX_IRQ_NO_OVERFLOW cfg"
  shows "\<exists>s1. rx_byte cfg b s = Some s1 \<and> rx_config cfg k s1 \<and> received s1 = take (2 ^ k - 1) (received s @ [b]) \<and>
    error_count_overflow s1 = error_count_overflow s + of_nat (length (received s @ [b]) - (2 ^ k - 1))"
proof -
  let ?rb = "ringbuffer_recv s"
  have wf: "rb_wf (buffer_recv s) ?rb" and cap: "rb_capacity ?rb = 2 ^ k - 1"
    using assms(1) by (simp_all add: rx_config_def rb_capacity_def)
  have used: "rb_used ?rb \<le> 2 ^ k - 1" using rb_used_bound[OF wf] cap by simp
  have keep: "rx_config cfg k s1"
    if "ringbuffer_add (buffer_recv s) ?rb b = Some (mem1, rb1, ok)" "buffer_recv s1 = mem1"
      "ringbuffer_recv s1 = rb1 \<lparr> rb_overflows := n \<rparr>" for mem1 rb1 ok n s1
    using rb_wf_add[OF wf that(1)] that(2,3) assms(1) by (simp add: rx_config_def)
  show ?thesis
  proof (cases "rb_used ?rb < rb_capacity ?rb")
    case True
    obtain mem1 rb1 where add: "ringbuffer_add (buffer_recv s) ?rb b = Some (mem1, rb1, True)"
      "rb_contents mem1 rb1 = received s @ [b]" using ringbuffer_add_room[OF wf True] by blast
    with rx_byte_adds[OF assms add(1)] keep[OF add(1)] True cap show ?thesis by simp
  next
    case False
    obtain mem1 rb1 where add: "ringbuffer_add (buffer_recv s) ?rb b = Some (mem1, rb1, False)"
      "rb_contents mem1 rb1 = received s" using ringbuffer_add_full[OF wf] False by fastforce
    have "rb_used ?rb = 2 ^ k - 1" using False used cap by simp
    moreover from this have "length (received s @ [b]) - (2 ^ k - 1) = 1" by simp
    ultimately show ?thesis using rx_byte_adds[OF assms add(1)] keep[OF add(1)] add(2) by simp
  qed
qed

text \<open>C9. The receive interrupt appends the received bytes to the contents of the ring buffer as far as there
  is room, drops and counts the others, and keeps the ring well formed: it is the ring buffer of the library
  with its division replaced by a mask.\<close>

theorem rx_handler_appends:
  assumes "rx_config cfg k s" "\<not> BOOTLOADER_XMC_RX_IRQ_NO_OVERFLOW cfg"
  shows "\<exists>s1. SPITFP_IRQ_RX_HANDLER cfg bs s = Some s1 \<and> rx_config cfg k s1 \<and>
    received s1 = take (2 ^ k - 1) (received s @ bs) \<and>
    error_count_overflow s1 = error_count_overflow s + of_nat (length (received s @ bs) - (2 ^ k - 1))"
  using assms(1)
proof (induction bs arbitrary: s)
  case Nil
  have wf: "rb_wf (buffer_recv s) (ringbuffer_recv s)" "rb_capacity (ringbuffer_recv s) = 2 ^ k - 1"
    using Nil by (simp_all add: rx_config_def rb_capacity_def)
  then have "rb_used (ringbuffer_recv s) \<le> 2 ^ k - 1" using rb_used_bound by metis
  with Nil show ?case by simp
next
  case (Cons b bs)
  let ?c = "2 ^ k - 1 :: nat"
  obtain s1 where s1: "rx_byte cfg b s = Some s1" "rx_config cfg k s1" "received s1 = take ?c (received s @ [b])"
    "error_count_overflow s1 = error_count_overflow s + of_nat (length (received s @ [b]) - ?c)"
    using rx_byte_spec[OF Cons(2) assms(2)] by blast
  obtain s2 where s2: "SPITFP_IRQ_RX_HANDLER cfg bs s1 = Some s2" "rx_config cfg k s2"
    "received s2 = take ?c (received s1 @ bs)"
    "error_count_overflow s2 = error_count_overflow s1 + of_nat (length (received s1 @ bs) - ?c)"
    using Cons(1)[OF s1(2)] by blast
  have "take ?c (received s1 @ bs) = take ?c (received s @ b # bs)"
    unfolding s1(3) by (cases "length (received s) < ?c") (simp_all add: take_Cons')
  moreover have "length (received s @ [b]) - ?c + (length (received s1 @ bs) - ?c) = length (received s @ b # bs) - ?c"
    using carry[of "length (received s)" ?c "length bs"] by (simp only: s1(3) length_append length_take list.size add_0_right
        add_Suc_right)
  then have "error_count_overflow s2 = error_count_overflow s + of_nat (length (received s @ b # bs) - ?c)"
    unfolding s2(4) s1(4) add.assoc of_nat_add[symmetric] by (rule arg_cong)
  ultimately show ?case using s1(1) s2 by simp
qed

definition demo_spitfp :: "bool \<Rightarrow> irq_config \<times> spitfp" where
  "demo_spitfp fix_end = (\<lparr> SPITFP_RECEIVE_BUFFER_MASK = 3, SPITFP_TX_SIZE = 2, BOOTLOADER_FIX_POINTER_END = fix_end,
      BOOTLOADER_XMC_RX_IRQ_NO_OVERFLOW = False \<rparr>,
    \<lparr> buffer_recv = [0, 0, 0, 0], buffer_send = [7, 8, 9, 10], buffer_send_pointer = 0,
      buffer_send_pointer_end = (if fix_end then 3 else 2), ringbuffer_recv = ringbuffer_init 4 0, error_count_overflow = 0 \<rparr>)"

lemma rx_handler_appends_witness:
  "\<exists>s1. SPITFP_IRQ_RX_HANDLER (fst (demo_spitfp True)) [1, 2, 3, 4, 5] (snd (demo_spitfp True)) = Some s1 \<and>
    received s1 = [1, 2, 3] \<and> error_count_overflow s1 = 2"
proof -
  have "rx_config (fst (demo_spitfp True)) 2 (snd (demo_spitfp True))"
    by (simp add: rx_config_def demo_spitfp_def ringbuffer_init_def rb_wf_def mask_eq_exp_minus_1)
  moreover have "received (snd (demo_spitfp True)) = []"
    by (simp add: demo_spitfp_def ringbuffer_init_def rb_contents_def rb_used_def)
  ultimately show ?thesis
    using rx_handler_appends[of "fst (demo_spitfp True)" 2 "snd (demo_spitfp True)" "[1, 2, 3, 4, 5]"]
    by (auto simp: demo_spitfp_def)
qed

text \<open>Without the check, a byte that comes into a full ring empties it: all bytes that wait are lost.\<close>

lemma rx_without_check:
  assumes "rx_config cfg k s" "BOOTLOADER_XMC_RX_IRQ_NO_OVERFLOW cfg" "length (received s) = 2 ^ k - 1"
  shows "\<exists>s1. rx_byte cfg b s = Some s1 \<and> received s1 = []"
proof -
  let ?rb = "ringbuffer_recv s"
  have c: "k < 16" "unat (rb_size ?rb) = 2 ^ k" "SPITFP_RECEIVE_BUFFER_MASK cfg = mask k" "rb_buffer ?rb = 0"
    and wf: "rb_wf (buffer_recv s) ?rb" using assms(1) by (simp_all add: rx_config_def)
  have e: "rb_end ?rb < rb_size ?rb" using wf by (simp add: rb_wf_def)
  have "rb_next ?rb (rb_end ?rb) = rb_start ?rb"
    using rb_full_iff[OF wf] assms(3) c(2) by (simp add: rb_capacity_def)
  moreover have "unat (rb_end ?rb) < length (buffer_recv s)" using rb_wf_unat[OF wf] by simp
  ultimately show ?thesis
    using assms(2) c and_mask_next[OF c(1,2) e] by (simp add: rx_byte_def arr_set_def Let_def rb_contents_def rb_used_def)
qed

section \<open>A message is sent once\<close>

lemma tx_copy_Some: "buffer_send_pointer s + n \<le> length (buffer_send s) \<Longrightarrow>
    tx_copy n s = Some (take n (drop (buffer_send_pointer s) (buffer_send s)),
      s \<lparr> buffer_send_pointer := buffer_send_pointer s + n \<rparr>)"
proof (induction n s rule: tx_copy.induct)
  case (2 n s)
  then have b: "arr_get (buffer_send s) (buffer_send_pointer s) = Some (buffer_send s ! buffer_send_pointer s)"
    by (simp add: arr_get_def)
  have "drop (buffer_send_pointer s) (buffer_send s) =
      buffer_send s ! buffer_send_pointer s # drop (Suc (buffer_send_pointer s)) (buffer_send s)"
    using 2(2) by (simp add: Cons_nth_drop_Suc)
  with 2(1)[OF b] 2(2) b show ?case by simp
qed simp

text \<open>Both handlers as one, for a message whose rest is shorter than 256 bytes and a FIFO with some room.\<close>

definition tx_step :: "irq_config \<Rightarrow> nat \<Rightarrow> spitfp \<Rightarrow> (u8 list \<times> spitfp) option" where
  "tx_step cfg room s = do {
     (out, s1) \<leftarrow> tx_copy (min room (buffer_send_pointer_end s - buffer_send_pointer s)) s;
     if buffer_send_pointer s1 = buffer_send_pointer_end s1
     then map_option (\<lambda>(last_byte, s2). (out @ last_byte, s2)) (tx_finish cfg s1)
     else Some (out, s1)
   }"

definition sending :: "irq_config \<Rightarrow> spitfp \<Rightarrow> bool" where
  "sending cfg s \<longleftrightarrow> buffer_send_pointer s < buffer_send_pointer_end s \<and>
     buffer_send_pointer_end s - buffer_send_pointer s < 256 \<and> SPITFP_TX_SIZE cfg < 256 \<and>
     buffer_send_pointer_end s + (if BOOTLOADER_FIX_POINTER_END cfg then 0 else 1) \<le> length (buffer_send s)"

lemma tx_handler_step:
  assumes "sending cfg s" "level \<le> SPITFP_TX_SIZE cfg"
  shows "SPITFP_IRQ_TX_HANDLER cfg level s = tx_step cfg (SPITFP_TX_SIZE cfg - level) s"
proof -
  let ?n = "buffer_send_pointer_end s - buffer_send_pointer s" and ?room = "SPITFP_TX_SIZE cfg - level"
  have less: "?n < 256" "?room < 256" using assms by (auto simp: sending_def)
  have "word_of_int (int (buffer_send_pointer_end s) - int (buffer_send_pointer s)) = (of_nat ?n :: u8)"
    using assms(1) by (simp add: sending_def of_nat_diff)
  moreover have "of_nat (SPITFP_TX_SIZE cfg) - of_nat level = (of_nat ?room :: u8)" using assms(2) by (simp add: of_nat_diff)
  moreover have "unat (min (of_nat ?n) (of_nat ?room) :: u8) = min ?room ?n"
    using less by (simp add: min_def word_le_nat_alt unat_of_nat take_bit_nat_eq_self)
  ultimately show ?thesis by (simp only: SPITFP_IRQ_TX_HANDLER_def tx_step_def Let_def)
qed

lemma tx_one_by_one_step: "sending cfg s \<Longrightarrow> tx_one_by_one cfg room s = tx_step cfg room s"
proof (induction cfg room s rule: tx_one_by_one.induct)
  case (1 cfg s)
  then show ?case by (simp add: tx_step_def sending_def)
next
  case (2 cfg room s)
  let ?s1 = "s \<lparr> buffer_send_pointer := buffer_send_pointer s + 1 \<rparr>"
  have b: "arr_get (buffer_send s) (buffer_send_pointer s) = Some (buffer_send s ! buffer_send_pointer s)"
    using 2(2) by (simp add: arr_get_def sending_def)
  have n: "min (Suc room) (buffer_send_pointer_end s - buffer_send_pointer s) =
      Suc (min room (buffer_send_pointer_end s - Suc (buffer_send_pointer s)))"
    using 2(2) by (auto simp: sending_def)
  show ?case
  proof (cases "buffer_send_pointer ?s1 = buffer_send_pointer_end ?s1")
    case True
    then have "min (Suc room) (buffer_send_pointer_end s - buffer_send_pointer s) = Suc 0" unfolding n by simp
    then show ?thesis using True b by (cases "tx_finish cfg ?s1") (auto simp: tx_step_def)
  next
    case False
    then have "sending cfg ?s1" using 2(2) by (auto simp: sending_def)
    from 2(1)[OF b refl False this] False b n show ?thesis
      by (auto simp: tx_step_def split: Option.bind_split prod.split)
  qed
qed

text \<open>The two implementations of the transmit interrupt, the unrolled one with its 8 bit counts and the
  one that writes byte by byte, do the same while a message is sent: same bytes, same pointers.\<close>

theorem tx_handlers_equivalent:
  assumes "sending cfg s" "level \<le> SPITFP_TX_SIZE cfg"
  shows "SPITFP_IRQ_TX_HANDLER cfg level s = SPITFP_IRQ_TX_HANDLER_MEMORY_OPTIMIZED cfg level s"
  by (simp only: tx_handler_step[OF assms] SPITFP_IRQ_TX_HANDLER_MEMORY_OPTIMIZED_def tx_one_by_one_step[OF assms(1)])

lemma tx_handlers_equivalent_witness:
  "SPITFP_IRQ_TX_HANDLER (fst (demo_spitfp False)) 0 (snd (demo_spitfp False)) =
     SPITFP_IRQ_TX_HANDLER_MEMORY_OPTIMIZED (fst (demo_spitfp False)) 0 (snd (demo_spitfp False))"
  by (rule tx_handlers_equivalent) (simp_all add: sending_def demo_spitfp_def)

text \<open>The interrupts of a message: each finds the FIFO at some level; the one that comes to the end
  switches the interrupt off. The result is the bytes sent, and whether the end was reached.\<close>

fun tx_interrupts :: "irq_config \<Rightarrow> nat list \<Rightarrow> spitfp \<Rightarrow> (u8 list \<times> bool \<times> spitfp) option" where
  "tx_interrupts cfg [] s = Some ([], False, s)"
| "tx_interrupts cfg (level # levels) s = do {
     (out, s1) \<leftarrow> SPITFP_IRQ_TX_HANDLER cfg level s;
     if buffer_send_pointer s1 = buffer_send_pointer_end s then Some (out, True, s1)
     else do {
       (out2, complete, s2) \<leftarrow> tx_interrupts cfg levels s1;
       Some (out @ out2, complete, s2)
     }
   }"

text \<open>The bytes of the message that are not yet sent: the pointer to the end is that of the last byte in the
  variant without the fix.\<close>

definition unsent :: "irq_config \<Rightarrow> spitfp \<Rightarrow> u8 list" where
  "unsent cfg s = take (buffer_send_pointer_end s + (if BOOTLOADER_FIX_POINTER_END cfg then 0 else 1) - buffer_send_pointer s)
     (drop (buffer_send_pointer s) (buffer_send s))"

lemma tx_step_unsent:
  assumes "sending cfg s"
  shows "\<exists>out s1. tx_step cfg room s = Some (out, s1) \<and> buffer_send s1 = buffer_send s \<and>
    (if buffer_send_pointer_end s - buffer_send_pointer s \<le> room
     then out = unsent cfg s \<and> buffer_send_pointer s1 = buffer_send_pointer_end s \<and>
       buffer_send_pointer_end s1 =
         (if buffer_send_pointer_end s = buffer_send_pointer_protocol_overhead_end cfg then 0 else buffer_send_pointer_end s)
     else out @ unsent cfg s1 = unsent cfg s \<and> length out = room \<and> sending cfg s1 \<and>
       buffer_send_pointer_end s1 = buffer_send_pointer_end s \<and> buffer_send_pointer s1 = buffer_send_pointer s + room)"
proof -
  let ?p = "buffer_send_pointer s" and ?e = "buffer_send_pointer_end s" and ?b = "buffer_send s"
  let ?x = "if BOOTLOADER_FIX_POINTER_END cfg then 0 else 1 :: nat"
  have s: "?p < ?e" "?e + ?x \<le> length ?b" using assms by (simp_all add: sending_def)
  let ?n = "min room (?e - ?p)"
  have copy: "tx_copy ?n s = Some (take ?n (drop ?p ?b), s \<lparr> buffer_send_pointer := ?p + ?n \<rparr>)"
    using s by (intro tx_copy_Some) auto
  show ?thesis
  proof (cases "?e - ?p \<le> room")
    case True
    then have n: "?n = ?e - ?p" "?p + ?n = ?e" using s by auto
    have last_byte: "take (?e - ?p) (drop ?p ?b) @ [?b ! ?e] = take (?e + 1 - ?p) (drop ?p ?b)" if "?e < length ?b"
    proof -
      have "?e + 1 - ?p = Suc (?e - ?p)" using s by simp
      then show ?thesis using that s by (simp add: take_Suc_conv_app_nth)
    qed
    show ?thesis
    proof (cases "BOOTLOADER_FIX_POINTER_END cfg")
      case fix_end: True
      then show ?thesis using True copy n s by (simp add: tx_step_def tx_finish_def unsent_def)
    next
      case False
      then have "?e < length ?b" using s by simp
      then show ?thesis using False True copy n s last_byte
        by (simp add: tx_step_def tx_finish_def unsent_def arr_get_def)
    qed
  next
    case False
    let ?s1 = "s \<lparr> buffer_send_pointer := ?p + room \<rparr>"
    have n: "?n = room" "?p + room < ?e" using False by auto
    have "take room (drop ?p ?b) @ unsent cfg ?s1 = unsent cfg s"
    proof -
      have "?e + ?x - ?p = room + (?e + ?x - (?p + room))" using n by simp
      then show ?thesis by (simp add: unsent_def take_add add.commute)
    qed
    moreover have "sending cfg ?s1" using assms n by (auto simp: sending_def)
    moreover have "length (take room (drop ?p ?b)) = room" using n s by simp
    ultimately show ?thesis using False copy n by (simp add: tx_step_def)
  qed
qed

text \<open>C39. Whatever levels the interrupts find, the bytes of the message leave in order and each once, never
  beyond its end, in both conventions for the pointer to the end; the message is complete as soon as the
  interrupts have found enough room, and only an acknowledgement is reset when it has been sent.\<close>

theorem tx_message_once:
  assumes "sending cfg s" "list_all (\<lambda>l. l \<le> SPITFP_TX_SIZE cfg) levels"
  shows "\<exists>out complete s1. tx_interrupts cfg levels s = Some (out, complete, s1) \<and>
    (if complete then out = unsent cfg s \<and> buffer_send_pointer_end s1 =
         (if buffer_send_pointer_end s = buffer_send_pointer_protocol_overhead_end cfg then 0 else buffer_send_pointer_end s)
     else out @ unsent cfg s1 = unsent cfg s \<and> length out = sum_list (map (\<lambda>l. SPITFP_TX_SIZE cfg - l) levels)) \<and>
    (complete \<longleftrightarrow> buffer_send_pointer_end s - buffer_send_pointer s \<le> sum_list (map (\<lambda>l. SPITFP_TX_SIZE cfg - l) levels))"
  using assms
proof (induction levels arbitrary: s)
  case Nil
  then show ?case
    by (intro exI[of _ "[]"] exI[of _ False] exI[of _ s]) (auto simp: sending_def)
next
  case (Cons level levels)
  let ?room = "SPITFP_TX_SIZE cfg - level"
  have step: "SPITFP_IRQ_TX_HANDLER cfg level s = tx_step cfg ?room s" using Cons(2,3) by (intro tx_handler_step) auto
  show ?case
  proof (cases "buffer_send_pointer_end s - buffer_send_pointer s \<le> ?room")
    case True
    then show ?thesis using tx_step_unsent[OF Cons(2), of ?room] step by fastforce
  next
    case False
    then obtain out s1 where 1: "tx_step cfg ?room s = Some (out, s1)" "out @ unsent cfg s1 = unsent cfg s" "length out = ?room"
      "sending cfg s1" "buffer_send_pointer_end s1 = buffer_send_pointer_end s"
      "buffer_send_pointer s1 = buffer_send_pointer s + ?room"
      using tx_step_unsent[OF Cons(2), of ?room] by auto
    obtain out2 complete s2 where 2: "tx_interrupts cfg levels s1 = Some (out2, complete, s2)"
      "if complete then out2 = unsent cfg s1 \<and> buffer_send_pointer_end s2 =
         (if buffer_send_pointer_end s1 = buffer_send_pointer_protocol_overhead_end cfg then 0 else buffer_send_pointer_end s1)
       else out2 @ unsent cfg s2 = unsent cfg s1 \<and> length out2 = sum_list (map (\<lambda>l. SPITFP_TX_SIZE cfg - l) levels)"
      "complete \<longleftrightarrow> buffer_send_pointer_end s1 - buffer_send_pointer s1 \<le> sum_list (map (\<lambda>l. SPITFP_TX_SIZE cfg - l) levels)"
      using Cons(1)[OF 1(4)] Cons(3) by auto
    have "buffer_send_pointer s1 \<noteq> buffer_send_pointer_end s" using 1(4,5) by (simp add: sending_def)
    then have run: "tx_interrupts cfg (level # levels) s = Some (out @ out2, complete, s2)" using step 1(1) 2(1) by simp
    have room: "buffer_send_pointer_end s1 - buffer_send_pointer s1 \<le> n \<longleftrightarrow>
        buffer_send_pointer_end s - buffer_send_pointer s \<le> ?room + n" for n
      using 1(5,6) by auto
    show ?thesis using run 1(2,3,5) 2(2,3) room by (cases complete) (auto simp flip: 1(2))
  qed
qed

lemma tx_message_once_witness:
  "\<exists>s1. tx_interrupts (fst (demo_spitfp True)) [0, 1] (snd (demo_spitfp True)) = Some ([7, 8, 9], True, s1) \<and>
    buffer_send_pointer_end s1 = 0"
proof -
  have "sending (fst (demo_spitfp True)) (snd (demo_spitfp True))" by (simp add: sending_def demo_spitfp_def)
  moreover have "unsent (fst (demo_spitfp True)) (snd (demo_spitfp True)) = [7, 8, 9]"
    by (simp add: unsent_def demo_spitfp_def)
  ultimately show ?thesis using tx_message_once[of "fst (demo_spitfp True)" "snd (demo_spitfp True)" "[0, 1]"]
    by (auto simp: demo_spitfp_def buffer_send_pointer_protocol_overhead_end_def SPITFP_PROTOCOL_OVERHEAD_def)
qed

end
