(* ===== verification/Coop_Task.thy ===== *)
theory Coop_Task
  imports System_Timer
begin

text \<open>
  Cooperative tasks (\<^verbatim>\<open>os/coop_task.c\<close>, \<^verbatim>\<open>os/coop_task.h\<close>) and the switch between them
  (\<^verbatim>\<open>os/coop_task_pendsv_handler.S\<close>): registers of the processor, and a memory of words. What the
  processor itself stores and loads around the handler is the frame that the handler's comments draw, aligned
  to eight bytes as the architecture (ARMv6-M) does.
\<close>

section \<open>Processor\<close>

type_synonym mem = "u32 \<Rightarrow> u32"

record registers =
  r0 :: u32
  r1 :: u32
  r2 :: u32
  r3 :: u32
  r4 :: u32
  r5 :: u32
  r6 :: u32
  r7 :: u32
  r8 :: u32
  r9 :: u32
  r10 :: u32
  r11 :: u32
  r12 :: u32
  sp :: u32
  lr :: u32
  pc :: u32
  psr :: u32

fun store_words :: "mem \<Rightarrow> u32 \<Rightarrow> u32 list \<Rightarrow> mem" where
  "store_words m a [] = m"
| "store_words m a (w # ws) = store_words (m(a := w)) (a + 4) ws"

definition align_8 :: "u32 \<Rightarrow> u32" where "align_8 x = x AND NOT 4"

definition nvic_enter :: "registers \<Rightarrow> mem \<Rightarrow> registers \<times> mem" where
  "nvic_enter c m =
     (let frame = align_8 (sp c - 32) in
      (c \<lparr> sp := frame, lr := 0xFFFFFFF9 \<rparr>,
       store_words m frame [r0 c, r1 c, r2 c, r3 c, r12 c, lr c, pc c,
         (psr c AND NOT 0x200) OR (if sp c AND 4 \<noteq> 0 then 0x200 else 0)]))"

definition nvic_return :: "registers \<Rightarrow> mem \<Rightarrow> registers" where
  "nvic_return c m =
     (let f = sp c; status = m (f + 28) in
      c \<lparr> r0 := m f, r1 := m (f + 4), r2 := m (f + 8), r3 := m (f + 12), r12 := m (f + 16), lr := m (f + 20),
        pc := m (f + 24), psr := status AND NOT 0x200,
        sp := (f + 32) OR (if status AND 0x200 \<noteq> 0 then 4 else 0) \<rparr>)"

section \<open>Tasks\<close>

record system =
  cpu :: registers
  memory :: mem
  task_current :: u32
  task_next :: u32

text \<open>The stack size, the byte the stacks are filled with, whether the low watermark is kept, and the
  addresses of the main task's stack pointer and of the function a task returns to.\<close>

record task_config =
  stack_size :: u32
  stack_fill :: u8
  watermark :: bool
  main_slot :: u32
  default_return :: u32

text \<open>A task starts with its stack pointer; the stack is aligned to eight bytes, the frame follows it, then
  come the function and the watermark.\<close>

definition task_stack :: "u32 \<Rightarrow> u32" where "task_stack t = t + 8"
definition task_frame :: "task_config \<Rightarrow> u32 \<Rightarrow> u32" where "task_frame k t = task_stack t + stack_size k"
definition task_function :: "task_config \<Rightarrow> u32 \<Rightarrow> u32" where "task_function k t = task_frame k t + 64"
definition task_low_watermark :: "task_config \<Rightarrow> u32 \<Rightarrow> u32" where "task_low_watermark k t = task_function k t + 4"

text \<open>The handler, instruction by instruction: saving into the current task, loading from the next. The values
  of the two pointers are arguments; r2, which only holds their addresses, is loaded from the frame at the end.\<close>

definition PendSV_save :: "u32 \<Rightarrow> registers \<Rightarrow> mem \<Rightarrow> registers \<times> mem" where
  "PendSV_save current_ptr c m =
     (let c = c \<lparr> r0 := sp c \<rparr>;
          c = c \<lparr> r0 := r0 c - 16 \<rparr>;
          m = store_words m (r0 c) [r4 c, r5 c, r6 c, r7 c]; c = c \<lparr> r0 := r0 c + 16 \<rparr>;
          c = c \<lparr> r4 := r8 c \<rparr>;
          c = c \<lparr> r5 := r9 c \<rparr>;
          c = c \<lparr> r6 := r10 c \<rparr>;
          c = c \<lparr> r7 := r11 c \<rparr>;
          c = c \<lparr> r0 := r0 c - 32 \<rparr>;
          m = store_words m (r0 c) [r4 c, r5 c, r6 c, r7 c]; c = c \<lparr> r0 := r0 c + 16 \<rparr>;
          c = c \<lparr> r0 := r0 c - 16 \<rparr>;
          c = c \<lparr> r1 := current_ptr \<rparr>;
          m = m(r1 c := r0 c)
      in (c, m))"

definition PendSV_load :: "u32 \<Rightarrow> registers \<Rightarrow> mem \<Rightarrow> registers" where
  "PendSV_load next_ptr c m =
     (let c = c \<lparr> r1 := next_ptr \<rparr>;
          c = c \<lparr> r0 := m (r1 c) \<rparr>;
          c = c \<lparr> r4 := m (r0 c), r5 := m (r0 c + 4), r6 := m (r0 c + 8), r7 := m (r0 c + 12) \<rparr>;
          c = c \<lparr> r0 := r0 c + 16 \<rparr>;
          c = c \<lparr> r8 := r4 c \<rparr>;
          c = c \<lparr> r9 := r5 c \<rparr>;
          c = c \<lparr> r10 := r6 c \<rparr>;
          c = c \<lparr> r11 := r7 c \<rparr>;
          c = c \<lparr> r4 := m (r0 c), r5 := m (r0 c + 4), r6 := m (r0 c + 8), r7 := m (r0 c + 12) \<rparr>;
          c = c \<lparr> r0 := r0 c + 16 \<rparr>;
          c = c \<lparr> sp := r0 c \<rparr>
      in c \<lparr> r0 := 0xFFFFFFF9 \<rparr>)"

definition PendSV_Handler :: "u32 \<Rightarrow> u32 \<Rightarrow> registers \<Rightarrow> mem \<Rightarrow> registers \<times> mem" where
  "PendSV_Handler current_ptr next_ptr c m =
     (let (c, m) = PendSV_save current_ptr c m in (PendSV_load next_ptr c m, m))"

text \<open>Setting the pending bit makes the processor take the exception at once.\<close>

definition pendsv :: "system \<Rightarrow> system" where
  "pendsv s =
     (let (c, m) = nvic_enter (cpu s) (memory s);
          (c, m) = PendSV_Handler (task_current s) (task_next s) c m
      in s \<lparr> cpu := nvic_return c m, memory := m \<rparr>)"

definition coop_task_yield :: "task_config \<Rightarrow> system \<Rightarrow> system" where
  "coop_task_yield k s = pendsv (s \<lparr> task_current := task_next s, task_next := main_slot k \<rparr>)"

definition coop_task_tick :: "task_config \<Rightarrow> u32 \<Rightarrow> system \<Rightarrow> system" where
  "coop_task_tick k t s =
     (let free = memory s t - task_stack t; low = task_low_watermark k t;
          s1 = (if watermark k \<and> free < memory s low then s \<lparr> memory := (memory s)(low := free) \<rparr> else s)
      in pendsv (s1 \<lparr> task_current := main_slot k, task_next := t \<rparr>))"

definition coop_task_init :: "task_config \<Rightarrow> u32 \<Rightarrow> u32 \<Rightarrow> mem \<Rightarrow> mem" where
  "coop_task_init k t function m =
     (let m1 = m(task_function k t := function);
          m2 = store_words m1 t (replicate (unat (stack_size k) div 4 + 18) (ucast (stack_fill k) * 0x01010101));
          m3 = m2(t := task_stack t + stack_size k); f = task_frame k t;
          m4 = m3(f + 32 := 0xfffffff0, f + 36 := 0xfffffff1, f + 40 := 0xfffffff2, f + 44 := 0xfffffff3,
            f + 16 := 0xfffffff4, f + 20 := 0xfffffff5, f + 24 := 0xfffffff6, f + 28 := 0xfffffff7,
            f := 0xfffffff8, f + 4 := 0xfffffff9, f + 8 := 0xfffffffa, f + 12 := 0xfffffffb,
            f + 48 := 0xfffffffc, f + 52 := default_return k);
          m5 = m4(f + 56 := m4 (task_function k t)); m6 = m5(f + 60 := 0x21000000)
      in if watermark k then m6(task_low_watermark k t := stack_size k) else m6)"

text \<open>A sleeping task gives the processor back until its time is over. The argument says what the system is
  when the task gets it again the nth time.\<close>

partial_function (option) coop_sleep_loop ::
  "(nat \<Rightarrow> u32) \<Rightarrow> (nat \<Rightarrow> system \<Rightarrow> system) \<Rightarrow> u32 \<Rightarrow> u32 \<Rightarrow> nat \<Rightarrow> system \<Rightarrow> system option" where
  "coop_sleep_loop clock others time sleep n s =
     (if system_timer_is_time_elapsed_ms (clock n) time sleep then Some s
      else coop_sleep_loop clock others time sleep (n + 1) (others n s))"

definition coop_task_sleep_ms :: "(nat \<Rightarrow> u32) \<Rightarrow> (nat \<Rightarrow> system \<Rightarrow> system) \<Rightarrow> u32 \<Rightarrow> system \<Rightarrow> system option" where
  "coop_task_sleep_ms clock others sleep s =
     (let time = system_timer_get_ms (clock 0) in coop_sleep_loop clock others time sleep 1 s)"

lemma coop_sleep_loop_ends:
  assumes "\<And>i. i < k \<Longrightarrow> \<not> system_timer_is_time_elapsed_ms (clock (n + i)) time sleep"
    "system_timer_is_time_elapsed_ms (clock (n + k)) time sleep"
  shows "coop_sleep_loop clock others time sleep n s = Some (fold others [n..<n + k] s)"
  using assms
proof (induction k arbitrary: n s)
  case 0
  then show ?case by (subst coop_sleep_loop.simps) simp
next
  case (Suc k)
  have "coop_sleep_loop clock others time sleep (n + 1) (others n s) = Some (fold others [n + 1..<n + 1 + k] (others n s))"
    using Suc.prems(1)[of "Suc i" for i] Suc.prems(2) by (intro Suc.IH) simp_all
  moreover have "\<not> system_timer_is_time_elapsed_ms (clock n) time sleep" using Suc.prems(1)[of 0] by simp
  ultimately show ?case by (subst coop_sleep_loop.simps) (simp add: upt_conv_Cons del: upt_Suc)
qed

section \<open>Saved contexts\<close>

definition stack_top :: "registers \<Rightarrow> u32" where
  "stack_top c = align_8 (sp c - 32) - 32"

definition frame_words :: "registers \<Rightarrow> u32 list" where
  "frame_words c = [r8 c, r9 c, r10 c, r11 c, r4 c, r5 c, r6 c, r7 c, r0 c, r1 c, r2 c, r3 c, r12 c, lr c, pc c,
     (psr c AND NOT 0x200) OR (if sp c AND 4 \<noteq> 0 then 0x200 else 0)]"

definition frame_at :: "u32 \<Rightarrow> u32 set" where
  "frame_at p = {p, p + 4, p + 8, p + 12, p + 16, p + 20, p + 24, p + 28, p + 32, p + 36, p + 40, p + 44, p + 48,
     p + 52, p + 56, p + 60}"

definition loaded :: "mem \<Rightarrow> u32 \<Rightarrow> u32 list" where
  "loaded m p = [m p, m (p + 4), m (p + 8), m (p + 12), m (p + 16), m (p + 20), m (p + 24), m (p + 28), m (p + 32),
     m (p + 36), m (p + 40), m (p + 44), m (p + 48), m (p + 52), m (p + 56), m (p + 60)]"

definition saved :: "mem \<Rightarrow> u32 \<Rightarrow> registers \<Rightarrow> bool" where
  "saved m slot c \<longleftrightarrow> m slot = stack_top c \<and> loaded m (stack_top c) = frame_words c"

text \<open>Bit 9 of the status register is reserved for the frames.\<close>

definition context_ok :: "registers \<Rightarrow> bool" where
  "context_ok c \<longleftrightarrow> psr c AND 0x200 = 0"

lemma and_bit: "x AND push_bit k 1 = push_bit k (of_bool (bit x k) :: u32)"
  by (rule bit_eqI) (auto simp: bit_simps)

lemma and_4: "x AND 4 = (if bit x 2 then 4 else (0 :: u32))"
  using and_bit[of x 2] by simp

lemma and_not_parts: "(x AND NOT y) OR (x AND y) = (x :: u32)" "(x AND NOT y) AND (x AND y) = 0"
  by (auto intro!: bit_eqI simp: bit_simps)

lemma align_8_split: "align_8 x + (x AND 4) = x" "align_8 x OR (x AND 4) = x"
  unfolding align_8_def by (simp_all only: disjunctive_add_eq_or and_not_parts)

lemma bit_2_sub_32: "bit (x - 32) 2 = bit (x :: u32) 2"
proof -
  have "take_bit 5 (uint (x - 32)) = take_bit 5 (uint x)"
    by (simp add: uint_word_ariths take_bit_eq_mod mod_mod_cancel)
  then have "bit (take_bit 5 (uint (x - 32))) 2 = bit (take_bit 5 (uint x)) 2" by simp
  then show ?thesis by (simp add: bit_take_bit_iff bit_uint_iff)
qed

lemma align_8_sub_32: "align_8 (x - 32) + 32 = align_8 x"
proof -
  have "(x - 32) AND 4 = x AND 4" by (simp add: and_4 bit_2_sub_32)
  then have "align_8 (x - 32) = x - 32 - (x AND 4)" using align_8_split(1)[of "x - 32"] by (metis add_diff_cancel_right')
  moreover have "align_8 x = x - (x AND 4)" using align_8_split(1)[of x] by (metis add_diff_cancel_right')
  ultimately show ?thesis by simp
qed

lemma align_8_restore: "(align_8 (x - 32) + 32) OR (if x AND 4 \<noteq> 0 then 4 else 0) = x"
  using align_8_split(2)[of x] by (auto simp: align_8_sub_32 and_4)


section \<open>A switch\<close>

lemma stack_top_plus: "align_8 (sp c - 32) = stack_top c + 32"
  by (simp add: stack_top_def)

lemma numeral_plus: "numeral n + p = p + (numeral n :: u32)"
  by (rule add.commute)

lemma save_result:
  assumes "nvic_enter c m = (c1, m1)" "PendSV_save slot c1 m1 = (c2, m2)" "slot \<notin> frame_at (stack_top c)"
  shows "saved m2 slot c" and "a \<notin> frame_at (stack_top c) \<Longrightarrow> a \<noteq> slot \<Longrightarrow> m2 a = m a"
proof -
  note defs = nvic_enter_def PendSV_save_def Let_def stack_top_plus saved_def loaded_def frame_words_def frame_at_def
  show "saved m2 slot c" using assms by (clarsimp simp: defs numeral_plus)
  show "a \<notin> frame_at (stack_top c) \<Longrightarrow> a \<noteq> slot \<Longrightarrow> m2 a = m a"
    using assms by (clarsimp simp: defs numeral_plus)
qed

lemma and_not_or: "y \<noteq> 0 \<Longrightarrow> x AND y = 0 \<Longrightarrow>
    ((x AND NOT y) OR (if b then y else 0)) AND NOT y = x \<and> (((x AND NOT y) OR (if b then y else 0)) AND y \<noteq> 0 \<longleftrightarrow> b)"
  for x y :: u32
  by (auto simp: bit_eq_iff bit_simps)

lemma frame_status:
  assumes "psr c AND 0x200 = 0"
  shows "((psr c AND NOT 0x200) OR (if b then 0x200 else 0)) AND NOT 0x200 = psr c"
    and "((psr c AND NOT 0x200) OR (if b then 0x200 else 0)) AND 0x200 \<noteq> 0 \<longleftrightarrow> b"
  using and_not_or[of "0x200" "psr c" b] assms by simp_all

lemma load_result:
  assumes "saved m slot c" "context_ok c"
  shows "nvic_return (PendSV_load slot c1 m) m = c"
proof -
  note words = assms(1)[unfolded saved_def loaded_def frame_words_def list.inject]
  have status: "m (stack_top c + 60) AND NOT 0x200 = psr c" "m (stack_top c + 60) AND 0x200 \<noteq> 0 \<longleftrightarrow> sp c AND 4 \<noteq> 0"
    using words frame_status[OF assms(2)[unfolded context_ok_def]] by simp_all
  have restored: "(stack_top c + 64) OR (if m (stack_top c + 60) AND 0x200 \<noteq> 0 then 4 else 0) = sp c"
    unfolding status(2) using align_8_restore[of "sp c"] by (auto simp: stack_top_plus algebra_simps)
  note slot = conjunct1[OF words]
  show ?thesis
    using words status(1) restored
    by (intro registers.equality) (simp_all add: nvic_return_def PendSV_load_def Let_def numeral_plus slot)
qed

lemma pendsv_switches:
  assumes "saved (memory s) (task_next s) c" "context_ok c"
    and "task_current s \<notin> frame_at (stack_top (cpu s))"
    and "task_next s \<notin> frame_at (stack_top (cpu s))" "task_next s \<noteq> task_current s"
    and "frame_at (stack_top c) \<inter> insert (task_current s) (frame_at (stack_top (cpu s))) = {}"
  shows "cpu (pendsv s) = c" "saved (memory (pendsv s)) (task_current s) (cpu s)"
    "a \<notin> frame_at (stack_top (cpu s)) \<Longrightarrow> a \<noteq> task_current s \<Longrightarrow> memory (pendsv s) a = memory s a"
    "task_next (pendsv s) = task_next s"
proof -
  obtain c1 m1 where enter: "nvic_enter (cpu s) (memory s) = (c1, m1)" by fastforce
  obtain c2 m2 where save: "PendSV_save (task_current s) c1 m1 = (c2, m2)" by fastforce
  note result = save_result[OF enter save assms(3)]
  have s1: "pendsv s = s \<lparr> cpu := nvic_return (PendSV_load (task_next s) c2 m2) m2, memory := m2 \<rparr>"
    by (simp add: pendsv_def enter save PendSV_Handler_def)
  have kept: "m2 a = memory s a" if "a \<in> insert (task_next s) (frame_at (stack_top c))" for a
    using that assms(4-6) by (intro result(2)) auto
  have "saved m2 (task_next s) c"
    using assms(1) kept by (simp add: saved_def loaded_def frame_at_def)
  from load_result[OF this assms(2)] show "cpu (pendsv s) = c" by (simp add: s1)
  show "saved (memory (pendsv s)) (task_current s) (cpu s)" using result(1) by (simp add: s1)
  show "a \<notin> frame_at (stack_top (cpu s)) \<Longrightarrow> a \<noteq> task_current s \<Longrightarrow> memory (pendsv s) a = memory s a"
    using result(2) by (simp add: s1)
  show "task_next (pendsv s) = task_next s" by (simp add: s1)
qed

lemma saved_cong: "m' slot = m slot \<Longrightarrow> (\<And>a. a \<in> frame_at (stack_top c) \<Longrightarrow> m' a = m a) \<Longrightarrow> saved m' slot c = saved m slot c"
  by (simp add: saved_def loaded_def frame_at_def)

section \<open>Runs of cooperating tasks\<close>

text \<open>What happens in a run: the code of the running task changes its registers and the memory, the main task
  lets another task run, a task gives the processor back. The first only happens within bounds: a task keeps its
  stack within its own area, with the room for a frame, and changes neither the saved stack pointers nor the saved
  frames of others.\<close>

datatype event = Run registers mem | Tick u32 | Yield

definition slots :: "task_config \<Rightarrow> u32 set \<Rightarrow> u32 set" where
  "slots k T = insert (main_slot k) T"

definition within_bounds :: "task_config \<Rightarrow> (u32 \<Rightarrow> u32 set) \<Rightarrow> u32 set \<Rightarrow> u32 \<Rightarrow> mem \<Rightarrow> registers \<Rightarrow> mem \<Rightarrow> bool" where
  "within_bounds k area T r m c m' \<longleftrightarrow> context_ok c \<and> frame_at (stack_top c) \<subseteq> area r \<and>
     (\<forall>slot \<in> slots k T - {r}. m' slot = m slot \<and> (\<forall>a \<in> frame_at (m slot). m' a = m a))"

inductive coop_run :: "task_config \<Rightarrow> (u32 \<Rightarrow> u32 set) \<Rightarrow> u32 set \<Rightarrow> u32 \<Rightarrow> system \<Rightarrow> event list \<Rightarrow> u32 \<Rightarrow> system \<Rightarrow> bool"
  for k area T where
  start: "coop_run k area T r s [] r s"
| run: "coop_run k area T r (s \<lparr> cpu := c, memory := m \<rparr>) es q s2 \<Longrightarrow>
    within_bounds k area T r (memory s) c m \<Longrightarrow> coop_run k area T r s (Run c m # es) q s2"
| tick: "coop_run k area T t (coop_task_tick k t s) es q s2 \<Longrightarrow> t \<in> T \<Longrightarrow>
    coop_run k area T (main_slot k) s (Tick t # es) q s2"
| yield: "coop_run k area T (main_slot k) (coop_task_yield k s) es q s2 \<Longrightarrow> r \<in> T \<Longrightarrow>
    coop_run k area T r s (Yield # es) q s2"

text \<open>The specification: every task has its registers to itself.\<close>

fun spec_step :: "u32 \<Rightarrow> event \<Rightarrow> u32 \<times> (u32 \<Rightarrow> registers) \<Rightarrow> u32 \<times> (u32 \<Rightarrow> registers)" where
  "spec_step main (Run c m) (r, contexts) = (r, contexts(r := c))"
| "spec_step main (Tick t) (r, contexts) = (t, contexts)"
| "spec_step main Yield (r, contexts) = (main, contexts)"

definition layout :: "task_config \<Rightarrow> (u32 \<Rightarrow> u32 set) \<Rightarrow> u32 set \<Rightarrow> bool" where
  "layout k area T \<longleftrightarrow> main_slot k \<notin> T \<and>
     (\<forall>x \<in> slots k T. \<forall>y \<in> slots k T. x \<notin> area y \<and> (x \<noteq> y \<longrightarrow> area x \<inter> area y = {})) \<and>
     (\<forall>t \<in> T. \<forall>x \<in> slots k T. task_low_watermark k t \<noteq> x \<and> task_low_watermark k t \<notin> area x)"

definition consistent :: "task_config \<Rightarrow> (u32 \<Rightarrow> u32 set) \<Rightarrow> u32 set \<Rightarrow> u32 \<Rightarrow> system \<Rightarrow> (u32 \<Rightarrow> registers) \<Rightarrow> bool" where
  "consistent k area T r s contexts \<longleftrightarrow> r \<in> slots k T \<and> cpu s = contexts r \<and>
     (\<forall>slot \<in> slots k T. context_ok (contexts slot) \<and> frame_at (stack_top (contexts slot)) \<subseteq> area slot) \<and>
     (\<forall>slot \<in> slots k T - {r}. saved (memory s) slot (contexts slot)) \<and> (r \<noteq> main_slot k \<longrightarrow> task_next s = r)"

lemma consistent_switch:
  assumes "layout k area T" "consistent k area T r s contexts" "q \<in> slots k T" "q \<noteq> r"
    and "q \<noteq> main_slot k \<longrightarrow> r = main_slot k"
  shows "consistent k area T q (pendsv (s \<lparr> task_current := r, task_next := q \<rparr>)) contexts"
proof -
  let ?s = "s \<lparr> task_current := r, task_next := q \<rparr>"
  have apart: "x \<notin> area y" "x \<noteq> y \<Longrightarrow> area x \<inter> area y = {}" if "x \<in> slots k T" "y \<in> slots k T" for x y
    using assms(1) that by (auto simp: layout_def)
  have r: "r \<in> slots k T" "cpu s = contexts r" using assms(2) by (auto simp: consistent_def)
  have frames: "frame_at (stack_top (contexts x)) \<subseteq> area x" and ok: "context_ok (contexts x)"
    and saved: "x \<noteq> r \<Longrightarrow> saved (memory s) x (contexts x)" if "x \<in> slots k T" for x
    using assms(2) that by (auto simp: consistent_def)
  have "saved (memory ?s) (task_next ?s) (contexts q)" "task_current ?s \<notin> frame_at (stack_top (cpu ?s))"
    "task_next ?s \<notin> frame_at (stack_top (cpu ?s))" "task_next ?s \<noteq> task_current ?s"
    "frame_at (stack_top (contexts q)) \<inter> insert (task_current ?s) (frame_at (stack_top (cpu ?s))) = {}"
    using saved[OF assms(3)] assms(3,4) r frames[OF r(1)] frames[OF assms(3)] apart[OF r(1) r(1)] apart[OF assms(3) r(1)]
      apart[OF r(1) assms(3)] by auto
  note switch = pendsv_switches[OF this(1) ok[OF assms(3)] this(2-5)]
  have "saved (memory (pendsv ?s)) x (contexts x)" if x: "x \<in> slots k T" "x \<noteq> q" for x
  proof (cases "x = r")
    case True
    then show ?thesis using switch(2) r(2) by simp
  next
    case False
    have "memory (pendsv ?s) a = memory ?s a" if "a \<in> insert x (frame_at (stack_top (contexts x)))" for a
      using that False r frames[OF r(1)] frames[OF x(1)] apart[OF x(1) r(1)] apart[OF r(1) x(1)]
      by (intro switch(3)) auto
    then have "saved (memory (pendsv ?s)) x (contexts x) = saved (memory s) x (contexts x)"
      by (intro saved_cong) simp_all
    then show ?thesis using saved[OF x(1) False] by simp
  qed
  then show ?thesis
    using assms(3) frames ok switch(1,4) by (auto simp: consistent_def)
qed

lemma consistent_run:
  assumes "within_bounds k area T r (memory s) c m" "consistent k area T r s contexts"
  shows "consistent k area T r (s \<lparr> cpu := c, memory := m \<rparr>) (contexts(r := c))"
proof -
  have "saved m x (contexts x)" if x: "x \<in> slots k T" "x \<noteq> r" for x
  proof -
    have old: "saved (memory s) x (contexts x)" using assms(2) x by (auto simp: consistent_def)
    then have "memory s x = stack_top (contexts x)" by (simp add: saved_def)
    then have "m x = memory s x" "\<And>a. a \<in> frame_at (stack_top (contexts x)) \<Longrightarrow> m a = memory s a"
      using assms(1) x by (auto simp: within_bounds_def)
    then show ?thesis using old saved_cong[of m x "memory s" "contexts x"] by simp
  qed
  then show ?thesis using assms by (auto simp: consistent_def within_bounds_def)
qed

lemma consistent_tick:
  assumes "layout k area T" "consistent k area T (main_slot k) s contexts" "t \<in> T"
  shows "consistent k area T t (coop_task_tick k t s) contexts"
proof -
  define s1 where "s1 = (if watermark k \<and> memory s t - task_stack t < memory s (task_low_watermark k t)
    then s \<lparr> memory := (memory s)(task_low_watermark k t := memory s t - task_stack t) \<rparr> else s)"
  have "saved (memory s1) x (contexts x)" if x: "x \<in> slots k T" "x \<noteq> main_slot k" for x
  proof -
    have "saved (memory s) x (contexts x)" "frame_at (stack_top (contexts x)) \<subseteq> area x"
      using assms(2) x by (auto simp: consistent_def)
    moreover have "task_low_watermark k t \<noteq> x" "task_low_watermark k t \<notin> area x"
      using assms(1,3) x by (auto simp: layout_def)
    moreover from calculation have "saved (memory s1) x (contexts x) = saved (memory s) x (contexts x)"
      by (intro saved_cong) (auto simp: s1_def)
    ultimately show ?thesis by simp
  qed
  then have c: "consistent k area T (main_slot k) s1 contexts"
    using assms(2) by (auto simp: consistent_def s1_def)
  have "t \<noteq> main_slot k" "t \<in> slots k T" using assms(1,3) by (auto simp: layout_def slots_def)
  from consistent_switch[OF assms(1) c this(2,1)] show ?thesis
    by (simp add: coop_task_tick_def s1_def Let_def)
qed

lemma consistent_yield:
  assumes "layout k area T" "consistent k area T r s contexts" "r \<in> T"
  shows "consistent k area T (main_slot k) (coop_task_yield k s) contexts"
proof -
  have "main_slot k \<noteq> r" "main_slot k \<in> slots k T" using assms(1,3) by (auto simp: layout_def slots_def)
  then have "task_next s = r" using assms(2) by (simp add: consistent_def)
  with consistent_switch[OF assms(1,2) \<open>main_slot k \<in> slots k T\<close> \<open>main_slot k \<noteq> r\<close>] show ?thesis
    by (simp add: coop_task_yield_def)
qed

lemma coop_run_consistent:
  "coop_run k area T r s es q s2 \<Longrightarrow> layout k area T \<Longrightarrow> consistent k area T r s contexts \<Longrightarrow>
   fold (spec_step (main_slot k)) es (r, contexts) = (q', contexts2) \<Longrightarrow> q' = q \<and> consistent k area T q s2 contexts2"
proof (induction arbitrary: contexts rule: coop_run.induct)
  case (run r s c m es q s2)
  show ?case using run(3)[OF run(4) consistent_run[OF run(2,5)]] run(6) by (simp add: fun_upd_def)
next
  case (tick t s es q s2)
  show ?case using tick(3)[OF tick(4) consistent_tick[OF tick(4,5,2)]] tick(6) by simp
next
  case (yield s es q s2 r)
  show ?case using yield(3)[OF yield(4) consistent_yield[OF yield(4,5,2)]] yield(6) by simp
qed simp

section \<open>The start of a task\<close>

definition initial_context :: "task_config \<Rightarrow> u32 \<Rightarrow> u32 \<Rightarrow> registers" where
  "initial_context k t function = \<lparr> r0 = 0xfffffff0, r1 = 0xfffffff1, r2 = 0xfffffff2, r3 = 0xfffffff3,
     r4 = 0xfffffff4, r5 = 0xfffffff5, r6 = 0xfffffff6, r7 = 0xfffffff7, r8 = 0xfffffff8, r9 = 0xfffffff9,
     r10 = 0xfffffffa, r11 = 0xfffffffb, r12 = 0xfffffffc, sp = task_function k t, lr = default_return k,
     pc = function, psr = 0x21000000 \<rparr>"

lemma unat_4: "unat (4 :: u32) = 4"
  by simp

lemma store_words_other:
  "4 * length ws \<le> unat (b - a) \<Longrightarrow> store_words m a ws b = m b"
proof (induction ws arbitrary: m a)
  case (Cons w ws)
  have "4 \<le> unat (b - a)" using Cons(2) by simp
  then have less: "unat (b - (a + 4)) = unat (b - a) - 4"
    using unat_sub[of 4 "b - a"] by (simp add: word_le_nat_alt unat_4 diff_diff_add)
  have "store_words (m(a := w)) (a + 4) ws b = (m(a := w)) b" using Cons(2) less by (intro Cons(1)) simp
  moreover have "b \<noteq> a" using Cons(2) by auto
  ultimately show ?case by simp
qed simp

lemma unat_task_object:
  assumes "unat (stack_size k) < 2 ^ 31" "d < 2 ^ 30"
  shows "unat (task_frame k t + of_nat d - t) = unat (stack_size k) + 8 + d"
proof -
  have e: "task_frame k t + of_nat d - t = of_nat (unat (stack_size k) + 8 + d)"
    by (simp add: task_frame_def task_stack_def)
  have "unat (stack_size k) + 8 + d < 2 ^ 32" using assms by simp
  then show ?thesis unfolding e unat_of_nat take_bit_nat_def by (intro mod_less) simp
qed

lemma stack_top_initial:
  assumes "task_frame k t AND 4 = 0"
  shows "stack_top (initial_context k t function) = task_frame k t" "sp (initial_context k t function) AND 4 = 0"
proof -
  let ?f = "task_frame k t"
  have "(?f + 32) AND 4 = ?f AND 4" using bit_2_sub_32[of "?f + 32"] by (simp add: and_4)
  moreover have "(?f + 64) AND 4 = (?f + 32) AND 4" using bit_2_sub_32[of "?f + 64"] by (simp add: and_4 numeral_plus)
  ultimately have zero: "(?f + 32) AND 4 = 0" "(?f + 64) AND 4 = 0" using assms by simp_all
  then show "sp (initial_context k t function) AND 4 = 0" by (simp add: initial_context_def task_function_def)
  have "align_8 (?f + 32) = ?f + 32" using align_8_split(1)[of "?f + 32"] zero(1) by simp
  then show "stack_top (initial_context k t function) = ?f"
    by (simp add: stack_top_def initial_context_def task_function_def numeral_plus)
qed

lemma frame_at_iff: "a \<in> frame_at p \<longleftrightarrow> (\<exists>i<16. a = p + of_nat (4 * i))"
proof -
  have "frame_at p = (\<lambda>i. p + of_nat (4 * i)) ` set [0..<16]" by (simp add: frame_at_def upt_rec)
  then show ?thesis by auto
qed

text \<open>What the start of a task writes is its own object; the frame it writes is that of its initial context.\<close>

lemma coop_task_init_other:
  assumes "unat (stack_size k) < 2 ^ 31" "unat (stack_size k) + 80 \<le> unat (a - t)"
  shows "coop_task_init k t function m a = m a"
proof -
  have inside: "a \<noteq> task_frame k t + of_nat d" if "d \<le> 68" for d
    using unat_task_object[OF assms(1), of d t] that assms(2) by auto
  have "a \<noteq> t" using assms(2) by auto
  moreover have "4 * (unat (stack_size k) div 4 + 18) \<le> unat (a - t)"
    using assms(2) div_times_less_eq_dividend[of "unat (stack_size k)" 4] by simp
  moreover have "a \<noteq> task_frame k t" "a \<noteq> task_function k t" "a \<noteq> task_low_watermark k t"
    using inside[of 0] inside[of 64] inside[of 68] by (simp_all add: task_function_def task_low_watermark_def numeral_plus)
  ultimately show ?thesis
    using inside[of 4] inside[of 8] inside[of 12] inside[of 16] inside[of 20] inside[of 24] inside[of 28] inside[of 32]
      inside[of 36] inside[of 40] inside[of 44] inside[of 48] inside[of 52] inside[of 56] inside[of 60]
    by (simp add: coop_task_init_def Let_def store_words_other)
qed

lemma coop_task_init_saves:
  assumes "unat (stack_size k) < 2 ^ 31" "task_frame k t AND 4 = 0"
  shows "saved (coop_task_init k t function m) t (initial_context k t function)"
proof -
  have inside: "t \<noteq> task_frame k t + of_nat d" if "d \<le> 68" for d
    using unat_task_object[OF assms(1), of d t] that by auto
  have t: "t \<noteq> task_frame k t" "t \<noteq> task_low_watermark k t" "task_stack t + stack_size k = task_frame k t"
    using inside[of 0] inside[of 68] by (simp_all add: task_low_watermark_def task_function_def task_frame_def numeral_plus)
  have f: "store_words m1 t (replicate (unat (stack_size k) div 4 + 18) v) (task_function k t) = m1 (task_function k t)" for m1 v
    using unat_task_object[OF assms(1), of 64 t] by (intro store_words_other) (simp add: task_function_def)
  have fn: "task_function k t = task_frame k t + 64" "task_low_watermark k t = task_frame k t + 68"
    by (simp_all add: task_function_def task_low_watermark_def numeral_plus)
  have fn_t: "t \<noteq> task_function k t" using inside[of 64] fn by simp
  then have "coop_task_init k t function m t = task_frame k t"
    using t inside[of 4] inside[of 8] inside[of 12] inside[of 16] inside[of 20] inside[of 24] inside[of 28] inside[of 32]
      inside[of 36] inside[of 40] inside[of 44] inside[of 48] inside[of 52] inside[of 56] inside[of 60]
    by (simp add: coop_task_init_def Let_def)
  moreover have "loaded (coop_task_init k t function m) (task_frame k t) = frame_words (initial_context k t function)"
    using f[unfolded fn] fn_t stack_top_initial(2)[OF assms(2), of "function"]
    by (simp add: coop_task_init_def Let_def loaded_def frame_words_def initial_context_def fn t(3))
  ultimately show ?thesis using stack_top_initial[OF assms(2)] by (simp add: saved_def)
qed

section \<open>Properties\<close>

text \<open>C4. Every task has the registers to itself: in any run of the main task and its tasks the switches
  give each of them, whenever it has the processor, exactly the registers (stack pointer, return address and
  status included) that it had when it gave the processor away, as if nothing had run in between.\<close>

theorem tasks_own_their_registers:
  assumes "layout k area T" "consistent k area T r s contexts" "coop_run k area T r s es q s2"
  shows "\<exists>contexts2. fold (spec_step (main_slot k)) es (r, contexts) = (q, contexts2) \<and> cpu s2 = contexts2 q"
proof -
  obtain q' contexts2 where spec: "fold (spec_step (main_slot k)) es (r, contexts) = (q', contexts2)" by fastforce
  show ?thesis
    using coop_run_consistent[OF assms(3,1,2) spec] spec by (auto simp: consistent_def)
qed

lemma task_joins:
  assumes "layout k area (insert t T)" "consistent k area T (main_slot k) s contexts" "t \<notin> T"
    and "unat (stack_size k) < 2 ^ 31" "task_frame k t AND 4 = 0" "frame_at (task_frame k t) \<subseteq> area t"
    and "\<forall>slot \<in> slots k T. \<forall>a \<in> insert slot (area slot). unat (stack_size k) + 80 \<le> unat (a - t)"
    and "s1 = s \<lparr> memory := coop_task_init k t function (memory s) \<rparr>"
  shows "consistent k area (insert t T) (main_slot k) s1 (contexts(t := initial_context k t function))"
proof -
  let ?c = "initial_context k t function"
  have "saved (memory s1) x (contexts x)" if x: "x \<in> slots k T" "x \<noteq> main_slot k" for x
  proof -
    have "saved (memory s) x (contexts x)" "frame_at (stack_top (contexts x)) \<subseteq> area x"
      using assms(2) x by (auto simp: consistent_def)
    moreover from this(2) have "saved (memory s1) x (contexts x) = saved (memory s) x (contexts x)"
      using assms(4,7) x(1) by (intro saved_cong) (auto simp: assms(8) intro!: coop_task_init_other)
    ultimately show ?thesis by simp
  qed
  moreover have "saved (memory s1) t ?c" using coop_task_init_saves[OF assms(4,5)] by (simp add: assms(8))
  moreover have "context_ok ?c" by (simp add: context_ok_def initial_context_def)
  moreover have "main_slot k \<noteq> t" using assms(1) by (auto simp: layout_def)
  ultimately show "consistent k area (insert t T) (main_slot k) s1 (contexts(t := ?c))"
    using assms(2,6,3) stack_top_initial(1)[OF assms(5)] by (auto simp: consistent_def slots_def assms(8))
qed

text \<open>A task that has been set up while the main task has the processor joins the tasks without
  disturbing one of them, and the first time the main task lets it run it enters its function, with its stack
  pointer at the end of its stack and the return into the endless loop.\<close>

theorem task_starts_in_its_function:
  assumes "layout k area (insert t T)" "consistent k area T (main_slot k) s contexts" "t \<notin> T"
    and "unat (stack_size k) < 2 ^ 31" "task_frame k t AND 4 = 0" "frame_at (task_frame k t) \<subseteq> area t"
    and "\<forall>slot \<in> slots k T. \<forall>a \<in> insert slot (area slot). unat (stack_size k) + 80 \<le> unat (a - t)"
    and "s1 = s \<lparr> memory := coop_task_init k t function (memory s) \<rparr>"
  shows "consistent k area (insert t T) (main_slot k) s1 (contexts(t := initial_context k t function)) \<and>
    cpu (coop_task_tick k t s1) = initial_context k t function"
  using task_joins[OF assms] consistent_tick[OF assms(1) task_joins[OF assms], of t] by (auto simp: consistent_def)

text \<open>An instance: one task at 0x20001000 with a stack of 2048 bytes, the stack of the main task from
  0x20003000 on.\<close>

definition example_config :: task_config where
  "example_config = \<lparr> stack_size = 2048, stack_fill = 0x55, watermark = True, main_slot = 0x20000000, default_return = 0x101 \<rparr>"

definition example_area :: "u32 \<Rightarrow> u32 set" where
  "example_area slot = (if slot = 0x20000000 then {0x20003000 ..< 0x20004000} else {0x20001008 ..< 0x20001848})"

definition example_main :: registers where
  "example_main = \<lparr> r0 = 0, r1 = 1, r2 = 2, r3 = 3, r4 = 4, r5 = 5, r6 = 6, r7 = 7, r8 = 8, r9 = 9, r10 = 10, r11 = 11,
     r12 = 12, sp = 0x20003FF4, lr = 0x201, pc = 0x301, psr = 0x61000000 \<rparr>"

definition example_system :: system where
  "example_system = \<lparr> cpu = example_main, memory = (\<lambda>_. 0), task_current = 0x20000000, task_next = 0 \<rparr>"

lemma example_layout: "layout example_config example_area {0x20001000}"
  by (auto simp: layout_def slots_def example_config_def example_area_def task_low_watermark_def task_function_def
      task_frame_def task_stack_def)

lemma example_consistent:
  "consistent example_config example_area {} (main_slot example_config) example_system (\<lambda>_. example_main)"
  by (simp add: consistent_def slots_def example_config_def example_area_def example_system_def example_main_def
      context_ok_def stack_top_def align_8_def frame_at_def)

lemma example_task:
  "unat (stack_size example_config) < 2 ^ 31" "task_frame example_config 0x20001000 AND 4 = 0"
  "frame_at (task_frame example_config 0x20001000) \<subseteq> example_area 0x20001000"
  "\<forall>slot \<in> slots example_config {}. \<forall>a \<in> insert slot (example_area slot). unat (stack_size example_config) + 80 \<le> unat (a - 0x20001000)"
proof -
  show "unat (stack_size example_config) < 2 ^ 31" "task_frame example_config 0x20001000 AND 4 = 0"
    by (simp_all add: example_config_def task_frame_def task_stack_def)
  show "frame_at (task_frame example_config 0x20001000) \<subseteq> example_area 0x20001000"
    by (simp add: example_config_def example_area_def task_frame_def task_stack_def frame_at_def)
  have "2128 \<le> unat (a - 0x20001000)" if "0x20003000 \<le> a" for a :: u32
  proof -
    have "unat (0x20003000 :: u32) \<le> unat a" using that by (simp only: word_le_nat_alt)
    moreover have "(0x20001000 :: u32) \<le> a" using that by (rule order_trans[rotated]) simp
    ultimately show ?thesis by (simp add: unat_sub)
  qed
  then show "\<forall>slot \<in> slots example_config {}. \<forall>a \<in> insert slot (example_area slot). unat (stack_size example_config) + 80 \<le> unat (a - 0x20001000)"
    by (auto simp: slots_def example_config_def example_area_def)
qed

definition example_started :: system where
  "example_started = example_system
     \<lparr> memory := coop_task_init example_config 0x20001000 0x401 (memory example_system) \<rparr>"

lemma task_starts_in_its_function_witness:
  "cpu (coop_task_tick example_config 0x20001000 example_started) = initial_context example_config 0x20001000 0x401"
  using task_starts_in_its_function[OF example_layout example_consistent _ example_task example_started_def] by simp

lemma example_started_consistent:
  "consistent example_config example_area {0x20001000} (main_slot example_config) example_started
     ((\<lambda>_. example_main)(0x20001000 := initial_context example_config 0x20001000 0x401))"
  using task_joins[OF example_layout example_consistent _ example_task example_started_def] by simp

lemma tasks_own_their_registers_witness:
  "cpu (coop_task_yield example_config (coop_task_tick example_config 0x20001000 example_started
     \<lparr> cpu := example_main \<lparr> r4 := 99, sp := 0x20001800 \<rparr>,
       memory := memory (coop_task_tick example_config 0x20001000 example_started) \<rparr>)) = example_main"
proof -
  let ?s = "coop_task_tick example_config 0x20001000 example_started" and ?c = "example_main \<lparr> r4 := 99, sp := 0x20001800 \<rparr>"
  have "within_bounds example_config example_area {0x20001000} 0x20001000 (memory ?s) ?c (memory ?s)"
    by (simp add: within_bounds_def example_area_def example_main_def context_ok_def stack_top_def align_8_def frame_at_def)
  then have "coop_run example_config example_area {0x20001000} (main_slot example_config) example_started
      [Tick 0x20001000, Run ?c (memory ?s), Yield] (main_slot example_config)
      (coop_task_yield example_config (?s \<lparr> cpu := ?c, memory := memory ?s \<rparr>))"
    by (intro coop_run.intros) simp_all
  from tasks_own_their_registers[OF example_layout example_started_consistent this] show ?thesis
    by (simp add: example_config_def)
qed

end
