(* ===== verification/Voltage.thy ===== *)
theory Voltage
  imports System_Timer
begin

text \<open>
  The supply voltage of the energy manager (\<^verbatim>\<open>warp/wem/voltage.c\<close>): results of the
  converter, each the sum of four conversions of 12 bits, are averaged over a tenth of a second.
\<close>

section \<open>State and operations\<close>

record voltage =
  voltage_value :: u16
  value_sum :: u64
  value_sum_count :: u32
  last_time :: u32

definition voltage_zero :: voltage where
  "voltage_zero = \<lparr> voltage_value = 0, value_sum = 0, value_sum_count = 0, last_time = 0 \<rparr>"

text \<open>What a tick adds to the sum and its count.\<close>

definition sampled :: "u32 \<Rightarrow> voltage \<Rightarrow> voltage" where
  "sampled r v = (if r AND push_bit 31 1 \<noteq> 0
     then v \<lparr> value_sum := value_sum v + ucast (r AND 0xFFFF), value_sum_count := value_sum_count v + 1 \<rparr> else v)"

text \<open>The argument is the result register; its highest bit says that the result is new. The other two are the
  readings of the clock. None is a division by zero, which comes from a wrap-around of the divisor.\<close>

definition voltage_tick :: "u32 \<Rightarrow> u32 \<Rightarrow> u32 \<Rightarrow> voltage \<Rightarrow> voltage option" where
  "voltage_tick result ms1 ms2 v =
     (let v1 = sampled result v in
      if system_timer_is_time_elapsed_ms ms1 (last_time v1) 100 then
        (if 0 < value_sum_count v1 then
           if value_sum_count v1 * 273 = 0 then None
           else Some (v1 \<lparr> voltage_value := ucast (value_sum v1 * 220 div ucast (value_sum_count v1 * 273)),
             value_sum := 0, value_sum_count := 0, last_time := ms2 \<rparr>)
         else Some (v1 \<lparr> last_time := ms2 \<rparr>))
      else Some v1)"

fun voltage_ticks :: "(u32 \<times> u32 \<times> u32) list \<Rightarrow> voltage \<Rightarrow> voltage option" where
  "voltage_ticks [] v = Some v"
| "voltage_ticks ((result, ms1, ms2) # is) v = Option.bind (voltage_tick result ms1 ms2 v) (voltage_ticks is)"

section \<open>The published value\<close>

text \<open>The millivolts of a result: the reference is 3.3 V, the divider 1 to 3, the scale 4 times 4095.\<close>

definition millivolt :: "nat \<Rightarrow> nat" where
  "millivolt adc = adc * 220 div 273"

definition new_samples :: "(u32 \<times> u32 \<times> u32) list \<Rightarrow> nat list" where
  "new_samples is = map (\<lambda>(r, _). unat (r AND 0xFFFF)) (filter (\<lambda>(r, _). r AND push_bit 31 1 \<noteq> 0) is)"

definition averaging :: "voltage \<Rightarrow> nat list \<Rightarrow> bool" where
  "averaging v samples \<longleftrightarrow> unat (value_sum v) = sum_list samples \<and> unat (value_sum_count v) = length samples"

lemma new_samples_Cons: "new_samples ((r, ms) # is) =
    (if r AND push_bit 31 1 \<noteq> 0 then unat (r AND 0xFFFF) # new_samples is else new_samples is)"
  by (simp add: new_samples_def)

lemma new_samples_Nil [simp]: "new_samples [] = []"
  by (simp add: new_samples_def)

lemma new_samples_append: "new_samples (xs @ ys) = new_samples xs @ new_samples ys"
  by (simp add: new_samples_def)

lemma length_new_samples: "length (new_samples is) \<le> length is"
  by (simp add: new_samples_def)

lemma sample_le: "unat (r AND 0xFFFF :: u32) \<le> 65535"
  using word_and_le1[of r "0xFFFF"] by (simp add: word_le_nat_alt)

lemma new_samples_le: "x \<in> set (new_samples is) \<Longrightarrow> x \<le> 65535"
  using sample_le by (auto simp: new_samples_def)

lemma sum_samples_le: "sum_list (new_samples is) \<le> 65535 * length is"
proof (induction "is")
  case (Cons i "is")
  obtain r ms where "i = (r, ms)" by (cases i)
  then show ?case using Cons sample_le[of r] by (auto simp: new_samples_Cons)
qed (simp add: new_samples_def)

lemma sampled_averaging:
  assumes "averaging v samples" "sum_list samples \<le> 2 ^ 62" "length samples < 2 ^ 31"
  shows "averaging (sampled r v) (samples @ new_samples [(r, ms)])"
proof -
  have "unat (value_sum_count v + 1) = Suc (length samples)"
    using assms(1,3) by (subst unat_Suc_no_wrap[of _ "0xFFFFFFFF"]) (simp_all add: averaging_def)
  moreover have "unat (value_sum v + ucast (r AND 0xFFFF)) = sum_list samples + unat (r AND 0xFFFF)"
  proof -
    have "unat (ucast (r AND 0xFFFF) :: u64) = unat (r AND 0xFFFF)"
      using sample_le[of r] by (simp add: unsigned_ucast_eq take_bit_nat_eq_self)
    then show ?thesis using assms(1,2) sample_le[of r]
      by (simp add: averaging_def unat_word_ariths)
  qed
  ultimately show "averaging (sampled r v) (samples @ new_samples [(r, ms)])"
    using assms(1) by (simp add: averaging_def sampled_def new_samples_Cons)
qed

lemma sampled_last_time [simp]: "last_time (sampled r v) = last_time v"
  by (simp add: sampled_def)

lemma voltage_ticks_average:
  "averaging v samples \<Longrightarrow> list_all (\<lambda>(r, ms1, ms2). \<not> system_timer_is_time_elapsed_ms ms1 (last_time v) 100) is \<Longrightarrow>
   sum_list samples + 65535 * length is \<le> 2 ^ 62 \<Longrightarrow> length samples + length is < 2 ^ 31 \<Longrightarrow>
   \<exists>v1. voltage_ticks is v = Some v1 \<and> averaging v1 (samples @ new_samples is) \<and> last_time v1 = last_time v"
proof (induction "is" arbitrary: v samples)
  case (Cons i "is")
  obtain r ms1 ms2 where i: "i = (r, ms1, ms2)" by (cases i)
  have tick: "voltage_tick r ms1 ms2 v = Some (sampled r v)"
    using Cons(3) by (simp add: i voltage_tick_def Let_def)
  have bounds: "sum_list samples \<le> 2 ^ 62" "length samples < 2 ^ 31" using Cons(4,5) by simp_all
  note s = sampled_averaging[OF Cons(2) bounds, of r "(ms1, ms2)"]
  have "sum_list (new_samples [(r, ms1, ms2)]) \<le> 65535" "length (new_samples [(r, ms1, ms2)]) \<le> 1"
    using sum_samples_le[of "[(r, ms1, ms2)]"] length_new_samples[of "[(r, ms1, ms2)]"] by simp_all
  then have "\<exists>v1. voltage_ticks is (sampled r v) = Some v1 \<and>
      averaging v1 ((samples @ new_samples [(r, ms1, ms2)]) @ new_samples is) \<and> last_time v1 = last_time (sampled r v)"
    using Cons(3-5) by (intro Cons(1)[OF s]) auto
  then show ?case using tick by (simp add: i new_samples_append[symmetric])
qed simp

text \<open>C40. The published voltage is the mean of all results that came since the last one, scaled to
  millivolts and rounded down: it lies between the millivolts of the smallest and of the largest result, and the
  sums start again.\<close>

theorem voltage_is_mean:
  assumes "value_sum v = 0" "value_sum_count v = 0"
    and "list_all (\<lambda>(r, ms1, ms2). \<not> system_timer_is_time_elapsed_ms ms1 (last_time v) 100) is"
    and "system_timer_is_time_elapsed_ms ms1 (last_time v) 100"
    and "samples = new_samples (is @ [(r, ms1, ms2)])" "samples \<noteq> []" "length is < 15000000"
  shows "\<exists>v1. voltage_ticks (is @ [(r, ms1, ms2)]) v = Some v1 \<and>
    unat (voltage_value v1) = sum_list samples * 220 div (length samples * 273) \<and>
    (\<forall>lo hi. (\<forall>x\<in>set samples. lo \<le> x \<and> x \<le> hi) \<longrightarrow>
      millivolt lo \<le> unat (voltage_value v1) \<and> unat (voltage_value v1) \<le> millivolt hi) \<and>
    value_sum v1 = 0 \<and> value_sum_count v1 = 0 \<and> last_time v1 = ms2"
proof -
  have "averaging v []" using assms(1,2) by (simp add: averaging_def)
  then obtain v0 where v0: "voltage_ticks is v = Some v0" "averaging v0 (new_samples is)" "last_time v0 = last_time v"
    using voltage_ticks_average[of v "[]" "is"] assms(3,7) by auto
  note len0 = length_new_samples[of "is"]
  let ?v = "sampled r v0"
  have samples: "new_samples is @ new_samples [(r, ms1, ms2)] = samples" by (simp add: assms(5) new_samples_append)
  then have v: "averaging ?v samples"
    using sampled_averaging[OF v0(2), of r "(ms1, ms2)"] sum_samples_le[of "is"] len0 assms(7) by simp
  have len: "length samples \<le> 15000000" "0 < length samples"
    using assms(5-7) length_new_samples[of "is @ [(r, ms1, ms2)]"] by simp_all
  have sum: "sum_list samples \<le> 65535 * 15000000" using sum_samples_le[of "is @ [(r, ms1, ms2)]"] assms(5,7) by simp
  have count: "unat (value_sum_count ?v * 273) = length samples * 273"
    using v len by (simp add: averaging_def unat_word_ariths)
  have le: "sum_list xs \<le> length xs * hi \<and> length xs * lo \<le> sum_list xs" if "\<forall>x\<in>set xs. lo \<le> x \<and> x \<le> hi" for xs :: "nat list" and lo hi
    using that by (induction xs) auto
  define m where "m = sum_list samples * 220 div (length samples * 273)"
  have bounds: "millivolt lo \<le> m \<and> m \<le> millivolt hi" if "\<forall>x\<in>set samples. lo \<le> x \<and> x \<le> hi" for lo hi
  proof -
    have "length samples * lo * 220 div (length samples * 273) = lo * 220 div 273"
      "length samples * hi * 220 div (length samples * 273) = hi * 220 div 273"
      using len by (metis div_mult_mult1 mult.assoc nat_neq_iff)+
    then show ?thesis unfolding m_def millivolt_def
      using le[OF that] by (metis div_le_mono mult_le_mono1)
  qed
  have "m \<le> millivolt 65535" using bounds[of 0 65535] new_samples_le assms(5) by blast
  then have small: "m < 2 ^ 16" by (simp add: millivolt_def)
  have "unat (value_sum ?v * 220 div ucast (value_sum_count ?v * 273)) = m"
  proof -
    have "unat (value_sum ?v * 220) = sum_list samples * 220"
      using v sum by (simp add: averaging_def unat_word_ariths)
    moreover have "unat (ucast (value_sum_count ?v * 273) :: u64) = length samples * 273"
      using count len by (simp add: unsigned_ucast_eq take_bit_nat_eq_self)
    ultimately show ?thesis by (simp add: unat_div m_def)
  qed
  then have published: "unat (ucast (value_sum ?v * 220 div ucast (value_sum_count ?v * 273)) :: u16) = m"
    using small by (simp add: unsigned_ucast_eq take_bit_nat_eq_self)
  have run: "voltage_ticks (xs @ ys) u = Option.bind (voltage_ticks xs u) (voltage_ticks ys)" for xs ys u
    by (induction xs arbitrary: u) (auto split: Option.bind_split)
  have "0 < value_sum_count ?v" "value_sum_count ?v * 273 \<noteq> 0"
    using v len count by (auto simp: averaging_def word_gt_0)
  then have "voltage_ticks (is @ [(r, ms1, ms2)]) v = Some (?v \<lparr> voltage_value :=
      ucast (value_sum ?v * 220 div ucast (value_sum_count ?v * 273)), value_sum := 0, value_sum_count := 0, last_time := ms2 \<rparr>)"
    using v0(1,3) assms(4) by (simp add: run voltage_tick_def Let_def)
  then show ?thesis using published bounds by (auto simp: m_def)
qed


lemma voltage_is_mean_witness:
  "\<exists>v1. voltage_ticks ([(0x80001000, 50, 50), (0x1234, 51, 51)] @ [(0x80001005, 100, 101)]) voltage_zero = Some v1 \<and>
     unat (voltage_value v1) = 3302 \<and> value_sum v1 = 0 \<and> value_sum_count v1 = 0 \<and> last_time v1 = 101"
  using voltage_is_mean[of voltage_zero "[(0x80001000, 50, 50), (0x1234, 51, 51)]" 100
      "new_samples ([(0x80001000, 50, 50), (0x1234, 51, 51)] @ [(0x80001005, 100, 101)])" "0x80001005" 101]
  by (simp add: voltage_zero_def new_samples_Cons system_timer_is_time_elapsed_ms_def system_timer_get_ms_def) blast

end
