(* ===== verification/Eeprom.thy ===== *)
theory Eeprom
  imports Meter
begin

text \<open>
  The energies at the last reset of the meter's counters, kept in a page of the EEPROM
  (\<^verbatim>\<open>warp/wem/eeprom.c\<close>). The page is read and written by the boot loader, which is a
  parameter: two functions on a memory of any type.
\<close>

section \<open>Operations\<close>

definition EEPROM_PAGE_SIZE :: nat where "EEPROM_PAGE_SIZE = 256"
definition EEPROM_CONFIG_PAGE :: u32 where "EEPROM_CONFIG_PAGE = 1"
definition EEPROM_CONFIG_MAGIC_POS :: nat where "EEPROM_CONFIG_MAGIC_POS = 0"
definition EEPROM_CONFIG_REL_SUM_POS :: nat where "EEPROM_CONFIG_REL_SUM_POS = 1"
definition EEPROM_CONFIG_REL_IMPORT_POS :: nat where "EEPROM_CONFIG_REL_IMPORT_POS = 2"
definition EEPROM_CONFIG_REL_EXPORT_POS :: nat where "EEPROM_CONFIG_REL_EXPORT_POS = 3"
definition EEPROM_CONFIG_MAGIC :: u32 where "EEPROM_CONFIG_MAGIC = 0x34567891"

lemmas eeprom_positions = EEPROM_PAGE_SIZE_def EEPROM_CONFIG_MAGIC_POS_def EEPROM_CONFIG_REL_SUM_POS_def
  EEPROM_CONFIG_REL_IMPORT_POS_def EEPROM_CONFIG_REL_EXPORT_POS_def

definition eeprom_load_config :: "('mem \<Rightarrow> u32 \<Rightarrow> u32 list) \<Rightarrow> 'mem \<Rightarrow> meter_sys \<Rightarrow> meter_sys option" where
  "eeprom_load_config read_page mem s = do {
     let page = read_page mem EEPROM_CONFIG_PAGE;
     magic \<leftarrow> arr_get page EEPROM_CONFIG_MAGIC_POS;
     if magic \<noteq> EEPROM_CONFIG_MAGIC
     then Some (upd_meter (\<lambda>m. m \<lparr> m_relative_energy_sum := f_0, m_relative_energy_import := f_0,
       m_relative_energy_export := f_0 \<rparr>) s)
     else do {
       both \<leftarrow> arr_get page EEPROM_CONFIG_REL_SUM_POS;
       imp \<leftarrow> arr_get page EEPROM_CONFIG_REL_IMPORT_POS;
       ex \<leftarrow> arr_get page EEPROM_CONFIG_REL_EXPORT_POS;
       Some (upd_meter (\<lambda>m. m \<lparr> m_relative_energy_sum := both, m_relative_energy_import := imp,
         m_relative_energy_export := ex \<rparr>) s)
     }
   }"

text \<open>The page is a local variable: the words that are not assigned keep what the memory held before.\<close>

definition eeprom_save_config ::
  "('mem \<Rightarrow> u32 \<Rightarrow> u32 list \<Rightarrow> 'mem) \<Rightarrow> u32 list \<Rightarrow> 'mem \<Rightarrow> meter_sys \<Rightarrow> (meter_sys \<times> 'mem) option" where
  "eeprom_save_config write_page uninit mem s = do {
     page0 \<leftarrow> arr_set uninit EEPROM_CONFIG_MAGIC_POS EEPROM_CONFIG_MAGIC;
     s1 \<leftarrow> (if m_reset_energy_meter (ms_meter s)
       then do {
         both \<leftarrow> arr_get (ms_set s) EnergyActiveLSumImExSum;
         imp \<leftarrow> arr_get (ms_set s) EnergyActiveLSumImport;
         ex \<leftarrow> arr_get (ms_set s) EnergyActiveLSumExport;
         Some (upd_meter (\<lambda>m. m \<lparr> m_relative_energy_sum := both, m_relative_energy_import := imp,
           m_relative_energy_export := ex \<rparr>) s)
       }
       else Some s);
     let m = ms_meter s1;
     page1 \<leftarrow> arr_set page0 EEPROM_CONFIG_REL_SUM_POS (m_relative_energy_sum m);
     page2 \<leftarrow> arr_set page1 EEPROM_CONFIG_REL_IMPORT_POS (m_relative_energy_import m);
     page3 \<leftarrow> arr_set page2 EEPROM_CONFIG_REL_EXPORT_POS (m_relative_energy_export m);
     Some (upd_meter (\<lambda>m. m \<lparr> m_reset_energy_meter := False \<rparr>) s1, write_page mem EEPROM_CONFIG_PAGE page3)
   }"

definition eeprom_init :: "('mem \<Rightarrow> u32 \<Rightarrow> u32 list) \<Rightarrow> 'mem \<Rightarrow> meter_sys \<Rightarrow> meter_sys option" where
  "eeprom_init read_page mem s = eeprom_load_config read_page mem s"

section \<open>Energies since the last reset\<close>

text \<open>The energies that the counters of import, export and both together are relative to.\<close>

definition reset_energies :: "meter_sys \<Rightarrow> u32 \<times> u32 \<times> u32" where
  "reset_energies s = (let m = ms_meter s in
     (m_relative_energy_import m, m_relative_energy_export m, m_relative_energy_sum m))"

definition saved_energies :: "meter_sys \<Rightarrow> u32 \<times> u32 \<times> u32" where
  "saved_energies s =
     (if m_reset_energy_meter (ms_meter s)
      then (ms_set s ! EnergyActiveLSumImport, ms_set s ! EnergyActiveLSumExport, ms_set s ! EnergyActiveLSumImExSum)
      else reset_energies s)"

lemma save_config_result:
  assumes "length (ms_set s) = METER_REGISTER_NUM" "length uninit = EEPROM_PAGE_SIZE div 4"
  shows "\<exists>s1 page. eeprom_save_config write_page uninit mem s = Some (s1, write_page mem EEPROM_CONFIG_PAGE page) \<and>
    reset_energies s1 = saved_energies s \<and> \<not> m_reset_energy_meter (ms_meter s1) \<and> ms_set s1 = ms_set s \<and>
    length page = EEPROM_PAGE_SIZE div 4 \<and> page ! 0 = EEPROM_CONFIG_MAGIC \<and> (page ! 2, page ! 3, page ! 1) = saved_energies s"
proof -
  have in_set: "arr_get (ms_set s) EnergyActiveLSumImExSum = Some (ms_set s ! 57)"
    "arr_get (ms_set s) EnergyActiveLSumImport = Some (ms_set s ! 34)"
    "arr_get (ms_set s) EnergyActiveLSumExport = Some (ms_set s ! 35)"
    using assms(1) by (simp_all add: arr_get_def METER_REGISTER_NUM_def)
  have in_page: "length uninit = 64" using assms(2) by (simp add: EEPROM_PAGE_SIZE_def)
  show ?thesis
    by (cases "m_reset_energy_meter (ms_meter s)")
      (simp_all add: eeprom_save_config_def eeprom_positions in_set in_page arr_set_def Let_def upd_meter_def
        reset_energies_def saved_energies_def, (rule exI, rule conjI, rule refl, simp add: in_page)+)
qed

lemma load_config_result:
  assumes "length (read_page mem EEPROM_CONFIG_PAGE) = EEPROM_PAGE_SIZE div 4"
    and "page = read_page mem EEPROM_CONFIG_PAGE"
  shows "\<exists>s1. eeprom_init read_page mem s = Some s1 \<and>
    reset_energies s1 = (if page ! 0 = EEPROM_CONFIG_MAGIC then (page ! 2, page ! 3, page ! 1) else (f_0, f_0, f_0))"
  using assms
  by (auto simp: eeprom_init_def eeprom_load_config_def arr_simps eeprom_positions Let_def upd_meter_def reset_energies_def)

lemma meter_init_reset_energies: "reset_energies (meter_init clk s) = reset_energies s"
  by (simp add: reset_energies_def meter_init_def Let_def)

lemma read_done_resettable:
  assumes "length (ms_set s) = METER_REGISTER_NUM" "reset_energies s = (imp, ex, both)"
  shows "\<exists>s1. meter_handle_register_set_read_done F s = Some s1 \<and>
    ms_set s1 ! EnergyActiveLSumImportResettable = f_sub F (ms_set s ! EnergyActiveLSumImport) imp \<and>
    ms_set s1 ! EnergyActiveLSumExportResettable = f_sub F (ms_set s ! EnergyActiveLSumExport) ex \<and>
    ms_set s1 ! EnergyActiveLSumImExSumResettable = f_sub F (ms_set s ! EnergyActiveLSumImExSum) both"
  using assms
  by (auto simp: meter_handle_register_set_read_done_def arr_simps METER_REGISTER_NUM_def upd_meter_def
      reset_energies_def Let_def)

text \<open>C8. The resettable energies count from the last reset even across a restart: the configuration saved in
  a state, loaded into a fresh memory before the meter is set up, makes the next complete reading give the
  differences to the energies at that save (if a reset was requested) or to those of the reset before it (if
  not). It needs that the boot loader reads back the page it has written.\<close>

theorem reset_energies_survive_restart:
  assumes "\<And>mem p page. length page = EEPROM_PAGE_SIZE div 4 \<Longrightarrow> read_page (write_page mem p page) p = page"
    and "length (ms_set s) = METER_REGISTER_NUM" "length uninit = EEPROM_PAGE_SIZE div 4"
    and "saved_energies s = (imp, ex, both)" "length new = METER_REGISTER_NUM"
  shows "\<exists>s1 mem1 s2 s3. eeprom_save_config write_page uninit mem s = Some (s1, mem1) \<and>
    eeprom_init read_page mem1 fresh = Some s2 \<and>
    meter_handle_register_set_read_done F (meter_init clk s2 \<lparr> ms_set := new \<rparr>) = Some s3 \<and>
    ms_set s3 ! EnergyActiveLSumImportResettable = f_sub F (new ! EnergyActiveLSumImport) imp \<and>
    ms_set s3 ! EnergyActiveLSumExportResettable = f_sub F (new ! EnergyActiveLSumExport) ex \<and>
    ms_set s3 ! EnergyActiveLSumImExSumResettable = f_sub F (new ! EnergyActiveLSumImExSum) both"
proof -
  obtain s1 page where save: "eeprom_save_config write_page uninit mem s = Some (s1, write_page mem EEPROM_CONFIG_PAGE page)"
    and page: "length page = EEPROM_PAGE_SIZE div 4" "page ! 0 = EEPROM_CONFIG_MAGIC"
      "(page ! 2, page ! 3, page ! 1) = (imp, ex, both)"
    using save_config_result[OF assms(2,3), of write_page mem] assms(4) by auto
  have rd: "read_page (write_page mem EEPROM_CONFIG_PAGE page) EEPROM_CONFIG_PAGE = page" by (rule assms(1)[OF page(1)])
  obtain s2 where load: "eeprom_init read_page (write_page mem EEPROM_CONFIG_PAGE page) fresh = Some s2"
    "reset_energies s2 = (imp, ex, both)"
    using load_config_result[of read_page "write_page mem EEPROM_CONFIG_PAGE page" page fresh] rd page by auto
  have "reset_energies (meter_init clk s2 \<lparr> ms_set := new \<rparr>) = (imp, ex, both)"
    using load(2) meter_init_reset_energies[of clk s2] by (simp add: reset_energies_def Let_def)
  then show ?thesis
    using read_done_resettable[of "meter_init clk s2 \<lparr> ms_set := new \<rparr>" imp ex both F] assms(5) save load(1) by auto
qed

text \<open>A memory of pages, and a difference of whole numbers in place of that of floats, for the instance.\<close>

lemma reset_energies_survive_restart_witness:
  "\<forall>F u. \<exists>s1 mem1 s2 s3. eeprom_save_config (\<lambda>mem p page. mem(p := page)) (replicate 64 0) (\<lambda>p. replicate 64 0)
      (upd_meter (\<lambda>m. m \<lparr> m_reset_energy_meter := True \<rparr>)
        (meter_sys_blank idle_master u \<lparr> ms_set := (replicate METER_REGISTER_NUM 0)[34 := 7, 35 := 8, 57 := 15] \<rparr>)) = Some (s1, mem1) \<and>
    eeprom_init (\<lambda>mem p. mem p) mem1 (meter_sys_blank idle_master u) = Some s2 \<and>
    meter_handle_register_set_read_done F (meter_init (\<lambda>_. 0) s2 \<lparr> ms_set := replicate METER_REGISTER_NUM 20 \<rparr>) = Some s3 \<and>
    ms_set s3 ! EnergyActiveLSumImportResettable = f_sub F (replicate METER_REGISTER_NUM 20 ! EnergyActiveLSumImport) 7" (is "\<forall>F u. ?P F u")
proof (intro allI)
  fix F u
  let ?s = "upd_meter (\<lambda>m. m \<lparr> m_reset_energy_meter := True \<rparr>)
        (meter_sys_blank idle_master u \<lparr> ms_set := (replicate METER_REGISTER_NUM 0)[34 := 7, 35 := 8, 57 := 15] \<rparr>)"
  have 1: "saved_energies ?s = (7, 8, 15)"
    by (simp add: saved_energies_def upd_meter_def METER_REGISTER_NUM_def)
  have 2: "length (ms_set ?s) = METER_REGISTER_NUM" by (simp add: upd_meter_def)
  have 3: "length (replicate 64 (0 :: u32)) = EEPROM_PAGE_SIZE div 4" by (simp add: EEPROM_PAGE_SIZE_def)
  show "?P F u"
    using reset_energies_survive_restart[where read_page = "\<lambda>mem p. mem p" and write_page = "\<lambda>mem p page. mem(p := page)"
        and mem = "\<lambda>p. replicate 64 0" and fresh = "meter_sys_blank idle_master u" and F = F and clk = "\<lambda>_. 0",
        OF _ 2 3 1 length_replicate[of METER_REGISTER_NUM 20]] by fastforce
qed

end
