(* ===== verification/Lfs_Util.thy ===== *)
theory Lfs_Util
  imports Checksums
begin

text \<open>
  The arithmetic and the checksum of littlefs (\<^verbatim>\<open>warp/wem/littlefs/lfs_util.h\<close>,
  \<^verbatim>\<open>warp/wem/littlefs/lfs_util.c\<close>), in the variant with the intrinsics of the compiler.
\<close>

section \<open>Numbers\<close>

definition lfs_max :: "u32 \<Rightarrow> u32 \<Rightarrow> u32" where "lfs_max a b = (if b < a then a else b)"
definition lfs_min :: "u32 \<Rightarrow> u32 \<Rightarrow> u32" where "lfs_min a b = (if a < b then a else b)"
definition lfs_aligndown :: "u32 \<Rightarrow> u32 \<Rightarrow> u32" where "lfs_aligndown a alignment = a - a mod alignment"
definition lfs_alignup :: "u32 \<Rightarrow> u32 \<Rightarrow> u32" where "lfs_alignup a alignment = lfs_aligndown (a + alignment - 1) alignment"

text \<open>The intrinsics: the number of significant bits (32 less the leading zeros), of trailing zeros, of ones.\<close>

fun bit_length :: "nat \<Rightarrow> nat" where
  "bit_length n = (if n = 0 then 0 else Suc (bit_length (n div 2)))"

fun trailing_zeros :: "nat \<Rightarrow> nat" where
  "trailing_zeros n = (if n = 0 \<or> odd n then 0 else Suc (trailing_zeros (n div 2)))"

fun ones :: "nat \<Rightarrow> nat" where
  "ones n = (if n = 0 then 0 else n mod 2 + ones (n div 2))"

lemma bits_0 [simp]: "bit_length 0 = 0" "trailing_zeros 0 = 0" "ones 0 = 0"
  by simp_all

declare bit_length.simps [simp del] trailing_zeros.simps [simp del] ones.simps [simp del]

definition lfs_npw2 :: "u32 \<Rightarrow> u32" where "lfs_npw2 a = of_nat (bit_length (unat (a - 1)))"
definition lfs_ctz :: "u32 \<Rightarrow> u32" where "lfs_ctz a = of_nat (trailing_zeros (unat a))"
definition lfs_popc :: "u32 \<Rightarrow> u32" where "lfs_popc a = of_nat (ones (unat a))"

definition lfs_scmp :: "u32 \<Rightarrow> u32 \<Rightarrow> int" where "lfs_scmp a b = sint (a - b)"

text \<open>On the little endian processors of the firmware.\<close>

definition lfs_fromle32 :: "u32 \<Rightarrow> u32" where "lfs_fromle32 a = a"
definition lfs_tole32 :: "u32 \<Rightarrow> u32" where "lfs_tole32 a = lfs_fromle32 a"

definition lfs_frombe32 :: "u32 \<Rightarrow> u32" where
  "lfs_frombe32 a = push_bit 24 (a AND 0xFF) OR push_bit 8 (a AND 0xFF00) OR (drop_bit 8 a AND 0xFF00) OR drop_bit 24 a"

definition lfs_tobe32 :: "u32 \<Rightarrow> u32" where "lfs_tobe32 a = lfs_frombe32 a"

section \<open>Checksum\<close>

definition lfs_rtable :: "u32 list" where
  "lfs_rtable = [0x00000000, 0x1db71064, 0x3b6e20c8, 0x26d930ac, 0x76dc4190, 0x6b6b51f4, 0x4db26158, 0x5005713c,
     0xedb88320, 0xf00f9344, 0xd6d6a3e8, 0xcb61b38c, 0x9b64c2b0, 0x86d3d2d4, 0xa00ae278, 0xbdbdf21c]"

definition lfs_crc_nibble :: "u32 \<Rightarrow> u8 \<Rightarrow> u32" where
  "lfs_crc_nibble crc v = drop_bit 4 crc XOR lfs_rtable ! unat ((crc XOR ucast v) AND 0xF)"

fun lfs_crc :: "u32 \<Rightarrow> u8 list \<Rightarrow> u32" where
  "lfs_crc crc [] = crc"
| "lfs_crc crc (b # bs) = lfs_crc (lfs_crc_nibble (lfs_crc_nibble crc b) (drop_bit 4 b)) bs"

section \<open>Alignment\<close>

lemma unat_lfs_min [simp]: "unat (lfs_min a b) = min (unat a) (unat b)"
  by (simp add: lfs_min_def min_def word_less_nat_alt)

lemma unat_lfs_max [simp]: "unat (lfs_max a b) = max (unat a) (unat b)"
  by (simp add: lfs_max_def max_def word_less_nat_alt)

lemma unat_aligndown: "unat (lfs_aligndown a k) = unat a - unat a mod unat k"
proof -
  have "unat (a mod k) = unat a mod unat k" by (simp add: unat_mod)
  moreover have "unat a mod unat k \<le> unat a" by (rule mod_less_eq_dividend)
  ultimately show ?thesis by (simp add: lfs_aligndown_def unat_sub_no_wrap)
qed

lemma unat_alignup:
  assumes "0 < unat k" "unat a + unat k < 2 ^ 32"
  shows "unat (lfs_alignup a k) = (unat a + unat k - 1) div unat k * unat k"
proof -
  have "unat (a + k) = unat a + unat k" using assms by (simp add: unat_word_ariths)
  then have "unat (a + k - 1) = unat a + unat k - 1" using assms(1) by (subst unat_minus_1) simp_all
  then show ?thesis by (simp add: lfs_alignup_def unat_aligndown minus_mod_eq_div_mult)
qed

section \<open>Bits\<close>

lemma bit_length_bounds: "0 < n \<Longrightarrow> 2 ^ (bit_length n - 1) \<le> n \<and> n < 2 ^ bit_length n"
proof (induction n rule: bit_length.induct)
  case (1 n)
  show ?case
  proof (cases "n = 1")
    case True
    then show ?thesis by (simp add: bit_length.simps[of "Suc 0"])
  next
    case False
    with 1(2) have half: "0 < n div 2" by simp
    have len: "bit_length n = Suc (bit_length (n div 2))" using 1(2) by (simp add: bit_length.simps[of n])
    have "0 < bit_length (n div 2)" using half by (subst bit_length.simps) simp
    then obtain l where l: "bit_length (n div 2) = Suc l" by (cases "bit_length (n div 2)") auto
    have "n = 2 * (n div 2) + n mod 2" "n mod 2 < 2" by simp_all
    moreover have "2 ^ l \<le> n div 2" "n div 2 < 2 * 2 ^ l" using 1(1)[OF _ half] 1(2) by (simp_all add: l)
    ultimately have "2 * 2 ^ l \<le> n" "n < 4 * 2 ^ l" by linarith+
    then show ?thesis by (simp add: len l)
  qed
qed

lemma bit_length_le: "n < 2 ^ k \<Longrightarrow> bit_length n \<le> k"
proof (induction k arbitrary: n)
  case (Suc k)
  then have "n div 2 < 2 ^ k" by auto
  with Suc(1)[of "n div 2"] show ?case by (subst bit_length.simps) simp
qed (simp add: bit_length.simps)

lemma ones_le_bit_length: "ones n \<le> bit_length n"
proof (induction n rule: ones.induct)
  case (1 n)
  have "n mod 2 \<le> 1" by linarith
  with 1 show ?case by (cases "n = 0") (simp_all add: ones.simps[of n] bit_length.simps[of n])
qed

lemma ones_double: "ones (2 * n) = ones n"
  by (cases "n = 0") (simp_all add: ones.simps[of "2 * n"])

lemma trailing_zeros_dvd: "0 < n \<Longrightarrow> 2 ^ trailing_zeros n dvd n"
proof (induction n rule: trailing_zeros.induct)
  case (1 n)
  show ?case
  proof (cases "odd n")
    case True
    then show ?thesis by (simp add: trailing_zeros.simps[of n])
  next
    case False
    with 1(2) have "0 < n div 2" by auto
    with 1 False have "2 ^ trailing_zeros (n div 2) dvd n div 2" by blast
    then have "2 * 2 ^ trailing_zeros (n div 2) dvd 2 * (n div 2)" by (rule mult_dvd_mono[OF dvd_refl])
    moreover have "2 * (n div 2) = n" using False by simp
    ultimately show ?thesis using False 1(2) by (simp only: trailing_zeros.simps[of n] power_Suc if_False) simp
  qed
qed

lemma ones_pred: "0 < n \<Longrightarrow> ones n + trailing_zeros n = Suc (ones (n - 1))"
proof (induction n rule: trailing_zeros.induct)
  case (1 n)
  show ?case
  proof (cases "odd n")
    case True
    then obtain m where n: "n = 2 * m + 1" by (elim oddE)
    have "ones (2 * m + 1) = Suc (ones m)" by (subst ones.simps) simp
    then show ?thesis using True n by (simp add: trailing_zeros.simps[of "Suc (2 * m)"] ones_double)
  next
    case False
    then have "even n" by simp
    then obtain m where n: "n = 2 * m" by (elim evenE)
    with 1(2) have m: "0 < m" by simp
    obtain l where l: "m = Suc l" using m by (cases m) auto
    have "ones m + trailing_zeros m = Suc (ones (m - 1))" using 1(1) False n m by auto
    moreover have "trailing_zeros n = Suc (trailing_zeros m)" using n m by (simp add: trailing_zeros.simps[of "2 * m"])
    moreover have "ones (n - 1) = Suc (ones (m - 1))"
      unfolding n l by (subst ones.simps) simp
    ultimately show ?thesis by (simp add: n ones_double)
  qed
qed

lemma ones_le_32: "ones (unat (a :: u32)) \<le> 32"
  using ones_le_bit_length[of "unat a"] bit_length_le[of "unat a" 32] by simp

lemma unat_lfs_popc: "unat (lfs_popc a) = ones (unat a)"
  using ones_le_32[of a] by (simp add: lfs_popc_def unat_of_nat take_bit_nat_eq_self)

lemma lfs_popc_le: "unat (lfs_popc a) \<le> 32"
  by (simp add: unat_lfs_popc ones_le_32)

lemma trailing_zeros_less: "0 < n \<Longrightarrow> n < 2 ^ k \<Longrightarrow> trailing_zeros n < k"
  using trailing_zeros_dvd[of n] by (metis dvd_imp_le linorder_not_less order_le_less_trans one_less_numeral_iff
      power_less_imp_less_exp semiring_norm(76))

lemma unat_lfs_ctz: "a \<noteq> 0 \<Longrightarrow> unat (lfs_ctz a) = trailing_zeros (unat a)"
proof -
  assume "a \<noteq> 0"
  then have "0 < unat a" by (simp add: unat_gt_0)
  then have "trailing_zeros (unat a) < 32" using trailing_zeros_less[of "unat a" 32] by simp
  then show ?thesis by (simp add: lfs_ctz_def unat_of_nat take_bit_nat_eq_self)
qed

lemma unat_lfs_npw2: "unat (lfs_npw2 a) = bit_length (unat (a - 1))"
proof -
  have "bit_length (unat (a - 1)) \<le> 32" using bit_length_le[of "unat (a - 1)" 32] by simp
  then show ?thesis by (simp add: lfs_npw2_def unat_of_nat take_bit_nat_eq_self)
qed

text \<open>The table works on half a byte; the whole is the checksum of \<^verbatim>\<open>utility/crc32.c\<close>.\<close>

lemma lfs_crc_append: "lfs_crc crc (xs @ ys) = lfs_crc (lfs_crc crc xs) ys"
  by (induction xs arbitrary: crc) simp_all

lemma lfs_rtable_map: "lfs_rtable = map (\<lambda>i. (crc_step_r crc32_polynomial ^^ 4) (of_nat i)) [0..<16]"
  by code_simp

lemma nibble_less: "unat ((x :: u32) AND 0xF) < 16"
  using word_and_le1[of x "0xF"] by (simp add: word_le_nat_alt)

lemma lfs_rtable_nth: "lfs_rtable ! unat ((x :: u32) AND 0xF) = (crc_step_r crc32_polynomial ^^ 4) (x AND 0xF)"
  using nibble_less[of x] by (simp add: lfs_rtable_map del: funpow.simps)

lemma nibble_mask: "(0xF :: u32) = mask 4"
  by (simp add: mask_numeral)

lemma crc_steps_push: "(crc_step_r p ^^ n) (push_bit n w) = drop_bit n (push_bit n w)"
  by (rule crc_steps_r_zero) (simp add: bit_simps)

lemma lfs_crc_nibble_steps:
  "lfs_crc_nibble crc v = (crc_step_r crc32_polynomial ^^ 4) (crc XOR (ucast v AND 0xF))"
proof -
  have split: "crc XOR (ucast v AND 0xF) = push_bit 4 (drop_bit 4 crc) XOR ((crc XOR ucast v) AND 0xF)"
    unfolding nibble_mask by (rule bit_eqI) (auto simp: bit_simps)
  have "drop_bit 4 (push_bit 4 (drop_bit 4 crc)) = drop_bit 4 crc"
    by (rule bit_eqI) (auto simp: bit_simps dest: bit_lt)
  then show ?thesis
    unfolding lfs_crc_nibble_def split crc_steps_r_xor crc_steps_push lfs_rtable_nth by simp
qed

lemma lfs_crc_byte:
  "lfs_crc_nibble (lfs_crc_nibble crc b) (drop_bit 4 b) = crc_byte_r crc32_polynomial crc b"
proof -
  let ?s = "crc_step_r crc32_polynomial ^^ 4" and ?hi = "ucast (drop_bit 4 b) AND 0xF :: u32"
  have "?s (push_bit 4 ?hi) = ?hi"
    unfolding crc_steps_push nibble_mask by (rule bit_eqI) (auto simp: bit_simps dest: bit_lt)
  then have "?s (?s (crc XOR (ucast b AND 0xF)) XOR ?hi) = ?s (?s (crc XOR (ucast b AND 0xF) XOR push_bit 4 ?hi))"
    by (simp add: crc_steps_r_xor xor.assoc del: funpow.simps)
  also have "crc XOR (ucast b AND 0xF) XOR push_bit 4 ?hi = crc XOR ucast b"
    unfolding nibble_mask by (rule bit_eqI) (auto simp: bit_simps dest: bit_lt)
  also have "?s (?s x) = (crc_step_r crc32_polynomial ^^ 8) x" for x
    by (simp only: funpow_add[of 4 4, symmetric, unfolded comp_def, THEN fun_cong] flip: comp_apply[of ?s ?s]) simp
  finally show ?thesis by (simp only: lfs_crc_nibble_steps crc_byte_r_def)
qed

lemma lfs_crc_shift_register: "lfs_crc crc bs = foldl (crc_byte_r crc32_polynomial) crc bs"
  by (induction bs arbitrary: crc) (simp_all add: lfs_crc_byte)

end
