(* ===== verification/Lfs_Bd.thy ===== *)
theory Lfs_Bd
  imports Lfs_Util
begin

text \<open>
  The block device of littlefs with its caches (\<^verbatim>\<open>warp/wem/littlefs/lfs.c\<close>, caching block device
  operations), and the functions of \<^verbatim>\<open>warp/wem/sd.c\<close> below it. The assertions of littlefs are
  switched off in the firmware, so they are not part of the model.
\<close>

section \<open>State\<close>

definition LFS_ERR_OK :: int where "LFS_ERR_OK = 0"
definition LFS_ERR_IO :: int where "LFS_ERR_IO = - 5"
definition LFS_ERR_CORRUPT :: int where "LFS_ERR_CORRUPT = - 84"
definition LFS_ERR_NOSPC :: int where "LFS_ERR_NOSPC = - 28"
definition LFS_BLOCK_NULL :: u32 where "LFS_BLOCK_NULL = 0xFFFFFFFF"
definition LFS_BLOCK_INLINE :: u32 where "LFS_BLOCK_INLINE = 0xFFFFFFFE"
definition LFS_CMP_EQ :: int where "LFS_CMP_EQ = 0"
definition LFS_CMP_LT :: int where "LFS_CMP_LT = 1"
definition LFS_CMP_GT :: int where "LFS_CMP_GT = 2"

lemmas lfs_codes = LFS_ERR_OK_def LFS_ERR_IO_def LFS_ERR_CORRUPT_def LFS_ERR_NOSPC_def LFS_CMP_EQ_def LFS_CMP_LT_def
  LFS_CMP_GT_def

record lfs_cache =
  c_block :: u32
  c_off :: u32
  c_size :: u32
  c_buffer :: "u8 list"

text \<open>The functions of the device change its state of type 'd; a read returns what it has written to the buffer,
  and None is a call that does not return. The number of blocks is that of the mounted file system.\<close>

record 'd lfs_config =
  cfg_read :: "u32 \<Rightarrow> u32 \<Rightarrow> u32 \<Rightarrow> 'd \<Rightarrow> (int \<times> u8 list \<times> 'd) option"
  cfg_prog :: "u32 \<Rightarrow> u32 \<Rightarrow> u8 list \<Rightarrow> 'd \<Rightarrow> (int \<times> 'd) option"
  cfg_erase :: "u32 \<Rightarrow> 'd \<Rightarrow> (int \<times> 'd) option"
  cfg_sync :: "'d \<Rightarrow> (int \<times> 'd) option"
  read_size :: u32
  prog_size :: u32
  block_size :: u32
  cache_size :: u32
  lookahead_size :: u32
  block_count :: u32

text \<open>Copies from and to a buffer; None is an access out of its bounds.\<close>

definition mem_get :: "u8 list \<Rightarrow> nat \<Rightarrow> nat \<Rightarrow> u8 list option" where
  "mem_get xs i n = (if i + n \<le> length xs then Some (take n (drop i xs)) else None)"

definition overlay :: "'a list \<Rightarrow> nat \<Rightarrow> 'a list \<Rightarrow> 'a list" where
  "overlay xs i ys = take i xs @ ys @ drop (i + length ys) xs"

definition mem_put :: "u8 list \<Rightarrow> nat \<Rightarrow> u8 list \<Rightarrow> u8 list option" where
  "mem_put xs i ys = (if i + length ys \<le> length xs then Some (overlay xs i ys) else None)"

section \<open>Operations\<close>

definition lfs_cache_drop :: "lfs_cache \<Rightarrow> lfs_cache" where
  "lfs_cache_drop rcache = rcache \<lparr> c_block := LFS_BLOCK_NULL \<rparr>"

definition lfs_cache_zero :: "'d lfs_config \<Rightarrow> lfs_cache \<Rightarrow> lfs_cache option" where
  "lfs_cache_zero cfg pcache = map_option (\<lambda>buf. pcache \<lparr> c_buffer := buf, c_block := LFS_BLOCK_NULL \<rparr>)
     (mem_put (c_buffer pcache) 0 (replicate (unat (cache_size cfg)) 0xFF))"

text \<open>A read goes on in steps; the state is the offset, the number of bytes that are missing, those that have been
  read, the read cache and the device.\<close>

type_synonym 'd read_state = "u32 \<times> u32 \<times> u8 list \<times> lfs_cache \<times> 'd"

datatype 's progress = Stop int 's | Again 's

definition in_cache :: "lfs_cache \<Rightarrow> u32 \<Rightarrow> u32 \<Rightarrow> bool" where
  "in_cache c block off \<longleftrightarrow> block = c_block c \<and> off < c_off c + c_size c"

definition read_cache :: "lfs_cache \<Rightarrow> u32 \<Rightarrow> 'd read_state \<Rightarrow> 'd read_state progress option" where
  "read_cache c limit = (\<lambda>(off, len, data, rcache, d). do {
     let diff = lfs_min limit (c_size c - (off - c_off c));
     bytes \<leftarrow> mem_get (c_buffer c) (unat (off - c_off c)) (unat diff);
     Some (Again (off + diff, len - diff, data @ bytes, rcache, d))
   })"

definition read_device :: "'d lfs_config \<Rightarrow> u32 \<Rightarrow> u32 \<Rightarrow> u32 \<Rightarrow> 'd read_state \<Rightarrow> 'd read_state progress option" where
  "read_device cfg hint block limit = (\<lambda>(off, len, data, rcache, d).
     if hint \<le> len \<and> off mod read_size cfg = 0 \<and> read_size cfg \<le> len then do {
       let diff = lfs_aligndown limit (read_size cfg);
       (err, bytes, d1) \<leftarrow> cfg_read cfg block off diff d;
       Some (if err \<noteq> 0 then Stop err (off, len, data, rcache, d1)
         else Again (off + diff, len - diff, data @ bytes, rcache, d1))
     }
     else do {
       let start = lfs_aligndown off (read_size cfg);
       let n = lfs_min (lfs_min (lfs_alignup (off + hint) (read_size cfg)) (block_size cfg) - start) (cache_size cfg);
       (err, bytes, d1) \<leftarrow> cfg_read cfg block start n d;
       buf \<leftarrow> mem_put (c_buffer rcache) 0 bytes;
       let rcache1 = \<lparr> c_block = block, c_off = start, c_size = n, c_buffer = buf \<rparr>;
       Some (if err \<noteq> 0 then Stop err (off, len, data, rcache1, d1) else Again (off, len, data, rcache1, d1))
     })"

definition read_below :: "'d lfs_config \<Rightarrow> u32 \<Rightarrow> u32 \<Rightarrow> u32 \<Rightarrow> 'd read_state \<Rightarrow> 'd read_state progress option" where
  "read_below cfg hint block limit = (\<lambda>(off, len, data, rcache, d).
     if in_cache rcache block off then
       if c_off rcache \<le> off then read_cache rcache limit (off, len, data, rcache, d)
       else read_device cfg hint block (lfs_min limit (c_off rcache - off)) (off, len, data, rcache, d)
     else read_device cfg hint block limit (off, len, data, rcache, d))"

text \<open>The program cache is None for the null pointer.\<close>

definition read_step :: "'d lfs_config \<Rightarrow> lfs_cache option \<Rightarrow> u32 \<Rightarrow> u32 \<Rightarrow> 'd read_state \<Rightarrow> 'd read_state progress option" where
  "read_step cfg pcache hint block = (\<lambda>(off, len, data, rcache, d).
     case pcache of
       None \<Rightarrow> read_below cfg hint block len (off, len, data, rcache, d)
     | Some p \<Rightarrow>
         if in_cache p block off then
           if c_off p \<le> off then read_cache p len (off, len, data, rcache, d)
           else read_below cfg hint block (lfs_min len (c_off p - off)) (off, len, data, rcache, d)
         else read_below cfg hint block len (off, len, data, rcache, d))"

text \<open>None is an access out of a buffer, or no end.\<close>

partial_function (option) read_loop ::
  "'d lfs_config \<Rightarrow> lfs_cache option \<Rightarrow> u32 \<Rightarrow> u32 \<Rightarrow> 'd read_state \<Rightarrow> (int \<times> u8 list \<times> lfs_cache \<times> 'd) option" where
  "read_loop cfg pcache hint block st =
     (case st of (off, len, data, rcache, d) \<Rightarrow>
        if len = 0 then Some (0, data, rcache, d)
        else Option.bind (read_step cfg pcache hint block st) (\<lambda>r. case r of
            Stop err (off1, len1, data1, rcache1, d1) \<Rightarrow> Some (err, data1, rcache1, d1)
          | Again st1 \<Rightarrow> read_loop cfg pcache hint block st1))"

definition lfs_bd_read ::
  "'d lfs_config \<Rightarrow> lfs_cache option \<Rightarrow> u32 \<Rightarrow> u32 \<Rightarrow> u32 \<Rightarrow> u32 \<Rightarrow> lfs_cache \<Rightarrow> 'd \<Rightarrow>
   (int \<times> u8 list \<times> lfs_cache \<times> 'd) option" where
  "lfs_bd_read cfg pcache hint block off len rcache d =
     (if block_size cfg < off + len \<or> block_count cfg \<noteq> 0 \<and> block_count cfg \<le> block
      then Some (LFS_ERR_CORRUPT, [], rcache, d)
      else read_loop cfg pcache hint block (off, len, [], rcache, d))"

text \<open>Comparing and the checksum go on in pieces of up to eight bytes.\<close>

fun memcmp :: "u8 list \<Rightarrow> u8 list \<Rightarrow> int" where
  "memcmp (x # xs) (y # ys) = (if x = y then memcmp xs ys else if x < y then - 1 else 1)"
| "memcmp _ _ = 0"

partial_function (option) cmp_loop ::
  "'d lfs_config \<Rightarrow> lfs_cache option \<Rightarrow> u32 \<Rightarrow> u32 \<Rightarrow> u32 \<Rightarrow> u8 list \<Rightarrow> u32 \<Rightarrow> u32 \<Rightarrow> lfs_cache \<Rightarrow> 'd \<Rightarrow>
   (int \<times> lfs_cache \<times> 'd) option" where
  "cmp_loop cfg pcache hint block off data len i rcache d =
     (if len \<le> i then Some (LFS_CMP_EQ, rcache, d)
      else do {
        let diff = lfs_min (len - i) 8;
        (err, dat, rcache1, d1) \<leftarrow> lfs_bd_read cfg pcache (hint - i) block (off + i) diff rcache d;
        if err \<noteq> 0 then Some (err, rcache1, d1)
        else do {
          expected \<leftarrow> mem_get data (unat i) (unat diff);
          let res = memcmp dat expected;
          if res \<noteq> 0 then Some (if res < 0 then LFS_CMP_LT else LFS_CMP_GT, rcache1, d1)
          else cmp_loop cfg pcache hint block off data len (i + diff) rcache1 d1
        }
      })"

definition lfs_bd_cmp ::
  "'d lfs_config \<Rightarrow> lfs_cache option \<Rightarrow> u32 \<Rightarrow> u32 \<Rightarrow> u32 \<Rightarrow> u8 list \<Rightarrow> u32 \<Rightarrow> lfs_cache \<Rightarrow> 'd \<Rightarrow>
   (int \<times> lfs_cache \<times> 'd) option" where
  "lfs_bd_cmp cfg pcache hint block off data len rcache d = cmp_loop cfg pcache hint block off data len 0 rcache d"

partial_function (option) crc_loop ::
  "'d lfs_config \<Rightarrow> lfs_cache option \<Rightarrow> u32 \<Rightarrow> u32 \<Rightarrow> u32 \<Rightarrow> u32 \<Rightarrow> u32 \<Rightarrow> u32 \<Rightarrow> lfs_cache \<Rightarrow> 'd \<Rightarrow>
   (int \<times> u32 \<times> lfs_cache \<times> 'd) option" where
  "crc_loop cfg pcache hint block off len i crc rcache d =
     (if len \<le> i then Some (0, crc, rcache, d)
      else do {
        let diff = lfs_min (len - i) 8;
        (err, dat, rcache1, d1) \<leftarrow> lfs_bd_read cfg pcache (hint - i) block (off + i) diff rcache d;
        if err \<noteq> 0 then Some (err, crc, rcache1, d1)
        else crc_loop cfg pcache hint block off len (i + diff) (lfs_crc crc dat) rcache1 d1
      })"

definition lfs_bd_crc ::
  "'d lfs_config \<Rightarrow> lfs_cache option \<Rightarrow> u32 \<Rightarrow> u32 \<Rightarrow> u32 \<Rightarrow> u32 \<Rightarrow> u32 \<Rightarrow> lfs_cache \<Rightarrow> 'd \<Rightarrow>
   (int \<times> u32 \<times> lfs_cache \<times> 'd) option" where
  "lfs_bd_crc cfg pcache hint block off len crc rcache d = crc_loop cfg pcache hint block off len 0 crc rcache d"

text \<open>The results of the writing functions: the error, the program cache, the read cache, the device.\<close>

definition lfs_bd_flush ::
  "'d lfs_config \<Rightarrow> bool \<Rightarrow> lfs_cache \<Rightarrow> lfs_cache \<Rightarrow> 'd \<Rightarrow> (int \<times> lfs_cache \<times> lfs_cache \<times> 'd) option" where
  "lfs_bd_flush cfg validate pcache rcache d =
     (if c_block pcache \<noteq> LFS_BLOCK_NULL \<and> c_block pcache \<noteq> LFS_BLOCK_INLINE then do {
        let diff = lfs_alignup (c_size pcache) (prog_size cfg);
        bytes \<leftarrow> mem_get (c_buffer pcache) 0 (unat diff);
        (err, d1) \<leftarrow> cfg_prog cfg (c_block pcache) (c_off pcache) bytes d;
        if err \<noteq> 0 then Some (err, pcache, rcache, d1)
        else do {
          (res, rcache1, d2) \<leftarrow> (if validate
            then lfs_bd_cmp cfg None diff (c_block pcache) (c_off pcache) (c_buffer pcache) diff (lfs_cache_drop rcache) d1
            else Some (LFS_CMP_EQ, rcache, d1));
          if res < 0 then Some (res, pcache, rcache1, d2)
          else if res \<noteq> LFS_CMP_EQ then Some (LFS_ERR_CORRUPT, pcache, rcache1, d2)
          else do {
            pcache1 \<leftarrow> lfs_cache_zero cfg pcache;
            Some (0, pcache1, rcache1, d2)
          }
        }
      }
      else Some (0, pcache, rcache, d))"

definition lfs_bd_sync ::
  "'d lfs_config \<Rightarrow> bool \<Rightarrow> lfs_cache \<Rightarrow> lfs_cache \<Rightarrow> 'd \<Rightarrow> (int \<times> lfs_cache \<times> lfs_cache \<times> 'd) option" where
  "lfs_bd_sync cfg validate pcache rcache d = do {
     (err, pcache1, rcache1, d1) \<leftarrow> lfs_bd_flush cfg validate pcache (lfs_cache_drop rcache) d;
     if err \<noteq> 0 then Some (err, pcache1, rcache1, d1)
     else do {
       (err1, d2) \<leftarrow> cfg_sync cfg d1;
       Some (err1, pcache1, rcache1, d2)
     }
   }"

partial_function (option) lfs_bd_prog ::
  "'d lfs_config \<Rightarrow> bool \<Rightarrow> u32 \<Rightarrow> u32 \<Rightarrow> u8 list \<Rightarrow> lfs_cache \<Rightarrow> lfs_cache \<Rightarrow> 'd \<Rightarrow>
   (int \<times> lfs_cache \<times> lfs_cache \<times> 'd) option" where
  "lfs_bd_prog cfg validate block off data pcache rcache d =
     (if data = [] then Some (0, pcache, rcache, d)
      else if block = c_block pcache \<and> c_off pcache \<le> off \<and> off < c_off pcache + cache_size cfg then do {
        let diff = lfs_min (of_nat (length data)) (cache_size cfg - (off - c_off pcache));
        buf \<leftarrow> mem_put (c_buffer pcache) (unat (off - c_off pcache)) (take (unat diff) data);
        let off1 = off + diff;
        let pcache1 = pcache \<lparr> c_buffer := buf, c_size := lfs_max (c_size pcache) (off1 - c_off pcache) \<rparr>;
        (err, pcache2, rcache2, d2) \<leftarrow> (if c_size pcache1 = cache_size cfg
          then lfs_bd_flush cfg validate pcache1 rcache d else Some (0, pcache1, rcache, d));
        if err \<noteq> 0 then Some (err, pcache2, rcache2, d2)
        else lfs_bd_prog cfg validate block off1 (drop (unat diff) data) pcache2 rcache2 d2
      }
      else lfs_bd_prog cfg validate block off data
        (pcache \<lparr> c_block := block, c_off := lfs_aligndown off (prog_size cfg), c_size := 0 \<rparr>) rcache d)"

definition lfs_bd_erase :: "'d lfs_config \<Rightarrow> u32 \<Rightarrow> 'd \<Rightarrow> (int \<times> 'd) option" where
  "lfs_bd_erase cfg block d = cfg_erase cfg block d"

section \<open>Segments\<close>

definition segment :: "nat \<Rightarrow> nat \<Rightarrow> 'a list \<Rightarrow> 'a list" where
  "segment i n xs = take n (drop i xs)"

lemma segment_0 [simp]: "segment i 0 xs = []"
  by (simp add: segment_def)

lemma segment_add: "segment i (a + b) xs = segment i a xs @ segment (i + a) b xs"
  by (simp add: segment_def take_add add.commute)

lemma segment_segment: "a + n \<le> m \<Longrightarrow> segment a n (segment i m xs) = segment (i + a) n xs"
  by (simp add: segment_def drop_take min_def ac_simps)

lemma length_segment: "i + n \<le> length xs \<Longrightarrow> length (segment i n xs) = n"
  by (simp add: segment_def)

lemma nth_segment: "j < n \<Longrightarrow> i + n \<le> length xs \<Longrightarrow> segment i n xs ! j = xs ! (i + j)"
  by (simp add: segment_def)

lemma length_overlay [simp]: "i + length ys \<le> length xs \<Longrightarrow> length (overlay xs i ys) = length xs"
  by (simp add: overlay_def)

lemma nth_overlay:
  "i + length ys \<le> length xs \<Longrightarrow> j < length xs \<Longrightarrow>
   overlay xs i ys ! j = (if i \<le> j \<and> j < i + length ys then ys ! (j - i) else xs ! j)"
  by (auto simp: overlay_def nth_append)

lemma segment_overlay_inside:
  assumes "i \<le> a" "a + n \<le> i + length ys" "i + length ys \<le> length xs"
  shows "segment a n (overlay xs i ys) = segment (a - i) n ys"
  using assms by (intro nth_equalityI) (auto simp: length_segment nth_segment nth_overlay)

lemma segment_overlay_outside:
  assumes "a + n \<le> i \<or> i + length ys \<le> a" "a + n \<le> length xs" "i + length ys \<le> length xs"
  shows "segment a n (overlay xs i ys) = segment a n xs"
  using assms by (intro nth_equalityI) (auto simp: length_segment nth_segment nth_overlay)

lemma overlay_Nil [simp]: "overlay xs i [] = xs"
  by (simp add: overlay_def)

lemma mem_get_segment: "i + n \<le> length xs \<Longrightarrow> mem_get xs i n = Some (segment i n xs)"
  by (simp add: mem_get_def segment_def)

lemma segment_all: "length xs = n \<Longrightarrow> segment 0 n xs = xs"
  by (simp add: segment_def)

lemma mod_diff_0: "a mod R = 0 \<Longrightarrow> b mod R = 0 \<Longrightarrow> (a - b :: nat) mod R = 0"
  by (meson dvd_diff_nat mod_0_imp_dvd mod_eq_0_iff_dvd)

lemma unat_add_small: "unat a + unat b < 2 ^ 32 \<Longrightarrow> unat (a + b :: u32) = unat a + unat b"
  by (simp add: unat_word_ariths)

section \<open>The contract of the device\<close>

locale block_device =
  fixes cfg :: "'d lfs_config" and valid :: "'d \<Rightarrow> bool" and contents :: "'d \<Rightarrow> u32 \<Rightarrow> u8 list"
  assumes length_contents: "length (contents d b) = unat (block_size cfg)"
    and read: "\<lbrakk>valid d; unat off mod unat (read_size cfg) = 0; unat n mod unat (read_size cfg) = 0; 0 < unat n;
      unat off + unat n \<le> unat (block_size cfg)\<rbrakk> \<Longrightarrow> \<exists>err bytes d1. cfg_read cfg b off n d = Some (err, bytes, d1) \<and>
      valid d1 \<and> contents d1 = contents d \<and> length bytes \<le> unat n \<and> err \<le> 0 \<and> (err = 0 \<longrightarrow> bytes = segment (unat off) (unat n) (contents d b))"
    and prog: "\<lbrakk>valid d; unat off mod unat (prog_size cfg) = 0; length bytes mod unat (prog_size cfg) = 0; 0 < length bytes;
      unat off + length bytes \<le> unat (block_size cfg)\<rbrakk> \<Longrightarrow> \<exists>err d1. cfg_prog cfg b off bytes d = Some (err, d1) \<and>
      valid d1 \<and> err \<le> 0 \<and> (\<forall>b1. b1 \<noteq> b \<longrightarrow> contents d1 b1 = contents d b1) \<and>
      (err = 0 \<longrightarrow> contents d1 b = overlay (contents d b) (unat off) bytes)"
    and erase: "valid d \<Longrightarrow> \<exists>err d1. cfg_erase cfg b d = Some (err, d1) \<and>
      valid d1 \<and> err \<le> 0 \<and> (\<forall>b1. b1 \<noteq> b \<longrightarrow> contents d1 b1 = contents d b1)"
    and sync: "valid d \<Longrightarrow> \<exists>err d1. cfg_sync cfg d = Some (err, d1) \<and> valid d1 \<and> err \<le> 0 \<and> contents d1 = contents d"
    and sizes: "0 < read_size cfg" "unat (read_size cfg) dvd unat (prog_size cfg)" "0 < prog_size cfg"
      "unat (prog_size cfg) dvd unat (cache_size cfg)" "0 < cache_size cfg"
      "unat (cache_size cfg) dvd unat (block_size cfg)" "0 < block_size cfg" "unat (block_size cfg) < 2 ^ 30"
      "0 < block_count cfg" "unat (block_count cfg) < 0xFFFFFFFE"
begin

text \<open>What the caches have to do with the device. A program cache belongs to the block that it is about to be
  written to, a read cache to the block it has been read from.\<close>

definition pcache_ok :: "lfs_cache \<Rightarrow> bool" where
  "pcache_ok p \<longleftrightarrow> length (c_buffer p) = unat (cache_size cfg) \<and>
     (c_block p \<noteq> LFS_BLOCK_NULL \<longrightarrow> unat (c_off p) mod unat (prog_size cfg) = 0 \<and>
       unat (c_size p) \<le> unat (cache_size cfg) \<and> unat (c_off p) + unat (c_size p) \<le> unat (block_size cfg))"

definition usable :: "'d \<Rightarrow> lfs_cache \<Rightarrow> bool" where
  "usable d r \<longleftrightarrow> valid d \<and> length (c_buffer r) = unat (cache_size cfg)"

definition rcache_ok :: "'d \<Rightarrow> lfs_cache \<Rightarrow> bool" where
  "rcache_ok d r \<longleftrightarrow> usable d r \<and>
     (c_block r \<noteq> LFS_BLOCK_NULL \<longrightarrow> unat (c_off r) mod unat (read_size cfg) = 0 \<and>
       unat (c_size r) \<le> unat (cache_size cfg) \<and> unat (c_off r) + unat (c_size r) \<le> unat (block_size cfg) \<and>
       segment 0 (unat (c_size r)) (c_buffer r) = segment (unat (c_off r)) (unat (c_size r)) (contents d (c_block r)))"

definition view :: "lfs_cache option \<Rightarrow> 'd \<Rightarrow> u32 \<Rightarrow> u8 list" where
  "view pcache d b = (case pcache of
       None \<Rightarrow> contents d b
     | Some p \<Rightarrow> if c_block p = b then overlay (contents d b) (unat (c_off p)) (segment 0 (unat (c_size p)) (c_buffer p))
         else contents d b)"

lemma size_facts:
  "0 < unat (read_size cfg)" "0 < unat (prog_size cfg)" "0 < unat (cache_size cfg)" "0 < unat (block_size cfg)"
  "unat (read_size cfg) dvd unat (cache_size cfg)" "unat (read_size cfg) dvd unat (block_size cfg)"
  "unat (prog_size cfg) dvd unat (block_size cfg)"
  "unat (read_size cfg) \<le> unat (cache_size cfg)" "unat (cache_size cfg) \<le> unat (block_size cfg)"
  "unat (prog_size cfg) \<le> unat (cache_size cfg)" "unat (block_size cfg) < 2 ^ 30"
proof -
  show pos: "0 < unat (read_size cfg)" "0 < unat (prog_size cfg)" "0 < unat (cache_size cfg)" "0 < unat (block_size cfg)"
    using sizes by (simp_all add: unat_gt_0 word_gt_0)
  show dvd: "unat (read_size cfg) dvd unat (cache_size cfg)" "unat (read_size cfg) dvd unat (block_size cfg)"
    "unat (prog_size cfg) dvd unat (block_size cfg)"
    using sizes(2,4,6) dvd_trans by blast+
  show "unat (read_size cfg) \<le> unat (cache_size cfg)" "unat (cache_size cfg) \<le> unat (block_size cfg)"
    "unat (prog_size cfg) \<le> unat (cache_size cfg)"
    using dvd(1) sizes(4,6) pos by (auto intro: dvd_imp_le)
  show "unat (block_size cfg) < 2 ^ 30" by (rule sizes(8))
qed

lemma in_cache_iff:
  "unat (c_off c) + unat (c_size c) \<le> unat (block_size cfg) \<Longrightarrow>
   in_cache c b off \<longleftrightarrow> b = c_block c \<and> unat off < unat (c_off c) + unat (c_size c)"
  using size_facts(11) by (simp add: in_cache_def word_less_nat_alt unat_add_small)

text \<open>What a step of a read may do: the device and what is to be read stay, it fails or goes on; going on it
  has read some bytes or loaded the cache.\<close>

definition holds :: "lfs_cache \<Rightarrow> u32 \<Rightarrow> u32 \<Rightarrow> bool" where
  "holds r block off \<longleftrightarrow> in_cache r block off \<and> c_off r \<le> off"

definition step_ok :: "u8 list \<Rightarrow> u32 \<Rightarrow> 'd read_state \<Rightarrow> 'd read_state progress \<Rightarrow> bool" where
  "step_ok v block st res = (case st of (off, len, data, r, d) \<Rightarrow> (case res of
       Stop err (off1, len1, data1, r1, d1) \<Rightarrow> err < 0 \<and> contents d1 = contents d \<and> usable d1 r1
     | Again (off1, len1, data1, r1, d1) \<Rightarrow> contents d1 = contents d \<and> rcache_ok d1 r1 \<and>
         (\<exists>n. unat off1 = unat off + n \<and> unat len1 + n = unat len \<and> data1 = data @ segment (unat off) n v \<and>
           (0 < n \<or> \<not> holds r block off \<and> holds r1 block off))))"

lemma read_cache_ok:
  assumes "unat (c_size c) \<le> length (c_buffer c)" "unat (c_off c) + unat (c_size c) \<le> unat (block_size cfg)"
    and "unat (c_off c) \<le> unat off" "unat off < unat (c_off c) + unat (c_size c)" "0 < unat limit" "unat limit \<le> unat len"
    and "unat off + unat len \<le> unat (block_size cfg)" "rcache_ok d r"
    and "\<And>n. unat off + n \<le> unat (c_off c) + unat (c_size c) \<Longrightarrow> n \<le> unat limit \<Longrightarrow>
      segment (unat off - unat (c_off c)) n (c_buffer c) = segment (unat off) n v"
  shows "\<exists>res. read_cache c limit (off, len, data, r, d) = Some res \<and> step_ok v block (off, len, data, r, d) res"
proof -
  let ?diff = "lfs_min limit (c_size c - (off - c_off c))"
  define n where "n = unat ?diff"
  have o: "unat (off - c_off c) = unat off - unat (c_off c)" using assms(3) by (simp add: unat_sub_no_wrap)
  have "unat (c_size c - (off - c_off c)) = unat (c_size c) - (unat off - unat (c_off c))"
    using assms(3,4) by (simp add: unat_sub_no_wrap o)
  then have n: "n = min (unat limit) (unat (c_off c) + unat (c_size c) - unat off)" using assms(3,4) by (simp add: n_def)
  have pos: "0 < n" using n assms(4,5) by simp
  have le: "n \<le> unat len" "unat off + n \<le> unat (c_off c) + unat (c_size c)" using n assms(4,6) by auto
  have get: "mem_get (c_buffer c) (unat (off - c_off c)) n = Some (segment (unat off) n v)"
    using assms(1,3) assms(9)[of n] le n by (simp add: o mem_get_segment)
  have off1: "unat (off + ?diff) = unat off + n" using le(1) assms(7) size_facts(11) by (simp add: unat_add_small n_def)
  have len1: "unat (len - ?diff) + n = unat len" using le(1) by (simp add: unat_sub_no_wrap n_def)
  show ?thesis
    using get pos off1 len1 assms(8) by (auto simp: read_cache_def step_ok_def Let_def n_def)
qed

lemma rcache_ok_usable: "rcache_ok d r \<Longrightarrow> usable d r"
  by (simp add: rcache_ok_def)

lemma rcache_ok_cong: "contents d1 = contents d \<Longrightarrow> valid d1 \<Longrightarrow> rcache_ok d r \<Longrightarrow> rcache_ok d1 r"
  by (simp add: rcache_ok_def usable_def)

lemma loading_window:
  assumes "unat off < unat (block_size cfg)" "0 < unat hint" "unat hint \<le> unat (block_size cfg)"
    and "start = lfs_aligndown off (read_size cfg)"
    and "n = lfs_min (lfs_min (lfs_alignup (off + hint) (read_size cfg)) (block_size cfg) - start) (cache_size cfg)"
  shows "unat start mod unat (read_size cfg) = 0" "unat n mod unat (read_size cfg) = 0" "unat start \<le> unat off"
    "unat off < unat start + unat n" "unat start + unat n \<le> unat (block_size cfg)" "unat n \<le> unat (cache_size cfg)"
proof -
  let ?R = "unat (read_size cfg)" and ?B = "unat (block_size cfg)" and ?C = "unat (cache_size cfg)"
  let ?A = "unat (lfs_alignup (off + hint) (read_size cfg))"
  have start: "unat start = unat off - unat off mod ?R" by (simp add: assms(4) unat_aligndown)
  have "unat off mod ?R < ?R" using size_facts(1) by simp
  with start have s: "unat start mod ?R = 0" "unat start \<le> unat off" "unat off < unat start + ?R"
    by (simp add: minus_mod_eq_mult_div, linarith, linarith)
  have sum: "unat (off + hint) = unat off + unat hint" using assms(1,3) size_facts(11) by (simp add: unat_add_small)
  have A: "?A = (unat off + unat hint + ?R - 1) div ?R * ?R"
    using size_facts assms(1,3) by (subst unat_alignup) (simp_all add: sum)
  have "unat off + unat hint + ?R - 1 < ?A + ?R" unfolding A
    using dividend_less_div_times[OF size_facts(1)] by (simp add: add.commute)
  then have gt: "unat off < ?A" using assms(2) by linarith
  have Am: "?A mod ?R = 0" by (simp add: A)
  have m: "min ?A ?B mod ?R = 0" "?B mod ?R = 0" "?C mod ?R = 0"
    using Am size_facts(5,6) by (simp_all add: min_def mod_eq_0_iff_dvd)
  have n: "unat n = min (min ?A ?B - unat start) ?C"
    using s(2) gt assms(1) by (simp add: assms(5) unat_sub_no_wrap)
  show "unat start mod ?R = 0" "unat start \<le> unat off" by (rule s)+
  show "unat n mod ?R = 0" unfolding n using mod_diff_0[OF m(1) s(1)] m(3) by (simp add: min_def)
  show "unat off < unat start + unat n" unfolding n using s gt assms(1) size_facts(8) by (simp add: min_def) 
  have "unat n \<le> min ?A ?B - unat start" "min ?A ?B \<le> ?B" "unat start \<le> min ?A ?B"
    unfolding n using s gt assms(1) by simp_all
  then show "unat start + unat n \<le> ?B" by linarith
  show "unat n \<le> ?C" unfolding n by simp
qed

lemma read_device_ok:
  assumes "unat off + unat len \<le> unat (block_size cfg)" "0 < unat len" "0 < unat limit" "unat limit \<le> unat len"
    and "block \<noteq> LFS_BLOCK_NULL" "0 < unat hint" "unat hint \<le> unat (block_size cfg)" "rcache_ok d r" "\<not> holds r block off"
    and "unat off mod unat (read_size cfg) = 0 \<Longrightarrow> unat (read_size cfg) \<le> unat len \<Longrightarrow> unat (read_size cfg) \<le> unat limit"
    and "\<And>n. n \<le> unat limit \<Longrightarrow> segment (unat off) n (contents d block) = segment (unat off) n v"
  shows "\<exists>res. read_device cfg hint block limit (off, len, data, r, d) = Some res \<and> step_ok v block (off, len, data, r, d) res"
proof (cases "hint \<le> len \<and> off mod read_size cfg = 0 \<and> read_size cfg \<le> len")
  case True
  let ?R = "unat (read_size cfg)" and ?diff = "lfs_aligndown limit (read_size cfg)"
  have al: "unat off mod ?R = 0" using True by (metis unat_mod unat_0)
  then have R: "?R \<le> unat limit" using assms(10) True by (simp add: word_le_nat_alt)
  have n: "unat ?diff = unat limit - unat limit mod ?R" by (rule unat_aligndown)
  have lt: "unat limit mod ?R < ?R" using size_facts(1) by simp
  have nn: "0 < unat ?diff" "unat ?diff \<le> unat limit" "unat ?diff mod ?R = 0"
    using n R lt by (linarith, linarith, simp add: minus_mod_eq_mult_div)
  have "unat off + unat ?diff \<le> unat (block_size cfg)" using nn(2) assms(1,4) by linarith
  from read[OF _ al nn(3,1) this, of d block] rcache_ok_usable[OF assms(8)] obtain err bytes d1 where rd: "cfg_read cfg block off ?diff d = Some (err, bytes, d1)"
    and res: "contents d1 = contents d" "valid d1" "err \<le> 0"
      "err = 0 \<Longrightarrow> bytes = segment (unat off) (unat ?diff) (contents d block)"
    by (auto simp: usable_def)
  have off1: "unat (off + ?diff) = unat off + unat ?diff"
    using nn(2) assms(1,4) size_facts(11) by (intro unat_add_small) simp
  have len1: "unat (len - ?diff) + unat ?diff = unat len" using nn(2) assms(4) by (simp add: unat_sub_no_wrap)
  show ?thesis
    using True rd res off1 len1 nn assms(8,11) rcache_ok_cong[OF res(1,2) assms(8)] rcache_ok_usable[of d1 r]
    by (auto simp: read_device_def step_ok_def Let_def)
next
  case False
  define start where "start = lfs_aligndown off (read_size cfg)"
  define n where "n = lfs_min (lfs_min (lfs_alignup (off + hint) (read_size cfg)) (block_size cfg) - start) (cache_size cfg)"
  have off: "unat off < unat (block_size cfg)" using assms(1,2) by simp
  note w = loading_window[OF off assms(6,7) start_def n_def]
  have pos: "0 < unat n" using w(3,4) by simp
  have buf: "valid d" "length (c_buffer r) = unat (cache_size cfg)"
    using rcache_ok_usable[OF assms(8)] by (simp_all add: usable_def)
  from read[OF buf(1) w(1,2) pos w(5)] obtain err bytes d1 where rd: "cfg_read cfg block start n d = Some (err, bytes, d1)"
    and res: "contents d1 = contents d" "length bytes \<le> unat n" "err \<le> 0" "valid d1"
      "err = 0 \<Longrightarrow> bytes = segment (unat start) (unat n) (contents d block)" by blast
  have put: "mem_put (c_buffer r) 0 bytes = Some (overlay (c_buffer r) 0 bytes)"
    using res(2) buf(2) w(6) by (simp add: mem_put_def)
  define r1 where "r1 = \<lparr> c_block = block, c_off = start, c_size = n, c_buffer = overlay (c_buffer r) 0 bytes \<rparr>"
  have step: "read_device cfg hint block limit (off, len, data, r, d) =
      Some (if err \<noteq> 0 then Stop err (off, len, data, r1, d1) else Again (off, len, data, r1, d1))"
    by (simp only: read_device_def prod.case if_not_P[OF False] Let_def start_def[symmetric] n_def[symmetric])
      (simp add: rd put r1_def)
  have "rcache_ok d1 r1 \<and> holds r1 block off" if "err = 0"
  proof -
    have bytes: "bytes = segment (unat start) (unat n) (contents d block)" using res that by simp
    then have len: "length bytes = unat n" using w(5) by (simp add: length_segment length_contents)
    have "segment 0 (unat n) (overlay (c_buffer r) 0 bytes) = bytes"
      using len buf w(6) by (subst segment_overlay_inside) (simp_all add: segment_all)
    then show ?thesis using w buf bytes len res
      by (auto simp: rcache_ok_def usable_def holds_def r1_def in_cache_iff word_le_nat_alt)
  qed
  moreover have "usable d1 r1" using buf(2) res(2,4) w(6) by (simp add: usable_def r1_def)
  ultimately show ?thesis unfolding step using res assms(9) by (auto simp: step_ok_def)
qed

lemma read_below_ok:
  assumes "unat off + unat len \<le> unat (block_size cfg)" "0 < unat len" "0 < unat limit" "unat limit \<le> unat len"
    and "block \<noteq> LFS_BLOCK_NULL" "0 < unat hint" "unat hint \<le> unat (block_size cfg)" "rcache_ok d r"
    and "unat off mod unat (read_size cfg) = 0 \<Longrightarrow> unat (read_size cfg) \<le> unat len \<Longrightarrow> unat (read_size cfg) \<le> unat limit"
    and "\<And>n. n \<le> unat limit \<Longrightarrow> segment (unat off) n (contents d block) = segment (unat off) n v"
  shows "\<exists>res. read_below cfg hint block limit (off, len, data, r, d) = Some res \<and> step_ok v block (off, len, data, r, d) res"
proof (cases "in_cache r block off")
  case True
  then have null: "c_block r \<noteq> LFS_BLOCK_NULL" using assms(5) by (simp add: in_cache_def)
  then have r: "unat (c_size r) \<le> length (c_buffer r)" "unat (c_off r) + unat (c_size r) \<le> unat (block_size cfg)"
    "unat (c_off r) mod unat (read_size cfg) = 0"
    "segment 0 (unat (c_size r)) (c_buffer r) = segment (unat (c_off r)) (unat (c_size r)) (contents d (c_block r))"
    using assms(8) by (simp_all add: rcache_ok_def usable_def)
  then have c: "block = c_block r" "unat off < unat (c_off r) + unat (c_size r)" using True in_cache_iff[of r] by auto
  show ?thesis
  proof (cases "c_off r \<le> off")
    case True
    then have o: "unat (c_off r) \<le> unat off" by (simp add: word_le_nat_alt)
    have "segment (unat off - unat (c_off r)) n (c_buffer r) = segment (unat off) n v"
      if n: "unat off + n \<le> unat (c_off r) + unat (c_size r)" "n \<le> unat limit" for n
    proof -
      have "segment (unat off - unat (c_off r)) n (c_buffer r) =
          segment (unat off - unat (c_off r)) n (segment 0 (unat (c_size r)) (c_buffer r))"
        using n(1) o by (subst segment_segment) simp_all
      also have "\<dots> = segment (unat off) n (contents d block)"
        using n(1) o c(1) by (simp add: r(4) segment_segment)
      finally show ?thesis using assms(10)[OF n(2)] by simp
    qed
    from read_cache_ok[OF r(1,2) o c(2) assms(3,4,1,8) this] show ?thesis
      using True \<open>in_cache r block off\<close> by (simp add: read_below_def)
  next
    case False
    then have o: "unat off < unat (c_off r)" by (simp add: word_le_nat_alt)
    have lim: "unat (lfs_min limit (c_off r - off)) = min (unat limit) (unat (c_off r) - unat off)"
      using o by (simp add: unat_sub_no_wrap)
    have al: "unat (read_size cfg) \<le> unat (c_off r) - unat off" if "unat off mod unat (read_size cfg) = 0"
      using mod_diff_0[OF r(3) that] o by (metis dvd_imp_le mod_0_imp_dvd zero_less_diff)
    have "\<exists>res. read_device cfg hint block (lfs_min limit (c_off r - off)) (off, len, data, r, d) = Some res \<and>
        step_ok v block (off, len, data, r, d) res"
      using assms(3,4,9,10) o lim al False
      by (intro read_device_ok[OF assms(1,2) _ _ assms(5-8)]) (auto simp: holds_def)
    then show ?thesis using False \<open>in_cache r block off\<close> by (simp add: read_below_def)
  qed
next
  case False
  then have "\<not> holds r block off" by (simp add: holds_def)
  from read_device_ok[OF assms(1-8) this assms(9,10)] show ?thesis using False by (simp add: read_below_def)
qed

definition window_ok :: "lfs_cache option \<Rightarrow> bool" where
  "window_ok pcache \<longleftrightarrow> (case pcache of None \<Rightarrow> True | Some p \<Rightarrow> pcache_ok p)"

lemma read_step_ok:
  assumes "unat off + unat len \<le> unat (block_size cfg)" "0 < unat len"
    and "block \<noteq> LFS_BLOCK_NULL" "0 < unat hint" "unat hint \<le> unat (block_size cfg)" "rcache_ok d r" "window_ok pcache"
  shows "\<exists>res. read_step cfg pcache hint block (off, len, data, r, d) = Some res \<and>
    step_ok (view pcache d block) block (off, len, data, r, d) res"
proof -
  have below: "\<exists>res. read_below cfg hint block len (off, len, data, r, d) = Some res \<and>
      step_ok (view pcache d block) block (off, len, data, r, d) res"
    if "\<And>n. n \<le> unat len \<Longrightarrow> segment (unat off) n (contents d block) = segment (unat off) n (view pcache d block)"
    using that by (intro read_below_ok[OF assms(1,2,2) order_refl assms(3-6)])
  show ?thesis
  proof (cases pcache)
    case None
    then have "view pcache d block = contents d block" by (simp add: view_def)
    then show ?thesis using below None by (simp add: read_step_def)
  next
    case (Some p)
    show ?thesis
    proof (cases "block = c_block p")
      case False
      then have "view pcache d block = contents d block" using Some by (simp add: view_def)
      then show ?thesis using below Some False by (simp add: read_step_def in_cache_def)
    next
      case True
      then have p: "length (c_buffer p) = unat (cache_size cfg)" "unat (c_off p) mod unat (prog_size cfg) = 0"
        "unat (c_size p) \<le> unat (cache_size cfg)" "unat (c_off p) + unat (c_size p) \<le> unat (block_size cfg)"
        using assms(3,7) Some by (auto simp: window_ok_def pcache_ok_def)
      let ?ys = "segment 0 (unat (c_size p)) (c_buffer p)"
      have ys: "length ?ys = unat (c_size p)" using p by (simp add: length_segment)
      have v: "view pcache d block = overlay (contents d block) (unat (c_off p)) ?ys" using Some True by (simp add: view_def)
      have outside: "segment (unat off) n (contents d block) = segment (unat off) n (view pcache d block)"
        if "n \<le> unat len" "unat off + n \<le> unat (c_off p) \<or> unat (c_off p) + unat (c_size p) \<le> unat off" for n
        using that assms(1) p(4) ys unfolding v by (subst segment_overlay_outside) (auto simp: length_contents)
      consider (hit) "in_cache p block off" "c_off p \<le> off" | (below) "in_cache p block off" "\<not> c_off p \<le> off"
        | (out) "\<not> in_cache p block off" by blast
      then show ?thesis
      proof cases
        case hit
        then have o: "unat (c_off p) \<le> unat off" "unat off < unat (c_off p) + unat (c_size p)"
          using in_cache_iff[OF p(4)] by (auto simp: word_le_nat_alt)
        have "segment (unat off - unat (c_off p)) n (c_buffer p) = segment (unat off) n (view pcache d block)"
          if "unat off + n \<le> unat (c_off p) + unat (c_size p)" for n
          using that o p(4) ys unfolding v
          by (subst segment_overlay_inside) (simp_all add: length_contents segment_segment)
        moreover have "unat (c_size p) \<le> length (c_buffer p)" using p by simp
        ultimately show ?thesis
          using read_cache_ok[of p off len len d r "view pcache d block" data block] p(4) o assms(1,2,6) Some hit
          by (simp add: read_step_def)
      next
        case below
        then have o: "unat off < unat (c_off p)" by (simp add: word_le_nat_alt)
        have lim: "unat (lfs_min len (c_off p - off)) = min (unat len) (unat (c_off p) - unat off)"
          using o by (simp add: unat_sub_no_wrap)
        have "unat (c_off p) mod unat (read_size cfg) = 0" using p(2) sizes(2) by (metis dvd_trans mod_0_imp_dvd mod_eq_0_iff_dvd)
        then have al: "unat (read_size cfg) \<le> unat (c_off p) - unat off" if "unat off mod unat (read_size cfg) = 0"
          using mod_diff_0[OF _ that] o by (metis dvd_imp_le mod_0_imp_dvd zero_less_diff)
        have "\<exists>res. read_below cfg hint block (lfs_min len (c_off p - off)) (off, len, data, r, d) = Some res \<and>
            step_ok (view pcache d block) block (off, len, data, r, d) res"
          using o lim al assms(2) by (intro read_below_ok[OF assms(1,2) _ _ assms(3-6)] outside) auto
        then show ?thesis using Some below by (simp add: read_step_def)
      next
        case out
        then have "unat (c_off p) + unat (c_size p) \<le> unat off" using in_cache_iff[OF p(4)] True by auto
        then show ?thesis using below outside Some out by (simp add: read_step_def)
      qed
    qed
  qed
qed

section \<open>Reading\<close>

lemma view_cong: "contents d1 = contents d \<Longrightarrow> view pcache d1 b = view pcache d b"
  by (simp add: view_def split: option.split)

lemma block_not_null: "b < block_count cfg \<Longrightarrow> b \<noteq> LFS_BLOCK_NULL" "b < block_count cfg \<Longrightarrow> b \<noteq> LFS_BLOCK_INLINE"
  using sizes(10) by (auto simp: LFS_BLOCK_NULL_def LFS_BLOCK_INLINE_def word_less_nat_alt)

lemma length_view: "window_ok pcache \<Longrightarrow> b \<noteq> LFS_BLOCK_NULL \<Longrightarrow> length (view pcache d b) = unat (block_size cfg)"
  by (auto simp: view_def window_ok_def pcache_ok_def length_contents length_segment split: option.splits)

lemma read_loop_ok:
  assumes "unat off + unat len \<le> unat (block_size cfg)" "block \<noteq> LFS_BLOCK_NULL" "0 < unat hint"
    "unat hint \<le> unat (block_size cfg)" "rcache_ok d r" "window_ok pcache"
  shows "\<exists>err data1 r1 d1. read_loop cfg pcache hint block (off, len, data, r, d) = Some (err, data1, r1, d1) \<and>
    contents d1 = contents d \<and> usable d1 r1 \<and> err \<le> 0 \<and>
    (err = 0 \<longrightarrow> data1 = data @ segment (unat off) (unat len) (view pcache d block) \<and> rcache_ok d1 r1)"
  using assms(1,5)
proof (induction "2 * unat len + (if holds r block off then 0 else 1)" arbitrary: off len data r d rule: less_induct)
  case less
  show ?case
  proof (cases "len = 0")
    case True
    then show ?thesis using less.prems rcache_ok_usable by (subst read_loop.simps) simp
  next
    case False
    then have pos: "0 < unat len" by (simp add: unat_gt_0)
    from read_step_ok[OF less.prems(1) pos assms(2-4) less.prems(2) assms(6)] obtain res where
      step: "read_step cfg pcache hint block (off, len, data, r, d) = Some res"
      and ok: "step_ok (view pcache d block) block (off, len, data, r, d) res" by blast
    have unfold: "read_loop cfg pcache hint block (off, len, data, r, d) = (case res of
        Stop err (off1, len1, data1, r1, d1) \<Rightarrow> Some (err, data1, r1, d1)
      | Again st1 \<Rightarrow> read_loop cfg pcache hint block st1)"
      using False by (subst read_loop.simps) (simp add: step)
    show ?thesis
    proof (cases res)
      case (Stop err st1)
      then show ?thesis using ok unfolding unfold by (cases st1) (simp add: step_ok_def)
    next
      case (Again st1)
      obtain off1 len1 data1 r1 d1 where st1: "st1 = (off1, len1, data1, r1, d1)" by (metis prod_cases5)
      from ok obtain n where c: "contents d1 = contents d" "rcache_ok d1 r1"
        and n: "unat off1 = unat off + n" "unat len1 + n = unat len" "data1 = data @ segment (unat off) n (view pcache d block)"
          "0 < n \<or> \<not> holds r block off \<and> holds r1 block off"
        by (auto simp: step_ok_def Again st1)
      have "holds r1 block off1" if "n = 0" "holds r1 block off"
        using n(1) that by (simp add: word_unat_eq_iff[symmetric])
      then have "2 * unat len1 + (if holds r1 block off1 then 0 else 1) < 2 * unat len + (if holds r block off then 0 else 1)"
        using n(2,4) by (cases "n = 0") auto
      from less.hyps[OF this _ c(2), of data1] n(1,2) less.prems(1) obtain err data2 r2 d2 where
        rec: "read_loop cfg pcache hint block (off1, len1, data1, r1, d1) = Some (err, data2, r2, d2)"
          "contents d2 = contents d1" "usable d2 r2" "err \<le> 0"
          "err = 0 \<Longrightarrow> data2 = data1 @ segment (unat off1) (unat len1) (view pcache d1 block) \<and> rcache_ok d2 r2" by auto
      have "segment (unat off) (unat len) (view pcache d block) =
          segment (unat off) n (view pcache d block) @ segment (unat off1) (unat len1) (view pcache d1 block)"
        unfolding n(2)[symmetric] n(1) view_cong[OF c(1)]
        using segment_add[of "unat off" n "unat len1" "view pcache d block"] by (simp add: add.commute)
      then show ?thesis using rec c n(3) unfolding unfold Again st1 by auto
    qed
  qed
qed

lemma lfs_bd_read_ok:
  assumes "unat off + unat len \<le> unat (block_size cfg)" "block < block_count cfg" "0 < unat hint"
    "unat hint \<le> unat (block_size cfg)" "rcache_ok d r" "window_ok pcache"
  shows "\<exists>err data r1 d1. lfs_bd_read cfg pcache hint block off len r d = Some (err, data, r1, d1) \<and>
    contents d1 = contents d \<and> usable d1 r1 \<and> err \<le> 0 \<and>
    (err = 0 \<longrightarrow> data = segment (unat off) (unat len) (view pcache d block) \<and> rcache_ok d1 r1)"
proof -
  have "unat (off + len) = unat off + unat len" using assms(1) size_facts(11) by (simp add: unat_add_small)
  then have "\<not> block_size cfg < off + len" using assms(1) by (simp add: word_less_nat_alt)
  moreover have "block \<noteq> LFS_BLOCK_NULL" by (rule block_not_null(1)[OF assms(2)])
  ultimately show ?thesis
    using read_loop_ok[OF assms(1) _ assms(3-6), of block "[]"] assms(2)
    by (auto simp: lfs_bd_read_def not_le)
qed

lemma lfs_bd_read_outside:
  "\<lbrakk>unat off + unat len < 2 ^ 32; unat (block_size cfg) < unat off + unat len \<or> block_count cfg \<le> block\<rbrakk> \<Longrightarrow>
   lfs_bd_read cfg pcache hint block off len r d = Some (LFS_ERR_CORRUPT, [], r, d)"
  using sizes(9) by (auto simp: lfs_bd_read_def word_less_nat_alt unat_add_small)

end

end
