(* ===== verification/Lfs_Bd_Write.thy ===== *)
theory Lfs_Bd_Write
  imports Lfs_Bd
begin

text \<open>
  Comparing, checksums and writing through the caches of littlefs (\<^verbatim>\<open>warp/wem/littlefs/lfs.c\<close>):
  what the functions of \<^verbatim>\<open>Lfs_Bd\<close> do on a device that keeps the contract.
\<close>

lemma memcmp_eq: "length xs = length ys \<Longrightarrow> memcmp xs ys = 0 \<longleftrightarrow> xs = ys"
  by (induction xs ys rule: list_induct2) simp_all

lemma segment_take: "segment 0 n xs = take n xs"
  by (simp add: segment_def)

lemma overlay_overlay:
  "i + length ys + length zs \<le> length xs \<Longrightarrow> overlay (overlay xs i ys) (i + length ys) zs = overlay xs i (ys @ zs)"
  by (simp add: overlay_def ac_simps)

lemma overlay_append_at:
  "i + length ys \<le> length xs \<Longrightarrow> segment 0 (i + length ys) (overlay xs i ys) = segment 0 i xs @ ys"
  by (cases ys) (auto simp: overlay_def segment_def min_def)

context block_device begin

section \<open>Reading in pieces\<close>

lemma chunk:
  assumes "i < len" "unat off + unat len \<le> unat (block_size cfg)" "unat len \<le> unat hint" "unat hint \<le> unat (block_size cfg)"
    and "diff = lfs_min (len - i) 8"
  shows "0 < unat diff" "unat (off + i) + unat diff \<le> unat (block_size cfg)" "0 < unat (hint - i)"
    "unat (hint - i) \<le> unat (block_size cfg)" "unat (off + i) = unat off + unat i" "unat (i + diff) = unat i + unat diff"
    "unat i + unat diff \<le> unat len"
proof -
  have i: "unat i < unat len" using assms(1) by (simp add: word_less_nat_alt)
  have d: "unat diff = min (unat len - unat i) 8" using i by (simp add: assms(5) unat_sub_no_wrap)
  show "0 < unat diff" using d i by simp
  show le: "unat i + unat diff \<le> unat len" using d i by simp
  show oi: "unat (off + i) = unat off + unat i" using assms(2) i size_facts(11) by (simp add: unat_add_small)
  show "unat (off + i) + unat diff \<le> unat (block_size cfg)" using oi le assms(2) by simp
  have h: "unat (hint - i) = unat hint - unat i" using i assms(3) by (simp add: unat_sub_no_wrap)
  then show "0 < unat (hint - i)" "unat (hint - i) \<le> unat (block_size cfg)" using i assms(3,4) by simp_all
  show "unat (i + diff) = unat i + unat diff" using le assms(2) size_facts(11) by (simp add: unat_add_small)
qed

lemma chunk_segment:
  "unat i + n \<le> len \<Longrightarrow> segment (a + unat i) (len - unat i) xs = segment (a + unat i) n xs @ segment (a + (unat i + n)) (len - (unat i + n)) xs"
  using segment_add[of "a + unat i" n "len - (unat i + n)" xs] by (simp add: add.assoc)

lemma cmp_loop_ok:
  assumes "unat off + unat len \<le> unat (block_size cfg)" "block < block_count cfg" "unat len \<le> unat hint"
    "unat hint \<le> unat (block_size cfg)" "window_ok pcache" "unat len \<le> length data" "rcache_ok d r" "unat i \<le> unat len"
  shows "\<exists>res r1 d1. cmp_loop cfg pcache hint block off data len i r d = Some (res, r1, d1) \<and> contents d1 = contents d \<and> usable d1 r1 \<and>
    (0 \<le> res \<longrightarrow> rcache_ok d1 r1 \<and> (res = 0 \<longleftrightarrow>
      segment (unat off + unat i) (unat len - unat i) (view pcache d block) = segment (unat i) (unat len - unat i) data))"
  using assms(7,8)
proof (induction "unat len - unat i" arbitrary: i r d rule: less_induct)
  case less
  show ?case
  proof (cases "len \<le> i")
    case True
    then have "unat len - unat i = 0" by (simp add: word_le_nat_alt)
    then show ?thesis using True less.prems rcache_ok_usable by (subst cmp_loop.simps) (simp add: LFS_CMP_EQ_def)
  next
    case False
    then have i: "i < len" by simp
    define diff where "diff = lfs_min (len - i) 8"
    note c = chunk[OF i assms(1,3,4) diff_def]
    from lfs_bd_read_ok[OF c(2) assms(2) c(3,4) less.prems(1) assms(5)] obtain err dat r1 d1 where
      rd: "lfs_bd_read cfg pcache (hint - i) block (off + i) diff r d = Some (err, dat, r1, d1)"
      and ok: "contents d1 = contents d" "err \<le> 0" "usable d1 r1"
        "err = 0 \<Longrightarrow> dat = segment (unat off + unat i) (unat diff) (view pcache d block) \<and> rcache_ok d1 r1"
      by (auto simp: c(5))
    have get: "mem_get data (unat i) (unat diff) = Some (segment (unat i) (unat diff) data)"
      using c(7) assms(6) by (intro mem_get_segment) simp
    let ?res = "memcmp dat (segment (unat i) (unat diff) data)"
    have unfold: "cmp_loop cfg pcache hint block off data len i r d =
        (if err \<noteq> 0 then Some (err, r1, d1)
         else if ?res \<noteq> 0 then Some (if ?res < 0 then LFS_CMP_LT else LFS_CMP_GT, r1, d1)
         else cmp_loop cfg pcache hint block off data len (i + diff) r1 d1)"
      using False by (subst cmp_loop.simps) (simp add: diff_def[symmetric] rd get)
    show ?thesis
    proof (cases "err = 0")
      case False
      then show ?thesis using ok unfolding unfold by simp
    next
      case True
      note rest = ok(4)[OF True]
      let ?v = "view pcache d block"
      have "length ?v = unat (block_size cfg)" using length_view[OF assms(5)] assms(2) block_not_null by simp
      then have len: "length dat = length (segment (unat i) (unat diff) data)"
        using rest c(2,5,7) assms(6) by (simp add: length_segment)
      have split: "segment (unat off + unat i) (unat len - unat i) ?v = dat @ segment (unat off + unat (i + diff)) (unat len - unat (i + diff)) ?v"
        "segment (unat i) (unat len - unat i) data =
          segment (unat i) (unat diff) data @ segment (unat (i + diff)) (unat len - unat (i + diff)) data"
        using chunk_segment[OF c(7), of "unat off" ?v] chunk_segment[OF c(7), of 0 data] rest by (simp_all add: c(6))
      show ?thesis
      proof (cases "?res = 0")
        case False
        then have "dat \<noteq> segment (unat i) (unat diff) data" using len by (simp add: memcmp_eq)
        then show ?thesis using False True ok rest len unfolding unfold split by (simp add: lfs_codes)
      next
        case eq: True
        have "unat len - unat (i + diff) < unat len - unat i" "unat (i + diff) \<le> unat len" using c by simp_all
        from less.hyps[OF this(1) conjunct2[OF rest] this(2)] obtain res r2 d2 where
          "cmp_loop cfg pcache hint block off data len (i + diff) r1 d1 = Some (res, r2, d2)" "contents d2 = contents d1" "usable d2 r2"
          "0 \<le> res \<Longrightarrow> rcache_ok d2 r2 \<and> (res = 0 \<longleftrightarrow>
             segment (unat off + unat (i + diff)) (unat len - unat (i + diff)) ?v = segment (unat (i + diff)) (unat len - unat (i + diff)) data)"
          by (auto simp: view_cong[OF ok(1)])
        then show ?thesis using True eq ok(1) len unfolding unfold split by (simp add: memcmp_eq)
      qed
    qed
  qed
qed

lemma lfs_bd_cmp_ok:
  assumes "unat off + unat len \<le> unat (block_size cfg)" "block < block_count cfg" "unat len \<le> unat hint"
    "unat hint \<le> unat (block_size cfg)" "window_ok pcache" "unat len \<le> length data" "rcache_ok d r"
  shows "\<exists>res r1 d1. lfs_bd_cmp cfg pcache hint block off data len r d = Some (res, r1, d1) \<and> contents d1 = contents d \<and> usable d1 r1 \<and>
    (0 \<le> res \<longrightarrow> rcache_ok d1 r1 \<and> (res = 0 \<longleftrightarrow> segment (unat off) (unat len) (view pcache d block) = take (unat len) data))"
  using cmp_loop_ok[OF assms, of 0] by (simp add: lfs_bd_cmp_def segment_def)

lemma crc_loop_ok:
  assumes "unat off + unat len \<le> unat (block_size cfg)" "block < block_count cfg" "unat len \<le> unat hint"
    "unat hint \<le> unat (block_size cfg)" "window_ok pcache" "rcache_ok d r" "unat i \<le> unat len"
  shows "\<exists>err crc1 r1 d1. crc_loop cfg pcache hint block off len i crc r d = Some (err, crc1, r1, d1) \<and> contents d1 = contents d \<and> usable d1 r1 \<and>
    err \<le> 0 \<and> (err = 0 \<longrightarrow> rcache_ok d1 r1 \<and>
      crc1 = lfs_crc crc (segment (unat off + unat i) (unat len - unat i) (view pcache d block)))"
  using assms(6,7)
proof (induction "unat len - unat i" arbitrary: i crc r d rule: less_induct)
  case less
  show ?case
  proof (cases "len \<le> i")
    case True
    then have "unat len - unat i = 0" by (simp add: word_le_nat_alt)
    then show ?thesis using True less.prems rcache_ok_usable by (subst crc_loop.simps) simp
  next
    case False
    then have i: "i < len" by simp
    define diff where "diff = lfs_min (len - i) 8"
    note c = chunk[OF i assms(1,3,4) diff_def]
    from lfs_bd_read_ok[OF c(2) assms(2) c(3,4) less.prems(1) assms(5)] obtain err dat r1 d1 where
      rd: "lfs_bd_read cfg pcache (hint - i) block (off + i) diff r d = Some (err, dat, r1, d1)"
      and ok: "contents d1 = contents d" "err \<le> 0" "usable d1 r1"
        "err = 0 \<Longrightarrow> dat = segment (unat off + unat i) (unat diff) (view pcache d block) \<and> rcache_ok d1 r1"
      by (auto simp: c(5))
    have unfold: "crc_loop cfg pcache hint block off len i crc r d =
        (if err \<noteq> 0 then Some (err, crc, r1, d1)
         else crc_loop cfg pcache hint block off len (i + diff) (lfs_crc crc dat) r1 d1)"
      using False by (subst crc_loop.simps) (simp add: diff_def[symmetric] rd)
    show ?thesis
    proof (cases "err = 0")
      case False
      then show ?thesis using ok unfolding unfold by simp
    next
      case True
      note rest = ok(4)[OF True]
      have split: "segment (unat off + unat i) (unat len - unat i) (view pcache d block) =
          dat @ segment (unat off + unat (i + diff)) (unat len - unat (i + diff)) (view pcache d block)"
        using chunk_segment[OF c(7), of "unat off"] rest by (simp add: c(6))
      have "unat len - unat (i + diff) < unat len - unat i" "unat (i + diff) \<le> unat len" using c by simp_all
      from less.hyps[OF this(1) conjunct2[OF rest] this(2), of "lfs_crc crc dat"] show ?thesis
        using True ok(1) unfolding unfold split lfs_crc_append by (auto simp: view_cong[OF ok(1)])
    qed
  qed
qed

lemma lfs_bd_crc_ok:
  assumes "unat off + unat len \<le> unat (block_size cfg)" "block < block_count cfg" "unat len \<le> unat hint"
    "unat hint \<le> unat (block_size cfg)" "window_ok pcache" "rcache_ok d r"
  shows "\<exists>err crc1 r1 d1. lfs_bd_crc cfg pcache hint block off len crc r d = Some (err, crc1, r1, d1) \<and>
    contents d1 = contents d \<and> usable d1 r1 \<and> err \<le> 0 \<and>
    (err = 0 \<longrightarrow> rcache_ok d1 r1 \<and> crc1 = lfs_crc crc (segment (unat off) (unat len) (view pcache d block)))"
  using crc_loop_ok[OF assms, of 0] by (simp add: lfs_bd_crc_def)

section \<open>Flushing\<close>

lemma padded:
  assumes "pcache_ok p" "c_block p \<noteq> LFS_BLOCK_NULL" "0 < c_size p" "n = unat (lfs_alignup (c_size p) (prog_size cfg))"
  shows "n mod unat (prog_size cfg) = 0" "unat (c_size p) \<le> n" "n \<le> unat (cache_size cfg)"
    "unat (c_off p) + n \<le> unat (block_size cfg)" "unat (c_size p) = unat (cache_size cfg) \<Longrightarrow> n = unat (cache_size cfg)"
proof -
  let ?P = "unat (prog_size cfg)" and ?C = "unat (cache_size cfg)" and ?B = "unat (block_size cfg)" and ?s = "unat (c_size p)"
  have p: "unat (c_off p) mod ?P = 0" "?s \<le> ?C" "unat (c_off p) + ?s \<le> ?B" "length (c_buffer p) = ?C"
    using assms(1,2) by (simp_all add: pcache_ok_def)
  have n: "n = (?s + ?P - 1) div ?P * ?P"
    using size_facts p by (simp add: assms(4) unat_alignup)
  then show m: "n mod ?P = 0" by simp
  have "?s + ?P - 1 < n + ?P" unfolding n using dividend_less_div_times[OF size_facts(2)] by (simp add: add.commute)
  then show "?s \<le> n" by linarith
  have least: "n \<le> k" if k: "?s \<le> k" "k mod ?P = 0" for k
  proof -
    have "(?s + ?P - 1) div ?P \<le> (k + (?P - 1)) div ?P" using k(1) size_facts(2) by (intro div_le_mono) simp
    also have "\<dots> = k div ?P + (?P - 1) div ?P" using k(2) by (simp add: div_add1_eq)
    also have "\<dots> = k div ?P" using size_facts(2) by simp
    finally show ?thesis unfolding n using k(2) by (metis mult_le_mono1 div_mult_mod_eq add_0_right)
  qed
  have C: "?C mod ?P = 0" using sizes(4) by (simp add: mod_eq_0_iff_dvd)
  show "n \<le> ?C" by (rule least[OF p(2) C])
  have "(?B - unat (c_off p)) mod ?P = 0" using size_facts(7) p(1) by (intro mod_diff_0) (simp_all add: mod_eq_0_iff_dvd)
  then have "n \<le> ?B - unat (c_off p)" using p(3) by (intro least) simp_all
  then show "unat (c_off p) + n \<le> ?B" using p(3) by linarith
  show "n = ?C" if "?s = ?C" using \<open>?s \<le> n\<close> \<open>n \<le> ?C\<close> that by simp
qed

lemma lfs_cache_zero_ok:
  "length (c_buffer p) = unat (cache_size cfg) \<Longrightarrow>
   lfs_cache_zero cfg p = Some (p \<lparr> c_buffer := replicate (unat (cache_size cfg)) 0xFF, c_block := LFS_BLOCK_NULL \<rparr>)"
  by (simp add: lfs_cache_zero_def mem_put_def overlay_def)

lemma rcache_ok_drop: "usable d r \<Longrightarrow> rcache_ok d (lfs_cache_drop r)"
  by (simp add: rcache_ok_def usable_def lfs_cache_drop_def)

lemma usable_valid: "usable d r \<Longrightarrow> valid d" "usable d r \<Longrightarrow> valid d1 \<Longrightarrow> usable d1 r"
  by (simp_all add: usable_def)

lemma pcache_ok_null: "length (c_buffer p) = unat (cache_size cfg) \<Longrightarrow> c_block p = LFS_BLOCK_NULL \<Longrightarrow> pcache_ok p"
  by (simp add: pcache_ok_def)

text \<open>What a flush may do: on success the block has the bytes of the cache, up to the next program unit, and the
  cache is empty; an error keeps the cache. Other blocks do not change.\<close>

definition flushed :: "bool \<Rightarrow> lfs_cache \<Rightarrow> lfs_cache \<Rightarrow> 'd \<Rightarrow> int \<times> lfs_cache \<times> lfs_cache \<times> 'd \<Rightarrow> bool" where
  "flushed validate p r d = (\<lambda>(err, p1, r1, d1).
     err \<le> 0 \<and> usable d1 r1 \<and> (\<forall>b. b \<noteq> c_block p \<longrightarrow> contents d1 b = contents d b) \<and> (err \<noteq> 0 \<longrightarrow> p1 = p) \<and>
     (err = 0 \<longrightarrow> c_block p1 = LFS_BLOCK_NULL \<and> length (c_buffer p1) = unat (cache_size cfg) \<and>
       contents d1 (c_block p) = overlay (contents d (c_block p)) (unat (c_off p))
         (segment 0 (unat (lfs_alignup (c_size p) (prog_size cfg))) (c_buffer p)) \<and>
       (if validate then rcache_ok d1 r1 else r1 = r)))"

lemma lfs_bd_flush_ok:
  assumes "pcache_ok p" "c_block p < block_count cfg" "0 < c_size p" "usable d r"
  shows "\<exists>res. lfs_bd_flush cfg validate p r d = Some res \<and> flushed validate p r d res"
proof -
  note null = block_not_null[OF assms(2)]
  let ?diff = "lfs_alignup (c_size p) (prog_size cfg)"
  define bytes where "bytes = segment 0 (unat ?diff) (c_buffer p)"
  note n = padded[OF assms(1) null(1) assms(3) refl]
  have buf: "length (c_buffer p) = unat (cache_size cfg)" and off: "unat (c_off p) mod unat (prog_size cfg) = 0"
    using assms(1) null by (simp_all add: pcache_ok_def)
  have len: "length bytes = unat ?diff" using n(3) buf by (simp add: bytes_def length_segment)
  have get: "mem_get (c_buffer p) 0 (unat ?diff) = Some bytes" using n(3) buf by (simp add: mem_get_segment bytes_def)
  have "0 < unat ?diff" using n(2) assms(3) by (simp add: word_less_nat_alt)
  then obtain err d1 where pr: "cfg_prog cfg (c_block p) (c_off p) bytes d = Some (err, d1)" and err: "err \<le> 0" "usable d1 r"
    and other: "\<forall>b. b \<noteq> c_block p \<longrightarrow> contents d1 b = contents d b"
    and same: "err = 0 \<Longrightarrow> contents d1 (c_block p) = overlay (contents d (c_block p)) (unat (c_off p)) bytes"
    using prog[of d "c_off p" bytes "c_block p"] usable_valid[OF assms(4)] off n(1,4) len by auto
  let ?zero = "p \<lparr> c_buffer := replicate (unat (cache_size cfg)) 0xFF, c_block := LFS_BLOCK_NULL \<rparr>"
  have unfold: "lfs_bd_flush cfg validate p r d = (if err \<noteq> 0 then Some (err, p, r, d1) else
      Option.bind (if validate then lfs_bd_cmp cfg None ?diff (c_block p) (c_off p) (c_buffer p) ?diff (lfs_cache_drop r) d1
        else Some (LFS_CMP_EQ, r, d1))
      (\<lambda>(res, r1, d2). if res < 0 then Some (res, p, r1, d2)
        else if res \<noteq> LFS_CMP_EQ then Some (LFS_ERR_CORRUPT, p, r1, d2) else Some (0, ?zero, r1, d2)))"
    by (simp add: lfs_bd_flush_def null Let_def get pr lfs_cache_zero_ok[OF buf] cong: if_cong)
  show ?thesis
  proof (cases "err = 0 \<and> validate")
    case False
    then show ?thesis using err other same unfolding unfold
      by (auto simp: flushed_def bytes_def LFS_CMP_EQ_def)
  next
    case True
    have seg: "segment (unat (c_off p)) (unat ?diff) (contents d1 (c_block p)) = take (unat ?diff) (c_buffer p)"
      using same len n(4) True by (simp add: segment_overlay_inside length_contents segment_take bytes_def)
    from lfs_bd_cmp_ok[where pcache = None and hint = ?diff and len = ?diff and data = "c_buffer p" and d = d1,
        OF n(4) assms(2) order_refl _ _ _ rcache_ok_drop[OF err(2)]]
    obtain res r1 d2 where cmp: "lfs_bd_cmp cfg None ?diff (c_block p) (c_off p) (c_buffer p) ?diff (lfs_cache_drop r) d1 = Some (res, r1, d2)"
      "contents d2 = contents d1" "0 \<le> res \<Longrightarrow> rcache_ok d2 r1 \<and> res = 0" "usable d2 r1"
      using n(3) buf size_facts(9) seg by (auto simp: window_ok_def view_def)
    show ?thesis
    proof (cases "res < 0")
      case True
      then show ?thesis using \<open>err = 0 \<and> validate\<close> other cmp(2,4) unfolding unfold
        by (simp add: cmp(1) flushed_def)
    next
      case False
      then have "res = 0" "rcache_ok d2 r1" using cmp(3) by simp_all
      then show ?thesis using True other same cmp(2,4) unfolding unfold
        by (simp add: cmp(1) flushed_def LFS_CMP_EQ_def bytes_def)
    qed
  qed
qed

section \<open>Programming\<close>

text \<open>The program cache is ready for bytes at an offset of a block: it is empty and the offset is the start of a
  program unit, or it holds the bytes before.\<close>

definition prog_at :: "lfs_cache \<Rightarrow> u32 \<Rightarrow> nat \<Rightarrow> bool" where
  "prog_at p block off \<longleftrightarrow> pcache_ok p \<and>
     (c_block p = LFS_BLOCK_NULL \<and> off mod unat (prog_size cfg) = 0 \<or>
      c_block p = block \<and> unat (c_size p) < unat (cache_size cfg) \<and> off = unat (c_off p) + unat (c_size p))"

definition programmed :: "bool \<Rightarrow> u32 \<Rightarrow> nat \<Rightarrow> u8 list \<Rightarrow> lfs_cache \<Rightarrow> lfs_cache \<Rightarrow> 'd \<Rightarrow> int \<times> lfs_cache \<times> lfs_cache \<times> 'd \<Rightarrow> bool" where
  "programmed validate block off data p r d = (\<lambda>(err, p1, r1, d1).
     err \<le> 0 \<and> usable d1 r1 \<and> (\<forall>b. b \<noteq> block \<longrightarrow> contents d1 b = contents d b) \<and>
     (err = 0 \<longrightarrow> prog_at p1 block (off + length data) \<and>
       (data \<noteq> [] \<longrightarrow> c_block p1 = block \<longrightarrow> 0 < c_size p1) \<and>
       view (Some p1) d1 block = overlay (view (Some p) d block) off data \<and>
       (validate \<longrightarrow> rcache_ok d r \<longrightarrow> rcache_ok d1 r1)))"

lemma prepared:
  assumes "unat off mod unat (prog_size cfg) = 0" "length (c_buffer p) = unat (cache_size cfg)" "c_block p = LFS_BLOCK_NULL"
    "block \<noteq> LFS_BLOCK_NULL" "unat off \<le> unat (block_size cfg)"
    and "p1 = p \<lparr> c_block := block, c_off := lfs_aligndown off (prog_size cfg), c_size := 0 \<rparr>"
  shows "prog_at p1 block (unat off)" "c_block p1 = block" "view (Some p1) d block = view (Some p) d block"
  using assms size_facts(3) by (simp_all add: prog_at_def pcache_ok_def unat_aligndown view_def)

text \<open>One round with the bytes that fit into the cache.\<close>

lemma cached_round:
  assumes "block < block_count cfg" "c_block p = block" "prog_at p block (unat off)" "data \<noteq> []"
    "unat off + length data \<le> unat (block_size cfg)"
    and "diff = lfs_min (of_nat (length data)) (cache_size cfg - (off - c_off p))"
  shows "c_off p \<le> off" "off < c_off p + cache_size cfg" "0 < unat diff" "unat diff \<le> length data"
    "unat (off + diff) = unat off + unat diff"
    "\<exists>buf p1. mem_put (c_buffer p) (unat (off - c_off p)) (take (unat diff) data) = Some buf \<and>
      p1 = p \<lparr> c_buffer := buf, c_size := lfs_max (c_size p) (off + diff - c_off p) \<rparr> \<and>
      pcache_ok p1 \<and> 0 < c_size p1 \<and> unat (off + diff) = unat (c_off p1) + unat (c_size p1) \<and>
      view (Some p1) d block = overlay (view (Some p) d block) (unat off) (take (unat diff) data)"
proof -
  let ?C = "unat (cache_size cfg)" and ?B = "unat (block_size cfg)" and ?n = "unat diff"
  note null = block_not_null[OF assms(1)]
  have p: "unat (c_size p) < ?C" "unat off = unat (c_off p) + unat (c_size p)" "length (c_buffer p) = ?C"
    "unat (c_off p) mod unat (prog_size cfg) = 0"
    using assms(2,3) null by (auto simp: prog_at_def pcache_ok_def)
  show "c_off p \<le> off" using p(2) by (simp add: word_le_nat_alt)
  have "unat (c_off p + cache_size cfg) = unat (c_off p) + ?C"
    using p(2) assms(5) size_facts(9,11) by (intro unat_add_small) simp
  then show "off < c_off p + cache_size cfg" using p by (simp add: word_less_nat_alt)
  have o: "unat (off - c_off p) = unat (c_size p)" using p(2) by (simp add: unat_sub_no_wrap)
  have "unat (cache_size cfg - (off - c_off p)) = ?C - unat (c_size p)" using p(1) by (simp add: unat_sub_no_wrap o)
  moreover have "unat (of_nat (length data) :: u32) = length data"
    using assms(5) size_facts(11) by (simp add: unat_of_nat)
  ultimately have n: "?n = min (length data) (?C - unat (c_size p))" by (simp add: assms(6))
  show pos: "0 < ?n" using n p(1) assms(4) by simp
  show le: "?n \<le> length data" using n by simp
  show off1: "unat (off + diff) = unat off + ?n" using le assms(5) size_facts(11) by (intro unat_add_small) simp
  define chunk where "chunk = take ?n data"
  have len: "length chunk = ?n" using le by (simp add: chunk_def)
  have fit: "unat (c_size p) + length chunk \<le> length (c_buffer p)" using n p(1,3) by (simp add: len)
  define buf where "buf = overlay (c_buffer p) (unat (c_size p)) chunk"
  have put: "mem_put (c_buffer p) (unat (off - c_off p)) chunk = Some buf" using fit by (simp add: mem_put_def o buf_def)
  define p1 where "p1 = p \<lparr> c_buffer := buf, c_size := lfs_max (c_size p) (off + diff - c_off p) \<rparr>"
  have "unat (off + diff - c_off p) = unat (c_size p) + ?n" using off1 p(2) by (simp add: unat_sub_no_wrap)
  then have s1: "unat (c_size p1) = unat (c_size p) + ?n" by (simp add: p1_def)
  have ok: "pcache_ok p1" using s1 p fit off1 le assms(5) by (simp add: pcache_ok_def p1_def buf_def len)
  have "segment 0 (unat (c_size p1)) buf = segment 0 (unat (c_size p)) (c_buffer p) @ chunk"
    using overlay_append_at[OF fit] by (simp add: s1 len buf_def)
  moreover have "length (segment 0 (unat (c_size p)) (c_buffer p)) = unat (c_size p)" using p by (simp add: length_segment)
  moreover have "unat off + ?n \<le> length (contents d block)" using le assms(5) by (simp add: length_contents)
  ultimately have "view (Some p1) d block = overlay (view (Some p) d block) (unat off) chunk"
    using overlay_overlay[of "unat (c_off p)" "segment 0 (unat (c_size p)) (c_buffer p)" chunk "contents d block"] p(2) len
    by (simp add: view_def assms(2) p1_def)
  then show "\<exists>buf p1. mem_put (c_buffer p) (unat (off - c_off p)) (take ?n data) = Some buf \<and>
      p1 = p \<lparr> c_buffer := buf, c_size := lfs_max (c_size p) (off + diff - c_off p) \<rparr> \<and>
      pcache_ok p1 \<and> 0 < c_size p1 \<and> unat (off + diff) = unat (c_off p1) + unat (c_size p1) \<and>
      view (Some p1) d block = overlay (view (Some p) d block) (unat off) (take ?n data)"
    using put ok s1 pos off1 p(2) unfolding chunk_def by (auto simp: p1_def word_less_nat_alt)
qed

lemma flushed_full:
  assumes "pcache_ok p" "c_block p = block" "block < block_count cfg" "c_size p = cache_size cfg"
    "flushed validate p r d (0, p1, r1, d1)"
  shows "c_block p1 = LFS_BLOCK_NULL" "view (Some p1) d1 block = view (Some p) d block"
    "(unat (c_off p) + unat (c_size p)) mod unat (prog_size cfg) = 0"
proof -
  note null = block_not_null[OF assms(3)]
  have pos: "0 < c_size p" using size_facts(3) assms(4) by (simp add: word_less_nat_alt)
  have n: "unat (lfs_alignup (c_size p) (prog_size cfg)) = unat (c_size p)"
    using padded(5)[OF assms(1) _ pos refl] null assms(2,4) by simp
  show "c_block p1 = LFS_BLOCK_NULL" using assms(5) by (simp add: flushed_def)
  then show "view (Some p1) d1 block = view (Some p) d block"
    using assms(2,5) null n by (simp add: flushed_def view_def)
  show "(unat (c_off p) + unat (c_size p)) mod unat (prog_size cfg) = 0"
    using assms(1,2,4) null sizes(4) by (simp add: pcache_ok_def mod_eq_0_iff_dvd dvd_add)
qed

lemma lfs_bd_prog_ok:
  assumes "block < block_count cfg" "prog_at p block (unat off)" "usable d r"
    "unat off + length data \<le> unat (block_size cfg)"
  shows "\<exists>res. lfs_bd_prog cfg validate block off data p r d = Some res \<and> programmed validate block (unat off) data p r d res"
  using assms(2-4)
proof (induction "2 * length data + (if c_block p = block then 0 else 1)" arbitrary: off data p r d rule: less_induct)
  case less
  note null = block_not_null[OF assms(1)]
  have buf: "length (c_buffer p) = unat (cache_size cfg)" using less.prems(1) by (simp add: prog_at_def pcache_ok_def)
  consider (nothing) "data = []" | (prepare) "data \<noteq> []" "c_block p \<noteq> block" | (next_bytes) "data \<noteq> []" "c_block p = block" by blast
  then show ?case
  proof cases
    case nothing
    then show ?thesis using less.prems by (subst lfs_bd_prog.simps) (simp add: programmed_def)
  next
    case prepare
    then have p: "c_block p = LFS_BLOCK_NULL" "unat off mod unat (prog_size cfg) = 0"
      using less.prems(1) by (auto simp: prog_at_def)
    define p1 where "p1 = p \<lparr> c_block := block, c_off := lfs_aligndown off (prog_size cfg), c_size := 0 \<rparr>"
    have "unat off \<le> unat (block_size cfg)" using less.prems(3) by simp
    note p1 = prepared[OF p(2) buf p(1) null(1) this p1_def]
    have "lfs_bd_prog cfg validate block off data p r d = lfs_bd_prog cfg validate block off data p1 r d"
      using prepare by (subst lfs_bd_prog.simps) (simp add: p1_def)
    with less.hyps[OF _ p1(1) less.prems(2,3)] p1(2,3) prepare(2) show ?thesis
      by (simp add: programmed_def)
  next
    case next_bytes
    define diff where "diff = lfs_min (of_nat (length data)) (cache_size cfg - (off - c_off p))"
    note c = cached_round[OF assms(1) next_bytes(2) less.prems(1) next_bytes(1) less.prems(3) diff_def]
    from c(6)[of d] obtain buf p1 where put: "mem_put (c_buffer p) (unat (off - c_off p)) (take (unat diff) data) = Some buf"
      and p1_def: "p1 = p \<lparr> c_buffer := buf, c_size := lfs_max (c_size p) (off + diff - c_off p) \<rparr>"
      and p1: "pcache_ok p1" "0 < c_size p1" "unat (off + diff) = unat (c_off p1) + unat (c_size p1)"
        "view (Some p1) d block = overlay (view (Some p) d block) (unat off) (take (unat diff) data)" by blast
    have block1: "c_block p1 = block" using next_bytes(2) by (simp add: p1_def)
    define res where "res = (if c_size p1 = cache_size cfg then lfs_bd_flush cfg validate p1 r d else Some (0, p1, r, d))"
    have unfold: "lfs_bd_prog cfg validate block off data p r d = Option.bind res (\<lambda>(err, p2, r2, d2).
        if err \<noteq> 0 then Some (err, p2, r2, d2)
        else lfs_bd_prog cfg validate block (off + diff) (drop (unat diff) data) p2 r2 d2)"
      using next_bytes c(1,2) put by (subst lfs_bd_prog.simps) (simp add: diff_def[symmetric] p1_def res_def Let_def cong: if_cong)
    obtain err p2 r2 d2 where res: "res = Some (err, p2, r2, d2)" and err: "err \<le> 0"
      and other: "\<forall>b. b \<noteq> block \<longrightarrow> contents d2 b = contents d b" and use: "usable d2 r2"
      and ok: "err = 0 \<Longrightarrow> prog_at p2 block (unat (off + diff)) \<and>
        view (Some p2) d2 block = view (Some p1) d block \<and> (c_block p2 = block \<longrightarrow> 0 < c_size p2) \<and>
        (validate \<longrightarrow> rcache_ok d r \<longrightarrow> rcache_ok d2 r2)"
    proof (cases "c_size p1 = cache_size cfg")
      case False
      have "unat (c_size p1) < unat (cache_size cfg)"
        using False p1(1) block1 null by (simp add: pcache_ok_def word_unat_eq_iff)
      then show thesis using that[of 0 p1 r d] False p1 less.prems(2) block1 by (simp add: res_def prog_at_def)
    next
      case True
      from lfs_bd_flush_ok[OF p1(1) _ p1(2) less.prems(2), of validate] obtain err p2 r2 d2 where
        fl: "lfs_bd_flush cfg validate p1 r d = Some (err, p2, r2, d2)" "flushed validate p1 r d (err, p2, r2, d2)"
        using assms(1) block1 by auto
      have f: "err = 0 \<Longrightarrow> c_block p2 = LFS_BLOCK_NULL \<and> view (Some p2) d2 block = view (Some p1) d block \<and>
          (unat (c_off p1) + unat (c_size p1)) mod unat (prog_size cfg) = 0"
        using flushed_full[OF p1(1) block1 assms(1) True] fl(2) by blast
      have "err = 0 \<Longrightarrow> length (c_buffer p2) = unat (cache_size cfg)" using fl(2) by (simp add: flushed_def)
      then show thesis using that[of err p2 r2 d2] f fl True block1 null p1(3)
        by (simp add: res_def flushed_def prog_at_def pcache_ok_null)
    qed
    show ?thesis
    proof (cases "err = 0")
      case False
      then show ?thesis using err other use by (simp add: unfold res programmed_def)
    next
      case True
      have le: "unat diff \<le> length data" "0 < unat diff" by (rule c)+
      have "2 * length (drop (unat diff) data) + (if c_block p2 = block then 0 else 1) < 2 * length data + (if c_block p = block then 0 else 1)"
        using le by simp linarith
      moreover have "prog_at p2 block (unat (off + diff))" using ok[OF True] by blast
      moreover note use
      moreover have "unat (off + diff) + length (drop (unat diff) data) \<le> unat (block_size cfg)"
        using c(5) less.prems(3) le(1) by simp
      ultimately have "\<exists>res3. lfs_bd_prog cfg validate block (off + diff) (drop (unat diff) data) p2 r2 d2 = Some res3 \<and>
          programmed validate block (unat (off + diff)) (drop (unat diff) data) p2 r2 d2 res3" by (rule less.hyps)
      then obtain res3 where
        rec: "lfs_bd_prog cfg validate block (off + diff) (drop (unat diff) data) p2 r2 d2 = Some res3"
          "programmed validate block (unat off + unat diff) (drop (unat diff) data) p2 r2 d2 res3" by (auto simp: c(5))
      have "unat off + length data \<le> length (view (Some p) d block)"
        using length_view[of "Some p" block d] less.prems(1,3) null by (simp add: window_ok_def prog_at_def)
      then have "overlay (overlay (view (Some p) d block) (unat off) (take (unat diff) data)) (unat off + unat diff) (drop (unat diff) data) =
          overlay (view (Some p) d block) (unat off) data"
        using overlay_overlay[of "unat off" "take (unat diff) data" "drop (unat diff) data" "view (Some p) d block"] le(1) by simp
      then have view: "overlay (view (Some p2) d2 block) (unat off + unat diff) (drop (unat diff) data) = overlay (view (Some p) d block) (unat off) data"
        using ok[OF True] p1(4) by simp
      have len: "unat off + unat diff + length (drop (unat diff) data) = unat off + length data" using le(1) by simp
      have "res3 = (0, p2, r2, d2)" if "drop (unat diff) data = []"
        using rec(1) unfolding that by (simp add: lfs_bd_prog.simps)
      then have size: "res3 = (0, p3, r3, d3) \<Longrightarrow> c_block p3 = block \<Longrightarrow> 0 < c_size p3" for p3 r3 d3
        using rec(2) ok[OF True] by (cases "drop (unat diff) data = []") (auto simp: programmed_def)
      obtain err3 p3 r3 d3 where res3: "res3 = (err3, p3, r3, d3)" by (metis prod_cases4)
      have "lfs_bd_prog cfg validate block off data p r d = Some res3" using rec(1) True by (simp add: unfold res)
      moreover have "programmed validate block (unat off) data p r d res3"
        using rec(2) size[unfolded res3] other ok[OF True] unfolding programmed_def res3 view len by auto
      ultimately show ?thesis by blast
    qed
  qed
qed

section \<open>Synchronising\<close>

lemma lfs_bd_sync_ok:
  assumes "pcache_ok p" "c_block p = LFS_BLOCK_NULL \<or> c_block p < block_count cfg \<and> 0 < c_size p"
    "usable d r"
  shows "\<exists>err p1 r1 d1. lfs_bd_sync cfg validate p r d = Some (err, p1, r1, d1) \<and> err \<le> 0 \<and> usable d1 r1 \<and>
    (err = 0 \<longrightarrow> c_block p1 = LFS_BLOCK_NULL \<and> length (c_buffer p1) = unat (cache_size cfg) \<and> rcache_ok d1 r1 \<and>
      (\<forall>b i n. b \<noteq> LFS_BLOCK_NULL \<longrightarrow> i + n \<le> unat (block_size cfg) \<longrightarrow>
        (b = c_block p \<longrightarrow> i + n \<le> unat (c_off p) + unat (c_size p)) \<longrightarrow>
        segment i n (contents d1 b) = segment i n (view (Some p) d b)))"
proof (cases "c_block p = LFS_BLOCK_NULL")
  case True
  obtain err d1 where sy: "cfg_sync cfg d = Some (err, d1)" "err \<le> 0" "contents d1 = contents d" "valid d1"
    using sync usable_valid(1)[OF assms(3)] by blast
  then have "rcache_ok d1 (lfs_cache_drop r)" by (intro rcache_ok_drop usable_valid(2)[OF assms(3)])
  then show ?thesis using True assms(1) sy rcache_ok_usable
    by (auto simp: lfs_bd_sync_def lfs_bd_flush_def view_def pcache_ok_def)
next
  case False
  with assms(2) have b: "c_block p < block_count cfg" "0 < c_size p" by simp_all
  have "usable d (lfs_cache_drop r)" by (intro rcache_ok_usable rcache_ok_drop assms(3))
  from lfs_bd_flush_ok[OF assms(1) b this, of validate] obtain err p1 r1 d1 where
    fl: "lfs_bd_flush cfg validate p (lfs_cache_drop r) d = Some (err, p1, r1, d1)"
    and ok: "flushed validate p (lfs_cache_drop r) d (err, p1, r1, d1)" by auto
  have use: "usable d1 r1" using ok by (simp add: flushed_def)
  obtain err2 d2 where sy: "cfg_sync cfg d1 = Some (err2, d2)" "err2 \<le> 0" "contents d2 = contents d1" "valid d2"
    using sync usable_valid(1)[OF use] by blast
  show ?thesis
  proof (cases "err = 0")
    case False
    then show ?thesis using ok by (simp add: lfs_bd_sync_def fl flushed_def)
  next
    case True
    note n = padded[OF assms(1) False b(2) refl]
    let ?n = "unat (lfs_alignup (c_size p) (prog_size cfg))"
    have buf: "length (c_buffer p) = unat (cache_size cfg)" using assms(1) by (simp add: pcache_ok_def)
    have "segment i m (contents d2 b) = segment i m (view (Some p) d b)"
      if "b \<noteq> LFS_BLOCK_NULL" "i + m \<le> unat (block_size cfg)" "b = c_block p \<Longrightarrow> i + m \<le> unat (c_off p) + unat (c_size p)" for b i m
    proof (cases "b = c_block p")
      case True
      then have "contents d2 b = overlay (contents d b) (unat (c_off p)) (segment 0 ?n (c_buffer p))"
        using ok \<open>err = 0\<close> sy(3) by (simp add: flushed_def)
      then show ?thesis using True that n buf
        by (intro nth_equalityI) (auto simp: view_def length_segment nth_segment nth_overlay length_contents)
    next
      case False
      then show ?thesis using ok sy(3) by (simp add: flushed_def view_def)
    qed
    moreover have "rcache_ok d2 r1"
      using ok True rcache_ok_drop[OF usable_valid(2)[OF assms(3) sy(4)]] rcache_ok_cong[OF sy(3,4)]
      by (auto simp: flushed_def split: if_splits)
    ultimately show ?thesis using True ok sy rcache_ok_usable by (auto simp: lfs_bd_sync_def fl flushed_def)
  qed
qed

text \<open>Programming, synchronising and reading: each step returns, and when none reports an error the bytes are
  what was programmed.\<close>

definition reads_back :: "u32 \<Rightarrow> u32 \<Rightarrow> u8 list \<Rightarrow> lfs_cache \<Rightarrow> lfs_cache \<Rightarrow> 'd \<Rightarrow> bool" where
  "reads_back block off data p r d \<longleftrightarrow> (\<forall>hint. 0 < unat hint \<longrightarrow> unat hint \<le> unat (block_size cfg) \<longrightarrow>
     (\<exists>err bytes r1 d1. lfs_bd_read cfg (Some p) hint block off (of_nat (length data)) r d = Some (err, bytes, r1, d1) \<and>
       err \<le> 0 \<and> (err = 0 \<longrightarrow> bytes = data)))"

lemma prog_sync_read:
  assumes "block < block_count cfg" "prog_at p block (unat off)" "usable d r"
    "unat off + length data \<le> unat (block_size cfg)" "data \<noteq> []"
  shows "\<exists>err p1 r1 d1. lfs_bd_prog cfg v1 block off data p r d = Some (err, p1, r1, d1) \<and> (err = 0 \<longrightarrow>
    (\<exists>err2 p2 r2 d2. lfs_bd_sync cfg v2 p1 r1 d1 = Some (err2, p2, r2, d2) \<and> (err2 = 0 \<longrightarrow> reads_back block off data p2 r2 d2)))"
proof -
  note null = block_not_null[OF assms(1)]
  from lfs_bd_prog_ok[OF assms(1-4), of v1] obtain err p1 r1 d1 where
    pr: "lfs_bd_prog cfg v1 block off data p r d = Some (err, p1, r1, d1)" and ok: "programmed v1 block (unat off) data p r d (err, p1, r1, d1)"
    by auto
  show ?thesis
  proof (cases "err = 0")
    case False
    then show ?thesis using pr by simp
  next
    case True
    let ?n = "length data"
    have at: "prog_at p1 block (unat off + ?n)" "usable d1 r1" "c_block p1 = block \<Longrightarrow> 0 < c_size p1"
      and view: "view (Some p1) d1 block = overlay (view (Some p) d block) (unat off) data"
      using ok True assms(5) by (auto simp: programmed_def)
    have p1: "pcache_ok p1" "c_block p1 = LFS_BLOCK_NULL \<or> c_block p1 < block_count cfg \<and> 0 < c_size p1"
      using at assms(1) by (auto simp: prog_at_def)
    from lfs_bd_sync_ok[OF p1 at(2), of v2] obtain err2 p2 r2 d2 where
      sy: "lfs_bd_sync cfg v2 p1 r1 d1 = Some (err2, p2, r2, d2)"
      and synced: "err2 = 0 \<Longrightarrow> c_block p2 = LFS_BLOCK_NULL \<and> length (c_buffer p2) = unat (cache_size cfg) \<and> rcache_ok d2 r2 \<and>
        (\<forall>b i n. b \<noteq> LFS_BLOCK_NULL \<longrightarrow> i + n \<le> unat (block_size cfg) \<longrightarrow>
          (b = c_block p1 \<longrightarrow> i + n \<le> unat (c_off p1) + unat (c_size p1)) \<longrightarrow>
          segment i n (contents d2 b) = segment i n (view (Some p1) d1 b))" by blast
    have "reads_back block off data p2 r2 d2" if "err2 = 0"
    proof -
      have p2: "c_block p2 = LFS_BLOCK_NULL" "rcache_ok d2 r2" "window_ok (Some p2)"
        using synced[OF that] by (simp_all add: window_ok_def pcache_ok_null)
      have "block = c_block p1 \<Longrightarrow> unat off + ?n \<le> unat (c_off p1) + unat (c_size p1)"
        using at(1) null by (auto simp: prog_at_def)
      then have "segment (unat off) ?n (contents d2 block) = segment (unat off) ?n (view (Some p1) d1 block)"
        using synced[OF that] null assms(4) by blast
      also have "\<dots> = data"
        using length_view[of "Some p" block d] assms(2,4) null
        by (simp add: view segment_overlay_inside segment_all window_ok_def prog_at_def)
      finally have seg: "segment (unat off) ?n (view (Some p2) d2 block) = data" using p2(1) null by (simp add: view_def)
      have n: "unat (of_nat ?n :: u32) = ?n" using assms(4) size_facts(11) by (simp add: unat_of_nat)
      show ?thesis unfolding reads_back_def
      proof (intro allI impI)
        fix hint :: u32
        assume "0 < unat hint" "unat hint \<le> unat (block_size cfg)"
        from lfs_bd_read_ok[of off "of_nat ?n" block, OF _ assms(1) this p2(2,3)] assms(4) show "\<exists>err bytes r1 d1.
            lfs_bd_read cfg (Some p2) hint block off (of_nat ?n) r2 d2 = Some (err, bytes, r1, d1) \<and> err \<le> 0 \<and> (err = 0 \<longrightarrow> bytes = data)"
          unfolding n seg by blast
      qed
    qed
    then show ?thesis using pr sy by blast
  qed
qed

lemma round_trip:
  assumes "valid d" "c_block p = LFS_BLOCK_NULL" "length (c_buffer p) = unat (cache_size cfg)"
    "length (c_buffer r) = unat (cache_size cfg)" "block < block_count cfg" "unat off mod unat (prog_size cfg) = 0"
    "unat off + length data \<le> unat (block_size cfg)" "data \<noteq> []" "0 < hint" "hint \<le> block_size cfg"
  shows "\<exists>err p1 r1 d1. lfs_bd_prog cfg v1 block off data p r d = Some (err, p1, r1, d1) \<and> (err = 0 \<longrightarrow>
    (\<exists>err2 p2 r2 d2. lfs_bd_sync cfg v2 p1 r1 d1 = Some (err2, p2, r2, d2) \<and> (err2 = 0 \<longrightarrow>
      (\<exists>err3 bytes r3 d3. lfs_bd_read cfg (Some p2) hint block off (of_nat (length data)) r2 d2 = Some (err3, bytes, r3, d3) \<and>
        err3 \<le> 0 \<and> (err3 = 0 \<longrightarrow> bytes = data)))))"
proof -
  have "prog_at p block (unat off)" "usable d r"
    using assms(1-4,6) by (simp_all add: prog_at_def pcache_ok_null usable_def)
  from prog_sync_read[OF assms(5) this assms(7,8), of v1 v2] show ?thesis
    using assms(9,10) unfolding reads_back_def word_less_nat_alt word_le_nat_alt unat_0 by meson
qed

end

end
