(* ===== verification/Lfs_Frame.thy ===== *)
theory Lfs_Frame
  imports Lfs_Bd_Write
begin

text \<open>
  What the block device operations of littlefs leave of the caches, on every device and with every result: a read
  cache is the one before or belongs to the block of the call, and an error is one of the device or reports corrupt
  data. A read cache that is not to be trusted for some blocks does not matter to the others.
\<close>

section \<open>Errors\<close>

text \<open>The errors of the functions of the device.\<close>

definition device_error :: "'d lfs_config \<Rightarrow> int \<Rightarrow> bool" where
  "device_error cfg err \<longleftrightarrow> err \<noteq> 0 \<and> ((\<exists>b off n d bytes d1. cfg_read cfg b off n d = Some (err, bytes, d1)) \<or>
     (\<exists>b off bytes d d1. cfg_prog cfg b off bytes d = Some (err, d1)) \<or> (\<exists>b d d1. cfg_erase cfg b d = Some (err, d1)) \<or>
     (\<exists>d d1. cfg_sync cfg d = Some (err, d1)))"

definition reported :: "'d lfs_config \<Rightarrow> int \<Rightarrow> bool" where
  "reported cfg err \<longleftrightarrow> err = 0 \<or> err = LFS_ERR_CORRUPT \<or> device_error cfg err"

lemma device_errors:
  "cfg_read cfg b off n d = Some (err, bytes, d1) \<Longrightarrow> err \<noteq> 0 \<Longrightarrow> device_error cfg err"
  "cfg_prog cfg b off dat d = Some (err, d1) \<Longrightarrow> err \<noteq> 0 \<Longrightarrow> device_error cfg err"
  "cfg_erase cfg b d = Some (err, d1) \<Longrightarrow> err \<noteq> 0 \<Longrightarrow> device_error cfg err"
  "cfg_sync cfg d = Some (err, d1) \<Longrightarrow> err \<noteq> 0 \<Longrightarrow> device_error cfg err"
  unfolding device_error_def by blast+

section \<open>Caches after a call\<close>

fun state_cache :: "'d read_state \<Rightarrow> lfs_cache" where
  "state_cache (off, len, data, r, d) = r"

fun progress_state :: "'s progress \<Rightarrow> 's" where
  "progress_state (Stop err st) = st"
| "progress_state (Again st) = st"

lemma read_step_frame:
  assumes "read_step cfg pcache hint block st = Some res"
  shows "state_cache (progress_state res) = state_cache st \<or> c_block (state_cache (progress_state res)) = block"
proof -
  obtain off len data r d where st: "st = (off, len, data, r, d)" by (metis prod_cases5)
  have dev: "read_device cfg hint block limit st = Some res \<Longrightarrow>
      state_cache (progress_state res) = r \<or> c_block (state_cache (progress_state res)) = block" for limit
    unfolding st read_device_def Let_def by (auto split: if_splits bind_splits)
  have cache: "read_cache c limit st = Some res \<Longrightarrow> state_cache (progress_state res) = r" for c limit
    by (auto simp: read_cache_def st Let_def split: bind_splits)
  have below: "read_below cfg hint block limit st = Some res \<Longrightarrow>
      state_cache (progress_state res) = r \<or> c_block (state_cache (progress_state res)) = block" for limit
    using dev cache unfolding read_below_def st by (auto split: if_splits)
  show ?thesis using assms below cache unfolding read_step_def st by (auto split: option.splits if_splits)
qed

lemma read_step_error:
  assumes "read_step cfg pcache hint block st = Some (Stop err st1)"
  shows "device_error cfg err"
proof -
  obtain off len data r d where st: "st = (off, len, data, r, d)" by (metis prod_cases5)
  have dev: "read_device cfg hint block limit st = Some (Stop err st1) \<Longrightarrow> device_error cfg err" for limit
    unfolding st read_device_def Let_def by (auto split: if_splits bind_splits intro: device_errors)
  have cache: "read_cache c limit st \<noteq> Some (Stop err st1)" for c limit
    by (auto simp: read_cache_def st Let_def split: bind_splits)
  have below: "read_below cfg hint block limit st = Some (Stop err st1) \<Longrightarrow> device_error cfg err" for limit
    using dev cache unfolding read_below_def st by (auto split: if_splits)
  show ?thesis using assms below cache unfolding read_step_def st by (auto split: option.splits if_splits)
qed

lemma read_loop_frame:
  assumes "read_loop cfg pcache hint block st = Some (err, data, r1, d1)"
  shows "r1 = state_cache st \<or> c_block r1 = block" "err = 0 \<or> device_error cfg err"
proof -
  define P :: "'a lfs_config \<Rightarrow> u32 \<Rightarrow> 'a read_state \<Rightarrow> int \<times> u8 list \<times> lfs_cache \<times> 'a \<Rightarrow> bool" where
    "P = (\<lambda>cfg block st (err, data, r1, d1). (r1 = state_cache st \<or> c_block r1 = block) \<and> (err = 0 \<or> device_error cfg err))"
  have "P cfg block st (err, data, r1, d1)"
  proof (rule read_loop.raw_induct[where P = "\<lambda>cfg _ _. P cfg", OF _ assms])
    fix loop and cfg :: "'a lfs_config" and pcache hint block and st :: "'a read_state" and res
    assume IH: "\<And>cfg pcache hint block st res. loop cfg pcache hint block st = Some res \<Longrightarrow> P cfg block st res"
      and run: "(case st of (off, len, data, rcache, d) \<Rightarrow>
        if len = 0 then Some (0, data, rcache, d)
        else Option.bind (read_step cfg pcache hint block st) (\<lambda>r. case r of
            Stop err (off1, len1, data1, rcache1, d1) \<Rightarrow> Some (err, data1, rcache1, d1)
          | Again st1 \<Rightarrow> loop cfg pcache hint block st1)) = Some res"
    obtain off len dat r d where st: "st = (off, len, dat, r, d)" by (metis prod_cases5)
    show "P cfg block st res"
    proof (cases "len = 0")
      case True
      then show ?thesis using run by (auto simp: st P_def)
    next
      case False
      then obtain p where p: "read_step cfg pcache hint block st = Some p"
        "(case p of Stop err (off1, len1, data1, rcache1, d1) \<Rightarrow> Some (err, data1, rcache1, d1) | Again st1 \<Rightarrow> loop cfg pcache hint block st1) = Some res"
        using run by (auto simp: st split: bind_splits)
      note frame = read_step_frame[OF p(1)]
      show ?thesis
      proof (cases p)
        case (Stop err st1)
        then show ?thesis using p frame read_step_error[of cfg pcache hint block st err st1] by (cases st1) (auto simp: st P_def)
      next
        case (Again st1)
        then show ?thesis using IH[of cfg pcache hint block st1 res] p(2) frame by (auto simp: st P_def)
      qed
    qed
  qed
  then show "r1 = state_cache st \<or> c_block r1 = block" "err = 0 \<or> device_error cfg err" by (simp_all add: P_def)
qed

lemma lfs_bd_read_frame:
  assumes "lfs_bd_read cfg pcache hint block off len r d = Some (err, data, r1, d1)"
  shows "r1 = r \<or> c_block r1 = block" "reported cfg err"
  using read_loop_frame[of cfg pcache hint block "(off, len, [], r, d)" err data r1 d1] assms
  by (auto simp: lfs_bd_read_def reported_def split: if_splits)

lemma cmp_loop_frame:
  assumes "cmp_loop cfg pcache hint block off data len i r d = Some (res, r1, d1)"
  shows "r1 = r \<or> c_block r1 = block" "res \<in> {LFS_CMP_EQ, LFS_CMP_LT, LFS_CMP_GT} \<or> reported cfg res"
proof -
  define P :: "'a lfs_config \<Rightarrow> u32 \<Rightarrow> lfs_cache \<Rightarrow> int \<times> lfs_cache \<times> 'a \<Rightarrow> bool" where
    "P = (\<lambda>cfg block r (res, r1, d1). (r1 = r \<or> c_block r1 = block) \<and>
       (res \<in> {LFS_CMP_EQ, LFS_CMP_LT, LFS_CMP_GT} \<or> reported cfg res))"
  have "P cfg block r (res, r1, d1)"
  proof (rule cmp_loop.raw_induct[where P = "\<lambda>cfg _ _ block _ _ _ _ r _. P cfg block r", OF _ assms])
    fix loop and cfg :: "'a lfs_config" and pcache hint block off data len i r and d :: 'a and out
    assume IH: "\<And>cfg pcache hint block off data len i r d out. loop cfg pcache hint block off data len i r d = Some out \<Longrightarrow> P cfg block r out"
      and run: "(if len \<le> i then Some (LFS_CMP_EQ, r, d) else let diff = lfs_min (len - i) 8 in
        Option.bind (lfs_bd_read cfg pcache (hint - i) block (off + i) diff r d) (\<lambda>(err, dat, r2, d2).
          if err \<noteq> 0 then Some (err, r2, d2) else Option.bind (mem_get data (unat i) (unat diff)) (\<lambda>expected.
            let res = memcmp dat expected in if res \<noteq> 0 then Some (if res < 0 then LFS_CMP_LT else LFS_CMP_GT, r2, d2)
              else loop cfg pcache hint block off data len (i + diff) r2 d2))) = Some out"
    show "P cfg block r out"
    proof (cases "len \<le> i")
      case True
      then show ?thesis using run by (auto simp: P_def)
    next
      case False
      then obtain err dat r2 d2 where rd: "lfs_bd_read cfg pcache (hint - i) block (off + i) (lfs_min (len - i) 8) r d = Some (err, dat, r2, d2)"
        and rest: "(if err \<noteq> 0 then Some (err, r2, d2) else Option.bind (mem_get data (unat i) (unat (lfs_min (len - i) 8)))
          (\<lambda>expected. let res = memcmp dat expected in if res \<noteq> 0 then Some (if res < 0 then LFS_CMP_LT else LFS_CMP_GT, r2, d2)
            else loop cfg pcache hint block off data len (i + lfs_min (len - i) 8) r2 d2)) = Some out"
        using run by (auto simp: Let_def split: bind_splits)
      have "loop cfg pcache hint block off data len (i + lfs_min (len - i) 8) r2 d2 = Some out \<Longrightarrow> P cfg block r2 out" by (rule IH)
      then show ?thesis using rest lfs_bd_read_frame[OF rd] by (auto simp: Let_def P_def split: if_splits bind_splits)
    qed
  qed
  then show "r1 = r \<or> c_block r1 = block" "res \<in> {LFS_CMP_EQ, LFS_CMP_LT, LFS_CMP_GT} \<or> reported cfg res"
    by (simp_all add: P_def)
qed

lemma length_mem_put: "mem_put xs i ys = Some zs \<Longrightarrow> length zs = length xs"
  by (auto simp: mem_put_def split: if_splits)

lemma lfs_bd_flush_frame:
  assumes "lfs_bd_flush cfg validate p r d = Some (err, p1, r1, d1)"
  shows "r1 = r \<or> c_block r1 = LFS_BLOCK_NULL \<or> c_block r1 = c_block p" "length (c_buffer p1) = length (c_buffer p)" "reported cfg err"
proof -
  have cmp: "lfs_bd_cmp cfg None n b off buf n (lfs_cache_drop r) d1 = Some (res, r1, d2) \<Longrightarrow> c_block r1 = LFS_BLOCK_NULL \<or> c_block r1 = b"
    for n b off buf d1 res r1 d2
    using cmp_loop_frame[of cfg None n b off buf n 0 "lfs_cache_drop r" d1 res r1 d2] by (auto simp: lfs_bd_cmp_def lfs_cache_drop_def)
  have zero: "lfs_cache_zero cfg p = Some p1 \<Longrightarrow> length (c_buffer p1) = length (c_buffer p)" for p1
    by (auto simp: lfs_cache_zero_def dest: length_mem_put)
  have mismatch: "lfs_bd_cmp cfg None n b off buf n (lfs_cache_drop r) d1 = Some (res, r1, d2) \<Longrightarrow> res < 0 \<Longrightarrow> reported cfg res"
    for n b off buf d1 res r1 d2
    using cmp_loop_frame(2)[of cfg None n b off buf n 0 "lfs_cache_drop r" d1 res r1 d2] by (auto simp: lfs_bd_cmp_def lfs_codes)
  show "reported cfg err"
    using assms unfolding lfs_bd_flush_def Let_def
    by (auto simp: LFS_CMP_EQ_def split: if_splits bind_splits dest: mismatch)
      (auto simp: reported_def dest: device_errors mismatch[unfolded reported_def])
  show "length (c_buffer p1) = length (c_buffer p)"
    using assms zero unfolding lfs_bd_flush_def Let_def by (auto split: if_splits bind_splits)
  show "r1 = r \<or> c_block r1 = LFS_BLOCK_NULL \<or> c_block r1 = c_block p"
    using assms unfolding lfs_bd_flush_def Let_def by (auto split: if_splits bind_splits dest!: cmp)
qed

lemma lfs_bd_prog_frame:
  assumes "lfs_bd_prog cfg validate block off data p r d = Some (err, p1, r1, d1)"
  shows "r1 = r \<or> c_block r1 = LFS_BLOCK_NULL \<or> c_block r1 = block" "length (c_buffer p1) = length (c_buffer p)" "reported cfg err"
proof -
  define P :: "'a lfs_config \<Rightarrow> u32 \<Rightarrow> lfs_cache \<Rightarrow> lfs_cache \<Rightarrow> int \<times> lfs_cache \<times> lfs_cache \<times> 'a \<Rightarrow> bool" where
    "P = (\<lambda>cfg block p r (err, p1, r1, d1). reported cfg err \<and> (r1 = r \<or> c_block r1 = LFS_BLOCK_NULL \<or> c_block r1 = block) \<and>
      length (c_buffer p1) = length (c_buffer p))"
  have "P cfg block p r (err, p1, r1, d1)"
  proof (rule lfs_bd_prog.raw_induct[where P = "\<lambda>cfg _ block _ _ p r _. P cfg block p r", OF _ assms])
    fix prog and cfg :: "'a lfs_config" and validate block off data p r and d :: 'a and out
    assume IH: "\<And>cfg validate block off data p r d out. prog cfg validate block off data p r d = Some out \<Longrightarrow> P cfg block p r out"
      and run: "(if data = [] then Some (0, p, r, d)
        else if block = c_block p \<and> c_off p \<le> off \<and> off < c_off p + cache_size cfg then
          let diff = lfs_min (of_nat (length data)) (cache_size cfg - (off - c_off p)) in
          Option.bind (mem_put (c_buffer p) (unat (off - c_off p)) (take (unat diff) data)) (\<lambda>buf.
            let off1 = off + diff; q = p \<lparr> c_buffer := buf, c_size := lfs_max (c_size p) (off1 - c_off p) \<rparr> in
            Option.bind (if c_size q = cache_size cfg then lfs_bd_flush cfg validate q r d else Some (0, q, r, d)) (\<lambda>(err, p2, r2, d2).
              if err \<noteq> 0 then Some (err, p2, r2, d2) else prog cfg validate block off1 (drop (unat diff) data) p2 r2 d2))
        else prog cfg validate block off data (p \<lparr> c_block := block, c_off := lfs_aligndown off (prog_size cfg), c_size := 0 \<rparr>) r d) = Some out"
    consider (finished) "data = []" | (cached) "data \<noteq> []" "block = c_block p \<and> c_off p \<le> off \<and> off < c_off p + cache_size cfg"
      | (prepare) "data \<noteq> []" "\<not> (block = c_block p \<and> c_off p \<le> off \<and> off < c_off p + cache_size cfg)" by blast
    then show "P cfg block p r out"
    proof cases
      case finished
      then show ?thesis using run by (auto simp: P_def reported_def)
    next
      case prepare
      then have "prog cfg validate block off data (p \<lparr> c_block := block, c_off := lfs_aligndown off (prog_size cfg), c_size := 0 \<rparr>) r d = Some out"
        using run by (simp only: if_False)
      from IH[OF this] show ?thesis by (simp add: P_def)
    next
      case cached
      define diff where "diff = lfs_min (of_nat (length data)) (cache_size cfg - (off - c_off p))"
      from run cached obtain buf where put: "mem_put (c_buffer p) (unat (off - c_off p)) (take (unat diff) data) = Some buf"
        by (auto simp: Let_def diff_def split: bind_splits)
      define q where "q = p \<lparr> c_buffer := buf, c_size := lfs_max (c_size p) (off + diff - c_off p) \<rparr>"
      have q: "length (c_buffer q) = length (c_buffer p)" "c_block q = block" using length_mem_put[OF put] cached by (simp_all add: q_def)
      from run cached put obtain err p2 r2 d2 where
        fl: "(if c_size q = cache_size cfg then lfs_bd_flush cfg validate q r d else Some (0, q, r, d)) = Some (err, p2, r2, d2)"
        and rest: "(if err \<noteq> 0 then Some (err, p2, r2, d2) else prog cfg validate block (off + diff) (drop (unat diff) data) p2 r2 d2) = Some out"
        by (auto simp: Let_def q_def diff_def[symmetric] split: bind_splits cong: if_cong)
      have f: "P cfg block p r (err, p2, r2, d2)"
        using fl lfs_bd_flush_frame[of cfg validate q r d err p2 r2 d2] q by (auto simp: P_def reported_def split: if_splits)
      have "prog cfg validate block (off + diff) (drop (unat diff) data) p2 r2 d2 = Some out \<Longrightarrow> P cfg block p2 r2 out" by (rule IH)
      then show ?thesis using rest f by (auto simp: P_def split: if_splits)
    qed
  qed
  then show "r1 = r \<or> c_block r1 = LFS_BLOCK_NULL \<or> c_block r1 = block" "length (c_buffer p1) = length (c_buffer p)" "reported cfg err"
    by (simp_all add: P_def)
qed

lemma lfs_bd_sync_frame:
  assumes "lfs_bd_sync cfg validate p r d = Some (err, p1, r1, d1)"
  shows "reported cfg err"
proof -
  obtain e p2 r2 d2 where fl: "lfs_bd_flush cfg validate p (lfs_cache_drop r) d = Some (e, p2, r2, d2)"
    using assms by (auto simp: lfs_bd_sync_def split: bind_splits)
  then show ?thesis using assms lfs_bd_flush_frame(3)[OF fl]
    by (auto simp: lfs_bd_sync_def split: if_splits bind_splits) (auto simp: reported_def dest: device_errors)
qed

section \<open>A cache of another block\<close>

text \<open>A read does not look at a read cache of another block: it is a read with no cache, but for the cache that
  stays.\<close>

definition swap_cache :: "lfs_cache \<Rightarrow> lfs_cache \<Rightarrow> lfs_cache" where
  "swap_cache r r1 = (if r1 = lfs_cache_drop r then r else r1)"

fun swap_state :: "lfs_cache \<Rightarrow> 'd read_state \<Rightarrow> 'd read_state" where
  "swap_state r (off, len, data, r1, d) = (off, len, data, swap_cache r r1, d)"

lemma read_step_dropped:
  assumes "c_block r \<noteq> block" "block \<noteq> LFS_BLOCK_NULL"
  shows "read_step cfg pcache hint block (off, len, data, r, d) =
    map_option (map_progress (swap_state r)) (read_step cfg pcache hint block (off, len, data, lfs_cache_drop r, d))"
proof -
  have cache: "\<not> in_cache r block off" "\<not> in_cache (lfs_cache_drop r) block off" "c_buffer (lfs_cache_drop r) = c_buffer r"
    using assms by (auto simp: in_cache_def lfs_cache_drop_def)
  have "c_block q = block \<Longrightarrow> q \<noteq> lfs_cache_drop r" for q using assms(2) by (auto simp: lfs_cache_drop_def)
  then have other: "swap_cache r \<lparr> c_block = block, c_off = x, c_size = y, c_buffer = z \<rparr> = \<lparr> c_block = block, c_off = x, c_size = y, c_buffer = z \<rparr>"
    "swap_cache r (lfs_cache_drop r) = r" for x y z by (simp_all add: swap_cache_def)
  have dev: "read_device cfg hint block limit (off, len, data, r, d) =
      map_option (map_progress (swap_state r)) (read_device cfg hint block limit (off, len, data, lfs_cache_drop r, d))" for limit
    by (auto simp: read_device_def Let_def cache other split: bind_split)
  have hit: "read_cache c limit (off, len, data, r, d) =
      map_option (map_progress (swap_state r)) (read_cache c limit (off, len, data, lfs_cache_drop r, d))" for c limit
    by (auto simp: read_cache_def Let_def other split: bind_split)
  show ?thesis by (auto simp: read_step_def read_below_def cache dev hit split: option.split)
qed

lemma read_loop_dropped:
  assumes "read_loop cfg pcache hint block (off, len, data, lfs_cache_drop r, d) = Some (err, data1, r1, d1)"
    "c_block r \<noteq> block" "block \<noteq> LFS_BLOCK_NULL"
  shows "read_loop cfg pcache hint block (off, len, data, r, d) = Some (err, data1, swap_cache r r1, d1)"
proof -
  define P :: "'a lfs_config \<Rightarrow> lfs_cache option \<Rightarrow> u32 \<Rightarrow> u32 \<Rightarrow> 'a read_state \<Rightarrow> int \<times> u8 list \<times> lfs_cache \<times> 'a \<Rightarrow> bool" where
    "P = (\<lambda>cfg pcache hint block st (err, data1, r1, d1). read_loop cfg pcache hint block st = Some (err, data1, r1, d1) \<and>
       (state_cache st = lfs_cache_drop r \<longrightarrow> c_block r \<noteq> block \<longrightarrow> block \<noteq> LFS_BLOCK_NULL \<longrightarrow>
         read_loop cfg pcache hint block (swap_state r st) = Some (err, data1, swap_cache r r1, d1)))"
  have "P cfg pcache hint block (off, len, data, lfs_cache_drop r, d) (err, data1, r1, d1)"
  proof (rule read_loop.raw_induct[where P = P, OF _ assms(1)])
    fix loop and cfg :: "'a lfs_config" and pcache hint block and st :: "'a read_state" and res
    assume IH: "\<And>cfg pcache hint block st res. loop cfg pcache hint block st = Some res \<Longrightarrow> P cfg pcache hint block st res"
      and run: "(case st of (off, len, data, rcache, d) \<Rightarrow>
        if len = 0 then Some (0, data, rcache, d)
        else Option.bind (read_step cfg pcache hint block st) (\<lambda>r. case r of
            Stop err (off1, len1, data1, rcache1, d1) \<Rightarrow> Some (err, data1, rcache1, d1)
          | Again st1 \<Rightarrow> loop cfg pcache hint block st1)) = Some res"
    obtain off len dat q d where st: "st = (off, len, dat, q, d)" by (metis prod_cases5)
    show "P cfg pcache hint block st res"
    proof (cases "len = 0")
      case True
      then show ?thesis using run by (auto simp: st P_def read_loop.simps)
    next
      case False
      then obtain p where p: "read_step cfg pcache hint block st = Some p"
        and rest: "(case p of Stop err (off1, len1, data1, rcache1, d1) \<Rightarrow> Some (err, data1, rcache1, d1) | Again st1 \<Rightarrow> loop cfg pcache hint block st1) = Some res"
        using run by (auto simp: st split: bind_splits)
      have unfold: "read_loop cfg pcache hint block (off, len, dat, q', d) = Option.bind (read_step cfg pcache hint block (off, len, dat, q', d))
          (\<lambda>p. case p of Stop err (off1, len1, data1, rcache1, d1) \<Rightarrow> Some (err, data1, rcache1, d1)
            | Again st1 \<Rightarrow> read_loop cfg pcache hint block st1)" for q'
        using False by (subst read_loop.simps) simp
      have swapped: "read_loop cfg pcache hint block (swap_state r st) =
          (case map_progress (swap_state r) p of Stop err (off1, len1, data1, rcache1, d1) \<Rightarrow> Some (err, data1, rcache1, d1)
            | Again st1 \<Rightarrow> read_loop cfg pcache hint block st1)"
        if "q = lfs_cache_drop r" "c_block r \<noteq> block" "block \<noteq> LFS_BLOCK_NULL"
        using p unfolding st that(1) swap_state.simps
        by (simp add: unfold read_step_dropped[OF that(2,3)] swap_cache_def)
      show ?thesis
      proof (cases p)
        case (Stop err st1)
        then show ?thesis using rest swapped p by (cases st1) (auto simp: st P_def unfold)
      next
        case (Again st1)
        then have loop: "loop cfg pcache hint block st1 = Some res" using rest by simp
        obtain err data1 r1 d1 where res: "res = (err, data1, r1, d1)" by (metis prod_cases4)
        note next_st = IH[OF loop, unfolded P_def res prod.case]
        have run1: "read_loop cfg pcache hint block st = Some (err, data1, r1, d1)" using next_st p by (simp add: st unfold Again)
        have "read_loop cfg pcache hint block (swap_state r st1) = Some (err, data1, swap_cache r r1, d1)"
          if "q = lfs_cache_drop r" "c_block r \<noteq> block" "block \<noteq> LFS_BLOCK_NULL"
        proof (cases "state_cache st1 = lfs_cache_drop r")
          case True
          then show ?thesis using next_st that by simp
        next
          case False
          then have b: "c_block (state_cache st1) = block" using read_step_frame[OF p] by (simp add: Again st that(1))
          then have "c_block r1 = block" using read_loop_frame[OF conjunct1[OF next_st]] by auto
          then have "r1 \<noteq> lfs_cache_drop r" using that(3) by (auto simp: lfs_cache_drop_def)
          moreover have "swap_state r st1 = st1" using False by (cases st1) (simp add: swap_cache_def)
          ultimately show ?thesis using next_st by (simp add: swap_cache_def)
        qed
        then show ?thesis using run1 swapped by (simp add: P_def res Again st)
      qed
    qed
  qed
  then show ?thesis using assms(2,3) by (simp add: P_def swap_cache_def)
qed

section \<open>Trusted read caches\<close>

context block_device begin

text \<open>A read cache may hold anything for blocks that are not in use.\<close>

definition trusted :: "nat set \<Rightarrow> 'd \<Rightarrow> lfs_cache \<Rightarrow> bool" where
  "trusted U d r \<longleftrightarrow> usable d r \<and> (unat (c_block r) \<in> U \<longrightarrow> rcache_ok d r)"

lemma rcache_ok_trusted: "rcache_ok d r \<Longrightarrow> trusted U d r"
  by (simp add: trusted_def rcache_ok_usable)

lemma trusted_cong: "trusted U d r \<Longrightarrow> valid d1 \<Longrightarrow> (\<And>b. unat b \<in> U \<Longrightarrow> contents d1 b = contents d b) \<Longrightarrow> trusted U d1 r"
  by (auto simp: trusted_def rcache_ok_def usable_def)

lemma read_inside_error:
  assumes "lfs_bd_read cfg pcache hint block off len r d = Some (err, data, r1, d1)" "err \<noteq> 0"
    "unat off + unat len \<le> unat (block_size cfg)" "block < block_count cfg"
  shows "device_error cfg err"
proof -
  have "\<not> (block_size cfg < off + len \<or> block_count cfg \<noteq> 0 \<and> block_count cfg \<le> block)"
    using assms(3,4) size_facts(11) by (auto simp: word_less_nat_alt unat_add_small not_le)
  from read_loop_frame(2)[OF assms(1)[unfolded lfs_bd_read_def if_not_P[OF this]]] assms(2) show ?thesis by simp
qed

lemma trusted_read:
  assumes "unat off + unat len \<le> unat (block_size cfg)" "block < block_count cfg" "0 < unat hint"
    "unat hint \<le> unat (block_size cfg)" "trusted U d r" "window_ok pcache" "unat block \<in> U"
  shows "\<exists>err data r1 d1. lfs_bd_read cfg pcache hint block off len r d = Some (err, data, r1, d1) \<and>
    contents d1 = contents d \<and> err \<le> 0 \<and>
    (err = 0 \<longrightarrow> data = segment (unat off) (unat len) (view pcache d block) \<and> trusted U d1 r1)"
proof (cases "rcache_ok d r")
  case True
  from lfs_bd_read_ok[OF assms(1-4) this assms(6)] show ?thesis using rcache_ok_trusted by blast
next
  case False
  then have r: "usable d r" "unat (c_block r) \<notin> U" "c_block r \<noteq> block" using assms(5,7) by (auto simp: trusted_def)
  from lfs_bd_read_ok[OF assms(1-4) rcache_ok_drop[OF r(1)] assms(6)] obtain err data r1 d1 where
    rd: "lfs_bd_read cfg pcache hint block off len (lfs_cache_drop r) d = Some (err, data, r1, d1)"
    and ok: "contents d1 = contents d" "usable d1 r1" "err \<le> 0"
      "err = 0 \<Longrightarrow> data = segment (unat off) (unat len) (view pcache d block) \<and> rcache_ok d1 r1" by blast
  have bounds: "\<not> (block_size cfg < off + len \<or> block_count cfg \<noteq> 0 \<and> block_count cfg \<le> block)"
    using assms(1,2) size_facts(11) by (auto simp: word_less_nat_alt unat_add_small not_le)
  have "lfs_bd_read cfg pcache hint block off len r d = Some (err, data, swap_cache r r1, d1)"
    using rd unfolding lfs_bd_read_def if_not_P[OF bounds] by (rule read_loop_dropped[OF _ r(3) block_not_null(1)[OF assms(2)]])
  moreover have "trusted U d1 (swap_cache r r1)" if "err = 0"
    using ok(4)[OF that] ok(2) r rcache_ok_trusted by (auto simp: swap_cache_def trusted_def usable_def)
  ultimately show ?thesis using ok by blast
qed

lemma trusted_prog:
  assumes "lfs_bd_prog cfg validate block off data p r d = Some (err, p1, r1, d1)"
    "programmed validate block n data p r d (err, p1, r1, d1)" "trusted U d r" "unat block \<notin> U"
  shows "trusted U d1 r1" "\<And>b. unat b \<in> U \<Longrightarrow> contents d1 b = contents d b" "length (c_buffer p1) = length (c_buffer p)"
proof -
  show "length (c_buffer p1) = length (c_buffer p)" by (rule lfs_bd_prog_frame[OF assms(1)])
  show same: "contents d1 b = contents d b" if "unat b \<in> U" for b using assms(2,4) that by (auto simp: programmed_def)
  have use: "usable d1 r1" using assms(2) by (simp add: programmed_def)
  consider "r1 = r" | "c_block r1 = LFS_BLOCK_NULL" | "c_block r1 = block" using lfs_bd_prog_frame(1)[OF assms(1)] by blast
  then show "trusted U d1 r1"
  proof cases
    case 1
    then show ?thesis using trusted_cong[OF assms(3) _ same] use by (simp add: usable_def)
  next
    case 2
    then show ?thesis using use by (simp add: trusted_def rcache_ok_def)
  next
    case 3
    then show ?thesis using use assms(4) by (simp add: trusted_def)
  qed
qed

end

end
