(* ===== verification/Lfs_Sd.thy ===== *)
theory Lfs_Sd
  imports Lfs_Frame Sdmmc
begin

text \<open>
  The functions of \<^verbatim>\<open>warp/wem/sd.c\<close> below littlefs: the device is the SD card behind the serial
  interface (\<^verbatim>\<open>Sdmmc\<close>). The yields of the functions have no effect here. They keep the contract of
  littlefs on a card that keeps the protocol, which is shown for a card that is written out below.
\<close>

section \<open>The functions\<close>

definition sd_lfs_erase :: "u32 \<Rightarrow> 'c \<Rightarrow> (int \<times> 'c) option" where
  "sd_lfs_erase block c = Some (LFS_ERR_OK, c)"

definition sd_lfs_read :: "'c bus \<Rightarrow> u8 \<Rightarrow> u32 \<Rightarrow> u32 \<Rightarrow> u32 \<Rightarrow> 'c \<Rightarrow> (int \<times> u8 list \<times> 'c) option" where
  "sd_lfs_read bus t block off n c = do {
     (sdmmc_error, bytes, c1) \<leftarrow> sdmmc_read_block bus t block c;
     let buffer = (case bytes of None \<Rightarrow> [] | Some bs \<Rightarrow> bs);
     if sdmmc_error \<noteq> SDMMC_OK then Some (LFS_ERR_IO, buffer, c1)
     else Some (LFS_ERR_OK, buffer, c1)
   }"

definition sd_lfs_prog :: "'c bus \<Rightarrow> u8 \<Rightarrow> u32 \<Rightarrow> u32 \<Rightarrow> u8 list \<Rightarrow> 'c \<Rightarrow> (int \<times> 'c) option" where
  "sd_lfs_prog bus t block off buffer c = do {
     (sdmmc_error, c1) \<leftarrow> sdmmc_write_block bus t block buffer c;
     if sdmmc_error \<noteq> SDMMC_OK then Some (LFS_ERR_IO, c1)
     else Some (LFS_ERR_OK, c1)
   }"

definition sd_lfs_sync :: "'c \<Rightarrow> (int \<times> 'c) option" where
  "sd_lfs_sync c = Some (LFS_ERR_OK, c)"

text \<open>The configuration; the number of blocks is that of the card.\<close>

definition sd_lfs_config :: "'c bus \<Rightarrow> u8 \<Rightarrow> u32 \<Rightarrow> 'c lfs_config" where
  "sd_lfs_config bus t sector_count = \<lparr> cfg_read = sd_lfs_read bus t, cfg_prog = sd_lfs_prog bus t, cfg_erase = sd_lfs_erase,
     cfg_sync = sd_lfs_sync, read_size = 512, prog_size = 512, block_size = 512, cache_size = 512, lookahead_size = 512,
     block_count = sector_count \<rparr>"

section \<open>A card\<close>

text \<open>A card in the SPI mode. It answers while it has something to send; otherwise it collects a frame, which is
  a command of six bytes or, after a write command, a start token with a block and its checksum. Some of its sectors
  cannot be read, which it says with an error token. Its clock stands still: no answer is late.\<close>

record flash =
  selected :: bool
  outgoing :: "u8 list"
  incoming :: "u8 list"
  awaiting :: "u32 option"
  sectors :: "u32 \<Rightarrow> nat \<Rightarrow> u8"
  unreadable :: "u32 set"

definition sector_bytes :: "flash \<Rightarrow> u32 \<Rightarrow> u8 list" where
  "sector_bytes c s = map (sectors c s) [0..<512]"

definition frame_length :: "u32 option \<Rightarrow> nat" where
  "frame_length w = (case w of None \<Rightarrow> 6 | Some s \<Rightarrow> 515)"

definition starts_frame :: "u32 option \<Rightarrow> u8 \<Rightarrow> bool" where
  "starts_frame w b = (case w of None \<Rightarrow> b AND 0xC0 = 0x40 | Some s \<Rightarrow> b = 0xFE)"

definition frame_address :: "u8 list \<Rightarrow> u32" where
  "frame_address bs = push_bit 24 (ucast (bs ! 1)) OR push_bit 16 (ucast (bs ! 2)) OR push_bit 8 (ucast (bs ! 3)) OR ucast (bs ! 4)"

definition execute :: "u8 list \<Rightarrow> flash \<Rightarrow> flash" where
  "execute bs c = (case awaiting c of
       None \<Rightarrow>
         if bs ! 0 = SDMMC_CMD17 then
           c \<lparr> outgoing := [0xFF, 0] @ (if frame_address bs \<in> unreadable c then [0xFF, 8]
             else [0xFF, 0xFE] @ sector_bytes c (frame_address bs) @ [0, 0]) \<rparr>
         else if bs ! 0 = SDMMC_CMD24 then c \<lparr> outgoing := [0xFF, 0], awaiting := Some (frame_address bs) \<rparr>
         else c \<lparr> outgoing := [0xFF, 4] \<rparr>
     | Some s \<Rightarrow> c \<lparr> outgoing := [0xE5, 0, 0], awaiting := None, sectors := (sectors c)(s := \<lambda>i. bs ! (i + 1)) \<rparr>)"

definition receive :: "u8 \<Rightarrow> flash \<Rightarrow> flash" where
  "receive b c =
     (if incoming c = [] \<and> \<not> starts_frame (awaiting c) b then c
      else let bs = incoming c @ [b] in
        if length bs < frame_length (awaiting c) then c \<lparr> incoming := bs \<rparr> else execute bs (c \<lparr> incoming := [] \<rparr>))"

definition flash_xfer :: "u8 \<Rightarrow> flash \<Rightarrow> u8 \<times> flash" where
  "flash_xfer b c =
     (if \<not> selected c then (0xFF, c)
      else case outgoing c of
          x # xs \<Rightarrow> (x, c \<lparr> outgoing := xs \<rparr>)
        | [] \<Rightarrow> (0xFF, receive b c))"

definition flash_bus :: "flash bus" where
  "flash_bus = \<lparr> bus_xfer = flash_xfer, bus_select = (\<lambda>sel c. c \<lparr> selected := sel \<rparr>), bus_ms = (\<lambda>_. 0) \<rparr>"

text \<open>Between two operations the card has nothing to send and awaits a command.\<close>

definition flash_idle :: "flash \<Rightarrow> bool" where
  "flash_idle c \<longleftrightarrow> outgoing c = [] \<and> incoming c = [] \<and> awaiting c = None"

section \<open>The protocol on the card\<close>

lemma bus_simps [simp]: "bus_xfer flash_bus = flash_xfer" "bus_select flash_bus sel c = c \<lparr> selected := sel \<rparr>" "bus_ms flash_bus c = 0"
  by (simp_all add: flash_bus_def)

lemma in_time [simp]: "\<not> timed_out flash_bus 0 100 c"
  by (simp add: timed_out_def system_timer_is_time_elapsed_ms_def system_timer_get_ms_def)

lemma xfer_out: "selected c \<Longrightarrow> outgoing c = x # xs \<Longrightarrow> flash_xfer b c = (x, c \<lparr> outgoing := xs \<rparr>)"
  by (simp add: flash_xfer_def)

lemma xfer_FF: "outgoing c = [] \<Longrightarrow> incoming c = [] \<Longrightarrow> flash_xfer 0xFF c = (0xFF, c)"
  by (simp add: flash_xfer_def receive_def starts_frame_def split: option.split)

lemma select_idle: "outgoing c = [] \<Longrightarrow> incoming c = [] \<Longrightarrow> sdmmc_spi_select flash_bus c = c \<lparr> selected := True \<rparr>"
  by (simp add: sdmmc_spi_select_def xfer_FF)

lemma deselect_idle: "outgoing c = [] \<Longrightarrow> incoming c = [] \<Longrightarrow> sdmmc_spi_deselect flash_bus c = c \<lparr> selected := False \<rparr>"
  by (simp add: sdmmc_spi_deselect_def xfer_FF)

lemma read_out:
  "selected c \<Longrightarrow> outgoing c = xs @ ys \<Longrightarrow> sdmmc_spi_read flash_bus (length xs) c = (xs, c \<lparr> outgoing := ys \<rparr>)"
  by (induction xs arbitrary: c) (simp_all add: xfer_out split_beta)

lemma write_part:
  assumes "selected c" "outgoing c = []" "incoming c \<noteq> []" "length (incoming c) + length bs < frame_length (awaiting c)"
  shows "sdmmc_spi_write flash_bus bs c = c \<lparr> incoming := incoming c @ bs \<rparr>"
  using assms
proof (induction bs arbitrary: c)
  case (Cons b bs)
  have "flash_xfer b c = (0xFF, c \<lparr> incoming := incoming c @ [b] \<rparr>)"
    using Cons.prems by (simp add: flash_xfer_def receive_def Let_def)
  then show ?case using Cons.IH[of "c \<lparr> incoming := incoming c @ [b] \<rparr>"] Cons.prems by simp
qed simp

lemma write_append: "sdmmc_spi_write bus (xs @ ys) c = sdmmc_spi_write bus ys (sdmmc_spi_write bus xs c)"
  by (induction xs arbitrary: c) simp_all

lemma write_frame:
  assumes "selected c" "outgoing c = []" "incoming c = []" "starts_frame (awaiting c) b"
    "Suc (Suc (length bs)) = frame_length (awaiting c)"
  shows "sdmmc_spi_write flash_bus (b # bs @ [l]) c = execute (b # bs @ [l]) c"
proof -
  have more: "1 < frame_length (awaiting c)" by (simp add: frame_length_def split: option.split)
  have first: "flash_xfer b c = (0xFF, c \<lparr> incoming := [b] \<rparr>)"
    using assms more by (simp add: flash_xfer_def receive_def Let_def)
  have part: "sdmmc_spi_write flash_bus bs (c \<lparr> incoming := [b] \<rparr>) = c \<lparr> incoming := b # bs \<rparr>"
    using assms by (subst write_part) simp_all
  have "flash_xfer l (c \<lparr> incoming := b # bs \<rparr>) = (0xFF, execute (b # bs @ [l]) (c \<lparr> incoming := [] \<rparr>))"
    using assms by (simp add: flash_xfer_def receive_def Let_def)
  moreover have "c \<lparr> incoming := [] \<rparr> = c" using assms(3) by (cases c) simp
  ultimately show ?thesis by (simp add: first write_append part)
qed

lemma frame_address_be32: "frame_address (x # be32_bytes a @ ys) = a"
proof (rule bit_word_eqI)
  fix n
  assume "n < LENGTH(32)"
  then consider "n < 8" | "8 \<le> n" "n < 16" | "16 \<le> n" "n < 24" | "24 \<le> n" "n < 32" by fastforce
  then show "bit (frame_address (x # be32_bytes a @ ys)) n = bit a n"
    by cases (auto simp: frame_address_def be32_bytes_def bit_simps)
qed

lemma answers:
  assumes "selected c" "outgoing c = [0xFF, r] @ xs" "r AND 0x80 = 0"
  shows "read_answer flash_bus SDMMC_READ_RETRY_COUNT d c = (True, r, c \<lparr> outgoing := xs \<rparr>)"
proof -
  have n: "SDMMC_READ_RETRY_COUNT = Suc (Suc 8)" by (simp add: SDMMC_READ_RETRY_COUNT_def)
  show ?thesis unfolding n read_answer.simps using assms by (simp add: xfer_out)
qed

lemma poll_now: "flash_xfer 0xFF c = (b, c1) \<Longrightarrow> p b \<Longrightarrow> poll flash_bus p 0 100 c = Some (False, b, c1)"
  by (subst poll.simps) simp

lemma poll_next: "flash_xfer 0xFF c = (b, c1) \<Longrightarrow> \<not> p b \<Longrightarrow> poll flash_bus p 0 100 c = poll flash_bus p 0 100 c1"
  by (subst poll.simps) simp

lemma be32_bytes_frame: "\<exists>x1 x2 x3 x4. be32_bytes a = [x1, x2, x3, x4]"
  by (simp add: be32_bytes_def)

lemma write_command:
  assumes "selected c" "flash_idle c" "cmd AND 0xC0 = 0x40"
  shows "sdmmc_spi_write flash_bus ([cmd] @ be32_bytes arg @ [crc]) c = execute ([cmd] @ be32_bytes arg @ [crc]) c"
  using write_frame[of c cmd "be32_bytes arg" crc] assms
  by (simp add: flash_idle_def starts_frame_def frame_length_def be32_bytes_def)

lemma ready: "flash_idle c \<Longrightarrow> sdmmc_wait_until_ready flash_bus c = Some (0xFF, c)"
  by (simp add: sdmmc_wait_until_ready_def SDMMC_RESPONSE_TIMEOUT_def poll_now xfer_FF flash_idle_def)

lemma read_command:
  assumes "selected c" "flash_idle c"
  shows "sdmmc_send_command flash_bus SDMMC_CMD17 s c = Some (0, c \<lparr> outgoing := if s \<in> unreadable c then [0xFF, 8]
    else [0xFF, 0xFE] @ sector_bytes c s @ [0, 0] \<rparr>)"
proof -
  let ?c1 = "execute ([SDMMC_CMD17] @ be32_bytes s @ [1]) c"
  let ?data = "if s \<in> unreadable c then [0xFF, 8] else [0xFF, 0xFE] @ sector_bytes c s @ [0, 0]"
  have c1: "?c1 = c \<lparr> outgoing := [0xFF, 0] @ ?data \<rparr>"
    using assms frame_address_be32[of SDMMC_CMD17 s "[1]"] by (simp add: execute_def flash_idle_def)
  have "sdmmc_spi_write flash_bus ([SDMMC_CMD17] @ be32_bytes s @ [1]) c = ?c1"
    by (rule write_command[OF assms]) (simp add: SDMMC_CMD17_def)
  moreover have "read_answer flash_bus SDMMC_READ_RETRY_COUNT 0 ?c1 = (True, 0, c \<lparr> outgoing := ?data \<rparr>)"
    unfolding c1 using assms(1) by (subst answers[where r = 0 and xs = ?data]) simp_all
  moreover have "command_crc SDMMC_CMD17 = 1" "SDMMC_CMD17 \<noteq> SDMMC_CMD0" "SDMMC_CMD17 \<noteq> SDMMC_CMD12" "SDMMC_CMD17 AND 0x80 = 0"
    by (simp_all add: command_crc_def SDMMC_CMD17_def SDMMC_CMD0_def SDMMC_CMD12_def SDMMC_CMD8_def SDMMC_CMD41_def)
  moreover have "flash_xfer 0xFF c = (0xFF, c)" using assms(2) by (simp add: flash_idle_def xfer_FF)
  ultimately show ?thesis
    by (simp add: sdmmc_send_command_def send_single_def ready[OF assms(2)] Let_def)
qed

lemma length_sector_bytes [simp]: "length (sector_bytes c s) = 512"
  by (simp add: sector_bytes_def)

lemma block_address_block: "t AND SDMMC_TYPE_BLOCK \<noteq> 0 \<Longrightarrow> block_address t s = s"
  by (simp add: block_address_def)

lemma flash_read_block:
  assumes "flash_idle c" "t AND SDMMC_TYPE_BLOCK \<noteq> 0"
  shows "sdmmc_read_block flash_bus t s c =
    Some (if s \<in> unreadable c then (READ_BLOCK_TIMEOUT, None, c \<lparr> selected := False \<rparr>)
      else (SDMMC_OK, Some (sector_bytes c s), c \<lparr> selected := False \<rparr>))"
proof -
  let ?c = "c \<lparr> selected := True \<rparr>"
  have idle: "flash_idle ?c" "outgoing c = []" "incoming c = []" using assms(1) by (simp_all add: flash_idle_def)
  have deselect: "sdmmc_spi_deselect flash_bus (?c \<lparr> outgoing := [] \<rparr>) = c \<lparr> selected := False \<rparr>"
    using idle by (cases c) (simp add: deselect_idle)
  note cmd = read_command[OF _ idle(1), of s]
  show ?thesis
  proof (cases "s \<in> unreadable c")
    case True
    have "poll flash_bus (\<lambda>b. b \<noteq> 0xFF) 0 100 (?c \<lparr> outgoing := [0xFF, 8] \<rparr>) = Some (False, 8, ?c \<lparr> outgoing := [] \<rparr>)"
      by (simp add: poll_next[OF xfer_out] poll_now[OF xfer_out])
    then show ?thesis using True idle cmd
      by (simp add: sdmmc_read_block_def block_address_block[OF assms(2)] select_idle SDMMC_DATA_TOKEN_TIMEOUT_def deselect)
  next
    case False
    let ?data = "sector_bytes c s @ [0, 0]"
    have token: "poll flash_bus (\<lambda>b. b \<noteq> 0xFF) 0 100 (?c \<lparr> outgoing := 0xFF # 0xFE # ?data \<rparr>) =
        Some (False, 0xFE, ?c \<lparr> outgoing := ?data \<rparr>)"
      by (simp add: poll_next[OF xfer_out] poll_now[OF xfer_out])
    have bytes: "sdmmc_spi_read flash_bus 512 (?c \<lparr> outgoing := ?data \<rparr>) = (sector_bytes c s, ?c \<lparr> outgoing := [0, 0] \<rparr>)"
      using read_out[of "?c \<lparr> outgoing := ?data \<rparr>" "sector_bytes c s" "[0, 0]"] by simp
    have crc: "sdmmc_spi_read flash_bus 2 (?c \<lparr> outgoing := [0, 0] \<rparr>) = ([0, 0], ?c \<lparr> outgoing := [] \<rparr>)"
      using read_out[of "?c \<lparr> outgoing := [0, 0] \<rparr>" "[0, 0]" "[]"] by (simp add: numeral_2_eq_2)
    have "sector_bytes ?c s = sector_bytes c s" by (simp add: sector_bytes_def)
    then show ?thesis using False idle cmd
      by (simp add: sdmmc_read_block_def block_address_block[OF assms(2)] select_idle SDMMC_DATA_TOKEN_TIMEOUT_def
          token bytes crc SDMMC_SECTOR_SIZE_def deselect)
  qed
qed

lemma response_next:
  "selected c \<Longrightarrow> outgoing c = [0xFF, 0] \<Longrightarrow> sdmmc_response flash_bus 0 c = Some (SDMMC_OK, c \<lparr> outgoing := [] \<rparr>)"
  by (simp add: sdmmc_response_def SDMMC_RESPONSE_TIMEOUT_def poll_next[OF xfer_out] poll_now[OF xfer_out])

lemma flash_write_block:
  assumes "flash_idle c" "t AND SDMMC_TYPE_BLOCK \<noteq> 0" "length data = 512"
  shows "\<exists>c1. sdmmc_write_block flash_bus t s data c = Some (SDMMC_OK, c1) \<and> flash_idle c1 \<and>
    sector_bytes c1 = (sector_bytes c)(s := data) \<and> unreadable c1 = unreadable c"
proof -
  let ?c = "c \<lparr> selected := True \<rparr>"
  have idle: "flash_idle ?c" "outgoing c = []" "incoming c = []" "awaiting c = None"
    using assms(1) by (simp_all add: flash_idle_def)
  have ready: "sdmmc_response flash_bus 0xFF ?c = Some (SDMMC_OK, ?c)"
    using idle by (simp add: sdmmc_response_def SDMMC_RESPONSE_TIMEOUT_def poll_now xfer_FF)
  have cmd: "sdmmc_spi_write flash_bus ([SDMMC_CMD24] @ be32_bytes s @ [0xFF]) ?c =
      ?c \<lparr> outgoing := [0xFF, 0], awaiting := Some s \<rparr>"
    using write_command[OF _ idle(1), of SDMMC_CMD24 s "0xFF"] idle frame_address_be32[of SDMMC_CMD24 s "[0xFF]"]
    by (simp add: execute_def SDMMC_CMD24_def SDMMC_CMD17_def)
  let ?c1 = "?c \<lparr> outgoing := [], awaiting := Some s \<rparr>"
  have sent: "sdmmc_send_spi_command flash_bus SDMMC_CMD24 s 0xFF ?c = Some (?c \<lparr> outgoing := [0xFF, 0], awaiting := Some s \<rparr>)"
    unfolding sdmmc_send_spi_command_def ready using cmd by simp
  have resp: "sdmmc_response flash_bus 0 (?c \<lparr> outgoing := [0xFF, 0], awaiting := Some s \<rparr>) = Some (SDMMC_OK, ?c1)"
    by (subst response_next) simp_all
  let ?c2 = "?c \<lparr> outgoing := [0xE5, 0, 0], awaiting := None, sectors := (sectors c)(s := \<lambda>i. (0xFE # data @ [0xFF, 0xFF]) ! (i + 1)) \<rparr>"
  have block: "sdmmc_spi_write flash_bus (0xFE # data @ [0xFF, 0xFF]) ?c1 = ?c2"
    using write_frame[of ?c1 "0xFE" "data @ [0xFF]" "0xFF"] idle assms(3)
    by (simp add: starts_frame_def frame_length_def execute_def)
  have acc: "sdmmc_response flash_bus 0xE5 ?c2 = Some (SDMMC_OK, ?c2 \<lparr> outgoing := [0, 0] \<rparr>)"
    by (simp add: sdmmc_response_def SDMMC_RESPONSE_TIMEOUT_def poll_now[OF xfer_out])
  let ?c3 = "?c2 \<lparr> outgoing := [] \<rparr>"
  have busy: "busy_loop flash_bus (?c2 \<lparr> outgoing := [0, 0] \<rparr>) = Some ?c3"
    using idle by (subst busy_loop.simps, simp add: xfer_out, subst busy_loop.simps, simp add: xfer_out,
      subst busy_loop.simps, simp add: xfer_FF)
  have "sdmmc_write_block flash_bus t s data c = Some (SDMMC_OK, sdmmc_spi_deselect flash_bus ?c3)"
    using sent resp block acc busy idle
    by (simp add: sdmmc_write_block_def send_block_def block_address_block[OF assms(2)] select_idle)
  moreover have "sdmmc_spi_deselect flash_bus ?c3 = ?c3 \<lparr> selected := False \<rparr>" using idle by (simp add: deselect_idle)
  moreover have "flash_idle (?c3 \<lparr> selected := False \<rparr>)" using idle by (simp add: flash_idle_def)
  moreover have "sector_bytes (?c3 \<lparr> selected := False \<rparr>) = (sector_bytes c)(s := data)"
  proof
    fix x
    have "map (\<lambda>i. (data @ [0xFF, 0xFF]) ! i) [0..<512] = data"
      using assms(3) by (intro nth_equalityI) (simp_all add: nth_append)
    then show "sector_bytes (?c3 \<lparr> selected := False \<rparr>) x = ((sector_bytes c)(s := data)) x"
      by (simp add: sector_bytes_def)
  qed
  ultimately show ?thesis by simp
qed

section \<open>The device\<close>

lemma whole_sector: "n mod 512 = 0 \<Longrightarrow> 0 < n \<Longrightarrow> off + n \<le> 512 \<Longrightarrow> off = 0 \<and> n = (512 :: nat)"
  by (drule mod_0_imp_dvd, drule dvd_imp_le) simp_all

lemma sd_lfs_config_simps [simp]:
  "cfg_read (sd_lfs_config bus t n) = sd_lfs_read bus t" "cfg_prog (sd_lfs_config bus t n) = sd_lfs_prog bus t"
  "cfg_erase (sd_lfs_config bus t n) = sd_lfs_erase" "cfg_sync (sd_lfs_config bus t n) = sd_lfs_sync"
  "read_size (sd_lfs_config bus t n) = 512" "prog_size (sd_lfs_config bus t n) = 512"
  "block_size (sd_lfs_config bus t n) = 512" "cache_size (sd_lfs_config bus t n) = 512"
  "block_count (sd_lfs_config bus t n) = n"
  by (simp_all add: sd_lfs_config_def)

lemma flash_device_read:
  assumes "flash_idle d" "t AND SDMMC_TYPE_BLOCK \<noteq> 0"
  shows "sd_lfs_read flash_bus t b off n d =
    Some (if b \<in> unreadable d then LFS_ERR_IO else LFS_ERR_OK, if b \<in> unreadable d then [] else sector_bytes d b, d \<lparr> selected := False \<rparr>)"
  using flash_read_block[OF assms, of b] by (simp add: sd_lfs_read_def)

lemma flash_device_prog:
  assumes "flash_idle d" "t AND SDMMC_TYPE_BLOCK \<noteq> 0" "length bytes = 512"
  shows "\<exists>d1. sd_lfs_prog flash_bus t b off bytes d = Some (LFS_ERR_OK, d1) \<and> flash_idle d1 \<and>
    sector_bytes d1 = (sector_bytes d)(b := bytes) \<and> unreadable d1 = unreadable d"
  using flash_write_block[OF assms, of b] by (auto simp: sd_lfs_prog_def)

lemma flash_deselected: "flash_idle (d \<lparr> selected := x \<rparr>) = flash_idle d" "sector_bytes (d \<lparr> selected := x \<rparr>) = sector_bytes d"
  by (simp_all add: flash_idle_def sector_bytes_def fun_eq_iff)

text \<open>The contract of littlefs, on the functions of the firmware.\<close>

interpretation sd: block_device "sd_lfs_config flash_bus 12 15333376" flash_idle sector_bytes
proof (unfold_locales, unfold sd_lfs_config_simps)
  have t: "(12 :: u8) AND SDMMC_TYPE_BLOCK \<noteq> 0" by (simp add: SDMMC_TYPE_BLOCK_def)
  show "\<exists>err bytes d1. sd_lfs_read flash_bus 12 b off n d = Some (err, bytes, d1) \<and> flash_idle d1 \<and>
      sector_bytes d1 = sector_bytes d \<and> length bytes \<le> unat n \<and> err \<le> 0 \<and>
      (err = 0 \<longrightarrow> bytes = segment (unat off) (unat n) (sector_bytes d b))"
    if "flash_idle d" "unat off mod unat (512 :: u32) = 0" "unat n mod unat (512 :: u32) = 0" "0 < unat n"
      "unat off + unat n \<le> unat (512 :: u32)" for d off n b
  proof -
    have "unat off = 0" "unat n = 512" using that whole_sector[of "unat n" "unat off"] by simp_all
    then show ?thesis using that(1)
      by (simp add: flash_device_read[OF that(1) t] flash_deselected segment_all LFS_ERR_IO_def LFS_ERR_OK_def)
  qed
  show "\<exists>err d1. sd_lfs_prog flash_bus 12 b off bytes d = Some (err, d1) \<and> flash_idle d1 \<and> err \<le> 0 \<and>
      (\<forall>b1. b1 \<noteq> b \<longrightarrow> sector_bytes d1 b1 = sector_bytes d b1) \<and>
      (err = 0 \<longrightarrow> sector_bytes d1 b = overlay (sector_bytes d b) (unat off) bytes)"
    if "flash_idle d" "unat off mod unat (512 :: u32) = 0" "length bytes mod unat (512 :: u32) = 0" "0 < length bytes"
      "unat off + length bytes \<le> unat (512 :: u32)" for d off bytes b
  proof -
    have "length bytes = 512" "unat off = 0" using that whole_sector[of "length bytes" "unat off"] by simp_all
    with flash_device_prog[OF that(1) t this(1), of b off] show ?thesis by (auto simp: overlay_def LFS_ERR_OK_def)
  qed
qed (simp_all add: sd_lfs_erase_def sd_lfs_sync_def LFS_ERR_OK_def)

section \<open>Results\<close>

text \<open>C11. On every device that keeps the contract of littlefs: bytes that are programmed from the start of a
  program unit with an empty program cache, however many the cache takes at a time, and then synchronised, are what a
  read of the same place returns. Each of the three returns; the errors they can report are those of the device and,
  for the first two, corrupt data.\<close>
theorem programmed_bytes_read_back:
  assumes device: "block_device cfg valid contents" "valid d"
    and caches: "c_block p = LFS_BLOCK_NULL" "length (c_buffer p) = unat (cache_size cfg)" "length (c_buffer r) = unat (cache_size cfg)"
    and place: "block < block_count cfg" "unat off mod unat (prog_size cfg) = 0" "unat off + length data \<le> unat (block_size cfg)"
    and some: "data \<noteq> []" and hint: "0 < hint" "hint \<le> block_size cfg"
  shows "\<exists>err p1 r1 d1. lfs_bd_prog cfg v1 block off data p r d = Some (err, p1, r1, d1) \<and> reported cfg err \<and> (err = 0 \<longrightarrow>
    (\<exists>err2 p2 r2 d2. lfs_bd_sync cfg v2 p1 r1 d1 = Some (err2, p2, r2, d2) \<and> reported cfg err2 \<and> (err2 = 0 \<longrightarrow>
      (\<exists>err3 bytes r3 d3. lfs_bd_read cfg (Some p2) hint block off (of_nat (length data)) r2 d2 = Some (err3, bytes, r3, d3) \<and>
        (device_error cfg err3 \<or> err3 = 0 \<and> bytes = data)))))"
proof -
  have "length data < 2 ^ 30" using place(3) block_device.size_facts(11)[OF device(1)] by linarith
  then have n: "unat (of_nat (length data) :: u32) = length data" by (simp add: unat_of_nat)
  have inside: "lfs_bd_read cfg (Some q) hint block off (of_nat (length data)) s e = Some (err3, bytes, r3, d3) \<Longrightarrow> err3 \<noteq> 0 \<Longrightarrow>
      device_error cfg err3" for q s e err3 bytes r3 d3
    using place n by (elim block_device.read_inside_error[OF device(1)]) simp_all
  from block_device.round_trip[OF device caches place some hint, of v1 v2] obtain err p1 r1 d1 where
    pr: "lfs_bd_prog cfg v1 block off data p r d = Some (err, p1, r1, d1)" and rest: "err = 0 \<longrightarrow>
      (\<exists>err2 p2 r2 d2. lfs_bd_sync cfg v2 p1 r1 d1 = Some (err2, p2, r2, d2) \<and> (err2 = 0 \<longrightarrow>
        (\<exists>err3 bytes r3 d3. lfs_bd_read cfg (Some p2) hint block off (of_nat (length data)) r2 d2 = Some (err3, bytes, r3, d3) \<and>
          err3 \<le> 0 \<and> (err3 = 0 \<longrightarrow> bytes = data))))" by blast
  have "\<exists>err2 p2 r2 d2. lfs_bd_sync cfg v2 p1 r1 d1 = Some (err2, p2, r2, d2) \<and> reported cfg err2 \<and> (err2 = 0 \<longrightarrow>
      (\<exists>err3 bytes r3 d3. lfs_bd_read cfg (Some p2) hint block off (of_nat (length data)) r2 d2 = Some (err3, bytes, r3, d3) \<and>
        (device_error cfg err3 \<or> err3 = 0 \<and> bytes = data)))" if zero: "err = 0"
  proof -
    from rest zero obtain err2 p2 r2 d2 where sy: "lfs_bd_sync cfg v2 p1 r1 d1 = Some (err2, p2, r2, d2)" and rd: "err2 = 0 \<longrightarrow>
        (\<exists>err3 bytes r3 d3. lfs_bd_read cfg (Some p2) hint block off (of_nat (length data)) r2 d2 = Some (err3, bytes, r3, d3) \<and>
          err3 \<le> 0 \<and> (err3 = 0 \<longrightarrow> bytes = data))" by blast
    have "err2 = 0 \<longrightarrow>
        (\<exists>err3 bytes r3 d3. lfs_bd_read cfg (Some p2) hint block off (of_nat (length data)) r2 d2 = Some (err3, bytes, r3, d3) \<and>
          (device_error cfg err3 \<or> err3 = 0 \<and> bytes = data))"
    proof
      assume "err2 = 0"
      with rd obtain err3 bytes r3 d3 where r3: "lfs_bd_read cfg (Some p2) hint block off (of_nat (length data)) r2 d2 = Some (err3, bytes, r3, d3)"
        and "err3 = 0 \<longrightarrow> bytes = data" by blast
      then have "device_error cfg err3 \<or> err3 = 0 \<and> bytes = data" using inside[OF r3] by (cases "err3 = 0") simp_all
      with r3 show "\<exists>err3 bytes r3 d3. lfs_bd_read cfg (Some p2) hint block off (of_nat (length data)) r2 d2 = Some (err3, bytes, r3, d3) \<and>
        (device_error cfg err3 \<or> err3 = 0 \<and> bytes = data)" by (intro exI conjI)
    qed
    then show ?thesis using sy lfs_bd_sync_frame[OF sy] by (intro exI conjI)
  qed
  then show ?thesis using pr lfs_bd_prog_frame(3)[OF pr] by blast
qed

definition formatted_card :: flash where
  "formatted_card = \<lparr> selected = False, outgoing = [], incoming = [], awaiting = None, sectors = (\<lambda>s i. 0), unreadable = {9} \<rparr>"

definition empty_cache :: lfs_cache where
  "empty_cache = \<lparr> c_block = LFS_BLOCK_NULL, c_off = 0, c_size = 0, c_buffer = replicate 512 0xFF \<rparr>"

lemma formatted_card_idle: "flash_idle formatted_card"
  by (simp add: flash_idle_def formatted_card_def)

lemma empty_cache_simps: "c_block empty_cache = LFS_BLOCK_NULL" "length (c_buffer empty_cache) = 512"
  by (simp_all add: empty_cache_def)

theorem programmed_bytes_read_back_witness:
  "\<exists>err p1 r1 d1. lfs_bd_prog (sd_lfs_config flash_bus 12 15333376) True 7 0 [1, 2, 3] empty_cache empty_cache formatted_card =
      Some (err, p1, r1, d1) \<and> reported (sd_lfs_config flash_bus 12 15333376) err \<and> (err = 0 \<longrightarrow>
    (\<exists>err2 p2 r2 d2. lfs_bd_sync (sd_lfs_config flash_bus 12 15333376) True p1 r1 d1 = Some (err2, p2, r2, d2) \<and>
      reported (sd_lfs_config flash_bus 12 15333376) err2 \<and> (err2 = 0 \<longrightarrow>
      (\<exists>err3 bytes r3 d3. lfs_bd_read (sd_lfs_config flash_bus 12 15333376) (Some p2) 16 7 0 3 r2 d2 = Some (err3, bytes, r3, d3) \<and>
        (device_error (sd_lfs_config flash_bus 12 15333376) err3 \<or> err3 = 0 \<and> bytes = [1, 2, 3])))))"
  using programmed_bytes_read_back[OF sd.block_device_axioms formatted_card_idle, of empty_cache empty_cache 7 0 "[1, 2, 3]" 16 True True]
  by (simp add: empty_cache_simps)

text \<open>C18. A read of a few bytes of a sector that the card cannot read fails, and leaves the read cache claiming that
  sector: the same read again succeeds, without the card, with the bytes the cache has held before.\<close>
theorem failed_read_then_stale_bytes:
  assumes card: "flash_idle d" "b \<in> unreadable d" and cache: "c_block r \<noteq> b" "length (c_buffer r) = 512"
    and place: "b < 15333376" "0 < len" "len < 512" "unat off + unat len \<le> 512" and hint: "0 < hint" "hint \<le> 512"
  shows "\<exists>r1 d1. lfs_bd_read (sd_lfs_config flash_bus 12 15333376) None hint b off len r d = Some (LFS_ERR_IO, [], r1, d1) \<and>
    lfs_bd_read (sd_lfs_config flash_bus 12 15333376) None hint b off len r1 d1 =
      Some (LFS_ERR_OK, segment (unat off) (unat len) (c_buffer r), r1, d1)"
proof -
  let ?cfg = "sd_lfs_config flash_bus 12 15333376"
  have len: "0 < unat len" "unat len < 512" and off: "unat off < 512"
    using place by (simp_all add: word_less_nat_alt)
  define start where "start = lfs_aligndown off 512"
  define n where "n = lfs_min (lfs_min (lfs_alignup (off + hint) 512) 512 - start) 512"
  have "unat hint \<le> 512" "0 < unat hint" using hint by (simp_all add: word_less_nat_alt word_le_nat_alt)
  with sd.loading_window[of off hint start n] off
  have w: "unat start mod 512 = 0" "unat n mod 512 = 0" "unat start \<le> unat off" "unat off < unat start + unat n" "unat n \<le> 512"
    by (simp_all add: start_def n_def)
  have start: "start = 0" using w(1,3) off by (simp add: word_unat_eq_iff)
  then have n: "n = 512" using w(2,4,5) whole_sector[of "unat n" 0] by (simp add: word_unat_eq_iff)
  define r1 where "r1 = \<lparr> c_block = b, c_off = 0, c_size = 512, c_buffer = c_buffer r \<rparr>"
  have t: "(12 :: u8) AND SDMMC_TYPE_BLOCK \<noteq> 0" by (simp add: SDMMC_TYPE_BLOCK_def)
  have nc: "\<not> (hint \<le> len \<and> off mod read_size ?cfg = 0 \<and> read_size ?cfg \<le> len)" using place(3) by (auto simp: not_le)
  have window: "lfs_min (lfs_min (lfs_alignup (off + hint) 512) 512) 512 = 512" using n start by (simp add: n_def)
  have "read_device ?cfg hint b len (off, len, [], r, d) = Some (Stop LFS_ERR_IO (off, len, [], r1, d \<lparr> selected := False \<rparr>))"
    unfolding read_device_def prod.case if_not_P[OF nc]
    using card(2) start by (simp add: start_def flash_device_read[OF card(1) t] mem_put_def r1_def LFS_ERR_IO_def window)
  then have first: "read_step ?cfg None hint b (off, len, [], r, d) = Some (Stop LFS_ERR_IO (off, len, [], r1, d \<lparr> selected := False \<rparr>))"
    using cache by (simp add: read_step_def read_below_def in_cache_def)
  have lim: "lfs_min len (512 - off) = len"
    using place(4) off by (simp add: word_unat_eq_iff unat_sub_no_wrap)
  then have lim_nat: "min (unat len) (unat (512 - off)) = unat len" by (simp flip: unat_lfs_min)
  have "off < 512" using off by (simp add: word_less_nat_alt)
  then have second: "read_step ?cfg None hint b (off, len, [], r1, d') = Some (Again (off + len, 0, segment (unat off) (unat len) (c_buffer r), r1, d'))"
    for d' using cache(2) place(4)
    by (simp add: read_step_def read_below_def in_cache_def r1_def read_cache_def lim lim_nat mem_get_segment)
  have inside: "\<not> 512 < off + len" "\<not> 15333376 \<le> b" "len \<noteq> 0"
    using place len off by (simp_all add: word_less_nat_alt word_le_nat_alt unat_add_small unat_gt_0)
  have "lfs_bd_read ?cfg None hint b off len r d = Some (LFS_ERR_IO, [], r1, d \<lparr> selected := False \<rparr>)"
    using inside by (simp add: lfs_bd_read_def read_loop.simps[of _ _ _ _ "(off, len, [], r, d)"] first)
  moreover have "lfs_bd_read ?cfg None hint b off len r1 d' = Some (LFS_ERR_OK, segment (unat off) (unat len) (c_buffer r), r1, d')" for d'
    using inside by (simp add: lfs_bd_read_def read_loop.simps[of _ _ _ _ "(off, len, [], r1, d')"] second
        read_loop.simps[of _ _ _ _ "(off + len, 0, x, y, z)" for x y z] LFS_ERR_OK_def)
  ultimately show ?thesis by blast
qed

theorem failed_read_then_stale_bytes_witness:
  "\<exists>r1 d1. lfs_bd_read (sd_lfs_config flash_bus 12 15333376) None 16 9 0 4 empty_cache formatted_card = Some (LFS_ERR_IO, [], r1, d1) \<and>
    lfs_bd_read (sd_lfs_config flash_bus 12 15333376) None 16 9 0 4 r1 d1 = Some (LFS_ERR_OK, [0xFF, 0xFF, 0xFF, 0xFF], r1, d1)"
proof -
  have "9 \<in> unreadable formatted_card" "c_block empty_cache \<noteq> 9"
    by (simp_all add: formatted_card_def empty_cache_def LFS_BLOCK_NULL_def)
  moreover have "segment 0 4 (c_buffer empty_cache) = [0xFF, 0xFF, 0xFF, 0xFF]"
    by (simp add: segment_def empty_cache_def numeral_eq_Suc)
  ultimately show ?thesis
    using failed_read_then_stale_bytes[OF formatted_card_idle, of 9 empty_cache 4 0 16] by (simp add: empty_cache_simps)
qed

end
