(* ===== verification/Lfs_Ctz.thy ===== *)
theory Lfs_Ctz
  imports Lfs_Frame
begin

text \<open>
  The lists of blocks of the files of littlefs (\<^verbatim>\<open>warp/wem/littlefs/lfs.c\<close>, file index list
  operations). Block number i of a file starts with pointers to the blocks i - 1, i - 2, i - 4, ..., as many as
  i has trailing zeros and one; the rest of the block is data.
\<close>

section \<open>The index of a byte\<close>

text \<open>The block number and the offset in the block.\<close>

definition lfs_ctz_index :: "'d lfs_config \<Rightarrow> u32 \<Rightarrow> u32 \<times> u32" where
  "lfs_ctz_index cfg off =
     (let size = off; b = block_size cfg - 2 * 4; i = size div b in
      if i = 0 then (0, off)
      else let i = (size - 4 * (lfs_popc (i - 1) + 2)) div b in (i, size - b * i - 4 * lfs_popc i))"

text \<open>The reference goes through the file block by block.\<close>

definition ctz_header :: "nat \<Rightarrow> nat" where
  "ctz_header i = (if i = 0 then 0 else 4 * (trailing_zeros i + 1))"

partial_function (option) ctz_walk :: "nat \<Rightarrow> nat \<Rightarrow> nat \<Rightarrow> (nat \<times> nat) option" where
  "ctz_walk block i pos =
     (if pos < block - ctz_header i then Some (i, ctz_header i + pos)
      else ctz_walk block (Suc i) (pos - (block - ctz_header i)))"

declare ctz_walk.simps [code]

text \<open>The number of bytes before block i.\<close>

definition ctz_start :: "nat \<Rightarrow> nat \<Rightarrow> nat" where
  "ctz_start b i = (if i = 0 then 0 else i * b + 4 * (ones (i - 1) + 2))"

lemma ctz_start_Suc: "ctz_header i \<le> b + 8 \<Longrightarrow> ctz_start b (Suc i) = ctz_start b i + (b + 8 - ctz_header i)"
proof (cases i)
  case 0
  then show ?thesis by (simp add: ctz_start_def ctz_header_def)
next
  case (Suc j)
  then show "ctz_header i \<le> b + 8 \<Longrightarrow> ctz_start b (Suc i) = ctz_start b i + (b + 8 - ctz_header i)"
    using ones_pred[of i] by (simp add: ctz_start_def ctz_header_def)
qed

lemma ones_small: "n < 2 ^ 26 \<Longrightarrow> ones n \<le> 26"
  using ones_le_bit_length[of n] bit_length_le[of n 26] by linarith

lemma trailing_zeros_small: "n < 2 ^ 26 \<Longrightarrow> trailing_zeros n < 26"
  by (cases "n = 0") (simp_all add: trailing_zeros_less)

lemma ctz_header_le: "i < 2 ^ 26 \<Longrightarrow> 120 \<le> b \<Longrightarrow> ctz_header i \<le> b + 8"
  using trailing_zeros_small[of i] by (simp add: ctz_header_def)

lemma ctz_start_mono: "m \<le> n \<Longrightarrow> n < 2 ^ 26 \<Longrightarrow> 120 \<le> b \<Longrightarrow> ctz_start b m \<le> ctz_start b n"
proof (induction n rule: dec_induct)
  case (step n)
  then have "ctz_header n \<le> b + 8" by (intro ctz_header_le) simp_all
  then show ?case using step ctz_start_Suc[of n b] by simp
qed simp

lemma ctz_walk_start:
  assumes "pos < b + 8 - ctz_header i" "j \<le> i" "i < 2 ^ 26" "120 \<le> b"
  shows "ctz_walk (b + 8) j (ctz_start b i - ctz_start b j + pos) = Some (i, ctz_header i + pos)"
  using assms(2)
proof (induction "i - j" arbitrary: j)
  case 0
  then have "j = i" by simp
  then show ?case using assms(1) by (subst ctz_walk.simps) simp
next
  case (Suc k)
  then have j: "j < i" by simp
  have Suc_start: "ctz_start b (Suc j) = ctz_start b j + (b + 8 - ctz_header j)"
    using j assms(3,4) by (intro ctz_start_Suc ctz_header_le) simp_all
  have "ctz_start b (Suc j) \<le> ctz_start b i" using j assms(3,4) by (intro ctz_start_mono) simp_all
  then have pos: "b + 8 - ctz_header j \<le> ctz_start b i - ctz_start b j + pos"
    and rest: "ctz_start b i - ctz_start b j + pos - (b + 8 - ctz_header j) = ctz_start b i - ctz_start b (Suc j) + pos"
    using Suc_start by linarith+
  have "ctz_walk (b + 8) (Suc j) (ctz_start b i - ctz_start b (Suc j) + pos) = Some (i, ctz_header i + pos)"
    using Suc by simp
  then show ?case using pos rest by (subst ctz_walk.simps) simp
qed

text \<open>The guess from the size without pointers is right or one too large; the second division corrects it.\<close>

lemma ctz_index_bounds:
  assumes "120 \<le> b" "b \<le> s" "s < 2 ^ 32" "i = (s - 4 * (ones (s div b - 1) + 2)) div b"
  shows "ctz_start b i \<le> s" "s < ctz_start b (Suc i)" "i < 2 ^ 26" "4 * (ones (s div b - 1) + 2) \<le> s"
proof -
  define g where "g = s div b"
  have g: "g * b \<le> s" "s < g * b + b" "1 \<le> g"
    using assms(1,2) by (simp_all add: g_def div_le_mono[of b s b] dividend_less_div_times add.commute div_greater_zero_iff Suc_leI)
  have "g * 120 \<le> g * b" using assms(1) by simp
  then have "g * 120 < 2 ^ 32" using g(1) assms(3) by linarith
  then have small: "g < 2 ^ 26" by simp
  have o: "ones m \<le> 26" if "m \<le> g" for m using small that by (intro ones_small) simp
  define k where "k = 4 * (ones (g - 1) + 2)"
  have k: "k \<le> b" using o[of "g - 1"] assms(1) by (simp add: k_def)
  then show "4 * (ones (s div b - 1) + 2) \<le> s" using assms(2) by (simp add: k_def g_def)
  have i: "i = (s - k) div b" by (simp add: assms(4) k_def g_def)
  have "ctz_start b i \<le> s \<and> s < ctz_start b (Suc i) \<and> i \<le> g"
  proof (cases "g * b + k \<le> s")
    case True
    then have "g * b \<le> s - k" "s - k < g * b + b" using g(2) by linarith+
    then have "i = g" unfolding i using assms(1) by (intro div_nat_eqI) (simp_all add: mult.commute)
    then show ?thesis using True g by (simp add: ctz_start_def k_def)
  next
    case False
    have "(g - 1) * b \<le> s - k" "s - k < (g - 1) * b + b"
      using False g k assms(2) by (auto simp: diff_mult_distrib) 
    then have ig: "i = g - 1" unfolding i using assms(1) by (intro div_nat_eqI) (simp_all add: mult.commute)
    have "s < ctz_start b (Suc i)" using False g(3) by (simp add: ig ctz_start_def k_def)
    moreover have "ctz_start b i \<le> s"
    proof (cases "i = 0")
      case False
      then have "ctz_start b i = i * b + 4 * (ones (i - 1) + 2)" by (simp add: ctz_start_def)
      also have "\<dots> \<le> i * b + b" using o[of "i - 1"] ig assms(1) by simp
      also have "\<dots> = g * b" using ig g(3) by (cases g) simp_all
      finally show ?thesis using g(1) by simp
    qed (simp add: ctz_start_def)
    ultimately show ?thesis using ig by simp
  qed
  then show "ctz_start b i \<le> s" "s < ctz_start b (Suc i)" "i < 2 ^ 26" using small by auto
qed

lemma unat_less_pow: "unat (x :: u32) < 2 ^ 32"
  using unsigned_less[of x] by simp

lemma unat_4_mult: "unat x < 2 ^ 30 \<Longrightarrow> unat (4 * x :: u32) = 4 * unat x"
  by (simp add: unat_word_ariths)

lemma lfs_ctz_index_start:
  assumes "128 \<le> unat (block_size cfg)" "lfs_ctz_index cfg pos = (i, off)"
  shows "ctz_start (unat (block_size cfg) - 8) (unat i) \<le> unat pos"
    "unat pos < ctz_start (unat (block_size cfg) - 8) (Suc (unat i))" "unat i < 2 ^ 26"
    "unat off = unat pos - ctz_start (unat (block_size cfg) - 8) (unat i) + ctz_header (unat i)"
proof -
  let ?b = "unat (block_size cfg) - 8" and ?s = "unat pos"
  define w where "w = block_size cfg - 2 * 4"
  have "unat (8 :: u32) \<le> unat (block_size cfg)" using assms(1) by simp
  then have b: "unat w = ?b" by (simp add: unat_sub_no_wrap w_def)
  define g where "g = pos div w"
  have io: "(i, off) = (if g = 0 then (0, pos) else
      let i = (pos - 4 * (lfs_popc (g - 1) + 2)) div w in (i, pos - w * i - 4 * lfs_popc i))"
    using assms(2) by (simp only: lfs_ctz_index_def Let_def w_def g_def)
  have g: "unat g = ?s div ?b" by (simp add: g_def unat_div b)
  have "ctz_start ?b (unat i) \<le> ?s \<and> ?s < ctz_start ?b (Suc (unat i)) \<and> unat i < 2 ^ 26 \<and>
    unat off = ?s - ctz_start ?b (unat i) + ctz_header (unat i)"
  proof (cases "g = 0")
    case True
    then have "i = 0" "off = pos" using io by simp_all
    moreover have "?s < ?b" using True g assms(1) by (auto simp: div_eq_0_iff)
    ultimately show ?thesis by (simp add: ctz_start_def ctz_header_def)
  next
    case False
    then have pos: "0 < unat g" by (simp add: unat_gt_0)
    then have le: "?b \<le> ?s" using g by (simp add: div_greater_zero_iff)
    have "unat (g - 1) = unat g - 1" using False by (simp add: unat_minus_one)
    then have popc: "unat (lfs_popc (g - 1)) = ones (?s div ?b - 1)" by (simp add: unat_lfs_popc g)
    define j where "j = (?s - 4 * (ones (?s div ?b - 1) + 2)) div ?b"
    have "120 \<le> ?b" using assms(1) by simp
    from ctz_index_bounds[OF this le _ j_def] have
      j: "ctz_start ?b j \<le> ?s" "?s < ctz_start ?b (Suc j)" "j < 2 ^ 26" "4 * (ones (?s div ?b - 1) + 2) \<le> ?s" by simp_all
    have c: "ones (?s div ?b - 1) \<le> 32" unfolding popc[symmetric] by (rule lfs_popc_le)
    then have sum: "unat (lfs_popc (g - 1) + 2) = ones (?s div ?b - 1) + 2" by (simp add: unat_add_small popc)
    then have "unat (4 * (lfs_popc (g - 1) + 2)) = 4 * (ones (?s div ?b - 1) + 2)"
      using c unat_4_mult[of "lfs_popc (g - 1) + 2"] by (simp only: sum) simp
    then have i_nat: "unat ((pos - 4 * (lfs_popc (g - 1) + 2)) div w) = j"
      using j(4) by (simp add: unat_div b unat_sub_no_wrap j_def)
    have i_off: "i = (pos - 4 * (lfs_popc (g - 1) + 2)) div w"
      "off = pos - w * i - 4 * lfs_popc i"
      using io False by (simp_all add: Let_def)
    have i: "unat i = j" unfolding i_off(1) by (rule i_nat)
    have jo: "j * ?b + 4 * ones j \<le> ?s \<and> ?s - j * ?b - 4 * ones j = ?s - ctz_start ?b j + ctz_header j"
    proof (cases j)
      case (Suc k)
      then show ?thesis using j(1) ones_pred[of j] by (simp add: ctz_start_def ctz_header_def)
    qed (simp add: ctz_start_def ctz_header_def)
    then have le2: "j * ?b \<le> ?s" "4 * ones j \<le> ?s - j * ?b" by linarith+
    have "?s < 2 ^ 32" by (rule unat_less_pow)
    then have "j * ?b < 2 ^ 32" by (rule le_less_trans[OF le2(1)])
    then have "unat w * unat i < 2 ^ 32" by (simp only: b i mult.commute)
    then have wi: "unat (w * i) = j * ?b" by (subst unat_mult_lem[THEN iffD1]) (simp_all add: b i mult.commute)
    have "ones j \<le> 32" using ones_le_32[of i] by (simp add: i)
    then have "unat (4 * lfs_popc i) = 4 * ones j" using unat_4_mult[of "lfs_popc i"] by (simp add: unat_lfs_popc i)
    then have "unat off = ?s - j * ?b - 4 * ones j" using le2 by (simp add: i_off(2) unat_sub_no_wrap wi)
    then show ?thesis using j jo by (simp add: i)
  qed
  then show "ctz_start ?b (unat i) \<le> ?s" "?s < ctz_start ?b (Suc (unat i))" "unat i < 2 ^ 26"
    "unat off = ?s - ctz_start ?b (unat i) + ctz_header (unat i)" by blast+
qed

lemma lfs_ctz_index_walk:
  assumes "128 \<le> unat (block_size cfg)" "lfs_ctz_index cfg pos = (i, off)"
  shows "ctz_walk (unat (block_size cfg)) 0 (unat pos) = Some (unat i, unat off)"
proof -
  note s = lfs_ctz_index_start[OF assms]
  let ?b = "unat (block_size cfg) - 8"
  have b: "?b + 8 = unat (block_size cfg)" "120 \<le> ?b" using assms(1) by simp_all
  have "ctz_header (unat i) \<le> ?b + 8" using trailing_zeros_small[OF s(3)] assms(1) by (simp add: ctz_header_def)
  then have "unat pos - ctz_start ?b (unat i) < ?b + 8 - ctz_header (unat i)"
    using s(1,2) ctz_start_Suc[of "unat i" ?b] by linarith
  from ctz_walk_start[OF this _ s(3) b(2), of 0] s(1,4) b(1) show ?thesis
    by (simp add: ctz_start_def add.commute split: if_splits)
qed

section \<open>Finding a block\<close>

definition word_at :: "u8 list \<Rightarrow> nat \<Rightarrow> u32" where
  "word_at bs i = un_le32 (bs ! i) (bs ! (i + 1)) (bs ! (i + 2)) (bs ! (i + 3))"

partial_function (option) ctz_find_loop ::
  "'d lfs_config \<Rightarrow> lfs_cache option \<Rightarrow> u32 \<Rightarrow> u32 \<Rightarrow> u32 \<Rightarrow> lfs_cache \<Rightarrow> 'd \<Rightarrow> (int \<times> u32 \<times> lfs_cache \<times> 'd) option" where
  "ctz_find_loop cfg pcache head current target rcache d =
     (if target < current then do {
        let skip = lfs_min (lfs_npw2 (current - target + 1) - 1) (lfs_ctz current);
        (err, bytes, rcache1, d1) \<leftarrow> lfs_bd_read cfg pcache 4 head (4 * skip) 4 rcache d;
        if err \<noteq> 0 then Some (err, head, rcache1, d1)
        else ctz_find_loop cfg pcache (lfs_fromle32 (word_at bytes 0)) (current - push_bit (unat skip) 1) target rcache1 d1
      }
      else Some (0, head, rcache, d))"

text \<open>The block and the offset are not set when there is an error.\<close>

definition lfs_ctz_find ::
  "'d lfs_config \<Rightarrow> lfs_cache option \<Rightarrow> u32 \<Rightarrow> u32 \<Rightarrow> u32 \<Rightarrow> lfs_cache \<Rightarrow> 'd \<Rightarrow>
   (int \<times> (u32 \<times> u32) option \<times> lfs_cache \<times> 'd) option" where
  "lfs_ctz_find cfg pcache head len pos rcache d =
     (if len = 0 then Some (0, Some (LFS_BLOCK_NULL, 0), rcache, d)
      else do {
        let (current, _) = lfs_ctz_index cfg (len - 1);
        let (target, off) = lfs_ctz_index cfg pos;
        (err, block, rcache1, d1) \<leftarrow> ctz_find_loop cfg pcache head current target rcache d;
        if err \<noteq> 0 then Some (err, None, rcache1, d1)
        else Some (0, Some (block, off), rcache1, d1)
      })"

text \<open>The pointers of the blocks of a file.\<close>

definition ctz_file :: "(u32 \<Rightarrow> u8 list) \<Rightarrow> u32 list \<Rightarrow> bool" where
  "ctz_file mem bs \<longleftrightarrow> (\<forall>i < length bs. 0 < i \<longrightarrow>
     (\<forall>k \<le> trailing_zeros i. segment (4 * k) 4 (mem (bs ! i)) = le32 (bs ! (i - 2 ^ k))))"

lemma word_at_le32: "word_at (le32 w) 0 = w"
  using un_le32_le32[of w] by (simp add: word_at_def numeral_2_eq_2 numeral_3_eq_3)

lemma unat_one_bit: "k < 32 \<Longrightarrow> unat (2 ^ k :: u32) = 2 ^ k"
proof -
  assume "k < 32"
  then have "(2 :: nat) ^ k < 2 ^ 32" by (intro power_strict_increasing) simp_all
  then have "unat (of_nat (2 ^ k) :: u32) = 2 ^ k" unfolding unat_of_nat by simp
  then show ?thesis by simp
qed

text \<open>A skip is a pointer of the block that does not go past the target.\<close>

lemma ctz_skip:
  assumes "target < current" "unat current < 2 ^ 26" "skip = lfs_min (lfs_npw2 (current - target + 1) - 1) (lfs_ctz current)"
  shows "unat skip \<le> trailing_zeros (unat current)" "unat skip < 26" "unat target \<le> unat (current - 2 ^ unat skip)"
    "unat (current - 2 ^ unat skip) = unat current - 2 ^ unat skip" "unat current - 2 ^ unat skip < unat current"
proof -
  have lt: "unat target < unat current" using assms(1) by (simp add: word_less_nat_alt)
  then have "unat (current - target) = unat current - unat target" by (simp add: unat_sub_no_wrap)
  moreover define n where "n = unat current - unat target"
  ultimately have npw2: "unat (lfs_npw2 (current - target + 1)) = bit_length n" by (simp add: unat_lfs_npw2)
  have n: "0 < n" "n < 2 ^ 26" using lt assms(2) by (simp_all add: n_def)
  have "bit_length n \<noteq> 0" using n(1) by (subst bit_length.simps) simp
  then have "unat (lfs_npw2 (current - target + 1) - 1) = bit_length n - 1"
    using npw2 by (subst unat_minus_one) auto
  moreover have "current \<noteq> 0" using lt by auto
  ultimately have skip: "unat skip = min (bit_length n - 1) (trailing_zeros (unat current))"
    by (simp add: assms(3) unat_lfs_ctz)
  then show "unat skip \<le> trailing_zeros (unat current)" by simp
  then show small: "unat skip < 26" using trailing_zeros_small[OF assms(2)] by linarith
  have "(2 :: nat) ^ unat skip \<le> 2 ^ (bit_length n - 1)" using skip by (intro power_increasing) simp_all
  then have le: "2 ^ unat skip \<le> n" using bit_length_bounds[OF n(1)] by linarith
  have "unat (2 ^ unat skip :: u32) = 2 ^ unat skip" using small by (simp add: unat_one_bit)
  then show minus: "unat (current - 2 ^ unat skip) = unat current - 2 ^ unat skip"
    using le by (simp add: unat_sub_no_wrap n_def)
  show "unat target \<le> unat (current - 2 ^ unat skip)" using le lt by (simp add: minus n_def)
  show "unat current - 2 ^ unat skip < unat current" using lt by simp
qed

section \<open>Going through a file\<close>

text \<open>The callback works on a state of its own and may stop with an error.\<close>

partial_function (option) ctz_traverse_loop ::
  "'d lfs_config \<Rightarrow> lfs_cache option \<Rightarrow> (u32 \<Rightarrow> 's \<Rightarrow> int \<times> 's) \<Rightarrow> u32 \<Rightarrow> u32 \<Rightarrow> 's \<Rightarrow> lfs_cache \<Rightarrow> 'd \<Rightarrow>
   (int \<times> 's \<times> lfs_cache \<times> 'd) option" where
  "ctz_traverse_loop cfg pcache cb head index s rcache d = do {
     let (err, s1) = cb head s;
     if err \<noteq> 0 then Some (err, s1, rcache, d)
     else if index = 0 then Some (0, s1, rcache, d)
     else do {
       let n = 2 - (index AND 1);
       (err, bytes, rcache1, d1) \<leftarrow> lfs_bd_read cfg pcache (n * 4) head 0 (n * 4) rcache d;
       if err \<noteq> 0 then Some (err, s1, rcache1, d1)
       else do {
         let (err, s2) = (if n = 2 then cb (lfs_fromle32 (word_at bytes 0)) s1 else (0, s1));
         if err \<noteq> 0 then Some (err, s2, rcache1, d1)
         else ctz_traverse_loop cfg pcache cb (lfs_fromle32 (word_at bytes (if n = 2 then 4 else 0))) (index - n) s2 rcache1 d1
       }
     }
   }"

definition lfs_ctz_traverse ::
  "'d lfs_config \<Rightarrow> lfs_cache option \<Rightarrow> u32 \<Rightarrow> u32 \<Rightarrow> (u32 \<Rightarrow> 's \<Rightarrow> int \<times> 's) \<Rightarrow> 's \<Rightarrow> lfs_cache \<Rightarrow> 'd \<Rightarrow>
   (int \<times> 's \<times> lfs_cache \<times> 'd) option" where
  "lfs_ctz_traverse cfg pcache head len cb s rcache d =
     (if len = 0 then Some (0, s, rcache, d)
      else let (index, _) = lfs_ctz_index cfg (len - 1) in ctz_traverse_loop cfg pcache cb head index s rcache d)"

lemma ctz_count:
  "unat (2 - (index AND 1) :: u32) = (if odd (unat index) then 1 else 2)"
  "0 < unat index \<Longrightarrow> unat (index - (2 - (index AND 1))) = unat index - (if odd (unat index) then 1 else 2)"
proof -
  have "unat (index AND 1) = unat index mod 2" by (simp add: and_one_eq unat_mod)
  then have bit: "index AND 1 = (if odd (unat index) then 1 else 0)"
    by (auto simp: word_unat_eq_iff odd_iff_mod_2_eq_one)
  show n: "unat (2 - (index AND 1) :: u32) = (if odd (unat index) then 1 else 2)" by (simp add: bit)
  assume "0 < unat index"
  then have "(if odd (unat index) then 1 else 2) \<le> unat index" by (cases "unat index = 1") auto
  then show "unat (index - (2 - (index AND 1))) = unat index - (if odd (unat index) then 1 else 2)"
    by (simp add: unat_sub_no_wrap n split: if_splits)
qed

lemma word_at_append: "word_at (le32 w @ xs) 0 = w" "word_at (le32 w @ xs) 4 = word_at xs 0"
  using word_at_le32[of w] by (simp_all add: word_at_def nth_append numeral_eq_Suc)

lemma ctz_pointer_words:
  assumes "unat (n :: u32) = (if odd i then 1 else 2)" "0 < i \<Longrightarrow> unat i' = i - (if odd i then 1 else 2)" "0 < i"
    "\<And>k. k \<le> trailing_zeros i \<Longrightarrow> segment (4 * k) 4 v = le32 (bs ! (i - 2 ^ k))" "bytes = segment 0 (unat n * 4) v"
  shows "word_at bytes 0 = bs ! (i - 1)" "word_at bytes (if n = 2 then 4 else 0) = bs ! unat i'"
proof -
  have first: "segment 0 4 v = le32 (bs ! (i - 1))" using assms(4)[of 0] by simp
  have n: "n = 2 \<longleftrightarrow> even i" using assms(1) by (auto simp: word_unat_eq_iff)
  have "word_at bytes 0 = bs ! (i - 1) \<and> word_at bytes (if n = 2 then 4 else 0) = bs ! unat i'"
  proof (cases "odd i")
    case True
    then show ?thesis using assms(1,2,3,5) first n word_at_le32 by simp
  next
    case False
    then have "1 \<le> trailing_zeros i" using assms(3) by (subst trailing_zeros.simps) simp
    then have second: "segment 4 4 v = le32 (bs ! (i - 2))" using assms(4)[of 1] by simp
    have "bytes = le32 (bs ! (i - 1)) @ le32 (bs ! (i - 2))"
      using assms(1,5) False segment_add[of 0 4 4 v] first second by simp
    then show ?thesis using False n assms(2,3) by (simp add: word_at_append word_at_le32)
  qed
  then show "word_at bytes 0 = bs ! (i - 1)" "word_at bytes (if n = 2 then 4 else 0) = bs ! unat i'" by blast+
qed

lemma ctz_previous:
  assumes "unat i' = i - (if odd i then 1 else 2)" "0 < i" "i < length bs"
  shows "rev (take i bs) = (if even i then [bs ! (i - 1)] else []) @ rev (take (Suc (unat i')) bs)"
proof (cases "odd i")
  case True
  then show ?thesis using assms by simp
next
  case False
  then obtain j where j: "i = Suc (Suc j)" using assms(2) by (cases i; cases "i - 1") auto
  then show ?thesis using False assms by (simp add: take_Suc_conv_app_nth[of "Suc j"])
qed

text \<open>The callback on a list of blocks.\<close>

fun run_cb :: "(u32 \<Rightarrow> 's \<Rightarrow> int \<times> 's) \<Rightarrow> u32 list \<Rightarrow> 's \<Rightarrow> int \<times> 's" where
  "run_cb cb [] s = (0, s)"
| "run_cb cb (b # bs) s = (let (err, s1) = cb b s in if err \<noteq> 0 then (err, s1) else run_cb cb bs s1)"

context block_device begin

lemma ctz_find_loop_ok:
  assumes "128 \<le> unat (block_size cfg)" "length bs \<le> 2 ^ 26" "\<forall>b \<in> set bs. b < block_count cfg" "window_ok pcache"
    and "ctz_file (view pcache d) bs" "head = bs ! unat current" "unat current < length bs" "unat target \<le> unat current" "rcache_ok d r"
  shows "\<exists>err block r1 d1. ctz_find_loop cfg pcache head current target r d = Some (err, block, r1, d1) \<and>
    contents d1 = contents d \<and> usable d1 r1 \<and> (err = 0 \<or> device_error cfg err) \<and> (err = 0 \<longrightarrow> block = bs ! unat target \<and> rcache_ok d1 r1)"
  using assms(5-9)
proof (induction "unat current" arbitrary: current head r d rule: less_induct)
  case less
  show ?case
  proof (cases "target < current")
    case False
    then have "unat target = unat current" using less.prems(4) by (simp add: word_less_nat_alt)
    then show ?thesis using False less.prems rcache_ok_usable by (subst ctz_find_loop.simps) simp
  next
    case True
    define skip where "skip = lfs_min (lfs_npw2 (current - target + 1) - 1) (lfs_ctz current)"
    have "unat current < 2 ^ 26" using less.prems(3) assms(2) by simp
    note s = ctz_skip[OF True this skip_def]
    have off: "unat (4 * skip) = 4 * unat skip" using s(2) by (simp add: unat_4_mult)
    have "head < block_count cfg" using less.prems(2,3) assms(3) by simp
    from lfs_bd_read_ok[where off = "4 * skip" and len = 4 and hint = 4, OF _ this _ _ less.prems(5) assms(4)] assms(1) s(2)
    obtain err bytes r1 d1 where rd: "lfs_bd_read cfg pcache 4 head (4 * skip) 4 r d = Some (err, bytes, r1, d1)"
      and ok: "contents d1 = contents d" "usable d1 r1" "err \<le> 0"
        "err = 0 \<Longrightarrow> bytes = segment (4 * unat skip) 4 (view pcache d head) \<and> rcache_ok d1 r1" by (auto simp: off)
    have unfold: "ctz_find_loop cfg pcache head current target r d = (if err \<noteq> 0 then Some (err, head, r1, d1)
        else ctz_find_loop cfg pcache (lfs_fromle32 (word_at bytes 0)) (current - 2 ^ unat skip) target r1 d1)"
      using True by (subst ctz_find_loop.simps) (simp add: skip_def[symmetric] rd)
    show ?thesis
    proof (cases "err = 0")
      case False
      moreover have "device_error cfg err" using False s(2) assms(1) \<open>head < block_count cfg\<close>
        by (intro read_inside_error[OF rd]) (simp_all add: off)
      ultimately show ?thesis using ok unfolding unfold by simp
    next
      case True
      have "0 < unat current" using s(5) by simp
      then have "segment (4 * unat skip) 4 (view pcache d head) = le32 (bs ! unat (current - 2 ^ unat skip))"
        using less.prems(1-3) s(1) by (simp add: ctz_file_def s(4))
      then have next_head: "lfs_fromle32 (word_at bytes 0) = bs ! unat (current - 2 ^ unat skip)"
        using ok(4)[OF True] by (simp add: word_at_le32 lfs_fromle32_def)
      have v: "view pcache d1 = view pcache d" by (rule ext) (rule view_cong[OF ok(1)])
      have "\<exists>err block r2 d2. ctz_find_loop cfg pcache (lfs_fromle32 (word_at bytes 0)) (current - 2 ^ unat skip) target r1 d1 =
          Some (err, block, r2, d2) \<and> contents d2 = contents d1 \<and> usable d2 r2 \<and> (err = 0 \<or> device_error cfg err) \<and>
          (err = 0 \<longrightarrow> block = bs ! unat target \<and> rcache_ok d2 r2)"
        using s(3-5) less.prems(1,3) ok(4)[OF True] next_head by (intro less.hyps) (simp_all add: v)
      then show ?thesis using True ok(1) unfolding unfold by simp
    qed
  qed
qed

lemma lfs_ctz_find_ok:
  assumes "128 \<le> unat (block_size cfg)" "\<forall>b \<in> set bs. b < block_count cfg" "window_ok pcache" "ctz_file (view pcache d) bs"
    "rcache_ok d r" "len \<noteq> 0" "pos < len" "length bs = Suc (unat (fst (lfs_ctz_index cfg (len - 1))))" "head = last bs"
  shows "\<exists>err place r1 d1. lfs_ctz_find cfg pcache head len pos r d = Some (err, place, r1, d1) \<and>
    contents d1 = contents d \<and> usable d1 r1 \<and> (err = 0 \<or> device_error cfg err) \<and>
    (err = 0 \<longrightarrow> rcache_ok d1 r1 \<and> (\<exists>i off. place = Some (bs ! i, off) \<and>
      ctz_walk (unat (block_size cfg)) 0 (unat pos) = Some (i, unat off)))"
proof -
  obtain current o1 where cur: "lfs_ctz_index cfg (len - 1) = (current, o1)" by (cases "lfs_ctz_index cfg (len - 1)")
  obtain target off where tgt: "lfs_ctz_index cfg pos = (target, off)" by (cases "lfs_ctz_index cfg pos")
  note c = lfs_ctz_index_start[OF assms(1) cur] and t = lfs_ctz_index_start[OF assms(1) tgt]
  have "unat (len - 1) = unat len - 1" using assms(6) by (rule unat_minus_one)
  then have pos: "unat pos \<le> unat (len - 1)" using assms(7) by (simp add: word_less_nat_alt)
  have le: "unat target \<le> unat current"
  proof (rule ccontr)
    assume "\<not> unat target \<le> unat current"
    then have "ctz_start (unat (block_size cfg) - 8) (Suc (unat current)) \<le> ctz_start (unat (block_size cfg) - 8) (unat target)"
      using t(3) assms(1) by (intro ctz_start_mono) simp_all
    then show False using t(1) c(2) pos by simp
  qed
  have len: "length bs = Suc (unat current)" "length bs \<le> 2 ^ 26" using assms(8) cur c(3) by simp_all
  then have head: "head = bs ! unat current" using assms(9) last_conv_nth[of bs] by fastforce
  from ctz_find_loop_ok[OF assms(1) len(2) assms(2,3,4) head _ le assms(5)] len(1) obtain err block r1 d1 where
    "ctz_find_loop cfg pcache head current target r d = Some (err, block, r1, d1)" "contents d1 = contents d" "usable d1 r1"
    "err = 0 \<or> device_error cfg err" "err = 0 \<Longrightarrow> block = bs ! unat target \<and> rcache_ok d1 r1" by auto
  then show ?thesis using assms(6) cur tgt lfs_ctz_index_walk[OF assms(1) tgt] by (auto simp: lfs_ctz_find_def)
qed

lemma ctz_traverse_loop_ok:
  assumes "128 \<le> unat (block_size cfg)" "length bs \<le> 2 ^ 26" "\<forall>b \<in> set bs. b < block_count cfg" "window_ok pcache"
    and "ctz_file (view pcache d) bs" "head = bs ! unat index" "unat index < length bs" "rcache_ok d r"
  shows "\<exists>err s1 r1 d1. ctz_traverse_loop cfg pcache cb head index s r d = Some (err, s1, r1, d1) \<and>
    contents d1 = contents d \<and> usable d1 r1 \<and> (err < 0 \<or> (err, s1) = run_cb cb (rev (take (Suc (unat index)) bs)) s \<and> rcache_ok d1 r1)"
  using assms(5-8)
proof (induction "unat index" arbitrary: index head s r d rule: less_induct)
  case less
  obtain err s1 where cb: "cb head s = (err, s1)" by (cases "cb head s")
  let ?i = "unat index"
  have blocks: "rev (take (Suc ?i) bs) = head # rev (take ?i bs)" using less.prems by (simp add: take_Suc_conv_app_nth)
  show ?case
  proof (cases "err = 0 \<and> index \<noteq> 0")
    case False
    then have "ctz_traverse_loop cfg pcache cb head index s r d = Some (err, s1, r, d)"
      by (subst ctz_traverse_loop.simps) (auto simp: cb)
    moreover have "(err, s1) = run_cb cb (rev (take (Suc ?i) bs)) s" using False by (auto simp: blocks cb)
    ultimately show ?thesis using less.prems rcache_ok_usable by auto
  next
    case True
    then have pos: "0 < ?i" "index \<noteq> 0" by (simp_all add: unat_gt_0)
    define n where "n = 2 - (index AND 1)"
    note n = ctz_count[of index, folded n_def]
    have head: "head < block_count cfg" using less.prems(2,3) assms(3) by simp
    have n2: "n = 2 \<longleftrightarrow> even ?i" using n(1) by (auto simp: word_unat_eq_iff)
    have n4: "unat (n * 4) = unat n * 4" using n(1) by (simp add: unat_word_ariths)
    then have le: "unat 0 + unat (n * 4) \<le> unat (block_size cfg)" "0 < unat (n * 4)" "unat (n * 4) \<le> unat (block_size cfg)"
      using n(1) assms(1) by simp_all
    from lfs_bd_read_ok[OF le(1) head le(2,3) less.prems(4) assms(4)]
    obtain err1 bytes r1 d1 where rd: "lfs_bd_read cfg pcache (n * 4) head 0 (n * 4) r d = Some (err1, bytes, r1, d1)"
      and ok: "contents d1 = contents d" "usable d1 r1" "err1 \<le> 0"
        "err1 = 0 \<Longrightarrow> bytes = segment 0 (unat n * 4) (view pcache d head) \<and> rcache_ok d1 r1"
      unfolding n4 unat_0 by blast
    define p1 where "p1 = bs ! (?i - 1)"
    have v: "view pcache d1 = view pcache d" by (rule ext) (rule view_cong[OF ok(1)])
    define rest where "rest = (\<lambda>(err, s2). if err \<noteq> 0 then Some (err, s2, r1, d1)
      else ctz_traverse_loop cfg pcache cb (lfs_fromle32 (word_at bytes (if n = 2 then 4 else 0))) (index - n) s2 r1 d1)"
    have unfold: "ctz_traverse_loop cfg pcache cb head index s r d =
      (if err1 \<noteq> 0 then Some (err1, s1, r1, d1)
       else rest (if n = 2 then cb (lfs_fromle32 (word_at bytes 0)) s1 else (0, s1)))"
      unfolding ctz_traverse_loop.simps[of _ _ _ head] cb Let_def prod.case n_def[symmetric] rd bind.bind_lunit rest_def
      using True by simp
    show ?thesis
    proof (cases "err1 = 0")
      case False
      then show ?thesis using ok unfolding unfold by auto
    next
      case True
      have pointers: "segment (4 * k) 4 (view pcache d head) = le32 (bs ! (?i - 2 ^ k))" if "k \<le> trailing_zeros ?i" for k
        using less.prems(1-3) pos(1) that by (auto simp: ctz_file_def)
      have words: "word_at bytes 0 = p1" "word_at bytes (if n = 2 then 4 else 0) = bs ! unat (index - n)"
        using ctz_pointer_words[OF n pos(1) pointers] ok(4)[OF True] by (simp_all add: p1_def)
      obtain err2 s2 where cb2: "(if n = 2 then cb p1 s1 else (0, s1)) = (err2, s2)" by (cases "if n = 2 then cb p1 s1 else (0, s1)")
      have run: "run_cb cb (rev (take (Suc ?i) bs)) s =
          (if err2 \<noteq> 0 then (err2, s2) else run_cb cb (rev (take (Suc (unat (index - n))) bs)) s2)"
        using ctz_previous[OF n(2)[OF pos(1)] pos(1) less.prems(3)] n2 cb cb2 \<open>err = 0 \<and> index \<noteq> 0\<close>
        by (simp add: blocks p1_def split: if_splits)
      show ?thesis
      proof (cases "err2 = 0")
        case False
        then show ?thesis using ok(1,2) ok(4)[OF True] cb2 True run unfolding unfold words lfs_fromle32_def rest_def by auto
      next
        case e2: True
        have lt: "unat (index - n) < ?i" using n(2)[OF pos(1)] pos(1) by auto
        have "\<exists>err s3 r2 d2. ctz_traverse_loop cfg pcache cb (bs ! unat (index - n)) (index - n) s2 r1 d1 = Some (err, s3, r2, d2) \<and>
            contents d2 = contents d1 \<and> usable d2 r2 \<and>
            (err < 0 \<or> (err, s3) = run_cb cb (rev (take (Suc (unat (index - n))) bs)) s2 \<and> rcache_ok d2 r2)"
          using lt less.prems(1,3) ok(4)[OF True] by (intro less.hyps) (simp_all add: v)
        then show ?thesis using True e2 cb2 ok(1) run unfolding unfold words lfs_fromle32_def rest_def by simp
      qed
    qed
  qed
qed

lemma lfs_ctz_traverse_ok:
  assumes "128 \<le> unat (block_size cfg)" "\<forall>b \<in> set bs. b < block_count cfg" "window_ok pcache" "ctz_file (view pcache d) bs"
    "rcache_ok d r" "len \<noteq> 0" "length bs = Suc (unat (fst (lfs_ctz_index cfg (len - 1))))" "head = last bs"
  shows "\<exists>err s1 r1 d1. lfs_ctz_traverse cfg pcache head len cb s r d = Some (err, s1, r1, d1) \<and>
    contents d1 = contents d \<and> usable d1 r1 \<and> (err < 0 \<or> (err, s1) = run_cb cb (rev bs) s \<and> rcache_ok d1 r1)"
proof -
  obtain index o1 where i: "lfs_ctz_index cfg (len - 1) = (index, o1)" by (cases "lfs_ctz_index cfg (len - 1)")
  have len: "length bs = Suc (unat index)" "length bs \<le> 2 ^ 26"
    using assms(7) i lfs_ctz_index_start(3)[OF assms(1) i] by simp_all
  then have "head = bs ! unat index" "unat index < length bs" using assms(8) last_conv_nth[of bs] by fastforce+
  from ctz_traverse_loop_ok[OF assms(1) len(2) assms(2,3,4) this assms(5), of cb s] show ?thesis
    using assms(6) by (simp add: lfs_ctz_traverse_def i flip: len(1))
qed

end

end
