(* ===== verification/Lfs_Alloc.thy ===== *)
theory Lfs_Alloc
  imports Lfs_Bd
begin

text \<open>
  The block allocator of littlefs (\<^verbatim>\<open>warp/wem/littlefs/lfs.c\<close>): a window of bits over the blocks,
  which is filled from the blocks that a traversal of the file system reports, and moves on when it is used up.
  The traversal is a parameter: the blocks it reports, in this order, its result and the state after it.
\<close>

section \<open>State and operations\<close>

record lookahead =
  la_start :: u32
  la_size :: u32
  la_next :: u32
  la_ckpoint :: u32
  la_buffer :: "u8 list"

type_synonym 's traversal = "'s \<Rightarrow> (u32 list \<times> int \<times> 's) option"

definition lfs_alloc_ckpoint :: "'d lfs_config \<Rightarrow> lookahead \<Rightarrow> lookahead" where
  "lfs_alloc_ckpoint cfg la = la \<lparr> la_ckpoint := block_count cfg \<rparr>"

definition lfs_alloc_drop :: "'d lfs_config \<Rightarrow> lookahead \<Rightarrow> lookahead" where
  "lfs_alloc_drop cfg la = lfs_alloc_ckpoint cfg (la \<lparr> la_size := 0, la_next := 0 \<rparr>)"

definition lfs_alloc_lookahead :: "'d lfs_config \<Rightarrow> u32 \<Rightarrow> lookahead \<Rightarrow> lookahead option" where
  "lfs_alloc_lookahead cfg block la =
     (let off = (block - la_start la + block_count cfg) mod block_count cfg in
      if off < la_size la then do {
        b \<leftarrow> arr_get (la_buffer la) (unat (off div 8));
        buf \<leftarrow> arr_set (la_buffer la) (unat (off div 8)) (b OR push_bit (unat (off mod 8)) 1);
        Some (la \<lparr> la_buffer := buf \<rparr>)
      }
      else Some la)"

fun lookahead_all :: "'d lfs_config \<Rightarrow> u32 list \<Rightarrow> lookahead \<Rightarrow> lookahead option" where
  "lookahead_all cfg [] la = Some la"
| "lookahead_all cfg (b # bs) la = Option.bind (lfs_alloc_lookahead cfg b la) (lookahead_all cfg bs)"

definition lfs_alloc_scan :: "'d lfs_config \<Rightarrow> 's traversal \<Rightarrow> lookahead \<Rightarrow> 's \<Rightarrow> (int \<times> lookahead \<times> 's) option" where
  "lfs_alloc_scan cfg traverse la d = do {
     let la1 = la \<lparr> la_start := (la_start la + la_next la) mod block_count cfg, la_next := 0,
           la_size := lfs_min (8 * lookahead_size cfg) (la_ckpoint la) \<rparr>;
     buf \<leftarrow> mem_put (la_buffer la1) 0 (replicate (unat (lookahead_size cfg)) 0);
     (blocks, err, d1) \<leftarrow> traverse d;
     la2 \<leftarrow> lookahead_all cfg blocks (la1 \<lparr> la_buffer := buf \<rparr>);
     Some (if err \<noteq> 0 then (err, lfs_alloc_drop cfg la2, d1) else (0, la2, d1))
   }"

text \<open>Whether the block at the next position is in use.\<close>

definition next_used :: "lookahead \<Rightarrow> bool option" where
  "next_used la = do {
     b \<leftarrow> arr_get (la_buffer la) (unat (la_next la div 8));
     Some (b AND push_bit (unat (la_next la mod 8)) 1 \<noteq> 0)
   }"

definition la_step :: "lookahead \<Rightarrow> lookahead" where
  "la_step la = la \<lparr> la_next := la_next la + 1, la_ckpoint := la_ckpoint la - 1 \<rparr>"

partial_function (option) find_next_free :: "lookahead \<Rightarrow> lookahead option" where
  "find_next_free la = do {
     let la1 = la_step la;
     if la_size la1 \<le> la_next la1 then Some la1
     else do {
       used \<leftarrow> next_used la1;
       if \<not> used then Some la1 else find_next_free la1
     }
   }"

text \<open>The scan of the window: a free block, or none.\<close>

partial_function (option) alloc_search :: "'d lfs_config \<Rightarrow> lookahead \<Rightarrow> (u32 option \<times> lookahead) option" where
  "alloc_search cfg la =
     (if la_next la < la_size la then do {
        used \<leftarrow> next_used la;
        if \<not> used then do {
          let block = (la_start la + la_next la) mod block_count cfg;
          la1 \<leftarrow> find_next_free la;
          Some (Some block, la1)
        }
        else alloc_search cfg (la_step la)
      }
      else Some (None, la))"

partial_function (option) lfs_alloc ::
  "'d lfs_config \<Rightarrow> 's traversal \<Rightarrow> lookahead \<Rightarrow> 's \<Rightarrow> (int \<times> u32 option \<times> lookahead \<times> 's) option" where
  "lfs_alloc cfg traverse la d = do {
     (found, la1) \<leftarrow> alloc_search cfg la;
     case found of
       Some block \<Rightarrow> Some (0, Some block, la1, d)
     | None \<Rightarrow>
         if la_ckpoint la1 \<le> 0 then Some (LFS_ERR_NOSPC, None, la1, d)
         else do {
           (err, la2, d1) \<leftarrow> lfs_alloc_scan cfg traverse la1 d;
           if err \<noteq> 0 then Some (err, None, la2, d1) else lfs_alloc cfg traverse la2 d1
         }
   }"


section \<open>The window\<close>

definition bit_at :: "u8 list \<Rightarrow> nat \<Rightarrow> bool" where
  "bit_at buf i = bit (buf ! (i div 8)) (i mod 8)"

definition la_ok :: "'d lfs_config \<Rightarrow> lookahead \<Rightarrow> bool" where
  "la_ok cfg la \<longleftrightarrow> 0 < unat (block_count cfg) \<and> unat (block_count cfg) \<le> 2 ^ 31 \<and>
     0 < unat (lookahead_size cfg) \<and> unat (lookahead_size cfg) < 2 ^ 29 \<and> length (la_buffer la) = unat (lookahead_size cfg) \<and>
     unat (la_start la) < unat (block_count cfg) \<and> unat (la_size la) \<le> unat (block_count cfg) \<and>
     unat (la_size la) \<le> 8 * unat (lookahead_size cfg) \<and> unat (la_next la) \<le> unat (la_size la) \<and>
     unat (la_size la) \<le> unat (la_next la) + unat (la_ckpoint la) \<and> unat (la_ckpoint la) \<le> unat (block_count cfg)"

text \<open>The window goes on, over the same bits; each position is counted off the checkpoint.\<close>

definition moved :: "lookahead \<Rightarrow> lookahead \<Rightarrow> bool" where
  "moved la la1 \<longleftrightarrow> la_start la1 = la_start la \<and> la_size la1 = la_size la \<and> la_buffer la1 = la_buffer la \<and>
     unat (la_next la) \<le> unat (la_next la1) \<and>
     unat (la_ckpoint la1) + unat (la_next la1) = unat (la_ckpoint la) + unat (la_next la)"

lemma moved_refl: "moved la la"
  by (simp add: moved_def)

lemma moved_trans: "moved la la1 \<Longrightarrow> moved la1 la2 \<Longrightarrow> moved la la2"
  by (simp add: moved_def)

lemma and_one_bit: "(b :: u8) AND 2 ^ k \<noteq> 0 \<longleftrightarrow> bit b k"
  by (simp add: and_exp_eq_0_iff_not_bit)

lemma next_used_ok:
  "la_ok cfg la \<Longrightarrow> la_next la < la_size la \<Longrightarrow> next_used la = Some (bit_at (la_buffer la) (unat (la_next la)))"
  by (simp add: la_ok_def next_used_def arr_get_def bit_at_def and_one_bit word_less_nat_alt unat_div unat_mod less_mult_imp_div_less mult.commute)

lemma la_step_ok:
  assumes "la_ok cfg la" "la_next la < la_size la"
  shows "la_ok cfg (la_step la)" "moved la (la_step la)" "unat (la_next (la_step la)) = Suc (unat (la_next la))"
proof -
  have lt: "unat (la_next la) < unat (la_size la)" using assms(2) by (simp add: word_less_nat_alt)
  show n: "unat (la_next (la_step la)) = Suc (unat (la_next la))"
    unfolding la_step_def using lt by (simp add: unat_Suc_no_wrap)
  have "la_ckpoint la \<noteq> 0" using assms(1) lt by (auto simp: la_ok_def)
  then have c: "unat (la_ckpoint (la_step la)) = unat (la_ckpoint la) - 1" "0 < unat (la_ckpoint la)"
    by (simp_all add: la_step_def unat_minus_one unat_gt_0)
  show "la_ok cfg (la_step la)"
    using assms(1) lt n c unfolding la_ok_def by (auto simp: la_step_def)
  show "moved la (la_step la)" using n c unfolding moved_def by (simp add: la_step_def)
qed

lemma find_next_free_ok:
  assumes "la_ok cfg la" "la_next la < la_size la"
  shows "\<exists>la1. find_next_free la = Some la1 \<and> la_ok cfg la1 \<and> moved la la1 \<and> unat (la_next la) < unat (la_next la1) \<and>
    (\<forall>i. unat (la_next la) < i \<longrightarrow> i < unat (la_next la1) \<longrightarrow> bit_at (la_buffer la) i)"
  using assms
proof (induction "unat (la_size la) - unat (la_next la)" arbitrary: la rule: less_induct)
  case less
  note s = la_step_ok[OF less.prems]
  show ?case
  proof (cases "la_size (la_step la) \<le> la_next (la_step la) \<or> \<not> bit_at (la_buffer la) (Suc (unat (la_next la)))")
    case True
    then have "find_next_free la = Some (la_step la)"
      using next_used_ok[OF s(1)] s by (subst find_next_free.simps) (auto simp: moved_def not_le Let_def)
    then show ?thesis using s by auto
  next
    case False
    then have lt: "la_next (la_step la) < la_size (la_step la)" by (simp add: not_le)
    have "unat (la_size (la_step la)) - unat (la_next (la_step la)) < unat (la_size la) - unat (la_next la)"
      using lt s(2,3) by (simp add: moved_def word_less_nat_alt)
    from less.hyps[OF this s(1) lt] obtain la1 where
      rec: "find_next_free (la_step la) = Some la1" "la_ok cfg la1" "moved (la_step la) la1"
        "unat (la_next (la_step la)) < unat (la_next la1)"
        "\<And>i. unat (la_next (la_step la)) < i \<Longrightarrow> i < unat (la_next la1) \<Longrightarrow> bit_at (la_buffer (la_step la)) i" by blast
    have "find_next_free la = Some la1"
      using False next_used_ok[OF s(1) lt] rec(1) s by (subst find_next_free.simps) (auto simp: moved_def not_le Let_def)
    moreover have "bit_at (la_buffer la) i" if "unat (la_next la) < i" "i < unat (la_next la1)" for i
      using that rec(5)[of i] False s(2,3) by (cases "i = Suc (unat (la_next la))") (auto simp: moved_def)
    ultimately show ?thesis using rec(2-4) s moved_trans[OF s(2) rec(3)] by auto
  qed
qed

lemma alloc_search_ok:
  assumes "la_ok cfg la"
  shows "\<exists>found la1. alloc_search cfg la = Some (found, la1) \<and> la_ok cfg la1 \<and> moved la la1 \<and>
    (case found of
       None \<Rightarrow> la_next la1 = la_size la \<and> (\<forall>i. unat (la_next la) \<le> i \<longrightarrow> i < unat (la_size la) \<longrightarrow> bit_at (la_buffer la) i)
     | Some b \<Rightarrow> \<exists>j. unat (la_next la) \<le> j \<and> j < unat (la_next la1) \<and> \<not> bit_at (la_buffer la) j \<and>
         unat b = (unat (la_start la) + j) mod unat (block_count cfg) \<and>
         (\<forall>i. unat (la_next la) \<le> i \<longrightarrow> i < unat (la_next la1) \<longrightarrow> i = j \<or> bit_at (la_buffer la) i))"
  using assms
proof (induction "unat (la_size la) - unat (la_next la)" arbitrary: la rule: less_induct)
  case less
  show ?case
  proof (cases "la_next la < la_size la")
    case False
    then have "la_next la = la_size la" using less.prems by (simp add: la_ok_def word_less_nat_alt word_unat_eq_iff)
    then show ?thesis using False less.prems moved_refl by (subst alloc_search.simps) auto
  next
    case True
    note s = la_step_ok[OF less.prems True] and used = next_used_ok[OF less.prems True]
    show ?thesis
    proof (cases "bit_at (la_buffer la) (unat (la_next la))")
      case False
      from find_next_free_ok[OF less.prems True] obtain la1 where
        f: "find_next_free la = Some la1" "la_ok cfg la1" "moved la la1" "unat (la_next la) < unat (la_next la1)"
          "\<forall>i. unat (la_next la) < i \<longrightarrow> i < unat (la_next la1) \<longrightarrow> bit_at (la_buffer la) i" by blast
      have "unat (la_start la + la_next la) = unat (la_start la) + unat (la_next la)"
        using less.prems by (intro unat_add_small) (simp add: la_ok_def)
      then have "unat ((la_start la + la_next la) mod block_count cfg) = (unat (la_start la) + unat (la_next la)) mod unat (block_count cfg)"
        by (simp add: unat_mod)
      moreover have "alloc_search cfg la = Some (Some ((la_start la + la_next la) mod block_count cfg), la1)"
        using True False used f(1) by (subst alloc_search.simps) simp
      ultimately show ?thesis using f False by (auto simp: le_eq_less_or_eq)
    next
      case bit: True
      have "unat (la_size (la_step la)) - unat (la_next (la_step la)) < unat (la_size la) - unat (la_next la)"
        using True s(2,3) by (simp add: moved_def word_less_nat_alt)
      from less.hyps[OF this s(1)] obtain found la1 where
        rec: "alloc_search cfg (la_step la) = Some (found, la1)" "la_ok cfg la1" "moved (la_step la) la1"
        and res: "case found of
            None \<Rightarrow> la_next la1 = la_size (la_step la) \<and> (\<forall>i. unat (la_next (la_step la)) \<le> i \<longrightarrow>
              i < unat (la_size (la_step la)) \<longrightarrow> bit_at (la_buffer (la_step la)) i)
          | Some b \<Rightarrow> \<exists>j. unat (la_next (la_step la)) \<le> j \<and> j < unat (la_next la1) \<and> \<not> bit_at (la_buffer (la_step la)) j \<and>
              unat b = (unat (la_start (la_step la)) + j) mod unat (block_count cfg) \<and>
              (\<forall>i. unat (la_next (la_step la)) \<le> i \<longrightarrow> i < unat (la_next la1) \<longrightarrow> i = j \<or> bit_at (la_buffer (la_step la)) i)" by blast
      have "alloc_search cfg la = Some (found, la1)" using True bit used rec(1) by (subst alloc_search.simps) simp
      moreover have "case found of
            None \<Rightarrow> la_next la1 = la_size la \<and> (\<forall>i. unat (la_next la) \<le> i \<longrightarrow> i < unat (la_size la) \<longrightarrow> bit_at (la_buffer la) i)
          | Some b \<Rightarrow> \<exists>j. unat (la_next la) \<le> j \<and> j < unat (la_next la1) \<and> \<not> bit_at (la_buffer la) j \<and>
              unat b = (unat (la_start la) + j) mod unat (block_count cfg) \<and>
              (\<forall>i. unat (la_next la) \<le> i \<longrightarrow> i < unat (la_next la1) \<longrightarrow> i = j \<or> bit_at (la_buffer la) i)"
      proof (cases found)
        case None
        have "bit_at (la_buffer la) i" if "unat (la_next la) \<le> i" "i < unat (la_size la)" for i
          using None res that bit s(2,3) by (cases "i = unat (la_next la)") (auto simp: moved_def)
        then show ?thesis using None res s(2) by (simp add: moved_def)
      next
        case (Some b)
        with res obtain j where j: "Suc (unat (la_next la)) \<le> j" "j < unat (la_next la1)" "\<not> bit_at (la_buffer la) j"
          "unat b = (unat (la_start la) + j) mod unat (block_count cfg)"
          "\<forall>i. Suc (unat (la_next la)) \<le> i \<longrightarrow> i < unat (la_next la1) \<longrightarrow> i = j \<or> bit_at (la_buffer la) i"
          using s(2,3) by (auto simp: moved_def)
        have "i = j \<or> bit_at (la_buffer la) i" if "unat (la_next la) \<le> i" "i < unat (la_next la1)" for i
          using that j(5) bit by (cases "i = unat (la_next la)") auto
        then have "unat (la_next la) \<le> j \<and> j < unat (la_next la1) \<and> \<not> bit_at (la_buffer la) j \<and>
            unat b = (unat (la_start la) + j) mod unat (block_count cfg) \<and>
            (\<forall>i. unat (la_next la) \<le> i \<longrightarrow> i < unat (la_next la1) \<longrightarrow> i = j \<or> bit_at (la_buffer la) i)"
          using j(1-4) by simp
        then show ?thesis using Some by auto
      qed
      ultimately show ?thesis using rec(2) moved_trans[OF s(2) rec(3)] by blast
    qed
  qed
qed

section \<open>Filling the window\<close>

lemma add_mod_cancel: "(a + k) mod n = (c + k) mod n \<longleftrightarrow> a mod n = c mod (n :: nat)"
proof -
  have "(\<exists>q1 q2. a + k + n * q1 = c + k + n * q2) \<longleftrightarrow> (\<exists>q1 q2. a + n * q1 = c + n * q2)" by simp
  then show ?thesis by (simp only: nat_mod_eq_iff)
qed

lemma window_offset:
  assumes "b < n" "s < n" "i < (n :: nat)"
  shows "(b + n - s) mod n = i \<longleftrightarrow> b = (s + i) mod n"
proof -
  have "(b + n - s) mod n = i \<longleftrightarrow> (b + n - s) mod n = i mod n" using assms(3) by simp
  also have "\<dots> \<longleftrightarrow> (b + n - s + s) mod n = (i + s) mod n" by (rule add_mod_cancel[symmetric])
  also have "\<dots> \<longleftrightarrow> b mod n = (s + i) mod n" using assms(2) by (simp add: add.commute)
  also have "\<dots> \<longleftrightarrow> b = (s + i) mod n" using assms(1) by simp
  finally show ?thesis .
qed

lemma bit_at_set:
  assumes "off < 8 * length buf"
  shows "bit_at (buf[off div 8 := (buf ! (off div 8)) OR push_bit (off mod 8) 1]) i \<longleftrightarrow> bit_at buf i \<or> i = off"
proof -
  have "off div 8 < length buf" using assms by (simp add: less_mult_imp_div_less mult.commute)
  moreover have "i = off \<longleftrightarrow> i div 8 = off div 8 \<and> i mod 8 = off mod 8" by (metis div_mult_mod_eq)
  ultimately show ?thesis by (auto simp: bit_at_def nth_list_update bit_simps)
qed

text \<open>A window that may be filled: what of the invariant does not depend on the position.\<close>

definition la_window :: "'d lfs_config \<Rightarrow> lookahead \<Rightarrow> bool" where
  "la_window cfg la \<longleftrightarrow> unat (block_count cfg) \<le> 2 ^ 31 \<and> unat (la_start la) < unat (block_count cfg) \<and>
     unat (la_size la) \<le> unat (block_count cfg) \<and> unat (la_size la) \<le> 8 * length (la_buffer la)"

lemma lfs_alloc_lookahead_ok:
  assumes "la_window cfg la" "unat b < unat (block_count cfg)"
  shows "\<exists>buf. lfs_alloc_lookahead cfg b la = Some (la \<lparr> la_buffer := buf \<rparr>) \<and> length buf = length (la_buffer la) \<and>
    (\<forall>i < unat (la_size la). bit_at buf i \<longleftrightarrow> bit_at (la_buffer la) i \<or> unat b = (unat (la_start la) + i) mod unat (block_count cfg))"
proof -
  let ?n = "unat (block_count cfg)" and ?s = "unat (la_start la)"
  have w: "?n \<le> 2 ^ 31" "?s < ?n" "unat (la_size la) \<le> ?n" "unat (la_size la) \<le> 8 * length (la_buffer la)"
    using assms(1) by (simp_all add: la_window_def)
  define off where "off = (b - la_start la + block_count cfg) mod block_count cfg"
  have eq: "b - la_start la + block_count cfg = (b + block_count cfg) - la_start la" by simp
  have "unat (b + block_count cfg) = unat b + ?n" using assms(2) w(1) by (intro unat_add_small) simp
  then have "unat (b - la_start la + block_count cfg) = unat b + ?n - ?s"
    unfolding eq using w(2) by (subst unat_sub_no_wrap) simp_all
  then have off: "unat off = (unat b + ?n - ?s) mod ?n" by (simp add: off_def unat_mod)
  have place: "i = unat off \<longleftrightarrow> unat b = (?s + i) mod ?n" if "i < unat (la_size la)" for i
    using window_offset[OF assms(2) w(2), of i] that w(3) off by auto
  show ?thesis
  proof (cases "off < la_size la")
    case True
    then have lt: "unat off < 8 * length (la_buffer la)" using w(4) by (simp add: word_less_nat_alt)
    then have "unat (off div 8) < length (la_buffer la)" by (simp add: unat_div less_mult_imp_div_less mult.commute)
    then have "lfs_alloc_lookahead cfg b la = Some (la \<lparr> la_buffer := (la_buffer la)[unat off div 8 :=
        (la_buffer la ! (unat off div 8)) OR push_bit (unat off mod 8) 1] \<rparr>)"
      using True by (simp add: lfs_alloc_lookahead_def off_def[symmetric] arr_get_def arr_set_def unat_div unat_mod Let_def)
    then show ?thesis using bit_at_set[OF lt] place by auto
  next
    case False
    then have "unat (la_size la) \<le> unat off" by (simp add: word_less_nat_alt)
    then show ?thesis using False place
      by (intro exI[of _ "la_buffer la"]) (auto simp: lfs_alloc_lookahead_def off_def[symmetric] Let_def)
  qed
qed

lemma lookahead_all_ok:
  assumes "la_window cfg la" "\<forall>b \<in> set bs. unat b < unat (block_count cfg)"
  shows "\<exists>buf. lookahead_all cfg bs la = Some (la \<lparr> la_buffer := buf \<rparr>) \<and> length buf = length (la_buffer la) \<and>
    (\<forall>i < unat (la_size la). bit_at buf i \<longleftrightarrow>
      bit_at (la_buffer la) i \<or> (unat (la_start la) + i) mod unat (block_count cfg) \<in> unat ` set bs)"
  using assms
proof (induction bs arbitrary: la)
  case Nil
  then show ?case by (intro exI[of _ "la_buffer la"]) simp
next
  case (Cons b bs)
  from lfs_alloc_lookahead_ok[of cfg la b] Cons.prems obtain buf where
    1: "lfs_alloc_lookahead cfg b la = Some (la \<lparr> la_buffer := buf \<rparr>)" "length buf = length (la_buffer la)"
      "\<forall>i < unat (la_size la). bit_at buf i \<longleftrightarrow> bit_at (la_buffer la) i \<or> unat b = (unat (la_start la) + i) mod unat (block_count cfg)"
    by auto
  have "la_window cfg (la \<lparr> la_buffer := buf \<rparr>)" using Cons.prems(1) 1(2) by (simp add: la_window_def)
  from Cons.IH[OF this] Cons.prems(2) obtain buf2 where
    2: "lookahead_all cfg bs (la \<lparr> la_buffer := buf \<rparr>) = Some (la \<lparr> la_buffer := buf2 \<rparr>)" "length buf2 = length buf"
      "\<forall>i < unat (la_size la). bit_at buf2 i \<longleftrightarrow> bit_at buf i \<or> (unat (la_start la) + i) mod unat (block_count cfg) \<in> unat ` set bs"
    by auto
  then show ?case using 1 by (intro exI[of _ buf2]) auto
qed

lemma lfs_alloc_scan_ok:
  assumes "la_ok cfg la" "la_next la = la_size la" "0 < la_ckpoint la" "traverse d = Some (bs, err, d1)"
    "\<forall>b \<in> set bs. unat b < unat (block_count cfg)"
  shows "\<exists>la1. lfs_alloc_scan cfg traverse la d = Some (if err \<noteq> 0 then (err, lfs_alloc_drop cfg la1, d1) else (0, la1, d1)) \<and>
    la_ok cfg la1 \<and> la_ckpoint la1 = la_ckpoint la \<and>
    la_next la1 = 0 \<and> 0 < la_size la1 \<and> unat (la_start la1) = (unat (la_start la) + unat (la_next la)) mod unat (block_count cfg) \<and>
    (\<forall>i < unat (la_size la1). bit_at (la_buffer la1) i \<longleftrightarrow> (unat (la_start la1) + i) mod unat (block_count cfg) \<in> unat ` set bs)"
proof -
  let ?n = "unat (block_count cfg)"
  have ok: "0 < ?n" "?n \<le> 2 ^ 31" "0 < unat (lookahead_size cfg)" "unat (lookahead_size cfg) < 2 ^ 29"
    "length (la_buffer la) = unat (lookahead_size cfg)" "unat (la_start la) < ?n" "unat (la_next la) \<le> ?n" "unat (la_ckpoint la) \<le> ?n"
    using assms(1) by (auto simp: la_ok_def)
  define buf where "buf = replicate (unat (lookahead_size cfg)) (0 :: u8)"
  define la1 where "la1 = la \<lparr> la_start := (la_start la + la_next la) mod block_count cfg, la_next := 0,
     la_size := lfs_min (8 * lookahead_size cfg) (la_ckpoint la), la_buffer := buf \<rparr>"
  have put: "mem_put (la_buffer la) 0 buf = Some buf" using ok(5) by (simp add: mem_put_def buf_def overlay_def)
  have "unat (la_start la + la_next la) = unat (la_start la) + unat (la_next la)"
    using ok by (intro unat_add_small) simp
  then have start: "unat (la_start la1) = (unat (la_start la) + unat (la_next la)) mod ?n" by (simp add: la1_def unat_mod)
  have "unat (8 * lookahead_size cfg) = 8 * unat (lookahead_size cfg)" using ok(4) by (simp add: unat_word_ariths)
  then have len: "unat (la_size la1) = min (8 * unat (lookahead_size cfg)) (unat (la_ckpoint la))" by (simp add: la1_def)
  have "la_window cfg la1" using ok len start by (simp add: la_window_def la1_def buf_def)
  from lookahead_all_ok[OF this assms(5)] obtain buf2 where
    all: "lookahead_all cfg bs la1 = Some (la1 \<lparr> la_buffer := buf2 \<rparr>)" "length buf2 = unat (lookahead_size cfg)"
      "\<forall>i < unat (la_size la1). bit_at buf2 i \<longleftrightarrow> bit_at buf i \<or> (unat (la_start la1) + i) mod ?n \<in> unat ` set bs"
    by (auto simp: la1_def buf_def)
  have zero: "\<not> bit_at buf i" if "i < unat (la_size la1)" for i
    using that len by (simp add: bit_at_def buf_def less_mult_imp_div_less mult.commute)
  have "lfs_alloc_scan cfg traverse la d = Some (if err \<noteq> 0 then (err, lfs_alloc_drop cfg (la1 \<lparr> la_buffer := buf2 \<rparr>), d1)
      else (0, la1 \<lparr> la_buffer := buf2 \<rparr>, d1))"
    using put all(1) assms(4) by (simp add: lfs_alloc_scan_def buf_def[symmetric] la1_def[symmetric] Let_def)
  moreover have "la_ok cfg (la1 \<lparr> la_buffer := buf2 \<rparr>)"
    using ok all(2) len start by (simp add: la_ok_def) (simp add: la1_def)
  moreover have "0 < la_size la1" using len ok(3) assms(3) by (simp add: word_less_nat_alt)
  ultimately show ?thesis using start all(3) zero by (intro exI[of _ "la1 \<lparr> la_buffer := buf2 \<rparr>"]) (simp add: la1_def)
qed

section \<open>Allocation\<close>

text \<open>Positions are counted backwards from the one where the search since the last checkpoint ends. A window sees
  the blocks in use when its bits from the next position on are right.\<close>

definition la_end :: "'d lfs_config \<Rightarrow> lookahead \<Rightarrow> nat" where
  "la_end cfg la = (unat (la_start la) + unat (la_next la) + unat (la_ckpoint la)) mod unat (block_count cfg)"

definition sees :: "'d lfs_config \<Rightarrow> nat set \<Rightarrow> lookahead \<Rightarrow> bool" where
  "sees cfg U la \<longleftrightarrow> (\<forall>i. unat (la_next la) \<le> i \<longrightarrow> i < unat (la_size la) \<longrightarrow>
     (bit_at (la_buffer la) i \<longleftrightarrow> (unat (la_start la) + i) mod unat (block_count cfg) \<in> U))"

text \<open>A traversal that returns on the states of interest, and reports the blocks in use or fails.\<close>

definition reports :: "'d lfs_config \<Rightarrow> nat set \<Rightarrow> ('s \<Rightarrow> bool) \<Rightarrow> 's traversal \<Rightarrow> bool" where
  "reports cfg U good traverse \<longleftrightarrow> (\<forall>d. good d \<longrightarrow> (\<exists>bs err d1. traverse d = Some (bs, err, d1) \<and>
     (\<forall>b \<in> set bs. unat b < unat (block_count cfg)) \<and> (err = 0 \<longrightarrow> unat ` set bs = U \<and> good d1)))"

definition traversal_error :: "('s \<Rightarrow> bool) \<Rightarrow> 's traversal \<Rightarrow> int \<Rightarrow> bool" where
  "traversal_error good traverse err \<longleftrightarrow> err \<noteq> 0 \<and> (\<exists>d bs d1. good d \<and> traverse d = Some (bs, err, d1))"

lemma moved_end: "moved la la1 \<Longrightarrow> la_end cfg la1 = la_end cfg la"
  unfolding moved_def la_end_def by (simp add: add.assoc add.commute[of "unat (la_next la1)"] add.commute[of "unat (la_next la)"])

lemma at_position:
  assumes "b < unat (block_count cfg)" "i + k = unat (la_next la) + unat (la_ckpoint la)"
  shows "(b + k) mod unat (block_count cfg) = la_end cfg la \<longleftrightarrow> b = (unat (la_start la) + i) mod unat (block_count cfg)"
proof -
  have sum: "unat (la_start la) + unat (la_next la) + unat (la_ckpoint la) = unat (la_start la) + i + k" using assms(2) by simp
  show ?thesis
    unfolding la_end_def sum using assms(1) add_mod_cancel[of b k "unat (block_count cfg)" "unat (la_start la) + i"] by simp
qed

lemma sees_moved: "sees cfg U la \<Longrightarrow> moved la la1 \<Longrightarrow> sees cfg U la1"
  by (auto simp: sees_def moved_def)

text \<open>What an allocation may do with the positions it has passed.\<close>

definition allocated :: "'d lfs_config \<Rightarrow> nat set \<Rightarrow> ('s \<Rightarrow> bool) \<Rightarrow> lookahead \<Rightarrow> int \<times> u32 option \<times> lookahead \<times> 's \<Rightarrow> bool" where
  "allocated cfg U good la = (\<lambda>(err, blk, la1, d1). good d1 \<and>
     la_ok cfg la1 \<and> sees cfg U la1 \<and> la_end cfg la1 = la_end cfg la \<and> unat (la_ckpoint la1) \<le> unat (la_ckpoint la) \<and>
     (\<forall>b < unat (block_count cfg). \<forall>k. unat (la_ckpoint la1) < k \<longrightarrow> k \<le> unat (la_ckpoint la) \<longrightarrow>
       (b + k) mod unat (block_count cfg) = la_end cfg la \<longrightarrow> b \<in> U \<or> map_option unat blk = Some b) \<and>
     (case blk of
        None \<Rightarrow> err = LFS_ERR_NOSPC \<and> la_ckpoint la1 = 0
      | Some b \<Rightarrow> err = 0 \<and> unat b < unat (block_count cfg) \<and> unat b \<notin> U \<and>
          (\<exists>k. unat (la_ckpoint la1) < k \<and> k \<le> unat (la_ckpoint la) \<and> (unat b + k) mod unat (block_count cfg) = la_end cfg la)))"

lemma search_passed:
  assumes "la_ok cfg la" "la_ok cfg la1" "moved la la1" "b < unat (block_count cfg)" "unat (la_ckpoint la1) < k" "k \<le> unat (la_ckpoint la)"
    "(b + k) mod unat (block_count cfg) = la_end cfg la"
  shows "\<exists>i. unat (la_next la) \<le> i \<and> i < unat (la_next la1) \<and> i < unat (la_size la) \<and> b = (unat (la_start la) + i) mod unat (block_count cfg)"
proof -
  define i where "i = unat (la_next la) + unat (la_ckpoint la) - k"
  have ik: "i + k = unat (la_next la) + unat (la_ckpoint la)" using assms(6) by (simp add: i_def)
  have "b = (unat (la_start la) + i) mod unat (block_count cfg)" using at_position[OF assms(4) ik] assms(7) by simp
  moreover have "unat (la_next la) \<le> i" "i < unat (la_next la1)" using ik assms(3,5,6) unfolding moved_def by linarith+
  moreover have "unat (la_next la1) \<le> unat (la_size la)" using assms(2,3) by (simp add: la_ok_def moved_def)
  ultimately show ?thesis by (intro exI[of _ i]) simp
qed

lemma lfs_alloc_ok:
  assumes "la_ok cfg la" "sees cfg U la" "reports cfg U good traverse" "good d"
  shows "\<exists>err blk la1 d1. lfs_alloc cfg traverse la d = Some (err, blk, la1, d1) \<and>
    (allocated cfg U good la (err, blk, la1, d1) \<or> blk = None \<and> traversal_error good traverse err)"
  using assms(1,2,4)
proof (induction "2 * unat (la_ckpoint la) + (if la_next la = la_size la then 1 else 0)" arbitrary: la d rule: less_induct)
  case less
  let ?n = "unat (block_count cfg)"
  from alloc_search_ok[OF less.prems(1)] obtain found la1 where
    s: "alloc_search cfg la = Some (found, la1)" "la_ok cfg la1" "moved la la1" and res: "case found of
       None \<Rightarrow> la_next la1 = la_size la \<and> (\<forall>i. unat (la_next la) \<le> i \<longrightarrow> i < unat (la_size la) \<longrightarrow> bit_at (la_buffer la) i)
     | Some b \<Rightarrow> \<exists>j. unat (la_next la) \<le> j \<and> j < unat (la_next la1) \<and> \<not> bit_at (la_buffer la) j \<and>
         unat b = (unat (la_start la) + j) mod unat (block_count cfg) \<and>
         (\<forall>i. unat (la_next la) \<le> i \<longrightarrow> i < unat (la_next la1) \<longrightarrow> i = j \<or> bit_at (la_buffer la) i)" by blast
  have n: "0 < ?n" "unat (la_next la1) \<le> unat (la_size la1)" "la_size la1 = la_size la" "unat (la_next la) \<le> unat (la_size la)"
    using less.prems(1) s(2,3) by (auto simp: la_ok_def moved_def)
  have ck: "unat (la_ckpoint la1) \<le> unat (la_ckpoint la)" using s(3) by (simp add: moved_def)
  note passed = search_passed[OF less.prems(1) s(2,3)]
  show ?case
  proof (cases found)
    case (Some b)
    with res obtain j where j: "unat (la_next la) \<le> j" "j < unat (la_next la1)" "\<not> bit_at (la_buffer la) j"
      "unat b = (unat (la_start la) + j) mod ?n" "\<forall>i. unat (la_next la) \<le> i \<longrightarrow> i < unat (la_next la1) \<longrightarrow> i = j \<or> bit_at (la_buffer la) i"
      by auto
    have run: "lfs_alloc cfg traverse la d = Some (0, Some b, la1, d)" by (subst lfs_alloc.simps) (simp add: s(1) Some)
    define k where "k = unat (la_next la) + unat (la_ckpoint la) - j"
    have jk: "j + k = unat (la_next la) + unat (la_ckpoint la)" "unat (la_ckpoint la1) < k" "k \<le> unat (la_ckpoint la)"
      using j(1,2) s(3) unfolding moved_def k_def by linarith+
    have b: "unat b < ?n" using j(4) n(1) by simp
    have "(unat b + k) mod ?n = la_end cfg la" using at_position[OF b jk(1)] j(4) by simp
    moreover have "unat b \<notin> U" using less.prems(2) j(1-4) n(2,3) by (simp add: sees_def)
    moreover have "x \<in> U \<or> x = unat b" if x: "x < ?n" "unat (la_ckpoint la1) < k" "k \<le> unat (la_ckpoint la)"
      "(x + k) mod ?n = la_end cfg la" for x k
    proof -
      from passed[OF x] obtain i where i: "unat (la_next la) \<le> i" "i < unat (la_next la1)" "i < unat (la_size la)"
        "x = (unat (la_start la) + i) mod ?n" by blast
      then show ?thesis using j(4,5) less.prems(2) by (cases "i = j") (auto simp: sees_def)
    qed
    ultimately show ?thesis using run s(2) sees_moved[OF less.prems(2) s(3)] moved_end[OF s(3)] ck b jk(2,3) less.prems(3)
      by (auto simp: allocated_def)
  next
    case None
    have used: "x \<in> U" if x: "x < ?n" "unat (la_ckpoint la1) < k" "k \<le> unat (la_ckpoint la)" "(x + k) mod ?n = la_end cfg la" for x k
    proof -
      from passed[OF x] obtain i where "unat (la_next la) \<le> i" "i < unat (la_size la)" "x = (unat (la_start la) + i) mod ?n" by blast
      then show ?thesis using None res less.prems(2) by (auto simp: sees_def)
    qed
    show ?thesis
    proof (cases "la_ckpoint la1 = 0")
      case True
      then have "lfs_alloc cfg traverse la d = Some (LFS_ERR_NOSPC, None, la1, d)"
        by (subst lfs_alloc.simps) (simp add: s(1) None)
      then show ?thesis using True used s(2) sees_moved[OF less.prems(2) s(3)] moved_end[OF s(3)] less.prems(3)
        by (auto simp: allocated_def)
    next
      case False
      then have pos: "0 < la_ckpoint la1" by (simp add: word_neq_0_conv)
      have full: "la_next la1 = la_size la1" using None res n(3) by simp
      from assms(3) less.prems(3) obtain bs err d1 where tr: "traverse d = Some (bs, err, d1)" "\<forall>b \<in> set bs. unat b < ?n"
        "err = 0 \<Longrightarrow> unat ` set bs = U \<and> good d1" unfolding reports_def by blast
      from lfs_alloc_scan_ok[where traverse = traverse and d = d, OF s(2) full pos tr(1,2)] obtain la2 where
        sc: "lfs_alloc_scan cfg traverse la1 d = Some (if err \<noteq> 0 then (err, lfs_alloc_drop cfg la2, d1) else (0, la2, d1))"
          "la_ok cfg la2" "la_ckpoint la2 = la_ckpoint la1"
          "la_next la2 = 0" "0 < la_size la2" "unat (la_start la2) = (unat (la_start la1) + unat (la_next la1)) mod ?n"
          "\<forall>i < unat (la_size la2). bit_at (la_buffer la2) i \<longleftrightarrow> (unat (la_start la2) + i) mod ?n \<in> unat ` set bs" by blast
      show ?thesis
      proof (cases "err = 0")
        case err: False
        then have "lfs_alloc cfg traverse la d = Some (err, None, lfs_alloc_drop cfg la2, d1)"
          using False by (subst lfs_alloc.simps) (simp add: s(1) None sc(1))
        moreover have "traversal_error good traverse err" using err tr(1) less.prems(3) by (auto simp: traversal_error_def)
        ultimately show ?thesis by blast
      next
        case True
        have run: "lfs_alloc cfg traverse la d = lfs_alloc cfg traverse la2 d1"
          using False True by (subst lfs_alloc.simps) (simp add: s(1) None sc(1))
        have "sees cfg U la2" "good d1" using sc(7) tr(3)[OF True] by (simp_all add: sees_def)
        moreover have "unat (la_ckpoint la1) < unat (la_ckpoint la)" if "la_next la \<noteq> la_size la"
          using that s(3) full n(3,4) unfolding moved_def by (simp add: word_unat_eq_iff)
        then have "2 * unat (la_ckpoint la2) + (if la_next la2 = la_size la2 then 1 else 0) <
            2 * unat (la_ckpoint la) + (if la_next la = la_size la then 1 else 0)"
          using sc(3-5) ck by auto
        ultimately obtain err blk la3 d3 where rec: "lfs_alloc cfg traverse la2 d1 = Some (err, blk, la3, d3)"
          "allocated cfg U good la2 (err, blk, la3, d3) \<or> blk = None \<and> traversal_error good traverse err"
          using less.hyps[of la2 d1] sc(2) by blast
        show ?thesis
        proof (cases "allocated cfg U good la2 (err, blk, la3, d3)")
          case False
          then show ?thesis using rec unfolding run by blast
        next
          case True
          have e: "la_end cfg la2 = la_end cfg la"
            using sc(3,4,6) by (simp add: la_end_def mod_add_left_eq flip: moved_end[OF s(3), unfolded la_end_def])
          have "b \<in> U \<or> map_option unat blk = Some b"
            if b: "b < ?n" "unat (la_ckpoint la3) < k" "k \<le> unat (la_ckpoint la)" "(b + k) mod ?n = la_end cfg la" for b k
            using True used[OF b(1) _ b(3,4)] b sc(3) e by (cases "k \<le> unat (la_ckpoint la1)") (auto simp: allocated_def)
          then have "allocated cfg U good la (err, blk, la3, d3)"
            using True sc(3) e ck unfolding allocated_def by (auto split: option.splits)
          then show ?thesis using rec(1) unfolding run by blast
        qed
      qed
    qed
  qed
qed

section \<open>Results\<close>

text \<open>Allocating up to m blocks without a checkpoint in between.\<close>

fun alloc_many :: "'d lfs_config \<Rightarrow> 's traversal \<Rightarrow> nat \<Rightarrow> lookahead \<Rightarrow> 's \<Rightarrow> (int \<times> u32 list \<times> lookahead \<times> 's) option" where
  "alloc_many cfg traverse 0 la d = Some (0, [], la, d)"
| "alloc_many cfg traverse (Suc m) la d = do {
     (err, blk, la1, d1) \<leftarrow> lfs_alloc cfg traverse la d;
     case blk of
       None \<Rightarrow> Some (err, [], la1, d1)
     | Some b \<Rightarrow> do {
         (err2, bs, la2, d2) \<leftarrow> alloc_many cfg traverse m la1 d1;
         Some (err2, b # bs, la2, d2)
       }
   }"

lemma same_position:
  assumes "(b + k) mod n = (b + k') mod (n :: nat)" "0 < k'" "k' < k" "k \<le> n"
  shows False
proof -
  have "k mod n = k' mod n" using assms(1) add_mod_cancel[of k b n k'] by (simp add: add.commute)
  then show False using assms(2-4) by (cases "k = n") auto
qed

lemma every_position:
  assumes "x < (n :: nat)"
  shows "\<exists>k. 0 < k \<and> k \<le> n \<and> (x + k) mod n = e mod n"
proof -
  define m where "m = e mod n"
  have m: "m < n" using assms by (simp add: m_def)
  show ?thesis
  proof (cases "x < m")
    case True
    then have "0 < m - x \<and> m - x \<le> n \<and> (x + (m - x)) mod n = m" using m by simp
    then show ?thesis unfolding m_def by blast
  next
    case False
    then have "0 < m + n - x \<and> m + n - x \<le> n \<and> (x + (m + n - x)) mod n = m" using m assms by simp
    then show ?thesis unfolding m_def by blast
  qed
qed

lemma alloc_many_ok:
  assumes "la_ok cfg la" "sees cfg U la" "reports cfg U good traverse" "good d"
  shows "\<exists>err bs la1 d1 c. alloc_many cfg traverse m la d = Some (err, bs, la1, d1) \<and> distinct bs \<and>
    c \<le> unat (la_ckpoint la) \<and>
    (\<forall>b \<in> set bs. unat b < unat (block_count cfg) \<and> unat b \<notin> U \<and>
      (\<exists>k > c. k \<le> unat (la_ckpoint la) \<and> (unat b + k) mod unat (block_count cfg) = la_end cfg la)) \<and>
    (\<forall>b < unat (block_count cfg). \<forall>k > c. k \<le> unat (la_ckpoint la) \<longrightarrow>
      (b + k) mod unat (block_count cfg) = la_end cfg la \<longrightarrow> b \<in> U \<or> b \<in> unat ` set bs) \<and>
    (err = 0 \<and> length bs = m \<or> err = LFS_ERR_NOSPC \<and> c = 0 \<or> traversal_error good traverse err)"
  using assms(1,2,4)
proof (induction m arbitrary: la d)
  case 0
  show ?case by (intro exI[of _ 0] exI[of _ "[]"] exI[of _ la] exI[of _ d] exI[of _ "unat (la_ckpoint la)"]) simp
next
  case (Suc m)
  let ?n = "unat (block_count cfg)"
  from lfs_alloc_ok[OF Suc.prems(1,2) assms(3) Suc.prems(3)] obtain err blk la1 d1 where
    a1: "lfs_alloc cfg traverse la d = Some (err, blk, la1, d1)"
    and res: "allocated cfg U good la (err, blk, la1, d1) \<or> blk = None \<and> traversal_error good traverse err" by blast
  show ?case
  proof (cases blk)
    case None
    show ?thesis
    proof (cases "allocated cfg U good la (err, blk, la1, d1)")
      case True
      then show ?thesis using None a1 by (intro exI[of _ err] exI[of _ "[]"] exI[of _ la1] exI[of _ d1] exI[of _ 0]) (auto simp: allocated_def)
    next
      case False
      then show ?thesis using None a1 res
        by (intro exI[of _ err] exI[of _ "[]"] exI[of _ la1] exI[of _ d1] exI[of _ "unat (la_ckpoint la)"]) auto
    qed
  next
    case (Some b)
    then have a: "lfs_alloc cfg traverse la d = Some (err, blk, la1, d1)" "allocated cfg U good la (err, blk, la1, d1)"
      using a1 res by auto
    have good: "good d1" using a(2) by (simp add: allocated_def)
    have ok: "la_ok cfg la1" "sees cfg U la1" and e: "la_end cfg la1 = la_end cfg la"
      and ck: "unat (la_ckpoint la1) \<le> unat (la_ckpoint la)" using a(2) by (auto simp: allocated_def)
    have passed: "x < ?n \<Longrightarrow> unat (la_ckpoint la1) < j \<Longrightarrow> j \<le> unat (la_ckpoint la) \<Longrightarrow> (x + j) mod ?n = la_end cfg la \<Longrightarrow>
      x \<in> U \<or> map_option unat blk = Some x" for x j using a(2) unfolding allocated_def prod.case by blast
    from a(2) Some obtain k where b: "unat b < ?n" "unat b \<notin> U" and k: "unat (la_ckpoint la1) < k" "k \<le> unat (la_ckpoint la)"
      "(unat b + k) mod ?n = la_end cfg la" by (auto simp: allocated_def)
    from Suc.IH[OF ok good] obtain err2 bs la2 d2 c where
      r: "alloc_many cfg traverse m la1 d1 = Some (err2, bs, la2, d2)" "distinct bs"
        "c \<le> unat (la_ckpoint la1)"
        "err2 = 0 \<and> length bs = m \<or> err2 = LFS_ERR_NOSPC \<and> c = 0 \<or> traversal_error good traverse err2"
      and news: "\<forall>b \<in> set bs. unat b < ?n \<and> unat b \<notin> U \<and>
        (\<exists>k > c. k \<le> unat (la_ckpoint la1) \<and> (unat b + k) mod ?n = la_end cfg la)"
      and covers: "\<forall>b < ?n. \<forall>k > c. k \<le> unat (la_ckpoint la1) \<longrightarrow> (b + k) mod ?n = la_end cfg la \<longrightarrow>
        b \<in> U \<or> b \<in> unat ` set bs" unfolding e by (elim exE conjE) (rule that)
    note new = news[rule_format] and cover = covers[rule_format]
    have n: "unat (la_ckpoint la) \<le> ?n" using Suc.prems(1) by (simp add: la_ok_def)
    have fresh: "b \<notin> set bs"
    proof
      assume "b \<in> set bs"
      with new obtain k' where k': "c < k'" "k' \<le> unat (la_ckpoint la1)" "(unat b + k') mod ?n = la_end cfg la" by blast
      show False using same_position[of "unat b" k ?n k'] k k' n by simp
    qed
    have "x \<in> U \<or> x = unat b \<or> x \<in> unat ` set bs"
      if x: "x < ?n" "c < j" "j \<le> unat (la_ckpoint la)" "(x + j) mod ?n = la_end cfg la" for x j
    proof (cases "j \<le> unat (la_ckpoint la1)")
      case True
      then show ?thesis using cover x by blast
    next
      case False
      then have "x \<in> U \<or> map_option unat blk = Some x" using x by (intro passed) simp_all
      then show ?thesis using Some by auto
    qed
    moreover have "\<exists>k. c < k \<and> k \<le> unat (la_ckpoint la) \<and> (unat x + k) mod ?n = la_end cfg la" if "x \<in> set bs" for x
      using new[OF that] ck by (meson le_trans)
    moreover have "\<exists>k. c < k \<and> k \<le> unat (la_ckpoint la) \<and> (unat b + k) mod ?n = la_end cfg la"
      using k r(3) by (intro exI[of _ k]) simp
    moreover have "alloc_many cfg traverse (Suc m) la d = Some (err2, b # bs, la2, d2)" by (simp add: a(1) Some r(1))
    moreover have "c \<le> unat (la_ckpoint la)" using r(3) ck by simp
    moreover have "err2 = 0 \<and> length (b # bs) = Suc m \<or> err2 = LFS_ERR_NOSPC \<and> c = 0 \<or> traversal_error good traverse err2"
      using r(4) by auto
    ultimately show ?thesis using r(2) fresh b new
      by (intro exI[of _ err2] exI[of _ "b # bs"] exI[of _ la2] exI[of _ d2] exI[of _ c]) simp
  qed
qed


text \<open>A device of ten blocks, of which three are in use.\<close>

definition small_config :: "unit lfs_config" where
  "small_config = \<lparr> cfg_read = (\<lambda>_ _ _ d. Some (0, [], d)), cfg_prog = (\<lambda>_ _ _ d. Some (0, d)), cfg_erase = (\<lambda>_ d. Some (0, d)),
     cfg_sync = (\<lambda>d. Some (0, d)), read_size = 1, prog_size = 1, block_size = 128, cache_size = 1, lookahead_size = 1,
     block_count = 10 \<rparr>"

definition fresh_lookahead :: lookahead where
  "fresh_lookahead = \<lparr> la_start = 8, la_size = 0, la_next = 0, la_ckpoint = 10, la_buffer = [0] \<rparr>"


end
