(* ===== verification/Lfs_Extend.thy ===== *)
theory Lfs_Extend
  imports Lfs_Ctz Lfs_Alloc Lfs_Frame
begin

text \<open>
  Appending to the list of blocks of a file of littlefs (\<^verbatim>\<open>warp/wem/littlefs/lfs.c\<close>): a new block,
  with a copy of the last one when that is not full, and with the pointers to the blocks before otherwise. A block
  that turns out to be bad is given up for another.
\<close>

section \<open>Operations\<close>

datatype extend_result = Extended | Relocate | Failed int

definition prog_error :: "int \<Rightarrow> extend_result" where
  "prog_error err = (if err = LFS_ERR_CORRUPT then Relocate else Failed err)"

partial_function (option) ctz_copy_loop ::
  "'d lfs_config \<Rightarrow> u32 \<Rightarrow> u32 \<Rightarrow> u32 \<Rightarrow> u32 \<Rightarrow> lfs_cache \<Rightarrow> lfs_cache \<Rightarrow> 'd \<Rightarrow>
   (extend_result \<times> lfs_cache \<times> lfs_cache \<times> 'd) option" where
  "ctz_copy_loop cfg nblock head noff i pcache rcache d =
     (if i < noff then do {
        (err, bytes, rcache1, d1) \<leftarrow> lfs_bd_read cfg None (noff - i) head i 1 rcache d;
        if err \<noteq> 0 then Some (Failed err, pcache, rcache1, d1)
        else do {
          (err, pcache1, rcache2, d2) \<leftarrow> lfs_bd_prog cfg True nblock i bytes pcache rcache1 d1;
          if err \<noteq> 0 then Some (prog_error err, pcache1, rcache2, d2)
          else ctz_copy_loop cfg nblock head noff (i + 1) pcache1 rcache2 d2
        }
      }
      else Some (Extended, pcache, rcache, d))"

partial_function (option) ctz_pointer_loop ::
  "'d lfs_config \<Rightarrow> u32 \<Rightarrow> u32 \<Rightarrow> u32 \<Rightarrow> u32 \<Rightarrow> lfs_cache \<Rightarrow> lfs_cache \<Rightarrow> 'd \<Rightarrow>
   (extend_result \<times> lfs_cache \<times> lfs_cache \<times> 'd) option" where
  "ctz_pointer_loop cfg nblock skips i nhead pcache rcache d =
     (if i < skips then do {
        (err, pcache1, rcache1, d1) \<leftarrow> lfs_bd_prog cfg True nblock (4 * i) (le32 (lfs_tole32 nhead)) pcache rcache d;
        if err \<noteq> 0 then Some (prog_error err, pcache1, rcache1, d1)
        else if i \<noteq> skips - 1 then do {
          (err, bytes, rcache2, d2) \<leftarrow> lfs_bd_read cfg None 4 nhead (4 * i) 4 rcache1 d1;
          if err \<noteq> 0 then Some (Failed err, pcache1, rcache2, d2)
          else ctz_pointer_loop cfg nblock skips (i + 1) (lfs_fromle32 (word_at bytes 0)) pcache1 rcache2 d2
        }
        else ctz_pointer_loop cfg nblock skips (i + 1) nhead pcache1 rcache1 d1
      }
      else Some (Extended, pcache, rcache, d))"

partial_function (option) lfs_ctz_extend ::
  "'d lfs_config \<Rightarrow> (lfs_cache \<times> 'd) traversal \<Rightarrow> u32 \<Rightarrow> u32 \<Rightarrow> lookahead \<Rightarrow> lfs_cache \<Rightarrow> lfs_cache \<Rightarrow> 'd \<Rightarrow>
   (int \<times> (u32 \<times> u32) option \<times> lookahead \<times> lfs_cache \<times> lfs_cache \<times> 'd) option" where
  "lfs_ctz_extend cfg traverse head len la pcache rcache d = do {
     (err, blk, la1, rcache1, d1) \<leftarrow> lfs_alloc cfg traverse la (rcache, d);
     case blk of
       None \<Rightarrow> Some (err, None, la1, pcache, rcache1, d1)
     | Some nblock \<Rightarrow> do {
         (err, d2) \<leftarrow> lfs_bd_erase cfg nblock d1;
         if err \<noteq> 0 then
           if err = LFS_ERR_CORRUPT then lfs_ctz_extend cfg traverse head len la1 (lfs_cache_drop pcache) rcache1 d2
           else Some (err, None, la1, pcache, rcache1, d2)
         else if len = 0 then Some (0, Some (nblock, 0), la1, pcache, rcache1, d2)
         else do {
           let (index, o1) = lfs_ctz_index cfg (len - 1);
           let noff = o1 + 1;
           let skips = lfs_ctz (index + 1) + 1;
           let off = (if noff \<noteq> block_size cfg then noff else 4 * skips);
           (res, pcache1, rcache2, d3) \<leftarrow> (if noff \<noteq> block_size cfg
             then ctz_copy_loop cfg nblock head noff 0 pcache rcache1 d2
             else ctz_pointer_loop cfg nblock skips 0 head pcache rcache1 d2);
           case res of
             Extended \<Rightarrow> Some (0, Some (nblock, off), la1, pcache1, rcache2, d3)
           | Relocate \<Rightarrow> lfs_ctz_extend cfg traverse head len la1 (lfs_cache_drop pcache1) rcache2 d3
           | Failed e \<Rightarrow> Some (e, None, la1, pcache1, rcache2, d3)
         }
       }
   }"

section \<open>Pointers\<close>

definition failure :: "'d lfs_config \<Rightarrow> int \<Rightarrow> bool" where
  "failure cfg err \<longleftrightarrow> err \<noteq> 0 \<and> reported cfg err"

lemma failures:
  "lfs_bd_read cfg pcache hint block off len r d = Some (err, data, r1, d1) \<Longrightarrow> err \<noteq> 0 \<Longrightarrow> failure cfg err"
  "lfs_bd_prog cfg validate block off dat p r d = Some (err, p1, r1, d1) \<Longrightarrow> err \<noteq> 0 \<Longrightarrow> failure cfg err"
  "cfg_erase cfg block d = Some (err, d1) \<Longrightarrow> err \<noteq> 0 \<Longrightarrow> failure cfg err"
  using lfs_bd_read_frame(2)[of cfg pcache hint block off len r d err data r1 d1]
    lfs_bd_prog_frame(3)[of cfg validate block off dat p r d err p1 r1 d1] device_errors(3)[of cfg block d err d1]
  by (simp_all add: failure_def reported_def)

lemma trailing_zeros_bit:
  assumes "k < trailing_zeros n" "0 < n"
  shows "trailing_zeros (n - 2 ^ k) = k" "2 ^ Suc k \<le> n"
proof -
  have "2 ^ Suc k dvd (2 :: nat) ^ trailing_zeros n" using assms(1) by (intro le_imp_power_dvd) simp
  then have "2 ^ Suc k dvd n" using trailing_zeros_dvd[OF assms(2)] by (rule dvd_trans)
  then obtain m where n: "n = 2 ^ Suc k * m" by (elim dvdE)
  with assms(2) have m: "0 < m" by (cases m) auto
  show "2 ^ Suc k \<le> n" using n m by simp
  have tz: "trailing_zeros (2 ^ j * (2 * l + 1)) = j" for j l :: nat
  proof (induction j)
    case (Suc j)
    have c: "\<not> (2 ^ Suc j * (2 * l + 1) = 0 \<or> odd (2 ^ Suc j * (2 * l + 1)))" by simp
    have half: "2 ^ Suc j * (2 * l + 1) div 2 = 2 ^ j * (2 * l + 1)" by simp
    show ?case unfolding trailing_zeros.simps[of "2 ^ Suc j * (2 * l + 1)"] if_not_P[OF c] half Suc ..
  qed (subst trailing_zeros.simps, simp)
  obtain l where "m = Suc l" using m by (cases m) auto
  then have "n - 2 ^ k = 2 ^ k * (2 * l + 1)" by (simp add: n algebra_simps)
  then show "trailing_zeros (n - 2 ^ k) = k" by (simp only: tz)
qed

context block_device begin

text \<open>What a call that gives up a block leaves: the blocks in use are as they were.\<close>

definition kept :: "nat set \<Rightarrow> 'd \<Rightarrow> lfs_cache \<Rightarrow> lfs_cache \<Rightarrow> 'd \<Rightarrow> bool" where
  "kept U d0 p r d \<longleftrightarrow> trusted U d r \<and> (\<forall>b. unat b \<in> U \<longrightarrow> contents d b = contents d0 b) \<and>
     length (c_buffer p) = unat (cache_size cfg)"

lemma kept_read: "kept U d0 p r d \<Longrightarrow> contents d1 = contents d \<Longrightarrow> trusted U d1 r1 \<Longrightarrow> kept U d0 p r1 d1"
  by (simp add: kept_def)

text \<open>The state of the loop that writes the pointers: those before i are in place.\<close>

definition pointers_inv :: "nat set \<Rightarrow> 'd \<Rightarrow> u32 list \<Rightarrow> u32 \<Rightarrow> nat \<Rightarrow> lfs_cache \<Rightarrow> lfs_cache \<Rightarrow> 'd \<Rightarrow> bool" where
  "pointers_inv U d0 bs nblock i p r d \<longleftrightarrow> prog_at p nblock (4 * i) \<and> kept U d0 p r d \<and>
     (\<forall>k < i. segment (4 * k) 4 (view (Some p) d nblock) = le32 (bs ! (length bs - 2 ^ k)))"

lemma prog_pointer:
  assumes "pointers_inv U d0 bs nblock i p r d" "nblock < block_count cfg" "4 * i + 4 \<le> unat (block_size cfg)"
    "unat off = 4 * i" "unat nblock \<notin> U"
  shows "\<exists>err p1 r1 d1. lfs_bd_prog cfg True nblock off (le32 (bs ! (length bs - 2 ^ i))) p r d = Some (err, p1, r1, d1) \<and>
    err \<le> 0 \<and> kept U d0 p1 r1 d1 \<and> (err = 0 \<longrightarrow> pointers_inv U d0 bs nblock (Suc i) p1 r1 d1)"
proof -
  let ?w = "le32 (bs ! (length bs - 2 ^ i))"
  have inv: "prog_at p nblock (unat off)" "trusted U d r" "usable d r"
    using assms(1,4) by (simp_all add: pointers_inv_def kept_def trusted_def)
  from lfs_bd_prog_ok[OF assms(2) inv(1,3), of ?w True] assms(3,4) obtain err p1 r1 d1 where
    pr: "lfs_bd_prog cfg True nblock off ?w p r d = Some (err, p1, r1, d1)"
    and ok: "programmed True nblock (4 * i) ?w p r d (err, p1, r1, d1)" by auto
  have kept: "kept U d0 p1 r1 d1" using trusted_prog[OF pr ok inv(2) assms(5)] assms(1) by (simp add: pointers_inv_def kept_def)
  have "pointers_inv U d0 bs nblock (Suc i) p1 r1 d1" if "err = 0"
  proof -
    have len: "length (view (Some p) d nblock) = unat (block_size cfg)"
      using inv(1) block_not_null[OF assms(2)] by (simp add: length_view window_ok_def prog_at_def)
    have v: "view (Some p1) d1 nblock = overlay (view (Some p) d nblock) (4 * i) ?w"
      using ok that by (simp add: programmed_def)
    have "segment (4 * k) 4 (view (Some p1) d1 nblock) = le32 (bs ! (length bs - 2 ^ k))" if k: "k < Suc i" for k
    proof (cases "k = i")
      case True
      then show ?thesis using assms(3) len unfolding v by (subst segment_overlay_inside) (simp_all add: segment_all)
    next
      case False
      then have "segment (4 * k) 4 (view (Some p1) d1 nblock) = segment (4 * k) 4 (view (Some p) d nblock)"
        using k assms(3) len unfolding v by (intro segment_overlay_outside) simp_all
      then show ?thesis using assms(1) k False by (simp add: pointers_inv_def)
    qed
    then show ?thesis using ok that kept by (simp add: pointers_inv_def programmed_def add.commute)
  qed
  then show ?thesis using pr ok kept by (auto simp: programmed_def)
qed

lemma ctz_pointer_loop_ok:
  assumes "128 \<le> unat (block_size cfg)" "nblock < block_count cfg" "unat nblock \<notin> U" "\<forall>b \<in> set bs. b < block_count cfg \<and> unat b \<in> U"
    "ctz_file (contents d0) bs" "bs \<noteq> []" "length bs < 2 ^ 26" "unat skips = Suc (trailing_zeros (length bs))"
    and "unat i \<le> unat skips" "pointers_inv U d0 bs nblock (unat i) p r d"
    "unat i < unat skips \<Longrightarrow> nhead = bs ! (length bs - 2 ^ unat i)"
  shows "\<exists>res p1 r1 d1. ctz_pointer_loop cfg nblock skips i nhead p r d = Some (res, p1, r1, d1) \<and>
    (case res of Extended \<Rightarrow> pointers_inv U d0 bs nblock (unat skips) p1 r1 d1 | Relocate \<Rightarrow> kept U d0 p1 r1 d1 | Failed e \<Rightarrow> failure cfg e)"
  using assms(9-)
proof (induction "unat skips - unat i" arbitrary: i nhead p r d rule: less_induct)
  case less
  have small: "trailing_zeros (length bs) < 26" by (rule trailing_zeros_small[OF assms(7)])
  show ?case
  proof (cases "i < skips")
    case False
    then have "unat i = unat skips" using less.prems(1) by (simp add: word_less_nat_alt)
    then show ?thesis using False less.prems(2) by (subst ctz_pointer_loop.simps) simp
  next
    case True
    then have lt: "unat i < unat skips" by (simp add: word_less_nat_alt)
    then have bounds: "unat i \<le> trailing_zeros (length bs)" "unat i < 26" "4 * unat i + 4 \<le> unat (block_size cfg)"
      using assms(1,8) small by simp_all
    have off: "unat (4 * i) = 4 * unat i" using bounds(2) by (simp add: unat_4_mult)
    have i1: "unat (i + 1) = Suc (unat i)" using lt by (simp add: unat_Suc_no_wrap)
    have nhead: "nhead = bs ! (length bs - 2 ^ unat i)" by (rule less.prems(3)[OF lt])
    from prog_pointer[OF less.prems(2) assms(2) bounds(3) off assms(3)] obtain err p1 r1 d1 where
      pr: "lfs_bd_prog cfg True nblock (4 * i) (le32 nhead) p r d = Some (err, p1, r1, d1)" "err \<le> 0"
        "kept U d0 p1 r1 d1" "err = 0 \<Longrightarrow> pointers_inv U d0 bs nblock (unat (i + 1)) p1 r1 d1" unfolding nhead i1 by blast
    show ?thesis
    proof (cases "err = 0")
      case False
      then have "ctz_pointer_loop cfg nblock skips i nhead p r d = Some (prog_error err, p1, r1, d1)"
        using True pr(1) by (subst ctz_pointer_loop.simps) (simp add: lfs_tole32_def lfs_fromle32_def)
      then show ?thesis using failures(2)[OF pr(1) False] pr(3) by (auto simp: prog_error_def)
    next
      case e: True
      note inv = pr(4)[OF e]
      have decrease: "unat skips - unat (i + 1) < unat skips - unat i" and le: "unat (i + 1) \<le> unat skips"
        using lt i1 by simp_all
      show ?thesis
      proof (cases "i = skips - 1")
        case last: True
        have "unat skips = unat (i + 1)" using last by simp
        then have "\<not> unat (i + 1) < unat skips" by simp
        from less.hyps[OF decrease le inv] this have "\<exists>res p2 r2 d2. ctz_pointer_loop cfg nblock skips (i + 1) nhead p1 r1 d1 =
            Some (res, p2, r2, d2) \<and> (case res of Extended \<Rightarrow> pointers_inv U d0 bs nblock (unat skips) p2 r2 d2 | Relocate \<Rightarrow> kept U d0 p2 r2 d2 | Failed e \<Rightarrow> failure cfg e)"
          by blast
        moreover have "ctz_pointer_loop cfg nblock skips i nhead p r d = ctz_pointer_loop cfg nblock skips (i + 1) nhead p1 r1 d1"
          using True pr(1) e last by (subst ctz_pointer_loop.simps) (simp add: lfs_tole32_def lfs_fromle32_def)
        ultimately show ?thesis by simp
      next
        case more: False
        have "unat (skips - 1) = trailing_zeros (length bs)" using assms(8) by (subst unat_minus_one) auto
        then have "unat i \<noteq> trailing_zeros (length bs)" using more by (auto simp: word_unat_eq_iff)
        then have tz: "unat i < trailing_zeros (length bs)" using bounds(1) by simp
        let ?n = "length bs"
        have "0 < ?n" using assms(6) by simp
        note jump = trailing_zeros_bit[OF tz this]
        have m: "0 < ?n - 2 ^ unat i" "?n - 2 ^ unat i < ?n" "?n - 2 ^ unat i - 2 ^ unat i = ?n - 2 ^ unat (i + 1)"
          using jump(2) zero_less_power[of "2 :: nat" "unat i"] unfolding i1 power_Suc by linarith+
        have head: "nhead \<in> set bs" using m(2) by (simp add: nhead)
        have "segment (4 * unat i) 4 (contents d0 nhead) = le32 (bs ! (?n - 2 ^ unat (i + 1)))"
          using assms(5) m jump(1) by (auto simp: ctz_file_def nhead)
        moreover have "contents d1 nhead = contents d0 nhead" using pr(3) head assms(4) by (simp add: kept_def)
        ultimately have seg: "segment (4 * unat i) 4 (view None d1 nhead) = le32 (bs ! (?n - 2 ^ unat (i + 1)))" by (simp add: view_def)
        have rc: "trusted U d1 r1" "unat nhead \<in> U" using pr(3) head assms(4) by (simp_all add: kept_def)
        have "unat (4 * i) + unat (4 :: u32) \<le> unat (block_size cfg)" "nhead < block_count cfg" "0 < unat (4 :: u32)"
          "unat (4 :: u32) \<le> unat (block_size cfg)" "window_ok None"
          using off bounds(3) assms(4) head by (simp_all add: window_ok_def)
        from trusted_read[OF this(1-4) rc(1) this(5) rc(2)] obtain err2 bytes r2 d2 where
          rd: "lfs_bd_read cfg None 4 nhead (4 * i) 4 r1 d1 = Some (err2, bytes, r2, d2)"
          and ok: "contents d2 = contents d1" "err2 \<le> 0"
            "err2 = 0 \<Longrightarrow> bytes = le32 (bs ! (?n - 2 ^ unat (i + 1))) \<and> trusted U d2 r2"
          by (auto simp: off seg)
        have unfold: "ctz_pointer_loop cfg nblock skips i nhead p r d = (if err2 \<noteq> 0 then Some (Failed err2, p1, r2, d2)
            else ctz_pointer_loop cfg nblock skips (i + 1) (lfs_fromle32 (word_at bytes 0)) p1 r2 d2)"
          using True pr(1) e more rd by (subst ctz_pointer_loop.simps) (simp add: lfs_tole32_def lfs_fromle32_def)
        show ?thesis
        proof (cases "err2 = 0")
          case False
          then show ?thesis using failures(1)[OF rd False] unfolding unfold by simp
        next
          case True
          have "pointers_inv U d0 bs nblock (unat (i + 1)) p1 r2 d2"
            using inv ok(1) ok(3)[OF True] view_cong[OF ok(1)] by (simp add: pointers_inv_def kept_def)
          moreover have "lfs_fromle32 (word_at bytes 0) = bs ! (?n - 2 ^ unat (i + 1))"
            using ok(3)[OF True] by (simp add: word_at_le32 lfs_fromle32_def)
          ultimately show ?thesis using less.hyps[OF decrease le] True unfolding unfold by simp
        qed
      qed
    qed
  qed
qed

text \<open>Started with an empty program cache, the loop makes the list one block longer.\<close>

lemma view_others:
  assumes "prog_at p nblock n" "kept U d0 p r d" "unat nblock \<notin> U" "unat b \<in> U" "b < block_count cfg"
  shows "view (Some p) d b = contents d0 b"
proof -
  have "b \<noteq> nblock" "b \<noteq> LFS_BLOCK_NULL" using assms(3-5) block_not_null(1) by auto
  then show ?thesis using assms(1,2,4) by (auto simp: view_def prog_at_def kept_def)
qed

lemma pointers_file:
  assumes "pointers_inv U d0 bs nblock (Suc (trailing_zeros (length bs))) p r d" "unat nblock \<notin> U" "ctz_file (contents d0) bs"
    "\<forall>b \<in> set bs. b < block_count cfg \<and> unat b \<in> U"
  shows "ctz_file (view (Some p) d) (bs @ [nblock])"
proof -
  have same: "view (Some p) d b = contents d0 b" if "b \<in> set bs" for b
    using that assms(1,2,4) view_others by (auto simp: pointers_inv_def)
  have "segment (4 * k) 4 (view (Some p) d ((bs @ [nblock]) ! i)) = le32 ((bs @ [nblock]) ! (i - 2 ^ k))"
    if i: "i < length (bs @ [nblock])" "0 < i" "k \<le> trailing_zeros i" for i k
  proof -
    have "i - 2 ^ k < i" using i(2) by simp
    then have lt: "i - 2 ^ k < length bs" using i(1) by simp
    show ?thesis
    proof (cases "i < length bs")
      case True
      then show ?thesis using assms(3) i(2,3) lt same[of "bs ! i"] by (simp add: nth_append ctz_file_def)
    next
      case False
      then have "i = length bs" using i(1) by simp
      then show ?thesis using assms(1) i(3) lt by (simp add: nth_append pointers_inv_def)
    qed
  qed
  then show ?thesis by (simp add: ctz_file_def)
qed

lemma ctz_append_ok:
  assumes "128 \<le> unat (block_size cfg)" "nblock < block_count cfg" "unat nblock \<notin> U" "\<forall>b \<in> set bs. b < block_count cfg \<and> unat b \<in> U"
    "ctz_file (contents d0) bs" "bs \<noteq> []" "length bs < 2 ^ 26" "unat skips = Suc (trailing_zeros (length bs))"
    "c_block p = LFS_BLOCK_NULL" "kept U d0 p r d"
  shows "\<exists>res p1 r1 d1. ctz_pointer_loop cfg nblock skips 0 (last bs) p r d = Some (res, p1, r1, d1) \<and>
    (case res of Extended \<Rightarrow> ctz_file (view (Some p1) d1) (bs @ [nblock]) \<and> prog_at p1 nblock (4 * unat skips) \<and> kept U d0 p1 r1 d1
      | Relocate \<Rightarrow> kept U d0 p1 r1 d1 | Failed e \<Rightarrow> failure cfg e)"
proof -
  have "prog_at p nblock 0" using assms(9,10) by (simp add: prog_at_def pcache_ok_null kept_def)
  then have inv: "pointers_inv U d0 bs nblock (unat 0) p r d" using assms(10) by (simp add: pointers_inv_def)
  have le: "unat 0 \<le> unat skips" by simp
  have "last bs = bs ! (length bs - 2 ^ unat (0 :: u32))" using assms(6) by (simp add: last_conv_nth)
  from ctz_pointer_loop_ok[OF assms(1-8) le inv this] obtain res p1 r1 d1 where
    l: "ctz_pointer_loop cfg nblock skips 0 (last bs) p r d = Some (res, p1, r1, d1)"
      "case res of Extended \<Rightarrow> pointers_inv U d0 bs nblock (unat skips) p1 r1 d1 | Relocate \<Rightarrow> kept U d0 p1 r1 d1 | Failed e \<Rightarrow> failure cfg e" by blast
  then show ?thesis using pointers_file[OF _ assms(3,5,4)] assms(8)
    by (cases res) (auto simp: pointers_inv_def)
qed

section \<open>Copies\<close>

definition copy_inv :: "nat set \<Rightarrow> 'd \<Rightarrow> u32 \<Rightarrow> u32 \<Rightarrow> nat \<Rightarrow> lfs_cache \<Rightarrow> lfs_cache \<Rightarrow> 'd \<Rightarrow> bool" where
  "copy_inv U d0 head nblock i p r d \<longleftrightarrow> prog_at p nblock i \<and> kept U d0 p r d \<and>
     segment 0 i (view (Some p) d nblock) = segment 0 i (contents d0 head)"

lemma copy_byte:
  assumes "copy_inv U d0 head nblock i p r d" "nblock < block_count cfg" "i < unat (block_size cfg)" "unat off = i"
    "bytes = segment i 1 (contents d0 head)" "unat nblock \<notin> U"
  shows "\<exists>err p1 r1 d1. lfs_bd_prog cfg True nblock off bytes p r d = Some (err, p1, r1, d1) \<and>
    err \<le> 0 \<and> kept U d0 p1 r1 d1 \<and> (err = 0 \<longrightarrow> copy_inv U d0 head nblock (Suc i) p1 r1 d1)"
proof -
  have inv: "prog_at p nblock (unat off)" "usable d r" "trusted U d r"
    using assms(1,4) by (simp_all add: copy_inv_def kept_def trusted_def)
  have one: "length bytes = 1" using assms(3,5) by (simp add: length_segment length_contents)
  from lfs_bd_prog_ok[OF assms(2) inv(1,2), of bytes True] assms(3,4) one obtain err p1 r1 d1 where
    pr: "lfs_bd_prog cfg True nblock off bytes p r d = Some (err, p1, r1, d1)"
    and ok: "programmed True nblock i bytes p r d (err, p1, r1, d1)" by auto
  have kept: "kept U d0 p1 r1 d1" using trusted_prog[OF pr ok inv(3) assms(6)] assms(1) by (simp add: copy_inv_def kept_def)
  have "copy_inv U d0 head nblock (Suc i) p1 r1 d1" if "err = 0"
  proof -
    have len: "length (view (Some p) d nblock) = unat (block_size cfg)"
      using inv(1) block_not_null[OF assms(2)] by (simp add: length_view window_ok_def prog_at_def)
    have v: "view (Some p1) d1 nblock = overlay (view (Some p) d nblock) i bytes" using ok that by (simp add: programmed_def)
    have "segment 0 (i + 1) (view (Some p1) d1 nblock) = segment 0 i (view (Some p) d nblock) @ bytes"
      using overlay_append_at[of i bytes "view (Some p) d nblock"] len assms(3) one by (simp add: v)
    then have "segment 0 (i + 1) (view (Some p1) d1 nblock) = segment 0 (i + 1) (contents d0 head)"
      using assms(1,5) segment_add[of 0 i 1 "contents d0 head"] by (simp add: copy_inv_def)
    then show ?thesis using ok that kept one by (simp add: copy_inv_def programmed_def)
  qed
  then show ?thesis using pr ok kept by (auto simp: programmed_def)
qed

lemma ctz_copy_loop_ok:
  assumes "nblock < block_count cfg" "head < block_count cfg" "unat nblock \<notin> U" "unat head \<in> U" "unat noff \<le> unat (block_size cfg)"
    and "unat i \<le> unat noff" "copy_inv U d0 head nblock (unat i) p r d"
  shows "\<exists>res p1 r1 d1. ctz_copy_loop cfg nblock head noff i p r d = Some (res, p1, r1, d1) \<and>
    (case res of Extended \<Rightarrow> copy_inv U d0 head nblock (unat noff) p1 r1 d1 | Relocate \<Rightarrow> kept U d0 p1 r1 d1 | Failed e \<Rightarrow> failure cfg e)"
  using assms(6-)
proof (induction "unat noff - unat i" arbitrary: i p r d rule: less_induct)
  case less
  show ?case
  proof (cases "i < noff")
    case False
    then have "unat i = unat noff" using less.prems(1) by (simp add: word_less_nat_alt)
    then show ?thesis using False less.prems(2) by (subst ctz_copy_loop.simps) simp
  next
    case True
    then have lt: "unat i < unat noff" by (simp add: word_less_nat_alt)
    have i1: "unat (i + 1) = Suc (unat i)" using lt by (simp add: unat_Suc_no_wrap)
    have hint: "unat (noff - i) = unat noff - unat i" using lt by (simp add: unat_sub_no_wrap)
    have rc: "trusted U d r" using less.prems(2) by (simp add: copy_inv_def kept_def)
    have "view None d head = contents d0 head" using less.prems(2) assms(4) by (simp add: view_def copy_inv_def kept_def)
    moreover have "unat i + unat (1 :: u32) \<le> unat (block_size cfg)" "0 < unat (noff - i)" "unat (noff - i) \<le> unat (block_size cfg)"
      "window_ok None" using lt assms(5) hint by (simp_all add: window_ok_def)
    ultimately obtain err bytes r1 d1 where rd: "lfs_bd_read cfg None (noff - i) head i 1 r d = Some (err, bytes, r1, d1)"
      and ok: "contents d1 = contents d" "err \<le> 0" "err = 0 \<Longrightarrow> bytes = segment (unat i) 1 (contents d0 head) \<and> trusted U d1 r1"
      using trusted_read[of i 1 head "noff - i" U d r None] assms(2,4) rc by auto
    show ?thesis
    proof (cases "err = 0")
      case False
      then have "ctz_copy_loop cfg nblock head noff i p r d = Some (Failed err, p, r1, d1)"
        using True by (subst ctz_copy_loop.simps) (simp add: rd)
      then show ?thesis using failures(1)[OF rd False] by simp
    next
      case e: True
      have "copy_inv U d0 head nblock (unat i) p r1 d1"
        using less.prems(2) ok(1) ok(3)[OF e] view_cong[OF ok(1)] by (simp add: copy_inv_def kept_def)
      from copy_byte[OF this assms(1) _ refl conjunct1[OF ok(3)[OF e]] assms(3)] lt assms(5) obtain err2 p2 r2 d2 where
        pr: "lfs_bd_prog cfg True nblock i bytes p r1 d1 = Some (err2, p2, r2, d2)" "err2 \<le> 0" "kept U d0 p2 r2 d2"
          "err2 = 0 \<Longrightarrow> copy_inv U d0 head nblock (unat (i + 1)) p2 r2 d2" unfolding i1 by auto
      have unfold: "ctz_copy_loop cfg nblock head noff i p r d =
          (if err2 \<noteq> 0 then Some (prog_error err2, p2, r2, d2) else ctz_copy_loop cfg nblock head noff (i + 1) p2 r2 d2)"
        using True e by (subst ctz_copy_loop.simps) (simp add: rd pr(1))
      show ?thesis
      proof (cases "err2 = 0")
        case False
        then show ?thesis using failures(2)[OF pr(1) False] False pr(3) unfolding unfold by (auto simp: prog_error_def)
      next
        case True
        have "unat noff - unat (i + 1) < unat noff - unat i" "unat (i + 1) \<le> unat noff" using lt i1 by simp_all
        from less.hyps[OF this pr(4)[OF True]] show ?thesis using True unfolding unfold by simp
      qed
    qed
  qed
qed

section \<open>A longer file\<close>

lemma copied_file:
  assumes "copy_inv U d0 (last bs) nblock n p r d" "unat nblock \<notin> U" "ctz_file (contents d0) bs"
    "\<forall>b \<in> set bs. b < block_count cfg \<and> unat b \<in> U" "bs \<noteq> []" "ctz_header (length bs - 1) \<le> n" "n \<le> unat (block_size cfg)"
    "nblock < block_count cfg"
  shows "ctz_file (view (Some p) d) (butlast bs @ [nblock])"
proof -
  have same: "view (Some p) d b = contents d0 b" if "b \<in> set bs" for b
    using that assms(1,2,4) view_others by (auto simp: copy_inv_def)
  obtain m where len: "length bs = Suc m" using assms(5) by (cases bs) auto
  then have m: "length (butlast bs) = m" by simp
  have nth: "butlast bs ! i = bs ! i" if "i < m" for i using that nth_butlast[of i bs] m by simp
  have "segment (4 * k) 4 (view (Some p) d ((butlast bs @ [nblock]) ! i)) = le32 ((butlast bs @ [nblock]) ! (i - 2 ^ k))"
    if i: "i < length (butlast bs @ [nblock])" "0 < i" "k \<le> trailing_zeros i" for i k
  proof -
    have "i - 2 ^ k < i" using i(2) by simp
    then have lt: "i - 2 ^ k < m" using i(1) m by simp
    have old: "segment (4 * k) 4 (contents d0 (bs ! i)) = le32 (bs ! (i - 2 ^ k))" if "i < length bs"
      using assms(3) i(2,3) that by (simp add: ctz_file_def)
    show ?thesis
    proof (cases "i < m")
      case True
      then show ?thesis using old lt same[of "bs ! i"] len m by (simp add: nth_append nth)
    next
      case False
      then have il: "i = m" using i(1) m by simp
      then have "4 * k + 4 \<le> n" using assms(6) i(2,3) len by (simp add: ctz_header_def)
      moreover have "bs ! i = last bs" using assms(5) il len by (simp add: last_conv_nth)
      moreover have "segment 0 n (view (Some p) d nblock) = segment 0 n (contents d0 (last bs))" using assms(1) by (simp add: copy_inv_def)
      ultimately have "segment (4 * k) 4 (view (Some p) d nblock) = segment (4 * k) 4 (contents d0 (bs ! i))"
        using segment_segment[of "4 * k" 4 n 0 "view (Some p) d nblock"] segment_segment[of "4 * k" 4 n 0 "contents d0 (last bs)"] by simp
      then show ?thesis using old lt il len m by (simp add: nth_append nth)
    qed
  qed
  then show ?thesis by (simp add: ctz_file_def)
qed

text \<open>What an extension promises: a block that was not in use, and the file with the pointers of the longer list,
  or with a copy of its last block.\<close>

definition undisturbed :: "nat set \<Rightarrow> 'd \<Rightarrow> lfs_cache \<times> 'd \<Rightarrow> bool" where
  "undisturbed U d0 = (\<lambda>(r, d). trusted U d r \<and> (\<forall>b. unat b \<in> U \<longrightarrow> contents d b = contents d0 b))"

definition extended :: "nat set \<Rightarrow> 'd \<Rightarrow> u32 list \<Rightarrow> u32 \<Rightarrow> u32 \<Rightarrow> u32 \<Rightarrow> lfs_cache \<Rightarrow> lfs_cache \<Rightarrow> 'd \<Rightarrow> bool" where
  "extended U d0 bs len nblock off p r d \<longleftrightarrow> nblock < block_count cfg \<and> unat nblock \<notin> U \<and> undisturbed U d0 (r, d) \<and>
     prog_at p nblock (unat off) \<and>
     (if len = 0 \<or> snd (lfs_ctz_index cfg (len - 1)) + 1 = block_size cfg
      then ctz_file (view (Some p) d) (bs @ [nblock]) \<and> unat off = ctz_header (length bs)
      else ctz_file (view (Some p) d) (butlast bs @ [nblock]) \<and> unat off = unat (snd (lfs_ctz_index cfg (len - 1))) + 1 \<and>
        segment 0 (unat off) (view (Some p) d nblock) = segment 0 (unat off) (contents d0 (last bs)))"

text \<open>Filling one block.\<close>

lemma fill_block:
  assumes "128 \<le> unat (block_size cfg)" "nblock < block_count cfg" "unat nblock \<notin> U" "\<forall>b \<in> set bs. b < block_count cfg \<and> unat b \<in> U"
    "ctz_file (contents d0) bs" "len \<noteq> 0" "lfs_ctz_index cfg (len - 1) = (index, o1)" "length bs = Suc (unat index)"
    "c_block p = LFS_BLOCK_NULL" "kept U d0 p r d" "noff = o1 + 1" "skips = lfs_ctz (index + 1) + 1"
  shows "\<exists>res p1 r1 d1. (if noff \<noteq> block_size cfg then ctz_copy_loop cfg nblock (last bs) noff 0 p r d
      else ctz_pointer_loop cfg nblock skips 0 (last bs) p r d) = Some (res, p1, r1, d1) \<and>
    (case res of Extended \<Rightarrow> extended U d0 bs len nblock (if noff \<noteq> block_size cfg then noff else 4 * skips) p1 r1 d1
      | Relocate \<Rightarrow> kept U d0 p1 r1 d1 | Failed e \<Rightarrow> failure cfg e)"
proof -
  note ix = lfs_ctz_index_start[OF assms(1,7)]
  have bs: "bs \<noteq> []" using assms(8) by auto
  then have bs: "bs \<noteq> []" "last bs \<in> set bs" by simp_all
  let ?b = "unat (block_size cfg) - 8"
  have "ctz_header (unat index) \<le> ?b + 8" using trailing_zeros_small[OF ix(3)] assms(1) by (simp add: ctz_header_def)
  then have "ctz_start ?b (Suc (unat index)) = ctz_start ?b (unat index) + (?b + 8 - ctz_header (unat index))" by (rule ctz_start_Suc)
  then have o1: "unat o1 < unat (block_size cfg)" "ctz_header (unat index) \<le> unat o1" using ix(1,2,4) assms(1) by linarith+
  then have noff: "unat noff = unat o1 + 1" using assms(11) size_facts(11) by (simp add: unat_add_small)
  have und: "kept U d0 p1 r1 d1 \<Longrightarrow> undisturbed U d0 (r1, d1)" for p1 r1 d1 by (simp add: kept_def undisturbed_def)
  show ?thesis
  proof (cases "noff \<noteq> block_size cfg")
    case True
    have "copy_inv U d0 (last bs) nblock (unat 0) p r d"
      using assms(9,10) by (simp add: copy_inv_def prog_at_def pcache_ok_null kept_def)
    moreover have "unat noff \<le> unat (block_size cfg)" "last bs < block_count cfg" "unat (last bs) \<in> U" "unat 0 \<le> unat noff"
      using noff o1 assms(4) bs by simp_all
    ultimately obtain res p1 r1 d1 where cp: "ctz_copy_loop cfg nblock (last bs) noff 0 p r d = Some (res, p1, r1, d1)"
      "case res of Extended \<Rightarrow> copy_inv U d0 (last bs) nblock (unat noff) p1 r1 d1 | Relocate \<Rightarrow> kept U d0 p1 r1 d1 | Failed e \<Rightarrow> failure cfg e"
      using ctz_copy_loop_ok[OF assms(2) _ assms(3)] by blast
    have "extended U d0 bs len nblock noff p1 r1 d1" if inv: "copy_inv U d0 (last bs) nblock (unat noff) p1 r1 d1"
    proof -
      have "ctz_header (length bs - 1) \<le> unat noff" "unat noff \<le> unat (block_size cfg)" using noff o1 assms(8) by simp_all
      from copied_file[OF inv assms(3,5,4) bs(1) this assms(2)] show ?thesis
        using inv und[of p1 r1 d1] assms(2,3,6,7) True noff unfolding extended_def copy_inv_def assms(11) by simp
    qed
    then show ?thesis using True cp by (cases res) simp_all
  next
    case False
    have "unat index * ?b \<le> unat (len - 1)" using ix(1) by (cases "unat index = 0") (simp_all add: ctz_start_def)
    moreover have "unat (len - 1) < 2 ^ 32" by (rule unat_less_pow)
    moreover have "unat index * 120 \<le> unat index * ?b" using assms(1) by (intro mult_le_mono2) linarith
    ultimately have "unat index * 120 < 2 ^ 32" by linarith
    then have n: "length bs < 2 ^ 26" using assms(8) by simp
    have i1: "unat (index + 1) = length bs" using ix(3) assms(8) by (simp add: unat_add_small)
    then have "index + 1 \<noteq> 0" using assms(8) by auto
    then have "unat (lfs_ctz (index + 1)) = trailing_zeros (length bs)" by (simp add: unat_lfs_ctz i1)
    moreover have tz: "trailing_zeros (length bs) < 26" by (rule trailing_zeros_small[OF n])
    ultimately have skips: "unat skips = Suc (trailing_zeros (length bs))" using assms(12) by (simp add: unat_add_small)
    have off: "unat (4 * skips) = ctz_header (length bs)"
      using skips tz bs(1) by (subst unat_4_mult) (simp_all add: ctz_header_def)
    from ctz_append_ok[OF assms(1-5) bs(1) n skips assms(9,10)] obtain res p1 r1 d1 where
      ap: "ctz_pointer_loop cfg nblock skips 0 (last bs) p r d = Some (res, p1, r1, d1)"
      "case res of Extended \<Rightarrow> ctz_file (view (Some p1) d1) (bs @ [nblock]) \<and> prog_at p1 nblock (4 * unat skips) \<and> kept U d0 p1 r1 d1
        | Relocate \<Rightarrow> kept U d0 p1 r1 d1 | Failed e \<Rightarrow> failure cfg e" by blast
    have "unat (4 * skips) = 4 * unat skips" using skips tz by (simp add: unat_4_mult)
    then show ?thesis using False ap off und assms(2,3,7,11) by (cases res) (auto simp: extended_def)
  qed
qed

lemma lfs_ctz_extend_ok:
  assumes "128 \<le> unat (block_size cfg)" "\<forall>b \<in> set bs. b < block_count cfg \<and> unat b \<in> U" "ctz_file (contents d0) bs"
    "length bs = (if len = 0 then 0 else Suc (unat (fst (lfs_ctz_index cfg (len - 1)))))" "bs \<noteq> [] \<Longrightarrow> head = last bs"
    "reports cfg U (undisturbed U d0) traverse"
    and "la_ok cfg la" "sees cfg U la" "c_block p = LFS_BLOCK_NULL" "kept U d0 p r d"
  shows "\<exists>err place la1 p1 r1 d1. lfs_ctz_extend cfg traverse head len la p r d = Some (err, place, la1, p1, r1, d1) \<and>
    (case place of None \<Rightarrow> err = LFS_ERR_NOSPC \<or> traversal_error (undisturbed U d0) traverse err \<or> failure cfg err | Some (nblock, off) \<Rightarrow> err = 0 \<and> extended U d0 bs len nblock off p1 r1 d1)"
  using assms(7-)
proof (induction "unat (la_ckpoint la)" arbitrary: la p r d rule: less_induct)
  case less
  have "undisturbed U d0 (r, d)" using less.prems(4) by (simp add: kept_def undisturbed_def)
  from lfs_alloc_ok[OF less.prems(1,2) assms(6) this] obtain err blk la1 r1 d1 where
    al: "lfs_alloc cfg traverse la (r, d) = Some (err, blk, la1, r1, d1)"
    and res: "allocated cfg U (undisturbed U d0) la (err, blk, la1, r1, d1) \<or> blk = None \<and> traversal_error (undisturbed U d0) traverse err"
    by (metis surj_pair)
  show ?case
  proof (cases blk)
    case None
    then have "err = LFS_ERR_NOSPC \<or> traversal_error (undisturbed U d0) traverse err" using res by (auto simp: allocated_def)
    then show ?thesis using al None by (subst lfs_ctz_extend.simps) auto
  next
    case (Some nblock)
    then have a: "undisturbed U d0 (r1, d1)" "la_ok cfg la1" "sees cfg U la1" "unat (la_ckpoint la1) < unat (la_ckpoint la)"
      "nblock < block_count cfg" "unat nblock \<notin> U" using res by (auto simp: allocated_def word_less_nat_alt)
    have "valid d1" using a(1) by (simp add: undisturbed_def trusted_def usable_def)
    from erase[OF this, of nblock] obtain err2 d2 where er: "cfg_erase cfg nblock d1 = Some (err2, d2)" "valid d2"
      "\<forall>b. b \<noteq> nblock \<longrightarrow> contents d2 b = contents d1 b" by blast
    then have "contents d2 b = contents d1 b" if "unat b \<in> U" for b using a(6) that by auto
    then have kept2: "kept U d0 p r1 d2"
      using a(1) less.prems(4) trusted_cong[of U d1 r1 d2] er(2) by (simp add: undisturbed_def kept_def)
    have again: "c_block (lfs_cache_drop q) = LFS_BLOCK_NULL" "kept U d0 q s e \<Longrightarrow> kept U d0 (lfs_cache_drop q) s e" for q s e
      by (simp_all add: lfs_cache_drop_def kept_def)
    obtain index o1 where ix: "lfs_ctz_index cfg (len - 1) = (index, o1)" by (cases "lfs_ctz_index cfg (len - 1)")
    define noff where "noff = o1 + 1"
    define skips where "skips = lfs_ctz (index + 1) + 1"
    have unfold: "lfs_ctz_extend cfg traverse head len la p r d =
        (if err2 \<noteq> 0 then if err2 = LFS_ERR_CORRUPT then lfs_ctz_extend cfg traverse head len la1 (lfs_cache_drop p) r1 d2
           else Some (err2, None, la1, p, r1, d2)
         else if len = 0 then Some (0, Some (nblock, 0), la1, p, r1, d2)
         else Option.bind (if noff \<noteq> block_size cfg then ctz_copy_loop cfg nblock head noff 0 p r1 d2
             else ctz_pointer_loop cfg nblock skips 0 head p r1 d2) (\<lambda>(res, p1, r2, d3). case res of
               Extended \<Rightarrow> Some (0, Some (nblock, if noff \<noteq> block_size cfg then noff else 4 * skips), la1, p1, r2, d3)
             | Relocate \<Rightarrow> lfs_ctz_extend cfg traverse head len la1 (lfs_cache_drop p1) r2 d3
             | Failed e \<Rightarrow> Some (e, None, la1, p1, r2, d3)))"
      by (subst lfs_ctz_extend.simps) (simp add: al Some lfs_bd_erase_def er(1) ix noff_def skips_def Let_def cong: if_cong extend_result.case_cong)
    note retry = less.hyps[OF a(4,2,3)]
    consider (bad) "err2 \<noteq> 0" | (first) "err2 = 0" "len = 0" | (fill) "err2 = 0" "len \<noteq> 0" by blast
    then show ?thesis
    proof cases
      case bad
      then show ?thesis using retry[OF again(1) again(2)[OF kept2]] failures(3)[OF er(1)] unfolding unfold by (cases "err2 = LFS_ERR_CORRUPT") simp_all
    next
      case first
      have "prog_at p nblock 0" "undisturbed U d0 (r1, d2)" using less.prems(3) kept2
        by (simp_all add: prog_at_def pcache_ok_null kept_def undisturbed_def)
      then have "extended U d0 bs len nblock 0 p r1 d2"
        using first assms(4) a(5,6) by (simp add: extended_def ctz_file_def ctz_header_def)
      then show ?thesis using first unfolding unfold by simp
    next
      case fill
      have n: "length bs = Suc (unat index)" using fill(2) assms(4) ix by simp
      then have "bs \<noteq> []" by auto
      then have h: "head = last bs" by (rule assms(5))
      from fill_block[OF assms(1) a(5,6) assms(2,3) fill(2) ix n less.prems(3) kept2 noff_def skips_def] obtain res p1 r2 d3 where
        f: "(if noff \<noteq> block_size cfg then ctz_copy_loop cfg nblock (last bs) noff 0 p r1 d2
          else ctz_pointer_loop cfg nblock skips 0 (last bs) p r1 d2) = Some (res, p1, r2, d3)"
        "case res of Extended \<Rightarrow> extended U d0 bs len nblock (if noff \<noteq> block_size cfg then noff else 4 * skips) p1 r2 d3
          | Relocate \<Rightarrow> kept U d0 p1 r2 d3 | Failed e \<Rightarrow> failure cfg e" by blast
      have step: "lfs_ctz_extend cfg traverse head len la p r d = (case res of
          Extended \<Rightarrow> Some (0, Some (nblock, if noff \<noteq> block_size cfg then noff else 4 * skips), la1, p1, r2, d3)
        | Relocate \<Rightarrow> lfs_ctz_extend cfg traverse head len la1 (lfs_cache_drop p1) r2 d3
        | Failed e \<Rightarrow> Some (e, None, la1, p1, r2, d3))"
        unfolding unfold f(1)[folded h] using fill by simp
      show ?thesis
      proof (cases res)
        case Relocate
        then show ?thesis using f(2) retry[OF again(1) again(2), of p1 r2 d3] unfolding step by simp
      qed (unfold step, use f(2) in simp_all)
    qed
  qed
qed

end

end
