(* ===== verification/Lfs_Tags.thy ===== *)
theory Lfs_Tags
  imports Lfs_Bd
begin

text \<open>
  The small types of littlefs (\<^verbatim>\<open>warp/wem/littlefs/lfs.c\<close>, small type-level utilities): pairs of
  blocks, the tags of the metadata entries, the global state, the list of open files and the version on the disk.
\<close>

section \<open>Pairs of blocks\<close>

type_synonym pair = "u32 \<times> u32"

definition lfs_pair_swap :: "pair \<Rightarrow> pair" where "lfs_pair_swap p = (snd p, fst p)"

definition lfs_pair_isnull :: "pair \<Rightarrow> bool" where
  "lfs_pair_isnull p \<longleftrightarrow> fst p = LFS_BLOCK_NULL \<or> snd p = LFS_BLOCK_NULL"

definition lfs_pair_cmp :: "pair \<Rightarrow> pair \<Rightarrow> int" where
  "lfs_pair_cmp a b = of_bool (\<not> (fst a = fst b \<or> snd a = snd b \<or> fst a = snd b \<or> snd a = fst b))"

definition lfs_pair_issync :: "pair \<Rightarrow> pair \<Rightarrow> bool" where
  "lfs_pair_issync a b \<longleftrightarrow> fst a = fst b \<and> snd a = snd b \<or> fst a = snd b \<and> snd a = fst b"

definition lfs_pair_fromle32 :: "pair \<Rightarrow> pair" where "lfs_pair_fromle32 p = (lfs_fromle32 (fst p), lfs_fromle32 (snd p))"
definition lfs_pair_tole32 :: "pair \<Rightarrow> pair" where "lfs_pair_tole32 p = (lfs_tole32 (fst p), lfs_tole32 (snd p))"

section \<open>Tags\<close>

definition LFS_MKTAG :: "u32 \<Rightarrow> u32 \<Rightarrow> u32 \<Rightarrow> u32" where
  "LFS_MKTAG typ i n = push_bit 20 typ OR push_bit 10 i OR n"

definition LFS_FROM_NOOP :: u32 where "LFS_FROM_NOOP = 0"
definition LFS_TYPE_SPLICE :: u32 where "LFS_TYPE_SPLICE = 0x400"
definition LFS_TYPE_CREATE :: u32 where "LFS_TYPE_CREATE = 0x401"
definition LFS_TYPE_DELETE :: u32 where "LFS_TYPE_DELETE = 0x4FF"

definition LFS_MKTAG_IF :: "bool \<Rightarrow> u32 \<Rightarrow> u32 \<Rightarrow> u32 \<Rightarrow> u32" where
  "LFS_MKTAG_IF c typ i n = (if c then LFS_MKTAG typ i n else LFS_MKTAG LFS_FROM_NOOP 0 0)"

definition LFS_MKTAG_IF_ELSE :: "bool \<Rightarrow> u32 \<Rightarrow> u32 \<Rightarrow> u32 \<Rightarrow> u32 \<Rightarrow> u32 \<Rightarrow> u32 \<Rightarrow> u32" where
  "LFS_MKTAG_IF_ELSE c typ1 i1 n1 typ2 i2 n2 = (if c then LFS_MKTAG typ1 i1 n1 else LFS_MKTAG typ2 i2 n2)"

definition lfs_tag_isvalid :: "u32 \<Rightarrow> bool" where "lfs_tag_isvalid t \<longleftrightarrow> t AND 0x80000000 = 0"
definition lfs_tag_isdelete :: "u32 \<Rightarrow> bool" where "lfs_tag_isdelete t \<longleftrightarrow> signed_drop_bit 22 (push_bit 22 t) = - 1"
definition lfs_tag_type1 :: "u32 \<Rightarrow> u16" where "lfs_tag_type1 t = ucast (drop_bit 20 (t AND 0x70000000))"
definition lfs_tag_type2 :: "u32 \<Rightarrow> u16" where "lfs_tag_type2 t = ucast (drop_bit 20 (t AND 0x78000000))"
definition lfs_tag_type3 :: "u32 \<Rightarrow> u16" where "lfs_tag_type3 t = ucast (drop_bit 20 (t AND 0x7FF00000))"
definition lfs_tag_chunk :: "u32 \<Rightarrow> u8" where "lfs_tag_chunk t = ucast (drop_bit 20 (t AND 0x0FF00000))"
definition lfs_tag_splice :: "u32 \<Rightarrow> int" where "lfs_tag_splice t = sint (lfs_tag_chunk t)"
definition lfs_tag_id :: "u32 \<Rightarrow> u16" where "lfs_tag_id t = ucast (drop_bit 10 (t AND 0xFFC00))"
definition lfs_tag_size :: "u32 \<Rightarrow> u32" where "lfs_tag_size t = t AND 0x3FF"
definition lfs_tag_dsize :: "u32 \<Rightarrow> u32" where "lfs_tag_dsize t = 4 + lfs_tag_size (t + of_bool (lfs_tag_isdelete t))"

section \<open>Global state\<close>

record lfs_gstate =
  gs_tag :: u32
  gs_pair :: pair

definition lfs_gstate_xor :: "lfs_gstate \<Rightarrow> lfs_gstate \<Rightarrow> lfs_gstate" where
  "lfs_gstate_xor a b = \<lparr> gs_tag = gs_tag a XOR gs_tag b,
     gs_pair = (fst (gs_pair a) XOR fst (gs_pair b), snd (gs_pair a) XOR snd (gs_pair b)) \<rparr>"

definition lfs_gstate_iszero :: "lfs_gstate \<Rightarrow> bool" where
  "lfs_gstate_iszero a \<longleftrightarrow> \<not> (gs_tag a \<noteq> 0 \<or> fst (gs_pair a) \<noteq> 0 \<or> snd (gs_pair a) \<noteq> 0)"

definition lfs_gstate_hasorphans :: "lfs_gstate \<Rightarrow> bool" where "lfs_gstate_hasorphans a \<longleftrightarrow> lfs_tag_size (gs_tag a) \<noteq> 0"
definition lfs_gstate_getorphans :: "lfs_gstate \<Rightarrow> u8" where "lfs_gstate_getorphans a = ucast (lfs_tag_size (gs_tag a) AND 0x1FF)"
definition lfs_gstate_hasmove :: "lfs_gstate \<Rightarrow> bool" where "lfs_gstate_hasmove a \<longleftrightarrow> lfs_tag_type1 (gs_tag a) \<noteq> 0"
definition lfs_gstate_needssuperblock :: "lfs_gstate \<Rightarrow> bool" where
  "lfs_gstate_needssuperblock a \<longleftrightarrow> drop_bit 9 (lfs_tag_size (gs_tag a)) \<noteq> 0"

definition lfs_gstate_hasmovehere :: "lfs_gstate \<Rightarrow> pair \<Rightarrow> bool" where
  "lfs_gstate_hasmovehere a p \<longleftrightarrow> lfs_tag_type1 (gs_tag a) \<noteq> 0 \<and> lfs_pair_cmp (gs_pair a) p = 0"

definition lfs_gstate_fromle32 :: "lfs_gstate \<Rightarrow> lfs_gstate" where
  "lfs_gstate_fromle32 a = \<lparr> gs_tag = lfs_fromle32 (gs_tag a), gs_pair = lfs_pair_fromle32 (gs_pair a) \<rparr>"
definition lfs_gstate_tole32 :: "lfs_gstate \<Rightarrow> lfs_gstate" where
  "lfs_gstate_tole32 a = \<lparr> gs_tag = lfs_tole32 (gs_tag a), gs_pair = lfs_pair_tole32 (gs_pair a) \<rparr>"

section \<open>Byte orders of other records\<close>

record lfs_fcrc =
  fcrc_size :: u32
  fcrc_crc :: u32

definition lfs_fcrc_fromle32 :: "lfs_fcrc \<Rightarrow> lfs_fcrc" where
  "lfs_fcrc_fromle32 f = \<lparr> fcrc_size = lfs_fromle32 (fcrc_size f), fcrc_crc = lfs_fromle32 (fcrc_crc f) \<rparr>"
definition lfs_fcrc_tole32 :: "lfs_fcrc \<Rightarrow> lfs_fcrc" where
  "lfs_fcrc_tole32 f = \<lparr> fcrc_size = lfs_tole32 (fcrc_size f), fcrc_crc = lfs_tole32 (fcrc_crc f) \<rparr>"

record lfs_ctz_head =
  ctz_head :: u32
  ctz_size :: u32

definition lfs_ctz_fromle32 :: "lfs_ctz_head \<Rightarrow> lfs_ctz_head" where
  "lfs_ctz_fromle32 c = \<lparr> ctz_head = lfs_fromle32 (ctz_head c), ctz_size = lfs_fromle32 (ctz_size c) \<rparr>"
definition lfs_ctz_tole32 :: "lfs_ctz_head \<Rightarrow> lfs_ctz_head" where
  "lfs_ctz_tole32 c = \<lparr> ctz_head = lfs_tole32 (ctz_head c), ctz_size = lfs_tole32 (ctz_size c) \<rparr>"

record lfs_superblock =
  sb_version :: u32
  sb_block_size :: u32
  sb_block_count :: u32
  sb_name_max :: u32
  sb_file_max :: u32
  sb_attr_max :: u32

definition lfs_superblock_fromle32 :: "lfs_superblock \<Rightarrow> lfs_superblock" where
  "lfs_superblock_fromle32 s = \<lparr> sb_version = lfs_fromle32 (sb_version s), sb_block_size = lfs_fromle32 (sb_block_size s),
     sb_block_count = lfs_fromle32 (sb_block_count s), sb_name_max = lfs_fromle32 (sb_name_max s),
     sb_file_max = lfs_fromle32 (sb_file_max s), sb_attr_max = lfs_fromle32 (sb_attr_max s) \<rparr>"
definition lfs_superblock_tole32 :: "lfs_superblock \<Rightarrow> lfs_superblock" where
  "lfs_superblock_tole32 s = \<lparr> sb_version = lfs_tole32 (sb_version s), sb_block_size = lfs_tole32 (sb_block_size s),
     sb_block_count = lfs_tole32 (sb_block_count s), sb_name_max = lfs_tole32 (sb_name_max s),
     sb_file_max = lfs_tole32 (sb_file_max s), sb_attr_max = lfs_tole32 (sb_attr_max s) \<rparr>"

section \<open>Open files and version\<close>

text \<open>The list of open files, as the addresses of its nodes.\<close>

definition lfs_mlist_remove :: "'n list \<Rightarrow> 'n \<Rightarrow> 'n list" where "lfs_mlist_remove mlist n = remove1 n mlist"
definition lfs_mlist_append :: "'n list \<Rightarrow> 'n \<Rightarrow> 'n list" where "lfs_mlist_append mlist n = n # mlist"

definition LFS_DISK_VERSION :: u32 where "LFS_DISK_VERSION = 0x00020001"

text \<open>The configured version of the disk is zero when none is set.\<close>

definition lfs_fs_disk_version :: "u32 \<Rightarrow> u32" where
  "lfs_fs_disk_version disk_version = (if disk_version \<noteq> 0 then disk_version else LFS_DISK_VERSION)"
definition lfs_fs_disk_version_major :: "u32 \<Rightarrow> u16" where
  "lfs_fs_disk_version_major v = ucast (0xFFFF AND drop_bit 16 (lfs_fs_disk_version v))"
definition lfs_fs_disk_version_minor :: "u32 \<Rightarrow> u16" where
  "lfs_fs_disk_version_minor v = ucast (0xFFFF AND lfs_fs_disk_version v)"

section \<open>What they do\<close>

lemma masks: "(0x3FF :: u32) = mask 10" "(0xFFC00 :: u32) = push_bit 10 (mask 10)" "(0x7FF00000 :: u32) = push_bit 20 (mask 11)"
  "(0x0FF00000 :: u32) = push_bit 20 (mask 8)" "(0x1FF :: u32) = mask 9"
  by (simp_all add: mask_numeral)

lemma lfs_tag_size_less: "unat (lfs_tag_size t) < 1024"
  using word_and_le1[of t "0x3FF"] by (simp add: lfs_tag_size_def word_le_nat_alt)

lemma isvalid_iff: "lfs_tag_isvalid t \<longleftrightarrow> \<not> bit t 31"
  using and_exp_eq_0_iff_not_bit[of t 31] by (simp add: lfs_tag_isvalid_def)

lemma small_bits: "unat (w :: u32) < 2 ^ n \<Longrightarrow> bit w k \<Longrightarrow> k < n"
proof (rule ccontr)
  assume w: "unat w < 2 ^ n" "bit w k" and "\<not> k < n"
  then have "bit (unat w) k" by (simp add: bit_unsigned_iff)
  then have "2 ^ k \<le> unat w" by (metis bit_iff_odd div_less even_zero not_le)
  moreover have "(2 :: nat) ^ n \<le> 2 ^ k" using \<open>\<not> k < n\<close> by (intro power_increasing) simp_all
  ultimately show False using w(1) by simp
qed

text \<open>A tag keeps its three parts, and is a deletion when all bits of its size are set.\<close>

lemma mktag_bit:
  assumes "unat typ < 2 ^ 11" "unat i < 2 ^ 10" "unat n < 2 ^ 10"
  shows "bit (LFS_MKTAG typ i n) k \<longleftrightarrow>
    (if k < 10 then bit n k else if k < 20 then bit i (k - 10) else k < 31 \<and> bit typ (k - 20))"
  using small_bits[OF assms(1), of "k - 20"] small_bits[OF assms(2), of "k - 10"] small_bits[OF assms(3), of k]
  by (auto simp: LFS_MKTAG_def bit_simps)

lemma mktag_parts:
  assumes "unat typ < 2 ^ 11" "unat i < 2 ^ 10" "unat n < 2 ^ 10"
  shows "lfs_tag_type3 (LFS_MKTAG typ i n) = ucast typ" "lfs_tag_id (LFS_MKTAG typ i n) = ucast i"
    "lfs_tag_size (LFS_MKTAG typ i n) = n" "lfs_tag_isvalid (LFS_MKTAG typ i n)"
proof -
  note b = mktag_bit[OF assms]
  show "lfs_tag_type3 (LFS_MKTAG typ i n) = ucast typ"
    unfolding lfs_tag_type3_def masks by (rule bit_eqI) (auto simp: bit_simps b dest: small_bits[OF assms(1)])
  show "lfs_tag_id (LFS_MKTAG typ i n) = ucast i"
    unfolding lfs_tag_id_def masks by (rule bit_eqI) (auto simp: bit_simps b dest: small_bits[OF assms(2)])
  show "lfs_tag_size (LFS_MKTAG typ i n) = n"
    unfolding lfs_tag_size_def masks by (rule bit_eqI) (auto simp: bit_simps b dest: small_bits[OF assms(3)])
  show "lfs_tag_isvalid (LFS_MKTAG typ i n)" by (simp add: isvalid_iff b)
qed

lemma isdelete_iff: "lfs_tag_isdelete t \<longleftrightarrow> lfs_tag_size t = 0x3FF"
proof -
  have "lfs_tag_isdelete t \<longleftrightarrow> (\<forall>k < 10. bit t k)"
  proof
    assume d: "lfs_tag_isdelete t"
    show "\<forall>k < 10. bit t k"
    proof (intro allI impI)
      fix k :: nat
      assume "k < 10"
      moreover have "bit (signed_drop_bit 22 (push_bit 22 t) :: u32) k" using d \<open>k < 10\<close> by (simp add: lfs_tag_isdelete_def bit_simps)
      ultimately show "bit t k" by (auto simp: bit_simps split: if_splits)
    qed
  next
    assume "\<forall>k < 10. bit t k"
    then have "signed_drop_bit 22 (push_bit 22 t) = (- 1 :: u32)" by (intro bit_eqI) (auto simp: bit_simps)
    then show "lfs_tag_isdelete t" by (simp add: lfs_tag_isdelete_def)
  qed
  also have "\<dots> \<longleftrightarrow> lfs_tag_size t = 0x3FF"
  proof
    assume "\<forall>k < 10. bit t k"
    then show "lfs_tag_size t = 0x3FF" unfolding lfs_tag_size_def masks by (intro bit_eqI) (auto simp: bit_simps)
  next
    assume eq: "lfs_tag_size t = 0x3FF"
    have "bit (t AND mask 10) k" if "k < 10" for k
      using eq that unfolding lfs_tag_size_def masks by (simp add: bit_simps)
    then show "\<forall>k < 10. bit t k" by (simp add: bit_simps)
  qed
  finally show ?thesis .
qed

lemma unat_tag_size: "unat (lfs_tag_size t) = unat t mod 1024"
proof -
  have "lfs_tag_size t = take_bit 10 t" unfolding lfs_tag_size_def masks take_bit_eq_mask ..
  then have "unat (lfs_tag_size t) = take_bit 10 (unat t)" by (simp only: unsigned_take_bit_eq)
  also have "\<dots> = unat t mod 2 ^ 10" by (rule take_bit_eq_mod)
  finally show ?thesis by simp
qed

lemma lfs_tag_dsize: "lfs_tag_dsize t = (if lfs_tag_size t = 0x3FF then 4 else 4 + lfs_tag_size t)"
proof (cases "lfs_tag_size t = 0x3FF")
  case True
  have "unat (t + 1) mod 1024 = (unat t + 1) mod 1024" by (simp add: unat_word_ariths mod_mod_cancel)
  also have "\<dots> = 0" using arg_cong[OF True, of unat] unfolding unat_tag_size by (simp add: mod_Suc)
  finally have "lfs_tag_size (t + 1) = 0" using unat_tag_size[of "t + 1"] by (simp add: word_unat_eq_iff)
  then show ?thesis using True by (simp add: lfs_tag_dsize_def isdelete_iff)
next
  case False
  then show ?thesis by (simp add: lfs_tag_dsize_def isdelete_iff)
qed

text \<open>Two pairs are compared without their order, and as equal when they have a block in common.\<close>

lemma lfs_pair_cmp_iff: "lfs_pair_cmp a b = 0 \<longleftrightarrow> {fst a, snd a} \<inter> {fst b, snd b} \<noteq> {}"
  by (auto simp: lfs_pair_cmp_def)

lemma lfs_pair_issync_iff: "lfs_pair_issync a b \<longleftrightarrow> b = a \<or> b = lfs_pair_swap a"
  by (auto simp: lfs_pair_issync_def lfs_pair_swap_def prod_eq_iff)

text \<open>A change of the global state is undone by the same change.\<close>

lemma lfs_gstate_xor_undo: "lfs_gstate_xor (lfs_gstate_xor a b) b = a"
  by (cases a) (simp add: lfs_gstate_xor_def xor.assoc)

lemma xor_zero: "a XOR b = 0 \<longleftrightarrow> a = (b :: u32)"
  by (auto simp: bit_eq_iff bit_simps)

lemma lfs_gstate_iszero_xor: "lfs_gstate_iszero (lfs_gstate_xor a b) \<longleftrightarrow> a = b"
  by (cases a; cases b) (auto simp: lfs_gstate_xor_def lfs_gstate_iszero_def prod_eq_iff xor_zero)

end
