(* ===== verification/Lfs_Dir.thy ===== *)
theory Lfs_Dir
  imports Lfs_Ctz Lfs_Tags Lfs_Frame
begin

text \<open>
  Looking up an entry in the log of a metadata pair of littlefs (\<^verbatim>\<open>warp/wem/littlefs/lfs.c\<close>,
  metadata pair and directory operations). The log is read backwards from its last tag; each tag is stored as its
  difference from the one before.
\<close>

section \<open>Operations\<close>

definition LFS_ERR_NOENT :: int where "LFS_ERR_NOENT = - 2"

record lfs_mdir =
  md_pair :: pair
  md_rev :: u32
  md_off :: u32
  md_etag :: u32
  md_count :: u16
  md_erased :: bool
  md_split :: bool
  md_tail :: pair

text \<open>The result is the tag, or an error, and what has been written to the buffer.\<close>

partial_function (option) getslice_loop ::
  "'d lfs_config \<Rightarrow> u32 \<Rightarrow> u32 \<Rightarrow> u32 \<Rightarrow> u32 \<Rightarrow> u32 \<Rightarrow> u32 \<Rightarrow> u32 \<Rightarrow> u32 \<Rightarrow> lfs_cache \<Rightarrow> 'd \<Rightarrow>
   (int \<times> u8 list option \<times> lfs_cache \<times> 'd) option" where
  "getslice_loop cfg block gmask gtag goff gsize off ntag gdiff rcache d =
     (if 4 + lfs_tag_dsize ntag \<le> off then do {
        let off1 = off - lfs_tag_dsize ntag;
        let tag = ntag;
        (err, bytes, rcache1, d1) \<leftarrow> lfs_bd_read cfg None 4 block off1 4 rcache d;
        if err \<noteq> 0 then Some (err, None, rcache1, d1)
        else do {
          let ntag1 = (lfs_frombe32 (word_at bytes 0) XOR tag) AND 0x7FFFFFFF;
          let splice = (lfs_tag_id gmask \<noteq> 0 \<and> lfs_tag_type1 tag = ucast LFS_TYPE_SPLICE \<and>
            lfs_tag_id tag \<le> lfs_tag_id (gtag - gdiff));
          if splice \<and> tag = LFS_MKTAG LFS_TYPE_CREATE 0 0 OR (LFS_MKTAG 0 0x3FF 0 AND (gtag - gdiff))
          then Some (LFS_ERR_NOENT, None, rcache1, d1)
          else do {
            let gdiff1 = (if splice then gdiff + LFS_MKTAG 0 (of_int (lfs_tag_splice tag)) 0 else gdiff);
            if gmask AND tag = gmask AND (gtag - gdiff1) then
              if lfs_tag_isdelete tag then Some (LFS_ERR_NOENT, None, rcache1, d1)
              else do {
                let diff = lfs_min (lfs_tag_size tag) gsize;
                (err, data, rcache2, d2) \<leftarrow> lfs_bd_read cfg None diff block (off1 + 4 + goff) diff rcache1 d1;
                if err \<noteq> 0 then Some (err, None, rcache2, d2)
                else Some (sint (tag + gdiff1), Some (data @ replicate (unat (gsize - diff)) 0), rcache2, d2)
              }
            else getslice_loop cfg block gmask gtag goff gsize off1 ntag1 gdiff1 rcache1 d1
          }
        }
      }
      else Some (LFS_ERR_NOENT, None, rcache, d))"

definition lfs_dir_getslice ::
  "'d lfs_config \<Rightarrow> lfs_gstate \<Rightarrow> lfs_mdir \<Rightarrow> u32 \<Rightarrow> u32 \<Rightarrow> u32 \<Rightarrow> u32 \<Rightarrow> lfs_cache \<Rightarrow> 'd \<Rightarrow>
   (int \<times> u8 list option \<times> lfs_cache \<times> 'd) option" where
  "lfs_dir_getslice cfg gdisk dir gmask gtag goff gsize rcache d =
     (let moved = lfs_gstate_hasmovehere gdisk (md_pair dir) \<and> lfs_tag_id gmask \<noteq> 0 in
      if moved \<and> lfs_tag_id (gs_tag gdisk) = lfs_tag_id gtag then Some (LFS_ERR_NOENT, None, rcache, d)
      else getslice_loop cfg (fst (md_pair dir)) gmask gtag goff gsize (md_off dir) (md_etag dir)
        (if moved \<and> lfs_tag_id (gs_tag gdisk) < lfs_tag_id gtag then 0 - LFS_MKTAG 0 1 0 else 0) rcache d)"

definition lfs_dir_get ::
  "'d lfs_config \<Rightarrow> lfs_gstate \<Rightarrow> lfs_mdir \<Rightarrow> u32 \<Rightarrow> u32 \<Rightarrow> lfs_cache \<Rightarrow> 'd \<Rightarrow> (int \<times> u8 list option \<times> lfs_cache \<times> 'd) option" where
  "lfs_dir_get cfg gdisk dir gmask gtag rcache d = lfs_dir_getslice cfg gdisk dir gmask gtag 0 (lfs_tag_size gtag) rcache d"

section \<open>The log\<close>

text \<open>The entries as a list of tags with their data, and the bytes that stand for them.\<close>

definition be32_word :: "u32 \<Rightarrow> u8 list" where "be32_word w = rev (le32 w)"

fun log_bytes :: "u32 \<Rightarrow> (u32 \<times> u8 list) list \<Rightarrow> u8 list" where
  "log_bytes prev [] = []"
| "log_bytes prev ((tag, data) # es) = be32_word (tag XOR prev) @ data @ log_bytes tag es"

definition last_tag :: "u32 \<Rightarrow> (u32 \<times> u8 list) list \<Rightarrow> u32" where
  "last_tag prev es = (if es = [] then prev else fst (last es))"

definition log_ok :: "(u32 \<times> u8 list) list \<Rightarrow> bool" where
  "log_ok es \<longleftrightarrow> (\<forall>(tag, data) \<in> set es. lfs_tag_isvalid tag \<and> unat (lfs_tag_dsize tag) = 4 + length data)"

text \<open>The newest entry that matches.\<close>

definition newest :: "u32 \<Rightarrow> u32 \<Rightarrow> (u32 \<times> u8 list) list \<Rightarrow> (u32 \<times> u8 list) option" where
  "newest gmask gtag es = List.find (\<lambda>(tag, data). gmask AND tag = gmask AND gtag) (rev es)"

lemma log_bytes_append: "log_bytes prev (es @ fs) = log_bytes prev es @ log_bytes (last_tag prev es) fs"
  by (induction prev es rule: log_bytes.induct) (auto simp: last_tag_def)

lemma be32_word_value: "lfs_frombe32 (word_at (be32_word w) 0) = w"
proof -
  have "word_at (be32_word w) 0 = un_le32 (ucast (drop_bit 24 w)) (ucast (drop_bit 16 w)) (ucast (drop_bit 8 w)) (ucast w)"
    by (simp add: word_at_def be32_word_def le32_def numeral_2_eq_2 numeral_3_eq_3)
  moreover have "lfs_frombe32 (un_le32 (ucast (drop_bit 24 w)) (ucast (drop_bit 16 w)) (ucast (drop_bit 8 w)) (ucast w)) = w"
  proof -
    have m: "(0xFF :: u32) = mask 8" "(0xFF00 :: u32) = push_bit 8 (mask 8)" by (simp_all add: mask_numeral)
    show ?thesis unfolding lfs_frombe32_def un_le32_def m
    proof (rule bit_word_eqI, goal_cases)
      case (1 k)
      then consider "k < 8" | "8 \<le> k" "k < 16" | "16 \<le> k" "k < 24" | "24 \<le> k" "k < 32" by fastforce
      then show ?case by cases (auto simp: bit_simps)
    qed
  qed
  ultimately show ?thesis by simp
qed

lemma length_be32_word [simp]: "length (be32_word w) = 4"
  by (simp add: be32_word_def)

lemma isvalid_mask: "lfs_tag_isvalid t \<longleftrightarrow> t AND 0x7FFFFFFF = t"
proof -
  have m: "(0x7FFFFFFF :: u32) = mask 31" by (simp add: mask_numeral)
  have "t AND mask 31 = t \<longleftrightarrow> \<not> bit t 31"
  proof
    assume "t AND mask 31 = t"
    then have "bit t 31 = bit (t AND mask 31) 31" by simp
    then show "\<not> bit t 31" by (simp add: bit_simps)
  next
    assume "\<not> bit t 31"
    then have "bit t k \<Longrightarrow> k < 31" for k using bit_imp_le_length[of t k] by (cases "k = 31") auto
    then show "t AND mask 31 = t" by (intro bit_eqI) (auto simp: bit_simps)
  qed
  then show ?thesis unfolding m isvalid_iff by simp
qed

lemma last_tag_snoc [simp]: "last_tag prev (es @ [e]) = fst e"
  by (simp add: last_tag_def)

lemma newest_snoc:
  "newest gmask gtag (es @ [(tag, data)]) = (if gmask AND tag = gmask AND gtag then Some (tag, data) else newest gmask gtag es)"
  by (simp add: newest_def)

text \<open>The result of a lookup of at most gsize bytes.\<close>

definition lookup_result :: "u32 \<Rightarrow> (u32 \<times> u8 list) option \<Rightarrow> int \<Rightarrow> u8 list option \<Rightarrow> bool" where
  "lookup_result gsize found res buf \<longleftrightarrow> (case found of
       None \<Rightarrow> res = LFS_ERR_NOENT \<and> buf = None
     | Some (tag, data) \<Rightarrow>
         if lfs_tag_isdelete tag then res = LFS_ERR_NOENT \<and> buf = None
         else res = sint tag \<and> buf = Some (take (unat gsize) data @ replicate (unat gsize - length data) 0))"

context block_device begin

lemma lfs_bd_read_exact:
  assumes "unat off + unat len \<le> unat (block_size cfg)" "block < block_count cfg" "rcache_ok d r" "window_ok pcache"
  shows "\<exists>err data r1 d1. lfs_bd_read cfg pcache len block off len r d = Some (err, data, r1, d1) \<and>
    contents d1 = contents d \<and> usable d1 r1 \<and> err \<le> 0 \<and> (err = 0 \<or> device_error cfg err) \<and>
    (err = 0 \<longrightarrow> data = segment (unat off) (unat len) (view pcache d block) \<and> rcache_ok d1 r1)"
proof (cases "len = 0")
  case True
  then have "lfs_bd_read cfg pcache len block off len r d = Some (0, [], r, d)"
    using assms(1,2) by (subst lfs_bd_read_def, subst read_loop.simps) (simp add: word_le_nat_alt word_less_nat_alt not_le not_less)
  then show ?thesis using assms(3) rcache_ok_usable True by simp
next
  case False
  then have "0 < unat len" "unat len \<le> unat (block_size cfg)" using assms(1) by (simp_all add: unat_gt_0)
  then show ?thesis using lfs_bd_read_ok[OF assms(1,2) _ _ assms(3,4)] read_inside_error[OF _ _ assms(1,2)] by blast
qed

lemma getslice_loop_ok:
  assumes "block < block_count cfg" "log_ok es" "\<forall>(tag, data) \<in> set es. lfs_tag_id gmask = 0 \<or> lfs_tag_type1 tag \<noteq> ucast LFS_TYPE_SPLICE"
    and "4 + length (log_bytes 0xFFFFFFFF es) \<le> unat (block_size cfg)"
    "segment 4 (length (log_bytes 0xFFFFFFFF es)) (contents d block) = log_bytes 0xFFFFFFFF es"
    "unat off = 4 + length (log_bytes 0xFFFFFFFF es)" "ntag = last_tag 0xFFFFFFFF es AND 0x7FFFFFFF" "rcache_ok d r"
  shows "\<exists>res buf r1 d1. getslice_loop cfg block gmask gtag 0 gsize off ntag 0 r d = Some (res, buf, r1, d1) \<and>
    contents d1 = contents d \<and> usable d1 r1 \<and>
    (rcache_ok d1 r1 \<and> lookup_result gsize (newest gmask gtag es) res buf \<or> device_error cfg res \<and> buf = None)"
  using assms(2-8)
proof (induction es arbitrary: off ntag r d rule: rev_induct)
  case Nil
  have n: "ntag = 0x7FFFFFFF" using Nil(6) by (simp add: last_tag_def)
  have "lfs_tag_dsize 0x7FFFFFFF = 4" by (simp add: lfs_tag_dsize lfs_tag_size_def)
  then have "\<not> 4 + lfs_tag_dsize ntag \<le> off" using Nil(5) by (simp add: n word_le_nat_alt)
  then show ?case using Nil(7) rcache_ok_usable
    by (subst getslice_loop.simps) (simp add: lookup_result_def newest_def LFS_ERR_NOENT_def)
next
  case (snoc e es)
  obtain tag data where e: "e = (tag, data)" by (cases e)
  let ?p = "0xFFFFFFFF :: u32" and ?L = "length (log_bytes 0xFFFFFFFF es)"
  have "lfs_tag_isvalid tag" and ds: "unat (lfs_tag_dsize tag) = 4 + length data" and log: "log_ok es"
    using snoc.prems(1) by (auto simp: log_ok_def e)
  then have ntag: "ntag = tag" using snoc.prems(6) by (simp add: e isvalid_mask)
  let ?new = "be32_word (tag XOR last_tag ?p es) @ data"
  have bytes: "log_bytes ?p (es @ [e]) = log_bytes ?p es @ ?new" by (simp add: log_bytes_append e)
  have len: "length (log_bytes ?p (es @ [e])) = ?L + (4 + length data)" by (simp add: bytes)
  have room: "4 + ?L + 4 + length data \<le> unat (block_size cfg)" using snoc.prems(3) len by simp
  have off: "unat off = 4 + ?L + (4 + length data)" using snoc.prems(5) len by simp
  define off1 where "off1 = off - lfs_tag_dsize tag"
  have off1: "unat off1 = 4 + ?L" using off ds by (simp add: off1_def unat_sub_no_wrap)
  have "unat (4 + lfs_tag_dsize tag) = 4 + unat (lfs_tag_dsize tag)"
    using ds room size_facts(11) by (subst unat_add_small) simp_all
  then have more: "4 + lfs_tag_dsize ntag \<le> off" using off ds by (simp add: ntag word_le_nat_alt)
  have whole: "segment 4 (?L + (4 + length data)) (contents d block) = log_bytes ?p es @ ?new"
    using snoc.prems(4) len by (simp only: bytes)
  then have parts: "segment 4 ?L (contents d block) = log_bytes ?p es" "segment (4 + ?L) (4 + length data) (contents d block) = ?new"
    using room length_segment[of 4 ?L "contents d block"] by (simp_all add: segment_add[of 4 ?L] length_contents)
  then have words: "segment (4 + ?L) 4 (contents d block) = be32_word (tag XOR last_tag ?p es)"
    and payload: "segment (4 + ?L + 4) (length data) (contents d block) = data"
    using room length_segment[of "4 + ?L" 4 "contents d block"] by (simp_all add: segment_add[of "4 + ?L" 4] length_contents)
  have "unat off1 + unat (4 :: u32) \<le> unat (block_size cfg)" "0 < unat (4 :: u32)" "unat (4 :: u32) \<le> unat (block_size cfg)" "window_ok None"
    using off1 room by (simp_all add: window_ok_def)
  from lfs_bd_read_ok[OF this(1) assms(1) this(2,3) snoc.prems(7) this(4)] obtain err hdr r1 d1 where
    rd: "lfs_bd_read cfg None 4 block off1 4 r d = Some (err, hdr, r1, d1)"
    and ok: "contents d1 = contents d" "usable d1 r1" "err \<le> 0" "err = 0 \<Longrightarrow> hdr = be32_word (tag XOR last_tag ?p es) \<and> rcache_ok d1 r1"
    by (auto simp: off1 view_def words)
  have no_splice: "(lfs_tag_id gmask \<noteq> 0 \<and> lfs_tag_type1 tag = ucast LFS_TYPE_SPLICE \<and> lfs_tag_id tag \<le> lfs_tag_id (gtag - 0)) = False"
    using snoc.prems(2) by (auto simp: e)
  define ntag1 where "ntag1 = (lfs_frombe32 (word_at hdr 0) XOR tag) AND 0x7FFFFFFF"
  define diff where "diff = lfs_min (lfs_tag_size tag) gsize"
  have unfold: "getslice_loop cfg block gmask gtag 0 gsize off ntag 0 r d =
      (if err \<noteq> 0 then Some (err, None, r1, d1)
       else if gmask AND tag = gmask AND gtag then
         if lfs_tag_isdelete tag then Some (LFS_ERR_NOENT, None, r1, d1)
         else Option.bind (lfs_bd_read cfg None diff block (off1 + 4) diff r1 d1) (\<lambda>(err, data, r2, d2).
           if err \<noteq> 0 then Some (err, None, r2, d2)
           else Some (sint tag, Some (data @ replicate (unat (gsize - diff)) 0), r2, d2))
       else getslice_loop cfg block gmask gtag 0 gsize off1 ntag1 0 r1 d1)"
    unfolding ntag
    by (subst getslice_loop.simps, simp only: Let_def no_splice more[unfolded ntag] off1_def[symmetric] rd if_True if_False simp_thms)
      (simp add: ntag1_def diff_def cong: if_cong)
  show ?case
  proof (cases "err = 0")
    case False
    moreover have "device_error cfg err" using False room off1 by (intro read_inside_error[OF rd]) (simp_all add: assms(1))
    ultimately show ?thesis using ok unfolding unfold by auto
  next
    case err: True
    note hdr = ok(4)[OF err]
    show ?thesis
    proof (cases "gmask AND tag = gmask AND gtag")
      case match: True
      show ?thesis
      proof (cases "lfs_tag_isdelete tag")
        case True
        then show ?thesis using err match hdr ok(1,2) unfolding unfold e newest_snoc by (simp add: lookup_result_def)
      next
        case False
        then have "lfs_tag_dsize tag = 4 + lfs_tag_size tag" by (simp add: lfs_tag_dsize isdelete_iff)
        moreover have "unat (4 + lfs_tag_size tag) = 4 + unat (lfs_tag_size tag)"
          using lfs_tag_size_less[of tag] by (subst unat_add_small) simp_all
        ultimately have size: "unat (lfs_tag_size tag) = length data" using ds by simp
        have diff: "unat diff = min (length data) (unat gsize)" by (simp add: diff_def size)
        have "unat (gsize - diff) = unat gsize - unat diff" using diff by (simp add: unat_sub_no_wrap)
        then have rest: "unat (gsize - diff) = unat gsize - length data" using diff by simp
        have off4: "unat (off1 + 4) = 4 + ?L + 4" using off1 room size_facts(11) by (subst unat_add_small) simp_all
        have "segment (4 + ?L + 4) (unat diff) (contents d block) = segment 0 (unat diff) (segment (4 + ?L + 4) (length data) (contents d block))"
          using diff by (subst segment_segment) simp_all
        moreover have "take (min (length data) (unat gsize)) data = take (unat gsize) data" by (simp add: min_def)
        ultimately have seg: "segment (unat (off1 + 4)) (unat diff) (view None d1 block) = take (unat gsize) data"
          unfolding payload off4 view_def using diff ok(1) by (simp add: segment_take)
        have "unat (off1 + 4) + unat diff \<le> unat (block_size cfg)" "window_ok None" using off4 diff room by (simp_all add: window_ok_def)
        from lfs_bd_read_exact[OF this(1) assms(1) conjunct2[OF hdr] this(2)] obtain err2 got r2 d2 where
          rd2: "lfs_bd_read cfg None diff block (off1 + 4) diff r1 d1 = Some (err2, got, r2, d2)"
          "contents d2 = contents d1" "usable d2 r2" "err2 = 0 \<or> device_error cfg err2" "err2 = 0 \<Longrightarrow> got = take (unat gsize) data \<and> rcache_ok d2 r2"
          unfolding seg by blast
        then show ?thesis using err match False ok(1) rest unfolding unfold e newest_snoc by (auto simp: lookup_result_def)
      qed
    next
      case False
      have "ntag1 = last_tag ?p es AND 0x7FFFFFFF"
        using hdr be32_word_value by (simp add: ntag1_def xor.commute xor.left_commute xor.assoc)
      from snoc.IH[OF log _ _ _ off1 this conjunct2[OF hdr]] snoc.prems(2) room parts(1) ok(1) obtain res buf r2 d2 where
        "getslice_loop cfg block gmask gtag 0 gsize off1 ntag1 0 r1 d1 = Some (res, buf, r2, d2)" "contents d2 = contents d1" "usable d2 r2"
        "rcache_ok d2 r2 \<and> lookup_result gsize (newest gmask gtag es) res buf \<or> device_error cfg res \<and> buf = None" by auto
      then show ?thesis using err False ok(1) unfolding unfold e newest_snoc by auto
    qed
  qed
qed

end

end
