(* ===== verification/Lfs_Commit.thy ===== *)
theory Lfs_Commit
  imports Lfs_Dir
begin

text \<open>
  Writing entries to the log of a metadata pair of littlefs (\<^verbatim>\<open>warp/wem/littlefs/lfs.c\<close>, commit
  logic). The checksum entry that closes a commit is not modelled.
\<close>

section \<open>Operations\<close>

record lfs_commit =
  cm_block :: u32
  cm_off :: u32
  cm_ptag :: u32
  cm_crc :: u32
  cm_begin :: u32
  cm_end :: u32

text \<open>The data of an entry are in memory, or on the disk when the highest bit of the tag is set.\<close>

datatype attr_buffer = In_Memory "u8 list" | On_Disk u32 u32

definition lfs_dir_commitprog ::
  "'d lfs_config \<Rightarrow> lfs_commit \<Rightarrow> u8 list \<Rightarrow> lfs_cache \<Rightarrow> lfs_cache \<Rightarrow> 'd \<Rightarrow>
   (int \<times> lfs_commit \<times> lfs_cache \<times> lfs_cache \<times> 'd) option" where
  "lfs_dir_commitprog cfg commit buffer pcache rcache d = do {
     (err, pcache1, rcache1, d1) \<leftarrow> lfs_bd_prog cfg False (cm_block commit) (cm_off commit) buffer pcache rcache d;
     if err \<noteq> 0 then Some (err, commit, pcache1, rcache1, d1)
     else Some (0, commit \<lparr> cm_crc := lfs_crc (cm_crc commit) buffer, cm_off := cm_off commit + of_nat (length buffer) \<rparr>,
       pcache1, rcache1, d1)
   }"

partial_function (option) commit_disk_loop ::
  "'d lfs_config \<Rightarrow> u32 \<Rightarrow> u32 \<Rightarrow> u32 \<Rightarrow> u32 \<Rightarrow> lfs_commit \<Rightarrow> lfs_cache \<Rightarrow> lfs_cache \<Rightarrow> 'd \<Rightarrow>
   (int \<times> lfs_commit \<times> lfs_cache \<times> lfs_cache \<times> 'd) option" where
  "commit_disk_loop cfg block off n i commit pcache rcache d =
     (if i < n then do {
        (err, dat, rcache1, d1) \<leftarrow> lfs_bd_read cfg None (n - i) block (off + i) 1 rcache d;
        if err \<noteq> 0 then Some (err, commit, pcache, rcache1, d1)
        else do {
          (err, commit1, pcache1, rcache2, d2) \<leftarrow> lfs_dir_commitprog cfg commit dat pcache rcache1 d1;
          if err \<noteq> 0 then Some (err, commit1, pcache1, rcache2, d2)
          else commit_disk_loop cfg block off n (i + 1) commit1 pcache1 rcache2 d2
        }
      }
      else Some (0, commit, pcache, rcache, d))"

definition lfs_dir_commitattr ::
  "'d lfs_config \<Rightarrow> lfs_commit \<Rightarrow> u32 \<Rightarrow> attr_buffer \<Rightarrow> lfs_cache \<Rightarrow> lfs_cache \<Rightarrow> 'd \<Rightarrow>
   (int \<times> lfs_commit \<times> lfs_cache \<times> lfs_cache \<times> 'd) option" where
  "lfs_dir_commitattr cfg commit tag buffer pcache rcache d =
     (let dsize = lfs_tag_dsize tag in
      if cm_end commit < cm_off commit + dsize then Some (LFS_ERR_NOSPC, commit, pcache, rcache, d)
      else do {
        let ntag = lfs_tobe32 ((tag AND 0x7FFFFFFF) XOR cm_ptag commit);
        (err, commit1, pcache1, rcache1, d1) \<leftarrow> lfs_dir_commitprog cfg commit (le32 ntag) pcache rcache d;
        if err \<noteq> 0 then Some (err, commit1, pcache1, rcache1, d1)
        else do {
          (err, commit2, pcache2, rcache2, d2) \<leftarrow> (if tag AND 0x80000000 = 0 then
              (case buffer of
                 In_Memory bs \<Rightarrow> do {
                   bytes \<leftarrow> mem_get bs 0 (unat (dsize - 4));
                   lfs_dir_commitprog cfg commit1 bytes pcache1 rcache1 d1
                 }
               | On_Disk block off \<Rightarrow> None)
            else (case buffer of
                 In_Memory bs \<Rightarrow> None
               | On_Disk block off \<Rightarrow> commit_disk_loop cfg block off (dsize - 4) 0 commit1 pcache1 rcache1 d1));
          if err \<noteq> 0 then Some (err, commit2, pcache2, rcache2, d2)
          else Some (0, commit2 \<lparr> cm_ptag := tag AND 0x7FFFFFFF \<rparr>, pcache2, rcache2, d2)
        }
      })"

section \<open>Appending to the log\<close>

lemma be32_word_le32: "le32 (lfs_tobe32 w) = be32_word w"
proof -
  have m: "(0xFF :: u32) = mask 8" "(0xFF00 :: u32) = push_bit 8 (mask 8)" by (simp_all add: mask_numeral)
  have "ucast (drop_bit (8 * k) (lfs_tobe32 w)) = (ucast (drop_bit (24 - 8 * k) w) :: u8)" if "k < 4" for k
  proof -
    consider "k = 0" | "k = 1" | "k = 2" | "k = 3" using \<open>k < 4\<close> by linarith
    then show ?thesis unfolding lfs_tobe32_def lfs_frombe32_def m
      by cases (simp_all, (rule bit_eqI, auto simp: bit_simps dest: bit_imp_le_length)+)
  qed
  from this[of 0] this[of 1] this[of 2] this[of 3] show ?thesis by (simp add: be32_word_def le32_def)
qed

text \<open>A commit of several entries whose data are in memory.\<close>

fun commit_attrs ::
  "'d lfs_config \<Rightarrow> (u32 \<times> u8 list) list \<Rightarrow> lfs_commit \<Rightarrow> lfs_cache \<Rightarrow> lfs_cache \<Rightarrow> 'd \<Rightarrow>
   (int \<times> lfs_commit \<times> lfs_cache \<times> lfs_cache \<times> 'd) option" where
  "commit_attrs cfg [] commit p r d = Some (0, commit, p, r, d)"
| "commit_attrs cfg ((tag, data) # es) commit p r d = do {
     (err, commit1, p1, r1, d1) \<leftarrow> lfs_dir_commitattr cfg commit tag (In_Memory data) p r d;
     if err \<noteq> 0 then Some (err, commit1, p1, r1, d1) else commit_attrs cfg es commit1 p1 r1 d1
   }"

text \<open>A new log: the revision count, then the entries. When all is synchronised, a lookup finds the newest entry.\<close>

definition new_commit :: "u32 \<Rightarrow> u32 \<Rightarrow> lfs_commit" where
  "new_commit block end_off = \<lparr> cm_block = block, cm_off = 0, cm_ptag = 0xFFFFFFFF, cm_crc = 0xFFFFFFFF, cm_begin = 0, cm_end = end_off \<rparr>"

context block_device begin

text \<open>After some bytes of a commit: they are in the block as the caches show it, and the commit goes on behind them.\<close>

definition written :: "lfs_commit \<Rightarrow> lfs_cache \<Rightarrow> 'd \<Rightarrow> u8 list \<Rightarrow> lfs_commit \<Rightarrow> lfs_cache \<Rightarrow> lfs_cache \<Rightarrow> 'd \<Rightarrow> bool" where
  "written commit p d bytes commit1 p1 r1 d1 \<longleftrightarrow> usable d1 r1 \<and> cm_block commit1 = cm_block commit \<and>
     cm_end commit1 = cm_end commit \<and> unat (cm_off commit1) = unat (cm_off commit) + length bytes \<and>
     prog_at p1 (cm_block commit) (unat (cm_off commit) + length bytes) \<and> (bytes \<noteq> [] \<longrightarrow> c_block p1 = cm_block commit \<longrightarrow> 0 < c_size p1) \<and>
     view (Some p1) d1 (cm_block commit) = overlay (view (Some p) d (cm_block commit)) (unat (cm_off commit)) bytes"

lemma written_trans:
  assumes "written c p d xs c1 p1 r1 d1" "written c1 p1 d1 ys c2 p2 r2 d2" "ys \<noteq> []"
    "unat (cm_off c) + length xs + length ys \<le> unat (block_size cfg)" "window_ok (Some p)" "cm_block c \<noteq> LFS_BLOCK_NULL"
  shows "written c p d (xs @ ys) c2 p2 r2 d2"
proof -
  have "length (view (Some p) d (cm_block c)) = unat (block_size cfg)" by (rule length_view[OF assms(5,6)])
  then show ?thesis using assms(1-4) overlay_overlay[of "unat (cm_off c)" xs ys "view (Some p) d (cm_block c)"]
    by (simp add: written_def add.assoc)
qed

lemma lfs_dir_commitprog_ok:
  assumes "cm_block commit < block_count cfg" "prog_at p (cm_block commit) (unat (cm_off commit))" "usable d r"
    "unat (cm_off commit) + length bytes \<le> unat (block_size cfg)"
  shows "\<exists>err commit1 p1 r1 d1. lfs_dir_commitprog cfg commit bytes p r d = Some (err, commit1, p1, r1, d1) \<and> reported cfg err \<and>
    (err = 0 \<longrightarrow> written commit p d bytes commit1 p1 r1 d1 \<and> cm_ptag commit1 = cm_ptag commit \<and>
      cm_crc commit1 = lfs_crc (cm_crc commit) bytes)"
proof -
  from lfs_bd_prog_ok[OF assms, of False] obtain err p1 r1 d1 where
    pr: "lfs_bd_prog cfg False (cm_block commit) (cm_off commit) bytes p r d = Some (err, p1, r1, d1)"
    and ok: "programmed False (cm_block commit) (unat (cm_off commit)) bytes p r d (err, p1, r1, d1)" by auto
  have "unat (of_nat (length bytes) :: u32) = length bytes" using assms(4) size_facts(11) by (simp add: unat_of_nat)
  then have "unat (cm_off commit + of_nat (length bytes)) = unat (cm_off commit) + length bytes"
    using assms(4) size_facts(11) by (subst unat_add_small) simp_all
  then show ?thesis using pr ok lfs_bd_prog_frame(3)[OF pr]
    by (cases "err = 0") (auto simp: lfs_dir_commitprog_def programmed_def written_def)
qed

lemma written_window: "written c p d bytes c1 p1 r1 d1 \<Longrightarrow> window_ok (Some p1)"
  by (simp add: written_def prog_at_def window_ok_def)

lemma lfs_dir_commitattr_ok:
  assumes "cm_block commit < block_count cfg" "prog_at p (cm_block commit) (unat (cm_off commit))" "usable d r"
    "unat (cm_off commit) + 4 + length data \<le> unat (cm_end commit)" "unat (cm_end commit) \<le> unat (block_size cfg)"
    "lfs_tag_isvalid tag" "unat (lfs_tag_dsize tag) = 4 + length data"
  shows "\<exists>err commit1 p1 r1 d1. lfs_dir_commitattr cfg commit tag (In_Memory data) p r d = Some (err, commit1, p1, r1, d1) \<and> reported cfg err \<and>
    (err = 0 \<longrightarrow> written commit p d (be32_word (tag XOR cm_ptag commit) @ data) commit1 p1 r1 d1 \<and> cm_ptag commit1 = tag)"
proof -
  have tag: "tag AND 0x7FFFFFFF = tag" "tag AND 0x80000000 = 0"
    using assms(6) by (simp_all add: isvalid_mask[symmetric] lfs_tag_isvalid_def)
  let ?dsize = "lfs_tag_dsize tag" and ?w = "be32_word (tag XOR cm_ptag commit)"
  have "unat (cm_off commit + ?dsize) = unat (cm_off commit) + unat ?dsize"
    using assms(4,5,7) size_facts(11) by (intro unat_add_small) simp
  then have fits: "\<not> cm_end commit < cm_off commit + ?dsize" using assms(4,7) by (simp add: word_less_nat_alt)
  have "unat (?dsize - 4) = length data" using assms(7) by (subst unat_sub_no_wrap) (simp_all)
  then have get: "mem_get data 0 (unat (?dsize - 4)) = Some data" by (simp add: mem_get_def)
  have null: "cm_block commit \<noteq> LFS_BLOCK_NULL" by (rule block_not_null[OF assms(1)])
  have window: "window_ok (Some p)" using assms(2) by (simp add: window_ok_def prog_at_def)
  have room: "unat (cm_off commit) + length ?w \<le> unat (block_size cfg)" using assms(4,5) by simp
  from lfs_dir_commitprog_ok[OF assms(1-3) room] obtain err c1 p1 r1 d1 where
    1: "lfs_dir_commitprog cfg commit ?w p r d = Some (err, c1, p1, r1, d1)" "reported cfg err"
      "err = 0 \<Longrightarrow> written commit p d ?w c1 p1 r1 d1 \<and> cm_ptag c1 = cm_ptag commit" by blast
  have unfold: "lfs_dir_commitattr cfg commit tag (In_Memory data) p r d = (if err \<noteq> 0 then Some (err, c1, p1, r1, d1)
      else Option.bind (lfs_dir_commitprog cfg c1 data p1 r1 d1) (\<lambda>(err, c2, p2, r2, d2).
        if err \<noteq> 0 then Some (err, c2, p2, r2, d2) else Some (0, c2 \<lparr> cm_ptag := tag \<rparr>, p2, r2, d2)))"
    by (simp add: lfs_dir_commitattr_def Let_def fits be32_word_le32 tag 1(1) get cong: if_cong)
  show ?thesis
  proof (cases "err = 0")
    case False
    then show ?thesis using 1(2) unfolding unfold by simp
  next
    case True
    note w = conjunct1[OF 1(3)[OF True]]
    have "cm_block c1 < block_count cfg" "prog_at p1 (cm_block c1) (unat (cm_off c1))" "usable d1 r1"
      "unat (cm_off c1) + length data \<le> unat (block_size cfg)" using w assms(1,4,5) by (simp_all add: written_def)
    from lfs_dir_commitprog_ok[OF this] obtain err2 c2 p2 r2 d2 where
      2: "lfs_dir_commitprog cfg c1 data p1 r1 d1 = Some (err2, c2, p2, r2, d2)" "reported cfg err2"
        "err2 = 0 \<Longrightarrow> written c1 p1 d1 data c2 p2 r2 d2" by blast
    have "written commit p d (?w @ data) c2 p2 r2 d2" if e2: "err2 = 0"
    proof (cases "data = []")
      case True
      have "c_block p1 = cm_block commit \<longrightarrow> 0 < c_size p1" using w by (auto simp: written_def be32_word_def le32_def)
      then show ?thesis using w 2(3)[OF e2] True 2(1) e2 unfolding written_def lfs_dir_commitprog_def
        by (auto simp: lfs_bd_prog.simps)
    next
      case False
      then show ?thesis using assms(4,5) by (intro written_trans[OF w 2(3)[OF e2] _ _ window null]) simp_all
    qed
    then show ?thesis using True 2(1,2) unfolding unfold by (auto simp: written_def)
  qed
qed

lemma commit_attrs_ok:
  assumes "cm_block commit < block_count cfg" "prog_at p (cm_block commit) (unat (cm_off commit))" "usable d r" "log_ok es"
    "unat (cm_off commit) + length (log_bytes (cm_ptag commit) es) \<le> unat (cm_end commit)" "unat (cm_end commit) \<le> unat (block_size cfg)"
    "es \<noteq> []"
  shows "\<exists>err commit1 p1 r1 d1. commit_attrs cfg es commit p r d = Some (err, commit1, p1, r1, d1) \<and> reported cfg err \<and>
    (err = 0 \<longrightarrow> written commit p d (log_bytes (cm_ptag commit) es) commit1 p1 r1 d1 \<and>
      cm_ptag commit1 = last_tag (cm_ptag commit) es)"
  using assms
proof (induction es arbitrary: commit p r d)
  case (Cons e es)
  obtain tag data where e: "e = (tag, data)" by (cases e)
  have t: "lfs_tag_isvalid tag" "unat (lfs_tag_dsize tag) = 4 + length data" and log: "log_ok es"
    using Cons.prems(4) by (auto simp: log_ok_def e)
  let ?w = "be32_word (tag XOR cm_ptag commit) @ data"
  have "unat (cm_off commit) + 4 + length data \<le> unat (cm_end commit)" using Cons.prems(5) by (simp add: e)
  from lfs_dir_commitattr_ok[OF Cons.prems(1-3) this Cons.prems(6) t] obtain err c1 p1 r1 d1 where
    1: "lfs_dir_commitattr cfg commit tag (In_Memory data) p r d = Some (err, c1, p1, r1, d1)" "reported cfg err"
      "err = 0 \<Longrightarrow> written commit p d ?w c1 p1 r1 d1 \<and> cm_ptag c1 = tag" by blast
  show ?case
  proof (cases "err = 0 \<and> es \<noteq> []")
    case False
    then show ?thesis using 1 by (cases "err = 0") (auto simp: e last_tag_def)
  next
    case True
    then have w: "written commit p d ?w c1 p1 r1 d1" "cm_ptag c1 = tag" using 1(3) by simp_all
    have "cm_block c1 < block_count cfg" "prog_at p1 (cm_block c1) (unat (cm_off c1))" "usable d1 r1"
      "unat (cm_off c1) + length (log_bytes (cm_ptag c1) es) \<le> unat (cm_end c1)" "unat (cm_end c1) \<le> unat (block_size cfg)"
      using w Cons.prems(1,5,6) by (simp_all add: written_def e)
    from Cons.IH[OF this(1-3) log this(4,5) conjunct2[OF True]] obtain err2 c2 p2 r2 d2 where
      2: "commit_attrs cfg es c1 p1 r1 d1 = Some (err2, c2, p2, r2, d2)" "reported cfg err2"
        "err2 = 0 \<Longrightarrow> written c1 p1 d1 (log_bytes tag es) c2 p2 r2 d2 \<and> cm_ptag c2 = last_tag tag es" unfolding w(2) by blast
    have "log_bytes tag es \<noteq> []" using True by (cases es) (auto simp: be32_word_def le32_def)
    moreover have "unat (cm_off commit) + length ?w + length (log_bytes tag es) \<le> unat (block_size cfg)"
      using Cons.prems(5,6) by (simp add: e)
    moreover have "window_ok (Some p)" using Cons.prems(2) by (simp add: window_ok_def prog_at_def)
    ultimately have "err2 = 0 \<Longrightarrow> written commit p d (?w @ log_bytes tag es) c2 p2 r2 d2"
      using written_trans[OF w(1)] 2(3) block_not_null(1)[OF Cons.prems(1)] by blast
    moreover have "last_tag tag es = last_tag (cm_ptag commit) (e # es)" using True by (simp add: last_tag_def)
    ultimately show ?thesis using True 1(1) 2 by (simp add: e)
  qed
qed simp

lemma log_lookup:
  assumes "block < block_count cfg" "log_ok es" "es \<noteq> []" "4 + length (log_bytes 0xFFFFFFFF es) \<le> unat (block_size cfg)"
    "segment 4 (length (log_bytes 0xFFFFFFFF es)) (contents d block) = log_bytes 0xFFFFFFFF es" "rcache_ok d r"
    "fst (md_pair dir) = block" "unat (md_off dir) = 4 + length (log_bytes 0xFFFFFFFF es)" "md_etag dir = last_tag 0xFFFFFFFF es"
    "\<not> lfs_gstate_hasmovehere gdisk (md_pair dir)" "\<forall>(tag, data) \<in> set es. lfs_tag_type1 tag \<noteq> ucast LFS_TYPE_SPLICE"
  shows "\<exists>res buf r1 d1. lfs_dir_get cfg gdisk dir gmask gtag r d = Some (res, buf, r1, d1) \<and>
    (device_error cfg res \<and> buf = None \<or> lookup_result (lfs_tag_size gtag) (newest gmask gtag es) res buf)"
proof -
  have "lfs_tag_isvalid (last_tag 0xFFFFFFFF es)" using assms(2,3) by (auto simp: log_ok_def last_tag_def dest!: last_in_set)
  then have etag: "md_etag dir = last_tag 0xFFFFFFFF es AND 0x7FFFFFFF" using assms(9) by (simp add: isvalid_mask)
  have "\<forall>(tag, data) \<in> set es. lfs_tag_id gmask = 0 \<or> lfs_tag_type1 tag \<noteq> ucast LFS_TYPE_SPLICE" using assms(11) by auto
  from getslice_loop_ok[OF assms(1,2) this assms(4,5,8) etag assms(6), of gtag "lfs_tag_size gtag"] show ?thesis
    using assms(7,10) by (auto simp: lfs_dir_get_def lfs_dir_getslice_def Let_def)
qed

lemma commit_then_lookup:
  assumes "block < block_count cfg" "c_block p = LFS_BLOCK_NULL" "length (c_buffer p) = unat (cache_size cfg)" "usable d r"
    "log_ok es" "es \<noteq> []" "4 + length (log_bytes 0xFFFFFFFF es) \<le> unat end_off" "unat end_off \<le> unat (block_size cfg)"
    "\<forall>(tag, data) \<in> set es. lfs_tag_type1 tag \<noteq> ucast LFS_TYPE_SPLICE"
    "fst (md_pair dir) = block" "\<not> lfs_gstate_hasmovehere gdisk (md_pair dir)"
  shows "\<exists>err c1 p1 r1 d1. lfs_dir_commitprog cfg (new_commit block end_off) (le32 (lfs_tole32 revision)) p r d = Some (err, c1, p1, r1, d1) \<and>
    reported cfg err \<and> (err = 0 \<longrightarrow> (\<exists>err c2 p2 r2 d2. commit_attrs cfg es c1 p1 r1 d1 = Some (err, c2, p2, r2, d2) \<and>
      reported cfg err \<and> (err = 0 \<longrightarrow> (\<exists>err p3 r3 d3. lfs_bd_sync cfg validate p2 r2 d2 = Some (err, p3, r3, d3) \<and> reported cfg err \<and>
        (err = 0 \<longrightarrow> (\<exists>res buf r4 d4.
          lfs_dir_get cfg gdisk (dir \<lparr> md_off := cm_off c2, md_etag := cm_ptag c2 \<rparr>) gmask gtag r3 d3 = Some (res, buf, r4, d4) \<and>
          (device_error cfg res \<and> buf = None \<or> lookup_result (lfs_tag_size gtag) (newest gmask gtag es) res buf)))))))"
proof -
  let ?c = "new_commit block end_off" and ?log = "log_bytes 0xFFFFFFFF es"
  have c: "cm_block ?c = block" "cm_off ?c = 0" "cm_ptag ?c = 0xFFFFFFFF" "cm_end ?c = end_off" by (simp_all add: new_commit_def)
  have "prog_at p (cm_block ?c) (unat (cm_off ?c))" using assms(2,3) by (simp add: c prog_at_def pcache_ok_null)
  moreover have "unat (cm_off ?c) + length (le32 (lfs_tole32 revision)) \<le> unat (block_size cfg)" using assms(7,8) by (simp add: c)
  ultimately obtain err c1 p1 r1 d1 where
    1: "lfs_dir_commitprog cfg ?c (le32 (lfs_tole32 revision)) p r d = Some (err, c1, p1, r1, d1)" "reported cfg err"
      "err = 0 \<Longrightarrow> written ?c p d (le32 (lfs_tole32 revision)) c1 p1 r1 d1 \<and> cm_ptag c1 = 0xFFFFFFFF"
    using lfs_dir_commitprog_ok[of ?c p d r "le32 (lfs_tole32 revision)"] assms(1,4) c by auto
  show ?thesis
  proof (cases "err = 0")
    case False
    then show ?thesis using 1(1,2) by simp
  next
    case e1: True
    then have w: "usable d1 r1" "cm_block c1 = block" "cm_end c1 = end_off" "unat (cm_off c1) = 4" "prog_at p1 block 4" "cm_ptag c1 = 0xFFFFFFFF"
      using 1(3) by (simp_all add: written_def c)
    have "cm_block c1 < block_count cfg" "prog_at p1 (cm_block c1) (unat (cm_off c1))"
      "unat (cm_off c1) + length (log_bytes (cm_ptag c1) es) \<le> unat (cm_end c1)" "unat (cm_end c1) \<le> unat (block_size cfg)"
      using w assms(1,7,8) by simp_all
    from commit_attrs_ok[OF this(1,2) w(1) assms(5) this(3,4) assms(6)] obtain err2 c2 p2 r2 d2 where
      2: "commit_attrs cfg es c1 p1 r1 d1 = Some (err2, c2, p2, r2, d2)" "reported cfg err2"
        "err2 = 0 \<Longrightarrow> written c1 p1 d1 ?log c2 p2 r2 d2 \<and> cm_ptag c2 = last_tag 0xFFFFFFFF es" unfolding w(6) by blast
    show ?thesis
    proof (cases "err2 = 0")
      case False
      then show ?thesis using 1(1,2) 2(1,2) by simp
    next
      case e2: True
      obtain e es' where es: "es = e # es'" using assms(6) by (cases es) auto
      have "?log \<noteq> []" unfolding es by (cases e) (simp add: be32_word_def le32_def)
      then have w2: "usable d2 r2" "unat (cm_off c2) = 4 + length ?log" "prog_at p2 block (4 + length ?log)"
        "c_block p2 = block \<Longrightarrow> 0 < c_size p2" "view (Some p2) d2 block = overlay (view (Some p1) d1 block) 4 ?log"
        using 2(3)[OF e2] w by (simp_all add: written_def)
      have null: "block \<noteq> LFS_BLOCK_NULL" by (rule block_not_null[OF assms(1)])
      have "length (view (Some p1) d1 block) = unat (block_size cfg)"
        using w(5) null by (intro length_view) (simp_all add: window_ok_def prog_at_def)
      then have log: "segment 4 (length ?log) (view (Some p2) d2 block) = ?log"
        using assms(7,8) by (simp add: w2(5) segment_overlay_inside segment_all)
      have p2: "pcache_ok p2" "c_block p2 = LFS_BLOCK_NULL \<or> c_block p2 < block_count cfg \<and> 0 < c_size p2"
        using w2(3,4) assms(1) by (auto simp: prog_at_def)
      from lfs_bd_sync_ok[OF p2 w2(1), of validate] obtain err3 p3 r3 d3 where
        3: "lfs_bd_sync cfg validate p2 r2 d2 = Some (err3, p3, r3, d3)" and synced: "err3 = 0 \<Longrightarrow> rcache_ok d3 r3 \<and>
          (\<forall>b i n. b \<noteq> LFS_BLOCK_NULL \<longrightarrow> i + n \<le> unat (block_size cfg) \<longrightarrow>
            (b = c_block p2 \<longrightarrow> i + n \<le> unat (c_off p2) + unat (c_size p2)) \<longrightarrow>
            segment i n (contents d3 b) = segment i n (view (Some p2) d2 b))" by blast
      let ?dir = "dir \<lparr> md_off := cm_off c2, md_etag := cm_ptag c2 \<rparr>"
      have "\<exists>res buf r4 d4. lfs_dir_get cfg gdisk ?dir gmask gtag r3 d3 = Some (res, buf, r4, d4) \<and>
          (device_error cfg res \<and> buf = None \<or> lookup_result (lfs_tag_size gtag) (newest gmask gtag es) res buf)" if e3: "err3 = 0"
      proof -
        have fits: "4 + length ?log \<le> unat (block_size cfg)" using assms(7,8) by simp
        have "block = c_block p2 \<Longrightarrow> 4 + length ?log \<le> unat (c_off p2) + unat (c_size p2)"
          using w2(3) null by (auto simp: prog_at_def)
        then have "segment 4 (length ?log) (contents d3 block) = ?log"
          using synced[OF e3] null fits log by metis
        then show ?thesis
          using assms(10,11) 2(3)[OF e2] w2(2) synced[OF e3] by (intro log_lookup[OF assms(1,5,6) fits _ _ _ _ _ _ assms(9)]) simp_all
      qed
      then show ?thesis using 1(1,2) 2(1,2) 3 lfs_bd_sync_frame[OF 3] by blast
    qed
  qed
qed

end

end
