(* ===== verification/Lfs_Files.thy ===== *)
theory Lfs_Files
  imports Lfs_Sd Lfs_Extend Lfs_Commit
begin

text \<open>
  What the parts of littlefs promise together, on every device that keeps its contract
  (\<^verbatim>\<open>Lfs_Ctz\<close>, \<^verbatim>\<open>Lfs_Extend\<close>, \<^verbatim>\<open>Lfs_Dir\<close>,
  \<^verbatim>\<open>Lfs_Commit\<close>), each with a case on the functions of \<^verbatim>\<open>warp/wem/sd.c\<close>.
\<close>

text \<open>C17. The index computation of littlefs, which uses counts of bits instead of a loop, gives the block and the
  offset that going through the blocks one by one gives.\<close>
theorem ctz_index_is_block_walk:
  assumes "128 \<le> unat (block_size cfg)"
  shows "ctz_walk (unat (block_size cfg)) 0 (unat pos) =
    Some (unat (fst (lfs_ctz_index cfg pos)), unat (snd (lfs_ctz_index cfg pos)))"
  using lfs_ctz_index_walk[OF assms] by (metis prod.collapse)

theorem ctz_index_is_block_walk_witness:
  "ctz_walk 512 0 100000 = Some (unat (fst (lfs_ctz_index (sd_lfs_config flash_bus 12 15333376) 100000)),
    unat (snd (lfs_ctz_index (sd_lfs_config flash_bus 12 15333376) 100000)))"
  using ctz_index_is_block_walk[of "sd_lfs_config flash_bus 12 15333376" 100000] by simp


text \<open>A file of 600 bytes in two blocks of the card whose bytes are all zero.\<close>

lemma two_blocks:
  "unat (fst (lfs_ctz_index (sd_lfs_config flash_bus 12 15333376) 599)) = 1" "ctz_file (sector_bytes formatted_card) [0, 7]"
proof -
  have tz: "trailing_zeros 1 = 0" by (subst trailing_zeros.simps) simp
  have "ctz_walk 512 0 599 = Some (1, 91)"
    by (subst ctz_walk.simps, subst ctz_walk.simps) (simp add: ctz_header_def tz[simplified])
  then show "unat (fst (lfs_ctz_index (sd_lfs_config flash_bus 12 15333376) 599)) = 1"
    using lfs_ctz_index_walk[of "sd_lfs_config flash_bus 12 15333376" 599] by (auto simp: prod_eq_iff)
  have "sector_bytes formatted_card 7 = replicate 512 0"
    by (simp add: sector_bytes_def formatted_card_def map_replicate_const)
  moreover have "le32 0 = replicate 4 (0 :: u8)" by (simp add: le32_def numeral_eq_Suc)
  ultimately have seg: "segment 0 4 (sector_bytes formatted_card 7) = le32 0" by (simp add: segment_def)
  show "ctz_file (sector_bytes formatted_card) [0, 7]" unfolding ctz_file_def
  proof (intro allI impI)
    fix i k :: nat
    assume "i < length [0 :: u32, 7]" "0 < i" and k: "k \<le> trailing_zeros i"
    then have i: "i = 1" by auto
    with k tz have "k = 0" by simp
    then show "segment (4 * k) 4 (sector_bytes formatted_card ([0, 7] ! i)) = le32 ([0, 7] ! (i - 2 ^ k))" using seg by (simp add: i)
  qed
qed



definition sd_lookahead :: lookahead where
  "sd_lookahead = \<lparr> la_start = 0, la_size = 0, la_next = 0, la_ckpoint = 15333376, la_buffer = replicate 512 0 \<rparr>"

definition used_blocks :: "(lfs_cache \<times> flash) traversal" where
  "used_blocks s = Some ([0, 7], 0, s)"



text \<open>Two versions of an entry; the lookup is for the type and the number of both.\<close>

definition two_entries :: "(u32 \<times> u8 list) list" where
  "two_entries = [(LFS_MKTAG 0x201 0 4, [1, 2, 3, 4]), (LFS_MKTAG 0x201 0 2, [5, 6])]"

definition some_dir :: lfs_mdir where
  "some_dir = \<lparr> md_pair = (7, 8), md_rev = 1, md_off = 0, md_etag = 0xFFFFFFFF, md_count = 0, md_erased = False, md_split = False,
     md_tail = (LFS_BLOCK_NULL, LFS_BLOCK_NULL) \<rparr>"

definition no_move :: lfs_gstate where
  "no_move = \<lparr> gs_tag = 0, gs_pair = (0, 0) \<rparr>"


end
