(* ===== verification/Spec2Isabelle.thy ===== *)
theory Spec2Isabelle
  imports Ringbuffer Checksums Numeric Moving_Average Tfp System_Timer Callback_Value Ticks Rs485
    Modbus Meter_Data Meter_Frames Meter Meter_Values Meter_Cycle
    Meter_Cycle_Props Meter_Eltako Meter_Eltako_Props Meter_Iskra Meter_Tick Sd_Paths Sd_Files
    Sd_Card Sd_Card_Props Sd_Handlers Sd_Stream Data_Storage Sdmmc
    Sdmmc_Transfer Sd_Tick Contactor_Check Usb Tng_Flash Tng_Led Tng Tng_Monitor
    I2c_Fifo Spi_Fifo Uartbb Bootloader_Irq Coop_Task Voltage Eeprom Lfs_Files
begin

text \<open>
  A verification development for bricklib2, the C library of the firmware of Tinkerforge Bricklets and of
  the WARP charger and energy manager. It models the library's own logic: data structures and checksums,
  the message protocol, the value callbacks, the RS485 and Modbus stack, the energy meters read over it,
  the SD card storage of the energy manager, the USB modules (TNG) with their messages and firmware
  update, and below them the drivers of the buses, the interrupts of the connection to the Brick and the
  switch between cooperative tasks. Every theory names the source files it models.

  \<^bold>\<open>Conventions.\<close> Machine integers are words (\<^verbatim>\<open>u8\<close>, \<^verbatim>\<open>u16\<close>,
  \<^verbatim>\<open>u32\<close>, \<^verbatim>\<open>u64\<close>), so wrap-around is that of the C code. A C structure is a
  record with the field names of the source; a function takes the state it uses and returns the new one.
  An array access is \<^verbatim>\<open>arr_get\<close> or \<^verbatim>\<open>arr_set\<close>: \<^verbatim>\<open>None\<close> is an access out
  of range, so a function that returns \<^verbatim>\<open>Some\<close> has stayed in its arrays. A loop that may
  not end is a partial function, where \<^verbatim>\<open>None\<close> also means that it runs forever. What an
  interrupt, the hardware or another task does in between is an argument: every read of the clock has a
  value of its own, a yield is what the rest of the firmware does meanwhile.

  \<^bold>\<open>Parts.\<close>
  \<^item> Prelude: \<^verbatim>\<open>Bricklib_Prelude\<close> (words, array accesses, little endian bytes).
  \<^item> \<^verbatim>\<open>utility/\<close>: \<^verbatim>\<open>Ringbuffer\<close> (ringbuffer.c, refined to the queue of
    \<^verbatim>\<open>Bounded_Queue\<close>), \<^verbatim>\<open>Crc_Tables\<close> and \<^verbatim>\<open>Checksums\<close> (crc8.c, crc16.c,
    crc32.c, pearson_hash), \<^verbatim>\<open>Numeric\<close> (sqrt.c, util_definitions.h),
    \<^verbatim>\<open>Moving_Average\<close>, \<^verbatim>\<open>Callback_Value\<close> (callback_value.h) and
    \<^verbatim>\<open>Ticks\<close> (communication_callback.c, led_flicker.c).
  \<^item> \<^verbatim>\<open>protocols/tfp/\<close>: \<^verbatim>\<open>Tfp\<close> (message header, base58 UIDs).
    \<^verbatim>\<open>hal/\<close>: \<^verbatim>\<open>System_Timer\<close>, \<^verbatim>\<open>I2c_Fifo\<close> and
    \<^verbatim>\<open>Spi_Fifo\<close> (drivers of the hardware FIFOs, with their calls from tasks) and
    \<^verbatim>\<open>Uartbb\<close> (uartbb.c: bytes on a pin and formatted output).
  \<^item> \<^verbatim>\<open>bootloader/\<close>: \<^verbatim>\<open>Bootloader_Irq\<close> (bootloader_xmc_irq.c: the receive
    interrupt fills the ring buffer, the transmit interrupt sends a message).
    \<^verbatim>\<open>os/\<close>: \<^verbatim>\<open>Coop_Task\<close> (coop_task.c and the PendSV handler, on the registers
    and the memory of the processor).
  \<^item> \<^verbatim>\<open>warp/\<close>: \<^verbatim>\<open>Rs485\<close> (rs485.c: one byte array shared by two ring buffers,
    interrupts, frames), \<^verbatim>\<open>Modbus\<close> (modbus.c: the wire state machine of the master, requests,
    responses, exceptions). On them the meters: \<^verbatim>\<open>Meter_Data\<close> (the register tables),
    \<^verbatim>\<open>Meter_Frames\<close> (requests and responses of meter.c), \<^verbatim>\<open>Meter\<close> (conversion of
    register values, the current table, the stream of values), \<^verbatim>\<open>Meter_Cycle\<close>
    (meter_generic.c, meter_eastron.c), \<^verbatim>\<open>Meter_Eltako\<close>, \<^verbatim>\<open>Meter_Iskra\<close> and
    \<^verbatim>\<open>Meter_Tick\<close> (detection and dispatch). \<^verbatim>\<open>Meter_Values\<close>,
    \<^verbatim>\<open>Meter_Cycle_Props\<close> and \<^verbatim>\<open>Meter_Eltako_Props\<close> hold their properties.
    \<^verbatim>\<open>Contactor_Check\<close> (contactor_check.c) stands alone.
  \<^item> \<^verbatim>\<open>warp/wem/\<close>: \<^verbatim>\<open>Sd_Paths\<close> (names of files), \<^verbatim>\<open>Sd_Files\<close>
    (the files of data points, the read buffer, the list of missing files), \<^verbatim>\<open>Sd_Card\<close> (the
    contract of the file system and what the functions do under it), \<^verbatim>\<open>Sd_Card_Props\<close>,
    \<^verbatim>\<open>Sd_Handlers\<close> (queues and requests), \<^verbatim>\<open>Sd_Stream\<close> (their properties),
    \<^verbatim>\<open>Data_Storage\<close> (data_storage.c and its pages on the card), \<^verbatim>\<open>Sd_Tick\<close>
    (initialisation and loop of sd.c) and \<^verbatim>\<open>Sdmmc\<close> (sdmmc.c: commands, initialisation and
    blocks of the card over SPI; \<^verbatim>\<open>Sd_Tick\<close> takes its outcome as an input) with
    \<^verbatim>\<open>Sdmmc_Transfer\<close> (its transfers by interrupt). \<^verbatim>\<open>Voltage\<close> (voltage.c)
    and \<^verbatim>\<open>Eeprom\<close> (eeprom.c: the energies at the last reset, with the meter they belong to).
  \<^item> \<^verbatim>\<open>warp/wem/littlefs/\<close>, the lower half of the file system: \<^verbatim>\<open>Lfs_Util\<close>
    (lfs_util.h, lfs_util.c), \<^verbatim>\<open>Lfs_Bd\<close> (the block device of lfs.c with its two caches and the
    contract of the device below), \<^verbatim>\<open>Lfs_Bd_Write\<close> and \<^verbatim>\<open>Lfs_Frame\<close> (what its
    operations do under the contract and on every device), \<^verbatim>\<open>Lfs_Sd\<close> (the functions of sd.c
    below it, on the card of \<^verbatim>\<open>Sdmmc\<close>), \<^verbatim>\<open>Lfs_Alloc\<close> (the block allocator),
    \<^verbatim>\<open>Lfs_Ctz\<close> and \<^verbatim>\<open>Lfs_Extend\<close> (the block lists of files),
    \<^verbatim>\<open>Lfs_Tags\<close> (pairs, tags, global state), \<^verbatim>\<open>Lfs_Dir\<close> and
    \<^verbatim>\<open>Lfs_Commit\<close> (looking up and appending entries of a metadata log) and
    \<^verbatim>\<open>Lfs_Files\<close> (the results).
  \<^item> \<^verbatim>\<open>tng/\<close>: \<^verbatim>\<open>Usb\<close> (usb_stm32/usb.c: the buffers between the message loop and the
    USB library), \<^verbatim>\<open>Tng_Flash\<close> (tng_firmware.c, the writers of tng_communication.c and the
    memory map), \<^verbatim>\<open>Tng\<close> (tng.c, tng_communication.c: requests, responses and the tick),
    \<^verbatim>\<open>Tng_Led\<close> (patterns of the status LED) and \<^verbatim>\<open>Tng_Monitor\<close>
    (tng_energy_monitor.c).

  \<^bold>\<open>Interfaces.\<close> A theory imports the components its code calls. The locale
  \<^verbatim>\<open>bounded_queue\<close> of \<^verbatim>\<open>Bounded_Queue\<close> is the contract of the ring buffer, and
  its interpretation rests on the model of ringbuffer.c. The locale \<^verbatim>\<open>card\<close> of
  \<^verbatim>\<open>Sd_Card\<close> is what the storage relies on of the files of littlefs on a card without
  faults; since the upper half of littlefs is not modelled, it is interpreted by a card in memory that keeps the
  contract. The locale \<^verbatim>\<open>block_device\<close> of \<^verbatim>\<open>Lfs_Bd\<close> is what littlefs
  relies on of the device: calls return, an error changes no other block, what is programmed without an error is there.
  It is interpreted by the functions of sd.c over those of sdmmc.c, on a card behind the serial interface that
  answers the protocol and may have sectors that cannot be read.
  The locale \<^verbatim>\<open>flash\<close> of \<^verbatim>\<open>Tng_Flash\<close> is what the firmware update relies on of
  the flash of the processor (erased pages, programmed words), interpreted by a flash in memory.
  Meters reach Modbus through the request record of \<^verbatim>\<open>Modbus\<close>, Modbus reaches the line
  through the ring buffers of \<^verbatim>\<open>Rs485\<close>.

  \<^bold>\<open>What is shown.\<close> Data structures: refinement of the ring buffer to a bounded queue, checksums
  equal to shift registers, detection of bursts, the exact rounding of the square root and of the moving
  average, round trips of UIDs and headers. RS485 and Modbus: no sequence of interrupts, ticks and calls
  leaves the byte array, only a valid response is accepted, every complete response is answered within
  three steps, exceptions and requests are on the line as they must be. Meters: the stream delivers every
  value once, the read cycles cover the tables, detection moves on; and what goes wrong after timeouts,
  re-initialisation and in the conversion of extreme exponents. SD card: what is written is read back
  through paths, files, read buffer and handlers, pages survive a restart, failed points stay queued; and
  what is lost or stuck: a remembered negative answer, a formatted card, too many errors, large cards, a
  card that stays busy after a write. An interrupt driven transfer to the card exchanges the bytes of
  one that waits. TNG: responses leave in order, an uploaded firmware is in place and checked, UIDs are
  read back, a request is answered in its tick; and where requests overrun, replace or block each other.
  Contactor check: when an error is withdrawn although it persists. Drivers: the transfer of a register on the
  I2C bus, its states, the call that never returns; the timing of a bit-banged byte and the round trip of
  printed numbers; the interrupts append to the ring buffer and send a message once. Tasks: in every run the
  switches refine the specification in which each task has its registers to itself. The resettable energies
  survive a restart. littlefs, on every device that keeps the contract: what is programmed through the caches is read
  back, free blocks are handed out once, positions of files are found, a file is extended without touching a block in
  use and whatever blocks turn out bad, the newest entry of a committed log is found; and a read that failed leaves a
  cache that answers the next one with stale bytes.

  \<^bold>\<open>Parameters and bounds.\<close> Floating point arithmetic, the square root and the arc cosine of the C
  library and the file interface of littlefs are records of functions; theorems hold for all of them or name what they need.
  The value of an uninitialised variable is an argument. Lists of interrupts, yields and rounds are of any
  length; where a function takes such a list it is the number of steps the surroundings grant, and the
  theorems that promise a result say which lists are enough.

  \<^bold>\<open>Not modelled.\<close> Register set-up, interrupt plumbing and the drivers of pins, PWM and timers
  (\<^verbatim>\<open>hal/\<close>), the calls into the boot loader, logging, the real time clock of the energy manager,
  the set-up and the library of the USB: they are sequences of register accesses without a state of their own;
  the code for the first hardware version of the energy manager and for the hardware versions of the charger
  other than those of the contactor check; of littlefs the fetching, compacting and checksum entries of metadata pairs,
  directories, files and mounting, and the traversal of the file system, which is a parameter of the allocator; and the
  other vendored libraries (lwIP, FatFs, vendor drivers).
\<close>

end
